(* ===== verification/FarderPrelude.thy ===== *)
theory FarderPrelude
  imports Main "HOL-Library.Word" "HOL-Library.AList" "HOL-Library.Char_ord"
    "HOL-Library.List_Lexorder" "HOL-Library.Product_Lexorder" "HOL-Library.Multiset"
begin

text \<open>
  What the components share: the reading of Rust's early returns as a sum type
  (\<open>ensure\<close>, \<open>or_fail\<close>, \<open>try_then\<close> are \<open>ensure!\<close>, \<open>.context(..)?\<close> and \<open>?\<close>), the checked
  loop over a slice, the interface of a step function that can refuse its input (a fold of
  such steps, and what its runs inherit from the steps), and generic lemmas on association
  lists, sets and big-endian bytes.
\<close>

named_theorems result_simps \<open>when a chain of checks returns \<open>Ok\<close>\<close>

type_synonym byte = "8 word"
type_synonym bytes = "byte list"

section \<open>Results: early returns as a sum\<close>

text \<open>\<open>ensure!(c, e); k\<close>\<close>

definition ensure :: "bool \<Rightarrow> 'e \<Rightarrow> 'e + 'a \<Rightarrow> 'e + 'a" where
  "ensure c e k = (if c then k else Inl e)"

text \<open>\<open>let x = o.context(e)?; k x\<close>\<close>

definition or_fail :: "'b option \<Rightarrow> 'e \<Rightarrow> ('b \<Rightarrow> 'e + 'a) \<Rightarrow> 'e + 'a" where
  "or_fail o' e k = (case o' of None \<Rightarrow> Inl e | Some x \<Rightarrow> k x)"

text \<open>\<open>let x = r?; k x\<close>\<close>

definition try_then :: "'e + 'b \<Rightarrow> ('b \<Rightarrow> 'e + 'a) \<Rightarrow> 'e + 'a" where
  "try_then r k = (case r of Inl e \<Rightarrow> Inl e | Inr x \<Rightarrow> k x)"

lemma ensure_Inr [result_simps]: "ensure c e k = Inr x \<longleftrightarrow> c \<and> k = Inr x"
  by (simp add: ensure_def)

lemma or_fail_Inr [result_simps]: "or_fail o' e k = Inr x \<longleftrightarrow> (\<exists>y. o' = Some y \<and> k y = Inr x)"
  by (cases o') (simp_all add: or_fail_def)

lemma try_then_Inr [result_simps]: "try_then r k = Inr x \<longleftrightarrow> (\<exists>y. r = Inr y \<and> k y = Inr x)"
  by (cases r) (simp_all add: try_then_def)

lemma ensure_True [simp]: "ensure True e k = k"
  and ensure_False [simp]: "ensure False e k = Inl e"
  by (simp_all add: ensure_def)

lemma or_fail_simps [simp]: "or_fail None e k = Inl e" "or_fail (Some x) e k = k x"
  by (simp_all add: or_fail_def)

lemma try_then_simps [simp]: "try_then (Inl e) k = Inl e" "try_then (Inr x) k = k x"
  by (simp_all add: try_then_def)

lemma ensure_cong [cong]: "c = c' \<Longrightarrow> ensure c e k = ensure c' e k"
  by simp

text \<open>A \<open>for\<close> loop whose body only checks: it stops at the first failing element.\<close>

fun check_each :: "('b \<Rightarrow> 'e + unit) \<Rightarrow> 'b list \<Rightarrow> 'e + unit" where
  "check_each f [] = Inr ()"
| "check_each f (x # xs) = try_then (f x) (\<lambda>_. check_each f xs)"

lemma check_each_Inr [result_simps]:
  "check_each f xs = Inr u \<longleftrightarrow> (\<forall>x \<in> set xs. f x = Inr ())"
  by (induction xs) (auto simp: result_simps)

section \<open>A step that may refuse, and the fold over it\<close>

text \<open>
  The interface between a component with a fallible step and the code that runs a whole
  history through it. \<open>run\<close> stops at the first refusal, as a loop of \<open>step(x)?\<close> does.
\<close>

locale fallible_fold =
  fixes step :: "'s \<Rightarrow> 'i \<Rightarrow> 'e + 's"
    and run :: "'s \<Rightarrow> 'i list \<Rightarrow> 'e + 's"
  assumes run_Nil: "run s [] = Inr s"
    and run_Cons: "run s (x # xs) = try_then (step s x) (\<lambda>s'. run s' xs)"
begin

lemma run_Cons_Inr: "run s (x # xs) = Inr t \<longleftrightarrow> (\<exists>s'. step s x = Inr s' \<and> run s' xs = Inr t)"
  by (simp add: run_Cons result_simps)

lemma run_append: "run s (xs @ ys) = try_then (run s xs) (\<lambda>s'. run s' ys)"
proof (induction xs arbitrary: s)
  case Nil
  show ?case by (simp add: run_Nil)
next
  case (Cons x xs)
  then show ?case by (cases "step s x") (simp_all add: run_Cons)
qed

lemma run_append_Inr: "run s (xs @ ys) = Inr t \<longleftrightarrow> (\<exists>m. run s xs = Inr m \<and> run m ys = Inr t)"
  by (simp add: run_append result_simps)

text \<open>A step invariant is a run invariant.\<close>

lemma run_invariant:
  assumes kept: "\<And>s x t. I s \<Longrightarrow> step s x = Inr t \<Longrightarrow> I t"
  shows "run s xs = Inr t \<Longrightarrow> I s \<Longrightarrow> I t"
proof (induction xs arbitrary: s)
  case Nil
  then show ?case by (simp add: run_Nil)
next
  case (Cons x xs)
  then obtain s' where "step s x = Inr s'" and "run s' xs = Inr t" by (auto simp: run_Cons_Inr)
  with Cons kept show ?case by blast
qed

text \<open>A reflexive and transitive relation that every step respects relates the ends of a run.\<close>

lemma run_relation:
  assumes rel: "\<And>s x t. I s \<Longrightarrow> step s x = Inr t \<Longrightarrow> R s t"
    and kept: "\<And>s x t. I s \<Longrightarrow> step s x = Inr t \<Longrightarrow> I t"
    and refl: "\<And>s. R s s" and trans: "\<And>a b c. R a b \<Longrightarrow> R b c \<Longrightarrow> R a c"
  shows "run s xs = Inr t \<Longrightarrow> I s \<Longrightarrow> R s t"
proof (induction xs arbitrary: s)
  case Nil
  then show ?case by (simp add: run_Nil refl)
next
  case (Cons x xs)
  then obtain s' where st: "step s x = Inr s'" and rest: "run s' xs = Inr t"
    by (auto simp: run_Cons_Inr)
  from Cons.prems st have "R s s'" and "I s'" using rel kept by blast+
  with Cons.IH [OF rest] show ?case using trans by blast
qed

text \<open>Every input of an accepted run was accepted at a state the run went through.\<close>

lemma run_split_at:
  assumes "run s xs = Inr t" and "x \<in> set xs"
  obtains pre post m m' where "xs = pre @ x # post" and "run s pre = Inr m"
    and "step m x = Inr m'" and "run m' post = Inr t"
proof -
  from assms(2) obtain pre post where xs: "xs = pre @ x # post" by (auto dest: split_list)
  with assms(1) obtain m m' where "run s pre = Inr m" "step m x = Inr m'" "run m' post = Inr t"
    by (auto simp: run_append_Inr run_Cons_Inr)
  with xs show ?thesis by (rule that)
qed

end

text \<open>\<open>for x in xs { s = step(s, x)?; }\<close>: the generic instance of that interface.\<close>

fun fold_result :: "('s \<Rightarrow> 'i \<Rightarrow> 'e + 's) \<Rightarrow> 's \<Rightarrow> 'i list \<Rightarrow> 'e + 's" where
  "fold_result step s [] = Inr s"
| "fold_result step s (x # xs) = try_then (step s x) (\<lambda>s'. fold_result step s' xs)"

interpretation fold_result: fallible_fold step "fold_result step" for step
  by unfold_locales simp_all

section \<open>Association lists, sets, saturating counters\<close>

text \<open>\<open>HashMap::entry(k).or_insert(v)\<close>: an existing entry stays.\<close>

definition or_insert :: "'k \<Rightarrow> 'v \<Rightarrow> ('k \<rightharpoonup> 'v) \<Rightarrow> ('k \<rightharpoonup> 'v)" where
  "or_insert k v m = (case m k of None \<Rightarrow> m(k \<mapsto> v) | Some _ \<Rightarrow> m)"

lemma or_insert_same: "or_insert k v m k = (case m k of None \<Rightarrow> Some v | Some w \<Rightarrow> Some w)"
  by (auto simp: or_insert_def split: option.split)

lemma or_insert_other [simp]: "k' \<noteq> k \<Longrightarrow> or_insert k v m k' = m k'"
  by (auto simp: or_insert_def split: option.split)

lemma or_insert_keeps: "m k' = Some w \<Longrightarrow> or_insert k v m k' = Some w"
  by (cases "k' = k") (auto simp: or_insert_def split: option.split)

lemma dom_or_insert [simp]: "dom (or_insert k v m) = insert k (dom m)"
  by (auto simp: or_insert_def split: option.split)

lemma map_of_update [simp]: "map_of (AList.update k v al) = (map_of al)(k \<mapsto> v)"
  by (rule AList.update_conv')

lemma map_of_delete [simp]: "map_of (AList.delete k al) = (map_of al)(k := None)"
  by (rule AList.delete_conv')

text \<open>\<open>saturating_add(1)\<close> on a \<open>u32\<close>.\<close>

definition u32_max :: nat where
  "u32_max = 4294967295"

definition sat_inc :: "nat \<Rightarrow> nat" where
  "sat_inc n = min (n + 1) u32_max"

lemma sat_inc_le: "sat_inc n \<le> n + 1"
  by (simp add: sat_inc_def)

lemma sat_inc_bound: "sat_inc n \<le> u32_max"
  by (simp add: sat_inc_def)

text \<open>A query for the first row that satisfies a condition.\<close>

lemma find_SomeD: "find P xs = Some x \<Longrightarrow> x \<in> set xs \<and> P x"
  by (induction xs) (auto split: if_splits)

lemma find_the_one: "x \<in> set xs \<Longrightarrow> P x \<Longrightarrow> (\<And>y. y \<in> set xs \<Longrightarrow> P y \<Longrightarrow> y = x) \<Longrightarrow> find P xs = Some x"
proof (induction xs)
  case (Cons a xs)
  show ?case
  proof (cases "P a")
    case True
    with Cons.prems(3) [of a] show ?thesis by simp
  next
    case False
    with Cons.prems(1,2) have "x \<in> set xs" by auto
    from Cons.IH [OF this Cons.prems(2)] Cons.prems(3) False show ?thesis by simp
  qed
qed simp

lemma image_filter_eq: "(\<And>x. x \<in> A \<Longrightarrow> Q (g x) = Q x) \<Longrightarrow> {y \<in> g ` A. Q y} = g ` {x \<in> A. Q x}"
  by blast

section \<open>Big-endian bytes\<close>

text \<open>\<open>to_be_bytes\<close> of an \<open>n\<close>-byte unsigned integer, and \<open>from_be_bytes\<close>.\<close>

fun be_bytes :: "nat \<Rightarrow> nat \<Rightarrow> bytes" where
  "be_bytes 0 v = []"
| "be_bytes (Suc n) v = be_bytes n (v div 256) @ [word_of_nat v]"

definition from_be :: "bytes \<Rightarrow> nat" where
  "from_be bs = foldl (\<lambda>a b. a * 256 + unat b) 0 bs"

lemma length_be_bytes [simp]: "length (be_bytes n v) = n"
  by (induction n arbitrary: v) simp_all

lemma from_be_snoc: "from_be (bs @ [b]) = from_be bs * 256 + unat b"
  by (simp add: from_be_def)

lemma from_be_be_bytes: "v < 256 ^ n \<Longrightarrow> from_be (be_bytes n v) = v"
proof (induction n arbitrary: v)
  case 0
  then show ?case by (simp add: from_be_def)
next
  case (Suc n)
  then have "v div 256 < 256 ^ n" by (simp add: less_mult_imp_div_less mult.commute)
  with Suc.IH have "from_be (be_bytes n (v div 256)) = v div 256" by blast
  moreover have "unat (word_of_nat v :: byte) = v mod 256"
    by (simp add: unat_of_nat)
  ultimately show ?case by (simp add: from_be_snoc)
qed

lemma from_be_bound: "from_be bs < 256 ^ length bs"
proof (induction bs rule: rev_induct)
  case Nil
  then show ?case by (simp add: from_be_def)
next
  case (snoc b bs)
  have "unat b < 256" using unsigned_less [of b] by simp
  with snoc show ?case by (simp add: from_be_snoc)
qed

lemma be_bytes_from_be: "be_bytes (length bs) (from_be bs) = bs"
proof (induction bs rule: rev_induct)
  case Nil
  then show ?case by simp
next
  case (snoc b bs)
  have b: "unat b < 256" using unsigned_less [of b] by simp
  have "(word_of_nat 256 :: byte) = 0" by (simp add: word_of_nat_eq_0_iff)
  then have "(word_of_nat (from_be bs * 256 + unat b) :: byte) = b"
    by (simp only: of_nat_add of_nat_mult mult_zero_right add_0) simp
  with snoc b show ?case by (simp add: from_be_snoc)
qed

section \<open>Numbers in texts\<close>

definition digit :: "nat \<Rightarrow> char" where
  "digit n = ''0123456789'' ! n"

fun decimal :: "nat \<Rightarrow> string" where
  "decimal n = (if n < 10 then [digit n] else decimal (n div 10) @ [digit (n mod 10)])"

declare decimal.simps [simp del]

end
