(* ===== verification/EventLog.thy ===== *)
theory EventLog
  imports FarderPrelude
begin

text \<open>
  The signed event log of \<open>crates/farder-crypto/src/event_log.rs\<close>: genesis, device certificates,
  the event payloads with their variants in the source's order, signing, verification, content
  hashes, and the next event of a device's chain.

  SHA-256, MessagePack (\<open>rmp_serde\<close>) and Ed25519 (\<open>ed25519_dalek\<close>) are third-party crates: they
  are the fields of a record \<open>crypto\<close>, an argument of every definition that uses them.
  \<open>crypto_ok\<close> is the documented behaviour that a signature made with a key verifies under its
  public key; nothing about collision resistance is assumed.

  \<open>u64\<close> values (sequence numbers, epochs, channel ids, timestamps) are \<open>nat\<close>.  The only \<open>u64\<close>
  arithmetic here is \<open>seq + 1\<close> and \<open>lamport_observed + 1\<close> of \<open>Event::next\<close>; the second can
  overflow, since the lamport is an unchecked claim, and is written with its wrap-around.
\<close>

section \<open>Keys and third-party code\<close>

datatype public_key = PublicKey (as_bytes: bytes)

text \<open>\<open>as_bytes()\<close> is what the code compares when it orders public keys.\<close>

instantiation public_key :: linorder
begin

definition less_eq_public_key :: "public_key \<Rightarrow> public_key \<Rightarrow> bool" where
  "less_eq_public_key a b \<longleftrightarrow> as_bytes a \<le> as_bytes b"

definition less_public_key :: "public_key \<Rightarrow> public_key \<Rightarrow> bool" where
  "less_public_key a b \<longleftrightarrow> as_bytes a < as_bytes b"

instance
  by standard (auto simp: less_eq_public_key_def less_public_key_def public_key.expand)

end

type_synonym keypair = bytes \<comment> \<open>the 32-byte Ed25519 signing key\<close>
type_synonym server_id = string
type_synonym device_id = string
type_synonym event_hash = string
type_synonym event_ref = string

section \<open>Data\<close>

record genesis =
  g_version :: nat
  g_name :: string
  g_owner :: public_key
  g_created_at :: nat
  g_nonce :: bytes

record device_cert_core =
  dc_identity :: public_key
  dc_device_pubkey :: public_key
  dc_device_id :: device_id
  dc_created_at :: nat
  dc_expires_at :: "nat option"

record device_cert =
  cert_core :: device_cert_core
  cert_signature :: bytes

record attachment_cap =
  cap_content_hash :: string
  cap_declared_type :: string
  cap_size :: nat
  cap_uploader :: public_key

datatype channel_class = Plaintext | E2ee

record declared_add =
  add_identity :: public_key
  add_device :: device_id
  add_key_package :: event_ref

record declared_remove =
  rem_identity :: public_key
  rem_device :: device_id

datatype delete_reason = AuthorDelete | ModerationDelete

text \<open>The fields of \<open>EventPayload::MlsCommit\<close>.\<close>

record mls_commit =
  mc_channel_id :: nat
  mc_generation :: nat
  mc_epoch :: nat
  mc_mls_message :: bytes
  mc_adds :: "declared_add list"
  mc_removes :: "declared_remove list"
  mc_prev_epoch_authenticator :: bytes
  mc_post_epoch_authenticator :: bytes
  mc_post_tree_hash :: bytes
  mc_authz_head :: event_hash
  mc_store_instance_hash :: bytes

text \<open>The variants' fields are positional, in the order the source declares them.\<close>

datatype event_payload =
    MessagePosted nat string "event_ref option" "attachment_cap list"
      \<comment> \<open>channel_id, content, reply_to, attachments\<close>
  | DeviceAuthorized device_cert
  | InviteCreated string nat nat bool
      \<comment> \<open>code_hash, max_uses, expires_at, requires_approval\<close>
  | MemberJoined public_key event_ref
  | MemberApproved public_key
  | MemberRemoved public_key
  | MemberBanned public_key
  | MemberUnbanned public_key
  | PermissionGranted public_key string
  | AttachmentRedacted string
  | ChannelCreated nat string string channel_class "nat option"
      \<comment> \<open>channel_id, name, kind, class, parent\<close>
  | MlsKeyPackagePublished bytes bytes nat
      \<comment> \<open>key_package, store_instance_hash, expires_at_log_pos\<close>
  | MlsCommit mls_commit
  | MlsWelcome nat nat event_ref public_key device_id bytes
      \<comment> \<open>channel_id, generation, commit, for_member, for_device, welcome\<close>
  | MlsLeafConfirmed nat nat nat bytes bytes
      \<comment> \<open>channel_id, generation, epoch, tree_hash, store_instance_hash\<close>
  | MlsGroupReset nat nat "event_ref list" bytes
      \<comment> \<open>channel_id, new_generation, welcomes, post_tree_hash\<close>
  | MessagePostedE2ee nat nat nat bytes "event_ref option" "attachment_cap list" event_hash
      \<comment> \<open>channel_id, generation, epoch, ciphertext, reply_to, attachments, authz_head\<close>
  | MessageEditedE2ee nat event_ref nat nat bytes event_hash
      \<comment> \<open>channel_id, target, generation, epoch, ciphertext, authz_head\<close>
  | MessageDeleted nat event_ref delete_reason
  | DeviceRevoked device_id

record event_core =
  ec_server_id :: server_id
  ec_author :: public_key
  ec_device :: device_id
  ec_seq :: nat
  ec_prev :: "event_hash option"
  ec_lamport :: nat
  ec_timestamp :: nat
  ec_payload :: event_payload

record event =
  ev_core :: event_core
  ev_signature :: bytes

abbreviation ev_server_id :: "event \<Rightarrow> server_id" where "ev_server_id e \<equiv> ec_server_id (ev_core e)"
abbreviation ev_author :: "event \<Rightarrow> public_key" where "ev_author e \<equiv> ec_author (ev_core e)"
abbreviation ev_device :: "event \<Rightarrow> device_id" where "ev_device e \<equiv> ec_device (ev_core e)"
abbreviation ev_seq :: "event \<Rightarrow> nat" where "ev_seq e \<equiv> ec_seq (ev_core e)"
abbreviation ev_prev :: "event \<Rightarrow> event_hash option" where "ev_prev e \<equiv> ec_prev (ev_core e)"
abbreviation ev_lamport :: "event \<Rightarrow> nat" where "ev_lamport e \<equiv> ec_lamport (ev_core e)"
abbreviation ev_timestamp :: "event \<Rightarrow> nat" where "ev_timestamp e \<equiv> ec_timestamp (ev_core e)"
abbreviation ev_payload :: "event \<Rightarrow> event_payload" where "ev_payload e \<equiv> ec_payload (ev_core e)"

record crypto =
  sha256_hex :: "bytes \<Rightarrow> string" \<comment> \<open>\<open>hex::encode(Sha256::digest(..))\<close>\<close>
  ser_genesis :: "genesis \<Rightarrow> bytes" \<comment> \<open>\<open>rmp_serde::to_vec\<close> at each type\<close>
  ser_cert_core :: "device_cert_core \<Rightarrow> bytes"
  ser_event_core :: "event_core \<Rightarrow> bytes"
  ser_event :: "event \<Rightarrow> bytes"
  ed_public :: "keypair \<Rightarrow> public_key"
  ed_sign :: "keypair \<Rightarrow> bytes \<Rightarrow> bytes"
  ed_verify :: "public_key \<Rightarrow> bytes \<Rightarrow> bytes \<Rightarrow> bool"

definition crypto_ok :: "crypto \<Rightarrow> bool" where
  "crypto_ok cr \<longleftrightarrow> (\<forall>k m. ed_verify cr (ed_public cr k) m (ed_sign cr k m))"

section \<open>Operations\<close>

datatype cert_error = DeviceIdMismatch | CertSignatureInvalid

text \<open>\<open>invite_code_hash\<close> hashes the code's UTF-8 bytes.\<close>

definition string_bytes :: "string \<Rightarrow> bytes" where
  "string_bytes s = map (\<lambda>c. of_char c) s"

definition invite_code_hash :: "crypto \<Rightarrow> string \<Rightarrow> string" where
  "invite_code_hash cr code = sha256_hex cr (string_bytes code)"

definition genesis_server_id :: "crypto \<Rightarrow> genesis \<Rightarrow> server_id" where
  "genesis_server_id cr g = sha256_hex cr (ser_genesis cr g)"

definition device_id_of :: "crypto \<Rightarrow> public_key \<Rightarrow> device_id" where
  "device_id_of cr pk = sha256_hex cr (as_bytes pk)"

definition cert_create_inner :: "crypto \<Rightarrow> keypair \<Rightarrow> public_key \<Rightarrow> nat \<Rightarrow> nat option \<Rightarrow> device_cert" where
  "cert_create_inner cr identity device_pubkey created_at expires_at =
     (let core = \<lparr>dc_identity = ed_public cr identity, dc_device_pubkey = device_pubkey,
                  dc_device_id = device_id_of cr device_pubkey, dc_created_at = created_at,
                  dc_expires_at = expires_at\<rparr>
      in \<lparr>cert_core = core, cert_signature = ed_sign cr identity (ser_cert_core cr core)\<rparr>)"

definition cert_create :: "crypto \<Rightarrow> keypair \<Rightarrow> public_key \<Rightarrow> nat \<Rightarrow> device_cert" where
  "cert_create cr identity device_pubkey created_at =
     cert_create_inner cr identity device_pubkey created_at None"

definition cert_create_expiring ::
    "crypto \<Rightarrow> keypair \<Rightarrow> public_key \<Rightarrow> nat \<Rightarrow> nat \<Rightarrow> device_cert" where
  "cert_create_expiring cr identity device_pubkey created_at expires_at =
     cert_create_inner cr identity device_pubkey created_at (Some expires_at)"

definition cert_verify :: "crypto \<Rightarrow> device_cert \<Rightarrow> cert_error + unit" where
  "cert_verify cr cert =
     (let core = cert_core cert in
      ensure (dc_device_id core = device_id_of cr (dc_device_pubkey core)) DeviceIdMismatch
      (ensure (ed_verify cr (dc_identity core) (ser_cert_core cr core) (cert_signature cert))
         CertSignatureInvalid
      (Inr ())))"

definition event_sign :: "crypto \<Rightarrow> event_core \<Rightarrow> keypair \<Rightarrow> event" where
  "event_sign cr core device =
     \<lparr>ev_core = core, ev_signature = ed_sign cr device (ser_event_core cr core)\<rparr>"

definition event_verify :: "crypto \<Rightarrow> event \<Rightarrow> public_key \<Rightarrow> bool" where
  "event_verify cr e device_pubkey =
     ed_verify cr device_pubkey (ser_event_core cr (ev_core e)) (ev_signature e)"

definition event_hash_of :: "crypto \<Rightarrow> event \<Rightarrow> event_hash" where
  "event_hash_of cr e = sha256_hex cr (ser_event cr e)"

text \<open>
  \<open>Event::next\<close>: the \<open>u64\<close> additions wrap, as they do in a release build (a debug build panics).
\<close>

definition event_next ::
    "crypto \<Rightarrow> keypair \<Rightarrow> public_key \<Rightarrow> server_id \<Rightarrow> event option \<Rightarrow> nat \<Rightarrow> nat \<Rightarrow> event_payload \<Rightarrow> event" where
  "event_next cr device author server_id prev lamport_observed timestamp payload =
     (let (seq, prev_hash) =
        (case prev of Some p \<Rightarrow> ((ev_seq p + 1) mod 2 ^ 64, Some (event_hash_of cr p))
                    | None \<Rightarrow> (0, None))
      in event_sign cr
           \<lparr>ec_server_id = server_id, ec_author = author,
            ec_device = device_id_of cr (ed_public cr device), ec_seq = seq, ec_prev = prev_hash,
            ec_lamport = (lamport_observed + 1) mod 2 ^ 64, ec_timestamp = timestamp,
            ec_payload = payload\<rparr> device)"

section \<open>Signing and verification agree\<close>

lemma crypto_okD [simp]: "crypto_ok cr \<Longrightarrow> ed_verify cr (ed_public cr k) m (ed_sign cr k m)"
  by (simp add: crypto_ok_def)

lemma cert_verify_Inr [result_simps]:
  "cert_verify cr cert = Inr u \<longleftrightarrow>
     dc_device_id (cert_core cert) = device_id_of cr (dc_device_pubkey (cert_core cert)) \<and>
     ed_verify cr (dc_identity (cert_core cert)) (ser_cert_core cr (cert_core cert)) (cert_signature cert)"
  by (simp add: cert_verify_def result_simps Let_def)

lemma cert_create_inner_core [simp]:
  "dc_identity (cert_core (cert_create_inner cr k pk t ex)) = ed_public cr k"
  "dc_device_pubkey (cert_core (cert_create_inner cr k pk t ex)) = pk"
  "dc_device_id (cert_core (cert_create_inner cr k pk t ex)) = device_id_of cr pk"
  "dc_expires_at (cert_core (cert_create_inner cr k pk t ex)) = ex"
  by (simp_all add: cert_create_inner_def Let_def)

lemma cert_create_inner_verifies:
  "crypto_ok cr \<Longrightarrow> cert_verify cr (cert_create_inner cr k pk t ex) = Inr ()"
  by (simp add: result_simps) (simp add: cert_create_inner_def Let_def)

lemma event_sign_verifies: "crypto_ok cr \<Longrightarrow> event_verify cr (event_sign cr core k) (ed_public cr k)"
  by (simp add: event_verify_def event_sign_def)

lemma event_next_core:
  "ev_author (event_next cr k a s p l t pl) = a"
  "ev_server_id (event_next cr k a s p l t pl) = s"
  "ev_device (event_next cr k a s p l t pl) = device_id_of cr (ed_public cr k)"
  "ev_timestamp (event_next cr k a s p l t pl) = t"
  "ev_payload (event_next cr k a s p l t pl) = pl"
  "ev_seq (event_next cr k a s None l t pl) = 0"
  "ev_prev (event_next cr k a s None l t pl) = None"
  "ev_seq (event_next cr k a s (Some e) l t pl) = (ev_seq e + 1) mod 2 ^ 64"
  "ev_prev (event_next cr k a s (Some e) l t pl) = Some (event_hash_of cr e)"
  by (simp_all add: event_next_def event_sign_def Let_def split: option.split)

lemma event_next_verifies:
  "crypto_ok cr \<Longrightarrow> event_verify cr (event_next cr k a s p l t pl) (ed_public cr k)"
  by (auto simp: event_next_def Let_def intro: event_sign_verifies split: option.split)

end
