(* ===== verification/ServerDb.thy ===== *)
theory ServerDb
  imports EventLog
begin

text \<open>
  The server's tables as far as the event ingest reads and writes them, and the doors through
  which rows get in and out: \<open>crates/farder-server/src/channel_class.rs\<close>, the write choke point
  of \<open>messages.rs\<close>, and the ref-counted attachments of \<open>attachments.rs\<close>.

  A table is the list of its rows in \<open>rowid\<close> order; an \<open>INSERT\<close> appends, an \<open>AUTOINCREMENT\<close>
  key is one more than the largest ever assigned (a counter of the record), a query is a
  \<open>find\<close> or a \<open>filter\<close>.  A \<open>UNIQUE\<close> index makes the insert fail.  SQL reads do not fail in the
  model.  \<open>now()\<close> is an argument.  Stored event bodies are the events themselves: the code only
  ever decodes what it encoded.  Columns the code copies for display only (widths, durations,
  topics) are left out.
\<close>

section \<open>Rows\<close>

record channel_row =
  cr_id :: nat
  cr_name :: string
  cr_type :: string
  cr_position :: int
  cr_deleted :: bool
  cr_content_class :: string

record message_row =
  mr_id :: nat
  mr_channel :: nat
  mr_author :: public_key
  mr_content :: string
  mr_timestamp :: nat
  mr_edited_at :: "nat option"
  mr_reply_to :: "nat option"
  mr_pinned :: bool
  mr_name_override :: "string option"
  mr_badge :: "string option"
  mr_widget :: "string option"
  mr_event_hash :: "event_hash option"
  mr_sealed :: "bytes option"
  mr_is_e2ee :: bool

record file_row =
  fr_id :: nat
  fr_hash :: string
  fr_size :: nat
  fr_mime :: string
  fr_name :: string
  fr_uploader :: public_key
  fr_ref_count :: nat
  fr_redacted_by :: "public_key option"

record attachment_row =
  ar_id :: nat
  ar_message :: nat
  ar_file :: nat
  ar_position :: nat
  ar_name :: string

record server_db =
  db_genesis :: "genesis option"
  db_events :: "(nat \<times> event) list" \<comment> \<open>\<open>accept_seq\<close> and the event, ascending\<close>
  db_channels :: "channel_row list"
  db_messages :: "message_row list"
  db_fts :: "(nat \<times> string) list" \<comment> \<open>the plaintext index\<close>
  db_files :: "file_row list"
  db_attachments :: "attachment_row list"
  db_reactions :: "(nat \<times> public_key) list"
  db_disk :: "string set" \<comment> \<open>content hashes whose bytes are on disk\<close>
  db_last_event :: nat
  db_last_message :: nat
  db_last_attachment :: nat

datatype write_error =
    RowNotFound | UniqueViolation | RefusedInE2ee | RefusedUnlessE2ee | SealedEditOfPlainRow

section \<open>The content class of a channel (channel\_class.rs)\<close>

datatype write_class = ClassPlaintext | ClassE2ee | ClassUnresolvable

fun refuses_server_authored_content :: "write_class \<Rightarrow> bool" where
  "refuses_server_authored_content ClassPlaintext = False"
| "refuses_server_authored_content ClassE2ee = True"
| "refuses_server_authored_content ClassUnresolvable = True"

definition find_channel :: "server_db \<Rightarrow> nat \<Rightarrow> channel_row option" where
  "find_channel db c = find (\<lambda>r. cr_id r = c) (db_channels db)"

definition resolve :: "server_db \<Rightarrow> nat \<Rightarrow> write_class" where
  "resolve db c =
     (case map_option cr_content_class (find_channel db c) of
        None \<Rightarrow> ClassUnresolvable
      | Some s \<Rightarrow> if s = ''plaintext'' then ClassPlaintext
                  else if s = ''e2ee'' then ClassE2ee else ClassUnresolvable)"

definition require_plaintext :: "server_db \<Rightarrow> nat \<Rightarrow> write_error + unit" where
  "require_plaintext db c =
     ensure (\<not> refuses_server_authored_content (resolve db c)) RefusedInE2ee (Inr ())"

definition require_plaintext_for_derived :: "server_db \<Rightarrow> nat \<Rightarrow> write_error + unit" where
  "require_plaintext_for_derived db c =
     (case resolve db c of
        ClassPlaintext \<Rightarrow> Inr ()
      | ClassE2ee \<Rightarrow> Inl RefusedInE2ee
      | ClassUnresolvable \<Rightarrow> if find_channel db c \<noteq> None then Inl RefusedInE2ee else Inr ())"

definition require_e2ee :: "server_db \<Rightarrow> nat \<Rightarrow> write_error + unit" where
  "require_e2ee db c = ensure (resolve db c = ClassE2ee) RefusedUnlessE2ee (Inr ())"

definition class_string :: "channel_class \<Rightarrow> string" where
  "class_string cls = (case cls of Plaintext \<Rightarrow> ''plaintext'' | E2ee \<Rightarrow> ''e2ee'')"

definition set_class :: "nat \<Rightarrow> channel_class \<Rightarrow> server_db \<Rightarrow> server_db" where
  "set_class c cls db =
     db\<lparr>db_channels := map (\<lambda>r. if cr_id r = c then r\<lparr>cr_content_class := class_string cls\<rparr> else r)
          (db_channels db)\<rparr>"

text \<open>One step of the startup repair, and the loop over the stored declarations.\<close>

definition reconcile_class_of :: "event \<Rightarrow> nat \<times> server_db \<Rightarrow> nat \<times> server_db" where
  "reconcile_class_of e acc =
     (case ev_payload e of
        ChannelCreated c _ _ cls _ \<Rightarrow>
          (case map_option cr_content_class (find_channel (snd acc) c) of
             None \<Rightarrow> acc
           | Some current \<Rightarrow>
               if current = class_string cls then acc
               else if current = ''e2ee'' then acc
               else (fst acc + 1, set_class c cls (snd acc)))
      | _ \<Rightarrow> acc)"

definition reconcile_channel_classes :: "server_db \<Rightarrow> nat \<times> server_db" where
  "reconcile_channel_classes db = fold reconcile_class_of (map snd (db_events db)) (0, db)"

section \<open>Attachments (attachments.rs)\<close>

definition get_file_by_hash :: "server_db \<Rightarrow> string \<Rightarrow> file_row option" where
  "get_file_by_hash db h = find (\<lambda>f. fr_hash f = h) (db_files db)"

definition update_file :: "nat \<Rightarrow> (file_row \<Rightarrow> file_row) \<Rightarrow> server_db \<Rightarrow> server_db" where
  "update_file fid f db = db\<lparr>db_files := map (\<lambda>r. if fr_id r = fid then f r else r) (db_files db)\<rparr>"

definition increment_ref_count :: "nat \<Rightarrow> server_db \<Rightarrow> server_db" where
  "increment_ref_count fid = update_file fid (\<lambda>r. r\<lparr>fr_ref_count := fr_ref_count r + 1\<rparr>)"

text \<open>\<open>MAX(ref_count - 1, 0)\<close>.\<close>

definition decrement_ref_count :: "nat \<Rightarrow> server_db \<Rightarrow> server_db" where
  "decrement_ref_count fid = update_file fid (\<lambda>r. r\<lparr>fr_ref_count := fr_ref_count r - 1\<rparr>)"

definition create_message_attachment :: "nat \<Rightarrow> nat \<Rightarrow> nat \<Rightarrow> string \<Rightarrow> server_db \<Rightarrow> server_db" where
  "create_message_attachment mid fid pos name db =
     increment_ref_count fid
       (db\<lparr>db_attachments := db_attachments db @
             [\<lparr>ar_id = db_last_attachment db + 1, ar_message = mid, ar_file = fid, ar_position = pos,
               ar_name = name\<rparr>],
           db_last_attachment := db_last_attachment db + 1\<rparr>)"

text \<open>The loop that drops one reference per attachment and collects the files nobody refers to.\<close>

fun drop_references :: "nat list \<Rightarrow> nat list \<Rightarrow> server_db \<Rightarrow> write_error + (nat list \<times> server_db)" where
  "drop_references [] zero db = Inr (zero, db)"
| "drop_references (fid # fids) zero db =
     (let db1 = decrement_ref_count fid db in
      or_fail (find (\<lambda>r. fr_id r = fid) (db_files db1)) RowNotFound (\<lambda>r.
      drop_references fids (if fr_ref_count r = 0 then zero @ [fid] else zero) db1))"

definition delete_attachments_for_message ::
    "nat \<Rightarrow> server_db \<Rightarrow> write_error + (nat list \<times> server_db)" where
  "delete_attachments_for_message mid db =
     (let fids = map ar_file (filter (\<lambda>a. ar_message a = mid) (db_attachments db));
          db1 = db\<lparr>db_attachments := filter (\<lambda>a. ar_message a \<noteq> mid) (db_attachments db)\<rparr>
      in drop_references fids [] db1)"

text \<open>\<open>redact_blob\<close> marks the file and deletes its bytes; \<open>False\<close> when there is no such file.\<close>

definition redact_blob :: "string \<Rightarrow> public_key \<Rightarrow> server_db \<Rightarrow> bool \<times> server_db" where
  "redact_blob h redactor db =
     (if \<exists>r \<in> set (db_files db). fr_hash r = h
      then (True, db\<lparr>db_files := map (\<lambda>r. if fr_hash r = h then r\<lparr>fr_redacted_by := Some redactor\<rparr> else r)
                                  (db_files db),
                     db_disk := db_disk db - {h}\<rparr>)
      else (False, db))"

section \<open>The message-write choke point (messages.rs)\<close>

definition find_message :: "server_db \<Rightarrow> nat \<Rightarrow> message_row option" where
  "find_message db mid = find (\<lambda>m. mr_id m = mid) (db_messages db)"

definition find_by_hash :: "server_db \<Rightarrow> event_hash \<Rightarrow> message_row option" where
  "find_by_hash db h = find (\<lambda>m. mr_event_hash m = Some h) (db_messages db)"

definition update_message :: "nat \<Rightarrow> (message_row \<Rightarrow> message_row) \<Rightarrow> server_db \<Rightarrow> server_db" where
  "update_message mid f db = db\<lparr>db_messages := map (\<lambda>m. if mr_id m = mid then f m else m) (db_messages db)\<rparr>"

definition insert_row ::
    "server_db \<Rightarrow> nat \<Rightarrow> public_key \<Rightarrow> string \<Rightarrow> nat \<Rightarrow> nat option \<Rightarrow> string option \<Rightarrow> string option \<Rightarrow>
     event_hash option \<Rightarrow> bytes option \<Rightarrow> bool \<Rightarrow> write_error + (nat \<times> server_db)" where
  "insert_row db c author content ts reply_to name_override badge hash sealed e2ee =
     ensure (case hash of None \<Rightarrow> True | Some h \<Rightarrow> find_by_hash db h = None) UniqueViolation
     (let mid = db_last_message db + 1;
          row = \<lparr>mr_id = mid, mr_channel = c, mr_author = author, mr_content = content, mr_timestamp = ts,
                 mr_edited_at = None, mr_reply_to = reply_to, mr_pinned = False,
                 mr_name_override = name_override, mr_badge = badge, mr_widget = None,
                 mr_event_hash = hash, mr_sealed = sealed, mr_is_e2ee = e2ee\<rparr>;
          db1 = db\<lparr>db_messages := db_messages db @ [row], db_last_message := mid\<rparr>
      in Inr (mid, if e2ee then db1 else db1\<lparr>db_fts := db_fts db1 @ [(mid, content)]\<rparr>))"

definition insert_message_with_ts ::
    "server_db \<Rightarrow> nat \<Rightarrow> public_key \<Rightarrow> string \<Rightarrow> nat option \<Rightarrow> nat \<Rightarrow> write_error + (nat \<times> server_db)" where
  "insert_message_with_ts db c author content reply_to ts =
     try_then (require_plaintext db c) (\<lambda>_.
     insert_row db c author content ts reply_to None None None None False)"

definition insert_message ::
    "nat \<Rightarrow> server_db \<Rightarrow> nat \<Rightarrow> public_key \<Rightarrow> string \<Rightarrow> nat option \<Rightarrow> write_error + (nat \<times> server_db)" where
  "insert_message now db c author content reply_to = insert_message_with_ts db c author content reply_to now"

definition insert_message_with_author_name ::
    "nat \<Rightarrow> server_db \<Rightarrow> nat \<Rightarrow> public_key \<Rightarrow> string \<Rightarrow> nat option \<Rightarrow> string option \<Rightarrow> string option \<Rightarrow>
     write_error + (nat \<times> server_db)" where
  "insert_message_with_author_name now db c author content reply_to name_override badge =
     try_then (require_plaintext db c) (\<lambda>_.
     insert_row db c author content now reply_to name_override badge None None False)"

definition insert_derived_row ::
    "server_db \<Rightarrow> nat \<Rightarrow> public_key \<Rightarrow> string \<Rightarrow> nat \<Rightarrow> nat option \<Rightarrow> event_hash \<Rightarrow> write_error + (nat \<times> server_db)" where
  "insert_derived_row db c author content ts reply_to h =
     try_then (require_plaintext_for_derived db c) (\<lambda>_.
     insert_row db c author content ts reply_to None None (Some h) None False)"

definition insert_sealed_row ::
    "server_db \<Rightarrow> nat \<Rightarrow> public_key \<Rightarrow> bytes \<Rightarrow> nat \<Rightarrow> nat option \<Rightarrow> event_hash \<Rightarrow> write_error + (nat \<times> server_db)" where
  "insert_sealed_row db c author sealed ts reply_to h =
     try_then (require_e2ee db c) (\<lambda>_.
     insert_row db c author [] ts reply_to None None (Some h) (Some sealed) True)"

definition update_sealed_row :: "nat \<Rightarrow> bytes \<Rightarrow> nat \<Rightarrow> server_db \<Rightarrow> write_error + server_db" where
  "update_sealed_row mid sealed edited_at db =
     or_fail (find_message db mid) RowNotFound (\<lambda>row.
     try_then (require_e2ee db (mr_channel row)) (\<lambda>_.
     ensure (mr_is_e2ee row) SealedEditOfPlainRow
     (Inr (update_message mid (\<lambda>m. m\<lparr>mr_sealed := Some sealed, mr_edited_at := Some edited_at\<rparr>) db))))"

definition set_widget :: "nat \<Rightarrow> string \<Rightarrow> server_db \<Rightarrow> server_db" where
  "set_widget mid json = update_message mid (\<lambda>m. m\<lparr>mr_widget := Some json\<rparr>)"

definition unindex :: "nat \<Rightarrow> string \<Rightarrow> server_db \<Rightarrow> server_db" where
  "unindex mid content db = db\<lparr>db_fts := filter (\<lambda>p. p \<noteq> (mid, content)) (db_fts db)\<rparr>"

definition edit_message :: "nat \<Rightarrow> nat \<Rightarrow> string \<Rightarrow> server_db \<Rightarrow> write_error + server_db" where
  "edit_message now mid new_content db =
     or_fail (find_message db mid) RowNotFound (\<lambda>row.
     try_then (require_plaintext db (mr_channel row)) (\<lambda>_.
     (let db1 = update_message mid (\<lambda>m. m\<lparr>mr_content := new_content, mr_edited_at := Some now\<rparr>) db;
          db2 = unindex mid (mr_content row) db1
      in Inr (db2\<lparr>db_fts := db_fts db2 @ [(mid, new_content)]\<rparr>))))"

definition delete_message :: "nat \<Rightarrow> server_db \<Rightarrow> write_error + (nat list \<times> server_db)" where
  "delete_message mid db =
     try_then (delete_attachments_for_message mid db) (\<lambda>(orphans, db1).
     (let db2 = db1\<lparr>db_reactions := filter (\<lambda>r. fst r \<noteq> mid) (db_reactions db1)\<rparr>;
          db3 = (case find_message db2 mid of
                   Some row \<Rightarrow> if mr_is_e2ee row then db2 else unindex mid (mr_content row) db2
                 | None \<Rightarrow> db2)
      in Inr (orphans, db3\<lparr>db_messages := filter (\<lambda>m. mr_id m \<noteq> mid) (db_messages db3)\<rparr>)))"

definition pin_message :: "nat \<Rightarrow> server_db \<Rightarrow> server_db" where
  "pin_message mid = update_message mid (\<lambda>m. m\<lparr>mr_pinned := True\<rparr>)"

definition unpin_message :: "nat \<Rightarrow> server_db \<Rightarrow> server_db" where
  "unpin_message mid = update_message mid (\<lambda>m. m\<lparr>mr_pinned := False\<rparr>)"

text \<open>\<open>delete_messages_before\<close>: the attachments and reactions of each row, the index, the rows.\<close>

fun delete_attachments_of_all :: "nat list \<Rightarrow> server_db \<Rightarrow> write_error + server_db" where
  "delete_attachments_of_all [] db = Inr db"
| "delete_attachments_of_all (mid # mids) db =
     try_then (delete_attachments_for_message mid db) (\<lambda>(_, db1).
     delete_attachments_of_all mids (db1\<lparr>db_reactions := filter (\<lambda>r. fst r \<noteq> mid) (db_reactions db1)\<rparr>))"

definition delete_messages_before :: "nat \<Rightarrow> nat \<Rightarrow> server_db \<Rightarrow> write_error + (nat \<times> server_db)" where
  "delete_messages_before c cutoff db =
     (let old = (\<lambda>m. mr_channel m = c \<and> mr_timestamp m < cutoff);
          rows = filter old (db_messages db)
      in try_then (delete_attachments_of_all (map mr_id rows) db) (\<lambda>db1.
         let db2 = fold (\<lambda>m. unindex (mr_id m) (mr_content m)) (filter (\<lambda>m. \<not> mr_is_e2ee m) rows) db1
         in Inr (length rows, db2\<lparr>db_messages := filter (\<lambda>m. \<not> old m) (db_messages db2)\<rparr>)))"

definition DELETED_USER_KEY :: public_key where
  "DELETED_USER_KEY = PublicKey (replicate 32 0)"

definition anonymize_row :: "public_key \<Rightarrow> message_row \<Rightarrow> message_row" where
  "anonymize_row author m =
     (if mr_author m = author
      then m\<lparr>mr_author := DELETED_USER_KEY,
             mr_content := (if mr_is_e2ee m then mr_content m else ''[deleted]'')\<rparr>
      else m)"

definition reindex_deleted :: "message_row \<Rightarrow> server_db \<Rightarrow> server_db" where
  "reindex_deleted m db =
     (let db1 = unindex (mr_id m) (mr_content m) db
      in db1\<lparr>db_fts := db_fts db1 @ [(mr_id m, ''[deleted]'')]\<rparr>)"

definition anonymize_messages_by_author :: "public_key \<Rightarrow> server_db \<Rightarrow> nat \<times> server_db" where
  "anonymize_messages_by_author author db =
     (let rows = filter (\<lambda>m. mr_author m = author) (db_messages db);
          db1 = fold reindex_deleted (filter (\<lambda>m. \<not> mr_is_e2ee m) rows) db
      in (length rows, db1\<lparr>db_messages := map (anonymize_row author) (db_messages db1)\<rparr>))"

section \<open>What each operation leaves alone\<close>

lemma update_file_frame [simp]:
  "db_messages (update_file fid f db) = db_messages db" "db_fts (update_file fid f db) = db_fts db"
  "db_channels (update_file fid f db) = db_channels db" "db_events (update_file fid f db) = db_events db"
  "db_last_message (update_file fid f db) = db_last_message db" "db_genesis (update_file fid f db) = db_genesis db"
  "db_last_event (update_file fid f db) = db_last_event db" "db_attachments (update_file fid f db) = db_attachments db"
  by (simp_all add: update_file_def)

lemma update_message_frame [simp]:
  "db_fts (update_message mid f db) = db_fts db" "db_channels (update_message mid f db) = db_channels db"
  "db_events (update_message mid f db) = db_events db" "db_last_message (update_message mid f db) = db_last_message db"
  "db_genesis (update_message mid f db) = db_genesis db" "db_last_event (update_message mid f db) = db_last_event db"
  "db_messages (update_message mid f db) = map (\<lambda>m. if mr_id m = mid then f m else m) (db_messages db)"
  by (simp_all add: update_message_def)

lemma unindex_frame [simp]:
  "db_messages (unindex mid s db) = db_messages db" "db_channels (unindex mid s db) = db_channels db"
  "db_events (unindex mid s db) = db_events db" "db_last_message (unindex mid s db) = db_last_message db"
  "db_genesis (unindex mid s db) = db_genesis db" "db_last_event (unindex mid s db) = db_last_event db"
  "db_fts (unindex mid s db) = filter (\<lambda>p. p \<noteq> (mid, s)) (db_fts db)"
  by (simp_all add: unindex_def)

text \<open>The parts of the database that the message invariant and the ingest look at.\<close>

definition same_core :: "server_db \<Rightarrow> server_db \<Rightarrow> bool" where
  "same_core db db' \<longleftrightarrow> db_messages db' = db_messages db \<and> db_fts db' = db_fts db \<and>
     db_channels db' = db_channels db \<and> db_events db' = db_events db \<and> db_genesis db' = db_genesis db \<and>
     db_last_message db' = db_last_message db \<and> db_last_event db' = db_last_event db"

lemma same_core_refl [simp]: "same_core db db"
  by (simp add: same_core_def)

lemma same_core_trans: "same_core a b \<Longrightarrow> same_core b c \<Longrightarrow> same_core a c"
  by (simp add: same_core_def)

lemma decrement_same_core [simp]: "same_core db (decrement_ref_count fid db)"
  by (simp add: same_core_def decrement_ref_count_def)

lemma create_attachment_same_core [simp]: "same_core db (create_message_attachment mid fid pos nm db)"
  by (simp add: same_core_def create_message_attachment_def increment_ref_count_def)

lemma drop_references_same_core: "drop_references fids zero db = Inr (z, db') \<Longrightarrow> same_core db db'"
proof (induction fids arbitrary: zero db)
  case (Cons fid fids)
  then have "same_core (decrement_ref_count fid db) db'" by (auto simp: Let_def result_simps)
  then show ?case by (rule same_core_trans [OF decrement_same_core])
qed simp

lemma delete_attachments_same_core:
  "delete_attachments_for_message mid db = Inr (z, db') \<Longrightarrow> same_core db db'"
  by (drule drop_references_same_core [OF trans [OF delete_attachments_for_message_def [symmetric, unfolded Let_def]]])
    (simp add: same_core_def)

lemma delete_attachments_of_all_same_core:
  "delete_attachments_of_all mids db = Inr db' \<Longrightarrow> same_core db db'"
proof (induction mids arbitrary: db)
  case (Cons mid mids)
  then obtain z db1 where d: "delete_attachments_for_message mid db = Inr (z, db1)"
    and rest: "delete_attachments_of_all mids (db1\<lparr>db_reactions := filter (\<lambda>r. fst r \<noteq> mid) (db_reactions db1)\<rparr>) = Inr db'"
    by (auto simp: result_simps)
  from Cons.IH [OF rest] have "same_core db1 db'" by (simp add: same_core_def)
  then show ?case by (rule same_core_trans [OF delete_attachments_same_core [OF d]])
qed simp

end
