(* ===== verification/ServerDbInv.thy ===== *)
theory ServerDbInv
  imports ServerDb
begin

text \<open>
  The invariant of the messages table that every write door keeps: row ids and event hashes are
  unique, a sealed row has no plaintext column and lives in an encrypted channel, a plaintext row
  never does, and the full-text index holds exactly the plaintext rows.
\<close>

definition plain_index :: "server_db \<Rightarrow> (nat \<times> string) set" where
  "plain_index db = (\<lambda>m. (mr_id m, mr_content m)) ` {m \<in> set (db_messages db). \<not> mr_is_e2ee m}"

definition row_ok :: "server_db \<Rightarrow> message_row \<Rightarrow> bool" where
  "row_ok db m \<longleftrightarrow>
     (if mr_is_e2ee m then mr_content m = [] \<and> mr_sealed m \<noteq> None \<and> resolve db (mr_channel m) = ClassE2ee
      else mr_sealed m = None \<and> resolve db (mr_channel m) \<noteq> ClassE2ee)"

definition hashes_unique :: "message_row list \<Rightarrow> bool" where
  "hashes_unique ms \<longleftrightarrow> (\<forall>m \<in> set ms. \<forall>m' \<in> set ms.
     mr_event_hash m \<noteq> None \<and> mr_event_hash m = mr_event_hash m' \<longrightarrow> mr_id m = mr_id m')"

definition db_wf :: "server_db \<Rightarrow> bool" where
  "db_wf db \<longleftrightarrow>
     distinct (map mr_id (db_messages db)) \<and>
     (\<forall>m \<in> set (db_messages db). mr_id m \<le> db_last_message db \<and> row_ok db m) \<and>
     hashes_unique (db_messages db) \<and>
     set (db_fts db) = plain_index db"

lemma resolve_cong: "db_channels db = db_channels db' \<Longrightarrow> resolve db = resolve db'"
  by (rule ext) (simp add: resolve_def find_channel_def)

lemma db_wf_same_core: "same_core db db' \<Longrightarrow> db_wf db' = db_wf db"
  using resolve_cong [of db db'] by (simp add: same_core_def db_wf_def plain_index_def row_ok_def)

lemma same_id_same_row:
  "distinct (map mr_id ms) \<Longrightarrow> m \<in> set ms \<Longrightarrow> m' \<in> set ms \<Longrightarrow> mr_id m = mr_id m' \<Longrightarrow> m = m'"
  by (metis distinct_map inj_onD)

lemma db_wfD:
  assumes "db_wf db"
  shows "distinct (map mr_id (db_messages db))"
    and "m \<in> set (db_messages db) \<Longrightarrow> mr_id m \<le> db_last_message db"
    and "m \<in> set (db_messages db) \<Longrightarrow> row_ok db m"
    and "m \<in> set (db_messages db) \<Longrightarrow> m' \<in> set (db_messages db) \<Longrightarrow> mr_event_hash m = Some h \<Longrightarrow>
      mr_event_hash m' = Some h \<Longrightarrow> m = m'"
    and "m \<in> set (db_messages db) \<Longrightarrow> m' \<in> set (db_messages db) \<Longrightarrow> mr_id m = mr_id m' \<Longrightarrow> m = m'"
    and "set (db_fts db) = plain_index db"
proof -
  note wf = assms [unfolded db_wf_def hashes_unique_def]
  from wf show ids: "distinct (map mr_id (db_messages db))" by blast
  from wf show "m \<in> set (db_messages db) \<Longrightarrow> mr_id m \<le> db_last_message db"
    and "m \<in> set (db_messages db) \<Longrightarrow> row_ok db m" and "set (db_fts db) = plain_index db" by blast+
  show "m \<in> set (db_messages db) \<Longrightarrow> m' \<in> set (db_messages db) \<Longrightarrow> mr_id m = mr_id m' \<Longrightarrow> m = m'"
    by (rule same_id_same_row [OF ids])
  show "m \<in> set (db_messages db) \<Longrightarrow> m' \<in> set (db_messages db) \<Longrightarrow> mr_event_hash m = Some h \<Longrightarrow>
      mr_event_hash m' = Some h \<Longrightarrow> m = m'"
  proof -
    assume m: "m \<in> set (db_messages db)" "m' \<in> set (db_messages db)"
      and h: "mr_event_hash m = Some h" "mr_event_hash m' = Some h"
    from wf have "\<forall>m \<in> set (db_messages db). \<forall>m' \<in> set (db_messages db).
        mr_event_hash m \<noteq> None \<and> mr_event_hash m = mr_event_hash m' \<longrightarrow> mr_id m = mr_id m'" by (elim conjE)
    with m have "mr_event_hash m \<noteq> None \<and> mr_event_hash m = mr_event_hash m' \<longrightarrow> mr_id m = mr_id m'" by blast
    with h have "mr_id m = mr_id m'" by (simp only: h) simp
    with m show "m = m'" by (rule same_id_same_row [OF ids])
  qed
qed

lemma find_message_Some:
  assumes "db_wf db"
  shows "find_message db mid = Some m \<longleftrightarrow> m \<in> set (db_messages db) \<and> mr_id m = mid"
  unfolding find_message_def
  by (blast dest: find_SomeD intro: find_the_one db_wfD(5) [OF assms])

lemma find_message_None: "find_message db mid = None \<longleftrightarrow> mid \<notin> mr_id ` set (db_messages db)"
  by (auto simp: find_message_def find_None_iff)

lemma find_by_hash_Some:
  assumes "db_wf db"
  shows "find_by_hash db h = Some m \<longleftrightarrow> m \<in> set (db_messages db) \<and> mr_event_hash m = Some h"
  unfolding find_by_hash_def
  by (blast dest: find_SomeD intro: find_the_one db_wfD(4) [OF assms])

lemma find_by_hash_None: "find_by_hash db h = None \<longleftrightarrow> (\<forall>m \<in> set (db_messages db). mr_event_hash m \<noteq> Some h)"
  by (auto simp: find_by_hash_def find_None_iff)

section \<open>Inserting\<close>

lemma insert_row_Inr:
  "insert_row db c author content ts reply nm badge hash sealed e2ee = Inr (mid, db') \<longleftrightarrow>
     (\<forall>h. hash = Some h \<longrightarrow> find_by_hash db h = None) \<and> mid = db_last_message db + 1 \<and>
     db' = db\<lparr>db_messages := db_messages db @
        [\<lparr>mr_id = mid, mr_channel = c, mr_author = author, mr_content = content, mr_timestamp = ts,
          mr_edited_at = None, mr_reply_to = reply, mr_pinned = False, mr_name_override = nm, mr_badge = badge,
          mr_widget = None, mr_event_hash = hash, mr_sealed = sealed, mr_is_e2ee = e2ee\<rparr>],
        db_last_message := mid, db_fts := (if e2ee then db_fts db else db_fts db @ [(mid, content)])\<rparr>"
  by (auto simp: insert_row_def result_simps Let_def split: option.split)

lemma db_wf_insert_row:
  assumes ins: "insert_row db c author content ts reply nm badge hash sealed e2ee = Inr (mid, db')" and wf: "db_wf db"
    and ok: "if e2ee then content = [] \<and> sealed \<noteq> None \<and> resolve db c = ClassE2ee
             else sealed = None \<and> resolve db c \<noteq> ClassE2ee"
  shows "db_wf db'"
proof -
  note db' = ins [unfolded insert_row_Inr]
  have res: "resolve db' = resolve db" using db' by (auto intro: resolve_cong)
  have fresh: "mid \<notin> mr_id ` set (db_messages db)" using db_wfD(2) [OF wf] db' by force
  have hash: "mr_event_hash m \<noteq> hash" if "m \<in> set (db_messages db)" "mr_event_hash m \<noteq> None" for m
    using db' that by (auto simp: find_by_hash_None)
  let ?row = "\<lparr>mr_id = mid, mr_channel = c, mr_author = author, mr_content = content, mr_timestamp = ts,
          mr_edited_at = None, mr_reply_to = reply, mr_pinned = False, mr_name_override = nm, mr_badge = badge,
          mr_widget = None, mr_event_hash = hash, mr_sealed = sealed, mr_is_e2ee = e2ee\<rparr>"
  have ms: "db_messages db' = db_messages db @ [?row]" using db' by simp
  have "distinct (map mr_id (db_messages db'))" using db_wfD(1) [OF wf] fresh unfolding ms by simp
  moreover have "\<forall>m \<in> set (db_messages db'). mr_id m \<le> db_last_message db' \<and> row_ok db' m"
  proof -
    have "row_ok db' ?row" using ok by (simp add: row_ok_def res)
    moreover have "row_ok db' m \<and> mr_id m \<le> db_last_message db'" if "m \<in> set (db_messages db)" for m
    proof -
      have "row_ok db' m = row_ok db m" by (simp only: row_ok_def res)
      with db_wfD(2,3) [OF wf that] db' show ?thesis by simp
    qed
    ultimately show ?thesis using db' unfolding ms by simp
  qed
  moreover have "\<forall>m \<in> set (db_messages db'). \<forall>m' \<in> set (db_messages db').
      mr_event_hash m \<noteq> None \<and> mr_event_hash m = mr_event_hash m' \<longrightarrow> mr_id m = mr_id m'"
  proof (intro ballI impI)
    fix m m'
    assume "m \<in> set (db_messages db')" "m' \<in> set (db_messages db')"
      and h: "mr_event_hash m \<noteq> None \<and> mr_event_hash m = mr_event_hash m'"
    then consider "m \<in> set (db_messages db)" "m' \<in> set (db_messages db)" | "m = ?row" "m' = ?row"
      | "m = ?row" "m' \<in> set (db_messages db)" | "m \<in> set (db_messages db)" "m' = ?row"
      unfolding ms by auto
    then show "mr_id m = mr_id m'"
    proof cases
      case 1
      from h obtain y where y: "mr_event_hash m = Some y" by blast
      with h have "mr_event_hash m' = Some y" by simp
      from db_wfD(4) [OF wf 1 y this] show ?thesis by simp
    qed (use h hash in auto)
  qed
  moreover have "set (db_fts db') = plain_index db'"
  proof -
    have "{m \<in> set (db_messages db'). \<not> mr_is_e2ee m} =
        (if e2ee then {m \<in> set (db_messages db). \<not> mr_is_e2ee m}
         else insert ?row {m \<in> set (db_messages db). \<not> mr_is_e2ee m})"
      unfolding ms by auto
    then have "plain_index db' = (if e2ee then plain_index db else insert (mid, content) (plain_index db))"
      by (simp add: plain_index_def)
    then show ?thesis using db' db_wfD(6) [OF wf] by simp
  qed
  ultimately show ?thesis unfolding db_wf_def hashes_unique_def by (intro conjI)
qed

lemma require_plaintext_Inr [result_simps]: "require_plaintext db c = Inr u \<longleftrightarrow> resolve db c = ClassPlaintext"
  by (cases "resolve db c") (simp_all add: require_plaintext_def)

lemma require_e2ee_Inr [result_simps]: "require_e2ee db c = Inr u \<longleftrightarrow> resolve db c = ClassE2ee"
  by (simp add: require_e2ee_def result_simps)

lemma require_derived_Inr [result_simps]:
  "require_plaintext_for_derived db c = Inr u \<longleftrightarrow> resolve db c = ClassPlaintext \<or> find_channel db c = None"
  by (auto simp: require_plaintext_for_derived_def resolve_def split: write_class.splits option.splits if_splits)

lemma db_wf_insert_doors:
  "insert_message_with_ts db c a s r ts = Inr (mid, db') \<Longrightarrow> db_wf db \<Longrightarrow> db_wf db'"
  "insert_message now db c a s r = Inr (mid, db') \<Longrightarrow> db_wf db \<Longrightarrow> db_wf db'"
  "insert_message_with_author_name now db c a s r nm bd = Inr (mid, db') \<Longrightarrow> db_wf db \<Longrightarrow> db_wf db'"
  "insert_derived_row db c a s ts r h = Inr (mid, db') \<Longrightarrow> db_wf db \<Longrightarrow> db_wf db'"
  "insert_sealed_row db c a ct ts r h = Inr (mid, db') \<Longrightarrow> db_wf db \<Longrightarrow> db_wf db'"
  by (auto simp: insert_message_with_ts_def insert_message_def insert_message_with_author_name_def
      insert_derived_row_def insert_sealed_row_def result_simps resolve_def elim!: db_wf_insert_row)

section \<open>Updating\<close>

lemma db_wf_map:
  assumes wf: "db_wf db" and ms: "db_messages db' = map g (db_messages db)"
    and ch: "db_channels db' = db_channels db" "db_last_message db' = db_last_message db"
    and keep: "\<And>m. m \<in> set (db_messages db) \<Longrightarrow> mr_id (g m) = mr_id m \<and> mr_channel (g m) = mr_channel m \<and>
        (mr_is_e2ee m \<longrightarrow> mr_content (g m) = mr_content m) \<and> mr_is_e2ee (g m) = mr_is_e2ee m \<and>
        mr_event_hash (g m) = mr_event_hash m \<and> (mr_sealed (g m) = None \<longleftrightarrow> mr_sealed m = None)"
    and fts: "set (db_fts db') = plain_index db'"
  shows "db_wf db'"
proof -
  have res: "resolve db' = resolve db" using ch by (auto intro: resolve_cong)
  have hash: "mr_event_hash (g m) = mr_event_hash m" and mid: "mr_id (g m) = mr_id m"
    if "m \<in> set (db_messages db)" for m
    using keep [OF that] by auto
  have rows: "row_ok db' (g m) = row_ok db m" if "m \<in> set (db_messages db)" for m
    using keep [OF that] by (auto simp: row_ok_def res)
  have "map mr_id (db_messages db') = map mr_id (db_messages db)" unfolding ms using mid by simp
  then have "distinct (map mr_id (db_messages db'))" using db_wfD(1) [OF wf] by simp
  moreover have "\<forall>m \<in> set (db_messages db'). mr_id m \<le> db_last_message db' \<and> row_ok db' m"
  proof -
    have "\<forall>m \<in> set (db_messages db). mr_id (g m) \<le> db_last_message db' \<and> row_ok db' (g m)"
      using db_wfD(2,3) [OF wf] rows mid ch by simp
    then show ?thesis unfolding ms by simp
  qed
  moreover have "\<forall>m \<in> set (db_messages db'). \<forall>m' \<in> set (db_messages db').
      mr_event_hash m \<noteq> None \<and> mr_event_hash m = mr_event_hash m' \<longrightarrow> mr_id m = mr_id m'"
  proof -
    have "mr_id (g m) = mr_id (g m')" if m: "m \<in> set (db_messages db)" "m' \<in> set (db_messages db)"
      and h: "mr_event_hash (g m) \<noteq> None \<and> mr_event_hash (g m) = mr_event_hash (g m')" for m m'
    proof -
      from h obtain y where y: "mr_event_hash (g m) = Some y" by blast
      with h have "mr_event_hash (g m') = Some y" by simp
      then have "mr_event_hash m' = Some y" by (rule trans [OF hash [OF m(2), symmetric]])
      from db_wfD(4) [OF wf m trans [OF hash [OF m(1), symmetric] y] this] show ?thesis by simp
    qed
    then have "\<forall>m \<in> set (db_messages db). \<forall>m' \<in> set (db_messages db).
        mr_event_hash (g m) \<noteq> None \<and> mr_event_hash (g m) = mr_event_hash (g m') \<longrightarrow> mr_id (g m) = mr_id (g m')"
      by (intro ballI impI)
    then show ?thesis unfolding ms by (simp only: set_map ball_simps)
  qed
  ultimately show ?thesis using fts unfolding db_wf_def hashes_unique_def by (intro conjI)
qed

lemma plain_index_map:
  assumes "db_messages db' = map g (db_messages db)"
    and "\<And>m. m \<in> set (db_messages db) \<Longrightarrow> mr_is_e2ee (g m) = mr_is_e2ee m"
  shows "plain_index db' = (\<lambda>m. (mr_id (g m), mr_content (g m))) ` {m \<in> set (db_messages db). \<not> mr_is_e2ee m}"
  unfolding plain_index_def assms(1) set_map
  using image_filter_eq [of "set (db_messages db)" "\<lambda>m. \<not> mr_is_e2ee m" g] assms(2) by (simp add: image_image)

lemma db_wf_update:
  assumes wf: "db_wf db"
    and keep: "\<And>m. m \<in> set (db_messages db) \<Longrightarrow> mr_id m = mid \<Longrightarrow> mr_id (f m) = mr_id m \<and> mr_channel (f m) = mr_channel m \<and>
        mr_content (f m) = mr_content m \<and> mr_is_e2ee (f m) = mr_is_e2ee m \<and> mr_event_hash (f m) = mr_event_hash m \<and>
        (mr_sealed (f m) = None \<longleftrightarrow> mr_sealed m = None)"
  shows "db_wf (update_message mid f db)"
proof -
  let ?g = "\<lambda>m. if mr_id m = mid then f m else m"
  have "plain_index (update_message mid f db) = plain_index db"
    by (subst plain_index_map [where g = ?g and db = db]) (use keep in \<open>auto simp: plain_index_def intro!: image_cong\<close>)
  then have "set (db_fts (update_message mid f db)) = plain_index (update_message mid f db)"
    using db_wfD(6) [OF wf] by simp
  then show ?thesis by (intro db_wf_map [OF wf, where g = ?g]) (use keep in auto)
qed

lemma db_wf_update_sealed_row: "update_sealed_row mid ct ts db = Inr db' \<Longrightarrow> db_wf db \<Longrightarrow> db_wf db'"
proof -
  assume a: "update_sealed_row mid ct ts db = Inr db'" and wf: "db_wf db"
  from a obtain row where row: "find_message db mid = Some row" "mr_is_e2ee row"
    and db': "db' = update_message mid (\<lambda>m. m\<lparr>mr_sealed := Some ct, mr_edited_at := Some ts\<rparr>) db"
    by (auto simp: update_sealed_row_def result_simps)
  have "mr_sealed m \<noteq> None" if "m \<in> set (db_messages db)" "mr_id m = mid" for m
  proof -
    have "m = row" using that row(1) db_wfD(5) [OF wf] by (auto simp: find_message_Some [OF wf])
    with row(2) db_wfD(3) [OF wf that(1)] show ?thesis by (auto simp: row_ok_def)
  qed
  then show ?thesis unfolding db' by (intro db_wf_update [OF wf]) auto
qed

lemma db_wf_plain_updates:
  "db_wf db \<Longrightarrow> db_wf (set_widget mid json db)"
  "db_wf db \<Longrightarrow> db_wf (pin_message mid db)"
  "db_wf db \<Longrightarrow> db_wf (unpin_message mid db)"
  by (simp_all add: set_widget_def pin_message_def unpin_message_def db_wf_update)

section \<open>Deleting and anonymizing\<close>

lemma db_wf_filter:
  assumes wf: "db_wf db" and ms: "db_messages db' = filter P (db_messages db)"
    and ch: "db_channels db' = db_channels db" "db_last_message db' = db_last_message db"
    and fts: "set (db_fts db') = plain_index db'"
  shows "db_wf db'"
proof -
  have res: "resolve db' = resolve db" using ch by (auto intro: resolve_cong)
  have "row_ok db' m = row_ok db m" for m by (simp only: row_ok_def res)
  with db_wfD(2,3) [OF wf] have "\<forall>m \<in> set (db_messages db'). mr_id m \<le> db_last_message db' \<and> row_ok db' m"
    unfolding ms ch by simp
  moreover have "distinct (map mr_id (db_messages db'))"
    unfolding ms using db_wfD(1) [OF wf] by (rule distinct_map_filter)
  moreover have "\<forall>m \<in> set (db_messages db'). \<forall>m' \<in> set (db_messages db').
      mr_event_hash m \<noteq> None \<and> mr_event_hash m = mr_event_hash m' \<longrightarrow> mr_id m = mr_id m'"
    using wf unfolding ms db_wf_def hashes_unique_def by (auto simp del: not_None_eq)
  ultimately show ?thesis using fts unfolding db_wf_def hashes_unique_def by (intro conjI)
qed

lemma delete_message_Inr:
  assumes "delete_message mid db = Inr (z, db')" and wf: "db_wf db"
  obtains dbA where "same_core db dbA"
    and "db_messages db' = filter (\<lambda>m. mr_id m \<noteq> mid) (db_messages db)"
    and "db_channels db' = db_channels db" "db_last_message db' = db_last_message db" "db_events db' = db_events db"
    and "db_genesis db' = db_genesis db" "db_last_event db' = db_last_event db"
    and "set (db_fts db') = set (db_fts db) - {(mr_id m, mr_content m) | m. m \<in> set (db_messages db) \<and> mr_id m = mid \<and> \<not> mr_is_e2ee m}"
proof -
  from assms(1) obtain db1 where d: "delete_attachments_for_message mid db = Inr (z, db1)"
    and db': "db' = (let db2 = db1\<lparr>db_reactions := filter (\<lambda>r. fst r \<noteq> mid) (db_reactions db1)\<rparr>;
          db3 = (case find_message db2 mid of
                   Some row \<Rightarrow> if mr_is_e2ee row then db2 else unindex mid (mr_content row) db2
                 | None \<Rightarrow> db2)
      in db3\<lparr>db_messages := filter (\<lambda>m. mr_id m \<noteq> mid) (db_messages db3)\<rparr>)"
    by (auto simp: delete_message_def result_simps Let_def)
  note core = delete_attachments_same_core [OF d]
  let ?db2 = "db1\<lparr>db_reactions := filter (\<lambda>r. fst r \<noteq> mid) (db_reactions db1)\<rparr>"
  have c2: "same_core db ?db2" using core by (simp add: same_core_def)
  have fm: "find_message ?db2 mid = find_message db mid" using c2 by (simp add: find_message_def same_core_def)
  show ?thesis
  proof (rule that [OF c2])
    show "set (db_fts db') = set (db_fts db) - {(mr_id m, mr_content m) | m. m \<in> set (db_messages db) \<and> mr_id m = mid \<and> \<not> mr_is_e2ee m}"
    proof (cases "find_message db mid")
      case None
      then have none: "{(mr_id m, mr_content m) | m. m \<in> set (db_messages db) \<and> mr_id m = mid \<and> \<not> mr_is_e2ee m} = {}"
        by (auto simp: find_message_None)
      show ?thesis unfolding none using c2 None by (simp add: db' fm Let_def same_core_def)
    next
      case (Some row)
      then have row: "row \<in> set (db_messages db)" "mr_id row = mid" by (simp_all add: find_message_Some [OF wf])
      have uniq: "m = row" if "m \<in> set (db_messages db)" "mr_id m = mid" for m
        using db_wfD(5) [OF wf that(1) row(1)] that(2) row(2) by simp
      have only: "{(mr_id m, mr_content m) | m. m \<in> set (db_messages db) \<and> mr_id m = mid \<and> \<not> mr_is_e2ee m} =
          (if mr_is_e2ee row then {} else {(mid, mr_content row)})"
        by (cases "mr_is_e2ee row") (use row in \<open>auto dest: uniq\<close>)
      show ?thesis unfolding only using c2 Some by (auto simp: db' fm Let_def same_core_def)
    qed
  qed (use c2 in \<open>auto simp: db' fm Let_def same_core_def split: option.splits\<close>)
qed

lemma db_wf_delete_message: "delete_message mid db = Inr (z, db') \<Longrightarrow> db_wf db \<Longrightarrow> db_wf db'"
proof (erule delete_message_Inr, assumption)
  fix dbA
  assume wf: "db_wf db" and ms: "db_messages db' = filter (\<lambda>m. mr_id m \<noteq> mid) (db_messages db)"
    and rest: "db_channels db' = db_channels db" "db_last_message db' = db_last_message db"
    and fts: "set (db_fts db') = set (db_fts db) - {(mr_id m, mr_content m) | m. m \<in> set (db_messages db) \<and> mr_id m = mid \<and> \<not> mr_is_e2ee m}"
  show "db_wf db'"
  proof (rule db_wf_filter [OF wf ms rest])
    show "set (db_fts db') = plain_index db'"
      unfolding fts db_wfD(6) [OF wf] unfolding plain_index_def ms by auto
  qed
qed

lemma db_wf_edit_message:
  assumes "edit_message now mid s db = Inr db'" and wf: "db_wf db"
  shows "db_wf db'"
proof -
  let ?f = "\<lambda>m. m\<lparr>mr_content := s, mr_edited_at := Some now\<rparr>"
  let ?g = "\<lambda>m. if mr_id m = mid then ?f m else m"
  from assms(1) obtain row where row: "find_message db mid = Some row" "resolve db (mr_channel row) = ClassPlaintext"
    and db': "db' = (unindex mid (mr_content row) (update_message mid ?f db))
      \<lparr>db_fts := db_fts (unindex mid (mr_content row) (update_message mid ?f db)) @ [(mid, s)]\<rparr>"
    by (auto simp: edit_message_def result_simps Let_def)
  from row(1) have mem: "row \<in> set (db_messages db)" "mr_id row = mid" by (simp_all add: find_message_Some [OF wf])
  with db_wfD(3) [OF wf mem(1)] row(2) have plain: "\<not> mr_is_e2ee row" by (auto simp: row_ok_def)
  have uniq: "m = row" if "m \<in> set (db_messages db)" "mr_id m = mid" for m
    using db_wfD(5) [OF wf that(1) mem(1)] that(2) mem(2) by simp
  have ms: "db_messages db' = map ?g (db_messages db)" by (simp add: db')
  have others: "(\<lambda>m. (mr_id m, mr_content m)) ` {m \<in> set (db_messages db). \<not> mr_is_e2ee m \<and> mr_id m \<noteq> mid} =
      plain_index db - {(mid, mr_content row)}"
  proof (rule set_eqI, rule iffI)
    fix p
    assume "p \<in> plain_index db - {(mid, mr_content row)}"
    then obtain m where m: "m \<in> set (db_messages db)" "\<not> mr_is_e2ee m" "p = (mr_id m, mr_content m)"
      and ne: "p \<noteq> (mid, mr_content row)"
      by (auto simp: plain_index_def)
    have "mr_id m \<noteq> mid"
    proof
      assume "mr_id m = mid"
      from uniq [OF m(1) this] m(3) ne mem(2) show False by simp
    qed
    with m show "p \<in> (\<lambda>m. (mr_id m, mr_content m)) ` {m \<in> set (db_messages db). \<not> mr_is_e2ee m \<and> mr_id m \<noteq> mid}"
      by blast
  qed (auto simp: plain_index_def)
  have split: "{m \<in> set (db_messages db). \<not> mr_is_e2ee m} =
      insert row {m \<in> set (db_messages db). \<not> mr_is_e2ee m \<and> mr_id m \<noteq> mid}"
    using mem plain uniq by blast
  have img: "plain_index db' = (\<lambda>m. (mr_id (?g m), mr_content (?g m))) ` {m \<in> set (db_messages db). \<not> mr_is_e2ee m}"
    by (rule plain_index_map [OF ms]) simp
  have "plain_index db' = insert (mid, s) (plain_index db - {(mid, mr_content row)})"
    unfolding img split others [symmetric] image_insert
    using mem(2) by (intro arg_cong2 [where f = insert] image_cong) auto
  then have "set (db_fts db') = plain_index db'"
    using db_wfD(6) [OF wf] by (auto simp: db')
  then show ?thesis
    by (intro db_wf_map [OF wf ms]) (use plain in \<open>auto simp: db' dest: uniq\<close>)
qed

lemma fold_unindex_frame [simp]:
  "db_messages (fold (\<lambda>m. unindex (mr_id m) (mr_content m)) ms db) = db_messages db"
  "db_channels (fold (\<lambda>m. unindex (mr_id m) (mr_content m)) ms db) = db_channels db"
  "db_last_message (fold (\<lambda>m. unindex (mr_id m) (mr_content m)) ms db) = db_last_message db"
  "set (db_fts (fold (\<lambda>m. unindex (mr_id m) (mr_content m)) ms db)) =
     set (db_fts db) - (\<lambda>m. (mr_id m, mr_content m)) ` set ms"
  by (induction ms arbitrary: db) auto

lemma db_wf_delete_before:
  assumes "delete_messages_before c cutoff db = Inr (n, db')" and wf: "db_wf db"
  shows "db_wf db'"
proof -
  let ?old = "\<lambda>m. mr_channel m = c \<and> mr_timestamp m < cutoff"
  from assms(1) obtain db1 where d: "delete_attachments_of_all (map mr_id (filter ?old (db_messages db))) db = Inr db1"
    and db': "db' = (let db2 = fold (\<lambda>m. unindex (mr_id m) (mr_content m))
         (filter (\<lambda>m. \<not> mr_is_e2ee m) (filter ?old (db_messages db))) db1
       in db2\<lparr>db_messages := filter (\<lambda>m. \<not> ?old m) (db_messages db2)\<rparr>)"
    by (auto simp: delete_messages_before_def result_simps Let_def)
  note core = delete_attachments_of_all_same_core [OF d]
  have ms: "db_messages db' = filter (\<lambda>m. \<not> ?old m) (db_messages db)"
    using core by (simp add: db' Let_def same_core_def)
  have ids: "mr_id m = mr_id m' \<Longrightarrow> m \<in> set (db_messages db) \<Longrightarrow> m' \<in> set (db_messages db) \<Longrightarrow> m = m'" for m m'
    using db_wfD(5) [OF wf] by blast
  have "set (db_fts db') = plain_index db'"
  proof -
    have "set (db_fts db') = plain_index db -
        (\<lambda>m. (mr_id m, mr_content m)) ` {m \<in> set (db_messages db). ?old m \<and> \<not> mr_is_e2ee m}"
      using core db_wfD(6) [OF wf] by (simp add: db' Let_def same_core_def conj_assoc)
    also have "\<dots> = plain_index db'"
      unfolding plain_index_def ms using ids by (auto simp: image_iff)
    finally show ?thesis .
  qed
  then show ?thesis using core by (intro db_wf_filter [OF wf ms]) (simp_all add: db' Let_def same_core_def)
qed

lemma fold_reindex_frame [simp]:
  "db_messages (fold reindex_deleted ms db) = db_messages db"
  "db_channels (fold reindex_deleted ms db) = db_channels db"
  "db_last_message (fold reindex_deleted ms db) = db_last_message db"
  by (induction ms arbitrary: db) (auto simp: reindex_deleted_def Let_def)

lemma fold_reindex_fts:
  "distinct (map mr_id ms) \<Longrightarrow> set (db_fts (fold reindex_deleted ms db)) =
     (set (db_fts db) - (\<lambda>m. (mr_id m, mr_content m)) ` set ms) \<union> (\<lambda>m. (mr_id m, ''[deleted]'')) ` set ms"
proof (induction ms arbitrary: db)
  case (Cons m ms)
  have fresh: "(mr_id m, ''[deleted]'') \<notin> (\<lambda>m. (mr_id m, mr_content m)) ` set ms"
    using Cons.prems by (auto simp: image_iff)
  have "set (db_fts (reindex_deleted m db)) = insert (mr_id m, ''[deleted]'') (set (db_fts db) - {(mr_id m, mr_content m)})"
    by (auto simp: reindex_deleted_def Let_def)
  with Cons fresh show ?case by auto
qed simp

lemma db_wf_anonymize:
  assumes "anonymize_messages_by_author author db = (n, db')" and wf: "db_wf db"
  shows "db_wf db'"
proof -
  let ?mine = "filter (\<lambda>m. \<not> mr_is_e2ee m) (filter (\<lambda>m. mr_author m = author) (db_messages db))"
  from assms(1) have db': "db' = (fold reindex_deleted ?mine db)\<lparr>db_messages := map (anonymize_row author) (db_messages db)\<rparr>"
    by (simp add: anonymize_messages_by_author_def Let_def)
  have ms: "db_messages db' = map (anonymize_row author) (db_messages db)" by (simp add: db')
  have g: "mr_id (anonymize_row author m) = mr_id m" "mr_is_e2ee (anonymize_row author m) = mr_is_e2ee m"
    "mr_content (anonymize_row author m) = (if mr_author m = author \<and> \<not> mr_is_e2ee m then ''[deleted]'' else mr_content m)" for m
    by (auto simp: anonymize_row_def)
  have fts': "db_fts db' = db_fts (fold reindex_deleted ?mine db)"
    unfolding db' by (simp del: filter_filter)
  have dist: "distinct (map mr_id ?mine)" by (intro distinct_map_filter db_wfD(1) [OF wf])
  have uniq: "m = m'" if "m \<in> set (db_messages db)" "m' \<in> set (db_messages db)" "mr_id m = mr_id m'" for m m'
    using db_wfD(5) [OF wf that] .
  have "set (db_fts db') = (plain_index db - (\<lambda>m. (mr_id m, mr_content m)) ` set ?mine) \<union> (\<lambda>m. (mr_id m, ''[deleted]'')) ` set ?mine"
    using fold_reindex_fts [OF dist, of db] unfolding fts' db_wfD(6) [OF wf] .
  also have "plain_index db - (\<lambda>m. (mr_id m, mr_content m)) ` set ?mine =
      (\<lambda>m. (mr_id m, mr_content m)) ` {m \<in> set (db_messages db). \<not> mr_is_e2ee m \<and> mr_author m \<noteq> author}"
  proof (rule set_eqI, rule iffI)
    fix p
    assume "p \<in> (\<lambda>m. (mr_id m, mr_content m)) ` {m \<in> set (db_messages db). \<not> mr_is_e2ee m \<and> mr_author m \<noteq> author}"
    then obtain m where m: "m \<in> set (db_messages db)" "\<not> mr_is_e2ee m" "mr_author m \<noteq> author" "p = (mr_id m, mr_content m)"
      by blast
    have "p \<notin> (\<lambda>m. (mr_id m, mr_content m)) ` set ?mine"
    proof
      assume "p \<in> (\<lambda>m. (mr_id m, mr_content m)) ` set ?mine"
      then obtain m' where "m' \<in> set (db_messages db)" "mr_author m' = author" "mr_id m' = mr_id m"
        using m(4) by auto
      with uniq [of m' m] m(1,3) show False by simp
    qed
    with m show "p \<in> plain_index db - (\<lambda>m. (mr_id m, mr_content m)) ` set ?mine" by (auto simp: plain_index_def)
  qed (auto simp: plain_index_def)
  also have "\<dots> \<union> (\<lambda>m. (mr_id m, ''[deleted]'')) ` set ?mine = plain_index db'"
    unfolding plain_index_map [where g = "anonymize_row author", OF ms g(2)] g by (auto simp: image_iff)
  finally have fts: "set (db_fts db') = plain_index db'" .
  show ?thesis
    by (rule db_wf_map [OF wf ms _ _ _ fts]) (simp_all add: db' g, simp_all add: anonymize_row_def)
qed

end
