(* ===== verification/LogState.thy ===== *)
theory LogState
  imports EventLog
begin

text \<open>
  The state of the authorization fold (\<open>LogState\<close> and its records in
  \<open>crates/farder-crypto/src/event_log_state.rs\<close>) and its read-only queries.

  A \<open>HashSet\<close> is a set and a \<open>HashMap\<close> that the code only reads and writes by key is a map.
  The \<open>HashMap\<close>s whose \<^emph>\<open>entries\<close> the code walks over (\<open>identity_clock\<close>, the refs of one
  device's key packages, \<open>commits_by_epoch\<close>) are association lists, whose order stands for the
  unspecified iteration order; \<open>clock_top2_perm\<close> shows that the one walk whose steps depend
  on each other does not depend on it.
\<close>

section \<open>Constants\<close>

definition MAX_LIVE_DEVICES_PER_IDENTITY :: nat where "MAX_LIVE_DEVICES_PER_IDENTITY = 8"
definition MAX_LIVE_KEY_PACKAGES_PER_DEVICE :: nat where "MAX_LIVE_KEY_PACKAGES_PER_DEVICE = 10"
definition COMMIT_RATE_MIN_EPOCH_GAP :: nat where "COMMIT_RATE_MIN_EPOCH_GAP = 4"
definition COMMIT_RATE_CEILING_GRACE_EVENTS :: nat where "COMMIT_RATE_CEILING_GRACE_EVENTS = 50"
definition FRESHNESS_CEILING_EVENTS :: nat where "FRESHNESS_CEILING_EVENTS = 500"
definition RESET_MIN_CHANNEL_EVENTS :: nat where "RESET_MIN_CHANNEL_EVENTS = 1000"

section \<open>Records\<close>

type_synonym leaf = "public_key \<times> device_id"

record device_record =
  dr_identity :: public_key
  dr_device_pubkey :: public_key
  dr_expires_at :: "nat option"

record channel_record =
  ch_name :: string
  ch_kind :: string
  ch_class :: channel_class
  ch_parent :: "nat option"
  ch_creator :: public_key

record commit_record =
  cm_event_hash :: event_hash
  cm_post_tree_hash :: bytes

record welcome_record =
  wr_generation :: nat
  wr_for_member :: public_key
  wr_for_device :: device_id

record mls_group_record =
  mg_generation :: nat
  mg_epoch :: nat
  mg_commit_head :: "event_hash option"
  mg_epoch_authenticator :: "bytes option"
  mg_tree_hash :: "bytes option"
  mg_leaves_confirmed :: "leaf set"
  mg_leaves_pending :: "leaf set"
  mg_events_since_last_commit :: nat
  mg_last_commit_epoch_by_author :: "public_key \<rightharpoonup> nat"
  mg_channel_events_since_reset :: nat
  mg_reset_welcomed :: "leaf set"
  mg_reset_expected_tree_hash :: "bytes option"
  mg_commits_by_epoch :: "(nat \<times> commit_record) list"
  mg_welcomes :: "event_hash \<rightharpoonup> welcome_record"

record invite_record =
  iv_max_uses :: nat
  iv_expires_at :: nat
  iv_use_count :: nat
  iv_requires_approval :: bool

record chain_head =
  hd_seq :: nat
  hd_hash :: event_hash

record log_state =
  ls_server_id :: server_id
  ls_owner :: public_key
  ls_members :: "public_key set"
  ls_pending :: "public_key set"
  ls_banned :: "public_key set"
  ls_capabilities :: "public_key \<rightharpoonup> string set"
  ls_devices :: "device_id \<rightharpoonup> device_record"
  ls_invites :: "event_hash \<rightharpoonup> invite_record"
  ls_chains :: "leaf \<rightharpoonup> chain_head"
  ls_attachment_uploaders :: "string \<rightharpoonup> public_key"
  ls_redacted_attachments :: "string set"
  ls_channels :: "nat \<rightharpoonup> channel_record"
  ls_plaintext_history_channels :: "nat set"
  ls_tombstones :: "event_ref set"
  ls_revoked_devices :: "device_id set"
  ls_devices_by_identity :: "public_key \<rightharpoonup> device_id set"
  ls_log_pos :: nat
  ls_identity_clock :: "(public_key \<times> nat) list"
  ls_corroborated_clock :: nat
  ls_mls_groups :: "nat \<rightharpoonup> mls_group_record"
  ls_key_packages :: "leaf \<rightharpoonup> (event_ref \<times> nat) list"
  ls_consumed_key_packages :: "event_ref \<rightharpoonup> nat"
  ls_device_store_instance :: "device_id \<rightharpoonup> bytes"

datatype authorized = Apply | StaleCommitNoOp

text \<open>
  One constructor per refusal of the fold, grouped by the part of the fold that refuses;
  \<open>GroupMissingPanic\<close> is the panic of its \<open>expect\<close>s.
\<close>

datatype envelope_error =
    ServerIdMismatch | CertInvalid cert_error | CertIdentityMismatch | CertDeviceMismatch
  | UnauthorizedDevice | DeviceOfOtherIdentity | EventSignatureInvalid | DeviceIsRevoked
  | DeviceCertExpired | AuthorBanned | FirstSeqNotZero | FirstPrevNotNone | NonContiguousSeq
  | ForkedPrev

datatype member_error =
    TooManyLiveDevices | MissingCapability string | JoinNotSelfAuthored | AlreadyMember
  | AlreadyPending | UnknownInvite | InviteExhausted | InviteExpired | TargetNotPending
  | TargetNotMemberNorPending | NotSelfNorKick | OwnerCannotBeBanned | GranteeNotMember
  | CapabilityNotHeld | UnknownDevice | DeviceAlreadyRevoked | NotDeviceOwner

datatype channel_error =
    OnlyMembersPost | PlaintextInE2eeChannel | UnknownAttachment | NotUploaderNorKick
  | AttachmentAlreadyRedacted | OnlyOwnerCreatesChannels | ChannelExists
  | ChannelHasPlaintextHistory | UnknownParent | ParentClassMismatch | DeleteInUnknownChannel
  | AlreadyTombstoned | OnlyMembersDelete

datatype mls_error =
    InstanceMismatch | NotFullMember | KeyPackageExpired | TooManyKeyPackages | NoGroup
  | GenerationMismatch | NoConfirmedLeaf | WelcomeTargetNotPending | WelcomeUnknownCommit
  | WelcomeOwnerOnly | WelcomeBadGeneration | LeafNotPending | TreeHashMismatch
  | ResetTreeHashMismatch | NoRecordedCommit

datatype commit_error =
    NotChannelCreator | BrokenCommitChain | AddOfNonMember | AddOfBanned | AddDeviceNotLive
  | AddConsumedKeyPackage | AddNoLiveKeyPackage | AddLeafPresent | SelfAddRule
  | RemoveAbsentLeaf | RemoveGoodStanding | CommitRateRule

datatype sealed_error =
    SealedInUnknownChannel | SealedInPlaintextChannel | EpochNotCurrent | SealedUntilRekey
  | FreshnessCeilingReached | ResetIncomplete | EditTargetTombstoned

datatype reset_error =
    OnlyOwnerResets | ResetGenerationNotNext | ResetRateLimit | ResetDuplicateRef
  | ResetUnknownWelcome | ResetWelcomeGeneration | ResetNotExactCover

datatype log_error =
    Envelope envelope_error | Member member_error | Channel channel_error | Mls mls_error
  | Commit commit_error | Sealed sealed_error | Reset reset_error | GroupMissingPanic

section \<open>The MLS group record\<close>

definition new_mls_group :: mls_group_record where
  "new_mls_group =
     \<lparr>mg_generation = 0, mg_epoch = 0, mg_commit_head = None, mg_epoch_authenticator = None,
      mg_tree_hash = None, mg_leaves_confirmed = {}, mg_leaves_pending = {},
      mg_events_since_last_commit = 0, mg_last_commit_epoch_by_author = Map.empty,
      mg_channel_events_since_reset = 0, mg_reset_welcomed = {},
      mg_reset_expected_tree_hash = None, mg_commits_by_epoch = [], mg_welcomes = Map.empty\<rparr>"

definition committing_identities :: "mls_group_record \<Rightarrow> nat" where
  "committing_identities g = card (fst ` mg_leaves_confirmed g)"

definition commit_rate_gap :: "mls_group_record \<Rightarrow> nat" where
  "commit_rate_gap g = min COMMIT_RATE_MIN_EPOCH_GAP (max (committing_identities g) 1)"

definition reset_incomplete :: "mls_group_record \<Rightarrow> bool" where
  "reset_incomplete g = (\<exists>leaf \<in> mg_reset_welcomed g. leaf \<notin> mg_leaves_confirmed g)"

definition ceiling_demands_rekey :: "mls_group_record \<Rightarrow> bool" where
  "ceiling_demands_rekey g \<longleftrightarrow>
     FRESHNESS_CEILING_EVENTS
       \<le> min (mg_events_since_last_commit g + COMMIT_RATE_CEILING_GRACE_EVENTS) u32_max"

section \<open>Construction and queries\<close>

definition from_genesis :: "crypto \<Rightarrow> genesis \<Rightarrow> log_state" where
  "from_genesis cr g =
     \<lparr>ls_server_id = genesis_server_id cr g, ls_owner = g_owner g, ls_members = {g_owner g},
      ls_pending = {}, ls_banned = {}, ls_capabilities = Map.empty, ls_devices = Map.empty,
      ls_invites = Map.empty, ls_chains = Map.empty, ls_attachment_uploaders = Map.empty,
      ls_redacted_attachments = {}, ls_channels = Map.empty, ls_plaintext_history_channels = {},
      ls_tombstones = {}, ls_revoked_devices = {}, ls_devices_by_identity = Map.empty,
      ls_log_pos = 0, ls_identity_clock = [], ls_corroborated_clock = 0,
      ls_mls_groups = Map.empty, ls_key_packages = Map.empty,
      ls_consumed_key_packages = Map.empty, ls_device_store_instance = Map.empty\<rparr>"

definition is_owner :: "log_state \<Rightarrow> public_key \<Rightarrow> bool" where
  "is_owner st pk \<longleftrightarrow> pk = ls_owner st"

definition is_member :: "log_state \<Rightarrow> public_key \<Rightarrow> bool" where
  "is_member st pk \<longleftrightarrow> pk \<in> ls_members st"

definition is_pending :: "log_state \<Rightarrow> public_key \<Rightarrow> bool" where
  "is_pending st pk \<longleftrightarrow> pk \<in> ls_pending st"

definition is_banned :: "log_state \<Rightarrow> public_key \<Rightarrow> bool" where
  "is_banned st pk \<longleftrightarrow> pk \<in> ls_banned st"

definition has_capability :: "log_state \<Rightarrow> public_key \<Rightarrow> string \<Rightarrow> bool" where
  "has_capability st pk cap \<longleftrightarrow>
     is_owner st pk \<or> (case ls_capabilities st pk of None \<Rightarrow> False | Some c \<Rightarrow> cap \<in> c)"

definition is_attachment_redacted :: "log_state \<Rightarrow> string \<Rightarrow> bool" where
  "is_attachment_redacted st h \<longleftrightarrow> h \<in> ls_redacted_attachments st"

definition attachment_uploader :: "log_state \<Rightarrow> string \<Rightarrow> public_key option" where
  "attachment_uploader st h = ls_attachment_uploaders st h"

definition channel_class :: "log_state \<Rightarrow> nat \<Rightarrow> channel_class option" where
  "channel_class st c = map_option ch_class (ls_channels st c)"

definition is_tombstoned :: "log_state \<Rightarrow> event_ref \<Rightarrow> bool" where
  "is_tombstoned st t \<longleftrightarrow> t \<in> ls_tombstones st"

definition is_device_revoked :: "log_state \<Rightarrow> device_id \<Rightarrow> bool" where
  "is_device_revoked st d \<longleftrightarrow> d \<in> ls_revoked_devices st"

section \<open>Clocks and live devices\<close>

definition identity_floor :: "log_state \<Rightarrow> public_key \<Rightarrow> nat" where
  "identity_floor st pk = (case map_of (ls_identity_clock st) pk of None \<Rightarrow> 0 | Some t \<Rightarrow> t)"

definition self_liveness_ts :: "log_state \<Rightarrow> public_key \<Rightarrow> nat \<Rightarrow> nat" where
  "self_liveness_ts st pk at_ts = max at_ts (identity_floor st pk)"

definition judged_liveness_ts :: "log_state \<Rightarrow> public_key \<Rightarrow> nat \<Rightarrow> nat" where
  "judged_liveness_ts st pk at_ts = max (identity_floor st pk) (min at_ts (ls_corroborated_clock st))"

definition device_unexpired :: "log_state \<Rightarrow> nat \<Rightarrow> device_id \<Rightarrow> bool" where
  "device_unexpired st at d \<longleftrightarrow>
     (case Option.bind (ls_devices st d) dr_expires_at of None \<Rightarrow> True | Some t \<Rightarrow> at \<le> t)"

definition live_devices_at :: "log_state \<Rightarrow> public_key \<Rightarrow> nat \<Rightarrow> device_id list" where
  "live_devices_at st pk at =
     (case ls_devices_by_identity st pk of
        None \<Rightarrow> []
      | Some devs \<Rightarrow> sorted_list_of_set
          {d \<in> devs. d \<notin> ls_revoked_devices st \<and> device_unexpired st at d})"

definition live_devices :: "log_state \<Rightarrow> public_key \<Rightarrow> nat \<Rightarrow> device_id list" where
  "live_devices st pk at_ts = live_devices_at st pk (self_liveness_ts st pk at_ts)"

definition judged_live_devices :: "log_state \<Rightarrow> public_key \<Rightarrow> nat \<Rightarrow> device_id list" where
  "judged_live_devices st pk at_ts = live_devices_at st pk (judged_liveness_ts st pk at_ts)"

definition leaf_holder_in_good_standing :: "log_state \<Rightarrow> leaf \<Rightarrow> nat \<Rightarrow> bool" where
  "leaf_holder_in_good_standing st leaf at_ts \<longleftrightarrow>
     is_member st (fst leaf) \<and> \<not> is_banned st (fst leaf) \<and>
     snd leaf \<in> set (judged_live_devices st (fst leaf) at_ts)"

definition member_leaf_set :: "log_state \<Rightarrow> nat \<Rightarrow> leaf set" where
  "member_leaf_set st at_ts =
     (\<Union>m \<in> ls_members st. Pair m ` set (judged_live_devices st m at_ts))"

section \<open>Drift between the group and the membership\<close>

definition pending_removals :: "log_state \<Rightarrow> nat \<Rightarrow> nat \<Rightarrow> leaf set" where
  "pending_removals st c at_ts =
     (case ls_mls_groups st c of
        None \<Rightarrow> {}
      | Some g \<Rightarrow> {leaf \<in> mg_leaves_confirmed g \<union> mg_leaves_pending g.
                     leaf \<notin> member_leaf_set st at_ts})"

definition pending_adds :: "log_state \<Rightarrow> nat \<Rightarrow> nat \<Rightarrow> leaf set" where
  "pending_adds st c at_ts =
     (case ls_mls_groups st c of
        None \<Rightarrow> {}
      | Some g \<Rightarrow> {leaf \<in> member_leaf_set st at_ts.
                     leaf \<notin> mg_leaves_confirmed g \<and> leaf \<notin> mg_leaves_pending g})"

definition pending_confirmations :: "log_state \<Rightarrow> nat \<Rightarrow> leaf set" where
  "pending_confirmations st c =
     (case ls_mls_groups st c of None \<Rightarrow> {} | Some g \<Rightarrow> mg_leaves_pending g)"

definition mls_current_epoch :: "log_state \<Rightarrow> nat \<Rightarrow> (nat \<times> nat) option" where
  "mls_current_epoch st c = map_option (\<lambda>g. (mg_generation g, mg_epoch g)) (ls_mls_groups st c)"

definition leaves_confirmed :: "log_state \<Rightarrow> nat \<Rightarrow> leaf set" where
  "leaves_confirmed st c =
     (case ls_mls_groups st c of None \<Rightarrow> {} | Some g \<Rightarrow> mg_leaves_confirmed g)"

definition add_leaf :: "declared_add \<Rightarrow> leaf" where
  "add_leaf a = (add_identity a, add_device a)"

definition rem_leaf :: "declared_remove \<Rightarrow> leaf" where
  "rem_leaf r = (rem_identity r, rem_device r)"

definition commit_discharges_drift :: "log_state \<Rightarrow> event \<Rightarrow> bool" where
  "commit_discharges_drift st e =
     (case ev_payload e of
        MlsCommit mc \<Rightarrow>
          (\<exists>a \<in> set (mc_adds mc). add_leaf a \<in> pending_adds st (mc_channel_id mc) (ev_timestamp e)) \<or>
          (\<exists>r \<in> set (mc_removes mc).
             rem_leaf r \<in> pending_removals st (mc_channel_id mc) (ev_timestamp e))
      | _ \<Rightarrow> False)"

text \<open>\<open>std::cmp::Ordering\<close>, and \<open>cmp\<close> on a linear order.\<close>

datatype ordering = Less | Equal | Greater

definition cmp :: "'a::linorder \<Rightarrow> 'a \<Rightarrow> ordering" where
  "cmp a b = (if a < b then Less else if a = b then Equal else Greater)"

definition compare_same_epoch_commits :: "crypto \<Rightarrow> log_state \<Rightarrow> event \<Rightarrow> event \<Rightarrow> ordering" where
  "compare_same_epoch_commits cr st a b =
     (if commit_discharges_drift st a \<and> \<not> commit_discharges_drift st b then Less
      else if \<not> commit_discharges_drift st a \<and> commit_discharges_drift st b then Greater
      else cmp (ev_lamport a, as_bytes (ev_author a), event_hash_of cr a)
               (ev_lamport b, as_bytes (ev_author b), event_hash_of cr b))"

section \<open>Store-instance pins\<close>

definition check_instance_pin :: "log_state \<Rightarrow> device_id \<Rightarrow> bytes \<Rightarrow> log_error + unit" where
  "check_instance_pin st d h =
     (case ls_device_store_instance st d of
        Some pinned \<Rightarrow> ensure (pinned = h) (Mls InstanceMismatch) (Inr ())
      | None \<Rightarrow> Inr ())"

definition pin_instance :: "device_id \<Rightarrow> bytes \<Rightarrow> log_state \<Rightarrow> log_state" where
  "pin_instance d h st =
     st\<lparr>ls_device_store_instance := or_insert d h (ls_device_store_instance st)\<rparr>"

section \<open>The corroborated clock\<close>

text \<open>The loop of \<open>recompute_corroborated_clock\<close> over \<open>identity_clock.values()\<close>.\<close>

fun clock_scan :: "nat \<times> nat \<Rightarrow> nat \<Rightarrow> nat \<times> nat" where
  "clock_scan (top1, top2) v =
     (if top1 < v then (v, top1) else if top2 < v then (top1, v) else (top1, top2))"

definition clock_top2 :: "nat list \<Rightarrow> nat \<times> nat" where
  "clock_top2 vs = foldl clock_scan (0, 0) vs"

definition recompute_corroborated_clock :: "log_state \<Rightarrow> log_state" where
  "recompute_corroborated_clock st =
     st\<lparr>ls_corroborated_clock := snd (clock_top2 (map snd (ls_identity_clock st)))\<rparr>"

end
