(* ===== verification/LogAuthz.thy ===== *)
theory LogAuthz
  imports LogState
begin

text \<open>
  What the fold checks before it changes anything (\<open>resolve_device_pubkey\<close>, \<open>check_chain\<close>,
  \<open>check_payload_authz\<close> and \<open>check_sealed_send\<close> of \<open>event_log_state.rs\<close>): one definition per
  arm of the source's \<open>match\<close>, in its order, with the checks of each arm in the order of its
  \<open>ensure!\<close>s.
\<close>

section \<open>Envelope\<close>

definition resolve_device_pubkey :: "crypto \<Rightarrow> log_state \<Rightarrow> event \<Rightarrow> log_error + public_key" where
  "resolve_device_pubkey cr st e =
     (case ev_payload e of
        DeviceAuthorized cert \<Rightarrow>
          (case cert_verify cr cert of
             Inl err \<Rightarrow> Inl (Envelope (CertInvalid err))
           | Inr _ \<Rightarrow>
               ensure (dc_identity (cert_core cert) = ev_author e) (Envelope CertIdentityMismatch)
               (ensure (dc_device_id (cert_core cert) = ev_device e) (Envelope CertDeviceMismatch)
               (Inr (dc_device_pubkey (cert_core cert)))))
      | _ \<Rightarrow>
          or_fail (ls_devices st (ev_device e)) (Envelope UnauthorizedDevice) (\<lambda>rec.
          ensure (dr_identity rec = ev_author e) (Envelope DeviceOfOtherIdentity)
          (Inr (dr_device_pubkey rec))))"

definition check_chain :: "log_state \<Rightarrow> event \<Rightarrow> log_error + unit" where
  "check_chain st e =
     (case ls_chains st (ev_author e, ev_device e) of
        None \<Rightarrow>
          ensure (ev_seq e = 0) (Envelope FirstSeqNotZero)
          (ensure (ev_prev e = None) (Envelope FirstPrevNotNone) (Inr ()))
      | Some head \<Rightarrow>
          ensure (ev_seq e = hd_seq head + 1) (Envelope NonContiguousSeq)
          (ensure (ev_prev e = Some (hd_hash head)) (Envelope ForkedPrev) (Inr ())))"

text \<open>The expiry the envelope gate judges the event at.\<close>

definition cert_expiry :: "log_state \<Rightarrow> event \<Rightarrow> nat option" where
  "cert_expiry st e =
     (case ev_payload e of
        DeviceAuthorized cert \<Rightarrow> dc_expires_at (cert_core cert)
      | _ \<Rightarrow> Option.bind (ls_devices st (ev_device e)) dr_expires_at)"

definition check_cert_expiry :: "log_state \<Rightarrow> event \<Rightarrow> log_error + unit" where
  "check_cert_expiry st e =
     (case cert_expiry st e of
        None \<Rightarrow> Inr ()
      | Some t \<Rightarrow> ensure (self_liveness_ts st (ev_author e) (ev_timestamp e) \<le> t)
                   (Envelope DeviceCertExpired) (Inr ()))"

section \<open>Membership and channels\<close>

definition check_device_authorized :: "log_state \<Rightarrow> event \<Rightarrow> log_error + authorized" where
  "check_device_authorized st e =
     ensure (length (live_devices st (ev_author e) (ev_timestamp e)) < MAX_LIVE_DEVICES_PER_IDENTITY)
       (Member TooManyLiveDevices) (Inr Apply)"

definition check_invite_created :: "log_state \<Rightarrow> event \<Rightarrow> log_error + authorized" where
  "check_invite_created st e =
     ensure (has_capability st (ev_author e) ''invite'') (Member (MissingCapability ''invite''))
       (Inr Apply)"

definition check_member_joined :: "log_state \<Rightarrow> event \<Rightarrow> public_key \<Rightarrow> event_ref \<Rightarrow> log_error + authorized" where
  "check_member_joined st e member invite =
     ensure (member = ev_author e) (Member JoinNotSelfAuthored)
     (ensure (\<not> is_member st (ev_author e)) (Member AlreadyMember)
     (ensure (\<not> is_pending st (ev_author e)) (Member AlreadyPending)
     (or_fail (ls_invites st invite) (Member UnknownInvite) (\<lambda>inv.
      ensure (iv_use_count inv < iv_max_uses inv) (Member InviteExhausted)
     (ensure (ev_timestamp e \<le> iv_expires_at inv) (Member InviteExpired)
     (Inr Apply))))))"

definition check_member_approved :: "log_state \<Rightarrow> event \<Rightarrow> public_key \<Rightarrow> log_error + authorized" where
  "check_member_approved st e member =
     ensure (has_capability st (ev_author e) ''kick'') (Member (MissingCapability ''kick''))
     (ensure (is_pending st member) (Member TargetNotPending)
     (Inr Apply))"

definition check_message_posted :: "log_state \<Rightarrow> event \<Rightarrow> nat \<Rightarrow> log_error + authorized" where
  "check_message_posted st e c =
     ensure (is_member st (ev_author e)) (Channel OnlyMembersPost)
     (case ls_channels st c of
        Some ch \<Rightarrow> ensure (ch_class ch = Plaintext) (Channel PlaintextInE2eeChannel) (Inr Apply)
      | None \<Rightarrow> Inr Apply)"

definition check_member_removed :: "log_state \<Rightarrow> event \<Rightarrow> public_key \<Rightarrow> log_error + authorized" where
  "check_member_removed st e member =
     ensure (is_member st member \<or> is_pending st member) (Member TargetNotMemberNorPending)
     (ensure (member = ev_author e \<or> has_capability st (ev_author e) ''kick'') (Member NotSelfNorKick)
     (Inr Apply))"

definition check_member_banned :: "log_state \<Rightarrow> event \<Rightarrow> public_key \<Rightarrow> log_error + authorized" where
  "check_member_banned st e member =
     ensure (has_capability st (ev_author e) ''ban'') (Member (MissingCapability ''ban''))
     (ensure (\<not> is_owner st member) (Member OwnerCannotBeBanned)
     (Inr Apply))"

definition check_member_unbanned :: "log_state \<Rightarrow> event \<Rightarrow> log_error + authorized" where
  "check_member_unbanned st e =
     ensure (has_capability st (ev_author e) ''ban'') (Member (MissingCapability ''ban'')) (Inr Apply)"

definition check_permission_granted ::
    "log_state \<Rightarrow> event \<Rightarrow> public_key \<Rightarrow> string \<Rightarrow> log_error + authorized" where
  "check_permission_granted st e member capability =
     ensure (is_member st member) (Member GranteeNotMember)
     (ensure (is_owner st (ev_author e) \<or> has_capability st (ev_author e) capability)
        (Member CapabilityNotHeld)
     (Inr Apply))"

definition check_attachment_redacted :: "log_state \<Rightarrow> event \<Rightarrow> string \<Rightarrow> log_error + authorized" where
  "check_attachment_redacted st e content_hash =
     or_fail (ls_attachment_uploaders st content_hash) (Channel UnknownAttachment) (\<lambda>uploader.
      ensure (ev_author e = uploader \<or> has_capability st (ev_author e) ''kick'')
        (Channel NotUploaderNorKick)
     (ensure (content_hash \<notin> ls_redacted_attachments st) (Channel AttachmentAlreadyRedacted)
     (Inr Apply)))"

definition check_channel_created ::
    "log_state \<Rightarrow> event \<Rightarrow> nat \<Rightarrow> channel_class \<Rightarrow> nat option \<Rightarrow> log_error + authorized" where
  "check_channel_created st e c class parent =
     ensure (is_owner st (ev_author e)) (Channel OnlyOwnerCreatesChannels)
     (ensure (ls_channels st c = None) (Channel ChannelExists)
     (ensure (c \<notin> ls_plaintext_history_channels st) (Channel ChannelHasPlaintextHistory)
     (case parent of
        None \<Rightarrow> Inr Apply
      | Some p \<Rightarrow>
          or_fail (ls_channels st p) (Channel UnknownParent) (\<lambda>parent_rec.
          ensure (ch_class parent_rec = class) (Channel ParentClassMismatch) (Inr Apply)))))"

definition check_message_deleted ::
    "log_state \<Rightarrow> event \<Rightarrow> nat \<Rightarrow> event_ref \<Rightarrow> delete_reason \<Rightarrow> log_error + authorized" where
  "check_message_deleted st e c target reason =
     ensure (ls_channels st c \<noteq> None) (Channel DeleteInUnknownChannel)
     (ensure (target \<notin> ls_tombstones st) (Channel AlreadyTombstoned)
     (case reason of
        ModerationDelete \<Rightarrow>
          ensure (has_capability st (ev_author e) ''kick'') (Member (MissingCapability ''kick''))
            (Inr Apply)
      | AuthorDelete \<Rightarrow>
          ensure (is_member st (ev_author e)) (Channel OnlyMembersDelete) (Inr Apply)))"

definition check_device_revoked :: "log_state \<Rightarrow> event \<Rightarrow> device_id \<Rightarrow> log_error + authorized" where
  "check_device_revoked st e device =
     or_fail (ls_devices st device) (Member UnknownDevice) (\<lambda>rec.
      ensure (device \<notin> ls_revoked_devices st) (Member DeviceAlreadyRevoked)
     (ensure (ev_author e = dr_identity rec \<or> is_owner st (ev_author e)) (Member NotDeviceOwner)
     (Inr Apply)))"

section \<open>Key packages and commits\<close>

definition full_member :: "log_state \<Rightarrow> public_key \<Rightarrow> bool" where
  "full_member st pk \<longleftrightarrow> is_member st pk \<and> \<not> is_pending st pk"

definition live_key_packages :: "log_state \<Rightarrow> leaf \<Rightarrow> nat" where
  "live_key_packages st leaf =
     (case ls_key_packages st leaf of
        None \<Rightarrow> 0
      | Some m \<Rightarrow> length (filter (\<lambda>exp. ls_log_pos st < exp) (map snd m)))"

definition check_key_package_published ::
    "log_state \<Rightarrow> event \<Rightarrow> bytes \<Rightarrow> nat \<Rightarrow> log_error + authorized" where
  "check_key_package_published st e store_instance_hash expires_at_log_pos =
     ensure (full_member st (ev_author e)) (Mls NotFullMember)
     (try_then (check_instance_pin st (ev_device e) store_instance_hash) (\<lambda>_.
      ensure (ls_log_pos st < expires_at_log_pos) (Mls KeyPackageExpired)
     (ensure (live_key_packages st (ev_author e, ev_device e) < MAX_LIVE_KEY_PACKAGES_PER_DEVICE)
        (Mls TooManyKeyPackages)
     (Inr Apply))))"

text \<open>The body of the loop over a commit's declared adds.\<close>

definition check_declared_add ::
    "log_state \<Rightarrow> mls_group_record \<Rightarrow> event \<Rightarrow> declared_add \<Rightarrow> log_error + unit" where
  "check_declared_add st grp e add =
     ensure (full_member st (add_identity add)) (Commit AddOfNonMember)
     (ensure (\<not> is_banned st (add_identity add)) (Commit AddOfBanned)
     (ensure (add_device add \<in> set (judged_live_devices st (add_identity add) (ev_timestamp e)))
        (Commit AddDeviceNotLive)
     (ensure (ls_consumed_key_packages st (add_key_package add) = None) (Commit AddConsumedKeyPackage)
     (ensure (case ls_key_packages st (add_leaf add) of
                None \<Rightarrow> False
              | Some m \<Rightarrow> (case map_of m (add_key_package add) of
                             None \<Rightarrow> False | Some exp \<Rightarrow> ls_log_pos st < exp))
        (Commit AddNoLiveKeyPackage)
     (ensure (add_leaf add \<notin> mg_leaves_confirmed grp \<and> add_leaf add \<notin> mg_leaves_pending grp)
        (Commit AddLeafPresent)
     (if \<exists>leaf \<in> mg_leaves_confirmed grp. fst leaf = add_identity add
      then ensure (ev_author e = add_identity add) (Commit SelfAddRule) (Inr ())
      else Inr ()))))))"

text \<open>The body of the loop over its declared removes.\<close>

definition check_declared_remove ::
    "log_state \<Rightarrow> mls_group_record \<Rightarrow> event \<Rightarrow> declared_remove \<Rightarrow> log_error + unit" where
  "check_declared_remove st grp e dr =
     (let confirmed = rem_leaf dr \<in> mg_leaves_confirmed grp in
      ensure (confirmed \<or> rem_leaf dr \<in> mg_leaves_pending grp) (Commit RemoveAbsentLeaf)
      (if confirmed
       then ensure (\<not> leaf_holder_in_good_standing st (rem_leaf dr) (ev_timestamp e) \<or>
                    ev_author e = rem_identity dr) (Commit RemoveGoodStanding) (Inr ())
       else Inr ()))"

definition commit_rate_ok :: "log_state \<Rightarrow> mls_group_record \<Rightarrow> event \<Rightarrow> nat \<Rightarrow> bool" where
  "commit_rate_ok st grp e epoch \<longleftrightarrow>
     commit_discharges_drift st e \<or> ceiling_demands_rekey grp \<or>
     (case mg_last_commit_epoch_by_author grp (ev_author e) of
        None \<Rightarrow> True
      | Some prev_epoch \<Rightarrow> prev_epoch + commit_rate_gap grp \<le> epoch)"

text \<open>Who may author a commit: the channel's creator while no leaf is confirmed, a leaf after.\<close>

definition check_commit_author :: "log_state \<Rightarrow> mls_group_record \<Rightarrow> event \<Rightarrow> nat \<Rightarrow> log_error + unit" where
  "check_commit_author st grp e c =
     (if mg_leaves_confirmed grp = {}
      then ensure (map_option ch_creator (ls_channels st c) = Some (ev_author e))
             (Commit NotChannelCreator) (Inr ())
      else ensure ((ev_author e, ev_device e) \<in> mg_leaves_confirmed grp)
             (Mls NoConfirmedLeaf) (Inr ()))"

definition check_mls_commit :: "log_state \<Rightarrow> event \<Rightarrow> mls_commit \<Rightarrow> log_error + authorized" where
  "check_mls_commit st e mc =
     or_fail (ls_mls_groups st (mc_channel_id mc)) (Mls NoGroup) (\<lambda>grp.
     ensure (mc_generation mc = mg_generation grp) (Mls GenerationMismatch)
     (if mc_epoch mc \<noteq> mg_epoch grp then Inr StaleCommitNoOp
      else
      try_then (check_instance_pin st (ev_device e) (mc_store_instance_hash mc)) (\<lambda>_.
      ensure (full_member st (ev_author e)) (Mls NotFullMember)
      (try_then (check_commit_author st grp e (mc_channel_id mc)) (\<lambda>_.
      ensure (case mg_epoch_authenticator grp of
                Some expected \<Rightarrow> mc_prev_epoch_authenticator mc = expected | None \<Rightarrow> True)
        (Commit BrokenCommitChain)
      (try_then (check_each (check_declared_add st grp e) (mc_adds mc)) (\<lambda>_.
       try_then (check_each (check_declared_remove st grp e) (mc_removes mc)) (\<lambda>_.
       ensure (commit_rate_ok st grp e (mc_epoch mc)) (Commit CommitRateRule)
       (Inr Apply)))))))))"

section \<open>Welcomes and confirmations\<close>

definition check_mls_welcome ::
    "log_state \<Rightarrow> event \<Rightarrow> nat \<Rightarrow> nat \<Rightarrow> event_ref \<Rightarrow> leaf \<Rightarrow> log_error + authorized" where
  "check_mls_welcome st e c generation commit for_leaf =
     or_fail (ls_mls_groups st c) (Mls NoGroup) (\<lambda>grp.
     ensure (full_member st (ev_author e)) (Mls NotFullMember)
     (if generation = mg_generation grp then
        ensure ((ev_author e, ev_device e) \<in> mg_leaves_confirmed grp) (Mls NoConfirmedLeaf)
        (ensure (for_leaf \<in> mg_leaves_pending grp) (Mls WelcomeTargetNotPending)
        (ensure (\<exists>cm \<in> snd ` set (mg_commits_by_epoch grp). cm_event_hash cm = commit)
           (Mls WelcomeUnknownCommit)
        (Inr Apply)))
      else if generation = mg_generation grp + 1 then
        ensure (is_owner st (ev_author e)) (Mls WelcomeOwnerOnly) (Inr Apply)
      else Inl (Mls WelcomeBadGeneration)))"

definition check_leaf_confirmed ::
    "log_state \<Rightarrow> event \<Rightarrow> nat \<Rightarrow> nat \<Rightarrow> nat \<Rightarrow> bytes \<Rightarrow> bytes \<Rightarrow> log_error + authorized" where
  "check_leaf_confirmed st e c generation epoch tree_hash store_instance_hash =
     or_fail (ls_mls_groups st c) (Mls NoGroup) (\<lambda>grp.
     ensure (full_member st (ev_author e)) (Mls NotFullMember)
     (ensure (generation = mg_generation grp) (Mls GenerationMismatch)
     (ensure ((ev_author e, ev_device e) \<in> mg_leaves_pending grp) (Mls LeafNotPending)
     (try_then (check_instance_pin st (ev_device e) store_instance_hash) (\<lambda>_.
      case map_of (mg_commits_by_epoch grp) epoch of
        Some rec \<Rightarrow> ensure (cm_post_tree_hash rec = tree_hash) (Mls TreeHashMismatch) (Inr Apply)
      | None \<Rightarrow>
          (if (ev_author e, ev_device e) \<in> mg_reset_welcomed grp
           then (case mg_reset_expected_tree_hash grp of
                   Some expected \<Rightarrow>
                     ensure (expected = tree_hash) (Mls ResetTreeHashMismatch) (Inr Apply)
                 | None \<Rightarrow> Inl (Mls NoRecordedCommit))
           else Inl (Mls NoRecordedCommit)))))))"

section \<open>Sealed content and resets\<close>

definition check_sealed_send :: "log_state \<Rightarrow> event \<Rightarrow> nat \<Rightarrow> nat \<Rightarrow> nat \<Rightarrow> log_error + unit" where
  "check_sealed_send st e c generation epoch =
     or_fail (channel_class st c) (Sealed SealedInUnknownChannel) (\<lambda>class.
     ensure (class = E2ee) (Sealed SealedInPlaintextChannel)
     (or_fail (ls_mls_groups st c) GroupMissingPanic (\<lambda>grp.
      ensure (full_member st (ev_author e)) (Mls NotFullMember)
     (ensure ((ev_author e, ev_device e) \<in> mg_leaves_confirmed grp) (Mls NoConfirmedLeaf)
     (ensure (generation = mg_generation grp) (Mls GenerationMismatch)
     (ensure (epoch = mg_epoch grp) (Sealed EpochNotCurrent)
     (ensure (pending_removals st c (ev_timestamp e) = {}) (Sealed SealedUntilRekey)
     (ensure (mg_events_since_last_commit grp < FRESHNESS_CEILING_EVENTS)
        (Sealed FreshnessCeilingReached)
     (ensure (\<not> reset_incomplete grp) (Sealed ResetIncomplete)
     (Inr ()))))))))))"

definition check_message_edited ::
    "log_state \<Rightarrow> event \<Rightarrow> nat \<Rightarrow> event_ref \<Rightarrow> nat \<Rightarrow> nat \<Rightarrow> log_error + authorized" where
  "check_message_edited st e c target generation epoch =
     try_then (check_sealed_send st e c generation epoch) (\<lambda>_.
     ensure (target \<notin> ls_tombstones st) (Sealed EditTargetTombstoned) (Inr Apply))"

text \<open>The loop over the staged Welcomes: \<open>seen\<close> and \<open>welcomed\<close> grow as it goes.\<close>

fun collect_reset_welcomes ::
    "mls_group_record \<Rightarrow> nat \<Rightarrow> event_ref set \<Rightarrow> leaf set \<Rightarrow> event_ref list \<Rightarrow> log_error + leaf set" where
  "collect_reset_welcomes grp new_generation seen welcomed [] = Inr welcomed"
| "collect_reset_welcomes grp new_generation seen welcomed (r # rs) =
     ensure (r \<notin> seen) (Reset ResetDuplicateRef)
     (or_fail (mg_welcomes grp r) (Reset ResetUnknownWelcome) (\<lambda>rec.
      ensure (wr_generation rec = new_generation) (Reset ResetWelcomeGeneration)
      (collect_reset_welcomes grp new_generation (insert r seen)
         (insert (wr_for_member rec, wr_for_device rec) welcomed) rs)))"

definition check_group_reset ::
    "log_state \<Rightarrow> event \<Rightarrow> nat \<Rightarrow> nat \<Rightarrow> event_ref list \<Rightarrow> log_error + authorized" where
  "check_group_reset st e c new_generation welcomes =
     ensure (is_owner st (ev_author e)) (Reset OnlyOwnerResets)
     (or_fail (ls_mls_groups st c) (Mls NoGroup) (\<lambda>grp.
      ensure (new_generation = mg_generation grp + 1) (Reset ResetGenerationNotNext)
     (ensure (mg_generation grp = 0 \<or> reset_incomplete grp \<or>
              RESET_MIN_CHANNEL_EVENTS \<le> mg_channel_events_since_reset grp)
        (Reset ResetRateLimit)
     (try_then (collect_reset_welcomes grp new_generation {} {} welcomes) (\<lambda>welcomed.
      ensure (welcomed = member_leaf_set st (ev_timestamp e) - {(ev_author e, ev_device e)})
        (Reset ResetNotExactCover)
      (Inr Apply))))))"

section \<open>Dispatch\<close>

definition check_payload_authz :: "log_state \<Rightarrow> event \<Rightarrow> log_error + authorized" where
  "check_payload_authz st e =
     (case ev_payload e of
        DeviceAuthorized _ \<Rightarrow> check_device_authorized st e
      | InviteCreated _ _ _ _ \<Rightarrow> check_invite_created st e
      | MemberJoined member invite \<Rightarrow> check_member_joined st e member invite
      | MemberApproved member \<Rightarrow> check_member_approved st e member
      | MessagePosted c _ _ _ \<Rightarrow> check_message_posted st e c
      | MemberRemoved member \<Rightarrow> check_member_removed st e member
      | MemberBanned member \<Rightarrow> check_member_banned st e member
      | MemberUnbanned _ \<Rightarrow> check_member_unbanned st e
      | PermissionGranted member capability \<Rightarrow> check_permission_granted st e member capability
      | AttachmentRedacted h \<Rightarrow> check_attachment_redacted st e h
      | ChannelCreated c _ _ class parent \<Rightarrow> check_channel_created st e c class parent
      | MessageDeleted c target reason \<Rightarrow> check_message_deleted st e c target reason
      | DeviceRevoked device \<Rightarrow> check_device_revoked st e device
      | MlsKeyPackagePublished _ h exp \<Rightarrow> check_key_package_published st e h exp
      | MlsCommit mc \<Rightarrow> check_mls_commit st e mc
      | MlsWelcome c generation commit member device _ \<Rightarrow>
          check_mls_welcome st e c generation commit (member, device)
      | MlsLeafConfirmed c generation epoch tree_hash h \<Rightarrow>
          check_leaf_confirmed st e c generation epoch tree_hash h
      | MessagePostedE2ee c generation epoch _ _ _ _ \<Rightarrow>
          try_then (check_sealed_send st e c generation epoch) (\<lambda>_. Inr Apply)
      | MessageEditedE2ee c target generation epoch _ _ \<Rightarrow>
          check_message_edited st e c target generation epoch
      | MlsGroupReset c new_generation welcomes _ \<Rightarrow>
          check_group_reset st e c new_generation welcomes)"

end
