(* ===== verification/LogApply.thy ===== *)
theory LogApply
  imports LogAuthz
begin

text \<open>
  The effects of an accepted event and the fold itself (\<open>apply_payload_effect\<close>,
  \<open>advance_chain\<close>, \<open>apply\<close>, \<open>replay\<close> of \<open>event_log_state.rs\<close>): one definition per arm of
  the effect's \<open>match\<close>.  \<open>apply\<close> returns the new state, or the error and no state: the
  source's rule that a refused event leaves the state alone.  The effect can still panic
  where the source says \<open>expect\<close>; that is an error value here, and the invariant of theory
  LogInvariant excludes it.
\<close>

section \<open>Updating one group\<close>

text \<open>\<open>if let Some(group) = self.mls_groups.get_mut(..)\<close>: nothing happens without a group.\<close>

definition map_group :: "nat \<Rightarrow> (mls_group_record \<Rightarrow> mls_group_record) \<Rightarrow> log_state \<Rightarrow> log_state" where
  "map_group c f st =
     (case ls_mls_groups st c of
        None \<Rightarrow> st
      | Some g \<Rightarrow> st\<lparr>ls_mls_groups := (ls_mls_groups st)(c \<mapsto> f g)\<rparr>)"

text \<open>\<open>.get_mut(..).expect(..)\<close>.\<close>

definition expect_group ::
    "nat \<Rightarrow> (mls_group_record \<Rightarrow> mls_group_record) \<Rightarrow> log_state \<Rightarrow> log_error + log_state" where
  "expect_group c f st =
     (case ls_mls_groups st c of None \<Rightarrow> Inl GroupMissingPanic | Some _ \<Rightarrow> Inr (map_group c f st))"

definition bump_reset_counter :: "nat \<Rightarrow> log_state \<Rightarrow> log_state" where
  "bump_reset_counter c st =
     map_group c (\<lambda>g. g\<lparr>mg_channel_events_since_reset := sat_inc (mg_channel_events_since_reset g)\<rparr>) st"

definition bump_channel_counters :: "nat \<Rightarrow> log_state \<Rightarrow> log_state" where
  "bump_channel_counters c st =
     bump_reset_counter c
       (map_group c (\<lambda>g. g\<lparr>mg_events_since_last_commit := sat_inc (mg_events_since_last_commit g)\<rparr>) st)"

section \<open>Effects\<close>

definition effect_device_authorized :: "event \<Rightarrow> device_cert \<Rightarrow> public_key \<Rightarrow> log_state \<Rightarrow> log_state" where
  "effect_device_authorized e cert device_pubkey st =
     st\<lparr>ls_devices := (ls_devices st)(ev_device e \<mapsto>
          \<lparr>dr_identity = ev_author e, dr_device_pubkey = device_pubkey,
           dr_expires_at = dc_expires_at (cert_core cert)\<rparr>),
        ls_devices_by_identity := (ls_devices_by_identity st)(ev_author e \<mapsto>
          insert (ev_device e)
            (case ls_devices_by_identity st (ev_author e) of None \<Rightarrow> {} | Some ds \<Rightarrow> ds))\<rparr>"

definition effect_invite_created :: "crypto \<Rightarrow> event \<Rightarrow> nat \<Rightarrow> nat \<Rightarrow> bool \<Rightarrow> log_state \<Rightarrow> log_state" where
  "effect_invite_created cr e max_uses expires_at requires_approval st =
     st\<lparr>ls_invites := (ls_invites st)(event_hash_of cr e \<mapsto>
          \<lparr>iv_max_uses = max_uses, iv_expires_at = expires_at, iv_use_count = 0,
           iv_requires_approval = requires_approval\<rparr>)\<rparr>"

definition effect_member_joined :: "public_key \<Rightarrow> event_ref \<Rightarrow> log_state \<Rightarrow> log_state" where
  "effect_member_joined member invite st =
     (let requires_approval =
            (case ls_invites st invite of None \<Rightarrow> False | Some i \<Rightarrow> iv_requires_approval i);
          st1 = (if requires_approval then st\<lparr>ls_pending := insert member (ls_pending st)\<rparr>
                 else st\<lparr>ls_members := insert member (ls_members st)\<rparr>)
      in (case ls_invites st1 invite of
            None \<Rightarrow> st1
          | Some iv \<Rightarrow> st1\<lparr>ls_invites := (ls_invites st1)(invite \<mapsto>
                           iv\<lparr>iv_use_count := iv_use_count iv + 1\<rparr>)\<rparr>))"

definition effect_member_approved :: "public_key \<Rightarrow> log_state \<Rightarrow> log_state" where
  "effect_member_approved member st =
     st\<lparr>ls_pending := ls_pending st - {member}, ls_members := insert member (ls_members st)\<rparr>"

text \<open>\<open>attachment_uploaders.entry(hash).or_insert_with(uploader)\<close> for each cap, in order.\<close>

definition record_uploaders :: "attachment_cap list \<Rightarrow> log_state \<Rightarrow> log_state" where
  "record_uploaders caps st =
     st\<lparr>ls_attachment_uploaders :=
          fold (\<lambda>cap. or_insert (cap_content_hash cap) (cap_uploader cap)) caps
            (ls_attachment_uploaders st)\<rparr>"

definition effect_message_posted :: "nat \<Rightarrow> attachment_cap list \<Rightarrow> log_state \<Rightarrow> log_state" where
  "effect_message_posted c caps st =
     (let st1 = record_uploaders caps st
      in if ls_channels st1 c = None
         then st1\<lparr>ls_plaintext_history_channels := insert c (ls_plaintext_history_channels st1)\<rparr>
         else st1)"

definition effect_member_removed :: "public_key \<Rightarrow> log_state \<Rightarrow> log_state" where
  "effect_member_removed member st =
     st\<lparr>ls_members := ls_members st - {member}, ls_pending := ls_pending st - {member},
        ls_capabilities := (ls_capabilities st)(member := None)\<rparr>"

definition effect_member_banned :: "public_key \<Rightarrow> log_state \<Rightarrow> log_state" where
  "effect_member_banned member st =
     st\<lparr>ls_banned := insert member (ls_banned st), ls_members := ls_members st - {member},
        ls_pending := ls_pending st - {member},
        ls_capabilities := (ls_capabilities st)(member := None)\<rparr>"

definition effect_member_unbanned :: "public_key \<Rightarrow> log_state \<Rightarrow> log_state" where
  "effect_member_unbanned member st = st\<lparr>ls_banned := ls_banned st - {member}\<rparr>"

definition effect_permission_granted :: "public_key \<Rightarrow> string \<Rightarrow> log_state \<Rightarrow> log_state" where
  "effect_permission_granted member capability st =
     st\<lparr>ls_capabilities := (ls_capabilities st)(member \<mapsto>
          insert capability (case ls_capabilities st member of None \<Rightarrow> {} | Some cs \<Rightarrow> cs))\<rparr>"

definition effect_attachment_redacted :: "string \<Rightarrow> log_state \<Rightarrow> log_state" where
  "effect_attachment_redacted h st =
     st\<lparr>ls_redacted_attachments := insert h (ls_redacted_attachments st)\<rparr>"

definition effect_channel_created ::
    "event \<Rightarrow> nat \<Rightarrow> string \<Rightarrow> string \<Rightarrow> channel_class \<Rightarrow> nat option \<Rightarrow> log_state \<Rightarrow> log_state" where
  "effect_channel_created e c name kind class parent st =
     (let st1 = st\<lparr>ls_channels := (ls_channels st)(c \<mapsto>
                  \<lparr>ch_name = name, ch_kind = kind, ch_class = class, ch_parent = parent,
                   ch_creator = ev_author e\<rparr>)\<rparr>
      in if class = E2ee
         then st1\<lparr>ls_mls_groups := (ls_mls_groups st1)(c \<mapsto> new_mls_group)\<rparr>
         else st1)"

definition effect_message_deleted :: "nat \<Rightarrow> event_ref \<Rightarrow> log_state \<Rightarrow> log_state" where
  "effect_message_deleted c target st =
     bump_reset_counter c (st\<lparr>ls_tombstones := insert target (ls_tombstones st)\<rparr>)"

definition effect_device_revoked :: "device_id \<Rightarrow> log_state \<Rightarrow> log_state" where
  "effect_device_revoked device st =
     st\<lparr>ls_revoked_devices := insert device (ls_revoked_devices st)\<rparr>"

definition effect_key_package_published :: "crypto \<Rightarrow> event \<Rightarrow> bytes \<Rightarrow> nat \<Rightarrow> log_state \<Rightarrow> log_state" where
  "effect_key_package_published cr e store_instance_hash expires_at_log_pos st =
     (let st1 = pin_instance (ev_device e) store_instance_hash st;
          leaf = (ev_author e, ev_device e);
          entry = (case ls_key_packages st1 leaf of None \<Rightarrow> [] | Some m \<Rightarrow> m);
          kept = filter (\<lambda>(_, exp). ls_log_pos st < exp) entry
      in st1\<lparr>ls_key_packages := (ls_key_packages st1)(leaf \<mapsto>
               AList.update (event_hash_of cr e) expires_at_log_pos kept)\<rparr>)"

text \<open>A live key package moves to the consumed ones.\<close>

definition consume_key_package :: "declared_add \<Rightarrow> log_state \<Rightarrow> log_state" where
  "consume_key_package add st =
     (case ls_key_packages st (add_leaf add) of
        None \<Rightarrow> st
      | Some m \<Rightarrow>
          (case map_of m (add_key_package add) of
             None \<Rightarrow> st
           | Some exp \<Rightarrow>
               st\<lparr>ls_key_packages := (ls_key_packages st)(add_leaf add \<mapsto>
                    AList.delete (add_key_package add) m),
                  ls_consumed_key_packages :=
                    (ls_consumed_key_packages st)(add_key_package add \<mapsto> exp)\<rparr>))"

text \<open>The reset obligations whose holder the fold no longer owes a leaf.\<close>

definition void_obligations :: "log_state \<Rightarrow> event \<Rightarrow> nat \<Rightarrow> leaf set" where
  "void_obligations st e c =
     (case ls_mls_groups st c of
        None \<Rightarrow> {}
      | Some g \<Rightarrow> {leaf \<in> mg_reset_welcomed g.
                     \<not> leaf_holder_in_good_standing st leaf (ev_timestamp e)})"

definition commit_group :: "event_hash \<Rightarrow> event \<Rightarrow> mls_commit \<Rightarrow> leaf set \<Rightarrow> mls_group_record \<Rightarrow> mls_group_record" where
  "commit_group h e mc void g =
     (let bootstrap = (mg_epoch_authenticator g = None \<or> mg_leaves_confirmed g = {});
          removed = rem_leaf ` set (mc_removes mc);
          pending = (mg_leaves_pending g \<union> add_leaf ` set (mc_adds mc)) - removed;
          confirmed = mg_leaves_confirmed g - removed;
          author_leaf = (ev_author e, ev_device e)
      in g\<lparr>mg_epoch := mc_epoch mc + 1,
           mg_commit_head := Some h,
           mg_epoch_authenticator := Some (mc_post_epoch_authenticator mc),
           mg_tree_hash := Some (mc_post_tree_hash mc),
           mg_commits_by_epoch := AList.update (mc_epoch mc + 1)
             \<lparr>cm_event_hash = h, cm_post_tree_hash = mc_post_tree_hash mc\<rparr> (mg_commits_by_epoch g),
           mg_leaves_pending := (if bootstrap then pending - {author_leaf} else pending),
           mg_leaves_confirmed := (if bootstrap then insert author_leaf confirmed else confirmed),
           mg_reset_welcomed := {leaf \<in> mg_reset_welcomed g. leaf \<notin> void},
           mg_events_since_last_commit := 0,
           mg_last_commit_epoch_by_author :=
             (mg_last_commit_epoch_by_author g)(ev_author e \<mapsto> mc_epoch mc)\<rparr>)"

definition effect_mls_commit :: "crypto \<Rightarrow> event \<Rightarrow> mls_commit \<Rightarrow> log_state \<Rightarrow> log_error + log_state" where
  "effect_mls_commit cr e mc st =
     (let void = void_obligations st e (mc_channel_id mc);
          st1 = pin_instance (ev_device e) (mc_store_instance_hash mc) st;
          st2 = fold consume_key_package (mc_adds mc) st1
      in expect_group (mc_channel_id mc) (commit_group (event_hash_of cr e) e mc void) st2)"

definition effect_mls_welcome ::
    "crypto \<Rightarrow> event \<Rightarrow> nat \<Rightarrow> nat \<Rightarrow> leaf \<Rightarrow> log_state \<Rightarrow> log_error + log_state" where
  "effect_mls_welcome cr e c generation for_leaf st =
     expect_group c (\<lambda>g. g\<lparr>mg_welcomes := (mg_welcomes g)(event_hash_of cr e \<mapsto>
       \<lparr>wr_generation = generation, wr_for_member = fst for_leaf, wr_for_device = snd for_leaf\<rparr>)\<rparr>) st"

definition effect_leaf_confirmed :: "event \<Rightarrow> nat \<Rightarrow> bytes \<Rightarrow> log_state \<Rightarrow> log_error + log_state" where
  "effect_leaf_confirmed e c store_instance_hash st =
     expect_group c (\<lambda>g. g\<lparr>mg_leaves_pending := mg_leaves_pending g - {(ev_author e, ev_device e)},
         mg_leaves_confirmed := insert (ev_author e, ev_device e) (mg_leaves_confirmed g)\<rparr>)
       (pin_instance (ev_device e) store_instance_hash st)"

definition welcomed_leaves :: "mls_group_record \<Rightarrow> event_ref list \<Rightarrow> leaf set" where
  "welcomed_leaves g welcomes =
     set (map (\<lambda>w. (wr_for_member w, wr_for_device w)) (List.map_filter (mg_welcomes g) welcomes))"

definition reset_group :: "event \<Rightarrow> nat \<Rightarrow> event_ref list \<Rightarrow> bytes \<Rightarrow> mls_group_record \<Rightarrow> mls_group_record" where
  "reset_group e new_generation welcomes post_tree_hash g =
     (let welcomed = welcomed_leaves g welcomes
      in g\<lparr>mg_generation := new_generation, mg_epoch := 1, mg_commit_head := None,
           mg_epoch_authenticator := None, mg_tree_hash := None,
           mg_leaves_confirmed := {(ev_author e, ev_device e)}, mg_leaves_pending := welcomed,
           mg_reset_welcomed := welcomed, mg_events_since_last_commit := 0,
           mg_channel_events_since_reset := 0, mg_last_commit_epoch_by_author := Map.empty,
           mg_commits_by_epoch := [],
           mg_welcomes := (\<lambda>h. case mg_welcomes g h of
                               None \<Rightarrow> None
                             | Some w \<Rightarrow> if new_generation \<le> wr_generation w then Some w else None),
           mg_reset_expected_tree_hash := Some post_tree_hash\<rparr>)"

definition effect_group_reset ::
    "event \<Rightarrow> nat \<Rightarrow> nat \<Rightarrow> event_ref list \<Rightarrow> bytes \<Rightarrow> log_state \<Rightarrow> log_error + log_state" where
  "effect_group_reset e c new_generation welcomes post_tree_hash st =
     expect_group c (reset_group e new_generation welcomes post_tree_hash) st"

definition apply_payload_effect :: "crypto \<Rightarrow> event \<Rightarrow> public_key \<Rightarrow> log_state \<Rightarrow> log_error + log_state" where
  "apply_payload_effect cr e device_pubkey st =
     (case ev_payload e of
        DeviceAuthorized cert \<Rightarrow> Inr (effect_device_authorized e cert device_pubkey st)
      | InviteCreated _ max_uses expires_at requires_approval \<Rightarrow>
          Inr (effect_invite_created cr e max_uses expires_at requires_approval st)
      | MemberJoined member invite \<Rightarrow> Inr (effect_member_joined member invite st)
      | MemberApproved member \<Rightarrow> Inr (effect_member_approved member st)
      | MessagePosted c _ _ caps \<Rightarrow> Inr (effect_message_posted c caps st)
      | MemberRemoved member \<Rightarrow> Inr (effect_member_removed member st)
      | MemberBanned member \<Rightarrow> Inr (effect_member_banned member st)
      | MemberUnbanned member \<Rightarrow> Inr (effect_member_unbanned member st)
      | PermissionGranted member capability \<Rightarrow> Inr (effect_permission_granted member capability st)
      | AttachmentRedacted h \<Rightarrow> Inr (effect_attachment_redacted h st)
      | ChannelCreated c name kind class parent \<Rightarrow>
          Inr (effect_channel_created e c name kind class parent st)
      | MessageDeleted c target _ \<Rightarrow> Inr (effect_message_deleted c target st)
      | DeviceRevoked device \<Rightarrow> Inr (effect_device_revoked device st)
      | MlsKeyPackagePublished _ h exp \<Rightarrow> Inr (effect_key_package_published cr e h exp st)
      | MlsCommit mc \<Rightarrow> effect_mls_commit cr e mc st
      | MlsWelcome c generation _ member device _ \<Rightarrow>
          effect_mls_welcome cr e c generation (member, device) st
      | MlsLeafConfirmed c _ _ _ h \<Rightarrow> effect_leaf_confirmed e c h st
      | MessagePostedE2ee c _ _ _ _ caps _ \<Rightarrow> Inr (bump_channel_counters c (record_uploaders caps st))
      | MessageEditedE2ee c _ _ _ _ _ \<Rightarrow> Inr (bump_channel_counters c st)
      | MlsGroupReset c new_generation welcomes post_tree_hash \<Rightarrow>
          effect_group_reset e c new_generation welcomes post_tree_hash st)"

section \<open>The fold\<close>

definition advance_chain :: "crypto \<Rightarrow> event \<Rightarrow> log_state \<Rightarrow> log_state" where
  "advance_chain cr e st =
     st\<lparr>ls_chains := (ls_chains st)((ev_author e, ev_device e) \<mapsto>
          \<lparr>hd_seq = ev_seq e, hd_hash = event_hash_of cr e\<rparr>)\<rparr>"

text \<open>Chain head, log position and the two clocks: every accepted event, no-op commits included.\<close>

definition envelope_accounting :: "crypto \<Rightarrow> event \<Rightarrow> log_state \<Rightarrow> log_state" where
  "envelope_accounting cr e st =
     (let st1 = advance_chain cr e st;
          st2 = st1\<lparr>ls_log_pos := ls_log_pos st1 + 1\<rparr>;
          st3 = st2\<lparr>ls_identity_clock := AList.update (ev_author e)
                  (max (identity_floor st2 (ev_author e)) (ev_timestamp e)) (ls_identity_clock st2)\<rparr>
      in recompute_corroborated_clock st3)"

definition log_apply :: "crypto \<Rightarrow> log_state \<Rightarrow> event \<Rightarrow> log_error + log_state" where
  "log_apply cr st e =
     ensure (ev_server_id e = ls_server_id st) (Envelope ServerIdMismatch)
     (try_then (resolve_device_pubkey cr st e) (\<lambda>device_pubkey.
      ensure (event_verify cr e device_pubkey) (Envelope EventSignatureInvalid)
     (ensure (ev_device e \<notin> ls_revoked_devices st) (Envelope DeviceIsRevoked)
     (try_then (check_cert_expiry st e) (\<lambda>_.
      ensure (\<not> is_banned st (ev_author e)) (Envelope AuthorBanned)
     (try_then (check_chain st e) (\<lambda>_.
      try_then (check_payload_authz st e) (\<lambda>authorized.
      try_then (if authorized = Apply then apply_payload_effect cr e device_pubkey st else Inr st) (\<lambda>st1.
      Inr (envelope_accounting cr e st1))))))))))"

fun apply_all :: "crypto \<Rightarrow> log_state \<Rightarrow> event list \<Rightarrow> log_error + log_state" where
  "apply_all cr st [] = Inr st"
| "apply_all cr st (e # es) = try_then (log_apply cr st e) (\<lambda>st'. apply_all cr st' es)"

definition replay :: "crypto \<Rightarrow> genesis \<Rightarrow> event list \<Rightarrow> log_error + log_state" where
  "replay cr g es = apply_all cr (from_genesis cr g) es"

interpretation log_fold: fallible_fold "log_apply cr" "apply_all cr" for cr
  by unfold_locales simp_all

end
