(* ===== verification/LogFrame.thy ===== *)
theory LogFrame
  imports LogApply
begin

text \<open>
  What the effects leave alone, and the reading of an accepted step: the lemmas that the
  invariant and the properties of the fold share.  \<open>effect_defs\<close> unfolds the effects, and
  \<open>check_defs\<close> the checks, one payload at a time.
\<close>

section \<open>Frames\<close>

lemma envelope_accounting_frame [simp]:
  "ls_server_id (envelope_accounting cr e st) = ls_server_id st"
  "ls_owner (envelope_accounting cr e st) = ls_owner st"
  "ls_members (envelope_accounting cr e st) = ls_members st"
  "ls_pending (envelope_accounting cr e st) = ls_pending st"
  "ls_banned (envelope_accounting cr e st) = ls_banned st"
  "ls_capabilities (envelope_accounting cr e st) = ls_capabilities st"
  "ls_devices (envelope_accounting cr e st) = ls_devices st"
  "ls_invites (envelope_accounting cr e st) = ls_invites st"
  "ls_attachment_uploaders (envelope_accounting cr e st) = ls_attachment_uploaders st"
  "ls_redacted_attachments (envelope_accounting cr e st) = ls_redacted_attachments st"
  "ls_channels (envelope_accounting cr e st) = ls_channels st"
  "ls_plaintext_history_channels (envelope_accounting cr e st) = ls_plaintext_history_channels st"
  "ls_tombstones (envelope_accounting cr e st) = ls_tombstones st"
  "ls_revoked_devices (envelope_accounting cr e st) = ls_revoked_devices st"
  "ls_devices_by_identity (envelope_accounting cr e st) = ls_devices_by_identity st"
  "ls_mls_groups (envelope_accounting cr e st) = ls_mls_groups st"
  "ls_key_packages (envelope_accounting cr e st) = ls_key_packages st"
  "ls_consumed_key_packages (envelope_accounting cr e st) = ls_consumed_key_packages st"
  "ls_device_store_instance (envelope_accounting cr e st) = ls_device_store_instance st"
  by (simp_all add: envelope_accounting_def advance_chain_def recompute_corroborated_clock_def Let_def)

lemma envelope_accounting_chains [simp]:
  "ls_chains (envelope_accounting cr e st) =
     (ls_chains st)((ev_author e, ev_device e) \<mapsto> \<lparr>hd_seq = ev_seq e, hd_hash = event_hash_of cr e\<rparr>)"
  "ls_log_pos (envelope_accounting cr e st) = ls_log_pos st + 1"
  "ls_identity_clock (envelope_accounting cr e st) =
     AList.update (ev_author e) (max (identity_floor st (ev_author e)) (ev_timestamp e)) (ls_identity_clock st)"
  "ls_corroborated_clock (envelope_accounting cr e st) =
     snd (clock_top2 (map snd (ls_identity_clock (envelope_accounting cr e st))))"
  by (simp_all add: envelope_accounting_def advance_chain_def recompute_corroborated_clock_def
      identity_floor_def Let_def)

text \<open>Consuming key packages touches the key-package maps only.\<close>

lemma fold_consume_frame:
  assumes "\<And>st a b. P (st\<lparr>ls_key_packages := a, ls_consumed_key_packages := b\<rparr>) = P st"
  shows "P (fold consume_key_package adds st) = P st"
  by (induction adds arbitrary: st) (simp_all add: consume_key_package_def assms split: option.split)

lemma fold_consume_frames [simp]:
  "ls_server_id (fold consume_key_package adds st) = ls_server_id st"
  "ls_owner (fold consume_key_package adds st) = ls_owner st"
  "ls_members (fold consume_key_package adds st) = ls_members st"
  "ls_pending (fold consume_key_package adds st) = ls_pending st"
  "ls_banned (fold consume_key_package adds st) = ls_banned st"
  "ls_capabilities (fold consume_key_package adds st) = ls_capabilities st"
  "ls_devices (fold consume_key_package adds st) = ls_devices st"
  "ls_invites (fold consume_key_package adds st) = ls_invites st"
  "ls_chains (fold consume_key_package adds st) = ls_chains st"
  "ls_attachment_uploaders (fold consume_key_package adds st) = ls_attachment_uploaders st"
  "ls_redacted_attachments (fold consume_key_package adds st) = ls_redacted_attachments st"
  "ls_channels (fold consume_key_package adds st) = ls_channels st"
  "ls_plaintext_history_channels (fold consume_key_package adds st) = ls_plaintext_history_channels st"
  "ls_tombstones (fold consume_key_package adds st) = ls_tombstones st"
  "ls_revoked_devices (fold consume_key_package adds st) = ls_revoked_devices st"
  "ls_devices_by_identity (fold consume_key_package adds st) = ls_devices_by_identity st"
  "ls_log_pos (fold consume_key_package adds st) = ls_log_pos st"
  "ls_identity_clock (fold consume_key_package adds st) = ls_identity_clock st"
  "ls_corroborated_clock (fold consume_key_package adds st) = ls_corroborated_clock st"
  "ls_mls_groups (fold consume_key_package adds st) = ls_mls_groups st"
  "ls_device_store_instance (fold consume_key_package adds st) = ls_device_store_instance st"
  by (rule fold_consume_frame, simp)+

section \<open>Group updates\<close>

lemma map_group_frame [simp]:
  "ls_server_id (map_group c f st) = ls_server_id st"
  "ls_owner (map_group c f st) = ls_owner st"
  "ls_members (map_group c f st) = ls_members st"
  "ls_pending (map_group c f st) = ls_pending st"
  "ls_banned (map_group c f st) = ls_banned st"
  "ls_capabilities (map_group c f st) = ls_capabilities st"
  "ls_devices (map_group c f st) = ls_devices st"
  "ls_invites (map_group c f st) = ls_invites st"
  "ls_chains (map_group c f st) = ls_chains st"
  "ls_attachment_uploaders (map_group c f st) = ls_attachment_uploaders st"
  "ls_redacted_attachments (map_group c f st) = ls_redacted_attachments st"
  "ls_channels (map_group c f st) = ls_channels st"
  "ls_plaintext_history_channels (map_group c f st) = ls_plaintext_history_channels st"
  "ls_tombstones (map_group c f st) = ls_tombstones st"
  "ls_revoked_devices (map_group c f st) = ls_revoked_devices st"
  "ls_devices_by_identity (map_group c f st) = ls_devices_by_identity st"
  "ls_log_pos (map_group c f st) = ls_log_pos st"
  "ls_identity_clock (map_group c f st) = ls_identity_clock st"
  "ls_corroborated_clock (map_group c f st) = ls_corroborated_clock st"
  "ls_key_packages (map_group c f st) = ls_key_packages st"
  "ls_consumed_key_packages (map_group c f st) = ls_consumed_key_packages st"
  "ls_device_store_instance (map_group c f st) = ls_device_store_instance st"
  by (simp_all add: map_group_def split: option.split)

lemma map_group_groups [simp]:
  "ls_mls_groups (map_group c f st) = (ls_mls_groups st)(c := map_option f (ls_mls_groups st c))"
  by (auto simp: map_group_def split: option.split)

lemma expect_group_Inr [result_simps]:
  "expect_group c f st = Inr st1 \<longleftrightarrow> ls_mls_groups st c \<noteq> None \<and> st1 = map_group c f st"
  by (auto simp: expect_group_def split: option.split)

lemma pin_instance_frame [simp]:
  "ls_mls_groups (pin_instance d h st) = ls_mls_groups st"
  "ls_log_pos (pin_instance d h st) = ls_log_pos st"
  "ls_key_packages (pin_instance d h st) = ls_key_packages st"
  "ls_consumed_key_packages (pin_instance d h st) = ls_consumed_key_packages st"
  by (simp_all add: pin_instance_def)

section \<open>Unfolding bundles\<close>

lemmas effect_defs =
  effect_device_authorized_def effect_invite_created_def effect_member_joined_def
  effect_member_approved_def effect_message_posted_def effect_member_removed_def
  effect_member_banned_def effect_member_unbanned_def effect_permission_granted_def
  effect_attachment_redacted_def effect_channel_created_def effect_message_deleted_def
  effect_device_revoked_def effect_key_package_published_def effect_mls_commit_def
  effect_mls_welcome_def effect_leaf_confirmed_def effect_group_reset_def
  bump_channel_counters_def bump_reset_counter_def record_uploaders_def pin_instance_def Let_def

lemmas check_defs =
  check_device_authorized_def check_invite_created_def check_member_joined_def
  check_member_approved_def check_message_posted_def check_member_removed_def
  check_member_banned_def check_member_unbanned_def check_permission_granted_def
  check_attachment_redacted_def check_channel_created_def check_message_deleted_def
  check_device_revoked_def check_key_package_published_def check_mls_commit_def
  check_mls_welcome_def check_leaf_confirmed_def check_message_edited_def check_group_reset_def

lemmas dispatch_defs = apply_payload_effect_def check_payload_authz_def

lemmas role_defs = is_banned_def is_member_def is_pending_def is_owner_def full_member_def

section \<open>An accepted step\<close>

lemma log_apply_Inr:
  "log_apply cr st e = Inr st' \<longleftrightarrow>
     ev_server_id e = ls_server_id st \<and>
     (\<exists>k a st1. resolve_device_pubkey cr st e = Inr k \<and> event_verify cr e k \<and>
        ev_device e \<notin> ls_revoked_devices st \<and> check_cert_expiry st e = Inr () \<and>
        \<not> is_banned st (ev_author e) \<and> check_chain st e = Inr () \<and>
        check_payload_authz st e = Inr a \<and>
        (if a = Apply then apply_payload_effect cr e k st else Inr st) = Inr st1 \<and>
        st' = envelope_accounting cr e st1)"
  by (auto simp: log_apply_def result_simps)

text \<open>An authorized event is either a commit that lost the epoch race or it takes its effect.\<close>

lemma authorized_stale:
  "check_payload_authz st e = Inr StaleCommitNoOp \<Longrightarrow> \<exists>mc. ev_payload e = MlsCommit mc"
  by (cases "ev_payload e")
    (auto simp: check_payload_authz_def check_defs result_simps split: option.splits if_splits
       delete_reason.splits)

lemma log_apply_cases:
  assumes "log_apply cr st e = Inr st'"
  obtains (stale) mc where "ev_payload e = MlsCommit mc" "check_payload_authz st e = Inr StaleCommitNoOp"
      "st' = envelope_accounting cr e st"
  | (effect) k st1 where "resolve_device_pubkey cr st e = Inr k" "check_payload_authz st e = Inr Apply"
      "apply_payload_effect cr e k st = Inr st1" "st' = envelope_accounting cr e st1"
      "\<not> is_banned st (ev_author e)"
proof -
  from assms obtain k a st1 where a: "check_payload_authz st e = Inr a"
      and eff: "(if a = Apply then apply_payload_effect cr e k st else Inr st) = Inr st1"
      and rest: "resolve_device_pubkey cr st e = Inr k" "\<not> is_banned st (ev_author e)"
        "st' = envelope_accounting cr e st1"
    by (auto simp: log_apply_Inr)
  show ?thesis
  proof (cases a)
    case Apply
    with a eff rest show ?thesis by (auto intro: effect)
  next
    case StaleCommitNoOp
    with a obtain mc where "ev_payload e = MlsCommit mc" using authorized_stale by blast
    with StaleCommitNoOp a eff rest show ?thesis by (auto intro: stale)
  qed
qed

text \<open>
  To show that every accepted event keeps a property that the accounting cannot touch, it is
  enough to show it for the effect.
\<close>

lemma log_apply_keeps:
  assumes step: "log_apply cr st e = Inr st'" and "P st"
    and acct: "\<And>st. P (envelope_accounting cr e st) = P st"
    and eff: "\<And>k st1. check_payload_authz st e = Inr Apply \<Longrightarrow> \<not> is_banned st (ev_author e) \<Longrightarrow>
       apply_payload_effect cr e k st = Inr st1 \<Longrightarrow> P st1"
  shows "P st'"
  using step
proof (cases rule: log_apply_cases)
  case (stale mc)
  with \<open>P st\<close> acct show ?thesis by simp
next
  case (effect k st1)
  with eff acct show ?thesis by simp
qed

text \<open>The events that touch MLS groups, and how.\<close>

lemma effect_groups:
  assumes "apply_payload_effect cr e k st = Inr st1"
  shows "ls_mls_groups st1 =
    (case ev_payload e of
       ChannelCreated c _ _ class _ \<Rightarrow>
         if class = E2ee then (ls_mls_groups st)(c \<mapsto> new_mls_group) else ls_mls_groups st
     | MessageDeleted c _ _ \<Rightarrow> (ls_mls_groups st)(c := map_option
         (\<lambda>g. g\<lparr>mg_channel_events_since_reset := sat_inc (mg_channel_events_since_reset g)\<rparr>)
         (ls_mls_groups st c))
     | MlsCommit mc \<Rightarrow> (ls_mls_groups st)(mc_channel_id mc := map_option
         (commit_group (event_hash_of cr e) e mc (void_obligations st e (mc_channel_id mc)))
         (ls_mls_groups st (mc_channel_id mc)))
     | MlsWelcome c gen _ m d _ \<Rightarrow> (ls_mls_groups st)(c := map_option
         (\<lambda>g. g\<lparr>mg_welcomes := (mg_welcomes g)(event_hash_of cr e \<mapsto>
            \<lparr>wr_generation = gen, wr_for_member = m, wr_for_device = d\<rparr>)\<rparr>) (ls_mls_groups st c))
     | MlsLeafConfirmed c _ _ _ _ \<Rightarrow> (ls_mls_groups st)(c := map_option
         (\<lambda>g. g\<lparr>mg_leaves_pending := mg_leaves_pending g - {(ev_author e, ev_device e)},
                mg_leaves_confirmed := insert (ev_author e, ev_device e) (mg_leaves_confirmed g)\<rparr>)
         (ls_mls_groups st c))
     | MessagePostedE2ee c _ _ _ _ _ _ \<Rightarrow> (ls_mls_groups st)(c := map_option
         (\<lambda>g. g\<lparr>mg_events_since_last_commit := sat_inc (mg_events_since_last_commit g),
                mg_channel_events_since_reset := sat_inc (mg_channel_events_since_reset g)\<rparr>)
         (ls_mls_groups st c))
     | MessageEditedE2ee c _ _ _ _ _ \<Rightarrow> (ls_mls_groups st)(c := map_option
         (\<lambda>g. g\<lparr>mg_events_since_last_commit := sat_inc (mg_events_since_last_commit g),
                mg_channel_events_since_reset := sat_inc (mg_channel_events_since_reset g)\<rparr>)
         (ls_mls_groups st c))
     | MlsGroupReset c gen welcomes th \<Rightarrow> (ls_mls_groups st)(c := map_option
         (reset_group e gen welcomes th) (ls_mls_groups st c))
     | _ \<Rightarrow> ls_mls_groups st)"
  using assms
  by (cases "ev_payload e")
    (auto simp: apply_payload_effect_def effect_defs result_simps fun_eq_iff map_option.compositionality
       comp_def split: option.splits)

text \<open>The same reading of an effect for the other groups of fields.\<close>

lemma effect_devices:
  assumes "apply_payload_effect cr e k st = Inr st1"
  shows "ls_devices st1 =
      (case ev_payload e of
         DeviceAuthorized cert \<Rightarrow> (ls_devices st)(ev_device e \<mapsto>
           \<lparr>dr_identity = ev_author e, dr_device_pubkey = k, dr_expires_at = dc_expires_at (cert_core cert)\<rparr>)
       | _ \<Rightarrow> ls_devices st)"
    and "ls_devices_by_identity st1 =
      (case ev_payload e of
         DeviceAuthorized cert \<Rightarrow> (ls_devices_by_identity st)(ev_author e \<mapsto>
           insert (ev_device e)
             (case ls_devices_by_identity st (ev_author e) of None \<Rightarrow> {} | Some ds \<Rightarrow> ds))
       | _ \<Rightarrow> ls_devices_by_identity st)"
    and "ls_revoked_devices st1 =
      (case ev_payload e of
         DeviceRevoked d \<Rightarrow> insert d (ls_revoked_devices st) | _ \<Rightarrow> ls_revoked_devices st)"
  using assms
  by (cases "ev_payload e";
      auto simp: apply_payload_effect_def effect_defs result_simps split: option.splits if_splits)+

lemma effect_channels:
  assumes "apply_payload_effect cr e k st = Inr st1"
  shows "ls_channels st1 =
      (case ev_payload e of
         ChannelCreated c name kind cls parent \<Rightarrow> (ls_channels st)(c \<mapsto>
           \<lparr>ch_name = name, ch_kind = kind, ch_class = cls, ch_parent = parent, ch_creator = ev_author e\<rparr>)
       | _ \<Rightarrow> ls_channels st)"
    and "ls_plaintext_history_channels st1 =
      (case ev_payload e of
         MessagePosted c _ _ _ \<Rightarrow>
           if ls_channels st c = None then insert c (ls_plaintext_history_channels st)
           else ls_plaintext_history_channels st
       | _ \<Rightarrow> ls_plaintext_history_channels st)"
    and "ls_tombstones st1 =
      (case ev_payload e of
         MessageDeleted _ target _ \<Rightarrow> insert target (ls_tombstones st) | _ \<Rightarrow> ls_tombstones st)"
  using assms
  by (cases "ev_payload e";
      auto simp: apply_payload_effect_def effect_defs result_simps split: option.splits if_splits)+

lemma effect_invites:
  assumes "apply_payload_effect cr e k st = Inr st1"
  shows "ls_invites st1 =
      (case ev_payload e of
         InviteCreated _ mx ex appr \<Rightarrow> (ls_invites st)(event_hash_of cr e \<mapsto>
           \<lparr>iv_max_uses = mx, iv_expires_at = ex, iv_use_count = 0, iv_requires_approval = appr\<rparr>)
       | MemberJoined _ i \<Rightarrow> (ls_invites st)(i := map_option
           (\<lambda>iv. iv\<lparr>iv_use_count := iv_use_count iv + 1\<rparr>) (ls_invites st i))
       | _ \<Rightarrow> ls_invites st)"
  using assms
  by (cases "ev_payload e")
    (auto simp: apply_payload_effect_def effect_defs result_simps fun_eq_iff split: option.splits if_splits)

lemma effect_consumed:
  assumes "apply_payload_effect cr e k st = Inr st1"
  shows "ls_consumed_key_packages st1 =
      (case ev_payload e of
         MlsCommit mc \<Rightarrow> ls_consumed_key_packages (fold consume_key_package (mc_adds mc)
           (pin_instance (ev_device e) (mc_store_instance_hash mc) st))
       | _ \<Rightarrow> ls_consumed_key_packages st)"
    and "ls_key_packages st1 =
      (case ev_payload e of
         MlsCommit mc \<Rightarrow> ls_key_packages (fold consume_key_package (mc_adds mc)
           (pin_instance (ev_device e) (mc_store_instance_hash mc) st))
       | MlsKeyPackagePublished _ h ex \<Rightarrow> ls_key_packages (effect_key_package_published cr e h ex st)
       | _ \<Rightarrow> ls_key_packages st)"
  using assms
  by (cases "ev_payload e";
      auto simp: apply_payload_effect_def effect_defs result_simps split: option.splits if_splits)+

lemma effect_owner:
  "apply_payload_effect cr e k st = Inr st1 \<Longrightarrow>
     ls_owner st1 = ls_owner st \<and> ls_server_id st1 = ls_server_id st"
  by (cases "ev_payload e")
    (auto simp: apply_payload_effect_def effect_defs result_simps split: option.splits if_splits)

lemma effect_membership:
  assumes "apply_payload_effect cr e k st = Inr st1"
  shows "ls_members st1 =
      (case ev_payload e of
         MemberJoined m i \<Rightarrow> (case ls_invites st i of
             Some iv \<Rightarrow> if iv_requires_approval iv then ls_members st else insert m (ls_members st)
           | None \<Rightarrow> insert m (ls_members st))
       | MemberApproved m \<Rightarrow> insert m (ls_members st)
       | MemberRemoved m \<Rightarrow> ls_members st - {m}
       | MemberBanned m \<Rightarrow> ls_members st - {m}
       | _ \<Rightarrow> ls_members st)"
    and "ls_pending st1 =
      (case ev_payload e of
         MemberJoined m i \<Rightarrow> (case ls_invites st i of
             Some iv \<Rightarrow> if iv_requires_approval iv then insert m (ls_pending st) else ls_pending st
           | None \<Rightarrow> ls_pending st)
       | MemberApproved m \<Rightarrow> ls_pending st - {m}
       | MemberRemoved m \<Rightarrow> ls_pending st - {m}
       | MemberBanned m \<Rightarrow> ls_pending st - {m}
       | _ \<Rightarrow> ls_pending st)"
    and "ls_banned st1 =
      (case ev_payload e of
         MemberBanned m \<Rightarrow> insert m (ls_banned st)
       | MemberUnbanned m \<Rightarrow> ls_banned st - {m}
       | _ \<Rightarrow> ls_banned st)"
    and "ls_capabilities st1 =
      (case ev_payload e of
         MemberRemoved m \<Rightarrow> (ls_capabilities st)(m := None)
       | MemberBanned m \<Rightarrow> (ls_capabilities st)(m := None)
       | PermissionGranted m cap \<Rightarrow> (ls_capabilities st)(m \<mapsto>
           insert cap (case ls_capabilities st m of None \<Rightarrow> {} | Some cs \<Rightarrow> cs))
       | _ \<Rightarrow> ls_capabilities st)"
  using assms
  by (cases "ev_payload e";
      auto simp: apply_payload_effect_def effect_defs result_simps split: option.splits if_splits)+

end
