(* ===== verification/LogInvariant.thy ===== *)
theory LogInvariant
  imports LogFrame
begin

text \<open>
  The invariant of the fold: what every state reached from a genesis satisfies.  It has one
  part per group of fields (membership, devices, channels, MLS groups, key packages, counters),
  each with its preservation lemma; \<open>log_wf\<close> is their conjunction.
\<close>

section \<open>Membership\<close>

definition wf_membership :: "log_state \<Rightarrow> bool" where
  "wf_membership st \<longleftrightarrow>
     ls_members st \<inter> ls_pending st = {} \<and> ls_members st \<inter> ls_banned st = {} \<and>
     ls_pending st \<inter> ls_banned st = {} \<and> ls_owner st \<notin> ls_banned st \<and>
     dom (ls_capabilities st) \<subseteq> ls_members st"

lemma wf_membership_apply:
  assumes "log_apply cr st e = Inr st'" and "wf_membership st"
  shows "wf_membership st'"
proof (rule log_apply_keeps [where P = wf_membership, OF assms])
  show "wf_membership (envelope_accounting cr e s) = wf_membership s" for s
    by (simp add: wf_membership_def)
next
  fix k st1
  assume ok: "check_payload_authz st e = Inr Apply" and ban: "\<not> is_banned st (ev_author e)"
    and eff: "apply_payload_effect cr e k st = Inr st1"
  note mem = effect_membership [OF eff] and owner = effect_owner [OF eff]
  show "wf_membership st1"
  proof (cases "ev_payload e")
    case (MemberJoined m i)
    with ok have "m = ev_author e" "m \<notin> ls_members st" "m \<notin> ls_pending st"
      by (auto simp: check_payload_authz_def check_member_joined_def result_simps role_defs)
    with MemberJoined mem owner ban assms(2) show ?thesis
      by (auto simp: wf_membership_def role_defs split: option.splits if_splits)
  next
    case (MemberApproved m)
    with ok have "m \<in> ls_pending st"
      by (auto simp: check_payload_authz_def check_member_approved_def result_simps role_defs)
    with MemberApproved mem owner assms(2) show ?thesis by (auto simp: wf_membership_def)
  next
    case (MemberBanned m)
    with ok have "m \<noteq> ls_owner st"
      by (auto simp: check_payload_authz_def check_member_banned_def result_simps role_defs)
    with MemberBanned mem owner assms(2) show ?thesis by (auto simp: wf_membership_def)
  next
    case (PermissionGranted m cap)
    with ok have "m \<in> ls_members st"
      by (auto simp: check_payload_authz_def check_permission_granted_def result_simps role_defs)
    with PermissionGranted mem owner assms(2) show ?thesis by (auto simp: wf_membership_def)
  next
    case (MemberRemoved m)
    with mem owner assms(2) show ?thesis by (auto simp: wf_membership_def)
  qed (use mem owner assms(2) in \<open>auto simp: wf_membership_def\<close>)
qed

definition wf_invites :: "log_state \<Rightarrow> bool" where
  "wf_invites st \<longleftrightarrow> (\<forall>h i. ls_invites st h = Some i \<longrightarrow> iv_use_count i \<le> iv_max_uses i)"

lemma wf_invites_apply:
  assumes "log_apply cr st e = Inr st'" and "wf_invites st"
  shows "wf_invites st'"
proof (rule log_apply_keeps [where P = wf_invites, OF assms])
  show "wf_invites (envelope_accounting cr e s) = wf_invites s" for s
    by (simp add: wf_invites_def)
next
  fix k st1
  assume ok: "check_payload_authz st e = Inr Apply" and eff: "apply_payload_effect cr e k st = Inr st1"
  note inv = effect_invites [OF eff]
  show "wf_invites st1"
  proof (cases "ev_payload e")
    case (MemberJoined m i)
    with ok inv assms(2) show ?thesis
      by (auto simp: check_payload_authz_def check_member_joined_def result_simps wf_invites_def)
  qed (use inv assms(2) in \<open>auto simp: wf_invites_def\<close>)
qed

section \<open>Devices\<close>

definition wf_devices :: "log_state \<Rightarrow> bool" where
  "wf_devices st \<longleftrightarrow>
     ls_revoked_devices st \<subseteq> dom (ls_devices st) \<and>
     (\<forall>pk ds. ls_devices_by_identity st pk = Some ds \<longrightarrow> finite ds \<and> ds \<subseteq> dom (ls_devices st)) \<and>
     (\<forall>d r. ls_devices st d = Some r \<longrightarrow>
        (\<exists>ds. ls_devices_by_identity st (dr_identity r) = Some ds \<and> d \<in> ds))"

lemma wf_devices_apply:
  assumes "log_apply cr st e = Inr st'" and "wf_devices st"
  shows "wf_devices st'"
proof (rule log_apply_keeps [where P = wf_devices, OF assms])
  show "wf_devices (envelope_accounting cr e s) = wf_devices s" for s
    by (simp add: wf_devices_def)
next
  fix k st1
  assume ok: "check_payload_authz st e = Inr Apply" and eff: "apply_payload_effect cr e k st = Inr st1"
  note dev = effect_devices [OF eff]
  show "wf_devices st1"
  proof (cases "ev_payload e")
    case (DeviceAuthorized cert)
    have sub: "ds \<subseteq> dom (ls_devices st)" if "ls_devices_by_identity st pk = Some ds" for pk ds
      using assms(2) that unfolding wf_devices_def by blast
    have fin: "finite ds" if "ls_devices_by_identity st pk = Some ds" for pk ds
      using assms(2) that unfolding wf_devices_def by blast
    have own: "\<exists>ds. ls_devices_by_identity st (dr_identity r) = Some ds \<and> d \<in> ds"
      if "ls_devices st d = Some r" for d r
      using assms(2) that unfolding wf_devices_def by blast
    have rev: "ls_revoked_devices st \<subseteq> dom (ls_devices st)"
      using assms(2) unfolding wf_devices_def by blast
    show ?thesis
      unfolding wf_devices_def
    proof (intro conjI allI impI)
      show "ls_revoked_devices st1 \<subseteq> dom (ls_devices st1)"
        using rev DeviceAuthorized by (auto simp: dev)
    next
      fix pk ds assume ds: "ls_devices_by_identity st1 pk = Some ds"
      then show "finite ds"
        using fin DeviceAuthorized by (auto simp: dev split: if_splits option.splits)
      show "ds \<subseteq> dom (ls_devices st1)"
      proof (cases "pk = ev_author e")
        case True
        with ds DeviceAuthorized have "ds = insert (ev_device e)
            (case ls_devices_by_identity st (ev_author e) of None \<Rightarrow> {} | Some ds \<Rightarrow> ds)"
          by (simp add: dev)
        moreover have "(case ls_devices_by_identity st (ev_author e) of None \<Rightarrow> {} | Some ds \<Rightarrow> ds)
            \<subseteq> dom (ls_devices st)"
          using sub by (simp split: option.split)
        ultimately show ?thesis using DeviceAuthorized by (auto simp: dev)
      next
        case False
        with ds DeviceAuthorized have "ls_devices_by_identity st pk = Some ds" by (simp add: dev)
        then have "ds \<subseteq> dom (ls_devices st)" by (rule sub)
        with DeviceAuthorized show ?thesis by (auto simp: dev)
      qed
    next
      fix d r assume r: "ls_devices st1 d = Some r"
      show "\<exists>ds. ls_devices_by_identity st1 (dr_identity r) = Some ds \<and> d \<in> ds"
      proof (cases "d = ev_device e")
        case True
        with r DeviceAuthorized show ?thesis by (auto simp: dev)
      next
        case False
        with r DeviceAuthorized have "ls_devices st d = Some r" by (simp add: dev)
        from own [OF this] obtain ds where "ls_devices_by_identity st (dr_identity r) = Some ds" "d \<in> ds"
          by blast
        with DeviceAuthorized show ?thesis
          by (cases "dr_identity r = ev_author e") (simp_all add: dev)
      qed
    qed
  next
    case (DeviceRevoked d)
    with ok dev assms(2) show ?thesis
      by (auto simp: check_payload_authz_def check_device_revoked_def result_simps wf_devices_def)
  qed (use dev assms(2) in \<open>auto simp: wf_devices_def\<close>)
qed

section \<open>Channels\<close>

text \<open>
  Exactly the E2ee channels have a group, and a channel that the log knows never carried
  plaintext before it was declared.
\<close>

definition wf_channels :: "log_state \<Rightarrow> bool" where
  "wf_channels st \<longleftrightarrow>
     dom (ls_mls_groups st) = {c. channel_class st c = Some E2ee} \<and>
     ls_plaintext_history_channels st \<inter> dom (ls_channels st) = {}"

lemma wf_channels_group: "wf_channels st \<Longrightarrow> (\<exists>g. ls_mls_groups st c = Some g) \<longleftrightarrow> channel_class st c = Some E2ee"
  unfolding wf_channels_def by blast

lemma wf_channels_apply:
  assumes "log_apply cr st e = Inr st'" and "wf_channels st"
  shows "wf_channels st'"
proof (rule log_apply_keeps [where P = wf_channels, OF assms])
  show "wf_channels (envelope_accounting cr e s) = wf_channels s" for s
    by (simp add: wf_channels_def channel_class_def)
next
  fix k st1
  assume ok: "check_payload_authz st e = Inr Apply" and eff: "apply_payload_effect cr e k st = Inr st1"
  note ch = effect_channels [OF eff] and gr = effect_groups [OF eff]
  show "wf_channels st1"
  proof (cases "ev_payload e")
    case (ChannelCreated c name kind cls parent)
    with ok have "ls_channels st c = None" "c \<notin> ls_plaintext_history_channels st"
      by (auto simp: check_payload_authz_def check_channel_created_def result_simps)
    moreover from this have "c \<notin> dom (ls_mls_groups st)"
      using assms(2) by (simp add: wf_channels_def channel_class_def)
    then have "ls_mls_groups st c = None" by blast
    ultimately show ?thesis
      using ChannelCreated ch gr assms(2)
      by (cases cls) (auto simp: wf_channels_def channel_class_def set_eq_iff domIff split: if_splits)
  qed (use ch gr assms(2) in \<open>auto simp: wf_channels_def channel_class_def split: if_splits\<close>)
qed

section \<open>MLS groups\<close>

definition wf_group :: "mls_group_record \<Rightarrow> bool" where
  "wf_group g \<longleftrightarrow>
     finite (mg_leaves_confirmed g) \<and> finite (mg_leaves_pending g) \<and>
     mg_leaves_confirmed g \<inter> mg_leaves_pending g = {} \<and>
     mg_events_since_last_commit g \<le> FRESHNESS_CEILING_EVENTS \<and>
     mg_channel_events_since_reset g \<le> u32_max \<and>
     distinct (map fst (mg_commits_by_epoch g)) \<and>
     (\<forall>ep \<in> fst ` set (mg_commits_by_epoch g). 1 \<le> ep \<and> ep \<le> mg_epoch g) \<and>
     (mg_epoch_authenticator g = None \<longleftrightarrow> mg_commits_by_epoch g = []) \<and>
     (mg_commit_head g = None \<longleftrightarrow> mg_commits_by_epoch g = []) \<and>
     (mg_tree_hash g = None \<longleftrightarrow> mg_commits_by_epoch g = []) \<and>
     (\<forall>pk ep. mg_last_commit_epoch_by_author g pk = Some ep \<longrightarrow> ep < mg_epoch g) \<and>
     (mg_reset_expected_tree_hash g = None \<longleftrightarrow> mg_generation g = 0) \<and>
     (mg_generation g = 0 \<longrightarrow> mg_reset_welcomed g = {}) \<and>
     (\<forall>h w. mg_welcomes g h = Some w \<longrightarrow> wr_generation w \<le> mg_generation g + 1)"

lemma wf_group_new: "wf_group new_mls_group"
  by (simp add: wf_group_def new_mls_group_def FRESHNESS_CEILING_EVENTS_def u32_max_def)

lemma wf_group_commit:
  assumes "wf_group g" and "mc_epoch mc = mg_epoch g"
    and "add_leaf ` set (mc_adds mc) \<inter> mg_leaves_confirmed g = {}"
  shows "wf_group (commit_group h e mc void g)"
proof -
  have keys: "fst ` set (AList.update k v al) = insert k (fst ` set al)" for k v and al :: "(nat \<times> commit_record) list"
    by (simp add: AList.dom_update)
  have ne: "AList.update k v al \<noteq> []" for k v and al :: "(nat \<times> commit_record) list"
    by (cases al) auto
  show ?thesis
    using assms
    by (auto simp: wf_group_def commit_group_def Let_def keys ne less_Suc_eq_le AList.distinct_update
        intro: le_SucI less_imp_le)
qed

lemma finite_welcomed_leaves [simp]: "finite (welcomed_leaves g ws)"
  by (simp add: welcomed_leaves_def)

lemma wf_group_reset:
  assumes "wf_group g" and "gen = mg_generation g + 1" and "(ev_author e, ev_device e) \<notin> welcomed_leaves g ws"
  shows "wf_group (reset_group e gen ws th g)"
  using assms
  by (auto simp: wf_group_def reset_group_def Let_def intro: le_SucI split: option.splits if_splits)

lemma wf_group_confirm:
  assumes "wf_group g"
  shows "wf_group (g\<lparr>mg_leaves_pending := mg_leaves_pending g - {leaf},
     mg_leaves_confirmed := insert leaf (mg_leaves_confirmed g)\<rparr>)"
  using assms by (auto simp: wf_group_def)

lemma wf_group_bump:
  assumes "wf_group g" and "mg_events_since_last_commit g < FRESHNESS_CEILING_EVENTS"
  shows "wf_group (g\<lparr>mg_events_since_last_commit := sat_inc (mg_events_since_last_commit g),
     mg_channel_events_since_reset := sat_inc (mg_channel_events_since_reset g)\<rparr>)"
  using assms sat_inc_le [of "mg_events_since_last_commit g"]
  by (auto simp: wf_group_def sat_inc_bound)

text \<open>What the loop over the staged Welcomes returns.\<close>

lemma collect_reset_welcomes_Inr:
  "collect_reset_welcomes g gen seen acc ws = Inr welcomed \<Longrightarrow>
     welcomed = acc \<union> welcomed_leaves g ws \<and> distinct ws \<and> set ws \<inter> seen = {} \<and>
     (\<forall>r \<in> set ws. \<exists>w. mg_welcomes g r = Some w \<and> wr_generation w = gen)"
proof (induction ws arbitrary: seen acc)
  case Nil
  then show ?case by (simp add: welcomed_leaves_def List.map_filter_def)
next
  case (Cons r rs)
  then obtain w where w: "mg_welcomes g r = Some w" "wr_generation w = gen" "r \<notin> seen"
    and rest: "collect_reset_welcomes g gen (insert r seen)
      (insert (wr_for_member w, wr_for_device w) acc) rs = Inr welcomed"
    by (auto simp: result_simps)
  from Cons.IH [OF rest] w show ?case
    by (auto simp: welcomed_leaves_def List.map_filter_simps)
qed

lemma commit_adds_fresh:
  assumes "check_mls_commit st e mc = Inr Apply" and "ls_mls_groups st (mc_channel_id mc) = Some g"
  shows "add_leaf ` set (mc_adds mc) \<inter> mg_leaves_confirmed g = {}" and "mc_epoch mc = mg_epoch g"
    and "mc_generation mc = mg_generation g"
  using assms
  by (auto simp: check_mls_commit_def check_declared_add_def result_simps split: if_splits)

lemma reset_excludes_resetter:
  assumes "check_group_reset st e c gen ws = Inr Apply" and "ls_mls_groups st c = Some g"
  shows "(ev_author e, ev_device e) \<notin> welcomed_leaves g ws" and "gen = mg_generation g + 1"
    and "welcomed_leaves g ws = member_leaf_set st (ev_timestamp e) - {(ev_author e, ev_device e)}"
  using assms
  by (auto simp: check_group_reset_def result_simps dest!: collect_reset_welcomes_Inr)

definition wf_groups :: "log_state \<Rightarrow> bool" where
  "wf_groups st \<longleftrightarrow> (\<forall>c g. ls_mls_groups st c = Some g \<longrightarrow> wf_group g)"

lemma wf_groupsD: "wf_groups st \<Longrightarrow> ls_mls_groups st c = Some g \<Longrightarrow> wf_group g"
  by (simp add: wf_groups_def)

lemma sealed_send_budget:
  assumes "check_sealed_send st e c gen ep = Inr u" and "ls_mls_groups st c = Some g"
  shows "mg_events_since_last_commit g < FRESHNESS_CEILING_EVENTS"
  using assms by (auto simp: check_sealed_send_def result_simps)

lemma wf_groups_update:
  assumes "wf_groups st" and "ls_mls_groups st1 = (ls_mls_groups st)(c := map_option f (ls_mls_groups st c))"
    and "\<And>g. ls_mls_groups st c = Some g \<Longrightarrow> wf_group g \<Longrightarrow> wf_group (f g)"
  shows "wf_groups st1"
  using assms by (auto simp: wf_groups_def split: if_splits)

lemma wf_groups_apply:
  assumes "log_apply cr st e = Inr st'" and wf: "wf_groups st"
  shows "wf_groups st'"
proof (rule log_apply_keeps [where P = wf_groups, OF assms])
  show "wf_groups (envelope_accounting cr e s) = wf_groups s" for s
    by (simp add: wf_groups_def)
next
  fix k st1
  assume ok: "check_payload_authz st e = Inr Apply" and eff: "apply_payload_effect cr e k st = Inr st1"
  note groups = effect_groups [OF eff]
  show "wf_groups st1"
  proof (cases "ev_payload e")
    case (ChannelCreated c name kind cls parent)
    with groups wf show ?thesis by (auto simp: wf_groups_def wf_group_new split: if_splits)
  next
    case (MessageDeleted c target reason)
    with groups show ?thesis
      by (auto intro!: wf_groups_update [OF wf]) (auto simp: wf_group_def sat_inc_bound)
  next
    case (MlsCommit mc)
    with ok have "check_mls_commit st e mc = Inr Apply" by (simp add: check_payload_authz_def)
    with MlsCommit groups show ?thesis
      by (auto intro!: wf_groups_update [OF wf] wf_group_commit dest: commit_adds_fresh)
  next
    case (MlsWelcome c gen commit m d w)
    with ok have "check_mls_welcome st e c gen commit (m, d) = Inr Apply" by (simp add: check_payload_authz_def)
    then have "ls_mls_groups st c = Some g \<Longrightarrow> gen \<le> mg_generation g + 1" for g
      by (auto simp: check_mls_welcome_def result_simps split: if_splits)
    with MlsWelcome groups show ?thesis
      by (auto intro!: wf_groups_update [OF wf]) (auto simp: wf_group_def split: if_splits)
  next
    case (MlsLeafConfirmed c gen ep th h)
    with groups show ?thesis by (auto intro!: wf_groups_update [OF wf] wf_group_confirm)
  next
    case (MlsGroupReset c gen ws th)
    with ok have "check_group_reset st e c gen ws = Inr Apply" by (simp add: check_payload_authz_def)
    with MlsGroupReset groups show ?thesis
      by (auto intro!: wf_groups_update [OF wf] wf_group_reset dest: reset_excludes_resetter)
  next
    case (MessagePostedE2ee c gen ep ct r caps h)
    with ok have "check_sealed_send st e c gen ep = Inr ()"
      by (auto simp: check_payload_authz_def result_simps)
    with MessagePostedE2ee groups show ?thesis
      by (auto intro!: wf_groups_update [OF wf] wf_group_bump dest: sealed_send_budget)
  next
    case (MessageEditedE2ee c target gen ep ct h)
    with ok have "check_sealed_send st e c gen ep = Inr ()"
      by (auto simp: check_payload_authz_def check_message_edited_def result_simps)
    with MessageEditedE2ee groups show ?thesis
      by (auto intro!: wf_groups_update [OF wf] wf_group_bump dest: sealed_send_budget)
  qed (use groups wf in \<open>auto simp: wf_groups_def\<close>)
qed

section \<open>Key packages\<close>

definition wf_key_packages :: "log_state \<Rightarrow> bool" where
  "wf_key_packages st \<longleftrightarrow>
     (\<forall>leaf m. ls_key_packages st leaf = Some m \<longrightarrow>
        distinct (map fst m) \<and> length m \<le> MAX_LIVE_KEY_PACKAGES_PER_DEVICE)"

lemma length_alist_update: "length (AList.update k v al) \<le> Suc (length al)"
  by (induction al) auto

lemma length_alist_delete: "length (AList.delete k al) \<le> length al"
  by (simp add: AList.delete_eq)

lemma wf_key_packages_consume:
  "wf_key_packages st \<Longrightarrow> wf_key_packages (fold consume_key_package adds st)"
proof (induction adds arbitrary: st)
  case Nil
  then show ?case by simp
next
  case (Cons a adds)
  have "wf_key_packages (consume_key_package a st)"
  proof (cases "ls_key_packages st (add_leaf a)")
    case (Some m)
    have "distinct (map fst m) \<and> length m \<le> MAX_LIVE_KEY_PACKAGES_PER_DEVICE"
      using Cons.prems Some by (cases "add_leaf a") (simp add: wf_key_packages_def)
    then have "distinct (map fst (AList.delete (add_key_package a) m)) \<and>
        length (AList.delete (add_key_package a) m) \<le> MAX_LIVE_KEY_PACKAGES_PER_DEVICE"
      using length_alist_delete [of "add_key_package a" m] by (simp add: AList.distinct_delete)
    with Cons.prems Some show ?thesis
      by (auto simp: wf_key_packages_def consume_key_package_def split: option.split)
  qed (use Cons.prems in \<open>simp add: consume_key_package_def\<close>)
  with Cons.IH show ?case by simp
qed

lemma wf_key_packages_publish:
  assumes wf: "wf_key_packages st"
    and live: "live_key_packages st (ev_author e, ev_device e) < MAX_LIVE_KEY_PACKAGES_PER_DEVICE"
  shows "wf_key_packages (effect_key_package_published cr e h ex st)"
proof -
  let ?entry = "case ls_key_packages st (ev_author e, ev_device e) of None \<Rightarrow> [] | Some m \<Rightarrow> m"
  let ?kept = "filter (\<lambda>(_, ex). ls_log_pos st < ex) ?entry"
  have "length ?kept = live_key_packages st (ev_author e, ev_device e)"
    by (auto simp: live_key_packages_def filter_map comp_def case_prod_beta' split: option.split)
  with live have len: "length (AList.update (event_hash_of cr e) ex ?kept) \<le> MAX_LIVE_KEY_PACKAGES_PER_DEVICE"
    using length_alist_update [of "event_hash_of cr e" ex ?kept] by simp
  have "distinct (map fst ?entry)"
    using wf by (auto simp: wf_key_packages_def split: option.split)
  then have "distinct (map fst ?kept)" by (simp add: distinct_map_filter)
  then have "distinct (map fst (AList.update (event_hash_of cr e) ex ?kept))"
    by (rule AList.distinct_update)
  with len wf show ?thesis
    by (auto simp: effect_key_package_published_def wf_key_packages_def Let_def)
qed

lemma wf_key_packages_frame:
  "ls_key_packages st1 = ls_key_packages st \<Longrightarrow> wf_key_packages st1 = wf_key_packages st"
  by (simp add: wf_key_packages_def)

lemma wf_key_packages_apply:
  assumes "log_apply cr st e = Inr st'" and wf: "wf_key_packages st"
  shows "wf_key_packages st'"
proof (rule log_apply_keeps [where P = wf_key_packages, OF assms])
  show "wf_key_packages (envelope_accounting cr e s) = wf_key_packages s" for s
    by (rule wf_key_packages_frame) simp
next
  fix k st1
  assume ok: "check_payload_authz st e = Inr Apply" and eff: "apply_payload_effect cr e k st = Inr st1"
  show "wf_key_packages st1"
  proof (cases "ev_payload e")
    case (MlsCommit mc)
    have pin: "wf_key_packages (pin_instance (ev_device e) (mc_store_instance_hash mc) st)"
      using wf by (simp add: wf_key_packages_def)
    from MlsCommit eff have "ls_key_packages st1 = ls_key_packages
        (fold consume_key_package (mc_adds mc)
          (pin_instance (ev_device e) (mc_store_instance_hash mc) st))"
      by (auto simp: apply_payload_effect_def effect_mls_commit_def Let_def result_simps)
    with wf_key_packages_consume [OF pin] show ?thesis by (simp add: wf_key_packages_def)
  next
    case (MlsKeyPackagePublished kp h ex)
    with ok eff wf show ?thesis
      by (auto simp: dispatch_defs check_key_package_published_def result_simps
         intro!: wf_key_packages_publish)
  qed (use eff wf in \<open>auto simp: apply_payload_effect_def effect_defs result_simps wf_key_packages_def
         split: option.splits if_splits\<close>)
qed

section \<open>Counters and clocks\<close>

text \<open>
  Every counter the fold adds one to is at most the number of accepted events, so none of its
  \<open>u64\<close> additions can overflow before \<open>2^64\<close> events have been accepted.
\<close>

definition wf_counters :: "log_state \<Rightarrow> bool" where
  "wf_counters st \<longleftrightarrow>
     (\<forall>k h. ls_chains st k = Some h \<longrightarrow> hd_seq h < ls_log_pos st) \<and>
     (\<forall>c g. ls_mls_groups st c = Some g \<longrightarrow> mg_generation g \<le> ls_log_pos st \<and> mg_epoch g \<le> ls_log_pos st) \<and>
     distinct (map fst (ls_identity_clock st)) \<and>
     ls_corroborated_clock st = snd (clock_top2 (map snd (ls_identity_clock st)))"

lemma effect_frame_counters:
  "apply_payload_effect cr e k st = Inr st1 \<Longrightarrow>
     ls_chains st1 = ls_chains st \<and> ls_log_pos st1 = ls_log_pos st \<and>
     ls_identity_clock st1 = ls_identity_clock st \<and>
     ls_corroborated_clock st1 = ls_corroborated_clock st"
  by (cases "ev_payload e")
    (auto simp: apply_payload_effect_def effect_defs result_simps split: option.splits if_splits)

lemma effect_group_counters:
  assumes ok: "check_payload_authz st e = Inr Apply" and eff: "apply_payload_effect cr e k st = Inr st1"
    and g1: "ls_mls_groups st1 c = Some g1"
  shows "(mg_generation g1 = 0 \<and> mg_epoch g1 = 0) \<or>
    (\<exists>g. ls_mls_groups st c = Some g \<and>
       (mg_generation g1 = mg_generation g \<and> mg_epoch g1 \<in> {mg_epoch g, mg_epoch g + 1} \<or>
        mg_generation g1 = mg_generation g + 1 \<and> mg_epoch g1 = 1))"
  using g1 ok unfolding effect_groups [OF eff]
  by (cases "ev_payload e")
    (auto simp: check_payload_authz_def new_mls_group_def commit_group_def reset_group_def Let_def
       dest: commit_adds_fresh reset_excludes_resetter split: if_splits)

lemma check_chain_seq:
  "check_chain st e = Inr u \<Longrightarrow> wf_counters st \<Longrightarrow> ev_seq e \<le> ls_log_pos st"
  by (auto simp: check_chain_def wf_counters_def result_simps Suc_le_eq split: option.splits)

lemma wf_counters_apply:
  assumes step: "log_apply cr st e = Inr st'" and wf: "wf_counters st"
  shows "wf_counters st'"
proof -
  have seq: "ev_seq e \<le> ls_log_pos st"
    using step wf check_chain_seq by (auto simp: log_apply_Inr)
  show ?thesis
    using step
  proof (cases rule: log_apply_cases)
    case (stale mc)
    with wf seq show ?thesis
      by (auto simp: wf_counters_def less_Suc_eq_le AList.distinct_update intro: less_imp_le le_SucI)
  next
    case (effect k st1)
    have "mg_generation g1 \<le> Suc (ls_log_pos st) \<and> mg_epoch g1 \<le> Suc (ls_log_pos st)"
      if "ls_mls_groups st1 c = Some g1" for c g1
      using effect_group_counters [OF effect(2,3) that] wf
      by (auto simp: wf_counters_def intro: le_SucI)
    with effect effect_frame_counters [OF effect(3)] wf seq show ?thesis
      by (auto simp: wf_counters_def less_Suc_eq_le AList.distinct_update identity_floor_def
          intro: less_imp_le)
  qed
qed

section \<open>The invariant\<close>

definition log_wf :: "log_state \<Rightarrow> bool" where
  "log_wf st \<longleftrightarrow> wf_membership st \<and> wf_invites st \<and> wf_devices st \<and> wf_channels st \<and> wf_groups st \<and>
     wf_key_packages st \<and> wf_counters st"

lemma log_wf_from_genesis: "log_wf (from_genesis cr g)"
  by (simp add: log_wf_def from_genesis_def wf_membership_def wf_invites_def wf_devices_def wf_channels_def
      wf_groups_def wf_key_packages_def wf_counters_def channel_class_def clock_top2_def)

lemma log_wf_apply: "log_apply cr st e = Inr st' \<Longrightarrow> log_wf st \<Longrightarrow> log_wf st'"
  unfolding log_wf_def
  by (blast intro: wf_membership_apply wf_invites_apply wf_devices_apply wf_channels_apply
      wf_groups_apply wf_key_packages_apply wf_counters_apply)

lemma log_wf_apply_all: "apply_all cr st es = Inr st' \<Longrightarrow> log_wf st \<Longrightarrow> log_wf st'"
  by (rule log_fold.run_invariant [where I = log_wf, OF log_wf_apply])

lemma log_wf_replay: "replay cr g es = Inr st \<Longrightarrow> log_wf st"
  using log_wf_apply_all log_wf_from_genesis by (simp add: replay_def)

end
