(* ===== verification/LogClock.thy ===== *)
theory LogClock
  imports LogInvariant
begin

text \<open>
  The two clocks of the fold and what they are for: the corroborated clock is the greatest
  timestamp two distinct identities have claimed, a lone author cannot move it, and a
  forward-dated claim cannot make another identity's device look dead; the live-device cap
  and the condition under which it holds.
\<close>

section \<open>The scan for the two greatest values\<close>

lemma clock_scan_pair: "clock_scan p v = (max (fst p) v, max (snd p) (min (fst p) v))"
  if "snd p \<le> fst p"
  using that by (cases p) auto

lemma clock_top2_snoc: "clock_top2 (vs @ [v]) = clock_scan (clock_top2 vs) v"
  by (simp add: clock_top2_def)

lemma clock_top2_order: "snd (clock_top2 vs) \<le> fst (clock_top2 vs)"
proof (induction vs rule: rev_induct)
  case Nil
  show ?case by (simp add: clock_top2_def)
next
  case (snoc v vs)
  then show ?case by (simp add: clock_top2_snoc clock_scan_pair max_def min_def)
qed

definition count_ge :: "nat \<Rightarrow> nat list \<Rightarrow> nat" where
  "count_ge t vs = length (filter (\<lambda>v. t \<le> v) vs)"

lemma clock_top2_spec:
  assumes "0 < t"
  shows "(t \<le> fst (clock_top2 vs) \<longleftrightarrow> 1 \<le> count_ge t vs) \<and> (t \<le> snd (clock_top2 vs) \<longleftrightarrow> 2 \<le> count_ge t vs)"
proof (induction vs rule: rev_induct)
  case Nil
  then show ?case using assms by (simp add: clock_top2_def count_ge_def)
next
  case (snoc v vs)
  have cnt: "count_ge t (vs @ [v]) = count_ge t vs + (if t \<le> v then 1 else 0)"
    by (simp add: count_ge_def)
  show ?case
    using snoc clock_top2_order [of vs]
    by (auto simp: clock_top2_snoc clock_scan_pair cnt le_max_iff_disj)
qed

lemma nat_eq_by_ge: "(\<And>t::nat. 0 < t \<Longrightarrow> t \<le> a \<longleftrightarrow> t \<le> b) \<Longrightarrow> a = b"
  by (metis le_antisym le_eq_less_or_eq not_gr_zero)

text \<open>The scan does not depend on the order in which the hash map hands out its values.\<close>

lemma clock_top2_perm:
  assumes "mset vs = mset ws"
  shows "clock_top2 vs = clock_top2 ws"
proof -
  have "count_ge t vs = count_ge t ws" for t
  proof -
    have "size (filter_mset (\<lambda>v. t \<le> v) (mset vs)) = size (filter_mset (\<lambda>v. t \<le> v) (mset ws))"
      by (simp add: assms)
    then show ?thesis by (simp add: count_ge_def flip: mset_filter)
  qed
  then have "fst (clock_top2 vs) = fst (clock_top2 ws)" "snd (clock_top2 vs) = snd (clock_top2 ws)"
    using clock_top2_spec by (auto intro!: nat_eq_by_ge)
  then show ?thesis by (rule prod_eqI)
qed

section \<open>The corroborated clock\<close>

lemma count_ge_two:
  assumes "distinct (map fst al)"
  shows "2 \<le> count_ge t (map snd al) \<longleftrightarrow>
    (\<exists>a b u v. a \<noteq> b \<and> map_of al a = Some u \<and> map_of al b = Some v \<and> t \<le> u \<and> t \<le> v)"
proof -
  let ?hits = "filter (\<lambda>p. t \<le> snd p) al"
  have dist: "distinct (map fst ?hits)" using assms by (simp add: distinct_map_filter)
  have len: "count_ge t (map snd al) = card (set (map fst ?hits))"
    using dist distinct_card [of "map fst ?hits"] by (simp add: count_ge_def filter_map comp_def)
  have mem: "k \<in> set (map fst ?hits) \<longleftrightarrow> (\<exists>u. map_of al k = Some u \<and> t \<le> u)" for k
    using assms by (force simp: map_of_eq_Some_iff)
  have "2 \<le> card (set (map fst ?hits)) \<longleftrightarrow> (\<exists>a b. a \<noteq> b \<and> a \<in> set (map fst ?hits) \<and> b \<in> set (map fst ?hits))"
  proof
    assume "2 \<le> card (set (map fst ?hits))"
    then obtain T where "T \<subseteq> set (map fst ?hits)" "card T = 2"
      using obtain_subset_with_card_n by metis
    then show "\<exists>a b. a \<noteq> b \<and> a \<in> set (map fst ?hits) \<and> b \<in> set (map fst ?hits)"
      unfolding card_2_iff by blast
  next
    assume "\<exists>a b. a \<noteq> b \<and> a \<in> set (map fst ?hits) \<and> b \<in> set (map fst ?hits)"
    then obtain a b where "a \<noteq> b" "{a, b} \<subseteq> set (map fst ?hits)" by blast
    then have "card {a, b} \<le> card (set (map fst ?hits))" by (intro card_mono) auto
    with \<open>a \<noteq> b\<close> show "2 \<le> card (set (map fst ?hits))" by simp
  qed
  then show ?thesis unfolding len mem by blast
qed

lemma floor_ge_iff: "0 < t \<Longrightarrow> t \<le> identity_floor st pk \<longleftrightarrow> (\<exists>u. map_of (ls_identity_clock st) pk = Some u \<and> t \<le> u)"
  by (auto simp: identity_floor_def split: option.split)

lemma corroborated_iff:
  assumes "log_wf st" and "0 < t"
  shows "t \<le> ls_corroborated_clock st \<longleftrightarrow>
    (\<exists>a b. a \<noteq> b \<and> t \<le> identity_floor st a \<and> t \<le> identity_floor st b)"
proof -
  have wf: "distinct (map fst (ls_identity_clock st))"
    and corr: "ls_corroborated_clock st = snd (clock_top2 (map snd (ls_identity_clock st)))"
    using assms(1) by (auto simp: log_wf_def wf_counters_def)
  show ?thesis
    unfolding corr floor_ge_iff [OF assms(2)]
    using clock_top2_spec [OF assms(2), of "map snd (ls_identity_clock st)"] count_ge_two [OF wf, of t]
    by blast
qed

text \<open>How an accepted event moves the floors.\<close>

lemma apply_identity_clock:
  assumes "log_apply cr st e = Inr st'"
  shows "ls_identity_clock st' = AList.update (ev_author e)
    (max (identity_floor st (ev_author e)) (ev_timestamp e)) (ls_identity_clock st)"
  using assms
proof (cases rule: log_apply_cases)
  case (effect k st1)
  then show ?thesis using effect_frame_counters [OF effect(3)] by (simp add: identity_floor_def)
qed simp

lemma apply_identity_floor:
  assumes "log_apply cr st e = Inr st'"
  shows "identity_floor st' pk =
    (if pk = ev_author e then max (identity_floor st pk) (ev_timestamp e) else identity_floor st pk)"
  unfolding identity_floor_def [of st'] apply_identity_clock [OF assms]
  by (simp add: identity_floor_def)

lemma apply_floor_mono: "log_apply cr st e = Inr st' \<Longrightarrow> identity_floor st pk \<le> identity_floor st' pk"
  by (simp add: apply_identity_floor)

lemma apply_corroborated_mono:
  assumes "log_apply cr st e = Inr st'" and "log_wf st"
  shows "ls_corroborated_clock st \<le> ls_corroborated_clock st'"
proof (cases "ls_corroborated_clock st = 0")
  case False
  with corroborated_iff [OF assms(2), of "ls_corroborated_clock st"] obtain a b where "a \<noteq> b"
    "ls_corroborated_clock st \<le> identity_floor st a" "ls_corroborated_clock st \<le> identity_floor st b"
    by auto
  then have "a \<noteq> b" "ls_corroborated_clock st \<le> identity_floor st' a"
      "ls_corroborated_clock st \<le> identity_floor st' b"
    using apply_floor_mono [OF assms(1)] order_trans by blast+
  then show ?thesis
    using False corroborated_iff [OF log_wf_apply [OF assms], of "ls_corroborated_clock st"] by auto
qed simp

section \<open>Live devices\<close>

lemma device_unexpired_antimono: "s \<le> t \<Longrightarrow> device_unexpired st t d \<Longrightarrow> device_unexpired st s d"
  by (auto simp: device_unexpired_def split: option.splits)

lemma finite_devices: "wf_devices st \<Longrightarrow> ls_devices_by_identity st pk = Some ds \<Longrightarrow> finite ds"
  unfolding wf_devices_def by blast

lemma set_live_devices_at:
  assumes "wf_devices st"
  shows "set (live_devices_at st pk t) =
    {d. \<exists>ds. ls_devices_by_identity st pk = Some ds \<and> d \<in> ds \<and> d \<notin> ls_revoked_devices st \<and> device_unexpired st t d}"
proof (cases "ls_devices_by_identity st pk")
  case (Some ds)
  with finite_devices [OF assms Some] show ?thesis by (simp add: live_devices_at_def)
qed (simp add: live_devices_at_def)

lemma distinct_live_devices_at [simp]: "distinct (live_devices_at st pk t)"
  by (auto simp: live_devices_at_def split: option.split)

lemma live_devices_at_antimono:
  "wf_devices st \<Longrightarrow> s \<le> t \<Longrightarrow> set (live_devices_at st pk t) \<subseteq> set (live_devices_at st pk s)"
  using device_unexpired_antimono by (fastforce simp: set_live_devices_at)

lemma length_live_devices_at: "length (live_devices_at st pk t) = card (set (live_devices_at st pk t))"
  by (rule distinct_card [symmetric]) simp

lemma length_live_devices_mono:
  "set (live_devices_at st pk t) \<subseteq> set (live_devices_at st' pk' t') \<Longrightarrow>
     length (live_devices_at st pk t) \<le> length (live_devices_at st' pk' t')"
  by (simp add: length_live_devices_at card_mono)

text \<open>Judging at the log's own clock is the most severe judgment a claim can ask for.\<close>

lemma judged_live_floor:
  "wf_devices st \<Longrightarrow> set (judged_live_devices st pk (ls_corroborated_clock st)) \<subseteq> set (judged_live_devices st pk at_ts)"
  unfolding judged_live_devices_def
  by (rule live_devices_at_antimono) (auto simp: judged_liveness_ts_def)

end
