(* ===== verification/LogMls.thy ===== *)
theory LogMls
  imports LogClock
begin

text \<open>
  What the fold guarantees for an MLS group: a reading of each accepted group event as its
  preconditions and its effect, and the safety lemmas built on them (no eviction without
  cause, no selective reset, sealed content only under the gates, commits that chain, a
  rekey that is always possible at the ceiling).
\<close>

section \<open>Accepted group events\<close>

lemma commit_group_fields [simp]:
  "mg_generation (commit_group h e mc void g) = mg_generation g"
  "mg_epoch (commit_group h e mc void g) = mc_epoch mc + 1"
  "mg_epoch_authenticator (commit_group h e mc void g) = Some (mc_post_epoch_authenticator mc)"
  "mg_events_since_last_commit (commit_group h e mc void g) = 0"
  by (simp_all add: commit_group_def Let_def)

lemma reset_group_fields [simp]:
  "mg_generation (reset_group e gen ws th g) = gen"
  "mg_epoch (reset_group e gen ws th g) = 1"
  "mg_leaves_confirmed (reset_group e gen ws th g) = {(ev_author e, ev_device e)}"
  "mg_leaves_pending (reset_group e gen ws th g) = welcomed_leaves g ws"
  "mg_reset_welcomed (reset_group e gen ws th g) = welcomed_leaves g ws"
  "mg_events_since_last_commit (reset_group e gen ws th g) = 0"
  by (simp_all add: reset_group_def Let_def)

lemma group_after:
  assumes "log_apply cr st e = Inr st'" and "check_payload_authz st e = Inr Apply"
  obtains k st1 where "apply_payload_effect cr e k st = Inr st1" "ls_mls_groups st' = ls_mls_groups st1"
    and "st' = envelope_accounting cr e st1"
  using assms(1)
proof (cases rule: log_apply_cases)
  case (effect k st1)
  then show ?thesis by (auto intro: that)
qed (use assms(2) in simp)

text \<open>A sealed send that passed: everything the gates promise.\<close>

lemma sealed_send_Inr:
  "check_sealed_send st e c gen ep = Inr u \<longleftrightarrow>
     channel_class st c = Some E2ee \<and>
     (\<exists>g. ls_mls_groups st c = Some g \<and> full_member st (ev_author e) \<and>
        (ev_author e, ev_device e) \<in> mg_leaves_confirmed g \<and> gen = mg_generation g \<and> ep = mg_epoch g \<and>
        pending_removals st c (ev_timestamp e) = {} \<and>
        mg_events_since_last_commit g < FRESHNESS_CEILING_EVENTS \<and> \<not> reset_incomplete g)"
  by (auto simp: check_sealed_send_def result_simps)

definition sealed_payload :: "event_payload \<Rightarrow> (nat \<times> nat \<times> nat) option" where
  "sealed_payload p =
     (case p of
        MessagePostedE2ee c gen ep _ _ _ _ \<Rightarrow> Some (c, gen, ep)
      | MessageEditedE2ee c _ gen ep _ _ \<Rightarrow> Some (c, gen, ep)
      | _ \<Rightarrow> None)"

lemma sealed_accepted:
  assumes "log_apply cr st e = Inr st'" and "sealed_payload (ev_payload e) = Some (c, gen, ep)"
  shows "check_sealed_send st e c gen ep = Inr ()"
  using assms
  by (auto simp: log_apply_Inr sealed_payload_def check_payload_authz_def check_message_edited_def result_simps
      split: event_payload.splits)

section \<open>Who stays confirmed\<close>

lemma commit_keeps_confirmed:
  assumes ok: "check_mls_commit st e mc = Inr Apply" and g: "ls_mls_groups st (mc_channel_id mc) = Some g"
    and leaf: "leaf \<in> mg_leaves_confirmed g"
    and good: "leaf_holder_in_good_standing st leaf (ev_timestamp e)" and other: "fst leaf \<noteq> ev_author e"
  shows "leaf \<in> mg_leaves_confirmed (commit_group h e mc void g)"
proof -
  have "leaf \<notin> rem_leaf ` set (mc_removes mc)"
  proof
    assume "leaf \<in> rem_leaf ` set (mc_removes mc)"
    then obtain r where "r \<in> set (mc_removes mc)" "leaf = rem_leaf r" by blast
    with ok g leaf good other show False
      by (auto simp: check_mls_commit_def check_declared_remove_def result_simps Let_def rem_leaf_def
          split: if_splits)
  qed
  with leaf show ?thesis by (simp add: commit_group_def Let_def)
qed

lemma good_standing_stays_confirmed:
  assumes step: "log_apply cr st e = Inr st'" and wf: "log_wf st"
    and g: "ls_mls_groups st c = Some g" and leaf: "leaf \<in> mg_leaves_confirmed g"
    and good: "leaf_holder_in_good_standing st leaf (ev_timestamp e)" and other: "fst leaf \<noteq> ev_author e"
    and no_reset: "\<And>gen ws th. ev_payload e \<noteq> MlsGroupReset c gen ws th"
  shows "leaf \<in> leaves_confirmed st' c"
  using step
proof (cases rule: log_apply_cases)
  case (stale mc)
  with g leaf show ?thesis by (simp add: leaves_confirmed_def)
next
  case (effect k st1)
  have known: "ls_channels st c \<noteq> None"
  proof -
    have "wf_channels st" using wf by (simp add: log_wf_def)
    with wf_channels_group [of st c] g have "channel_class st c = Some E2ee" by auto
    then show ?thesis by (auto simp: channel_class_def)
  qed
  have "\<exists>g1. ls_mls_groups st1 c = Some g1 \<and> leaf \<in> mg_leaves_confirmed g1"
  proof (cases "ev_payload e")
    case (MlsCommit mc)
    with effect(2) have "check_mls_commit st e mc = Inr Apply" by (simp add: check_payload_authz_def)
    with MlsCommit effect_groups [OF effect(3)] g leaf good other commit_keeps_confirmed
    show ?thesis by (cases "mc_channel_id mc = c") fastforce+
  next
    case (ChannelCreated c' name kind cls parent)
    with effect(2) have "ls_channels st c' = None"
      by (simp add: check_payload_authz_def check_channel_created_def result_simps)
    with known have "c' \<noteq> c" by blast
    with ChannelCreated effect_groups [OF effect(3)] g leaf show ?thesis by simp
  qed (use effect_groups [OF effect(3)] g leaf no_reset in auto)
  with effect(4) show ?thesis by (auto simp: leaves_confirmed_def)
qed

section \<open>Resets\<close>

lemma reset_covers:
  assumes step: "log_apply cr st e = Inr st'" and p: "ev_payload e = MlsGroupReset c gen ws th"
  obtains g g' where "ls_mls_groups st c = Some g" "ls_mls_groups st' c = Some g'"
    "gen = mg_generation g + 1" "g' = reset_group e gen ws th g"
    "welcomed_leaves g ws = member_leaf_set st (ev_timestamp e) - {(ev_author e, ev_device e)}"
    "is_owner st (ev_author e)"
  using step
proof (cases rule: log_apply_cases)
  case (stale mc)
  with p show ?thesis by simp
next
  case (effect k st1)
  with p have ok: "check_group_reset st e c gen ws = Inr Apply" by (simp add: check_payload_authz_def)
  then obtain g where g: "ls_mls_groups st c = Some g" and own: "is_owner st (ev_author e)"
    by (auto simp: check_group_reset_def result_simps)
  from effect p g have "ls_mls_groups st' c = Some (reset_group e gen ws th g)"
    by (simp add: effect_groups [OF effect(3)])
  then show ?thesis using that [OF g] reset_excludes_resetter [OF ok g] own by blast
qed

section \<open>Commits\<close>

lemma commit_accepted:
  assumes step: "log_apply cr st e = Inr st'" and p: "ev_payload e = MlsCommit mc"
    and g: "ls_mls_groups st (mc_channel_id mc) = Some g" and ep: "mc_epoch mc = mg_epoch g"
  shows "check_mls_commit st e mc = Inr Apply"
    and "ls_mls_groups st' (mc_channel_id mc) =
      Some (commit_group (event_hash_of cr e) e mc (void_obligations st e (mc_channel_id mc)) g)"
proof -
  from step p obtain a where a: "check_mls_commit st e mc = Inr a"
    by (auto simp: log_apply_Inr check_payload_authz_def)
  with g ep show ok: "check_mls_commit st e mc = Inr Apply"
    by (auto simp: check_mls_commit_def result_simps)
  show "ls_mls_groups st' (mc_channel_id mc) =
      Some (commit_group (event_hash_of cr e) e mc (void_obligations st e (mc_channel_id mc)) g)"
    using step
  proof (cases rule: log_apply_cases)
    case (stale mc')
    with p ok show ?thesis by (simp add: check_payload_authz_def)
  next
    case (effect k st1)
    with p g show ?thesis by (simp add: effect_groups [OF effect(3)])
  qed
qed

lemma commit_accepted_facts:
  assumes "check_mls_commit st e mc = Inr Apply" and "ls_mls_groups st (mc_channel_id mc) = Some g"
  shows "full_member st (ev_author e)"
    and "case mg_epoch_authenticator g of Some a \<Rightarrow> mc_prev_epoch_authenticator mc = a | None \<Rightarrow> True"
    and "mg_leaves_confirmed g = {} \<or> (ev_author e, ev_device e) \<in> mg_leaves_confirmed g"
    and "a \<in> set (mc_adds mc) \<Longrightarrow> check_declared_add st g e a = Inr ()"
    and "r \<in> set (mc_removes mc) \<Longrightarrow> check_declared_remove st g e r = Inr ()"
    and "commit_rate_ok st g e (mc_epoch mc)"
  using assms
  by (auto simp: check_mls_commit_def check_commit_author_def result_simps split: if_splits)

text \<open>
  The converse, for a plain rekey (no adds, no removes): what is enough for the fold to accept
  it.
\<close>

lemma plain_rekey_accepted:
  assumes "ls_mls_groups st (mc_channel_id mc) = Some g" and "mc_generation mc = mg_generation g"
    and "mc_epoch mc = mg_epoch g" and "check_instance_pin st (ev_device e) (mc_store_instance_hash mc) = Inr ()"
    and "full_member st (ev_author e)" and "(ev_author e, ev_device e) \<in> mg_leaves_confirmed g"
    and "case mg_epoch_authenticator g of Some a \<Rightarrow> mc_prev_epoch_authenticator mc = a | None \<Rightarrow> True"
    and "mc_adds mc = []" and "mc_removes mc = []" and "ceiling_demands_rekey g"
  shows "check_mls_commit st e mc = Inr Apply"
  using assms
  by (auto simp: check_mls_commit_def check_commit_author_def commit_rate_ok_def result_simps)

section \<open>The freshness budget along a run\<close>

text \<open>The sealed events of one channel, and the commits and resets that give it a new budget.\<close>

definition sealed_in :: "nat \<Rightarrow> event \<Rightarrow> bool" where
  "sealed_in c e \<longleftrightarrow> (case sealed_payload (ev_payload e) of None \<Rightarrow> False | Some (c', _) \<Rightarrow> c' = c)"

definition renews_budget :: "nat \<Rightarrow> event \<Rightarrow> bool" where
  "renews_budget c e \<longleftrightarrow>
     (case ev_payload e of MlsCommit mc \<Rightarrow> mc_channel_id mc = c | MlsGroupReset c' _ _ _ \<Rightarrow> c' = c | _ \<Rightarrow> False)"

definition freshness_spent :: "log_state \<Rightarrow> nat \<Rightarrow> nat" where
  "freshness_spent st c = (case ls_mls_groups st c of None \<Rightarrow> 0 | Some g \<Rightarrow> mg_events_since_last_commit g)"

lemma freshness_step:
  assumes step: "log_apply cr st e = Inr st'" and wf: "log_wf st" and keep: "\<not> renews_budget c e"
  shows "freshness_spent st' c = freshness_spent st c + (if sealed_in c e then 1 else 0)"
  using step
proof (cases rule: log_apply_cases)
  case (stale mc)
  then show ?thesis by (simp add: freshness_spent_def sealed_in_def sealed_payload_def)
next
  case (effect k st1)
  note gr = effect_groups [OF effect(3)]
  have sealed: "sealed_payload (ev_payload e) = Some (c, gen, ep) \<Longrightarrow> \<exists>g. ls_mls_groups st c = Some g \<and>
      mg_events_since_last_commit g < FRESHNESS_CEILING_EVENTS" for gen ep
    using sealed_accepted [OF step] by (auto simp: sealed_send_Inr)
  have inc: "n < FRESHNESS_CEILING_EVENTS \<Longrightarrow> sat_inc n = Suc n" for n
    by (simp add: sat_inc_def u32_max_def FRESHNESS_CEILING_EVENTS_def)
  show ?thesis
  proof (cases "ev_payload e")
    case (ChannelCreated c' name kind cls parent)
    then have "ls_channels st c' = None"
      using effect(2) by (simp add: check_payload_authz_def check_channel_created_def result_simps)
    then have "channel_class st c' \<noteq> Some E2ee" by (simp add: channel_class_def)
    then have "ls_mls_groups st c' = None"
      using wf wf_channels_group [of st c'] by (auto simp: log_wf_def)
    with ChannelCreated gr effect(4) show ?thesis
      by (auto simp: freshness_spent_def sealed_in_def sealed_payload_def new_mls_group_def)
  next
    case (MessagePostedE2ee c' gen ep ct r caps h)
    with gr effect(4) sealed [of gen ep] show ?thesis
      by (auto simp: freshness_spent_def sealed_in_def sealed_payload_def inc)
  next
    case (MessageEditedE2ee c' t gen ep ct h)
    with gr effect(4) sealed [of gen ep] show ?thesis
      by (auto simp: freshness_spent_def sealed_in_def sealed_payload_def inc)
  qed (use gr effect(4) keep in
      \<open>auto simp: freshness_spent_def sealed_in_def sealed_payload_def renews_budget_def
         split: option.split\<close>)
qed

lemma freshness_run:
  assumes "apply_all cr st es = Inr st'" and "log_wf st" and "\<And>e. e \<in> set es \<Longrightarrow> \<not> renews_budget c e"
  shows "freshness_spent st' c = freshness_spent st c + length (filter (sealed_in c) es)"
  using assms
proof (induction es arbitrary: st)
  case Nil
  then show ?case by simp
next
  case (Cons e es)
  then obtain m where m: "log_apply cr st e = Inr m" "apply_all cr m es = Inr st'"
    by (auto simp: result_simps)
  from Cons.prems freshness_step [OF m(1)] have "freshness_spent m c =
      freshness_spent st c + (if sealed_in c e then 1 else 0)" by simp
  moreover from Cons.IH [OF m(2)] log_wf_apply [OF m(1)] Cons.prems have
    "freshness_spent st' c = freshness_spent m c + length (filter (sealed_in c) es)" by simp
  ultimately show ?case by simp
qed

lemma freshness_spent_bound: "log_wf st \<Longrightarrow> freshness_spent st c \<le> FRESHNESS_CEILING_EVENTS"
  by (auto simp: freshness_spent_def log_wf_def wf_groups_def wf_group_def split: option.split)

section \<open>Epochs only move forward\<close>

text \<open>The order of (generation, epoch) pairs; a channel with no group comes first.\<close>

fun epoch_le :: "(nat \<times> nat) option \<Rightarrow> (nat \<times> nat) option \<Rightarrow> bool" where
  "epoch_le None _ = True"
| "epoch_le (Some _) None = False"
| "epoch_le (Some (g, e)) (Some (g', e')) = (g < g' \<or> g = g' \<and> e \<le> e')"

lemma epoch_le_refl: "epoch_le x x"
  by (cases x) auto

lemma epoch_le_trans: "epoch_le x y \<Longrightarrow> epoch_le y z \<Longrightarrow> epoch_le x z"
  by (cases x; cases y; cases z) auto

lemma epoch_le_apply:
  assumes step: "log_apply cr st e = Inr st'" and wf: "log_wf st"
  shows "epoch_le (mls_current_epoch st c) (mls_current_epoch st' c)"
  using step
proof (cases rule: log_apply_cases)
  case (stale mc)
  then show ?thesis by (simp add: mls_current_epoch_def epoch_le_refl)
next
  case (effect k st1)
  note gr = effect_groups [OF effect(3)]
  show ?thesis
  proof (cases "ls_mls_groups st c")
    case None
    then show ?thesis by (simp add: mls_current_epoch_def)
  next
    case (Some g)
    have known: "ls_channels st c \<noteq> None"
      using wf wf_channels_group [of st c] Some by (auto simp: log_wf_def channel_class_def)
    have "\<exists>g1. ls_mls_groups st1 c = Some g1 \<and>
      (mg_generation g < mg_generation g1 \<or> mg_generation g = mg_generation g1 \<and> mg_epoch g \<le> mg_epoch g1)"
    proof (cases "ev_payload e")
      case (MlsCommit mc)
      with effect(2) Some have "mc_channel_id mc = c \<Longrightarrow> mc_epoch mc = mg_epoch g"
        by (auto simp: check_payload_authz_def dest: commit_adds_fresh)
      with MlsCommit gr Some show ?thesis by (cases "mc_channel_id mc = c") simp_all
    next
      case (MlsGroupReset c' gen ws th)
      with effect(2) Some have "c' = c \<Longrightarrow> gen = mg_generation g + 1"
        by (auto simp: check_payload_authz_def dest: reset_excludes_resetter)
      with MlsGroupReset gr Some show ?thesis by (cases "c' = c") simp_all
    next
      case (ChannelCreated c' name kind cls parent)
      with effect(2) have "ls_channels st c' = None"
        by (simp add: check_payload_authz_def check_channel_created_def result_simps)
      with known have "c' \<noteq> c" by blast
      with ChannelCreated gr Some show ?thesis by simp
    qed (use gr Some in auto)
    with Some effect(4) show ?thesis by (auto simp: mls_current_epoch_def)
  qed
qed

end
