(* ===== verification/LogHistory.thy ===== *)
theory LogHistory
  imports LogMls
begin

text \<open>
  What holds of a whole accepted history: facts that once established stay (channels,
  tombstones, revocations, consumed key packages, plaintext marks), the chains of the
  devices, where members come from, the device cap, and that the fold never panics.
\<close>

named_theorems result_errs \<open>when a chain of checks refuses\<close>

lemma ensure_Inl [result_errs]: "ensure c e k = Inl x \<longleftrightarrow> (\<not> c \<and> x = e) \<or> (c \<and> k = Inl x)"
  by (auto simp: ensure_def)

lemma or_fail_Inl [result_errs]:
  "or_fail o' e k = Inl x \<longleftrightarrow> (o' = None \<and> x = e) \<or> (\<exists>y. o' = Some y \<and> k y = Inl x)"
  by (cases o') (auto simp: or_fail_def)

lemma try_then_Inl [result_errs]:
  "try_then r k = Inl x \<longleftrightarrow> r = Inl x \<or> (\<exists>y. r = Inr y \<and> k y = Inl x)"
  by (cases r) (auto simp: try_then_def)

lemma check_each_Inl: "check_each f xs = Inl x \<Longrightarrow> \<exists>y \<in> set xs. f y = Inl x"
  by (induction xs) (auto simp: result_errs)

section \<open>No panic\<close>

lemma collect_no_panic: "collect_reset_welcomes g gen seen acc ws \<noteq> Inl GroupMissingPanic"
  by (induction ws arbitrary: seen acc) (auto simp: result_errs)

lemma add_no_panic: "check_declared_add st g e a \<noteq> Inl GroupMissingPanic"
  by (simp add: check_declared_add_def result_errs)

lemma remove_no_panic: "check_declared_remove st g e r \<noteq> Inl GroupMissingPanic"
  by (simp add: check_declared_remove_def result_errs Let_def)

lemma pin_no_panic: "check_instance_pin st d h \<noteq> Inl GroupMissingPanic"
  by (auto simp: check_instance_pin_def result_errs split: option.split)

lemma sealed_no_panic:
  assumes "wf_channels st"
  shows "check_sealed_send st e c gen ep \<noteq> Inl GroupMissingPanic"
  using wf_channels_group [OF assms, of c] by (auto simp: check_sealed_send_def result_errs)

lemma commit_no_panic: "check_mls_commit st e mc \<noteq> Inl GroupMissingPanic"
  using add_no_panic remove_no_panic pin_no_panic
  by (fastforce simp: check_mls_commit_def check_commit_author_def result_errs dest!: check_each_Inl
      split: if_splits)

lemma authz_no_panic:
  assumes "wf_channels st"
  shows "check_payload_authz st e \<noteq> Inl GroupMissingPanic"
proof (cases "ev_payload e")
  case (MlsCommit mc)
  then show ?thesis using commit_no_panic by (simp add: check_payload_authz_def)
next
  case (MlsGroupReset c gen ws th)
  then show ?thesis using collect_no_panic
    by (auto simp: check_payload_authz_def check_group_reset_def result_errs)
next
  case (MlsLeafConfirmed c gen ep th h)
  then show ?thesis using pin_no_panic
    by (auto simp: check_payload_authz_def check_leaf_confirmed_def result_errs split: option.splits if_splits)
next
  case (MlsKeyPackagePublished kp h ex)
  then show ?thesis using pin_no_panic
    by (auto simp: check_payload_authz_def check_key_package_published_def result_errs)
qed (use sealed_no_panic [OF assms] in
    \<open>auto simp: check_payload_authz_def check_defs result_errs split: option.splits if_splits delete_reason.splits\<close>)

lemma effect_no_panic:
  assumes "check_payload_authz st e = Inr Apply"
  shows "apply_payload_effect cr e k st \<noteq> Inl GroupMissingPanic"
  using assms
  by (cases "ev_payload e")
    (auto simp: dispatch_defs effect_mls_commit_def effect_mls_welcome_def effect_leaf_confirmed_def
       effect_group_reset_def expect_group_def Let_def check_mls_commit_def check_mls_welcome_def
       check_leaf_confirmed_def check_group_reset_def result_simps split: option.splits)

lemma apply_no_panic:
  assumes "log_wf st"
  shows "log_apply cr st e \<noteq> Inl GroupMissingPanic"
proof
  assume panic: "log_apply cr st e = Inl GroupMissingPanic"
  have "resolve_device_pubkey cr st e \<noteq> Inl GroupMissingPanic"
    by (auto simp: resolve_device_pubkey_def result_errs split: event_payload.splits sum.splits)
  moreover have "check_cert_expiry st e \<noteq> Inl GroupMissingPanic"
    by (auto simp: check_cert_expiry_def result_errs split: option.splits)
  moreover have "check_chain st e \<noteq> Inl GroupMissingPanic"
    by (auto simp: check_chain_def result_errs split: option.splits)
  moreover have "check_payload_authz st e \<noteq> Inl GroupMissingPanic"
  proof -
    have "wf_channels st" using assms by (simp add: log_wf_def)
    then show ?thesis by (rule authz_no_panic)
  qed
  ultimately show False
    using panic effect_no_panic by (auto simp: log_apply_def result_errs split: if_splits)
qed

section \<open>Facts that stay\<close>

lemma channels_stay:
  assumes "log_apply cr st e = Inr st'" and "ls_channels st c = Some r"
  shows "ls_channels st' c = Some r"
proof (rule log_apply_keeps [where P = "\<lambda>s. ls_channels s c = Some r", OF assms])
  fix k st1
  assume ok: "check_payload_authz st e = Inr Apply" and eff: "apply_payload_effect cr e k st = Inr st1"
  show "ls_channels st1 c = Some r"
  proof (cases "ev_payload e")
    case (ChannelCreated c' name kind cls parent)
    with ok have "ls_channels st c' = None"
      by (simp add: check_payload_authz_def check_channel_created_def result_simps)
    with ChannelCreated assms(2) effect_channels(1) [OF eff] show ?thesis by auto
  qed (use assms(2) effect_channels(1) [OF eff] in auto)
qed simp

lemma revoked_stay:
  assumes "log_apply cr st e = Inr st'" and "d \<in> ls_revoked_devices st"
  shows "d \<in> ls_revoked_devices st'"
  by (rule log_apply_keeps [where P = "\<lambda>s. d \<in> ls_revoked_devices s", OF assms])
    (auto simp: effect_devices(3) assms(2) split: event_payload.split)

lemma tombstones_stay:
  assumes "log_apply cr st e = Inr st'" and "t \<in> ls_tombstones st"
  shows "t \<in> ls_tombstones st'"
  by (rule log_apply_keeps [where P = "\<lambda>s. t \<in> ls_tombstones s", OF assms])
    (auto simp: effect_channels(3) assms(2) split: event_payload.split)

lemma consumed_grows: "dom (ls_consumed_key_packages st) \<subseteq> dom (ls_consumed_key_packages (fold consume_key_package adds st))"
proof (induction adds arbitrary: st)
  case (Cons a adds)
  have "dom (ls_consumed_key_packages st) \<subseteq> dom (ls_consumed_key_packages (consume_key_package a st))"
    by (auto simp: consume_key_package_def split: option.split)
  also have "\<dots> \<subseteq> dom (ls_consumed_key_packages (fold consume_key_package adds (consume_key_package a st)))"
    by (rule Cons.IH)
  finally show ?case by simp
qed simp

lemma consumed_stay:
  assumes "log_apply cr st e = Inr st'" and "r \<in> dom (ls_consumed_key_packages st)"
  shows "r \<in> dom (ls_consumed_key_packages st')"
proof (rule log_apply_keeps [where P = "\<lambda>s. r \<in> dom (ls_consumed_key_packages s)", OF assms])
  fix k st1
  assume "apply_payload_effect cr e k st = Inr st1"
  note eff = effect_consumed(1) [OF this]
  show "r \<in> dom (ls_consumed_key_packages st1)"
  proof (cases "ev_payload e")
    case (MlsCommit mc)
    with eff assms(2) consumed_grows [of "pin_instance (ev_device e) (mc_store_instance_hash mc) st" "mc_adds mc"]
    show ?thesis by auto
  qed (use eff assms(2) in auto)
qed simp

text \<open>A package that is live when the loop starts is consumed when it ends.\<close>

definition has_key_package :: "log_state \<Rightarrow> leaf \<Rightarrow> event_ref \<Rightarrow> bool" where
  "has_key_package st leaf r \<longleftrightarrow> (\<exists>m. ls_key_packages st leaf = Some m \<and> r \<in> dom (map_of m))"

lemma consume_step:
  "has_key_package st leaf r \<Longrightarrow>
     has_key_package (consume_key_package a st) leaf r \<or> r \<in> dom (ls_consumed_key_packages (consume_key_package a st))"
  by (cases "add_leaf a = leaf"; cases "add_key_package a = r")
    (auto simp: has_key_package_def consume_key_package_def split: option.split)

lemma consume_all_adds:
  assumes "\<And>a. a \<in> set adds \<Longrightarrow>
    has_key_package st (add_leaf a) (add_key_package a) \<or> add_key_package a \<in> dom (ls_consumed_key_packages st)"
    and "a \<in> set adds"
  shows "add_key_package a \<in> dom (ls_consumed_key_packages (fold consume_key_package adds st))"
  using assms
proof (induction adds arbitrary: st)
  case (Cons b adds)
  let ?st1 = "consume_key_package b st"
  have grow: "dom (ls_consumed_key_packages st) \<subseteq> dom (ls_consumed_key_packages ?st1)"
    using consumed_grows [of st "[b]"] by simp
  have b: "add_key_package b \<in> dom (ls_consumed_key_packages ?st1)"
  proof (cases "has_key_package st (add_leaf b) (add_key_package b)")
    case True
    then show ?thesis by (auto simp: has_key_package_def consume_key_package_def)
  next
    case False
    with Cons.prems(1) [of b] grow show ?thesis by auto
  qed
  show ?case
  proof (cases "a = b")
    case True
    with b consumed_grows [of ?st1 adds] show ?thesis by auto
  next
    case False
    with Cons.prems(2) have "a \<in> set adds" by simp
    moreover have "has_key_package ?st1 (add_leaf x) (add_key_package x) \<or>
        add_key_package x \<in> dom (ls_consumed_key_packages ?st1)" if "x \<in> set adds" for x
      using Cons.prems(1) [of x] that subsetD [OF grow, of "add_key_package x"]
        consume_step [of st "add_leaf x" "add_key_package x" b] by auto
    ultimately show ?thesis using Cons.IH [of ?st1] by simp
  qed
qed simp

lemma commit_consumes:
  assumes step: "log_apply cr st e = Inr st'" and p: "ev_payload e = MlsCommit mc"
    and g: "ls_mls_groups st (mc_channel_id mc) = Some g" and ep: "mc_epoch mc = mg_epoch g"
    and a: "a \<in> set (mc_adds mc)"
  shows "add_key_package a \<notin> dom (ls_consumed_key_packages st)"
    and "add_key_package a \<in> dom (ls_consumed_key_packages st')"
proof -
  note ok = commit_accepted(1) [OF step p g ep]
  have add: "check_declared_add st g e x = Inr ()" if "x \<in> set (mc_adds mc)" for x
    using commit_accepted_facts(4) [OF ok g that] .
  from add [OF a] show "add_key_package a \<notin> dom (ls_consumed_key_packages st)"
    by (auto simp: check_declared_add_def result_simps)
  have live: "has_key_package (pin_instance (ev_device e) (mc_store_instance_hash mc) st) (add_leaf x) (add_key_package x)"
    if "x \<in> set (mc_adds mc)" for x
    using add [OF that]
    by (auto simp: check_declared_add_def result_simps has_key_package_def split: option.splits)
  show "add_key_package a \<in> dom (ls_consumed_key_packages st')"
    using step
  proof (cases rule: log_apply_cases)
    case (stale mc')
    with p ok show ?thesis by (simp add: check_payload_authz_def)
  next
    case (effect k st1)
    with p live a show ?thesis
      by (simp add: effect_consumed(1) [OF effect(3)] consume_all_adds)
  qed
qed

section \<open>Plaintext and encrypted channels\<close>

definition plain_marked :: "log_state \<Rightarrow> nat \<Rightarrow> bool" where
  "plain_marked st c \<longleftrightarrow> c \<in> ls_plaintext_history_channels st \<or> channel_class st c = Some Plaintext"

lemma plain_marked_not_e2ee: "wf_channels st \<Longrightarrow> plain_marked st c \<Longrightarrow> channel_class st c \<noteq> Some E2ee"
  by (auto simp: wf_channels_def plain_marked_def channel_class_def)

lemma plain_marked_stays:
  assumes step: "log_apply cr st e = Inr st'" and "plain_marked st c"
  shows "plain_marked st' c"
proof (cases "channel_class st c = Some Plaintext")
  case True
  then show ?thesis using channels_stay [OF step] by (auto simp: plain_marked_def channel_class_def)
next
  case False
  with assms(2) have "c \<in> ls_plaintext_history_channels st" by (simp add: plain_marked_def)
  then have "c \<in> ls_plaintext_history_channels st'"
    by (rule log_apply_keeps [where P = "\<lambda>s. c \<in> ls_plaintext_history_channels s", OF step])
      (auto simp: effect_channels(2) \<open>c \<in> ls_plaintext_history_channels st\<close> split: event_payload.split)
  then show ?thesis by (simp add: plain_marked_def)
qed

lemma posting_marks:
  assumes step: "log_apply cr st e = Inr st'" and p: "ev_payload e = MessagePosted c txt r caps"
  shows "plain_marked st' c"
  using step
proof (cases rule: log_apply_cases)
  case (stale mc)
  with p show ?thesis by simp
next
  case (effect k st1)
  with p have ok: "check_message_posted st e c = Inr Apply" by (simp add: check_payload_authz_def)
  have same: "ls_channels st1 = ls_channels st" using p by (simp add: effect_channels(1) [OF effect(3)])
  from ok have "ls_channels st c = None \<or> channel_class st c = Some Plaintext"
    by (auto simp: check_message_posted_def channel_class_def result_simps split: option.splits)
  then show ?thesis
    using p same effect(4) effect_channels(2) [OF effect(3)] by (auto simp: plain_marked_def channel_class_def)
qed

section \<open>Device chains\<close>

definition chain_of :: "leaf \<Rightarrow> event list \<Rightarrow> event list" where
  "chain_of k es = filter (\<lambda>e. (ev_author e, ev_device e) = k) es"

lemma apply_chains:
  assumes "log_apply cr st e = Inr st'"
  shows "ls_chains st' = (ls_chains st)((ev_author e, ev_device e) \<mapsto> \<lparr>hd_seq = ev_seq e, hd_hash = event_hash_of cr e\<rparr>)"
  using assms
proof (cases rule: log_apply_cases)
  case (effect k st1)
  then show ?thesis using effect_frame_counters [OF effect(3)] by simp
qed simp

lemma replay_snoc: "replay cr g (es @ [e]) = Inr st' \<longleftrightarrow>
    (\<exists>st. replay cr g es = Inr st \<and> log_apply cr st e = Inr st')"
  by (auto simp: replay_def log_fold.run_append_Inr result_simps)

lemma chain_head_of:
  "replay cr g es = Inr st \<Longrightarrow>
     ls_chains st k = (if chain_of k es = [] then None
       else Some \<lparr>hd_seq = length (chain_of k es) - 1, hd_hash = event_hash_of cr (last (chain_of k es))\<rparr>)
     \<and> (\<forall>i < length (chain_of k es). ev_seq (chain_of k es ! i) = i \<and>
          ev_prev (chain_of k es ! i) = (if i = 0 then None else Some (event_hash_of cr (chain_of k es ! (i - 1)))))"
proof (induction es arbitrary: st rule: rev_induct)
  case Nil
  then show ?case by (auto simp: replay_def from_genesis_def chain_of_def)
next
  case (snoc e es)
  then obtain m where m: "replay cr g es = Inr m" "log_apply cr m e = Inr st" by (auto simp: replay_snoc)
  note IH = snoc.IH [OF m(1)]
  from m(2) have chk: "check_chain m e = Inr ()" by (auto simp: log_apply_Inr)
  show ?case
  proof (cases "(ev_author e, ev_device e) = k")
    case False
    then have "chain_of k (es @ [e]) = chain_of k es" by (simp add: chain_of_def)
    with IH False show ?thesis by (simp add: apply_chains [OF m(2)])
  next
    case True
    let ?ch = "chain_of k es"
    have snc: "chain_of k (es @ [e]) = ?ch @ [e]" using True by (simp add: chain_of_def)
    have link: "ev_seq e = length ?ch \<and> ev_prev e = (if ?ch = [] then None else Some (event_hash_of cr (last ?ch)))"
      using chk IH True by (auto simp: check_chain_def result_simps split: if_splits)
    have "ev_seq ((?ch @ [e]) ! i) = i \<and> ev_prev ((?ch @ [e]) ! i) =
        (if i = 0 then None else Some (event_hash_of cr ((?ch @ [e]) ! (i - 1))))" if "i < length (?ch @ [e])" for i
    proof (cases "i = length ?ch")
      case True
      with link show ?thesis by (auto simp: nth_append last_conv_nth)
    next
      case False
      with that have "i < length ?ch" by simp
      with IH show ?thesis by (auto simp: nth_append)
    qed
    with True show ?thesis unfolding snc by (simp add: apply_chains [OF m(2)] link)
  qed
qed

section \<open>Where members come from\<close>

definition joined_by :: "event list \<Rightarrow> public_key \<Rightarrow> bool" where
  "joined_by es pk \<longleftrightarrow> (\<exists>e \<in> set es. ev_author e = pk \<and> (\<exists>i. ev_payload e = MemberJoined pk i))"

lemma member_step:
  assumes step: "log_apply cr st e = Inr st'" and "pk \<in> ls_members st' \<union> ls_pending st'"
  shows "pk \<in> ls_members st \<union> ls_pending st \<or> joined_by [e] pk"
  using step
proof (cases rule: log_apply_cases)
  case (stale mc)
  with assms(2) show ?thesis by simp
next
  case (effect k st1)
  note mem = effect_membership [OF effect(3)]
  show ?thesis
  proof (cases "ev_payload e")
    case (MemberJoined m i)
    with effect(2) have "m = ev_author e"
      by (simp add: check_payload_authz_def check_member_joined_def result_simps)
    with MemberJoined mem effect(4) assms(2) show ?thesis
      by (auto simp: joined_by_def split: option.splits if_splits)
  next
    case (MemberApproved m)
    with effect(2) have "m \<in> ls_pending st"
      by (simp add: check_payload_authz_def check_member_approved_def is_pending_def result_simps)
    with MemberApproved mem effect(4) assms(2) show ?thesis by auto
  qed (use mem effect(4) assms(2) in auto)
qed

lemma apply_owner: "log_apply cr st e = Inr st' \<Longrightarrow> ls_owner st' = ls_owner st"
  by (erule log_apply_cases) (auto dest: effect_owner)

lemma replay_owner: "replay cr g es = Inr st \<Longrightarrow> ls_owner st = g_owner g"
proof (induction es arbitrary: st rule: rev_induct)
  case Nil
  then show ?case by (auto simp: replay_def from_genesis_def)
next
  case (snoc e es)
  then show ?case by (auto simp: replay_snoc dest: apply_owner)
qed

lemma members_joined:
  "replay cr g es = Inr st \<Longrightarrow> pk \<in> ls_members st \<union> ls_pending st \<Longrightarrow> pk = g_owner g \<or> joined_by es pk"
proof (induction es arbitrary: st rule: rev_induct)
  case Nil
  then show ?case by (auto simp: replay_def from_genesis_def)
next
  case (snoc e es)
  then obtain m where m: "replay cr g es = Inr m" "log_apply cr m e = Inr st" by (auto simp: replay_snoc)
  from member_step [OF m(2) snoc.prems(2)] snoc.IH [OF m(1)] show ?case by (auto simp: joined_by_def)
qed

section \<open>Bans\<close>

lemma ban_step:
  assumes step: "log_apply cr st e = Inr st'" and "m \<in> ls_banned st" and "ev_payload e \<noteq> MemberUnbanned m"
  shows "m \<in> ls_banned st'" and "ev_author e \<noteq> m"
proof -
  show "m \<in> ls_banned st'"
    by (rule log_apply_keeps [where P = "\<lambda>s. m \<in> ls_banned s", OF assms(1,2)])
      (use assms(2,3) in \<open>auto simp: effect_membership(3) split: event_payload.split\<close>)
  show "ev_author e \<noteq> m"
    using step assms(2) by (auto simp: log_apply_Inr is_banned_def)
qed

end
