(* ===== verification/EventIngest.thy ===== *)
theory EventIngest
  imports ServerDbInv LogHistory
begin

text \<open>
  The server's ingest of the event log: \<open>crates/farder-server/src/event_ingest.rs\<close> and the
  \<open>SubmitEvent\<close> arm of \<open>handlers.rs\<close> that composes it.  A failed step is an error value; the SQL
  transaction of the arm is the fact that an error carries no new state.

  Not modelled: the tracing output, and \<open>created_at\<close> of a stored event, which nothing reads.
\<close>

section \<open>Caps\<close>

definition MAX_E2EE_CIPHERTEXT_BYTES :: nat where "MAX_E2EE_CIPHERTEXT_BYTES = 45 * 1024"
definition MAX_E2EE_EDIT_CIPHERTEXT_BYTES :: nat where
  "MAX_E2EE_EDIT_CIPHERTEXT_BYTES = MAX_E2EE_CIPHERTEXT_BYTES"
definition MAX_MLS_MESSAGE_BYTES :: nat where "MAX_MLS_MESSAGE_BYTES = 256 * 1024"
definition MAX_MLS_WELCOME_BYTES :: nat where "MAX_MLS_WELCOME_BYTES = 256 * 1024"
definition MAX_KEY_PACKAGE_BYTES :: nat where "MAX_KEY_PACKAGE_BYTES = 8 * 1024"
definition MAX_DECLARED_LEAVES_PER_COMMIT :: nat where "MAX_DECLARED_LEAVES_PER_COMMIT = 256"
definition MAX_RESET_WELCOMES :: nat where "MAX_RESET_WELCOMES = 256"
definition MAX_E2EE_ATTACHMENTS :: nat where "MAX_E2EE_ATTACHMENTS = 10"
definition MAX_CHANNEL_NAME_BYTES :: nat where "MAX_CHANNEL_NAME_BYTES = 256"
definition E2EE_CHANNEL_ID_FLOOR :: nat where "E2EE_CHANNEL_ID_FLOOR = 4294967296"
definition MAX_EVENT_FUTURE_SKEW_SECS :: nat where "MAX_EVENT_FUTURE_SKEW_SECS = 300"
definition u64_max :: nat where "u64_max = 18446744073709551615"

datatype ingest_error =
    FutureTimestamp | OverCap string | BelowIdFloor | ChannelIdTaken | ChannelHasMessages | UnsupportedShape
  | EditOtherChannel | EditOfPlaintext | EditNotAuthor | EditUnknownTarget
  | TombstoneUnknownTarget | TombstoneOtherChannel | TombstoneNotAuthor
  | Write write_error | NotLogMode | StaleEpoch | Rejected log_error | ContentTooLong | ChannelNotFound
  | ReplayFailed log_error

text \<open>\<open>?\<close> on a result of another module.\<close>

definition try_write :: "write_error + 'b \<Rightarrow> ('b \<Rightarrow> ingest_error + 'a) \<Rightarrow> ingest_error + 'a" where
  "try_write r k = (case r of Inl e \<Rightarrow> Inl (Write e) | Inr x \<Rightarrow> k x)"

lemma try_write_Inr [result_simps]: "try_write r k = Inr x \<longleftrightarrow> (\<exists>y. r = Inr y \<and> k y = Inr x)"
  by (cases r) (simp_all add: try_write_def)

lemma try_write_simps [simp]: "try_write (Inl e) k = Inl (Write e)" "try_write (Inr y) k = k y"
  by (simp_all add: try_write_def)

definition cap :: "string \<Rightarrow> nat \<Rightarrow> nat \<Rightarrow> ingest_error + unit" where
  "cap what len mx = ensure (len \<le> mx) (OverCap what) (Inr ())"

definition check_ingest_caps_at :: "event \<Rightarrow> nat \<Rightarrow> ingest_error + unit" where
  "check_ingest_caps_at e now =
     ensure (ev_timestamp e \<le> min (now + MAX_EVENT_FUTURE_SKEW_SECS) u64_max) FutureTimestamp
     (case ev_payload e of
        ChannelCreated _ name kind _ _ \<Rightarrow>
          try_then (cap ''ChannelCreated.name'' (length name) MAX_CHANNEL_NAME_BYTES) (\<lambda>_.
          cap ''ChannelCreated.kind'' (length kind) MAX_CHANNEL_NAME_BYTES)
      | MlsKeyPackagePublished key_package _ _ \<Rightarrow>
          cap ''MlsKeyPackagePublished.key_package'' (length key_package) MAX_KEY_PACKAGE_BYTES
      | MlsCommit mc \<Rightarrow>
          try_then (cap ''MlsCommit.mls_message'' (length (mc_mls_message mc)) MAX_MLS_MESSAGE_BYTES) (\<lambda>_.
          try_then (cap ''MlsCommit.adds'' (length (mc_adds mc)) MAX_DECLARED_LEAVES_PER_COMMIT) (\<lambda>_.
          cap ''MlsCommit.removes'' (length (mc_removes mc)) MAX_DECLARED_LEAVES_PER_COMMIT))
      | MlsWelcome _ _ _ _ _ welcome \<Rightarrow> cap ''MlsWelcome.welcome'' (length welcome) MAX_MLS_WELCOME_BYTES
      | MlsGroupReset _ _ welcomes _ \<Rightarrow> cap ''MlsGroupReset.welcomes'' (length welcomes) MAX_RESET_WELCOMES
      | MessagePostedE2ee _ _ _ ciphertext _ attachments _ \<Rightarrow>
          try_then (cap ''MessagePostedE2ee.ciphertext'' (length ciphertext) MAX_E2EE_CIPHERTEXT_BYTES) (\<lambda>_.
          cap ''MessagePostedE2ee.attachments'' (length attachments) MAX_E2EE_ATTACHMENTS)
      | MessageEditedE2ee _ _ _ _ ciphertext _ \<Rightarrow>
          cap ''MessageEditedE2ee.ciphertext'' (length ciphertext) MAX_E2EE_EDIT_CIPHERTEXT_BYTES
      | _ \<Rightarrow> Inr ())"

section \<open>Genesis and events\<close>

text \<open>\<open>INSERT OR IGNORE\<close>: the first genesis stays.\<close>

definition save_genesis :: "genesis \<Rightarrow> server_db \<Rightarrow> server_db" where
  "save_genesis g db = (case db_genesis db of None \<Rightarrow> db\<lparr>db_genesis := Some g\<rparr> | Some _ \<Rightarrow> db)"

definition load_genesis :: "server_db \<Rightarrow> genesis option" where
  "load_genesis db = db_genesis db"

definition payload_type :: "event_payload \<Rightarrow> string" where
  "payload_type p =
     (case p of
        MessagePosted _ _ _ _ \<Rightarrow> ''MessagePosted''
      | DeviceAuthorized _ \<Rightarrow> ''DeviceAuthorized''
      | InviteCreated _ _ _ _ \<Rightarrow> ''InviteCreated''
      | MemberJoined _ _ \<Rightarrow> ''MemberJoined''
      | MemberRemoved _ \<Rightarrow> ''MemberRemoved''
      | MemberBanned _ \<Rightarrow> ''MemberBanned''
      | MemberUnbanned _ \<Rightarrow> ''MemberUnbanned''
      | PermissionGranted _ _ \<Rightarrow> ''PermissionGranted''
      | MemberApproved _ \<Rightarrow> ''MemberApproved''
      | AttachmentRedacted _ \<Rightarrow> ''AttachmentRedacted''
      | ChannelCreated _ _ _ _ _ \<Rightarrow> ''ChannelCreated''
      | MlsKeyPackagePublished _ _ _ \<Rightarrow> ''MlsKeyPackagePublished''
      | MlsCommit _ \<Rightarrow> ''MlsCommit''
      | MlsWelcome _ _ _ _ _ _ \<Rightarrow> ''MlsWelcome''
      | MlsLeafConfirmed _ _ _ _ _ \<Rightarrow> ''MlsLeafConfirmed''
      | MlsGroupReset _ _ _ _ \<Rightarrow> ''MlsGroupReset''
      | MessagePostedE2ee _ _ _ _ _ _ _ \<Rightarrow> ''MessagePostedE2ee''
      | MessageEditedE2ee _ _ _ _ _ _ \<Rightarrow> ''MessageEditedE2ee''
      | MessageDeleted _ _ _ \<Rightarrow> ''MessageDeleted''
      | DeviceRevoked _ \<Rightarrow> ''DeviceRevoked'')"

definition store_event :: "crypto \<Rightarrow> event \<Rightarrow> server_db \<Rightarrow> write_error + server_db" where
  "store_event cr e db =
     ensure (\<forall>p \<in> set (db_events db). event_hash_of cr (snd p) \<noteq> event_hash_of cr e) UniqueViolation
     (Inr (db\<lparr>db_events := db_events db @ [(db_last_event db + 1, e)],
              db_last_event := db_last_event db + 1\<rparr>))"

definition load_events_in_order :: "server_db \<Rightarrow> event list" where
  "load_events_in_order db = map snd (db_events db)"

definition build_log_state :: "crypto \<Rightarrow> server_db \<Rightarrow> ingest_error + log_state option" where
  "build_log_state cr db =
     (case load_genesis db of
        None \<Rightarrow> Inr None
      | Some g \<Rightarrow> (case replay cr g (load_events_in_order db) of
                     Inl err \<Rightarrow> Inl (ReplayFailed err)
                   | Inr st \<Rightarrow> Inr (Some st)))"

text \<open>The rows of one payload type, and of the content payloads.\<close>

definition stored_of_type :: "string \<Rightarrow> server_db \<Rightarrow> event list" where
  "stored_of_type ty db = filter (\<lambda>e. payload_type (ev_payload e) = ty) (load_events_in_order db)"

definition stored_content :: "server_db \<Rightarrow> event list" where
  "stored_content db = filter (\<lambda>e. payload_type (ev_payload e) \<in> {''MessagePosted'', ''MessagePostedE2ee''})
     (load_events_in_order db)"

section \<open>Channels and messages\<close>

definition next_position :: "channel_row list \<Rightarrow> int" where
  "next_position rows = (if rows = [] then -1 else Max (cr_position ` set rows)) + 1"

definition materialize_channel_created ::
    "event \<Rightarrow> server_db \<Rightarrow> ingest_error + (channel_class option \<times> server_db)" where
  "materialize_channel_created e db =
     (case ev_payload e of
        ChannelCreated c name kind cls parent \<Rightarrow>
          ensure (E2EE_CHANNEL_ID_FLOOR \<le> c) BelowIdFloor
          (ensure (find_channel db c = None) ChannelIdTaken
          (ensure (\<forall>m \<in> set (db_messages db). mr_channel m \<noteq> c) ChannelHasMessages
          (ensure (kind = ''text'' \<and> parent = None) UnsupportedShape
          (Inr (Some cls, db\<lparr>db_channels := db_channels db @
             [\<lparr>cr_id = c, cr_name = name, cr_type = ''text'', cr_position = next_position (db_channels db),
               cr_deleted = False, cr_content_class = class_string cls\<rparr>]\<rparr>)))))
      | _ \<Rightarrow> Inr (None, db))"

definition resolve_reply_target :: "server_db \<Rightarrow> nat \<Rightarrow> event_ref option \<Rightarrow> nat option" where
  "resolve_reply_target db c reply_to =
     (case reply_to of
        None \<Rightarrow> None
      | Some target \<Rightarrow> map_option mr_id
          (find (\<lambda>m. mr_event_hash m = Some target \<and> mr_channel m = c) (db_messages db)))"

definition derive_message_row :: "crypto \<Rightarrow> event \<Rightarrow> server_db \<Rightarrow> ingest_error + (nat option \<times> server_db)" where
  "derive_message_row cr e db =
     (case ev_payload e of
        MessagePosted c content reply_to _ \<Rightarrow>
          try_write (insert_derived_row db c (ev_author e) content (ev_timestamp e)
             (resolve_reply_target db c reply_to) (event_hash_of cr e)) (\<lambda>(mid, db'). Inr (Some mid, db'))
      | MessagePostedE2ee c _ _ ciphertext reply_to _ _ \<Rightarrow>
          try_write (insert_sealed_row db c (ev_author e) ciphertext (ev_timestamp e)
             (resolve_reply_target db c reply_to) (event_hash_of cr e)) (\<lambda>(mid, db'). Inr (Some mid, db'))
      | _ \<Rightarrow> Inr (None, db))"

definition sealed_edit_target ::
    "server_db \<Rightarrow> nat \<Rightarrow> event_ref \<Rightarrow> public_key \<Rightarrow> bool \<Rightarrow> ingest_error + nat option" where
  "sealed_edit_target db c target author strict =
     (case find_by_hash db target of
        None \<Rightarrow> Inr None
      | Some row \<Rightarrow>
          ensure (mr_channel row = c) EditOtherChannel
          (ensure (mr_is_e2ee row) EditOfPlaintext
          (if mr_author row \<noteq> author then ensure (\<not> strict) EditNotAuthor (Inr None)
           else Inr (Some (mr_id row)))))"

definition apply_sealed_edit :: "event \<Rightarrow> server_db \<Rightarrow> ingest_error + (nat option \<times> server_db)" where
  "apply_sealed_edit e db =
     (case ev_payload e of
        MessageEditedE2ee c target _ _ ciphertext _ \<Rightarrow>
          try_then (sealed_edit_target db c target (ev_author e) True) (\<lambda>found.
          or_fail found EditUnknownTarget (\<lambda>mid.
          try_write (update_sealed_row mid ciphertext (ev_timestamp e) db) (\<lambda>db'. Inr (Some mid, db'))))
      | _ \<Rightarrow> Inr (None, db))"

record tombstone_applied =
  ta_message_id :: nat
  ta_channel_id :: nat
  ta_orphaned_file_ids :: "nat list"

definition apply_tombstone :: "event \<Rightarrow> server_db \<Rightarrow> ingest_error + (tombstone_applied option \<times> server_db)" where
  "apply_tombstone e db =
     (case ev_payload e of
        MessageDeleted c target reason \<Rightarrow>
          or_fail (find_by_hash db target) TombstoneUnknownTarget (\<lambda>row.
          ensure (mr_channel row = c) TombstoneOtherChannel
          (ensure (reason = AuthorDelete \<longrightarrow> mr_author row = ev_author e) TombstoneNotAuthor
          (try_write (delete_message (mr_id row) db) (\<lambda>(orphans, db').
           Inr (Some \<lparr>ta_message_id = mr_id row, ta_channel_id = c, ta_orphaned_file_ids = orphans\<rparr>, db')))))
      | _ \<Rightarrow> Inr (None, db))"

section \<open>Attachments\<close>

definition message_caps :: "event_payload \<Rightarrow> attachment_cap list" where
  "message_caps p =
     (case p of
        MessagePosted _ _ _ caps \<Rightarrow> caps
      | MessagePostedE2ee _ _ _ _ _ caps _ \<Rightarrow> caps
      | _ \<Rightarrow> [])"

definition cap_valid :: "public_key \<Rightarrow> public_key \<Rightarrow> file_row \<Rightarrow> attachment_cap \<Rightarrow> bool" where
  "cap_valid author owner file c \<longleftrightarrow>
     fr_size file = cap_size c \<and> fr_mime file = cap_declared_type c \<and> fr_uploader file = cap_uploader c \<and>
     (author = cap_uploader c \<or> author = owner)"

text \<open>The body of the loop over the caps; the position counts every cap, valid or not.\<close>

definition derive_attachment :: "nat \<Rightarrow> public_key \<Rightarrow> public_key \<Rightarrow> nat \<times> attachment_cap \<Rightarrow> nat \<times> server_db \<Rightarrow> nat \<times> server_db" where
  "derive_attachment mid author owner pc acc =
     (let (pos, c) = pc; (created, db) = acc in
      case get_file_by_hash db (cap_content_hash c) of
        None \<Rightarrow> acc
      | Some file \<Rightarrow>
          if \<not> cap_valid author owner file c then acc
          else if \<exists>a \<in> set (db_attachments db). ar_message a = mid \<and> ar_file a = fr_id file then acc
          else (created + 1, create_message_attachment mid (fr_id file) pos (fr_name file) db))"

definition derive_attachments :: "nat \<Rightarrow> event \<Rightarrow> public_key \<Rightarrow> server_db \<Rightarrow> nat \<times> server_db" where
  "derive_attachments mid e owner db =
     fold (derive_attachment mid (ev_author e) owner) (enumerate 0 (message_caps (ev_payload e))) (0, db)"

section \<open>Startup repair\<close>

definition stored_tombstone_targets :: "server_db \<Rightarrow> event_ref list" where
  "stored_tombstone_targets db =
     remdups (List.map_filter (\<lambda>e. case ev_payload e of MessageDeleted _ target _ \<Rightarrow> Some target | _ \<Rightarrow> None)
       (stored_of_type ''MessageDeleted'' db))"

definition tombstoned_in :: "event_ref list \<Rightarrow> log_state option \<Rightarrow> event_hash \<Rightarrow> bool" where
  "tombstoned_in stored ls h \<longleftrightarrow>
     h \<in> set stored \<or> (case ls of None \<Rightarrow> False | Some st \<Rightarrow> is_tombstoned st h)"

definition missing_content :: "crypto \<Rightarrow> server_db \<Rightarrow> event list" where
  "missing_content cr db = filter (\<lambda>e. find_by_hash db (event_hash_of cr e) = None) (stored_content db)"

text \<open>Pass 1: one missing content event.\<close>

definition derive_missing :: "crypto \<Rightarrow> (event_hash \<Rightarrow> bool) \<Rightarrow> nat \<times> server_db \<Rightarrow> event \<Rightarrow> ingest_error + (nat \<times> server_db)" where
  "derive_missing cr dead acc e =
     (if dead (event_hash_of cr e) then Inr acc
      else try_then (derive_message_row cr e (snd acc)) (\<lambda>(found, db').
           Inr (if found = None then fst acc else fst acc + 1, db')))"

text \<open>Pass 2: one tombstoned target.\<close>

definition sweep_target :: "server_db \<Rightarrow> event_ref \<Rightarrow> ingest_error + server_db" where
  "sweep_target db target =
     (case find_by_hash db target of
        None \<Rightarrow> Inr db
      | Some row \<Rightarrow> try_write (delete_message (mr_id row) db) (\<lambda>(_, db'). Inr db'))"

text \<open>Pass 3: one sealed edit.\<close>

definition replay_sealed_edit :: "(event_hash \<Rightarrow> bool) \<Rightarrow> server_db \<Rightarrow> event \<Rightarrow> ingest_error + server_db" where
  "replay_sealed_edit dead db e =
     (case ev_payload e of
        MessageEditedE2ee c target _ _ ciphertext _ \<Rightarrow>
          if dead target then Inr db
          else try_then (sealed_edit_target db c target (ev_author e) False) (\<lambda>found.
            case found of
              None \<Rightarrow> Inr db
            | Some mid \<Rightarrow> try_write (update_sealed_row mid ciphertext (ev_timestamp e) db) Inr)
      | _ \<Rightarrow> Inr db)"

definition replay_sealed_edits :: "(event_hash \<Rightarrow> bool) \<Rightarrow> server_db \<Rightarrow> ingest_error + server_db" where
  "replay_sealed_edits dead db =
     fold_result (replay_sealed_edit dead) db (stored_of_type ''MessageEditedE2ee'' db)"

text \<open>Pass 4: the rows are read first, then each is repaired.\<close>

definition cited_reply :: "event_payload \<Rightarrow> (nat \<times> event_ref) option" where
  "cited_reply p =
     (case p of
        MessagePosted c _ reply_to _ \<Rightarrow> map_option (Pair c) reply_to
      | MessagePostedE2ee c _ _ _ reply_to _ _ \<Rightarrow> map_option (Pair c) reply_to
      | _ \<Rightarrow> None)"

definition unlinked_rows :: "crypto \<Rightarrow> server_db \<Rightarrow> (event \<times> nat) list" where
  "unlinked_rows cr db =
     List.map_filter (\<lambda>e. case find_by_hash db (event_hash_of cr e) of
         None \<Rightarrow> None
       | Some row \<Rightarrow> if mr_reply_to row = None then Some (e, mr_id row) else None) (stored_content db)"

definition repair_reply_link :: "event \<times> nat \<Rightarrow> nat \<times> server_db \<Rightarrow> nat \<times> server_db" where
  "repair_reply_link row acc =
     (case cited_reply (ev_payload (fst row)) of
        None \<Rightarrow> acc
      | Some (c, cited) \<Rightarrow>
          (case resolve_reply_target (snd acc) c (Some cited) of
             None \<Rightarrow> acc
           | Some target_id \<Rightarrow>
               (fst acc + 1, update_message (snd row) (\<lambda>m. m\<lparr>mr_reply_to := Some target_id\<rparr>) (snd acc))))"

definition repair_reply_links :: "crypto \<Rightarrow> server_db \<Rightarrow> nat \<times> server_db" where
  "repair_reply_links cr db = fold repair_reply_link (unlinked_rows cr db) (0, db)"

definition reconcile_messages :: "crypto \<Rightarrow> log_state option \<Rightarrow> server_db \<Rightarrow> ingest_error + (nat \<times> server_db)" where
  "reconcile_messages cr ls db =
     (let stored = stored_tombstone_targets db; dead = tombstoned_in stored ls in
      try_then (fold_result (derive_missing cr dead) (0, db) (missing_content cr db)) (\<lambda>(repaired, db1).
      try_then (fold_result sweep_target db1 stored) (\<lambda>db2.
      try_then (replay_sealed_edits dead db2) (\<lambda>db3.
      Inr (repaired, snd (repair_reply_links cr db3))))))"

definition reconcile_attachments :: "crypto \<Rightarrow> server_db \<Rightarrow> nat \<times> server_db" where
  "reconcile_attachments cr db =
     (case load_genesis db of
        None \<Rightarrow> (0, db)
      | Some g \<Rightarrow>
          fold (\<lambda>(e, mid) (n, db). let (created, db') = derive_attachments mid e (g_owner g) db in (n + created, db'))
            (List.map_filter (\<lambda>e. map_option (\<lambda>row. (e, mr_id row)) (find_by_hash db (event_hash_of cr e)))
               (stored_content db)) (0, db))"

text \<open>\<open>sweep_redacted_bytes\<close> over the blobs on disk.\<close>

definition sweep_redacted_bytes :: "server_db \<Rightarrow> nat \<times> server_db" where
  "sweep_redacted_bytes db =
     (let hashes = map fr_hash (filter (\<lambda>r. fr_redacted_by r \<noteq> None) (db_files db))
      in (length (filter (\<lambda>h. h \<in> db_disk db) hashes), db\<lparr>db_disk := db_disk db - set hashes\<rparr>))"

end
