(* ===== verification/EventFetch.thy ===== *)
theory EventFetch
  imports EventIngest
begin

text \<open>
  The fetch surfaces over the stored events (\<open>fetch_welcomes_for\<close>, \<open>fetch_mls_control\<close>,
  \<open>fetch_key_packages\<close>, \<open>fetch_device_certs\<close>, \<open>find_invite_event_by_code\<close> of
  \<open>event_ingest.rs\<close>), and the interface a paging client relies on.
\<close>

definition MAX_FETCH_EVENTS :: nat where "MAX_FETCH_EVENTS = 500"

text \<open>The scan loop the two paged fetches share: it stops on the count of rows examined.\<close>

fun scan_page :: "(event \<Rightarrow> bool) \<Rightarrow> (nat \<times> event) list \<Rightarrow> event list \<Rightarrow> nat \<Rightarrow> nat \<Rightarrow> event list \<times> nat \<times> bool" where
  "scan_page wanted [] out cursor scanned = (out, cursor, False)"
| "scan_page wanted ((seq, e) # rows) out cursor scanned =
     (if MAX_FETCH_EVENTS \<le> length out \<or> MAX_FETCH_EVENTS \<le> scanned then (out, cursor, True)
      else scan_page wanted rows (if wanted e then out @ [e] else out) seq (scanned + 1))"

definition rows_after :: "string set \<Rightarrow> nat \<Rightarrow> server_db \<Rightarrow> (nat \<times> event) list" where
  "rows_after types since db =
     filter (\<lambda>(seq, e). payload_type (ev_payload e) \<in> types \<and> since < seq) (db_events db)"

definition welcome_for :: "public_key \<Rightarrow> nat option \<Rightarrow> event \<Rightarrow> bool" where
  "welcome_for recipient channel_filter e =
     (case ev_payload e of
        MlsWelcome c _ _ for_member _ _ \<Rightarrow>
          for_member = recipient \<and> (case channel_filter of None \<Rightarrow> True | Some want \<Rightarrow> c = want)
      | _ \<Rightarrow> False)"

definition fetch_welcomes_for ::
    "public_key \<Rightarrow> nat option \<Rightarrow> nat \<Rightarrow> server_db \<Rightarrow> event list \<times> nat \<times> bool" where
  "fetch_welcomes_for recipient channel_filter since db =
     scan_page (welcome_for recipient channel_filter) (rows_after {''MlsWelcome''} since db) [] since 0"

definition mls_control_of :: "nat \<Rightarrow> event \<Rightarrow> bool" where
  "mls_control_of channel e =
     (case ev_payload e of
        MlsCommit mc \<Rightarrow> mc_channel_id mc = channel
      | MlsWelcome c _ _ _ _ _ \<Rightarrow> c = channel
      | MlsLeafConfirmed c _ _ _ _ \<Rightarrow> c = channel
      | MlsGroupReset c _ _ _ \<Rightarrow> c = channel
      | _ \<Rightarrow> False)"

definition control_types :: "string set" where
  "control_types = {''MlsCommit'', ''MlsWelcome'', ''MlsLeafConfirmed'', ''MlsGroupReset''}"

definition fetch_mls_control :: "nat \<Rightarrow> nat \<Rightarrow> server_db \<Rightarrow> event list \<times> nat \<times> bool" where
  "fetch_mls_control channel since db =
     scan_page (mls_control_of channel) (rows_after control_types since db) [] since 0"

definition fetch_key_packages :: "public_key \<Rightarrow> device_id \<Rightarrow> server_db \<Rightarrow> event list" where
  "fetch_key_packages member device db =
     take MAX_FETCH_EVENTS
       (filter (\<lambda>e. ev_author e = member \<and> ev_device e = device) (stored_of_type ''MlsKeyPackagePublished'' db))"

definition own_devices :: "public_key \<Rightarrow> server_db \<Rightarrow> device_id set" where
  "own_devices identity db =
     ev_device ` set (filter (\<lambda>e. ev_author e = identity) (stored_of_type ''DeviceAuthorized'' db))"

text \<open>Both halves are read in accept order; the merge sorts them on \<open>accept_seq\<close> (a stable sort).\<close>

definition fetch_device_certs :: "public_key \<Rightarrow> server_db \<Rightarrow> event list" where
  "fetch_device_certs identity db =
     (let certs = filter (\<lambda>(_, e). payload_type (ev_payload e) = ''DeviceAuthorized'' \<and> ev_author e = identity)
                    (db_events db);
          revocations = filter (\<lambda>(_, e). case ev_payload e of
               DeviceRevoked d \<Rightarrow> d \<in> own_devices identity db | _ \<Rightarrow> False) (db_events db)
      in map snd (take MAX_FETCH_EVENTS (sort_key fst (certs @ revocations))))"

definition find_invite_event_by_code :: "crypto \<Rightarrow> string \<Rightarrow> server_db \<Rightarrow> event_hash option" where
  "find_invite_event_by_code cr code db =
     map_option (event_hash_of cr)
       (find (\<lambda>e. case ev_payload e of
                InviteCreated code_hash _ _ _ \<Rightarrow> code_hash = invite_code_hash cr code | _ \<Rightarrow> False)
          (load_events_in_order db))"

section \<open>One page\<close>

lemma scan_page_out_grows:
  "scan_page wanted rows out cursor scanned = (out', cursor', again) \<Longrightarrow>
     length out \<le> scanned \<Longrightarrow> scanned \<le> MAX_FETCH_EVENTS \<Longrightarrow>
     \<exists>n. n = min (MAX_FETCH_EVENTS - scanned) (length rows) \<and>
       out' = out @ map snd (filter (\<lambda>r. wanted (snd r)) (take n rows)) \<and>
       cursor' = last (cursor # map fst (take n rows)) \<and> again = (n < length rows)"
proof (induction wanted rows out cursor scanned arbitrary: out' cursor' again rule: scan_page.induct)
  case (1 wanted out cursor scanned)
  then show ?case by simp
next
  case (2 wanted seq e rows out cursor scanned)
  show ?case
  proof (cases "MAX_FETCH_EVENTS \<le> scanned")
    case True
    with 2 show ?thesis by simp
  next
    case False
    with 2(3) have "\<not> (MAX_FETCH_EVENTS \<le> length out \<or> MAX_FETCH_EVENTS \<le> scanned)" by auto
    with 2 False have "\<exists>n. n = min (MAX_FETCH_EVENTS - (scanned + 1)) (length rows) \<and>
       out' = (if wanted e then out @ [e] else out) @ map snd (filter (\<lambda>r. wanted (snd r)) (take n rows)) \<and>
       cursor' = last (seq # map fst (take n rows)) \<and> again = (n < length rows)"
      by (intro 2(1)) auto
    moreover have "MAX_FETCH_EVENTS - scanned = Suc (MAX_FETCH_EVENTS - (scanned + 1))" using False by simp
    ultimately show ?thesis by (auto simp: min_Suc_Suc)
  qed
qed

lemma scan_page_spec:
  assumes "scan_page wanted rows [] since 0 = (out, cursor, again)"
  shows "out = map snd (filter (\<lambda>r. wanted (snd r)) (take MAX_FETCH_EVENTS rows)) \<and>
    cursor = last (since # map fst (take MAX_FETCH_EVENTS rows)) \<and> again = (MAX_FETCH_EVENTS < length rows)"
  using scan_page_out_grows [OF assms] by (cases "MAX_FETCH_EVENTS \<le> length rows") (auto simp: min_def)

section \<open>Paging\<close>

text \<open>The loop of a client that feeds the cursor back, with a bound on the number of requests.\<close>

fun pages :: "('s \<Rightarrow> nat \<Rightarrow> 'e list \<times> nat \<times> bool) \<Rightarrow> 's \<Rightarrow> nat \<Rightarrow> nat \<Rightarrow> 'e list \<times> bool" where
  "pages fetch s 0 since = ([], True)"
| "pages fetch s (Suc n) since =
     (let (out, cursor, again) = fetch s since in
      if again then (let (rest, unfinished) = pages fetch s n cursor in (out @ rest, unfinished)) else (out, False))"

text \<open>
  The contract of a paged fetch, and what that client gets: after enough pages, every wanted row
  after its starting cursor, once and in order.
\<close>

locale paged_fetch =
  fixes fetch :: "'s \<Rightarrow> nat \<Rightarrow> 'e list \<times> nat \<times> bool"
    and rows :: "'s \<Rightarrow> nat \<Rightarrow> (nat \<times> 'e) list"
    and wanted :: "'e \<Rightarrow> bool"
    and page :: nat
    and invar :: "'s \<Rightarrow> bool"
  assumes page_pos: "0 < page"
    and fetched: "invar s \<Longrightarrow> fetch s since = (out, cursor, again) \<Longrightarrow>
      out = map snd (filter (\<lambda>r. wanted (snd r)) (take page (rows s since))) \<and>
      rows s cursor = drop page (rows s since) \<and> again = (page < length (rows s since))"
begin

lemma pages_prefix:
  "invar s \<Longrightarrow> fst (pages fetch s n since) = map snd (filter (\<lambda>r. wanted (snd r)) (take (n * page) (rows s since)))"
proof (induction n arbitrary: since)
  case (Suc n)
  obtain out cursor again where f: "fetch s since = (out, cursor, again)" by (cases "fetch s since") auto
  note law = fetched [OF Suc.prems f]
  have split: "take (Suc n * page) (rows s since) = take page (rows s since) @ take (n * page) (drop page (rows s since))"
    by (simp add: take_add)
  show ?case
  proof (cases again)
    case True
    with f law Suc.IH [OF Suc.prems, of cursor] show ?thesis by (auto simp: take_add Let_def split: prod.split)
  next
    case False
    with law have "length (rows s since) \<le> page" by simp
    with f law False show ?thesis by (simp add: split)
  qed
qed simp

lemma pages_finish: "invar s \<Longrightarrow> length (rows s since) < n * page \<Longrightarrow> \<not> snd (pages fetch s n since)"
proof (induction n arbitrary: since)
  case (Suc n)
  obtain out cursor again where f: "fetch s since = (out, cursor, again)" by (cases "fetch s since") auto
  note law = fetched [OF Suc.prems(1) f]
  show ?case
  proof (cases again)
    case True
    with law Suc.prems have "length (rows s cursor) < n * page" by auto
    with Suc.IH [OF Suc.prems(1), of cursor] f True show ?thesis by (auto simp: Let_def split: prod.split)
  qed (use f in simp)
qed simp

text \<open>Enough requests return everything wanted, once and in order, and the client stops.\<close>

lemma pages_complete:
  assumes "invar s" and "length (rows s since) < n * page"
  shows "pages fetch s n since = (map snd (filter (\<lambda>r. wanted (snd r)) (rows s since)), False)"
  using pages_prefix [OF assms(1), of n since] pages_finish [OF assms] assms by (auto intro: prod_eqI)

text \<open>And a request never stalls: further rows means the next page starts strictly later.\<close>

lemma page_progress:
  "invar s \<Longrightarrow> fetch s since = (out, cursor, True) \<Longrightarrow> length (rows s cursor) < length (rows s since)"
  using fetched [of s since out cursor True] page_pos by auto

end

text \<open>Stored events are in ascending \<open>accept_seq\<close>.\<close>

definition events_ordered :: "server_db \<Rightarrow> bool" where
  "events_ordered db \<longleftrightarrow> sorted_wrt (<) (map fst (db_events db)) \<and> (\<forall>p \<in> set (db_events db). fst p \<le> db_last_event db)"

lemma sorted_filter_drop:
  fixes xs :: "(nat \<times> 'a) list"
  assumes "sorted_wrt (<) (map fst xs)" and "n \<le> length xs" and "0 < n"
  shows "filter (\<lambda>p. last (map fst (take n xs)) < fst p) xs = drop n xs"
proof -
  have ne: "take n xs \<noteq> []" using assms(2,3) by auto
  have le: "fst p \<le> last (map fst (take n xs))" if "p \<in> set (take n xs)" for p
  proof -
    from that obtain i where i: "i < n" "p = xs ! i" using assms(2) by (auto simp: in_set_conv_nth)
    have "last (map fst (take n xs)) = fst (xs ! (n - 1))"
      using ne assms(2,3) by (simp add: last_conv_nth)
    moreover have "fst (xs ! i) \<le> fst (xs ! (n - 1))"
      using i assms by (cases "i = n - 1") (auto dest!: sorted_wrt_nth_less [where i = i and j = "n - 1"])
    ultimately show ?thesis using i by simp
  qed
  have gt: "last (map fst (take n xs)) < fst p" if "p \<in> set (drop n xs)" for p
  proof -
    from that obtain j where j: "n \<le> j" "j < length xs" "p = xs ! j"
      by (auto simp: in_set_conv_nth) (metis add.commute le_add2 less_diff_conv)
    have "last (map fst (take n xs)) = fst (xs ! (n - 1))"
      using ne assms(2,3) by (simp add: last_conv_nth)
    moreover have "fst (xs ! (n - 1)) < fst (xs ! j)"
      using sorted_wrt_nth_less [OF assms(1), of "n - 1" j] j assms(2,3) by simp
    ultimately show ?thesis using j by simp
  qed
  have "filter (\<lambda>p. last (map fst (take n xs)) < fst p) (take n xs @ drop n xs) = drop n xs"
    unfolding filter_append using le gt by (simp add: filter_empty_conv filter_True leD)
  then show ?thesis by simp
qed

lemma rows_after_cursor:
  assumes "events_ordered db"
  shows "rows_after types (last (since # map fst (take page (rows_after types since db)))) db =
    drop page (rows_after types since db)"
proof (cases "take page (rows_after types since db) = []")
  case True
  then show ?thesis by auto
next
  case False
  let ?rows = "rows_after types since db" and ?n = "min page (length (rows_after types since db))"
  have sorted: "sorted_wrt (<) (map fst ?rows)"
    using assms by (auto simp: rows_after_def events_ordered_def sorted_wrt_map sorted_wrt_filter)
  have cur: "last (since # map fst (take page ?rows)) = last (map fst (take ?n ?rows))"
    using False by (simp add: min_def)
  have n: "?n \<le> length ?rows" "0 < ?n" using False by auto
  have later: "since < last (map fst (take ?n ?rows))"
  proof -
    have "last (take ?n ?rows) \<in> set (take ?n ?rows)" using n by (intro last_in_set) auto
    then have "last (take ?n ?rows) \<in> set ?rows" by (auto dest: in_set_takeD)
    then show ?thesis using n by (auto simp: rows_after_def last_map)
  qed
  have "rows_after types (last (map fst (take ?n ?rows))) db = filter (\<lambda>p. last (map fst (take ?n ?rows)) < fst p) ?rows"
    using later unfolding rows_after_def filter_filter by (intro filter_cong) auto
  also have "\<dots> = drop ?n ?rows" by (rule sorted_filter_drop [OF sorted n])
  finally show ?thesis unfolding cur by (simp add: min_def)
qed

text \<open>Both paged fetches satisfy the contract.\<close>

interpretation welcomes: paged_fetch
  "\<lambda>db since. fetch_welcomes_for recipient flt since db" "\<lambda>db since. rows_after {''MlsWelcome''} since db"
  "welcome_for recipient flt" MAX_FETCH_EVENTS events_ordered for recipient flt
proof (unfold_locales, goal_cases)
  case (2 db since out cursor again)
  with scan_page_spec [of "welcome_for recipient flt" "rows_after {''MlsWelcome''} since db" since out cursor again]
    rows_after_cursor [OF 2(1), of "{''MlsWelcome''}" since MAX_FETCH_EVENTS]
  show ?case by (auto simp: fetch_welcomes_for_def)
qed (simp add: MAX_FETCH_EVENTS_def)

interpretation control: paged_fetch
  "\<lambda>db since. fetch_mls_control channel since db" "\<lambda>db since. rows_after control_types since db"
  "mls_control_of channel" MAX_FETCH_EVENTS events_ordered for channel
proof (unfold_locales, goal_cases)
  case (2 db since out cursor again)
  with scan_page_spec [of "mls_control_of channel" "rows_after control_types since db" since out cursor again]
    rows_after_cursor [OF 2(1), of control_types since MAX_FETCH_EVENTS]
  show ?case by (auto simp: fetch_mls_control_def)
qed (simp add: MAX_FETCH_EVENTS_def)

end
