(* ===== verification/SubmitEvent.thy ===== *)
theory SubmitEvent
  imports EventFetch
begin

text \<open>
  The \<open>SubmitEvent\<close> arm of \<open>crates/farder-server/src/handlers.rs\<close>: caps, the stale-epoch bounce,
  the trial application of the fold, the transaction that stores the event and derives its view,
  and the notices the accepted event causes; and the startup of \<open>main.rs\<close> that rebuilds the
  same state from the database.  The mutexes of the source serialize the arm, so one submission
  is one step.
\<close>

section \<open>State\<close>

record server_state =
  sv_genesis :: "genesis option"
  sv_log :: "log_state option"
  sv_db :: server_db

datatype event_target = Subscribers nat | AllClients

datatype server_notice =
    NewMessage nat | SealedMessage nat nat | SealedMessageEdited nat nat
  | MlsControlEvent "nat option" event_hash string | ChannelAnnounced nat | ChannelAnnouncedV2 nat
  | MembershipChanged public_key | RedactedNotice string bool
  | MessageDeletedNotice nat nat | MessageTombstoned nat nat

section \<open>The arm\<close>

definition epoch_claim :: "event_payload \<Rightarrow> (nat \<times> nat \<times> nat) option" where
  "epoch_claim p =
     (case p of
        MlsCommit mc \<Rightarrow> Some (mc_channel_id mc, mc_generation mc, mc_epoch mc)
      | MessagePostedE2ee c gen ep _ _ _ _ \<Rightarrow> Some (c, gen, ep)
      | MessageEditedE2ee c _ gen ep _ _ \<Rightarrow> Some (c, gen, ep)
      | _ \<Rightarrow> None)"

definition claims_stale_epoch :: "log_state \<Rightarrow> event \<Rightarrow> bool" where
  "claims_stale_epoch st e =
     (case epoch_claim (ev_payload e) of
        None \<Rightarrow> False
      | Some (c, gen, ep) \<Rightarrow>
          (case mls_current_epoch st c of None \<Rightarrow> False | Some cur \<Rightarrow> (gen, ep) \<noteq> cur))"

definition get_channel :: "server_db \<Rightarrow> nat \<Rightarrow> channel_row option" where
  "get_channel db c = find (\<lambda>r. cr_id r = c \<and> \<not> cr_deleted r) (db_channels db)"

text \<open>Step 3: the request-layer rules for a plaintext message.\<close>

definition check_posted :: "server_db \<Rightarrow> event \<Rightarrow> ingest_error + unit" where
  "check_posted db e =
     (case ev_payload e of
        MessagePosted c content _ _ \<Rightarrow>
          ensure (length content \<le> 8000) ContentTooLong
          (ensure (get_channel db c \<noteq> None) ChannelNotFound (Inr ()))
      | _ \<Rightarrow> Inr ())"

record ingested =
  in_derived :: "nat option"
  in_edited :: "nat option"
  in_class :: "channel_class option"
  in_tombstoned :: "tombstone_applied option"

text \<open>Step 4: the transaction.\<close>

definition attach :: "nat option \<Rightarrow> public_key option \<Rightarrow> event \<Rightarrow> server_db \<Rightarrow> server_db" where
  "attach found owner e db =
     (case (found, owner) of
        (Some mid, Some pk) \<Rightarrow> snd (derive_attachments mid e pk db) | _ \<Rightarrow> db)"

definition redact :: "event \<Rightarrow> server_db \<Rightarrow> server_db" where
  "redact e db =
     (case ev_payload e of
        AttachmentRedacted h \<Rightarrow> snd (redact_blob h (ev_author e) db) | _ \<Rightarrow> db)"

definition ingest_transaction ::
    "crypto \<Rightarrow> public_key option \<Rightarrow> event \<Rightarrow> server_db \<Rightarrow> ingest_error + (ingested \<times> server_db)" where
  "ingest_transaction cr owner e db =
     try_write (store_event cr e db) (\<lambda>db1.
     try_then (materialize_channel_created e db1) (\<lambda>(cls, db2).
     try_then (derive_message_row cr e db2) (\<lambda>(found, db3).
     (let db4 = redact e (attach found owner e db3) in
      try_then (apply_sealed_edit e db4) (\<lambda>(edited, db5).
      try_then (apply_tombstone e db5) (\<lambda>(tombstoned, db6).
      Inr (\<lparr>in_derived = found, in_edited = edited, in_class = cls, in_tombstoned = tombstoned\<rparr>, db6)))))))"

text \<open>Step 6: the notices, in the order they are pushed.\<close>

definition message_notices :: "event \<Rightarrow> ingested \<Rightarrow> server_db \<Rightarrow> (event_target \<times> server_notice) list" where
  "message_notices e res db =
     (case in_derived res of
        None \<Rightarrow> []
      | Some mid \<Rightarrow>
          if find_message db mid = None then []
          else (case ev_payload e of
                  MessagePosted c _ _ _ \<Rightarrow> [(Subscribers c, NewMessage mid)]
                | MessagePostedE2ee c _ _ _ _ _ _ \<Rightarrow> [(Subscribers c, SealedMessage c mid)]
                | _ \<Rightarrow> [])) @
     (case in_edited res of
        None \<Rightarrow> []
      | Some mid \<Rightarrow>
          (case ev_payload e of
             MessageEditedE2ee c _ _ _ _ _ \<Rightarrow>
               if find_message db mid = None then [] else [(Subscribers c, SealedMessageEdited c mid)]
           | _ \<Rightarrow> []))"

definition control_notices :: "crypto \<Rightarrow> event \<Rightarrow> (event_target \<times> server_notice) list" where
  "control_notices cr e =
     (let notice = (\<lambda>c. MlsControlEvent c (event_hash_of cr e) (payload_type (ev_payload e))) in
      case ev_payload e of
        MlsCommit mc \<Rightarrow> [(Subscribers (mc_channel_id mc), notice (Some (mc_channel_id mc)))]
      | MlsWelcome c _ _ _ _ _ \<Rightarrow> [(Subscribers c, notice (Some c))]
      | MlsLeafConfirmed c _ _ _ _ \<Rightarrow> [(Subscribers c, notice (Some c))]
      | MlsGroupReset c _ _ _ \<Rightarrow> [(Subscribers c, notice (Some c))]
      | MlsKeyPackagePublished _ _ _ \<Rightarrow> [(AllClients, notice None)]
      | DeviceRevoked _ \<Rightarrow> [(AllClients, notice None)]
      | _ \<Rightarrow> [])"

definition channel_notices :: "event \<Rightarrow> ingested \<Rightarrow> server_db \<Rightarrow> (event_target \<times> server_notice) list" where
  "channel_notices e res db =
     (case ev_payload e of
        ChannelCreated c _ _ _ _ \<Rightarrow>
          if get_channel db c = None then []
          else (case in_class res of
                  Some Plaintext \<Rightarrow> [(AllClients, ChannelAnnounced c)]
                | Some E2ee \<Rightarrow> [(AllClients, ChannelAnnouncedV2 c)]
                | None \<Rightarrow> [])
      | _ \<Rightarrow> [])"

definition membership_notices :: "event \<Rightarrow> (event_target \<times> server_notice) list" where
  "membership_notices e =
     (case ev_payload e of
        MemberJoined m _ \<Rightarrow> [(AllClients, MembershipChanged m)]
      | MemberApproved m \<Rightarrow> [(AllClients, MembershipChanged m)]
      | MemberRemoved m \<Rightarrow> [(AllClients, MembershipChanged m)]
      | MemberBanned m \<Rightarrow> [(AllClients, MembershipChanged m)]
      | _ \<Rightarrow> [])"

definition redaction_notices :: "event \<Rightarrow> log_state \<Rightarrow> (event_target \<times> server_notice) list" where
  "redaction_notices e st =
     (case ev_payload e of
        AttachmentRedacted h \<Rightarrow>
          [(AllClients, RedactedNotice h
             (case attachment_uploader st h of None \<Rightarrow> True | Some up \<Rightarrow> up \<noteq> ev_author e))]
      | _ \<Rightarrow> [])"

definition tombstone_notices :: "ingested \<Rightarrow> server_db \<Rightarrow> (event_target \<times> server_notice) list" where
  "tombstone_notices res db =
     (case in_tombstoned res of
        None \<Rightarrow> []
      | Some t \<Rightarrow>
          (Subscribers (ta_channel_id t), MessageDeletedNotice (ta_message_id t) (ta_channel_id t)) #
          (if refuses_server_authored_content (resolve db (ta_channel_id t))
           then [(Subscribers (ta_channel_id t), MessageTombstoned (ta_message_id t) (ta_channel_id t))]
           else []))"

definition submit_event ::
    "crypto \<Rightarrow> nat \<Rightarrow> server_state \<Rightarrow> event \<Rightarrow>
     ingest_error + (server_state \<times> (event_target \<times> server_notice) list \<times> nat list)" where
  "submit_event cr now sv e =
     or_fail (sv_log sv) NotLogMode (\<lambda>st.
     try_then (check_ingest_caps_at e now) (\<lambda>_.
     ensure (\<not> claims_stale_epoch st e) StaleEpoch
     (case log_apply cr st e of
        Inl err \<Rightarrow> Inl (Rejected err)
      | Inr trial \<Rightarrow>
          try_then (check_posted (sv_db sv) e) (\<lambda>_.
          try_then (ingest_transaction cr (map_option g_owner (sv_genesis sv)) e (sv_db sv)) (\<lambda>(res, db).
          Inr (sv\<lparr>sv_log := Some trial, sv_db := db\<rparr>,
               message_notices e res db @ control_notices cr e @ channel_notices e res db @
               membership_notices e @ redaction_notices e trial @ tombstone_notices res db,
               (case in_tombstoned res of None \<Rightarrow> [] | Some t \<Rightarrow> ta_orphaned_file_ids t)))))))"

section \<open>Histories of submissions\<close>

text \<open>One submission at a server time, as a step of the state; and the run over many.\<close>

definition submit_step :: "crypto \<Rightarrow> server_state \<Rightarrow> nat \<times> event \<Rightarrow> ingest_error + server_state" where
  "submit_step cr sv te = try_then (submit_event cr (fst te) sv (snd te)) (\<lambda>(sv', _). Inr sv')"

definition submit_all :: "crypto \<Rightarrow> server_state \<Rightarrow> (nat \<times> event) list \<Rightarrow> ingest_error + server_state" where
  "submit_all cr = fold_result (submit_step cr)"

interpretation submissions: fallible_fold "submit_step cr" "submit_all cr" for cr
  by unfold_locales (simp_all add: submit_all_def)

section \<open>Startup\<close>

text \<open>The part of \<open>main.rs\<close> that runs when the database has a genesis.\<close>

definition startup :: "crypto \<Rightarrow> server_db \<Rightarrow> ingest_error + server_state" where
  "startup cr db =
     (case load_genesis db of
        None \<Rightarrow> Inr \<lparr>sv_genesis = None, sv_log = None, sv_db = db\<rparr>
      | Some g \<Rightarrow>
          try_then (build_log_state cr db) (\<lambda>ls.
          (let db1 = snd (reconcile_channel_classes db) in
           try_then (reconcile_messages cr ls db1) (\<lambda>(_, db2).
           (let db3 = snd (reconcile_attachments cr db2);
                db4 = snd (sweep_redacted_bytes db3)
            in Inr \<lparr>sv_genesis = Some g, sv_log = ls, sv_db = db4\<rparr>)))))"

end
