(* ===== verification/SubmitInv.thy ===== *)
theory SubmitInv
  imports SubmitEvent
begin

text \<open>
  What every accepted submission keeps: the fold in memory is the replay of the stored events, the
  derived message rows are exactly the view those events call for (nothing missing, nothing
  deleted present, every sealed row at its latest edit), and the database invariant.
\<close>

section \<open>Payload types\<close>

lemma payload_type_iff:
  "payload_type p = ''MessageDeleted'' \<longleftrightarrow> (\<exists>c t r. p = MessageDeleted c t r)"
  "payload_type p = ''MessageEditedE2ee'' \<longleftrightarrow> (\<exists>c t g ep ct ah. p = MessageEditedE2ee c t g ep ct ah)"
  "payload_type p = ''MessagePosted'' \<longleftrightarrow> (\<exists>c s r k. p = MessagePosted c s r k)"
  "payload_type p = ''MessagePostedE2ee'' \<longleftrightarrow> (\<exists>c g ep ct r k ah. p = MessagePostedE2ee c g ep ct r k ah)"
  "payload_type p = ''ChannelCreated'' \<longleftrightarrow> (\<exists>c n k cls par. p = ChannelCreated c n k cls par)"
  "payload_type p = ''MlsWelcome'' \<longleftrightarrow> (\<exists>c g r m d w. p = MlsWelcome c g r m d w)"
  by (cases p; simp add: payload_type_def)+

definition is_content :: "event_payload \<Rightarrow> bool" where
  "is_content p = (case p of MessagePosted _ _ _ _ \<Rightarrow> True | MessagePostedE2ee _ _ _ _ _ _ _ \<Rightarrow> True | _ \<Rightarrow> False)"

lemma content_type: "payload_type p \<in> {''MessagePosted'', ''MessagePostedE2ee''} \<longleftrightarrow> is_content p"
  by (cases p) (simp_all add: payload_type_def is_content_def)

lemma stored_content_eq: "stored_content db = filter (\<lambda>e. is_content (ev_payload e)) (load_events_in_order db)"
  unfolding stored_content_def content_type by (rule refl)

section \<open>The steps of the transaction\<close>

lemma store_event_Inr:
  "store_event cr e db = Inr db1 \<longleftrightarrow>
     event_hash_of cr e \<notin> event_hash_of cr ` set (load_events_in_order db) \<and>
     db1 = db\<lparr>db_events := db_events db @ [(db_last_event db + 1, e)], db_last_event := db_last_event db + 1\<rparr>"
  by (auto simp: store_event_def load_events_in_order_def result_simps image_iff)

lemma materialize_Inr:
  "materialize_channel_created e db = Inr (cls, db') \<Longrightarrow>
     db_messages db' = db_messages db \<and> db_events db' = db_events db \<and> db_fts db' = db_fts db \<and>
     db_genesis db' = db_genesis db \<and> db_last_message db' = db_last_message db \<and> db_last_event db' = db_last_event db \<and>
     (case ev_payload e of
        ChannelCreated c name kind class parent \<Rightarrow>
          cls = Some class \<and> find_channel db c = None \<and> (\<forall>m \<in> set (db_messages db). mr_channel m \<noteq> c) \<and>
          (\<exists>r. db_channels db' = db_channels db @ [r] \<and> cr_id r = c \<and> cr_content_class r = class_string class \<and> \<not> cr_deleted r)
      | _ \<Rightarrow> cls = None \<and> db' = db)"
  by (auto simp: materialize_channel_created_def result_simps split: event_payload.splits)

lemma find_snoc: "find P (xs @ [x]) = (case find P xs of None \<Rightarrow> if P x then Some x else None | Some y \<Rightarrow> Some y)"
  by (induction xs) auto

lemma db_wf_materialize:
  assumes "materialize_channel_created e db = Inr (cls, db')" and wf: "db_wf db"
  shows "db_wf db'"
proof (cases "\<exists>c name kind class parent. ev_payload e = ChannelCreated c name kind class parent")
  case True
  then obtain c name kind kl parent where p: "ev_payload e = ChannelCreated c name kind kl parent" by blast
  note eff = materialize_Inr [OF assms(1), unfolded p, simplified]
  then obtain r where r: "db_channels db' = db_channels db @ [r]" "cr_id r = c" by auto
  have res: "resolve db' c' = resolve db c'" if "c' \<noteq> c" for c'
    using that r by (simp add: resolve_def find_channel_def find_snoc split: option.split)
  have "row_ok db' m = row_ok db m" if "m \<in> set (db_messages db)" for m
  proof -
    have "mr_channel m \<noteq> c" using eff that by blast
    then show ?thesis by (simp add: row_ok_def res)
  qed
  then show ?thesis using wf eff by (simp add: db_wf_def plain_index_def)
next
  case False
  then have "db' = db" using materialize_Inr [OF assms(1)] by (auto split: event_payload.splits)
  with wf show ?thesis by simp
qed

lemma derive_attachment_same_core: "same_core (snd acc) (snd (derive_attachment mid a o' pc acc))"
  by (cases acc; cases pc) (auto simp: derive_attachment_def split: option.split)

lemma fold_derive_attachment_same_core: "same_core (snd acc) (snd (fold (derive_attachment mid a o') pcs acc))"
proof (induction pcs arbitrary: acc)
  case (Cons pc pcs)
  show ?case using same_core_trans [OF derive_attachment_same_core Cons.IH] by simp
qed simp

lemma attach_same_core: "same_core db (attach found owner e db)"
  using fold_derive_attachment_same_core [of "(0, db)"]
  by (auto simp: attach_def derive_attachments_def split: option.split)

lemma attach_redact_core [simp]:
  "db_messages (attach found owner e db) = db_messages db" "db_messages (redact e db) = db_messages db"
  "db_channels (attach found owner e db) = db_channels db" "db_channels (redact e db) = db_channels db"
  using attach_same_core [of db found owner e]
  by (simp_all add: same_core_def redact_def redact_blob_def split: event_payload.split)

lemma redact_same_core: "same_core db (redact e db)"
  by (auto simp: redact_def redact_blob_def same_core_def split: event_payload.split)

definition payload_row :: "crypto \<Rightarrow> event \<Rightarrow> message_row \<Rightarrow> bool" where
  "payload_row cr e m \<longleftrightarrow>
     mr_event_hash m = Some (event_hash_of cr e) \<and> mr_author m = ev_author e \<and> mr_timestamp m = ev_timestamp e \<and>
     (case ev_payload e of
        MessagePosted c content _ _ \<Rightarrow> mr_channel m = c \<and> mr_content m = content \<and> \<not> mr_is_e2ee m
      | MessagePostedE2ee c _ _ ct _ _ _ \<Rightarrow> mr_channel m = c \<and> mr_is_e2ee m
      | _ \<Rightarrow> False)"

lemma derive_message_row_Inr:
  assumes "derive_message_row cr e db = Inr (found, db')" and wf: "db_wf db"
  shows "db_wf db'" and "db_events db' = db_events db" "db_channels db' = db_channels db"
    "db_genesis db' = db_genesis db" "db_last_event db' = db_last_event db"
    and "if is_content (ev_payload e) then found \<noteq> None \<and>
           (\<exists>row. db_messages db' = db_messages db @ [row] \<and> payload_row cr e row)
         else found = None \<and> db' = db"
proof -
  show "db_wf db'"
    using assms db_wf_insert_doors(4,5) by (auto simp: derive_message_row_def result_simps split: event_payload.splits prod.splits)
  show "db_events db' = db_events db" "db_channels db' = db_channels db"
    "db_genesis db' = db_genesis db" "db_last_event db' = db_last_event db"
    using assms(1) by (auto simp: derive_message_row_def insert_derived_row_def insert_sealed_row_def insert_row_Inr result_simps
        split: event_payload.splits prod.splits)
  show "if is_content (ev_payload e) then found \<noteq> None \<and>
           (\<exists>row. db_messages db' = db_messages db @ [row] \<and> payload_row cr e row)
         else found = None \<and> db' = db"
    using assms(1) by (auto simp: derive_message_row_def insert_derived_row_def insert_sealed_row_def insert_row_Inr result_simps
        is_content_def payload_row_def split: event_payload.splits prod.splits)
qed

lemma apply_sealed_edit_Inr:
  assumes "apply_sealed_edit e db = Inr (found, db')" and wf: "db_wf db"
  shows "db_wf db'" and "db_events db' = db_events db" "db_channels db' = db_channels db"
    "db_genesis db' = db_genesis db" "db_last_event db' = db_last_event db"
    and "case ev_payload e of
        MessageEditedE2ee c target _ _ ct _ \<Rightarrow>
          (\<exists>row. found = Some (mr_id row) \<and> row \<in> set (db_messages db) \<and> mr_event_hash row = Some target \<and>
             mr_channel row = c \<and> mr_is_e2ee row \<and> mr_author row = ev_author e \<and>
             db_messages db' = map (\<lambda>m. if mr_id m = mr_id row
               then m\<lparr>mr_sealed := Some ct, mr_edited_at := Some (ev_timestamp e)\<rparr> else m) (db_messages db))
      | _ \<Rightarrow> found = None \<and> db' = db"
proof -
  show "db_wf db'"
    using assms db_wf_update_sealed_row by (auto simp: apply_sealed_edit_def result_simps split: event_payload.splits)
  show "db_events db' = db_events db" "db_channels db' = db_channels db"
    "db_genesis db' = db_genesis db" "db_last_event db' = db_last_event db"
    using assms(1) by (auto simp: apply_sealed_edit_def update_sealed_row_def result_simps split: event_payload.splits)
  show "case ev_payload e of
        MessageEditedE2ee c target _ _ ct _ \<Rightarrow>
          (\<exists>row. found = Some (mr_id row) \<and> row \<in> set (db_messages db) \<and> mr_event_hash row = Some target \<and>
             mr_channel row = c \<and> mr_is_e2ee row \<and> mr_author row = ev_author e \<and>
             db_messages db' = map (\<lambda>m. if mr_id m = mr_id row
               then m\<lparr>mr_sealed := Some ct, mr_edited_at := Some (ev_timestamp e)\<rparr> else m) (db_messages db))
      | _ \<Rightarrow> found = None \<and> db' = db"
    using assms(1)
    by (auto simp: apply_sealed_edit_def sealed_edit_target_def update_sealed_row_def result_simps find_by_hash_Some [OF wf]
        split: event_payload.splits option.splits if_splits)
qed

lemma apply_tombstone_Inr:
  assumes "apply_tombstone e db = Inr (t, db')" and wf: "db_wf db"
  shows "db_wf db'" and "db_events db' = db_events db" "db_channels db' = db_channels db"
    "db_genesis db' = db_genesis db" "db_last_event db' = db_last_event db"
    and "case ev_payload e of
        MessageDeleted c target r \<Rightarrow>
          (\<exists>row. t \<noteq> None \<and> row \<in> set (db_messages db) \<and> mr_event_hash row = Some target \<and> mr_channel row = c \<and>
             (r = AuthorDelete \<longrightarrow> mr_author row = ev_author e) \<and>
             db_messages db' = filter (\<lambda>m. mr_id m \<noteq> mr_id row) (db_messages db))
      | _ \<Rightarrow> t = None \<and> db' = db"
proof -
  have del: "db_messages x = filter (\<lambda>m. mr_id m \<noteq> mid) (db_messages db) \<and> db_events x = db_events db \<and>
      db_channels x = db_channels db \<and> db_genesis x = db_genesis db \<and> db_last_event x = db_last_event db"
    if "delete_message mid db = Inr (z, x)" for mid z x
    by (rule delete_message_Inr [OF that wf]) blast
  show "db_wf db'"
    using assms db_wf_delete_message by (auto simp: apply_tombstone_def result_simps split: event_payload.splits prod.splits)
  show "db_events db' = db_events db" "db_channels db' = db_channels db"
    "db_genesis db' = db_genesis db" "db_last_event db' = db_last_event db"
    using assms(1) del by (auto simp: apply_tombstone_def result_simps split: event_payload.splits prod.splits)
  show "case ev_payload e of
        MessageDeleted c target r \<Rightarrow>
          (\<exists>row. t \<noteq> None \<and> row \<in> set (db_messages db) \<and> mr_event_hash row = Some target \<and> mr_channel row = c \<and>
             (r = AuthorDelete \<longrightarrow> mr_author row = ev_author e) \<and>
             db_messages db' = filter (\<lambda>m. mr_id m \<noteq> mr_id row) (db_messages db))
      | _ \<Rightarrow> t = None \<and> db' = db"
    using assms(1) del
    by (auto simp: apply_tombstone_def result_simps find_by_hash_Some [OF wf] split: event_payload.splits prod.splits)
qed

section \<open>An accepted submission\<close>

lemma core_eqs:
  assumes "same_core db db'"
  shows "db_messages db' = db_messages db" "db_fts db' = db_fts db" "db_channels db' = db_channels db"
    "db_events db' = db_events db" "db_genesis db' = db_genesis db" "db_last_message db' = db_last_message db"
    "db_last_event db' = db_last_event db"
  using assms by (simp_all add: same_core_def)

lemma ingest_transaction_Inr:
  assumes "ingest_transaction cr owner e db = Inr (res, db')" and wf: "db_wf db"
  shows "event_hash_of cr e \<notin> event_hash_of cr ` set (load_events_in_order db)"
    "db_wf db'" "db_events db' = db_events db @ [(db_last_event db + 1, e)]" "db_last_event db' = db_last_event db + 1"
    "db_genesis db' = db_genesis db"
    "case ev_payload e of
       ChannelCreated c name kind kl parent \<Rightarrow> find_channel db c = None \<and> (\<exists>r. db_channels db' = db_channels db @ [r] \<and>
          cr_id r = c \<and> cr_content_class r = class_string kl \<and> \<not> cr_deleted r)
     | _ \<Rightarrow> db_channels db' = db_channels db"
    "case ev_payload e of
       MessageEditedE2ee c target _ _ ct _ \<Rightarrow> (\<exists>row. row \<in> set (db_messages db) \<and> mr_event_hash row = Some target \<and>
          mr_channel row = c \<and> mr_is_e2ee row \<and> mr_author row = ev_author e \<and>
          db_messages db' = map (\<lambda>m. if mr_id m = mr_id row
            then m\<lparr>mr_sealed := Some ct, mr_edited_at := Some (ev_timestamp e)\<rparr> else m) (db_messages db))
     | MessageDeleted c target r \<Rightarrow> (\<exists>row. row \<in> set (db_messages db) \<and> mr_event_hash row = Some target \<and>
          mr_channel row = c \<and> (r = AuthorDelete \<longrightarrow> mr_author row = ev_author e) \<and>
          db_messages db' = filter (\<lambda>m. mr_id m \<noteq> mr_id row) (db_messages db))
     | _ \<Rightarrow> if is_content (ev_payload e) then (\<exists>row. db_messages db' = db_messages db @ [row] \<and> payload_row cr e row)
            else db_messages db' = db_messages db"
proof -
  from assms(1) obtain db1 cls db2 found db3 edited db5 tomb where
    s: "store_event cr e db = Inr db1" and m: "materialize_channel_created e db1 = Inr (cls, db2)"
    and d: "derive_message_row cr e db2 = Inr (found, db3)"
    and ed: "apply_sealed_edit e (redact e (attach found owner e db3)) = Inr (edited, db5)"
    and tb: "apply_tombstone e db5 = Inr (tomb, db')"
    by (auto simp: ingest_transaction_def result_simps Let_def)
  note s' = s [unfolded store_event_Inr]
  have wf1: "db_wf db1" using wf s' by (simp add: db_wf_def plain_index_def row_ok_def resolve_def find_channel_def cong: if_cong)
  note wf2 = db_wf_materialize [OF m wf1]
  note wf3 = derive_message_row_Inr(1) [OF d wf2]
  let ?db4 = "redact e (attach found owner e db3)"
  have core: "same_core db3 ?db4" by (rule same_core_trans [OF attach_same_core redact_same_core])
  have wf4: "db_wf ?db4" using wf3 db_wf_same_core [OF core] by simp
  note E = apply_sealed_edit_Inr [OF ed wf4] and T = apply_tombstone_Inr [OF tb apply_sealed_edit_Inr(1) [OF ed wf4]]
  note D = derive_message_row_Inr [OF d wf2] and M = materialize_Inr [OF m] and C = core_eqs [OF core]
  show "event_hash_of cr e \<notin> event_hash_of cr ` set (load_events_in_order db)" using s' by blast
  show "db_wf db'" by (rule T(1))
  show "db_events db' = db_events db @ [(db_last_event db + 1, e)]" "db_last_event db' = db_last_event db + 1"
    "db_genesis db' = db_genesis db"
    using s' M by (simp_all add: T(2,4,5) E(2,4,5) C(4,5,7) D(2,4,5))
  have ch: "db_channels db' = db_channels db2" by (simp add: T(3) E(3) C(3) D(3))
  show "case ev_payload e of
     ChannelCreated c name kind class parent \<Rightarrow> find_channel db c = None \<and> (\<exists>r. db_channels db' = db_channels db @ [r] \<and>
        cr_id r = c \<and> cr_content_class r = class_string class \<and> \<not> cr_deleted r)
   | _ \<Rightarrow> db_channels db' = db_channels db"
    unfolding ch using M s' by (cases "ev_payload e") (auto simp: find_channel_def)
  have ms2: "db_messages db2 = db_messages db" using M s' by simp
  show "case ev_payload e of
     MessageEditedE2ee c target _ _ ct _ \<Rightarrow> (\<exists>row. row \<in> set (db_messages db) \<and> mr_event_hash row = Some target \<and>
        mr_channel row = c \<and> mr_is_e2ee row \<and> mr_author row = ev_author e \<and>
        db_messages db' = map (\<lambda>m. if mr_id m = mr_id row
          then m\<lparr>mr_sealed := Some ct, mr_edited_at := Some (ev_timestamp e)\<rparr> else m) (db_messages db))
   | MessageDeleted c target r \<Rightarrow> (\<exists>row. row \<in> set (db_messages db) \<and> mr_event_hash row = Some target \<and>
        mr_channel row = c \<and> (r = AuthorDelete \<longrightarrow> mr_author row = ev_author e) \<and>
        db_messages db' = filter (\<lambda>m. mr_id m \<noteq> mr_id row) (db_messages db))
   | _ \<Rightarrow> if is_content (ev_payload e) then (\<exists>row. db_messages db' = db_messages db @ [row] \<and> payload_row cr e row)
          else db_messages db' = db_messages db"
    using T(6) E(6) D(6) unfolding C(1) ms2
    by (cases "ev_payload e") (auto simp: is_content_def C(1) ms2)
qed

lemma submit_event_Inr:
  assumes "submit_event cr now sv e = Inr (sv', notices, orphans)"
  obtains st trial res db' where "sv_log sv = Some st" "check_ingest_caps_at e now = Inr ()"
    "\<not> claims_stale_epoch st e" "log_apply cr st e = Inr trial" "check_posted (sv_db sv) e = Inr ()"
    "ingest_transaction cr (map_option g_owner (sv_genesis sv)) e (sv_db sv) = Inr (res, db')"
    "sv' = sv\<lparr>sv_log := Some trial, sv_db := db'\<rparr>"
proof -
  from assms obtain st where st: "sv_log sv = Some st" by (auto simp: submit_event_def result_simps)
  show ?thesis
  proof (cases "log_apply cr st e")
    case (Inl err)
    with assms st show ?thesis by (simp add: submit_event_def result_simps)
  next
    case (Inr trial)
    with assms st that show ?thesis by (auto simp: submit_event_def result_simps)
  qed
qed

lemma submit_step_Inr:
  "submit_step cr sv te = Inr sv' \<longleftrightarrow> (\<exists>ns os. submit_event cr (fst te) sv (snd te) = Inr (sv', ns, os))"
  by (auto simp: submit_step_def result_simps)

section \<open>The invariant\<close>

definition targets :: "server_db \<Rightarrow> event_ref set" where
  "targets db = set (stored_tombstone_targets db)"

lemma set_map_filter: "set (List.map_filter f xs) = {y. \<exists>x \<in> set xs. f x = Some y}"
  by (induction xs) (auto split: option.split)

definition tombstone_target :: "event \<Rightarrow> event_ref option" where
  "tombstone_target e = (case ev_payload e of MessageDeleted _ target _ \<Rightarrow> Some target | _ \<Rightarrow> None)"

lemma tombstone_target_iff: "tombstone_target e = Some t \<longleftrightarrow> (\<exists>c r. ev_payload e = MessageDeleted c t r)"
  by (simp add: tombstone_target_def split: event_payload.split)

lemma targets_eq: "targets db = {t. \<exists>e \<in> set (load_events_in_order db). \<exists>c r. ev_payload e = MessageDeleted c t r}"
  unfolding targets_def stored_tombstone_targets_def stored_of_type_def payload_type_iff
    tombstone_target_def [symmetric] set_remdups set_map_filter set_filter tombstone_target_iff
  by blast

definition stored_hashes :: "crypto \<Rightarrow> server_db \<Rightarrow> event_hash set" where
  "stored_hashes cr db = event_hash_of cr ` set (load_events_in_order db)"

definition edits :: "server_db \<Rightarrow> event list" where
  "edits db = stored_of_type ''MessageEditedE2ee'' db"

text \<open>What a row becomes under a sequence of sealed edits: the last one that targets it wins.\<close>

definition edited_by :: "event list \<Rightarrow> message_row \<Rightarrow> message_row" where
  "edited_by es m = fold (\<lambda>e m. case ev_payload e of
       MessageEditedE2ee _ target _ _ ct _ \<Rightarrow>
         if mr_event_hash m = Some target then m\<lparr>mr_sealed := Some ct, mr_edited_at := Some (ev_timestamp e)\<rparr> else m
     | _ \<Rightarrow> m) es m"

definition edit_fits :: "event \<Rightarrow> message_row \<Rightarrow> bool" where
  "edit_fits e m \<longleftrightarrow>
     (case ev_payload e of
        MessageEditedE2ee c target _ _ _ _ \<Rightarrow>
          mr_event_hash m = Some target \<longrightarrow> mr_channel m = c \<and> mr_is_e2ee m \<and> mr_author m = ev_author e
      | _ \<Rightarrow> True)"

definition edit_target :: "event \<Rightarrow> event_ref option" where
  "edit_target e = (case ev_payload e of MessageEditedE2ee _ t _ _ _ _ \<Rightarrow> Some t | _ \<Rightarrow> None)"

definition view_ok :: "crypto \<Rightarrow> server_db \<Rightarrow> bool" where
  "view_ok cr db \<longleftrightarrow>
     (\<forall>m \<in> set (db_messages db). \<forall>h. mr_event_hash m = Some h \<longrightarrow>
        h \<in> stored_hashes cr db \<and> h \<notin> targets db \<and> edited_by (edits db) m = m) \<and>
     (\<forall>e \<in> set (stored_content db). event_hash_of cr e \<in> targets db \<or>
        Some (event_hash_of cr e) \<in> mr_event_hash ` set (db_messages db)) \<and>
     targets db \<subseteq> stored_hashes cr db \<and>
     (\<forall>e \<in> set (edits db). edit_target e \<in> Some ` stored_hashes cr db \<and> (\<forall>m \<in> set (db_messages db). edit_fits e m))"

definition server_ok :: "crypto \<Rightarrow> server_state \<Rightarrow> bool" where
  "server_ok cr sv \<longleftrightarrow>
     db_wf (sv_db sv) \<and> events_ordered (sv_db sv) \<and> db_genesis (sv_db sv) = sv_genesis sv \<and>
     build_log_state cr (sv_db sv) = Inr (sv_log sv) \<and> view_ok cr (sv_db sv)"

lemma edited_by_snoc: "edited_by (es @ [e]) m = (case ev_payload e of
       MessageEditedE2ee _ target _ _ ct _ \<Rightarrow>
         if mr_event_hash (edited_by es m) = Some target
         then (edited_by es m)\<lparr>mr_sealed := Some ct, mr_edited_at := Some (ev_timestamp e)\<rparr> else edited_by es m
     | _ \<Rightarrow> edited_by es m)"
  unfolding edited_by_def by simp

lemma edited_by_fields [simp]:
  "mr_event_hash (edited_by es m) = mr_event_hash m" "mr_id (edited_by es m) = mr_id m"
  "mr_channel (edited_by es m) = mr_channel m" "mr_is_e2ee (edited_by es m) = mr_is_e2ee m"
  "mr_author (edited_by es m) = mr_author m"
  by (induction es rule: rev_induct) (auto simp: edited_by_def split: event_payload.split)

lemma edited_by_other:
  "\<forall>e \<in> set es. edit_target e \<noteq> None \<longrightarrow> edit_target e \<noteq> mr_event_hash m \<Longrightarrow> edited_by es m = m"
  by (induction es rule: rev_induct) (auto simp: edited_by_snoc edited_by_def edit_target_def split: event_payload.split)

lemma edited_by_again:
  "edited_by es (m\<lparr>mr_sealed := s, mr_edited_at := t\<rparr>) = (edited_by es m)\<lparr>mr_sealed := s, mr_edited_at := t\<rparr> \<or>
   edited_by es (m\<lparr>mr_sealed := s, mr_edited_at := t\<rparr>) = edited_by es m"
proof (induction es rule: rev_induct)
  case Nil
  then show ?case by (simp add: edited_by_def)
next
  case (snoc e es)
  then show ?case by (cases "ev_payload e") (auto simp: edited_by_snoc)
qed

section \<open>Every accepted submission keeps it\<close>

lemma stored_after:
  assumes "db_events db' = db_events db @ [(n, e)]"
  shows "load_events_in_order db' = load_events_in_order db @ [e]"
    and "targets db' = targets db \<union> {t. \<exists>c r. ev_payload e = MessageDeleted c t r}"
    and "stored_hashes cr db' = insert (event_hash_of cr e) (stored_hashes cr db)"
    and "edits db' = edits db @ (if edit_target e = None then [] else [e])"
    and "stored_content db' = stored_content db @ (if is_content (ev_payload e) then [e] else [])"
proof -
  show l: "load_events_in_order db' = load_events_in_order db @ [e]" by (simp add: load_events_in_order_def assms)
  show "targets db' = targets db \<union> {t. \<exists>c r. ev_payload e = MessageDeleted c t r}" by (auto simp: targets_eq l)
  show "stored_hashes cr db' = insert (event_hash_of cr e) (stored_hashes cr db)" by (simp add: stored_hashes_def l)
  show "edits db' = edits db @ (if edit_target e = None then [] else [e])"
    by (auto simp: edits_def stored_of_type_def l payload_type_iff edit_target_def split: event_payload.split)
  show "stored_content db' = stored_content db @ (if is_content (ev_payload e) then [e] else [])"
    by (simp add: stored_content_eq l)
qed

lemma view_okD:
  assumes "view_ok cr db"
  shows "m \<in> set (db_messages db) \<Longrightarrow> mr_event_hash m = Some h \<Longrightarrow>
      h \<in> stored_hashes cr db \<and> h \<notin> targets db \<and> edited_by (edits db) m = m"
    and "e \<in> set (stored_content db) \<Longrightarrow> event_hash_of cr e \<in> targets db \<or>
      Some (event_hash_of cr e) \<in> mr_event_hash ` set (db_messages db)"
    and "targets db \<subseteq> stored_hashes cr db"
    and "e \<in> set (edits db) \<Longrightarrow> edit_target e \<in> Some ` stored_hashes cr db"
    and "e \<in> set (edits db) \<Longrightarrow> m \<in> set (db_messages db) \<Longrightarrow> edit_fits e m"
  using assms by (auto simp: view_ok_def)

text \<open>A submission that is neither content, nor an edit, nor a deletion.\<close>

lemma view_ok_plain:
  assumes v: "view_ok cr db" and ev: "db_events db' = db_events db @ [(n, e)]" and ms: "db_messages db' = db_messages db"
    and e: "\<not> is_content (ev_payload e)" "edit_target e = None" "\<nexists>c t r. ev_payload e = MessageDeleted c t r"
  shows "view_ok cr db'"
  using v e unfolding view_ok_def stored_after [OF ev] ms by auto

lemma view_ok_content:
  assumes v: "view_ok cr db" and ev: "db_events db' = db_events db @ [(n, e)]"
    and ms: "db_messages db' = db_messages db @ [row]" and row: "payload_row cr e row"
    and fresh: "event_hash_of cr e \<notin> stored_hashes cr db" and e: "is_content (ev_payload e)"
  shows "view_ok cr db'"
proof -
  have no: "edit_target e = None" "\<nexists>c t r. ev_payload e = MessageDeleted c t r"
    using e by (auto simp: is_content_def edit_target_def split: event_payload.splits)
  have h: "mr_event_hash row = Some (event_hash_of cr e)" using row by (simp add: payload_row_def)
  have untargeted: "edit_target e' \<noteq> mr_event_hash row" if "e' \<in> set (edits db)" for e'
    using view_okD(4) [OF v that] fresh h by auto
  have "edited_by (edits db) row = row" by (rule edited_by_other) (use untargeted in blast)
  moreover have "event_hash_of cr e \<notin> targets db" using view_okD(3) [OF v] fresh by blast
  moreover have "edit_fits e' row" if "e' \<in> set (edits db)" for e'
    using untargeted [OF that] h by (auto simp: edit_fits_def edit_target_def split: event_payload.splits)
  ultimately show ?thesis
    using v no e h unfolding view_ok_def stored_after [OF ev] ms by auto
qed

lemma view_ok_edit:
  assumes v: "view_ok cr db" and wf: "db_wf db" and ev: "db_events db' = db_events db @ [(n, e)]"
    and p: "ev_payload e = MessageEditedE2ee c target gen ep ct ah"
    and row: "row \<in> set (db_messages db)" "mr_event_hash row = Some target" "mr_channel row = c" "mr_is_e2ee row"
      "mr_author row = ev_author e"
    and ms: "db_messages db' = map (\<lambda>m. if mr_id m = mr_id row
            then m\<lparr>mr_sealed := Some ct, mr_edited_at := Some (ev_timestamp e)\<rparr> else m) (db_messages db)"
  shows "view_ok cr db'"
proof -
  let ?g = "\<lambda>m. if mr_id m = mr_id row then m\<lparr>mr_sealed := Some ct, mr_edited_at := Some (ev_timestamp e)\<rparr> else m"
  have tgt: "edit_target e = Some target" using p by (simp add: edit_target_def)
  have the_row: "m = row" if "m \<in> set (db_messages db)" "mr_id m = mr_id row \<or> mr_event_hash m = Some target" for m
    using that db_wfD(4,5) [OF wf that(1) row(1)] row(2) by blast
  have h: "mr_event_hash (?g m) = mr_event_hash m" for m by simp
  have final: "edited_by (edits db @ [e]) (?g m) = ?g m" if m: "m \<in> set (db_messages db)" "mr_event_hash m = Some h" for m h
  proof (cases "mr_id m = mr_id row")
    case True
    with the_row m(1) have "m = row" by blast
    have old: "edited_by (edits db) row = row" using view_okD(1) [OF v row(1,2)] by blast
    from edited_by_again [where es = "edits db" and m = row and s = "Some ct" and t = "Some (ev_timestamp e)"] old \<open>m = row\<close> row(2) p
    show ?thesis by (auto simp: edited_by_snoc)
  next
    case False
    then have "mr_event_hash m \<noteq> Some target" using the_row m(1) by blast
    with False view_okD(1) [OF v m] p show ?thesis by (simp add: edited_by_snoc)
  qed
  have fits: "edit_fits e' (?g m)" if "e' \<in> set (edits db @ [e])" "m \<in> set (db_messages db)" for e' m
  proof -
    have "edit_fits e' m"
    proof (cases "e' = e")
      case True
      show ?thesis
      proof (cases "mr_event_hash m = Some target")
        case True
        with the_row that(2) have "m = row" by blast
        with row p \<open>e' = e\<close> show ?thesis by (simp add: edit_fits_def)
      qed (use p \<open>e' = e\<close> in \<open>simp add: edit_fits_def\<close>)
    qed (use that view_okD(5) [OF v] in auto)
    then show ?thesis by (auto simp: edit_fits_def split: event_payload.splits)
  qed
  have no: "\<nexists>c t r. ev_payload e = MessageDeleted c t r" "\<not> is_content (ev_payload e)" using p by (simp_all add: is_content_def)
  have stored: "target \<in> stored_hashes cr db" using view_okD(1) [OF v row(1,2)] by blast
  have img: "mr_event_hash ` set (db_messages db') = mr_event_hash ` set (db_messages db)"
    unfolding ms set_map image_image by (rule image_cong) simp_all
  have ed: "edits db' = edits db @ [e]" using stored_after(4) [OF ev] tgt by simp
  have "\<forall>m \<in> set (db_messages db'). \<forall>h. mr_event_hash m = Some h \<longrightarrow>
      h \<in> stored_hashes cr db' \<and> h \<notin> targets db' \<and> edited_by (edits db') m = m"
  proof (intro ballI allI impI)
    fix m' h
    assume m': "m' \<in> set (db_messages db')" and h': "mr_event_hash m' = Some h"
    then obtain m where m: "m \<in> set (db_messages db)" and g: "m' = ?g m" unfolding ms set_map by blast
    have hm: "mr_event_hash m = Some h" using h' unfolding g h .
    have "edited_by (edits db') m' = m'" unfolding ed g by (rule final [OF m hm])
    with view_okD(1) [OF v m hm] no(1)
    show "h \<in> stored_hashes cr db' \<and> h \<notin> targets db' \<and> edited_by (edits db') m' = m'"
      unfolding stored_after(2,3) [OF ev] by auto
  qed
  moreover have "\<forall>e' \<in> set (stored_content db'). event_hash_of cr e' \<in> targets db' \<or>
        Some (event_hash_of cr e') \<in> mr_event_hash ` set (db_messages db')"
    unfolding img using view_okD(2) [OF v] no by (auto simp: stored_after(2,5) [OF ev])
  moreover have "targets db' \<subseteq> stored_hashes cr db'" using view_okD(3) [OF v] no(1) by (auto simp: stored_after(2,3) [OF ev])
  moreover have "\<forall>e' \<in> set (edits db'). edit_target e' \<in> Some ` stored_hashes cr db' \<and> (\<forall>m \<in> set (db_messages db'). edit_fits e' m)"
    unfolding ed stored_after(3) [OF ev] ms set_map ball_simps
    using view_okD(4) [OF v] fits stored tgt by auto
  ultimately show ?thesis unfolding view_ok_def by blast
qed

lemma view_ok_delete:
  assumes v: "view_ok cr db" and wf: "db_wf db" and ev: "db_events db' = db_events db @ [(n, e)]"
    and p: "ev_payload e = MessageDeleted c target r"
    and row: "row \<in> set (db_messages db)" "mr_event_hash row = Some target"
    and ms: "db_messages db' = filter (\<lambda>m. mr_id m \<noteq> mr_id row) (db_messages db)"
  shows "view_ok cr db'"
proof -
  have no: "\<not> is_content (ev_payload e)" "edit_target e = None" using p by (simp_all add: is_content_def edit_target_def)
  have tg: "targets db' = insert target (targets db)" using stored_after(2) [OF ev] p by auto
  have gone: "mr_event_hash m \<noteq> Some target" if "m \<in> set (db_messages db')" for m
  proof
    assume h: "mr_event_hash m = Some target"
    from that have "m \<in> set (db_messages db)" "mr_id m \<noteq> mr_id row" by (simp_all add: ms)
    with db_wfD(4) [OF wf _ row(1) h row(2)] show False by blast
  qed
  have stays: "m \<in> set (db_messages db')" if "m \<in> set (db_messages db)" "mr_event_hash m \<noteq> Some target" for m
    using that row(2) db_wfD(5) [OF wf that(1) row(1)] by (auto simp: ms)
  have stored: "target \<in> stored_hashes cr db" using view_okD(1) [OF v row] by blast
  have sub: "set (db_messages db') \<subseteq> set (db_messages db)" by (auto simp: ms)
  have "\<forall>m \<in> set (db_messages db'). \<forall>h. mr_event_hash m = Some h \<longrightarrow>
      h \<in> stored_hashes cr db' \<and> h \<notin> targets db' \<and> edited_by (edits db') m = m"
  proof (intro ballI allI impI)
    fix m h
    assume m: "m \<in> set (db_messages db')" and h: "mr_event_hash m = Some h"
    with gone [OF m] have "h \<noteq> target" by auto
    moreover have "m \<in> set (db_messages db)" using m sub by blast
    ultimately show "h \<in> stored_hashes cr db' \<and> h \<notin> targets db' \<and> edited_by (edits db') m = m"
      using view_okD(1) [OF v _ h] no by (simp add: tg stored_after(3,4) [OF ev])
  qed
  moreover have "\<forall>e' \<in> set (stored_content db'). event_hash_of cr e' \<in> targets db' \<or>
        Some (event_hash_of cr e') \<in> mr_event_hash ` set (db_messages db')"
  proof
    fix e'
    assume "e' \<in> set (stored_content db')"
    then have "e' \<in> set (stored_content db)" using no by (simp add: stored_after(5) [OF ev])
    with view_okD(2) [OF v] consider "event_hash_of cr e' \<in> targets db"
      | m where "m \<in> set (db_messages db)" "mr_event_hash m = Some (event_hash_of cr e')" by (metis imageE)
    then show "event_hash_of cr e' \<in> targets db' \<or> Some (event_hash_of cr e') \<in> mr_event_hash ` set (db_messages db')"
    proof cases
      case 2
      show ?thesis
      proof (cases "event_hash_of cr e' = target")
        case False
        with 2 stays [OF 2(1)] show ?thesis by (metis image_eqI option.inject)
      qed (simp add: tg)
    qed (simp add: tg)
  qed
  moreover have "targets db' \<subseteq> stored_hashes cr db'"
    using view_okD(3) [OF v] stored by (auto simp: tg stored_after(3) [OF ev])
  moreover have "\<forall>e' \<in> set (edits db'). edit_target e' \<in> Some ` stored_hashes cr db' \<and> (\<forall>m \<in> set (db_messages db'). edit_fits e' m)"
    using view_okD(4,5) [OF v] sub no by (auto simp: stored_after(3,4) [OF ev])
  ultimately show ?thesis unfolding view_ok_def by blast
qed

section \<open>One submission keeps the server well-formed\<close>

lemma view_ok_submit:
  assumes v: "view_ok cr db" and wf: "db_wf db" and tx: "ingest_transaction cr owner e db = Inr (res, db')"
  shows "view_ok cr db'"
proof -
  note tx' = ingest_transaction_Inr [OF tx wf]
  note fresh = tx'(1) [folded stored_hashes_def] and ev = tx'(3) and eff = tx'(7)
  consider (content) "is_content (ev_payload e)"
    | (edit) c target gen ep ct ah where "ev_payload e = MessageEditedE2ee c target gen ep ct ah"
    | (delete) c target r where "ev_payload e = MessageDeleted c target r"
    | (plain) "\<not> is_content (ev_payload e)" "edit_target e = None" "\<nexists>c t r. ev_payload e = MessageDeleted c t r"
    by (cases "ev_payload e") (auto simp: is_content_def edit_target_def)
  then show ?thesis
  proof cases
    case content
    with eff obtain row where "db_messages db' = db_messages db @ [row]" "payload_row cr e row"
      by (auto simp: is_content_def split: event_payload.splits)
    then show ?thesis by (rule view_ok_content [OF v ev _ _ fresh content])
  next
    case edit
    from eff edit obtain row where row: "row \<in> set (db_messages db)" "mr_event_hash row = Some target" "mr_channel row = c"
      "mr_is_e2ee row" "mr_author row = ev_author e" and ms: "db_messages db' = map (\<lambda>m. if mr_id m = mr_id row
            then m\<lparr>mr_sealed := Some ct, mr_edited_at := Some (ev_timestamp e)\<rparr> else m) (db_messages db)" by auto
    show ?thesis by (rule view_ok_edit [OF v wf ev edit row ms])
  next
    case delete
    from eff delete obtain row where "row \<in> set (db_messages db)" "mr_event_hash row = Some target"
      "db_messages db' = filter (\<lambda>m. mr_id m \<noteq> mr_id row) (db_messages db)" by auto
    then show ?thesis by (rule view_ok_delete [OF v wf ev delete])
  next
    case plain
    then have "db_messages db' = db_messages db" using eff by (auto simp: edit_target_def split: event_payload.splits)
    then show ?thesis by (rule view_ok_plain [OF v ev _ plain])
  qed
qed

lemma events_ordered_snoc:
  "events_ordered db \<Longrightarrow> db_events db' = db_events db @ [(db_last_event db + 1, e)] \<Longrightarrow>
     db_last_event db' = db_last_event db + 1 \<Longrightarrow> events_ordered db'"
  by (force simp: events_ordered_def sorted_wrt_append)

lemma build_log_state_snoc:
  assumes "build_log_state cr db = Inr (Some st)" and "log_apply cr st e = Inr st'"
    and "db_events db' = db_events db @ [(n, e)]" and "db_genesis db' = db_genesis db"
  shows "build_log_state cr db' = Inr (Some st')"
proof -
  from assms(1) obtain g where g: "db_genesis db = Some g" "replay cr g (load_events_in_order db) = Inr st"
    by (auto simp: build_log_state_def load_genesis_def split: option.splits sum.splits)
  have "replay cr g (load_events_in_order db @ [e]) = Inr st'"
    unfolding replay_snoc using g(2) assms(2) by blast
  then show ?thesis using g(1) assms(3,4) by (simp add: build_log_state_def load_genesis_def load_events_in_order_def)
qed

lemma server_ok_step:
  assumes ok: "server_ok cr sv" and step: "submit_step cr sv te = Inr sv'"
  shows "server_ok cr sv'"
proof -
  obtain now e where te: "te = (now, e)" by (cases te)
  from step obtain ns os where "submit_event cr now sv e = Inr (sv', ns, os)" by (auto simp: submit_step_Inr te)
  then obtain st trial res db' where s: "sv_log sv = Some st" "log_apply cr st e = Inr trial"
    "ingest_transaction cr (map_option g_owner (sv_genesis sv)) e (sv_db sv) = Inr (res, db')"
    "sv' = sv\<lparr>sv_log := Some trial, sv_db := db'\<rparr>" by (rule submit_event_Inr)
  note k = ok [unfolded server_ok_def]
  from k have wf: "db_wf (sv_db sv)" by blast
  note db' = ingest_transaction_Inr(2-5) [OF s(3) wf]
  have "build_log_state cr db' = Inr (Some trial)"
    by (rule build_log_state_snoc [OF _ s(2) db'(2,4)]) (use k s(1) in simp)
  moreover have "view_ok cr db'" by (rule view_ok_submit [OF _ wf s(3)]) (use k in blast)
  moreover have "events_ordered db'" by (rule events_ordered_snoc [OF _ db'(2,3)]) (use k in blast)
  ultimately show ?thesis using db'(1,4) k s(4) by (simp add: server_ok_def)
qed

lemma server_ok_run: "submit_all cr sv es = Inr sv' \<Longrightarrow> server_ok cr sv \<Longrightarrow> server_ok cr sv'"
  by (rule submissions.run_invariant [where I = "server_ok cr"]) (rule server_ok_step)

section \<open>Tombstones of the fold and of the stored log\<close>

lemma apply_tombstones:
  assumes "log_apply cr st e = Inr st'"
  shows "ls_tombstones st' = ls_tombstones st \<union> {t. \<exists>c r. ev_payload e = MessageDeleted c t r}"
  using assms
proof (cases rule: log_apply_cases)
  case (effect k st1)
  with effect_channels(3) [OF effect(3)] show ?thesis by (cases "ev_payload e") auto
qed auto

lemma replay_tombstones:
  "replay cr g es = Inr st \<Longrightarrow> ls_tombstones st = {t. \<exists>e \<in> set es. \<exists>c r. ev_payload e = MessageDeleted c t r}"
proof (induction es arbitrary: st rule: rev_induct)
  case Nil
  then show ?case by (auto simp: replay_def from_genesis_def)
next
  case (snoc e es)
  then obtain m where m: "replay cr g es = Inr m" "log_apply cr m e = Inr st" by (auto simp: replay_snoc)
  show ?case unfolding apply_tombstones [OF m(2)] snoc.IH [OF m(1)] by auto
qed

lemma server_tombstones:
  assumes "server_ok cr sv" and "sv_log sv = Some st"
  shows "ls_tombstones st = targets (sv_db sv)"
  using assms replay_tombstones by (auto simp: server_ok_def build_log_state_def targets_eq split: option.splits sum.splits)

end
