(* ===== verification/ServerRuns.thy ===== *)
theory ServerRuns
  imports SubmitInv
begin

text \<open>
  The life of a server: it starts from a fresh genesis, takes submissions, the server-authored
  writes that go around the log (posts, bot posts, edits, pins, widgets, channel creation and
  deletion), and restarts.  Every state it can reach satisfies the invariant of \<open>SubmitInv\<close>
  and keeps the channel-class column a mirror of the log.
\<close>

section \<open>Channel rows outside the log (channels.rs)\<close>

text \<open>The id is the one SQLite assigns; \<open>content_class\<close> takes its column default.\<close>

definition create_channel :: "nat \<Rightarrow> string \<Rightarrow> string \<Rightarrow> int \<Rightarrow> server_db \<Rightarrow> server_db" where
  "create_channel cid name kind position db =
     db\<lparr>db_channels := db_channels db @
       [\<lparr>cr_id = cid, cr_name = name, cr_type = kind, cr_position = position, cr_deleted = False,
         cr_content_class = ''plaintext''\<rparr>]\<rparr>"

definition soft_delete_channel :: "nat \<Rightarrow> server_db \<Rightarrow> server_db" where
  "soft_delete_channel cid db =
     db\<lparr>db_channels := map (\<lambda>r. if cr_id r = cid then r\<lparr>cr_deleted := True\<rparr> else r) (db_channels db)\<rparr>"

section \<open>Reachable states\<close>

definition fresh_db :: "genesis \<Rightarrow> server_db" where
  "fresh_db g =
     \<lparr>db_genesis = Some g, db_events = [], db_channels = [], db_messages = [], db_fts = [], db_files = [],
      db_attachments = [], db_reactions = [], db_disk = {}, db_last_event = 0, db_last_message = 0,
      db_last_attachment = 0\<rparr>"

definition fresh_server :: "crypto \<Rightarrow> genesis \<Rightarrow> server_state" where
  "fresh_server cr g = \<lparr>sv_genesis = Some g, sv_log = Some (from_genesis cr g), sv_db = fresh_db g\<rparr>"

inductive server_step :: "crypto \<Rightarrow> server_state \<Rightarrow> server_state \<Rightarrow> bool" for cr sv where
  submit: "submit_step cr sv te = Inr sv' \<Longrightarrow> server_step cr sv sv'"
| restart: "startup cr (sv_db sv) = Inr sv' \<Longrightarrow> server_step cr sv sv'"
| post: "insert_message now (sv_db sv) c author content reply_to = Inr (mid, db) \<Longrightarrow> server_step cr sv (sv\<lparr>sv_db := db\<rparr>)"
| bot_post: "insert_message_with_author_name now (sv_db sv) c author content reply_to nm badge = Inr (mid, db) \<Longrightarrow>
    server_step cr sv (sv\<lparr>sv_db := db\<rparr>)"
| edit: "edit_message now mid content (sv_db sv) = Inr db \<Longrightarrow> server_step cr sv (sv\<lparr>sv_db := db\<rparr>)"
| pin: "server_step cr sv (sv\<lparr>sv_db := pin_message mid (sv_db sv)\<rparr>)"
| unpin: "server_step cr sv (sv\<lparr>sv_db := unpin_message mid (sv_db sv)\<rparr>)"
| widget: "server_step cr sv (sv\<lparr>sv_db := set_widget mid json (sv_db sv)\<rparr>)"
| new_channel: "find_channel (sv_db sv) cid = None \<Longrightarrow>
    server_step cr sv (sv\<lparr>sv_db := create_channel cid name kind pos (sv_db sv)\<rparr>)"
| drop_channel: "server_step cr sv (sv\<lparr>sv_db := soft_delete_channel cid (sv_db sv)\<rparr>)"

inductive reachable :: "crypto \<Rightarrow> genesis \<Rightarrow> server_state \<Rightarrow> bool" for cr g where
  fresh: "reachable cr g (fresh_server cr g)"
| step: "reachable cr g sv \<Longrightarrow> server_step cr sv sv' \<Longrightarrow> reachable cr g sv'"

text \<open>Some legacy operations are the point of the last section: a deletion of a log-derived row.\<close>

inductive_cases server_stepE: "server_step cr sv sv'"

section \<open>The mirror\<close>

definition mirror_ok :: "server_db \<Rightarrow> bool" where
  "mirror_ok db \<longleftrightarrow> (\<forall>e \<in> set (load_events_in_order db).
     case ev_payload e of
       ChannelCreated c _ _ kl _ \<Rightarrow> map_option cr_content_class (find_channel db c) = Some (class_string kl)
     | _ \<Rightarrow> True)"

lemma mirror_ok_channels:
  assumes "mirror_ok db" and "load_events_in_order db' = load_events_in_order db"
    and "\<And>c s. map_option cr_content_class (find_channel db c) = Some s \<Longrightarrow>
      map_option cr_content_class (find_channel db' c) = Some s"
  shows "mirror_ok db'"
  unfolding mirror_ok_def
proof
  fix e
  assume "e \<in> set (load_events_in_order db')"
  with assms(1,2) have "case ev_payload e of
       ChannelCreated c _ _ kl _ \<Rightarrow> map_option cr_content_class (find_channel db c) = Some (class_string kl)
     | _ \<Rightarrow> True" by (simp add: mirror_ok_def)
  then show "case ev_payload e of
       ChannelCreated c _ _ kl _ \<Rightarrow> map_option cr_content_class (find_channel db' c) = Some (class_string kl)
     | _ \<Rightarrow> True" by (cases "ev_payload e") (simp_all add: assms(3))
qed

lemma find_channel_snoc:
  assumes "db_channels db' = db_channels db @ [r]"
  shows "find_channel db' c = (case find_channel db c of None \<Rightarrow> if cr_id r = c then Some r else None | Some x \<Rightarrow> Some x)"
  unfolding find_channel_def assms find_snoc by (rule refl)

lemma mirror_ok_submit:
  assumes m: "mirror_ok db" and wf: "db_wf db" and tx: "ingest_transaction cr owner e db = Inr (res, db')"
  shows "mirror_ok db'"
proof -
  note tx' = ingest_transaction_Inr(3,6) [OF tx wf]
  have ev: "load_events_in_order db' = load_events_in_order db @ [e]"
    by (simp add: load_events_in_order_def tx'(1))
  have keep: "map_option cr_content_class (find_channel db' c) = Some s"
    if "map_option cr_content_class (find_channel db c) = Some s" for c s
  proof (cases "\<exists>c' n k kl par. ev_payload e = ChannelCreated c' n k kl par")
    case True
    then obtain c' n k kl par where p: "ev_payload e = ChannelCreated c' n k kl par" by blast
    from tx'(2) obtain r where "db_channels db' = db_channels db @ [r]" by (auto simp: p)
    from find_channel_snoc [OF this] that show ?thesis by (auto split: option.splits)
  next
    case False
    with tx'(2) have "db_channels db' = db_channels db" by (auto split: event_payload.splits)
    with that show ?thesis by (simp add: find_channel_def)
  qed
  have old: "mirror_ok (db'\<lparr>db_events := db_events db\<rparr>)"
    by (rule mirror_ok_channels [OF m]) (use keep in \<open>simp_all add: load_events_in_order_def find_channel_def\<close>)
  have new: "case ev_payload e of
       ChannelCreated c _ _ kl _ \<Rightarrow> map_option cr_content_class (find_channel db' c) = Some (class_string kl)
     | _ \<Rightarrow> True"
  proof (cases "\<exists>c' n k kl par. ev_payload e = ChannelCreated c' n k kl par")
    case True
    then obtain c n k kl par where p: "ev_payload e = ChannelCreated c n k kl par" by blast
    from tx'(2) obtain r where r: "db_channels db' = db_channels db @ [r]" "cr_id r = c" "find_channel db c = None"
      "cr_content_class r = class_string kl" by (auto simp: p)
    from find_channel_snoc [OF r(1), of c] r show ?thesis by (simp add: p)
  qed (auto split: event_payload.split)
  have fc: "find_channel (db'\<lparr>db_events := db_events db\<rparr>) = find_channel db'"
    by (simp add: fun_eq_iff find_channel_def)
  have le: "load_events_in_order (db'\<lparr>db_events := db_events db\<rparr>) = load_events_in_order db"
    by (simp add: load_events_in_order_def)
  from old new show ?thesis unfolding mirror_ok_def ev le fc by simp
qed

section \<open>The passes of a restart\<close>

text \<open>With the mirror intact the class repair changes nothing.\<close>

lemma reconcile_channel_classes_id:
  assumes "mirror_ok db"
  shows "reconcile_channel_classes db = (0, db)"
proof -
  have "fold reconcile_class_of es (0, db) = (0, db)" if "set es \<subseteq> set (load_events_in_order db)" for es
    using that
  proof (induction es)
    case (Cons e es)
    then have "case ev_payload e of
       ChannelCreated c _ _ kl _ \<Rightarrow> map_option cr_content_class (find_channel db c) = Some (class_string kl)
     | _ \<Rightarrow> True" using assms by (auto simp: mirror_ok_def)
    then have "reconcile_class_of e (0, db) = (0, db)"
      by (cases "ev_payload e") (auto simp: reconcile_class_of_def)
    with Cons show ?case by simp
  qed simp
  then show ?thesis by (simp add: reconcile_channel_classes_def load_events_in_order_def)
qed

lemma fold_result_id: "(\<And>x. x \<in> set xs \<Longrightarrow> step s x = Inr s) \<Longrightarrow> fold_result step s xs = Inr s"
  by (induction xs) simp_all

text \<open>Pass 1: nothing is missing that is not deleted.\<close>

lemma derive_missing_noop:
  assumes v: "view_ok cr db" and dead: "\<And>h. h \<in> targets db \<Longrightarrow> dead h"
  shows "fold_result (derive_missing cr dead) (0, db) (missing_content cr db) = Inr (0, db)"
proof (rule fold_result_id)
  fix e
  assume "e \<in> set (missing_content cr db)"
  then have e: "e \<in> set (stored_content db)" "find_by_hash db (event_hash_of cr e) = None"
    by (simp_all add: missing_content_def)
  from e(2) have "Some (event_hash_of cr e) \<notin> mr_event_hash ` set (db_messages db)"
    unfolding find_by_hash_None by fastforce
  with view_okD(2) [OF v e(1)] dead have "dead (event_hash_of cr e)" by blast
  then show "derive_missing cr dead (0, db) e = Inr (0, db)" by (simp add: derive_missing_def)
qed

text \<open>Pass 2: nothing deleted is present.\<close>

lemma sweep_noop:
  assumes v: "view_ok cr db"
  shows "fold_result sweep_target db (stored_tombstone_targets db) = Inr db"
proof (rule fold_result_id)
  fix t
  assume "t \<in> set (stored_tombstone_targets db)"
  then have "find_by_hash db t = None"
    using view_okD(1) [OF v] unfolding find_by_hash_None targets_def by blast
  then show "sweep_target db t = Inr db" by (simp add: sweep_target_def)
qed

text \<open>Pass 3: replaying the edits in order takes every row through its history, back to where it is.\<close>

lemma edited_by_old: "edited_by [] m = m"
  by (simp add: edited_by_def)

lemma replay_edit_step:
  assumes wf: "db_wf db" and e: "edit_target e = Some t"
    and fits: "\<forall>m \<in> set (db_messages db). edit_fits e m"
    and live: "\<forall>m \<in> set (db_messages db). \<forall>h. mr_event_hash m = Some h \<longrightarrow> \<not> dead h"
  shows "\<exists>db'. replay_sealed_edit dead db e = Inr db' \<and> db_wf db' \<and>
    db' = db\<lparr>db_messages := map (edited_by [e]) (db_messages db)\<rparr>"
proof -
  from e obtain c gen ep ct ah where p: "ev_payload e = MessageEditedE2ee c t gen ep ct ah"
    by (auto simp: edit_target_def split: event_payload.splits)
  have one: "edited_by [e] m = (if mr_event_hash m = Some t
      then m\<lparr>mr_sealed := Some ct, mr_edited_at := Some (ev_timestamp e)\<rparr> else m)" for m
    by (simp add: edited_by_def p)
  show ?thesis
  proof (cases "find_by_hash db t")
    case None
    then have "map (edited_by [e]) (db_messages db) = db_messages db"
      unfolding find_by_hash_None by (simp add: one map_idI)
    then have "replay_sealed_edit dead db e = Inr db" "db = db\<lparr>db_messages := map (edited_by [e]) (db_messages db)\<rparr>"
      by (simp_all add: replay_sealed_edit_def p sealed_edit_target_def None)
    with wf show ?thesis by blast
  next
    case (Some row)
    then have row: "row \<in> set (db_messages db)" "mr_event_hash row = Some t" by (simp_all add: find_by_hash_Some [OF wf])
    from fits row p have fit: "mr_channel row = c" "mr_is_e2ee row" "mr_author row = ev_author e"
      by (auto simp: edit_fits_def)
    have res: "resolve db c = ClassE2ee" using db_wfD(3) [OF wf row(1)] fit by (simp add: row_ok_def)
    have "\<not> dead t" using live row by blast
    have found: "find_message db (mr_id row) = Some row" using row(1) wf by (simp add: find_message_Some)
    let ?db' = "update_message (mr_id row) (\<lambda>m. m\<lparr>mr_sealed := Some ct, mr_edited_at := Some (ev_timestamp e)\<rparr>) db"
    have up: "update_sealed_row (mr_id row) ct (ev_timestamp e) db = Inr ?db'"
      using fit res by (simp add: update_sealed_row_def found require_e2ee_def)
    have "replay_sealed_edit dead db e = Inr ?db'"
      using fit \<open>\<not> dead t\<close> by (simp add: replay_sealed_edit_def p sealed_edit_target_def Some up)
    moreover have "db_wf ?db'" by (rule db_wf_update_sealed_row [OF up wf])
    moreover have "?db' = db\<lparr>db_messages := map (edited_by [e]) (db_messages db)\<rparr>"
    proof -
      have "mr_id m = mr_id row \<longleftrightarrow> mr_event_hash m = Some t" if "m \<in> set (db_messages db)" for m
        using db_wfD(4) [OF wf that row(1) _ row(2)] db_wfD(5) [OF wf that row(1)] row(2) by blast
      then show ?thesis by (simp add: update_message_def one)
    qed
    ultimately show ?thesis by blast
  qed
qed

lemma edit_fits_edited [simp]: "edit_fits e (edited_by es m) = edit_fits e m"
  by (simp add: edit_fits_def split: event_payload.split)

lemma replay_edits:
  assumes "db_wf db" and "\<forall>e \<in> set es. edit_target e \<noteq> None"
    and "\<forall>e \<in> set es. \<forall>m \<in> set (db_messages db). edit_fits e m"
    and "\<forall>m \<in> set (db_messages db). \<forall>h. mr_event_hash m = Some h \<longrightarrow> \<not> dead h"
  shows "fold_result (replay_sealed_edit dead) db es = Inr (db\<lparr>db_messages := map (edited_by es) (db_messages db)\<rparr>)"
  using assms
proof (induction es arbitrary: db)
  case Nil
  then show ?case by (simp add: edited_by_old map_idI)
next
  case (Cons e es)
  from Cons.prems(2) obtain t where t: "edit_target e = Some t" by auto
  from replay_edit_step [OF Cons.prems(1) t, of dead] Cons.prems(3,4) obtain db' where
    st: "replay_sealed_edit dead db e = Inr db'" and wf: "db_wf db'"
    and db': "db' = db\<lparr>db_messages := map (edited_by [e]) (db_messages db)\<rparr>" by auto
  have "fold_result (replay_sealed_edit dead) db' es = Inr (db'\<lparr>db_messages := map (edited_by es) (db_messages db')\<rparr>)"
    by (rule Cons.IH [OF wf]) (use Cons.prems(2,3,4) in \<open>auto simp: db'\<close>)
  moreover have "edited_by es (edited_by [e] m) = edited_by (e # es) m" for m by (simp add: edited_by_def)
  ultimately show ?case using st by (simp add: db')
qed

lemma view_row_final:
  assumes "view_ok cr db" and "m \<in> set (db_messages db)"
  shows "edited_by (edits db) m = m"
proof (cases "mr_event_hash m")
  case None
  then show ?thesis by (intro edited_by_other) auto
qed (use view_okD(1) [OF assms] in blast)

lemma replay_edits_noop:
  assumes v: "view_ok cr db" and wf: "db_wf db" and dead: "\<And>h. dead h \<Longrightarrow> h \<in> targets db"
  shows "replay_sealed_edits dead db = Inr db"
proof -
  have "fold_result (replay_sealed_edit dead) db (edits db) = Inr (db\<lparr>db_messages := map (edited_by (edits db)) (db_messages db)\<rparr>)"
  proof (rule replay_edits [OF wf])
    show "\<forall>e \<in> set (edits db). edit_target e \<noteq> None" using view_okD(4) [OF v] by fastforce
  qed (use view_okD(1,5) [OF v] dead in blast)+
  also have "map (edited_by (edits db)) (db_messages db) = db_messages db"
    using view_row_final [OF v] by (simp add: map_idI)
  finally show ?thesis by (simp add: replay_sealed_edits_def edits_def)
qed

text \<open>Pass 4 only fills in missing reply links.\<close>

definition relinked :: "server_db \<Rightarrow> server_db \<Rightarrow> bool" where
  "relinked db db' \<longleftrightarrow> (\<exists>g. db' = db\<lparr>db_messages := map g (db_messages db)\<rparr> \<and>
     (\<forall>m \<in> set (db_messages db). g m = m \<or> mr_reply_to m = None \<and> (\<exists>t. g m = m\<lparr>mr_reply_to := Some t\<rparr>)))"

lemma repair_reply_link_relinked:
  assumes "relinked db (snd acc)" and "\<forall>m \<in> set (db_messages db). mr_id m = snd row \<longrightarrow> mr_reply_to m = None"
  shows "relinked db (snd (repair_reply_link row acc))"
proof (cases "snd (repair_reply_link row acc) = snd acc")
  case False
  then obtain t where t: "snd (repair_reply_link row acc) = update_message (snd row) (\<lambda>m. m\<lparr>mr_reply_to := Some t\<rparr>) (snd acc)"
    by (auto simp: repair_reply_link_def split: option.splits prod.splits)
  from assms(1) obtain g where g: "snd acc = db\<lparr>db_messages := map g (db_messages db)\<rparr>"
    and step: "\<And>m. m \<in> set (db_messages db) \<Longrightarrow> g m = m \<or> mr_reply_to m = None \<and> (\<exists>t. g m = m\<lparr>mr_reply_to := Some t\<rparr>)"
    by (auto simp: relinked_def)
  let ?h = "\<lambda>m. if mr_id (g m) = snd row then (g m)\<lparr>mr_reply_to := Some t\<rparr> else g m"
  have "snd (repair_reply_link row acc) = db\<lparr>db_messages := map ?h (db_messages db)\<rparr>"
    by (simp add: t g update_message_def)
  moreover have "?h m = m \<or> mr_reply_to m = None \<and> (\<exists>t. ?h m = m\<lparr>mr_reply_to := Some t\<rparr>)" if "m \<in> set (db_messages db)" for m
    using step [OF that] assms(2) that by auto
  ultimately show ?thesis unfolding relinked_def by blast
qed (use assms(1) in simp)

lemma relinked_refl: "relinked db db"
  unfolding relinked_def by (rule exI [of _ id]) simp

lemma repair_reply_links_relinked:
  assumes wf: "db_wf db"
  shows "relinked db (snd (repair_reply_links cr db))"
proof -
  have "relinked db (snd (fold repair_reply_link rows acc))"
    if "relinked db (snd acc)" "\<forall>r \<in> set rows. \<forall>m \<in> set (db_messages db). mr_id m = snd r \<longrightarrow> mr_reply_to m = None" for rows acc
    using that
  proof (induction rows arbitrary: acc)
    case (Cons r rows)
    then show ?case using repair_reply_link_relinked [OF Cons.prems(1), of r] by simp
  qed simp
  moreover have "mr_reply_to m = None" if r: "r \<in> set (unlinked_rows cr db)" and m: "m \<in> set (db_messages db)" "mr_id m = snd r" for r m
  proof -
    from r obtain e row where "find_by_hash db (event_hash_of cr e) = Some row" "mr_reply_to row = None" "r = (e, mr_id row)"
      by (auto simp: unlinked_rows_def set_map_filter split: option.splits if_splits)
    with m db_wfD(5) [OF wf m(1), of row] show ?thesis by (auto simp: find_by_hash_Some [OF wf])
  qed
  ultimately show ?thesis unfolding repair_reply_links_def using relinked_refl by auto
qed

section \<open>Where a row comes from\<close>

definition row_of_event :: "crypto \<Rightarrow> event \<Rightarrow> message_row \<Rightarrow> bool" where
  "row_of_event cr e m \<longleftrightarrow>
     mr_event_hash m = Some (event_hash_of cr e) \<and> mr_author m = ev_author e \<and> mr_timestamp m = ev_timestamp e \<and>
     (case ev_payload e of
        MessagePosted c _ _ _ \<Rightarrow> mr_channel m = c \<and> \<not> mr_is_e2ee m
      | MessagePostedE2ee c _ _ _ _ _ _ \<Rightarrow> mr_channel m = c \<and> mr_is_e2ee m
      | _ \<Rightarrow> False)"

definition origin_ok :: "crypto \<Rightarrow> server_db \<Rightarrow> bool" where
  "origin_ok cr db \<longleftrightarrow> (\<forall>m \<in> set (db_messages db). mr_event_hash m \<noteq> None \<longrightarrow>
     (\<exists>e \<in> set (load_events_in_order db). row_of_event cr e m))"

text \<open>What an update of a row must not touch.\<close>

definition same_origin :: "message_row \<Rightarrow> message_row \<Rightarrow> bool" where
  "same_origin m m' \<longleftrightarrow> mr_event_hash m' = mr_event_hash m \<and> mr_author m' = mr_author m \<and>
     mr_timestamp m' = mr_timestamp m \<and> mr_channel m' = mr_channel m \<and> mr_is_e2ee m' = mr_is_e2ee m"

lemma same_origin_refl [simp]: "same_origin m m"
  by (simp add: same_origin_def)

lemma row_of_same_origin: "same_origin m m' \<Longrightarrow> row_of_event cr e m \<Longrightarrow> row_of_event cr e m'"
  unfolding same_origin_def row_of_event_def by (elim conjE) (simp only:)

lemma origin_ok_from:
  assumes ok: "origin_ok cr db" and ev: "set (load_events_in_order db) \<subseteq> set (load_events_in_order db')"
    and from_old: "\<And>m'. m' \<in> set (db_messages db') \<Longrightarrow> mr_event_hash m' \<noteq> None \<Longrightarrow>
      (\<exists>m \<in> set (db_messages db). same_origin m m') \<or> (\<exists>e \<in> set (load_events_in_order db'). row_of_event cr e m')"
  shows "origin_ok cr db'"
  unfolding origin_ok_def
proof (intro ballI impI)
  fix m'
  assume m': "m' \<in> set (db_messages db')" and h: "mr_event_hash m' \<noteq> None"
  from from_old [OF this] show "\<exists>e \<in> set (load_events_in_order db'). row_of_event cr e m'"
  proof
    assume "\<exists>m \<in> set (db_messages db). same_origin m m'"
    then obtain m where m: "m \<in> set (db_messages db)" "same_origin m m'" by blast
    have "mr_event_hash m' = mr_event_hash m" using m(2) by (simp add: same_origin_def)
    from subst [OF this, of "\<lambda>x. x \<noteq> None", OF h] ok m(1) obtain e where "e \<in> set (load_events_in_order db)" "row_of_event cr e m" by (auto simp: origin_ok_def)
    with row_of_same_origin [OF m(2)] ev show ?thesis by blast
  qed
qed

lemma origin_ok_map:
  assumes "origin_ok cr db" and "db_events db' = db_events db" and "db_messages db' = map g (db_messages db)"
    and "\<And>m. m \<in> set (db_messages db) \<Longrightarrow> same_origin m (g m)"
  shows "origin_ok cr db'"
  by (rule origin_ok_from [OF assms(1)]) (use assms(2-4) in \<open>auto simp: load_events_in_order_def\<close>)

lemma origin_ok_same: "origin_ok cr db \<Longrightarrow> db_events db' = db_events db \<Longrightarrow> db_messages db' = db_messages db \<Longrightarrow> origin_ok cr db'"
  by (rule origin_ok_map [where g = id]) simp_all

lemma origin_ok_submit:
  assumes ok: "origin_ok cr db" and wf: "db_wf db" and tx: "ingest_transaction cr owner e db = Inr (res, db')"
  shows "origin_ok cr db'"
proof -
  note tx' = ingest_transaction_Inr(3,7) [OF tx wf]
  have ev: "load_events_in_order db' = load_events_in_order db @ [e]" by (simp add: load_events_in_order_def tx'(1))
  have new: "row_of_event cr e row" if "payload_row cr e row" for row
    using that by (auto simp: payload_row_def row_of_event_def split: event_payload.splits)
  show ?thesis
  proof (rule origin_ok_from [OF ok])
    fix m'
    assume m': "m' \<in> set (db_messages db')"
    from tx'(2) consider "db_messages db' = db_messages db" | row where "db_messages db' = db_messages db @ [row]" "payload_row cr e row"
      | rid ct where "db_messages db' = map (\<lambda>m. if mr_id m = rid
            then m\<lparr>mr_sealed := Some ct, mr_edited_at := Some (ev_timestamp e)\<rparr> else m) (db_messages db)"
      | rid where "db_messages db' = filter (\<lambda>m. mr_id m \<noteq> rid) (db_messages db)"
      by (cases "ev_payload e") (auto simp: is_content_def)
    then show "(\<exists>m \<in> set (db_messages db). same_origin m m') \<or> (\<exists>x \<in> set (load_events_in_order db'). row_of_event cr x m')"
    proof cases
      case 1
      with m' show ?thesis using same_origin_refl by metis
    next
      case (2 row)
      with m' have "m' \<in> set (db_messages db) \<or> m' = row" by auto
      then show ?thesis using new [OF 2(2)] by (elim disjE) (blast intro: same_origin_refl, simp add: ev)
    next
      case (3 rid ct)
      with m' obtain m where m: "m \<in> set (db_messages db)" "m' = (if mr_id m = rid
            then m\<lparr>mr_sealed := Some ct, mr_edited_at := Some (ev_timestamp e)\<rparr> else m)" by auto
      then have "same_origin m m'" by (simp add: same_origin_def)
      with m(1) show ?thesis by blast
    next
      case (4 rid)
      with m' have "m' \<in> set (db_messages db)" by simp
      then show ?thesis by (blast intro: same_origin_refl)
    qed
  qed (auto simp: ev)
qed

section \<open>The invariant under the other writes\<close>

lemma load_events_cong: "db_events db' = db_events db \<Longrightarrow> load_events_in_order db' = load_events_in_order db"
  by (simp add: load_events_in_order_def)

lemma same_log_eqs:
  assumes "db_events db' = db_events db"
  shows "targets db' = targets db" "stored_hashes cr db' = stored_hashes cr db" "edits db' = edits db"
    "stored_content db' = stored_content db"
  using load_events_cong [OF assms]
  by (simp_all add: targets_eq stored_hashes_def edits_def stored_of_type_def stored_content_def)

lemma view_ok_map:
  assumes v: "view_ok cr db" and ev: "db_events db' = db_events db" and ms: "db_messages db' = map g (db_messages db)"
    and keep: "\<And>m. m \<in> set (db_messages db) \<Longrightarrow> mr_event_hash (g m) = mr_event_hash m \<and> mr_channel (g m) = mr_channel m \<and>
      mr_is_e2ee (g m) = mr_is_e2ee m \<and> mr_author (g m) = mr_author m"
    and final: "\<And>m. m \<in> set (db_messages db) \<Longrightarrow> edited_by (edits db) m = m \<Longrightarrow> edited_by (edits db) (g m) = g m"
  shows "view_ok cr db'"
proof -
  note eqs = same_log_eqs [OF ev]
  have hash: "mr_event_hash (g m) = mr_event_hash m" if "m \<in> set (db_messages db)" for m using keep [OF that] by blast
  have img: "mr_event_hash ` set (db_messages db') = mr_event_hash ` set (db_messages db)"
    unfolding ms set_map image_image by (rule image_cong [OF refl]) (rule hash)
  have "h \<in> stored_hashes cr db \<and> h \<notin> targets db \<and> edited_by (edits db) m' = m'"
    if "m' \<in> set (db_messages db')" "mr_event_hash m' = Some h" for m' h
  proof -
    from that(1) obtain m where m: "m \<in> set (db_messages db)" "m' = g m" unfolding ms set_map by blast
    have "mr_event_hash m = Some h" by (rule trans [OF hash [OF m(1), symmetric]]) (use that(2) m(2) in simp)
    with view_okD(1) [OF v m(1)] final [OF m(1)] m(2) show ?thesis by simp
  qed
  moreover have "edit_fits e m'" if "e \<in> set (edits db)" "m' \<in> set (db_messages db')" for e m'
  proof -
    from that(2) obtain m where m: "m \<in> set (db_messages db)" "m' = g m" unfolding ms set_map by blast
    have "edit_fits e m" by (rule view_okD(5) [OF v that(1) m(1)])
    with keep [OF m(1)] m(2) show ?thesis by (simp add: edit_fits_def split: event_payload.splits)
  qed
  ultimately show ?thesis
    using view_okD(2-4) [OF v] unfolding view_ok_def eqs img by blast
qed

lemma view_ok_add:
  assumes v: "view_ok cr db" and ev: "db_events db' = db_events db" and ms: "db_messages db' = db_messages db @ [row]"
    and row: "mr_event_hash row = None"
  shows "view_ok cr db'"
proof -
  have "edit_fits e row" for e by (simp add: edit_fits_def row split: event_payload.split)
  with v row show ?thesis unfolding view_ok_def same_log_eqs [OF ev] ms by auto
qed

lemma view_ok_same: "view_ok cr db \<Longrightarrow> db_events db' = db_events db \<Longrightarrow> db_messages db' = db_messages db \<Longrightarrow> view_ok cr db'"
  by (rule view_ok_map [where g = id]) auto

lemma edited_by_commute:
  assumes "\<And>m s t. f (m\<lparr>mr_sealed := s, mr_edited_at := t\<rparr>) = (f m)\<lparr>mr_sealed := s, mr_edited_at := t\<rparr>"
    and "\<And>m. mr_event_hash (f m) = mr_event_hash m"
  shows "edited_by es (f m) = f (edited_by es m)"
proof (induction es rule: rev_induct)
  case Nil
  then show ?case by (simp add: edited_by_def)
next
  case (snoc e es)
  then show ?case by (cases "ev_payload e") (simp_all add: edited_by_snoc assms)
qed

lemma view_ok_update:
  assumes v: "view_ok cr db"
    and f: "\<And>m s t. f (m\<lparr>mr_sealed := s, mr_edited_at := t\<rparr>) = (f m)\<lparr>mr_sealed := s, mr_edited_at := t\<rparr>"
      "\<And>m. mr_event_hash (f m) = mr_event_hash m \<and> mr_channel (f m) = mr_channel m \<and>
        mr_is_e2ee (f m) = mr_is_e2ee m \<and> mr_author (f m) = mr_author m"
  shows "view_ok cr (update_message mid f db)"
  by (rule view_ok_map [OF v, where g = "\<lambda>m. if mr_id m = mid then f m else m"])
    (use f in \<open>auto simp: edited_by_commute [OF f(1)]\<close>)

lemma server_ok_db:
  assumes ok: "server_ok cr sv" and same: "db_events db' = db_events (sv_db sv)" "db_genesis db' = db_genesis (sv_db sv)"
    "db_last_event db' = db_last_event (sv_db sv)" and "db_wf db'" "view_ok cr db'"
  shows "server_ok cr (sv\<lparr>sv_db := db'\<rparr>)"
proof -
  have "build_log_state cr db' = build_log_state cr (sv_db sv)"
    by (simp only: build_log_state_def load_genesis_def same(2) load_events_cong [OF same(1)])
  with assms show ?thesis by (simp add: server_ok_def events_ordered_def)
qed

lemma resolve_find_channel:
  assumes "map_option cr_content_class (find_channel db' c) = map_option cr_content_class (find_channel db c)"
  shows "resolve db' c = resolve db c"
  unfolding resolve_def assms by (rule refl)

lemma db_wf_channels:
  assumes wf: "db_wf db" and same: "db_messages db' = db_messages db" "db_fts db' = db_fts db" "db_last_message db' = db_last_message db"
    and res: "\<And>c. resolve db' c = ClassE2ee \<longleftrightarrow> resolve db c = ClassE2ee"
  shows "db_wf db'"
  using wf by (simp add: db_wf_def plain_index_def row_ok_def same res cong: if_cong)

lemma create_channel_keeps:
  assumes "find_channel db cid = None"
  shows "db_wf db \<Longrightarrow> db_wf (create_channel cid name kind pos db)"
    and "mirror_ok db \<Longrightarrow> mirror_ok (create_channel cid name kind pos db)"
proof -
  have ch: "db_channels (create_channel cid name kind pos db) = db_channels db @
      [\<lparr>cr_id = cid, cr_name = name, cr_type = kind, cr_position = pos, cr_deleted = False, cr_content_class = ''plaintext''\<rparr>]"
    by (simp add: create_channel_def)
  note found = find_channel_snoc [OF ch]
  have "resolve (create_channel cid name kind pos db) c = ClassE2ee \<longleftrightarrow> resolve db c = ClassE2ee" for c
    using assms by (cases "c = cid"; cases "find_channel db c") (auto simp: resolve_def found)
  then show "db_wf (create_channel cid name kind pos db)" if "db_wf db"
    by (intro db_wf_channels [OF that]) (simp_all add: create_channel_def)
  show "mirror_ok (create_channel cid name kind pos db)" if "mirror_ok db"
  proof (rule mirror_ok_channels [OF that])
    show "load_events_in_order (create_channel cid name kind pos db) = load_events_in_order db"
      by (simp add: create_channel_def load_events_in_order_def)
  qed (auto simp: found)
qed

lemma soft_delete_keeps:
  shows "db_wf db \<Longrightarrow> db_wf (soft_delete_channel cid db)"
    and "mirror_ok db \<Longrightarrow> mirror_ok (soft_delete_channel cid db)"
proof -
  have "map_option cr_content_class (find (\<lambda>r. cr_id r = c) (map (\<lambda>r. if cr_id r = cid then r\<lparr>cr_deleted := True\<rparr> else r) rs)) =
      map_option cr_content_class (find (\<lambda>r. cr_id r = c) rs)" for c rs
    by (induction rs) auto
  then have found: "map_option cr_content_class (find_channel (soft_delete_channel cid db) c) =
      map_option cr_content_class (find_channel db c)" for c
    by (simp add: soft_delete_channel_def find_channel_def)
  show "db_wf (soft_delete_channel cid db)" if "db_wf db"
    using resolve_find_channel [OF found] by (intro db_wf_channels [OF that]) (simp_all add: soft_delete_channel_def)
  show "mirror_ok (soft_delete_channel cid db)" if "mirror_ok db"
    by (rule mirror_ok_channels [OF that])
      (simp_all only: found, simp add: soft_delete_channel_def load_events_in_order_def)
qed

lemma mirror_ok_same: "mirror_ok db \<Longrightarrow> db_events db' = db_events db \<Longrightarrow> db_channels db' = db_channels db \<Longrightarrow> mirror_ok db'"
  by (rule mirror_ok_channels) (simp_all add: load_events_in_order_def find_channel_def)

lemma edit_message_Inr:
  assumes "edit_message now mid content db = Inr db'" and wf: "db_wf db"
  shows "db_events db' = db_events db" "db_channels db' = db_channels db" "db_genesis db' = db_genesis db"
      "db_last_event db' = db_last_event db"
    and "view_ok cr db \<Longrightarrow> view_ok cr db'" and "origin_ok cr db \<Longrightarrow> origin_ok cr db'"
proof -
  let ?f = "\<lambda>m. m\<lparr>mr_content := content, mr_edited_at := Some now\<rparr>"
  from assms(1) obtain row where row: "row \<in> set (db_messages db)" "mr_id row = mid" and cls: "resolve db (mr_channel row) = ClassPlaintext"
    and db': "db' = (unindex mid (mr_content row) (update_message mid ?f db))\<lparr>db_fts :=
        db_fts (unindex mid (mr_content row) (update_message mid ?f db)) @ [(mid, content)]\<rparr>"
    by (auto simp: edit_message_def result_simps Let_def find_message_Some [OF wf])
  show "db_events db' = db_events db" "db_channels db' = db_channels db" "db_genesis db' = db_genesis db"
      "db_last_event db' = db_last_event db" by (simp_all add: db')
  show "origin_ok cr db'" if "origin_ok cr db"
    by (rule origin_ok_map [OF that, where g = "\<lambda>m. if mr_id m = mid then ?f m else m"]) (auto simp: db' same_origin_def)
  show "view_ok cr db'" if v: "view_ok cr db"
  proof (rule view_ok_map [OF v, where g = "\<lambda>m. if mr_id m = mid then ?f m else m"])
    fix m
    assume m: "m \<in> set (db_messages db)" and final: "edited_by (edits db) m = m"
    show "edited_by (edits db) (if mr_id m = mid then ?f m else m) = (if mr_id m = mid then ?f m else m)"
    proof (cases "mr_id m = mid")
      case True
      with row m db_wfD(5) [OF wf] have "m = row" by blast
      have plain: "\<not> mr_is_e2ee row" using db_wfD(3) [OF wf row(1)] cls by (auto simp: row_ok_def split: if_splits)
      have "edit_target e \<noteq> mr_event_hash row" if "e \<in> set (edits db)" "edit_target e \<noteq> None" for e
        using view_okD(5) [OF v that(1) row(1)] plain that(2)
        by (auto simp: edit_fits_def edit_target_def split: event_payload.splits)
      then have "edited_by (edits db) (?f row) = ?f row" by (intro edited_by_other) auto
      with True \<open>m = row\<close> show ?thesis by simp
    qed (use final in simp)
  qed (auto simp: db')
qed

section \<open>Restarting\<close>

lemma reconcile_attachments_same_core: "same_core db (snd (reconcile_attachments cr db))"
proof -
  have att: "same_core db (snd (derive_attachments mid e owner db))" for mid e owner db
    using fold_derive_attachment_same_core [of "(0, db)"] by (simp add: derive_attachments_def)
  have "same_core (snd acc) (snd (fold (\<lambda>(e, mid) (n, db). let (created, db') = derive_attachments mid e owner db
      in (n + created, db')) rows acc))" for rows owner acc
  proof (induction rows arbitrary: acc)
    case (Cons r rows)
    obtain e mid n db where p: "r = (e, mid)" "acc = (n, db)" by (cases r, cases acc)
    show ?case using same_core_trans [OF att Cons.IH [of "(n + fst (derive_attachments mid e owner db), snd (derive_attachments mid e owner db))", simplified]]
      by (simp add: p Let_def split_beta)
  qed simp
  from this [of "(0, db)"] show ?thesis by (simp add: reconcile_attachments_def split: option.split)
qed

lemma sweep_same_core: "same_core db (snd (sweep_redacted_bytes db))"
  by (simp add: sweep_redacted_bytes_def same_core_def Let_def)

definition server_inv :: "crypto \<Rightarrow> server_state \<Rightarrow> bool" where
  "server_inv cr sv \<longleftrightarrow> server_ok cr sv \<and> mirror_ok (sv_db sv) \<and> origin_ok cr (sv_db sv)"

definition restart_view :: "server_db \<Rightarrow> server_db \<Rightarrow> bool" where
  "restart_view db db' \<longleftrightarrow> (\<exists>db1. relinked db db1 \<and> same_core db1 db')"

lemma dead_iff_target:
  assumes "server_ok cr sv"
  shows "tombstoned_in (stored_tombstone_targets (sv_db sv)) (sv_log sv) h \<longleftrightarrow> h \<in> targets (sv_db sv)"
  using server_tombstones [OF assms]
  by (auto simp: tombstoned_in_def targets_def is_tombstoned_def split: option.split)

lemma reconcile_messages_ok:
  assumes ok: "server_ok cr sv"
  shows "\<exists>db'. reconcile_messages cr (sv_log sv) (sv_db sv) = Inr (0, db') \<and> relinked (sv_db sv) db'"
proof -
  let ?db = "sv_db sv" and ?dead = "tombstoned_in (stored_tombstone_targets (sv_db sv)) (sv_log sv)"
  from ok have wf: "db_wf ?db" and v: "view_ok cr ?db" by (simp_all add: server_ok_def)
  note dead = dead_iff_target [OF ok]
  have "fold_result (derive_missing cr ?dead) (0, ?db) (missing_content cr ?db) = Inr (0, ?db)"
    by (rule derive_missing_noop [OF v]) (simp add: dead)
  moreover have "fold_result sweep_target ?db (stored_tombstone_targets ?db) = Inr ?db" by (rule sweep_noop [OF v])
  moreover have "replay_sealed_edits ?dead ?db = Inr ?db" by (rule replay_edits_noop [OF v wf]) (simp add: dead)
  ultimately have "reconcile_messages cr (sv_log sv) ?db = Inr (0, snd (repair_reply_links cr ?db))"
    by (simp add: reconcile_messages_def Let_def)
  with repair_reply_links_relinked [OF wf] show ?thesis by blast
qed

lemma startup_ok:
  assumes inv: "server_inv cr sv"
  shows "\<exists>db'. startup cr (sv_db sv) = Inr (sv\<lparr>sv_db := db'\<rparr>) \<and> restart_view (sv_db sv) db'"
proof -
  from inv have ok: "server_ok cr sv" and mir: "mirror_ok (sv_db sv)" by (simp_all add: server_inv_def)
  from ok have gen: "db_genesis (sv_db sv) = sv_genesis sv" and build: "build_log_state cr (sv_db sv) = Inr (sv_log sv)"
    by (simp_all add: server_ok_def)
  show ?thesis
  proof (cases "sv_genesis sv")
    case None
    with gen build have "sv_log sv = None" by (simp add: build_log_state_def load_genesis_def)
    with None gen have "startup cr (sv_db sv) = Inr (sv\<lparr>sv_db := sv_db sv\<rparr>)"
      by (simp add: startup_def load_genesis_def)
    moreover have "restart_view (sv_db sv) (sv_db sv)"
      unfolding restart_view_def using relinked_refl same_core_refl by blast
    ultimately show ?thesis by blast
  next
    case (Some g)
    obtain db1 where db1: "reconcile_messages cr (sv_log sv) (sv_db sv) = Inr (0, db1)" "relinked (sv_db sv) db1"
      using reconcile_messages_ok [OF ok] by blast
    let ?db' = "snd (sweep_redacted_bytes (snd (reconcile_attachments cr db1)))"
    have "startup cr (sv_db sv) = Inr (sv\<lparr>sv_db := ?db'\<rparr>)"
      using Some gen by (simp add: startup_def load_genesis_def build reconcile_channel_classes_id [OF mir] db1(1))
    moreover have "restart_view (sv_db sv) ?db'"
      unfolding restart_view_def
      using db1(2) same_core_trans [OF reconcile_attachments_same_core sweep_same_core] by blast
    ultimately show ?thesis by blast
  qed
qed

lemma restart_view_eqs:
  assumes "restart_view db db'"
  obtains g where "db_messages db' = map g (db_messages db)"
    "\<forall>m \<in> set (db_messages db). g m = m \<or> mr_reply_to m = None \<and> (\<exists>t. g m = m\<lparr>mr_reply_to := Some t\<rparr>)"
    "db_fts db' = db_fts db" "db_channels db' = db_channels db" "db_events db' = db_events db"
    "db_genesis db' = db_genesis db" "db_last_message db' = db_last_message db" "db_last_event db' = db_last_event db"
  using assms unfolding restart_view_def relinked_def same_core_def by force

lemma server_inv_restart:
  assumes inv: "server_inv cr sv" and rv: "restart_view (sv_db sv) db'"
  shows "server_inv cr (sv\<lparr>sv_db := db'\<rparr>)"
proof -
  let ?db = "sv_db sv"
  obtain g where g: "db_messages db' = map g (db_messages ?db)"
    "\<forall>m \<in> set (db_messages ?db). g m = m \<or> mr_reply_to m = None \<and> (\<exists>t. g m = m\<lparr>mr_reply_to := Some t\<rparr>)"
    and eqs: "db_fts db' = db_fts ?db" "db_channels db' = db_channels ?db" "db_events db' = db_events ?db"
      "db_genesis db' = db_genesis ?db" "db_last_message db' = db_last_message ?db" "db_last_event db' = db_last_event ?db"
    by (rule restart_view_eqs [OF rv])
  from inv have ok: "server_ok cr sv" and mir: "mirror_ok ?db" by (simp_all add: server_inv_def)
  then have wf: "db_wf ?db" and v: "view_ok cr ?db" by (simp_all add: server_ok_def)
  have same: "mr_id (g m) = mr_id m \<and> mr_channel (g m) = mr_channel m \<and> mr_content (g m) = mr_content m \<and>
      mr_is_e2ee (g m) = mr_is_e2ee m \<and> mr_event_hash (g m) = mr_event_hash m \<and> mr_sealed (g m) = mr_sealed m \<and>
      mr_author (g m) = mr_author m"
    if "m \<in> set (db_messages ?db)" for m
    using bspec [OF g(2) that] by auto
  have "plain_index db' = plain_index ?db"
    by (subst plain_index_map [OF g(1)]) (use same in \<open>auto simp: plain_index_def intro!: image_cong\<close>)
  then have "set (db_fts db') = plain_index db'" using db_wfD(6) [OF wf] eqs(1) by simp
  then have wf': "db_wf db'" by (intro db_wf_map [OF wf g(1) eqs(2,5)]) (use same in auto)
  have com: "edited_by es (m\<lparr>mr_reply_to := t\<rparr>) = (edited_by es m)\<lparr>mr_reply_to := t\<rparr>" for es m t
    by (rule edited_by_commute) simp_all
  have v': "view_ok cr db'"
  proof (rule view_ok_map [OF v eqs(3) g(1)])
    fix m
    assume m: "m \<in> set (db_messages ?db)" and final: "edited_by (edits ?db) m = m"
    from bspec [OF g(2) m] final com show "edited_by (edits ?db) (g m) = g m" by auto
  qed (use same in blast)
  have "mirror_ok db'" by (rule mirror_ok_same [OF mir eqs(3,2)])
  moreover have "origin_ok cr db'"
    by (rule origin_ok_map [OF _ eqs(3) g(1)]) (use inv g(2) in \<open>auto simp: server_inv_def same_origin_def\<close>)
  ultimately show ?thesis using server_ok_db [OF ok eqs(3,4,6) wf' v'] by (simp add: server_inv_def)
qed

section \<open>Every reachable state\<close>

lemma insert_row_frame:
  assumes "insert_row db c author content ts reply nm badge None sealed e2ee = Inr (mid, db')"
  shows "db_events db' = db_events db" "db_channels db' = db_channels db" "db_genesis db' = db_genesis db"
    "db_last_event db' = db_last_event db" "view_ok cr db \<Longrightarrow> view_ok cr db'" "origin_ok cr db \<Longrightarrow> origin_ok cr db'"
proof -
  show ev: "db_events db' = db_events db" "db_channels db' = db_channels db" "db_genesis db' = db_genesis db"
    "db_last_event db' = db_last_event db" using assms by (auto simp: insert_row_Inr)
  from assms obtain row where row: "db_messages db' = db_messages db @ [row]" "mr_event_hash row = None"
    by (auto simp: insert_row_Inr)
  then show "view_ok cr db'" if "view_ok cr db" by (rule view_ok_add [OF that ev(1)])
  show "origin_ok cr db'" if "origin_ok cr db"
    using that row by (auto simp: origin_ok_def load_events_cong [OF ev(1)])
qed

lemma server_inv_db:
  assumes inv: "server_inv cr sv" and same: "db_events db' = db_events (sv_db sv)" "db_genesis db' = db_genesis (sv_db sv)"
    "db_last_event db' = db_last_event (sv_db sv)"
    and keep: "db_wf (sv_db sv) \<Longrightarrow> db_wf db'" "db_wf (sv_db sv) \<Longrightarrow> view_ok cr (sv_db sv) \<Longrightarrow> view_ok cr db'"
      "mirror_ok (sv_db sv) \<Longrightarrow> mirror_ok db'" "origin_ok cr (sv_db sv) \<Longrightarrow> origin_ok cr db'"
  shows "server_inv cr (sv\<lparr>sv_db := db'\<rparr>)"
proof -
  from inv have ok: "server_ok cr sv" and rest: "mirror_ok (sv_db sv)" "origin_ok cr (sv_db sv)" by (simp_all add: server_inv_def)
  then have wf: "db_wf (sv_db sv)" and v: "view_ok cr (sv_db sv)" by (simp_all add: server_ok_def)
  from server_ok_db [OF ok same keep(1) [OF wf] keep(2) [OF wf v]] keep(3) [OF rest(1)] keep(4) [OF rest(2)]
  show ?thesis by (simp add: server_inv_def)
qed

lemma server_inv_submit:
  assumes inv: "server_inv cr sv" and step: "submit_step cr sv te = Inr sv'"
  shows "server_inv cr sv'"
proof -
  from inv have ok: "server_ok cr sv" and mir: "mirror_ok (sv_db sv)" by (simp_all add: server_inv_def)
  obtain now e where te: "te = (now, e)" by (cases te)
  from step obtain ns os where "submit_event cr now sv e = Inr (sv', ns, os)" by (auto simp: submit_step_Inr te)
  then obtain st trial res db' where
    tx: "ingest_transaction cr (map_option g_owner (sv_genesis sv)) e (sv_db sv) = Inr (res, db')"
    and sv': "sv' = sv\<lparr>sv_log := Some trial, sv_db := db'\<rparr>" by (rule submit_event_Inr)
  have wf: "db_wf (sv_db sv)" using ok by (simp add: server_ok_def)
  have "origin_ok cr db'" by (rule origin_ok_submit [OF _ wf tx]) (use inv in \<open>simp add: server_inv_def\<close>)
  with mirror_ok_submit [OF mir wf tx] server_ok_step [OF ok step] show ?thesis by (simp add: server_inv_def sv')
qed

lemma update_message_keeps:
  assumes "\<And>m. mr_id (f m) = mr_id m \<and> mr_channel (f m) = mr_channel m \<and> mr_is_e2ee (f m) = mr_is_e2ee m \<and>
      mr_event_hash (f m) = mr_event_hash m \<and> mr_author (f m) = mr_author m \<and> mr_content (f m) = mr_content m \<and>
      mr_timestamp (f m) = mr_timestamp m \<and> mr_sealed (f m) = mr_sealed m"
    and "\<And>m s t. f (m\<lparr>mr_sealed := s, mr_edited_at := t\<rparr>) = (f m)\<lparr>mr_sealed := s, mr_edited_at := t\<rparr>"
    and inv: "server_inv cr sv"
  shows "server_inv cr (sv\<lparr>sv_db := update_message mid f (sv_db sv)\<rparr>)"
  by (rule server_inv_db [OF inv])
    (auto simp: assms(1) same_origin_def intro: db_wf_update view_ok_update [OF _ assms(2)] mirror_ok_same
      origin_ok_map [where g = "\<lambda>m. if mr_id m = mid then f m else m"])

lemma server_inv_step:
  assumes inv: "server_inv cr sv" and step: "server_step cr sv sv'"
  shows "server_inv cr sv'"
  using step
proof cases
  case (submit te)
  then show ?thesis by (rule server_inv_submit [OF inv])
next
  case restart
  obtain db' where st: "startup cr (sv_db sv) = Inr (sv\<lparr>sv_db := db'\<rparr>)" and rv: "restart_view (sv_db sv) db'"
    using startup_ok [OF inv] by blast
  from restart st have "sv' = sv\<lparr>sv_db := db'\<rparr>" by simp
  with server_inv_restart [OF inv rv] show ?thesis by simp
next
  case (post now c author content reply_to mid db)
  then have r: "insert_row (sv_db sv) c author content now reply_to None None None None False = Inr (mid, db)"
    by (simp add: insert_message_def insert_message_with_ts_def result_simps)
  show ?thesis unfolding post(1)
    by (rule server_inv_db [OF inv insert_row_frame(1,3,4) [OF r]])
      (use insert_row_frame(1,2,5,6) [OF r] post db_wf_insert_doors in \<open>auto simp: insert_message_def intro: mirror_ok_same\<close>)
next
  case (bot_post now c author content reply_to nm badge mid db)
  then have r: "insert_row (sv_db sv) c author content now reply_to nm badge None None False = Inr (mid, db)"
    by (simp add: insert_message_with_author_name_def result_simps)
  show ?thesis unfolding bot_post(1)
    by (rule server_inv_db [OF inv insert_row_frame(1,3,4) [OF r]])
      (use insert_row_frame(1,2,5,6) [OF r] bot_post db_wf_insert_doors in \<open>auto intro: mirror_ok_same\<close>)
next
  case (edit now mid content db)
  from inv have wf: "db_wf (sv_db sv)" by (simp add: server_inv_def server_ok_def)
  note e = edit_message_Inr [OF edit(2) wf]
  show ?thesis unfolding edit(1)
    by (rule server_inv_db [OF inv e(1,3,4)]) (use e db_wf_edit_message [OF edit(2)] in \<open>auto intro: mirror_ok_same\<close>)
next
  case (pin mid)
  then show ?thesis unfolding pin_message_def by (auto intro!: update_message_keeps [OF _ _ inv])
next
  case (unpin mid)
  then show ?thesis unfolding unpin_message_def by (auto intro!: update_message_keeps [OF _ _ inv])
next
  case (widget mid json)
  then show ?thesis unfolding set_widget_def by (auto intro!: update_message_keeps [OF _ _ inv])
next
  case (new_channel cid name kind pos)
  show ?thesis unfolding new_channel(1)
    by (rule server_inv_db [OF inv])
      (use create_channel_keeps [OF new_channel(2)] in \<open>auto simp: create_channel_def intro: view_ok_same origin_ok_same\<close>)
next
  case (drop_channel cid)
  show ?thesis unfolding drop_channel(1)
    by (rule server_inv_db [OF inv])
      (use soft_delete_keeps in \<open>auto simp: soft_delete_channel_def intro: view_ok_same origin_ok_same\<close>)
qed

lemma fresh_inv: "server_inv cr (fresh_server cr g)"
  by (simp add: server_inv_def server_ok_def fresh_server_def fresh_db_def db_wf_def hashes_unique_def plain_index_def
      events_ordered_def build_log_state_def load_genesis_def load_events_in_order_def replay_def view_ok_def
      mirror_ok_def origin_ok_def targets_eq stored_content_def edits_def stored_of_type_def)

lemma reachable_inv: "reachable cr g sv \<Longrightarrow> server_inv cr sv"
  by (induction rule: reachable.induct) (auto intro: fresh_inv server_inv_step)

end
