(* ===== verification/LogScenario.thy ===== *)
theory LogScenario
  imports LogApply
begin

text \<open>
  A concrete history of the event log, used by the witnesses: an owner and a member with one
  device each, an invite, an E2ee channel bootstrapped by the owner, the member added,
  welcomed and confirmed, and a sealed message.  \<open>toy_crypto\<close> instantiates the third-party
  code with executable functions for which signatures made with a key verify under its
  public key and nothing else does.
\<close>

definition toy_crypto :: crypto where
  "toy_crypto =
     \<lparr>sha256_hex = (\<lambda>bs. map (\<lambda>b. char_of (unat b)) bs), ser_genesis = (\<lambda>g. as_bytes (g_owner g)),
      ser_cert_core = (\<lambda>c. []), ser_event_core = (\<lambda>c. []),
      ser_event = (\<lambda>e. as_bytes (ev_author e) @ [word_of_nat (ev_seq e)]),
      ed_public = PublicKey, ed_sign = (\<lambda>k m. k), ed_verify = (\<lambda>pk m s. s = as_bytes pk)\<rparr>"

lemma toy_crypto_ok: "crypto_ok toy_crypto"
  by (simp add: crypto_ok_def toy_crypto_def)

text \<open>Each party is an identity key and a device key; \<open>sc_next\<close> extends a party's chain.\<close>

definition sc_owner :: keypair where "sc_owner = [1]"
definition sc_owner_dev :: keypair where "sc_owner_dev = [11]"
definition sc_alice :: keypair where "sc_alice = [2]"
definition sc_alice_dev :: keypair where "sc_alice_dev = [12]"

definition sc_genesis :: genesis where
  "sc_genesis = \<lparr>g_version = 1, g_name = ''srv'', g_owner = PublicKey sc_owner, g_created_at = 0, g_nonce = []\<rparr>"

definition sc_next :: "keypair \<Rightarrow> keypair \<Rightarrow> event option \<Rightarrow> nat \<Rightarrow> event_payload \<Rightarrow> event" where
  "sc_next identity dev prev ts payload =
     event_next toy_crypto dev (PublicKey identity) (genesis_server_id toy_crypto sc_genesis) prev 0 ts payload"

definition sc_cert :: "keypair \<Rightarrow> keypair \<Rightarrow> device_cert" where
  "sc_cert identity dev = cert_create toy_crypto identity (PublicKey dev) 0"

definition sc_leaf :: "keypair \<Rightarrow> keypair \<Rightarrow> leaf" where
  "sc_leaf identity dev = (PublicKey identity, device_id_of toy_crypto (PublicKey dev))"

definition sc_commit :: "nat \<Rightarrow> declared_add list \<Rightarrow> declared_remove list \<Rightarrow> bytes \<Rightarrow> bytes \<Rightarrow> event_payload" where
  "sc_commit ep adds removes prev post = MlsCommit
     \<lparr>mc_channel_id = 7, mc_generation = 0, mc_epoch = ep, mc_mls_message = [], mc_adds = adds,
      mc_removes = removes, mc_prev_epoch_authenticator = prev, mc_post_epoch_authenticator = post,
      mc_post_tree_hash = post, mc_authz_head = [], mc_store_instance_hash = [9]\<rparr>"

definition "sc_o0 = sc_next sc_owner sc_owner_dev None 10 (DeviceAuthorized (sc_cert sc_owner sc_owner_dev))"
definition "sc_o1 = sc_next sc_owner sc_owner_dev (Some sc_o0) 11 (InviteCreated ''h'' 5 1000 False)"
definition "sc_a0 = sc_next sc_alice sc_alice_dev None 12 (DeviceAuthorized (sc_cert sc_alice sc_alice_dev))"
definition "sc_a1 = sc_next sc_alice sc_alice_dev (Some sc_a0) 13
  (MemberJoined (PublicKey sc_alice) (event_hash_of toy_crypto sc_o1))"
definition "sc_o2 = sc_next sc_owner sc_owner_dev (Some sc_o1) 14 (ChannelCreated 7 ''c'' ''text'' E2ee None)"
definition "sc_o3 = sc_next sc_owner sc_owner_dev (Some sc_o2) 15 (sc_commit 0 [] [] [] [1])"
definition "sc_a2 = sc_next sc_alice sc_alice_dev (Some sc_a1) 16 (MlsKeyPackagePublished [] [8] 100)"
definition "sc_add_alice =
  \<lparr>add_identity = PublicKey sc_alice, add_device = device_id_of toy_crypto (PublicKey sc_alice_dev),
   add_key_package = event_hash_of toy_crypto sc_a2\<rparr>"
definition "sc_o4 = sc_next sc_owner sc_owner_dev (Some sc_o3) 17 (sc_commit 1 [sc_add_alice] [] [1] [2])"
definition "sc_o5 = sc_next sc_owner sc_owner_dev (Some sc_o4) 18
  (MlsWelcome 7 0 (event_hash_of toy_crypto sc_o4) (PublicKey sc_alice)
     (device_id_of toy_crypto (PublicKey sc_alice_dev)) [])"
definition "sc_a3 = sc_next sc_alice sc_alice_dev (Some sc_a2) 19 (MlsLeafConfirmed 7 0 2 [2] [8])"
definition "sc_a4 = sc_next sc_alice sc_alice_dev (Some sc_a3) 20 (MessagePostedE2ee 7 0 2 [5] None [] [])"

definition sc_history :: "event list" where
  "sc_history = [sc_o0, sc_o1, sc_a0, sc_a1, sc_o2, sc_o3, sc_a2, sc_o4, sc_o5, sc_a3, sc_a4]"

text \<open>Running a history and asking something of the state it ends in.\<close>

definition after :: "event list \<Rightarrow> (log_state \<Rightarrow> bool) \<Rightarrow> bool" where
  "after es P \<longleftrightarrow> (case replay toy_crypto sc_genesis es of Inl _ \<Rightarrow> False | Inr st \<Rightarrow> P st)"

lemma afterD: "after es P \<Longrightarrow> \<exists>st. replay toy_crypto sc_genesis es = Inr st \<and> P st"
  by (simp add: after_def split: sum.splits)

section \<open>Evaluation bundles\<close>

text \<open>Drift as membership tests, so that the simplifier never compares set comprehensions.\<close>

lemma pending_removals_empty:
  "pending_removals st c at_ts = {} \<longleftrightarrow>
     (case ls_mls_groups st c of None \<Rightarrow> True
      | Some g \<Rightarrow> \<forall>leaf \<in> mg_leaves_confirmed g \<union> mg_leaves_pending g. leaf \<in> member_leaf_set st at_ts)"
  by (auto simp: pending_removals_def split: option.split)

lemma member_pending_removals:
  "leaf \<in> pending_removals st c at_ts \<longleftrightarrow>
     (case ls_mls_groups st c of None \<Rightarrow> False
      | Some g \<Rightarrow> leaf \<in> mg_leaves_confirmed g \<union> mg_leaves_pending g \<and> leaf \<notin> member_leaf_set st at_ts)"
  by (auto simp: pending_removals_def split: option.split)

lemma member_pending_adds:
  "leaf \<in> pending_adds st c at_ts \<longleftrightarrow>
     (case ls_mls_groups st c of None \<Rightarrow> False
      | Some g \<Rightarrow> leaf \<in> member_leaf_set st at_ts \<and> leaf \<notin> mg_leaves_confirmed g \<and> leaf \<notin> mg_leaves_pending g)"
  by (auto simp: pending_adds_def split: option.split)

text \<open>
  \<open>log_eval_defs\<close> unfolds the whole fold, \<open>crypto_eval_defs\<close> the toy crypto and the event
  constructors, \<open>sc_defs\<close> the scenario: the simplifier then runs a concrete history.
\<close>

lemmas log_eval_defs =
  log_apply_def resolve_device_pubkey_def cert_verify_def check_chain_def check_cert_expiry_def cert_expiry_def
  check_payload_authz_def apply_payload_effect_def
  check_device_authorized_def check_invite_created_def check_member_joined_def
  check_member_approved_def check_message_posted_def check_member_removed_def
  check_member_banned_def check_member_unbanned_def check_permission_granted_def
  check_attachment_redacted_def check_channel_created_def check_message_deleted_def
  check_device_revoked_def check_key_package_published_def check_mls_commit_def
  check_mls_welcome_def check_leaf_confirmed_def check_message_edited_def check_group_reset_def
  check_sealed_send_def check_declared_add_def check_declared_remove_def check_commit_author_def
  commit_rate_ok_def commit_rate_gap_def committing_identities_def reset_incomplete_def ceiling_demands_rekey_def
  commit_discharges_drift_def pending_removals_empty member_pending_removals
  member_pending_adds member_leaf_set_def
  live_devices_def judged_live_devices_def live_devices_at_def device_unexpired_def self_liveness_ts_def
  judged_liveness_ts_def identity_floor_def leaf_holder_in_good_standing_def live_key_packages_def
  full_member_def is_owner_def is_member_def is_pending_def is_banned_def has_capability_def
  check_instance_pin_def channel_class_def add_leaf_def rem_leaf_def
  MAX_LIVE_DEVICES_PER_IDENTITY_def MAX_LIVE_KEY_PACKAGES_PER_DEVICE_def COMMIT_RATE_MIN_EPOCH_GAP_def
  COMMIT_RATE_CEILING_GRACE_EVENTS_def FRESHNESS_CEILING_EVENTS_def RESET_MIN_CHANNEL_EVENTS_def u32_max_def
  effect_device_authorized_def effect_invite_created_def effect_member_joined_def
  effect_member_approved_def effect_message_posted_def effect_member_removed_def
  effect_member_banned_def effect_member_unbanned_def effect_permission_granted_def
  effect_attachment_redacted_def effect_channel_created_def effect_message_deleted_def
  effect_device_revoked_def effect_key_package_published_def effect_mls_commit_def
  effect_mls_welcome_def effect_leaf_confirmed_def effect_group_reset_def
  bump_channel_counters_def bump_reset_counter_def record_uploaders_def pin_instance_def
  map_group_def expect_group_def commit_group_def new_mls_group_def reset_group_def welcomed_leaves_def
  void_obligations_def consume_key_package_def sat_inc_def or_insert_def
  envelope_accounting_def advance_chain_def recompute_corroborated_clock_def clock_top2_def

lemmas crypto_eval_defs = event_verify_def event_sign_def event_hash_of_def device_id_of_def
  genesis_server_id_def event_next_def cert_create_def cert_create_inner_def string_bytes_def
  toy_crypto_def char_of_def bit_Suc_0_iff bit_numeral_rec bit_1_iff

lemmas sc_defs = sc_o0_def sc_o1_def sc_a0_def sc_a1_def sc_o2_def sc_o3_def sc_a2_def sc_o4_def sc_o5_def
  sc_a3_def sc_a4_def sc_next_def sc_cert_def sc_leaf_def sc_commit_def sc_genesis_def sc_owner_def sc_owner_dev_def
  sc_alice_def sc_alice_dev_def sc_add_alice_def


lemmas run_defs = after_def replay_def from_genesis_def log_eval_defs crypto_eval_defs sc_defs Let_def

end
