(* ===== verification/ServerScenario.thy ===== *)
theory ServerScenario
  imports ServerRuns LogScenario
begin

text \<open>
  A concrete life of the server for the witnesses: the owner's device, an encrypted channel, its
  first commit, a sealed message, a sealed edit of it, a sealed reply, and the reply's deletion.
\<close>

abbreviation ss_channel :: nat where "ss_channel \<equiv> 4294967303"

definition ss_commit :: mls_commit where
  "ss_commit = \<lparr>mc_channel_id = ss_channel, mc_generation = 0, mc_epoch = 0, mc_mls_message = [], mc_adds = [],
     mc_removes = [], mc_prev_epoch_authenticator = [], mc_post_epoch_authenticator = [1],
     mc_post_tree_hash = [1], mc_authz_head = [], mc_store_instance_hash = [9]\<rparr>"

definition "ss_o0 = sc_next sc_owner sc_owner_dev None 10 (DeviceAuthorized (sc_cert sc_owner sc_owner_dev))"
definition "ss_o1 = sc_next sc_owner sc_owner_dev (Some ss_o0) 11 (ChannelCreated ss_channel ''c'' ''text'' E2ee None)"
definition "ss_o2 = sc_next sc_owner sc_owner_dev (Some ss_o1) 12 (MlsCommit ss_commit)"
definition "ss_o3 = sc_next sc_owner sc_owner_dev (Some ss_o2) 13 (MessagePostedE2ee ss_channel 0 1 [5] None [] [])"
definition "ss_o4 = sc_next sc_owner sc_owner_dev (Some ss_o3) 14
  (MessageEditedE2ee ss_channel (event_hash_of toy_crypto ss_o3) 0 1 [6] [])"
definition "ss_o5 = sc_next sc_owner sc_owner_dev (Some ss_o4) 15
  (MessagePostedE2ee ss_channel 0 1 [7] (Some (event_hash_of toy_crypto ss_o3)) [] [])"
definition "ss_o6 = sc_next sc_owner sc_owner_dev (Some ss_o5) 16
  (MessageDeleted ss_channel (event_hash_of toy_crypto ss_o5) AuthorDelete)"

text \<open>Each is submitted at server time 20.\<close>

definition ss_before :: "(nat \<times> event) list" where
  "ss_before = [(20, ss_o0), (20, ss_o1), (20, ss_o2), (20, ss_o3), (20, ss_o4)]"

definition ss_history :: "(nat \<times> event) list" where
  "ss_history = ss_before @ [(20, ss_o5), (20, ss_o6)]"

definition served :: "(nat \<times> event) list \<Rightarrow> (server_state \<Rightarrow> bool) \<Rightarrow> bool" where
  "served es P \<longleftrightarrow> (case submit_all toy_crypto (fresh_server toy_crypto sc_genesis) es of Inl _ \<Rightarrow> False | Inr sv \<Rightarrow> P sv)"

lemma submit_all_reachable: "submit_all cr sv es = Inr sv' \<Longrightarrow> reachable cr g sv \<Longrightarrow> reachable cr g sv'"
  by (rule submissions.run_invariant [where I = "reachable cr g"]) (blast intro: reachable.step server_step.submit)+

lemma servedD:
  assumes "served es P"
  shows "\<exists>sv. submit_all toy_crypto (fresh_server toy_crypto sc_genesis) es = Inr sv \<and> reachable toy_crypto sc_genesis sv \<and> P sv"
  using assms submit_all_reachable [OF _ reachable.fresh] by (auto simp: served_def split: sum.splits)

lemmas ingest_eval_defs =
  submit_all_def submit_step_def submit_event_def check_ingest_caps_at_def cap_def claims_stale_epoch_def epoch_claim_def
  check_posted_def ingest_transaction_def store_event_def materialize_channel_created_def derive_message_row_def
  attach_def redact_def derive_attachments_def derive_attachment_def message_caps_def apply_sealed_edit_def sealed_edit_target_def
  apply_tombstone_def delete_message_def delete_attachments_for_message_def find_message_def find_by_hash_def
  insert_sealed_row_def insert_derived_row_def insert_row_def require_e2ee_def require_plaintext_for_derived_def
  resolve_def find_channel_def class_string_def next_position_def resolve_reply_target_def update_sealed_row_def
  update_message_def unindex_def get_channel_def fresh_server_def fresh_db_def mls_current_epoch_def
  MAX_E2EE_CIPHERTEXT_BYTES_def MAX_E2EE_EDIT_CIPHERTEXT_BYTES_def MAX_MLS_MESSAGE_BYTES_def MAX_CHANNEL_NAME_BYTES_def
  MAX_DECLARED_LEAVES_PER_COMMIT_def MAX_E2EE_ATTACHMENTS_def E2EE_CHANNEL_ID_FLOOR_def MAX_EVENT_FUTURE_SKEW_SECS_def u64_max_def

lemmas ss_defs = ss_commit_def ss_o0_def ss_o1_def ss_o2_def ss_o3_def ss_o4_def ss_o5_def ss_o6_def ss_before_def ss_history_def

lemma ss_before_runs:
  "served ss_before (\<lambda>sv. map mr_sealed (db_messages (sv_db sv)) = [Some [6]] \<and>
     (case sv_log sv of None \<Rightarrow> False | Some st \<Rightarrow> channel_class st ss_channel = Some E2ee \<and>
        mls_current_epoch st ss_channel = Some (0, 1)))"
  by (simp add: served_def ingest_eval_defs ss_defs run_defs)

lemma ss_history_runs:
  "served ss_history (\<lambda>sv. map mr_sealed (db_messages (sv_db sv)) = [Some [6]] \<and>
     length (db_events (sv_db sv)) = 7)"
  by (simp add: served_def ingest_eval_defs ss_defs run_defs)

text \<open>The first commit, and then one more that still claims epoch 0.\<close>

definition "ss_stale = sc_next sc_owner sc_owner_dev (Some ss_o4) 15 (MlsCommit ss_commit)"

definition ss_created :: "(nat \<times> event) list" where
  "ss_created = [(20, ss_o0), (20, ss_o1)]"

lemma ss_commit_runs:
  "served ss_created (\<lambda>sv. case submit_event toy_crypto 20 sv ss_o2 of Inl _ \<Rightarrow> False
     | Inr (sv', ns, os) \<Rightarrow> ns \<noteq> [])"
  by (simp add: served_def ingest_eval_defs ss_defs run_defs ss_created_def message_notices_def control_notices_def)

lemma ss_stale_payload [simp]: "ev_payload ss_stale = MlsCommit ss_commit" "ev_payload ss_o2 = MlsCommit ss_commit"
  by (simp_all add: ss_stale_def ss_o2_def sc_next_def event_next_core)

text \<open>Deleting the first message behind the log's back, and restarting.\<close>

lemma ss_legacy_runs:
  "served ss_before (\<lambda>sv. case delete_message 1 (sv_db sv) of Inl _ \<Rightarrow> False
     | Inr (orphans, db) \<Rightarrow> db_messages db = [] \<and> (case startup toy_crypto db of Inl _ \<Rightarrow> False | Inr sv' \<Rightarrow> True))"
  by (simp add: served_def ingest_eval_defs ss_defs run_defs startup_def load_genesis_def build_log_state_def
      load_events_in_order_def reconcile_channel_classes_def reconcile_class_of_def reconcile_messages_def
      stored_tombstone_targets_def stored_of_type_def payload_type_def missing_content_def stored_content_def
      derive_missing_def tombstoned_in_def is_tombstoned_def replay_sealed_edits_def replay_sealed_edit_def)

lemma ss_rows:
  "served ss_before (\<lambda>sv. \<exists>m \<in> set (db_messages (sv_db sv)). mr_id m = 1 \<and> mr_event_hash m \<noteq> None \<and> mr_is_e2ee m)"
  by (simp add: served_def ingest_eval_defs ss_defs run_defs)

lemma ss_events: "served ss_before (\<lambda>sv. ss_o3 \<in> set (load_events_in_order (sv_db sv)))"
  by (simp add: served_def ingest_eval_defs ss_defs run_defs load_events_in_order_def)

lemma ss_view:
  "served ss_before (\<lambda>sv. case sv_log sv of None \<Rightarrow> False | Some st \<Rightarrow> ss_o3 \<in> set (stored_content (sv_db sv)) \<and>
     \<not> is_tombstoned st (event_hash_of toy_crypto ss_o3))"
  by (simp add: served_def ingest_eval_defs ss_defs run_defs load_events_in_order_def stored_content_def payload_type_def
      is_tombstoned_def)

lemma ss_pages:
  "served ss_before (\<lambda>sv. length (rows_after {''MlsWelcome''} 0 (sv_db sv)) < 1 * MAX_FETCH_EVENTS \<and>
     length (rows_after control_types 0 (sv_db sv)) < 1 * MAX_FETCH_EVENTS \<and>
     filter (welcome_for (PublicKey sc_alice) None) (map snd (filter (\<lambda>p. 0 < fst p) (db_events (sv_db sv)))) = [] \<and>
     filter (mls_control_of ss_channel) (map snd (filter (\<lambda>p. 0 < fst p) (db_events (sv_db sv)))) = [ss_o2])"
  by (simp add: served_def ingest_eval_defs ss_defs run_defs rows_after_def payload_type_def control_types_def
      MAX_FETCH_EVENTS_def welcome_for_def mls_control_of_def)

end
