(* ===== verification/LogRuns.thy ===== *)
theory LogRuns
  imports LogHistory LogScenario
begin

text \<open>
  More of the concrete history of LogScenario, evaluated once: what holds of the states it
  goes through.  The witnesses of the properties take their hypotheses from here.
\<close>

definition "sc_o6 = sc_next sc_owner sc_owner_dev (Some sc_o5) 21
  (MessageDeleted 7 (event_hash_of toy_crypto sc_a4) ModerationDelete)"
definition "sc_o7 = sc_next sc_owner sc_owner_dev (Some sc_o6) 22 (sc_commit 0 [] [] [] [3])"
definition "sc_o8 = sc_next sc_owner sc_owner_dev (Some sc_o7) 23
  (MlsWelcome 7 1 [] (PublicKey sc_alice) (device_id_of toy_crypto (PublicKey sc_alice_dev)) [])"
definition "sc_o9 = sc_next sc_owner sc_owner_dev (Some sc_o8) 24
  (MlsGroupReset 7 1 [event_hash_of toy_crypto sc_o8] [4])"
definition "sc_o10 = sc_next sc_owner sc_owner_dev (Some sc_o9) 25
  (DeviceRevoked (device_id_of toy_crypto (PublicKey sc_alice_dev)))"
definition "sc_o11 = sc_next sc_owner sc_owner_dev (Some sc_o10) 26 (MemberBanned (PublicKey sc_alice))"

text \<open>A commit that would add the member with the key package that is already spent.\<close>

definition "sc_again = sc_next sc_owner sc_owner_dev (Some sc_o5) 21 (sc_commit 2 [sc_add_alice] [] [2] [3])"

text \<open>A plain rekey by the member.\<close>

definition sc_rekey :: mls_commit where
  "sc_rekey = \<lparr>mc_channel_id = 7, mc_generation = 0, mc_epoch = 2, mc_mls_message = [], mc_adds = [],
     mc_removes = [], mc_prev_epoch_authenticator = [2], mc_post_epoch_authenticator = [6],
     mc_post_tree_hash = [6], mc_authz_head = [], mc_store_instance_hash = [8]\<rparr>"

definition sc_before_add :: "event list" where
  "sc_before_add = [sc_o0, sc_o1, sc_a0, sc_a1, sc_o2, sc_o3, sc_a2]"

definition sc_before_message :: "event list" where
  "sc_before_message = sc_before_add @ [sc_o4, sc_o5, sc_a3]"

definition sc_tail :: "event list" where
  "sc_tail = [sc_o6, sc_o7, sc_o8, sc_o9, sc_o10, sc_o11]"

lemma sc_history_split: "sc_history = sc_before_message @ [sc_a4]"
  by (simp add: sc_history_def sc_before_message_def sc_before_add_def)

lemmas tail_defs = sc_o6_def sc_o7_def sc_o8_def sc_o9_def sc_o10_def sc_o11_def sc_again_def sc_rekey_def
  sc_before_add_def sc_before_message_def sc_tail_def sc_history_def

abbreviation "sc_owner_leaf \<equiv> sc_leaf sc_owner sc_owner_dev"
abbreviation "sc_alice_leaf \<equiv> sc_leaf sc_alice sc_alice_dev"

text \<open>The crypto and event constructors evaluate to concrete events; \<open>run_defs\<close> does the rest.\<close>

lemma sc_before_add_runs:
  "after sc_before_add (\<lambda>st. mls_current_epoch st 7 = Some (0, 1) \<and>
     ls_mls_groups st 7 \<noteq> None \<and> (\<forall>g. ls_mls_groups st 7 = Some g \<longrightarrow> mg_epoch_authenticator g = Some [1]))"
  by (simp add: run_defs tail_defs mls_current_epoch_def insert_Diff_if)

lemma sc_before_message_runs:
  "after sc_before_message (\<lambda>st. mls_current_epoch st 7 = Some (0, 2) \<and>
     sc_owner_leaf \<in> leaves_confirmed st 7 \<and> leaf_holder_in_good_standing st sc_owner_leaf 20)"
  by (simp add: run_defs tail_defs mls_current_epoch_def leaves_confirmed_def)

lemma sc_history_runs:
  "after sc_history (\<lambda>st. channel_class st 7 = Some E2ee \<and> mls_current_epoch st 7 = Some (0, 2) \<and>
     freshness_spent st 7 = 1 \<and> PublicKey sc_alice \<in> ls_members st \<and>
     ls_corroborated_clock st = 18 \<and> sc_alice_leaf \<in> leaves_confirmed st 7)"
  by (simp add: run_defs tail_defs mls_current_epoch_def leaves_confirmed_def freshness_spent_def)

lemma sc_tail_runs:
  "after (sc_history @ sc_tail) (\<lambda>st. mls_current_epoch st 7 = Some (1, 1) \<and>
     event_hash_of toy_crypto sc_a4 \<in> ls_tombstones st \<and> PublicKey sc_alice \<in> ls_banned st \<and>
     snd sc_alice_leaf \<in> ls_revoked_devices st)"
  by (simp add: run_defs tail_defs mls_current_epoch_def insert_Diff_if)

end
