(* ===== verification/LogClaims.thy ===== *)
theory LogClaims
  imports LogRuns
begin

text \<open>
  The properties of the authorization fold, each over histories that \<open>replay\<close> accepts, with
  the witnesses that apply them to the concrete history of LogScenario and LogRuns.
\<close>

section \<open>States of the concrete history\<close>

lemma afterE:
  assumes "after es P"
  obtains st where "replay toy_crypto sc_genesis es = Inr st" and "P st"
  using assms by (auto dest: afterD)

lemma sc_add_step:
  obtains st st' where "replay toy_crypto sc_genesis sc_before_add = Inr st" "mls_current_epoch st 7 = Some (0, 1)"
    "\<exists>g. ls_mls_groups st 7 = Some g \<and> mg_epoch_authenticator g = Some [1]"
    "log_apply toy_crypto st sc_o4 = Inr st'" "replay toy_crypto sc_genesis (sc_before_add @ [sc_o4]) = Inr st'"
proof -
  from sc_before_add_runs obtain st where st: "replay toy_crypto sc_genesis sc_before_add = Inr st"
      "mls_current_epoch st 7 = Some (0, 1)" "\<exists>g. ls_mls_groups st 7 = Some g \<and> mg_epoch_authenticator g = Some [1]"
    by (auto elim!: afterE)
  from sc_before_message_runs obtain m where "replay toy_crypto sc_genesis sc_before_message = Inr m"
    by (auto elim!: afterE)
  then have "replay toy_crypto sc_genesis ((sc_before_add @ [sc_o4]) @ [sc_o5, sc_a3]) = Inr m"
    by (simp add: sc_before_message_def)
  then obtain st' where "replay toy_crypto sc_genesis (sc_before_add @ [sc_o4]) = Inr st'"
    unfolding replay_def log_fold.run_append_Inr by blast
  with st show ?thesis by (auto simp: replay_snoc intro: that)
qed

lemma sc_message_step:
  obtains st st' where "replay toy_crypto sc_genesis sc_before_message = Inr st"
    "mls_current_epoch st 7 = Some (0, 2)" "sc_owner_leaf \<in> leaves_confirmed st 7"
    "leaf_holder_in_good_standing st sc_owner_leaf 20"
    "log_apply toy_crypto st sc_a4 = Inr st'" "replay toy_crypto sc_genesis sc_history = Inr st'"
proof -
  from sc_before_message_runs obtain st where st: "replay toy_crypto sc_genesis sc_before_message = Inr st"
      "mls_current_epoch st 7 = Some (0, 2)" "sc_owner_leaf \<in> leaves_confirmed st 7"
      "leaf_holder_in_good_standing st sc_owner_leaf 20"
    by (auto elim!: afterE)
  from sc_history_runs obtain st' where st': "replay toy_crypto sc_genesis sc_history = Inr st'"
    by (auto elim!: afterE)
  with st have "log_apply toy_crypto st sc_a4 = Inr st'" by (auto simp: sc_history_split replay_snoc)
  then show ?thesis using that st st' by blast
qed

lemma sc_payloads [simp]:
  "ev_payload sc_o4 = sc_commit 1 [sc_add_alice] [] [1] [2]"
  "ev_payload sc_again = sc_commit 2 [sc_add_alice] [] [2] [3]"
  "ev_payload sc_a4 = MessagePostedE2ee 7 0 2 [5] None [] []"
  "ev_payload sc_o7 = sc_commit 0 [] [] [] [3]"
  "ev_payload sc_o9 = MlsGroupReset 7 1 [event_hash_of toy_crypto sc_o8] [4]"
  "ev_author sc_a4 = PublicKey sc_alice" "ev_timestamp sc_a4 = 20"
  "ev_author sc_o9 = PublicKey sc_owner"
  by (simp_all add: sc_o4_def sc_again_def sc_a4_def sc_o7_def sc_o9_def sc_next_def event_next_core)

section \<open>Plaintext and encrypted channels\<close>

text \<open>C1: In a history the fold accepts, no plaintext message is ever posted to a channel that
  is end-to-end encrypted, neither after the channel was declared nor before it existed.\<close>

theorem e2ee_channel_has_no_plaintext:
  assumes "replay cr g es = Inr st" and "channel_class st c = Some E2ee" and "e \<in> set es"
  shows "ev_payload e \<noteq> MessagePosted c content reply caps"
proof
  assume p: "ev_payload e = MessagePosted c content reply caps"
  from assms(1,3) obtain post m m' where m: "log_apply cr m e = Inr m'" "apply_all cr m' post = Inr st"
    unfolding replay_def by (rule log_fold.run_split_at)
  have "plain_marked st c"
    by (rule log_fold.run_invariant [where I = "\<lambda>s. plain_marked s c", OF _ m(2) posting_marks [OF m(1) p]])
      (rule plain_marked_stays)
  moreover have "wf_channels st" using log_wf_replay [OF assms(1)] by (simp add: log_wf_def)
  ultimately show False using plain_marked_not_e2ee assms(2) by blast
qed

theorem e2ee_channel_has_no_plaintext_witness:
  "\<exists>st. replay toy_crypto sc_genesis sc_history = Inr st \<and> channel_class st 7 = Some E2ee \<and>
     sc_a4 \<in> set sc_history \<and> (\<forall>t r k. ev_payload sc_a4 \<noteq> MessagePosted 7 t r k)"
proof -
  from sc_history_runs obtain st where st: "replay toy_crypto sc_genesis sc_history = Inr st"
      "channel_class st 7 = Some E2ee"
    by (auto elim!: afterE)
  have mem: "sc_a4 \<in> set sc_history" by (simp add: sc_history_def)
  have "ev_payload sc_a4 \<noteq> MessagePosted 7 t r k" for t r k
    by (rule e2ee_channel_has_no_plaintext [OF st mem])
  with st mem show ?thesis by blast
qed

section \<open>The fold as a whole\<close>

text \<open>C16: Every state that replay reaches satisfies the invariant of the fold (membership,
  invites, device bindings, channels and groups, key packages, counters), and from it no
  further event, whatever it contains, makes the fold panic.\<close>

theorem replay_well_formed:
  assumes "replay cr g es = Inr st"
  shows "log_wf st \<and> (\<forall>e. log_apply cr st e \<noteq> Inl GroupMissingPanic)"
  using log_wf_replay [OF assms] apply_no_panic by blast

theorem replay_well_formed_witness: "\<exists>st. replay toy_crypto sc_genesis sc_history = Inr st \<and> log_wf st"
  using sc_history_runs replay_well_formed by (blast elim: afterE)

section \<open>Sealed content\<close>

text \<open>C17: A sealed message or edit is accepted only from a full member whose device is a confirmed
  leaf of an E2EE channel's group, at the group's current generation and epoch, while no member
  is owed a removal, the freshness budget is not used up and no reset is incomplete.\<close>

theorem sealed_content_gates:
  assumes "log_apply cr st e = Inr st'" and "sealed_payload (ev_payload e) = Some (c, gen, ep)"
  shows "channel_class st c = Some E2ee \<and> full_member st (ev_author e) \<and>
    (ev_author e, ev_device e) \<in> leaves_confirmed st c \<and> mls_current_epoch st c = Some (gen, ep) \<and>
    pending_removals st c (ev_timestamp e) = {} \<and> freshness_spent st c < FRESHNESS_CEILING_EVENTS \<and>
    (\<forall>g. ls_mls_groups st c = Some g \<longrightarrow> mg_reset_welcomed g \<subseteq> mg_leaves_confirmed g)"
  using sealed_accepted [OF assms]
  by (auto simp: sealed_send_Inr leaves_confirmed_def mls_current_epoch_def freshness_spent_def reset_incomplete_def)

theorem sealed_content_gates_witness:
  "\<exists>st st'. replay toy_crypto sc_genesis sc_before_message = Inr st \<and> log_apply toy_crypto st sc_a4 = Inr st' \<and>
     mls_current_epoch st 7 = Some (0, 2) \<and> pending_removals st 7 20 = {}"
proof -
  obtain st st' where st: "replay toy_crypto sc_genesis sc_before_message = Inr st"
      "log_apply toy_crypto st sc_a4 = Inr st'"
    by (rule sc_message_step)
  from sealed_content_gates [OF st(2), of 7 0 2] st show ?thesis by (auto simp: sealed_payload_def)
qed

text \<open>Between two renewals of a group (a commit or a reset of its channel) the fold accepts at
  most the freshness ceiling of 500 sealed messages and edits in that channel.\<close>

theorem freshness_ceiling:
  assumes "replay cr g pre = Inr st" and "apply_all cr st es = Inr st'"
    and "\<And>e. e \<in> set es \<Longrightarrow> \<not> renews_budget c e"
  shows "freshness_spent st c + length (filter (sealed_in c) es) \<le> FRESHNESS_CEILING_EVENTS"
  using freshness_run [OF assms(2) log_wf_replay [OF assms(1)] assms(3)]
    freshness_spent_bound [OF log_wf_apply_all [OF assms(2) log_wf_replay [OF assms(1)]], of c] by simp

theorem freshness_ceiling_witness:
  "\<exists>st st'. replay toy_crypto sc_genesis sc_before_message = Inr st \<and> apply_all toy_crypto st [sc_a4] = Inr st' \<and>
     freshness_spent st 7 + 1 \<le> 500"
proof -
  obtain st st' where st: "replay toy_crypto sc_genesis sc_before_message = Inr st"
      "log_apply toy_crypto st sc_a4 = Inr st'"
    by (rule sc_message_step)
  then have run: "apply_all toy_crypto st [sc_a4] = Inr st'" by simp
  from freshness_ceiling [OF st(1) run, of 7] have "freshness_spent st 7 + 1 \<le> 500"
    by (auto simp: renews_budget_def sealed_in_def sealed_payload_def FRESHNESS_CEILING_EVENTS_def)
  with st run show ?thesis by blast
qed

section \<open>Groups\<close>

text \<open>C39: An accepted event never evicts a confirmed leaf whose holder is a member in good
  standing on a live device: unless the event is the holder's own or a reset of the group by
  the server's owner, the leaf is still confirmed after it.\<close>

theorem no_silent_eviction:
  assumes "replay cr g es = Inr st" and "log_apply cr st e = Inr st'"
    and "leaf \<in> leaves_confirmed st c" and "leaf_holder_in_good_standing st leaf (ev_timestamp e)"
    and "fst leaf \<noteq> ev_author e" and "\<And>gen ws th. ev_payload e \<noteq> MlsGroupReset c gen ws th"
  shows "leaf \<in> leaves_confirmed st' c"
proof -
  from assms(3) obtain grp where "ls_mls_groups st c = Some grp" "leaf \<in> mg_leaves_confirmed grp"
    by (auto simp: leaves_confirmed_def split: option.splits)
  then show ?thesis
    using good_standing_stays_confirmed [OF assms(2) log_wf_replay [OF assms(1)]] assms(4-6) by blast
qed

theorem no_silent_eviction_witness:
  "\<exists>st'. replay toy_crypto sc_genesis sc_history = Inr st' \<and> sc_owner_leaf \<in> leaves_confirmed st' 7"
proof -
  obtain st st' where st: "replay toy_crypto sc_genesis sc_before_message = Inr st"
      "sc_owner_leaf \<in> leaves_confirmed st 7" "leaf_holder_in_good_standing st sc_owner_leaf 20"
      "log_apply toy_crypto st sc_a4 = Inr st'" "replay toy_crypto sc_genesis sc_history = Inr st'"
    by (rule sc_message_step)
  have "fst sc_owner_leaf \<noteq> ev_author sc_a4" by (simp add: sc_leaf_def sc_owner_def sc_alice_def)
  with no_silent_eviction [OF st(1,4,2)] st(3,5) show ?thesis by auto
qed

text \<open>A group reset is the server owner's, starts the next generation at epoch 1 with the
  resetting leaf alone confirmed, and welcomes exactly the other live leaves of the members: no
  member can be dropped and nobody else let in.\<close>

theorem reset_covers_exactly:
  assumes "log_apply cr st e = Inr st'" and "ev_payload e = MlsGroupReset c gen ws th"
  shows "is_owner st (ev_author e) \<and> (\<exists>ep. mls_current_epoch st c = Some (gen - 1, ep)) \<and>
    mls_current_epoch st' c = Some (gen, 1) \<and> leaves_confirmed st' c = {(ev_author e, ev_device e)} \<and>
    pending_confirmations st' c = member_leaf_set st (ev_timestamp e) - {(ev_author e, ev_device e)} \<and>
    freshness_spent st' c = 0"
  using assms
  by (rule reset_covers)
    (auto simp: mls_current_epoch_def leaves_confirmed_def pending_confirmations_def freshness_spent_def)

theorem reset_covers_exactly_witness:
  "\<exists>st st'. log_apply toy_crypto st sc_o9 = Inr st' \<and> leaves_confirmed st' 7 = {(ev_author sc_o9, ev_device sc_o9)}"
proof -
  from sc_tail_runs obtain t where "replay toy_crypto sc_genesis (sc_history @ sc_tail) = Inr t" by (auto elim!: afterE)
  then have "apply_all toy_crypto (from_genesis toy_crypto sc_genesis)
      ((sc_history @ [sc_o6, sc_o7, sc_o8]) @ [sc_o9] @ [sc_o10, sc_o11]) = Inr t"
    by (simp add: replay_def sc_tail_def)
  then obtain m m' where "log_apply toy_crypto m sc_o9 = Inr m'"
    unfolding log_fold.run_append_Inr log_fold.run_Cons_Inr by blast
  with reset_covers_exactly [of toy_crypto m sc_o9 m' 7] show ?thesis by auto
qed

text \<open>C37: The (generation, epoch) of a channel's group never goes back along a history, and a
  channel that has a group keeps one.\<close>

theorem epochs_never_go_back:
  assumes "replay cr g pre = Inr st" and "apply_all cr st es = Inr st'"
  shows "epoch_le (mls_current_epoch st c) (mls_current_epoch st' c)"
  by (rule log_fold.run_relation [where I = log_wf and R = "\<lambda>s t. epoch_le (mls_current_epoch s c) (mls_current_epoch t c)",
        OF _ _ _ _ assms(2) log_wf_replay [OF assms(1)]])
    (blast intro: epoch_le_apply log_wf_apply epoch_le_refl epoch_le_trans)+

theorem epochs_never_go_back_witness:
  "\<exists>st st'. apply_all toy_crypto st sc_tail = Inr st' \<and> epoch_le (Some (0, 2)) (mls_current_epoch st' 7)"
proof -
  from sc_tail_runs obtain t where "replay toy_crypto sc_genesis (sc_history @ sc_tail) = Inr t" by (auto elim!: afterE)
  moreover from sc_history_runs obtain st where st: "replay toy_crypto sc_genesis sc_history = Inr st"
      "mls_current_epoch st 7 = Some (0, 2)" by (auto elim!: afterE)
  ultimately have run: "apply_all toy_crypto st sc_tail = Inr t"
    by (auto simp: replay_def log_fold.run_append_Inr)
  from epochs_never_go_back [OF st(1) run, of 7] st(2) run show ?thesis by auto
qed

text \<open>A commit whose epoch is no longer the group's is accepted but changes nothing except
  the accounting of its envelope (chain head, log position, clocks): it loses the race.\<close>

theorem stale_commit_changes_nothing:
  assumes "log_apply cr st e = Inr st'" and "ev_payload e = MlsCommit mc"
    and "mls_current_epoch st (mc_channel_id mc) = Some (gen, ep)" and "mc_epoch mc \<noteq> ep"
  shows "st' = envelope_accounting cr e st \<and> ls_mls_groups st' = ls_mls_groups st \<and>
    ls_key_packages st' = ls_key_packages st \<and> ls_consumed_key_packages st' = ls_consumed_key_packages st"
  using assms(1)
proof (cases rule: log_apply_cases)
  case (effect k st1)
  with assms show ?thesis
    by (auto simp: check_payload_authz_def check_mls_commit_def mls_current_epoch_def result_simps)
qed simp

theorem stale_commit_changes_nothing_witness:
  "\<exists>st st'. log_apply toy_crypto st sc_o7 = Inr st' \<and> ls_mls_groups st' = ls_mls_groups st"
proof -
  from sc_tail_runs obtain t where t: "replay toy_crypto sc_genesis (sc_history @ sc_tail) = Inr t" by (auto elim!: afterE)
  from sc_history_runs obtain st where st: "replay toy_crypto sc_genesis sc_history = Inr st"
      "mls_current_epoch st 7 = Some (0, 2)" by (auto elim!: afterE)
  from t have "apply_all toy_crypto (from_genesis toy_crypto sc_genesis)
      (sc_history @ [sc_o6, sc_o7] @ [sc_o8, sc_o9, sc_o10, sc_o11]) = Inr t"
    by (simp add: replay_def sc_tail_def)
  with st obtain m m' where m: "log_apply toy_crypto st sc_o6 = Inr m" "log_apply toy_crypto m sc_o7 = Inr m'"
    unfolding log_fold.run_append_Inr by (auto simp: replay_def result_simps)
  have "epoch_le (Some (0, 2)) (mls_current_epoch m 7)"
    using epoch_le_apply [OF m(1) log_wf_replay [OF st(1)], of 7] st(2) by simp
  then obtain gen ep where "mls_current_epoch m 7 = Some (gen, ep)" "gen > 0 \<or> ep \<ge> 2"
    by (cases "mls_current_epoch m 7") auto
  moreover from m(2) have "\<exists>ep. mls_current_epoch m 7 = Some (0, ep)"
    by (auto simp: log_apply_Inr check_payload_authz_def check_mls_commit_def sc_commit_def mls_current_epoch_def result_simps)
  ultimately have now: "mls_current_epoch m 7 = Some (0, ep)" "ep \<noteq> 0" by auto
  obtain mc where mc: "ev_payload sc_o7 = MlsCommit mc" "mc_channel_id mc = 7" "mc_epoch mc = 0"
    by (simp add: sc_commit_def)
  have "ls_mls_groups m' = ls_mls_groups m"
    using stale_commit_changes_nothing [OF m(2) mc(1)] mc(2,3) now by simp
  with m(2) show ?thesis by blast
qed

text \<open>C18: A commit that takes effect chains: it names the authenticator the group's last commit
  ended in, comes from a confirmed leaf (from the channel's creator while there is none), moves
  the group to the next epoch of the same generation, and leaves its own authenticator.\<close>

theorem commits_chain:
  assumes "replay cr g es = Inr st" and "log_apply cr st e = Inr st'" and "ev_payload e = MlsCommit mc"
    and "ls_mls_groups st (mc_channel_id mc) = Some grp" and "mc_epoch mc = mg_epoch grp"
  shows "mc_prev_epoch_authenticator mc \<in> (case mg_epoch_authenticator grp of Some a \<Rightarrow> {a} | None \<Rightarrow> UNIV) \<and>
    (if mg_leaves_confirmed grp = {} then (\<exists>r. ls_channels st (mc_channel_id mc) = Some r \<and> ch_creator r = ev_author e)
     else (ev_author e, ev_device e) \<in> mg_leaves_confirmed grp) \<and>
    (\<exists>grp'. ls_mls_groups st' (mc_channel_id mc) = Some grp' \<and> mg_generation grp' = mg_generation grp \<and>
       mg_epoch grp' = mg_epoch grp + 1 \<and> mg_epoch_authenticator grp' = Some (mc_post_epoch_authenticator mc))"
proof -
  note acc = commit_accepted [OF assms(2-5)]
  from acc(1) assms(4,5) show ?thesis
    by (auto simp: acc(2) check_mls_commit_def check_commit_author_def result_simps split: if_splits option.splits)
qed

theorem commits_chain_witness:
  "\<exists>st st'. log_apply toy_crypto st sc_o4 = Inr st' \<and> (\<exists>g. ls_mls_groups st' 7 = Some g \<and> mg_epoch g = 2)"
proof -
  obtain st st' where st: "replay toy_crypto sc_genesis sc_before_add = Inr st" "mls_current_epoch st 7 = Some (0, 1)"
      "log_apply toy_crypto st sc_o4 = Inr st'"
    by (rule sc_add_step)
  then obtain grp where grp: "ls_mls_groups st 7 = Some grp" "mg_epoch grp = 1"
    by (auto simp: mls_current_epoch_def)
  obtain mc where mc: "ev_payload sc_o4 = MlsCommit mc" "mc_channel_id mc = 7" "mc_epoch mc = 1"
    by (simp add: sc_commit_def)
  have "\<exists>g. ls_mls_groups st' 7 = Some g \<and> mg_epoch g = 2"
    using commits_chain [OF st(1,3) mc(1), of grp] mc(2,3) grp by (auto simp: numeral_2_eq_2)
  with st(3) show ?thesis by blast
qed

text \<open>A key package is used at most once: after a commit that added a leaf with it has taken
  effect, no commit that would add a leaf with it again, on whatever channel, can take effect.\<close>

theorem key_package_used_once:
  assumes "replay cr g pre = Inr st" and "log_apply cr st e1 = Inr st1" and "apply_all cr st1 mid = Inr st2"
    and "ev_payload e1 = MlsCommit mc1" and "mls_current_epoch st (mc_channel_id mc1) = Some (gen1, mc_epoch mc1)"
    and "a1 \<in> set (mc_adds mc1)"
    and "ev_payload e2 = MlsCommit mc2" and "mls_current_epoch st2 (mc_channel_id mc2) = Some (gen2, mc_epoch mc2)"
    and "a2 \<in> set (mc_adds mc2)" and "add_key_package a2 = add_key_package a1"
  shows "\<exists>err. log_apply cr st2 e2 = Inl err"
proof (rule ccontr)
  assume "\<nexists>err. log_apply cr st2 e2 = Inl err"
  then obtain st3 where step2: "log_apply cr st2 e2 = Inr st3" by (cases "log_apply cr st2 e2") auto
  from assms(5) obtain grp1 where "ls_mls_groups st (mc_channel_id mc1) = Some grp1" "mc_epoch mc1 = mg_epoch grp1"
    by (auto simp: mls_current_epoch_def)
  then have "add_key_package a1 \<in> dom (ls_consumed_key_packages st1)"
    by (rule commit_consumes(2) [OF assms(2,4) _ _ assms(6)])
  then have "add_key_package a1 \<in> dom (ls_consumed_key_packages st2)"
    by (rule log_fold.run_invariant [where I = "\<lambda>s. add_key_package a1 \<in> dom (ls_consumed_key_packages s)",
          OF _ assms(3), rotated]) (rule consumed_stay)
  moreover from assms(8) obtain grp2 where "ls_mls_groups st2 (mc_channel_id mc2) = Some grp2"
      "mc_epoch mc2 = mg_epoch grp2"
    by (auto simp: mls_current_epoch_def)
  then have "add_key_package a2 \<notin> dom (ls_consumed_key_packages st2)"
    by (rule commit_consumes(1) [OF step2 assms(7) _ _ assms(9)])
  ultimately show False using assms(10) by simp
qed

theorem key_package_used_once_witness:
  "\<exists>st err. replay toy_crypto sc_genesis (sc_before_add @ [sc_o4, sc_o5, sc_a3]) = Inr st \<and>
     log_apply toy_crypto st sc_again = Inl err"
proof -
  obtain st st1 where st: "replay toy_crypto sc_genesis sc_before_add = Inr st" "mls_current_epoch st 7 = Some (0, 1)"
      "log_apply toy_crypto st sc_o4 = Inr st1" "replay toy_crypto sc_genesis (sc_before_add @ [sc_o4]) = Inr st1"
    by (rule sc_add_step)
  obtain st2 where st2: "replay toy_crypto sc_genesis sc_before_message = Inr st2"
      "mls_current_epoch st2 7 = Some (0, 2)"
    by (rule sc_message_step)
  then have run: "apply_all toy_crypto st1 [sc_o5, sc_a3] = Inr st2"
    using st(4) by (auto simp: sc_before_message_def replay_def log_fold.run_append_Inr result_simps)
  obtain mc1 where mc1: "ev_payload sc_o4 = MlsCommit mc1" "mc_channel_id mc1 = 7" "mc_epoch mc1 = 1"
      "sc_add_alice \<in> set (mc_adds mc1)"
    by (simp add: sc_commit_def)
  obtain mc2 where mc2: "ev_payload sc_again = MlsCommit mc2" "mc_channel_id mc2 = 7" "mc_epoch mc2 = 2"
      "sc_add_alice \<in> set (mc_adds mc2)"
    by (simp add: sc_commit_def)
  have "\<exists>err. log_apply toy_crypto st2 sc_again = Inl err"
    by (rule key_package_used_once [OF st(1,3) run mc1(1) _ mc1(4) mc2(1) _ mc2(4)])
      (use st(2) st2(2) mc1(2,3) mc2(2,3) in simp_all)
  with st2(1) show ?thesis by (auto simp: sc_before_message_def)
qed



end
