(* ===== verification/LogClaims2.thy ===== *)
theory LogClaims2
  imports LogClaims
begin

text \<open>
  Further properties of the authorization fold: that a group can always be rekeyed, the two
  clocks, the device chains, membership, revocation, channels and deletions.
\<close>

section \<open>A group can be rekeyed\<close>

text \<open>C40: A confirmed member whose device is neither revoked nor expired can always rekey its
  group: the next event of its chain, carrying a plain commit on the group's current state, is
  accepted and moves the group to the next epoch, as soon as the freshness ceiling is near or
  the author's last commit is far enough back.\<close>

theorem member_can_rekey:
  assumes cr: "crypto_ok cr" and st: "replay cr g es = Inr st"
    and dev: "d = device_id_of cr (ed_public cr key)"
      "ls_devices st d = Some \<lparr>dr_identity = author, dr_device_pubkey = ed_public cr key, dr_expires_at = ex\<rparr>"
      "d \<notin> ls_revoked_devices st"
      "case ex of None \<Rightarrow> True | Some t \<Rightarrow> self_liveness_ts st author ts \<le> t"
    and chain: "ls_chains st (author, d) = Some \<lparr>hd_seq = ev_seq prev, hd_hash = event_hash_of cr prev\<rparr>"
      "ev_seq prev + 1 < 2 ^ 64"
    and member: "full_member st author" "\<not> is_banned st author"
    and grp: "ls_mls_groups st (mc_channel_id mc) = Some grp" "(author, d) \<in> mg_leaves_confirmed grp"
    and mc: "mc_generation mc = mg_generation grp" "mc_epoch mc = mg_epoch grp" "mc_adds mc = []" "mc_removes mc = []"
      "mg_epoch_authenticator grp \<in> {None, Some (mc_prev_epoch_authenticator mc)}"
      "ls_device_store_instance st d \<in> {None, Some (mc_store_instance_hash mc)}"
    and rate: "ceiling_demands_rekey grp \<or> (\<forall>p. mg_last_commit_epoch_by_author grp author = Some p \<longrightarrow>
        p + commit_rate_gap grp \<le> mg_epoch grp)"
  shows "\<exists>st'. log_apply cr st (event_next cr key author (ls_server_id st) (Some prev) lam ts (MlsCommit mc)) = Inr st' \<and>
    mls_current_epoch st' (mc_channel_id mc) = Some (mg_generation grp, mg_epoch grp + 1) \<and>
    freshness_spent st' (mc_channel_id mc) = 0"
proof -
  let ?e = "event_next cr key author (ls_server_id st) (Some prev) lam ts (MlsCommit mc)"
  note core [simp] = event_next_core dev(1) [symmetric]
  have sig: "event_verify cr ?e (ed_public cr key)" by (rule event_next_verifies [OF cr])
  have res: "resolve_device_pubkey cr st ?e = Inr (ed_public cr key)"
    by (simp add: resolve_device_pubkey_def dev(2))
  have exp: "check_cert_expiry st ?e = Inr ()"
    using dev(4) by (simp add: check_cert_expiry_def cert_expiry_def dev(2) split: option.splits)
  have chn: "check_chain st ?e = Inr ()"
    using chain(2) by (simp add: check_chain_def chain(1))
  have ok: "check_mls_commit st ?e mc = Inr Apply"
    using grp mc member rate
    by (auto simp: check_mls_commit_def check_commit_author_def commit_rate_ok_def check_instance_pin_def
        result_simps split: option.split)
  then have authz: "check_payload_authz st ?e = Inr Apply" by (simp add: check_payload_authz_def)
  obtain st1 where eff: "apply_payload_effect cr ?e (ed_public cr key) st = Inr st1"
    using grp(1) by (simp add: apply_payload_effect_def effect_mls_commit_def expect_group_def mc(3))
  have step: "log_apply cr st ?e = Inr (envelope_accounting cr ?e st1)"
    using member dev(3) sig res exp chn authz eff by (simp add: log_apply_def)
  then show ?thesis
    using commit_accepted(2) [OF step _ grp(1) mc(2)]
    by (auto simp: mls_current_epoch_def freshness_spent_def mc(2))
qed

lemma sc_rekey_ready:
  "after sc_history (\<lambda>st. ls_server_id st = genesis_server_id toy_crypto sc_genesis \<and>
     ls_devices st (snd sc_alice_leaf) = Some \<lparr>dr_identity = PublicKey sc_alice, dr_device_pubkey = PublicKey sc_alice_dev, dr_expires_at = None\<rparr> \<and>
     snd sc_alice_leaf \<notin> ls_revoked_devices st \<and>
     ls_chains st sc_alice_leaf = Some \<lparr>hd_seq = 4, hd_hash = event_hash_of toy_crypto sc_a4\<rparr> \<and> ev_seq sc_a4 = 4 \<and>
     full_member st (PublicKey sc_alice) \<and> \<not> is_banned st (PublicKey sc_alice) \<and>
     ls_device_store_instance st (snd sc_alice_leaf) = Some [8] \<and>
     (case ls_mls_groups st 7 of None \<Rightarrow> False
      | Some grp \<Rightarrow> sc_alice_leaf \<in> mg_leaves_confirmed grp \<and> mg_generation grp = 0 \<and> mg_epoch grp = 2 \<and>
          mg_epoch_authenticator grp = Some [2] \<and> mg_last_commit_epoch_by_author grp (PublicKey sc_alice) = None))"
  by (simp add: run_defs tail_defs insert_Diff_if)

theorem member_can_rekey_witness:
  "\<exists>st st' e. replay toy_crypto sc_genesis sc_history = Inr st \<and> log_apply toy_crypto st e = Inr st' \<and>
     ev_payload e = MlsCommit sc_rekey \<and> mls_current_epoch st' 7 = Some (0, 3)"
proof -
  from sc_rekey_ready obtain st grp where st: "replay toy_crypto sc_genesis sc_history = Inr st"
    and dev: "ls_devices st (snd sc_alice_leaf) = Some \<lparr>dr_identity = PublicKey sc_alice, dr_device_pubkey = PublicKey sc_alice_dev, dr_expires_at = None\<rparr>"
      "snd sc_alice_leaf \<notin> ls_revoked_devices st"
    and ch: "ls_chains st sc_alice_leaf = Some \<lparr>hd_seq = 4, hd_hash = event_hash_of toy_crypto sc_a4\<rparr>" "ev_seq sc_a4 = 4"
    and mem: "full_member st (PublicKey sc_alice)" "\<not> is_banned st (PublicKey sc_alice)"
    and pin: "ls_device_store_instance st (snd sc_alice_leaf) = Some [8]"
    and grp: "ls_mls_groups st 7 = Some grp" "sc_alice_leaf \<in> mg_leaves_confirmed grp" "mg_generation grp = 0" "mg_epoch grp = 2"
      "mg_epoch_authenticator grp = Some [2]" "mg_last_commit_epoch_by_author grp (PublicKey sc_alice) = None"
    by (auto elim!: afterE split: option.splits)
  have pub: "ed_public toy_crypto sc_alice_dev = PublicKey sc_alice_dev" by (simp add: toy_crypto_def)
  have leaf: "sc_alice_leaf = (PublicKey sc_alice, device_id_of toy_crypto (PublicKey sc_alice_dev))"
    by (simp add: sc_leaf_def)
  let ?e = "event_next toy_crypto sc_alice_dev (PublicKey sc_alice) (ls_server_id st) (Some sc_a4) 0 21 (MlsCommit sc_rekey)"
  have "\<exists>st'. log_apply toy_crypto st ?e = Inr st' \<and>
      mls_current_epoch st' (mc_channel_id sc_rekey) = Some (mg_generation grp, mg_epoch grp + 1) \<and>
      freshness_spent st' (mc_channel_id sc_rekey) = 0"
    by (rule member_can_rekey [where ex = None, OF toy_crypto_ok st refl])
      (use dev ch mem pin grp in \<open>simp_all add: pub leaf sc_rekey_def\<close>)
  then obtain st' where "log_apply toy_crypto st ?e = Inr st'" "mls_current_epoch st' 7 = Some (0, 3)"
    using grp by (auto simp: sc_rekey_def)
  moreover have "ev_payload ?e = MlsCommit sc_rekey" by (simp add: event_next_core)
  ultimately show ?thesis using st by blast
qed

section \<open>Clocks\<close>

text \<open>The corroborated clock is the greatest time that two distinct identities have both
  reached in their claims: a time is at or below it exactly when two different authors claimed
  it or later.\<close>

theorem corroborated_clock_needs_two:
  assumes "replay cr g es = Inr st" and "0 < t"
  shows "t \<le> ls_corroborated_clock st \<longleftrightarrow>
    (\<exists>a b. a \<noteq> b \<and> t \<le> identity_floor st a \<and> t \<le> identity_floor st b)"
  using corroborated_iff [OF log_wf_replay [OF assms(1)] assms(2)] .

theorem corroborated_clock_needs_two_witness:
  "\<exists>st. replay toy_crypto sc_genesis sc_history = Inr st \<and>
     (\<exists>a b. a \<noteq> b \<and> 18 \<le> identity_floor st a \<and> 18 \<le> identity_floor st b)"
proof -
  from sc_history_runs obtain st where st: "replay toy_crypto sc_genesis sc_history = Inr st"
      "ls_corroborated_clock st = 18" by (auto elim!: afterE)
  from corroborated_clock_needs_two [OF st(1), of 18] st show ?thesis by auto
qed

text \<open>However many events one author posts with whatever timestamps, the corroborated clock
  stays below every time that no other identity has reached: a lone author cannot move it on.\<close>

theorem lone_author_cannot_move_clock:
  assumes "replay cr g pre = Inr st" and "apply_all cr st es = Inr st'"
    and "\<And>e. e \<in> set es \<Longrightarrow> ev_author e = a" and "\<And>b. b \<noteq> a \<Longrightarrow> identity_floor st b < t"
  shows "ls_corroborated_clock st' < t"
proof (rule ccontr)
  assume "\<not> ls_corroborated_clock st' < t"
  have floors: "b \<noteq> a \<Longrightarrow> identity_floor st' b = identity_floor st b" for b
    using assms(2,3)
  proof (induction es arbitrary: st)
    case (Cons e es)
    then obtain m where m: "log_apply cr st e = Inr m" "apply_all cr m es = Inr st'" by (auto simp: result_simps)
    with Cons.IH [OF Cons.prems(1) m(2)] Cons.prems apply_identity_floor [OF m(1), of b] show ?case by simp
  qed simp
  obtain b :: public_key where "b \<noteq> a" by (metis public_key.inject neq_Nil_conv)
  with assms(4) have "0 < t" by (metis gr_zeroI less_zeroE)
  with \<open>\<not> ls_corroborated_clock st' < t\<close>
    corroborated_iff [OF log_wf_apply_all [OF assms(2) log_wf_replay [OF assms(1)]], of t]
  obtain x y where "x \<noteq> y" "t \<le> identity_floor st' x" "t \<le> identity_floor st' y" by auto
  then obtain z where "z \<noteq> a" "t \<le> identity_floor st' z" by metis
  with assms(4) [of z] floors show False by simp
qed

theorem lone_author_cannot_move_clock_witness:
  "\<exists>st'. apply_all toy_crypto (from_genesis toy_crypto sc_genesis) [sc_o0] = Inr st' \<and> ls_corroborated_clock st' < 1"
proof -
  from sc_history_runs obtain t where "apply_all toy_crypto (from_genesis toy_crypto sc_genesis) ([sc_o0] @ tl sc_history) = Inr t"
    by (auto elim!: afterE simp: replay_def sc_history_def)
  then obtain m where m: "apply_all toy_crypto (from_genesis toy_crypto sc_genesis) [sc_o0] = Inr m"
    unfolding log_fold.run_append_Inr by blast
  moreover have "ls_corroborated_clock m < 1"
    by (rule lone_author_cannot_move_clock [OF _ m, of sc_genesis "[]" "ev_author sc_o0"])
      (auto simp: replay_def from_genesis_def identity_floor_def)
  ultimately show ?thesis by blast
qed

text \<open>Forward-dating an event cannot make another identity's device look dead: a device that
  is live at the log's own corroborated clock is judged live whatever time the event claims.\<close>

theorem forward_dating_is_harmless:
  assumes "replay cr g es = Inr st" and "d \<in> set (judged_live_devices st pk (ls_corroborated_clock st))"
  shows "d \<in> set (judged_live_devices st pk at_ts)"
  using judged_live_floor assms(2) log_wf_replay [OF assms(1)] by (auto simp: log_wf_def)

lemma sc_alice_live:
  "after sc_history (\<lambda>st. snd sc_alice_leaf \<in> set (judged_live_devices st (PublicKey sc_alice) (ls_corroborated_clock st)))"
  by (simp add: run_defs tail_defs)

theorem forward_dating_is_harmless_witness:
  "\<exists>st. replay toy_crypto sc_genesis sc_history = Inr st \<and>
     snd sc_alice_leaf \<in> set (judged_live_devices st (PublicKey sc_alice) 1000000)"
  using sc_alice_live forward_dating_is_harmless by (blast elim: afterE)

end
