(* ===== verification/LogDevices.thy ===== *)
theory LogDevices
  imports LogClaims2
begin

text \<open>
  The cap on an identity's live devices, its limit, and the properties of chains, members,
  revocations, channels and deletions.
\<close>

section \<open>The live-device cap\<close>

text \<open>A history in which no device is registered under two identities.\<close>

definition devices_not_rebound :: "event list \<Rightarrow> bool" where
  "devices_not_rebound es \<longleftrightarrow>
     (\<forall>e \<in> set es. \<forall>e' \<in> set es. (\<exists>c. ev_payload e = DeviceAuthorized c) \<and> (\<exists>c. ev_payload e' = DeviceAuthorized c) \<and>
        ev_device e = ev_device e' \<longrightarrow> ev_author e = ev_author e')"

definition registered_by :: "event list \<Rightarrow> log_state \<Rightarrow> bool" where
  "registered_by es st \<longleftrightarrow>
     (\<forall>pk ds d. ls_devices_by_identity st pk = Some ds \<and> d \<in> ds \<longrightarrow>
        (\<exists>e \<in> set es. \<exists>c. ev_payload e = DeviceAuthorized c \<and> ev_device e = d \<and> ev_author e = pk))"

definition floor_live :: "log_state \<Rightarrow> public_key \<Rightarrow> device_id set" where
  "floor_live st pk = set (live_devices_at st pk (identity_floor st pk))"

lemma floor_live_eq:
  "wf_devices st \<Longrightarrow> floor_live st pk =
    {d. \<exists>ds. ls_devices_by_identity st pk = Some ds \<and> d \<in> ds \<and> d \<notin> ls_revoked_devices st \<and>
       device_unexpired st (identity_floor st pk) d}"
  by (simp add: floor_live_def set_live_devices_at)

lemma replay_snoc_registered:
  assumes "log_apply cr st e = Inr st'" and "registered_by es st"
  shows "registered_by (es @ [e]) st'"
  using assms(1)
proof (cases rule: log_apply_cases)
  case (stale mc)
  with assms(2) show ?thesis by (auto simp: registered_by_def)
next
  case (effect k st1)
  show ?thesis
  proof (cases "\<exists>c. ev_payload e = DeviceAuthorized c")
    case True
    then have "ls_devices_by_identity st' = (ls_devices_by_identity st)(ev_author e \<mapsto> insert (ev_device e)
        (case ls_devices_by_identity st (ev_author e) of None \<Rightarrow> {} | Some ds \<Rightarrow> ds))"
      using effect(4) effect_devices(2) [OF effect(3)] by auto
    with True assms(2) show ?thesis
      by (fastforce simp: registered_by_def split: if_splits option.splits)
  next
    case False
    then have "ls_devices_by_identity st' = ls_devices_by_identity st"
      using effect(4) effect_devices(2) [OF effect(3)] by (auto split: event_payload.splits)
    with assms(2) show ?thesis unfolding registered_by_def by auto
  qed
qed

lemma replay_registered: "replay cr g es = Inr st \<Longrightarrow> registered_by es st"
proof (induction es arbitrary: st rule: rev_induct)
  case Nil
  then show ?case by (auto simp: replay_def from_genesis_def registered_by_def)
next
  case (snoc e es)
  then show ?case by (auto simp: replay_snoc intro: replay_snoc_registered)
qed

lemma floor_live_other:
  assumes step: "log_apply cr st e = Inr st'" and wf: "log_wf st"
    and no_auth: "\<And>c. ev_payload e = DeviceAuthorized c \<Longrightarrow> pk \<noteq> ev_author e \<and>
      (\<forall>ds. ls_devices_by_identity st pk = Some ds \<longrightarrow> ev_device e \<notin> ds)"
  shows "floor_live st' pk \<subseteq> floor_live st pk"
proof -
  have w: "wf_devices st" "wf_devices st'" using wf log_wf_apply [OF step wf] by (auto simp: log_wf_def)
  have mono: "device_unexpired st (identity_floor st' pk) d \<Longrightarrow> device_unexpired st (identity_floor st pk) d" for d
    by (rule device_unexpired_antimono [OF apply_floor_mono [OF step]])
  show ?thesis
    using step
  proof (cases rule: log_apply_cases)
    case (stale mc)
    then have "device_unexpired st' t d = device_unexpired st t d" for t d by (simp add: device_unexpired_def)
    with stale mono show ?thesis unfolding floor_live_eq [OF w(1)] floor_live_eq [OF w(2)] by auto
  next
    case (effect k st1)
    have same: "ls_devices_by_identity st' pk = ls_devices_by_identity st pk"
      using effect(4) effect_devices(2) [OF effect(3)] no_auth by (cases "ev_payload e") auto
    have rev: "ls_revoked_devices st \<subseteq> ls_revoked_devices st'" using revoked_stay [OF step] by blast
    have unexp: "device_unexpired st' t d = device_unexpired st t d"
      if "ls_devices_by_identity st pk = Some ds" "d \<in> ds" for t d ds
    proof -
      have "ls_devices st' d = ls_devices st d"
        using effect(4) effect_devices(1) [OF effect(3)] no_auth that by (cases "ev_payload e") auto
      then show ?thesis by (simp add: device_unexpired_def)
    qed
    show ?thesis
      unfolding floor_live_eq [OF w(1)] floor_live_eq [OF w(2)] same using unexp mono rev by auto
  qed
qed

lemma floor_live_register:
  assumes step: "log_apply cr st e = Inr st'" and wf: "log_wf st" and p: "ev_payload e = DeviceAuthorized c"
  shows "floor_live st' (ev_author e) \<subseteq>
      insert (ev_device e) (set (live_devices st (ev_author e) (ev_timestamp e)))"
    and "card (set (live_devices st (ev_author e) (ev_timestamp e))) < MAX_LIVE_DEVICES_PER_IDENTITY"
proof -
  have w: "wf_devices st" "wf_devices st'" using wf log_wf_apply [OF step wf] by (auto simp: log_wf_def)
  from step obtain k st1 where chk: "check_device_authorized st e = Inr Apply"
    and eff: "apply_payload_effect cr e k st = Inr st1" and st': "st' = envelope_accounting cr e st1"
    by (rule log_apply_cases) (use p in \<open>auto simp: check_payload_authz_def\<close>)
  from chk show "card (set (live_devices st (ev_author e) (ev_timestamp e))) < MAX_LIVE_DEVICES_PER_IDENTITY"
    by (simp add: check_device_authorized_def result_simps live_devices_def length_live_devices_at)
  have unexp: "device_unexpired st' t d = device_unexpired st t d" if "d \<noteq> ev_device e" for t d
    using st' effect_devices(1) [OF eff] p that by (simp add: device_unexpired_def)
  have floor: "identity_floor st' (ev_author e) = self_liveness_ts st (ev_author e) (ev_timestamp e)"
    by (simp add: apply_identity_floor [OF step] self_liveness_ts_def max.commute)
  show "floor_live st' (ev_author e) \<subseteq> insert (ev_device e) (set (live_devices st (ev_author e) (ev_timestamp e)))"
    unfolding floor_live_eq [OF w(2)] live_devices_def set_live_devices_at [OF w(1)] floor
    using st' effect_devices [OF eff] p unexp by (auto split: option.splits)
qed

lemma devices_not_rebound_subset: "set es \<subseteq> set es' \<Longrightarrow> devices_not_rebound es' \<Longrightarrow> devices_not_rebound es"
  unfolding devices_not_rebound_def by blast

lemma finite_floor_live [simp]: "finite (floor_live st pk)"
  by (simp add: floor_live_def)

lemma floor_live_cap:
  "replay cr g es = Inr st \<Longrightarrow> devices_not_rebound es \<Longrightarrow> card (floor_live st pk) \<le> MAX_LIVE_DEVICES_PER_IDENTITY"
proof (induction es arbitrary: st rule: rev_induct)
  case Nil
  then show ?case by (auto simp: replay_def from_genesis_def floor_live_def live_devices_at_def)
next
  case (snoc e es)
  then obtain m where m: "replay cr g es = Inr m" "log_apply cr m e = Inr st" by (auto simp: replay_snoc)
  have wf: "log_wf m" by (rule log_wf_replay [OF m(1)])
  have IH: "card (floor_live m pk) \<le> MAX_LIVE_DEVICES_PER_IDENTITY"
    using snoc.IH [OF m(1) devices_not_rebound_subset [OF _ snoc.prems(2)]] by auto
  show ?case
  proof (cases "\<exists>c. ev_payload e = DeviceAuthorized c \<and> pk = ev_author e")
    case True
    then obtain c where c: "ev_payload e = DeviceAuthorized c" "pk = ev_author e" by blast
    note reg = floor_live_register [OF m(2) wf c(1)]
    have "card (floor_live st pk) \<le> card (insert (ev_device e) (set (live_devices m pk (ev_timestamp e))))"
      using reg(1) c(2) by (intro card_mono) auto
    also have "\<dots> \<le> Suc (card (set (live_devices m pk (ev_timestamp e))))" by (rule card_insert_le_m1) auto
    also have "\<dots> \<le> MAX_LIVE_DEVICES_PER_IDENTITY" using reg(2) c(2) by simp
    finally show ?thesis .
  next
    case False
    have "floor_live st pk \<subseteq> floor_live m pk"
    proof (rule floor_live_other [OF m(2) wf])
      fix c
      assume p: "ev_payload e = DeviceAuthorized c"
      with False have ne: "pk \<noteq> ev_author e" by blast
      have "ev_device e \<notin> ds" if "ls_devices_by_identity m pk = Some ds" for ds
      proof
        assume "ev_device e \<in> ds"
        with replay_registered [OF m(1)] that obtain e' c' where "e' \<in> set es" "ev_payload e' = DeviceAuthorized c'"
            "ev_device e' = ev_device e" "ev_author e' = pk"
          unfolding registered_by_def by blast
        with snoc.prems(2) p ne show False
          unfolding devices_not_rebound_def by (metis in_set_conv_decomp set_ConsD rotate1.simps(2) set_rotate1 list.set_intros)
      qed
      with ne show "pk \<noteq> ev_author e \<and> (\<forall>ds. ls_devices_by_identity m pk = Some ds \<longrightarrow> ev_device e \<notin> ds)" by blast
    qed
    then have "card (floor_live st pk) \<le> card (floor_live m pk)" by (intro card_mono) auto
    with IH show ?thesis by simp
  qed
qed

text \<open>As long as no device is registered under two identities, an identity never has more than
  eight live devices, whichever of the two clocks they are counted at.\<close>

theorem live_device_cap:
  assumes "replay cr g es = Inr st" and "devices_not_rebound es"
  shows "length (judged_live_devices st pk at_ts) \<le> MAX_LIVE_DEVICES_PER_IDENTITY \<and>
    length (live_devices st pk at_ts) \<le> MAX_LIVE_DEVICES_PER_IDENTITY"
proof -
  have w: "wf_devices st" using log_wf_replay [OF assms(1)] by (simp add: log_wf_def)
  have "length (live_devices_at st pk t) \<le> MAX_LIVE_DEVICES_PER_IDENTITY" if "identity_floor st pk \<le> t" for t
  proof -
    have "set (live_devices_at st pk t) \<subseteq> floor_live st pk"
      unfolding floor_live_def by (rule live_devices_at_antimono [OF w that])
    then have "card (set (live_devices_at st pk t)) \<le> card (floor_live st pk)" by (intro card_mono) auto
    with floor_live_cap [OF assms] show ?thesis by (simp add: length_live_devices_at order_trans)
  qed
  then show ?thesis
    by (simp add: judged_live_devices_def live_devices_def judged_liveness_ts_def self_liveness_ts_def)
qed

theorem live_device_cap_witness:
  "\<exists>st. replay toy_crypto sc_genesis [sc_o0] = Inr st \<and> length (live_devices st (PublicKey sc_owner) 0) \<le> 8"
proof -
  from sc_history_runs obtain t where "apply_all toy_crypto (from_genesis toy_crypto sc_genesis) ([sc_o0] @ tl sc_history) = Inr t"
    by (auto elim!: afterE simp: replay_def sc_history_def)
  then obtain m where m: "replay toy_crypto sc_genesis [sc_o0] = Inr m"
    unfolding log_fold.run_append_Inr replay_def by blast
  from live_device_cap [OF m] m show ?thesis
    by (auto simp: devices_not_rebound_def MAX_LIVE_DEVICES_PER_IDENTITY_def)
qed

text \<open>
  Without that condition the cap does not hold: \<open>devices.insert\<close> lets a second identity
  register a device again, which replaces the device's expiry while the first identity still
  lists it.
\<close>

definition live_among :: "log_state \<Rightarrow> nat \<Rightarrow> device_id set \<Rightarrow> device_id set" where
  "live_among st at ds = {d \<in> ds. d \<notin> ls_revoked_devices st \<and> device_unexpired st at d}"

lemma live_devices_at_eval:
  "live_devices_at st pk at =
     (case ls_devices_by_identity st pk of None \<Rightarrow> [] | Some ds \<Rightarrow> sorted_list_of_set (live_among st at ds))"
  "live_among st at {} = {}"
  "live_among st at (insert d ds) =
     (if d \<notin> ls_revoked_devices st \<and> device_unexpired st at d then insert d (live_among st at ds) else live_among st at ds)"
  by (auto simp: live_devices_at_def live_among_def split: option.split)

definition cap_register :: "keypair \<Rightarrow> byte \<Rightarrow> nat option \<Rightarrow> nat \<Rightarrow> event" where
  "cap_register identity dev ex ts = event_next toy_crypto [dev] (PublicKey identity)
     (genesis_server_id toy_crypto sc_genesis) None 0 ts
     (DeviceAuthorized (cert_create_inner toy_crypto identity (PublicKey [dev]) 0 ex))"

definition cap_history :: "event list" where
  "cap_history = cap_register sc_alice 21 (Some 10) 5
     # map (\<lambda>d. cap_register sc_alice d None 20) [22, 23, 24, 25, 26, 27, 28, 29]
     @ [cap_register sc_owner 21 None 20]"

text \<open>The cap can be exceeded when a device is registered under two identities: a concrete
  accepted history gives one identity nine live devices.\<close>

theorem live_device_cap_bypass:
  "\<exists>st. replay toy_crypto sc_genesis cap_history = Inr st \<and>
     length (judged_live_devices st (PublicKey sc_alice) 20) = 9"
proof -
  have "after cap_history (\<lambda>st. length (judged_live_devices st (PublicKey sc_alice) 20) = 9)"
    by (simp add: cap_history_def cap_register_def run_defs live_devices_at_eval del: live_devices_at_def)
  then show ?thesis by (auto dest: afterD)
qed

end
