(* ===== verification/LogClaims3.thy ===== *)
theory LogClaims3
  imports LogDevices
begin

text \<open>
  Properties of the device chains, of membership, bans and revocations, of channels and
  deletions, and of the order that decides between competing commits.
\<close>

section \<open>Chains\<close>

text \<open>C32: The accepted events of one device of one author form a gapless hash chain: the i-th has
  sequence number i and names the hash of the one before it (none for the first), and the
  state's chain head is the last of them.\<close>

theorem device_chain_is_gapless:
  assumes "replay cr g es = Inr st" and "i < length (chain_of k es)"
  shows "ev_seq (chain_of k es ! i) = i \<and>
    ev_prev (chain_of k es ! i) = (if i = 0 then None else Some (event_hash_of cr (chain_of k es ! (i - 1)))) \<and>
    ls_chains st k = Some \<lparr>hd_seq = length (chain_of k es) - 1, hd_hash = event_hash_of cr (last (chain_of k es))\<rparr>"
  using chain_head_of [OF assms(1), of k] assms(2) by auto

theorem device_chain_is_gapless_witness:
  "chain_of (ev_author sc_o0, ev_device sc_o0) [sc_o0] = [sc_o0] \<and> ev_seq sc_o0 = 0 \<and> ev_prev sc_o0 = None"
proof -
  from sc_history_runs obtain t where "apply_all toy_crypto (from_genesis toy_crypto sc_genesis) ([sc_o0] @ tl sc_history) = Inr t"
    by (auto elim!: afterE simp: replay_def sc_history_def)
  then obtain m where m: "replay toy_crypto sc_genesis [sc_o0] = Inr m"
    unfolding log_fold.run_append_Inr replay_def by blast
  have c: "chain_of (ev_author sc_o0, ev_device sc_o0) [sc_o0] = [sc_o0]" by (simp add: chain_of_def)
  from device_chain_is_gapless [OF m, of 0 "(ev_author sc_o0, ev_device sc_o0)"] c show ?thesis by simp
qed

section \<open>Membership\<close>

text \<open>Every member and every pending member of a state that replay reaches is the server's
  owner or has itself authored a join event in the history.\<close>

theorem members_joined_themselves:
  assumes "replay cr g es = Inr st" and "pk \<in> ls_members st \<or> pk \<in> ls_pending st"
  shows "pk = g_owner g \<or> (\<exists>e \<in> set es. ev_author e = pk \<and> (\<exists>i. ev_payload e = MemberJoined pk i))"
  using members_joined [OF assms(1), of pk] assms(2) by (auto simp: joined_by_def)

theorem members_joined_themselves_witness:
  "\<exists>e \<in> set sc_history. ev_author e = PublicKey sc_alice \<and> (\<exists>i. ev_payload e = MemberJoined (PublicKey sc_alice) i)"
proof -
  from sc_history_runs obtain st where st: "replay toy_crypto sc_genesis sc_history = Inr st"
      "PublicKey sc_alice \<in> ls_members st" by (auto elim!: afterE)
  have "PublicKey sc_alice \<noteq> g_owner sc_genesis" by (simp add: sc_genesis_def sc_alice_def sc_owner_def)
  with members_joined_themselves [OF st(1), of "PublicKey sc_alice"] st(2) show ?thesis by blast
qed

text \<open>After a ban and until an unban of that member, no event the banned member authors is
  accepted, and the ban stays.\<close>

theorem banned_member_is_silenced:
  assumes "replay cr g pre = Inr st" and "m \<in> ls_banned st" and "apply_all cr st es = Inr st'"
    and "\<And>e. e \<in> set es \<Longrightarrow> ev_payload e \<noteq> MemberUnbanned m"
  shows "(\<forall>e \<in> set es. ev_author e \<noteq> m) \<and> m \<in> ls_banned st'"
  using assms(2-4)
proof (induction es arbitrary: st)
  case (Cons e es)
  from Cons.prems(2) obtain n where n: "log_apply cr st e = Inr n" "apply_all cr n es = Inr st'" by (auto simp: result_simps)
  note step = ban_step [OF n(1) Cons.prems(1) Cons.prems(3) [of e]]
  from Cons.IH [OF _ n(2)] step Cons.prems(3) show ?case by auto
qed simp

theorem banned_member_is_silenced_witness:
  "\<exists>st. replay toy_crypto sc_genesis (sc_history @ sc_tail) = Inr st \<and>
     (\<forall>es st'. apply_all toy_crypto st es = Inr st' \<and> (\<forall>e \<in> set es. ev_payload e \<noteq> MemberUnbanned (PublicKey sc_alice))
        \<longrightarrow> (\<forall>e \<in> set es. ev_author e \<noteq> PublicKey sc_alice))"
proof -
  from sc_tail_runs obtain st where "replay toy_crypto sc_genesis (sc_history @ sc_tail) = Inr st"
      "PublicKey sc_alice \<in> ls_banned st" by (auto elim!: afterE)
  with banned_member_is_silenced [of toy_crypto sc_genesis _ st "PublicKey sc_alice"] show ?thesis by blast
qed

text \<open>C33: Revocation is final: once a device is revoked no later event of it is accepted, it is
  never counted live again, and it stays revoked.\<close>

theorem revoked_device_is_final:
  assumes "replay cr g pre = Inr st" and "d \<in> ls_revoked_devices st" and "apply_all cr st es = Inr st'"
  shows "d \<in> ls_revoked_devices st' \<and> (\<forall>e \<in> set es. ev_device e \<noteq> d) \<and>
    d \<notin> set (live_devices st' pk at_ts) \<and> d \<notin> set (judged_live_devices st' pk at_ts)"
proof -
  have dead: "d \<notin> set (live_devices_at s pk t)" if "log_wf s" "d \<in> ls_revoked_devices s" for s t
  proof -
    have "wf_devices s" using that(1) by (simp add: log_wf_def)
    from set_live_devices_at [OF this] that(2) show ?thesis by auto
  qed
  have "d \<in> ls_revoked_devices st' \<and> (\<forall>e \<in> set es. ev_device e \<noteq> d)"
    using assms(2,3)
  proof (induction es arbitrary: st)
    case (Cons e es)
    from Cons.prems(2) obtain n where n: "log_apply cr st e = Inr n" "apply_all cr n es = Inr st'" by (auto simp: result_simps)
    have "ev_device e \<noteq> d" using n(1) Cons.prems(1) by (auto simp: log_apply_Inr)
    with Cons.IH [OF revoked_stay [OF n(1) Cons.prems(1)] n(2)] show ?case by simp
  qed simp
  moreover have "log_wf st'" by (rule log_wf_apply_all [OF assms(3) log_wf_replay [OF assms(1)]])
  ultimately show ?thesis using dead by (simp add: live_devices_def judged_live_devices_def)
qed

theorem revoked_device_is_final_witness:
  "\<exists>st. replay toy_crypto sc_genesis (sc_history @ sc_tail) = Inr st \<and>
     snd sc_alice_leaf \<notin> set (live_devices st (PublicKey sc_alice) 0)"
proof -
  from sc_tail_runs obtain st where st: "replay toy_crypto sc_genesis (sc_history @ sc_tail) = Inr st"
      "snd sc_alice_leaf \<in> ls_revoked_devices st" by (auto elim!: afterE)
  from revoked_device_is_final [OF st, of "[]"] st(1) show ?thesis by auto
qed

section \<open>Channels and deletions\<close>

text \<open>A channel, once created, keeps its record for the rest of the history: its name, kind,
  class, parent and creator never change, so a plaintext channel never becomes encrypted nor an
  encrypted one plaintext.\<close>

theorem channel_record_is_immutable:
  assumes "apply_all cr st es = Inr st'" and "ls_channels st c = Some r"
  shows "ls_channels st' c = Some r"
  by (rule log_fold.run_invariant [where I = "\<lambda>s. ls_channels s c = Some r", OF _ assms]) (rule channels_stay)

theorem channel_record_is_immutable_witness:
  "\<exists>st st' r. apply_all toy_crypto st sc_tail = Inr st' \<and> ls_channels st' 7 = Some r \<and> ch_class r = E2ee"
proof -
  from sc_tail_runs obtain t where t: "replay toy_crypto sc_genesis (sc_history @ sc_tail) = Inr t" by (auto elim!: afterE)
  from sc_history_runs obtain st where st: "replay toy_crypto sc_genesis sc_history = Inr st"
      "channel_class st 7 = Some E2ee" by (auto elim!: afterE)
  from t st(1) have run: "apply_all toy_crypto st sc_tail = Inr t" by (auto simp: replay_def log_fold.run_append_Inr)
  from st(2) obtain r where "ls_channels st 7 = Some r" "ch_class r = E2ee" by (auto simp: channel_class_def)
  with channel_record_is_immutable [OF run] run show ?thesis by blast
qed

text \<open>Deletion is final: once an event is tombstoned, no later history contains a second
  deletion of it or a sealed edit of it.\<close>

theorem deletion_is_final:
  assumes "apply_all cr st es = Inr st'" and "target \<in> ls_tombstones st" and "e \<in> set es"
  shows "ev_payload e \<noteq> MessageDeleted c target reason \<and> ev_payload e \<noteq> MessageEditedE2ee c target gen ep ct ah"
proof -
  from assms(1,3) obtain pre m m' where m: "apply_all cr st pre = Inr m" "log_apply cr m e = Inr m'"
    by (rule log_fold.run_split_at)
  have "target \<in> ls_tombstones m"
    by (rule log_fold.run_invariant [where I = "\<lambda>s. target \<in> ls_tombstones s", OF _ m(1) assms(2)]) (rule tombstones_stay)
  with m(2) show ?thesis
    by (auto simp: log_apply_Inr check_payload_authz_def check_message_deleted_def check_message_edited_def result_simps)
qed

theorem deletion_is_final_witness:
  "\<exists>st. event_hash_of toy_crypto sc_a4 \<in> ls_tombstones st \<and>
     (\<forall>e st'. log_apply toy_crypto st e = Inr st' \<longrightarrow>
        ev_payload e \<noteq> MessageDeleted 7 (event_hash_of toy_crypto sc_a4) AuthorDelete)"
proof -
  from sc_tail_runs obtain st where "replay toy_crypto sc_genesis (sc_history @ sc_tail) = Inr st"
      and st: "event_hash_of toy_crypto sc_a4 \<in> ls_tombstones st" by (auto elim!: afterE)
  have "ev_payload e \<noteq> MessageDeleted 7 (event_hash_of toy_crypto sc_a4) AuthorDelete"
    if "log_apply toy_crypto st e = Inr st'" for e st'
    using deletion_is_final [of toy_crypto st "[e]" st', OF _ st] that by simp
  with st show ?thesis by blast
qed

section \<open>Competing commits\<close>

lemma cmp_simps: "cmp a b = Less \<longleftrightarrow> a < b" "cmp a b = Greater \<longleftrightarrow> b < a" "cmp a b = Equal \<longleftrightarrow> a = b"
  by (auto simp: cmp_def)

text \<open>The order that picks the winner among competing commits of one epoch is a strict weak
  order that every client computes alike: it is antisymmetric and transitive, a commit that
  discharges membership drift beats one that does not, and two commits tie only if they agree in
  lamport, author and hash.\<close>

theorem commit_race_is_decided:
  shows "(compare_same_epoch_commits cr st a b = Less \<longleftrightarrow> compare_same_epoch_commits cr st b a = Greater) \<and>
    (\<not> (compare_same_epoch_commits cr st a b = Less \<and> compare_same_epoch_commits cr st b c = Less \<and>
        compare_same_epoch_commits cr st a c \<noteq> Less)) \<and>
    (\<not> (commit_discharges_drift st a \<and> \<not> commit_discharges_drift st b \<and> compare_same_epoch_commits cr st a b \<noteq> Less)) \<and>
    (compare_same_epoch_commits cr st a b = Equal \<longleftrightarrow>
       (commit_discharges_drift st a \<longleftrightarrow> commit_discharges_drift st b) \<and> ev_lamport a = ev_lamport b \<and>
       ev_author a = ev_author b \<and> event_hash_of cr a = event_hash_of cr b)"
  by (auto simp: compare_same_epoch_commits_def cmp_simps public_key.expand split: if_splits dest: less_trans)

section \<open>Certificates and events\<close>

text \<open>What the constructors sign, the verifiers accept: a certificate for a device, with or
  without expiry, verifies and binds that device's key and id to the identity, and the next
  event of a device verifies under the device's public key.\<close>

theorem signing_round_trips:
  assumes "crypto_ok cr"
  shows "cert_verify cr (cert_create cr identity dev t) = Inr () \<and>
    cert_verify cr (cert_create_expiring cr identity dev t ex) = Inr () \<and>
    dc_device_id (cert_core (cert_create_expiring cr identity dev t ex)) = device_id_of cr dev \<and>
    dc_identity (cert_core (cert_create_expiring cr identity dev t ex)) = ed_public cr identity \<and>
    event_verify cr (event_next cr key author server prev lam ts payload) (ed_public cr key)"
  using assms by (simp add: cert_create_def cert_create_expiring_def cert_create_inner_verifies event_next_verifies)

theorem signing_round_trips_witness:
  "cert_verify toy_crypto (cert_create toy_crypto sc_owner (PublicKey sc_owner_dev) 0) = Inr ()"
  using signing_round_trips [OF toy_crypto_ok] by blast

end
