(* ===== verification/IngestClaims.thy ===== *)
theory IngestClaims
  imports ServerScenario LogClaims3
begin

text \<open>
  The properties of the ingest: what holds of every state the server can reach by submissions,
  server-authored writes and restarts.
\<close>

section \<open>Facts about reachable states\<close>

lemma step_events:
  assumes inv: "server_inv cr sv" and step: "server_step cr sv sv'"
  shows "(sv_log sv' = sv_log sv \<and> db_events (sv_db sv') = db_events (sv_db sv) \<or> (\<exists>te. submit_step cr sv te = Inr sv')) \<and>
    sv_genesis sv' = sv_genesis sv"
  using step
proof cases
  case (submit te)
  then obtain ns os where "submit_event cr (fst te) sv (snd te) = Inr (sv', ns, os)" by (auto simp: submit_step_Inr)
  then have "sv_genesis sv' = sv_genesis sv" by (rule submit_event_Inr) simp
  with submit show ?thesis by blast
next
  case restart
  obtain db' where st: "startup cr (sv_db sv) = Inr (sv\<lparr>sv_db := db'\<rparr>)" and rv: "restart_view (sv_db sv) db'"
    using startup_ok [OF inv] by blast
  from restart st have sv': "sv' = sv\<lparr>sv_db := db'\<rparr>" by simp
  obtain g where "db_events db' = db_events (sv_db sv)" by (rule restart_view_eqs [OF rv])
  then show ?thesis by (simp add: sv')
next
  case (edit now mid content db)
  from inv have wf: "db_wf (sv_db sv)" by (simp add: server_inv_def server_ok_def)
  from edit_message_Inr(1) [OF edit(2) wf] edit(1) show ?thesis by simp
qed (auto simp: insert_message_def insert_message_with_ts_def insert_message_with_author_name_def insert_row_Inr result_simps
    pin_message_def unpin_message_def set_widget_def create_channel_def soft_delete_channel_def)

lemma reachable_log:
  assumes "reachable cr g sv"
  shows "sv_genesis sv = Some g" and "\<exists>st. sv_log sv = Some st \<and> replay cr g (load_events_in_order (sv_db sv)) = Inr st"
proof -
  from assms show gen: "sv_genesis sv = Some g"
  proof induction
    case (step sv sv')
    with step_events [OF reachable_inv [OF step.hyps(1)] step.hyps(2)] show ?case by simp
  qed (simp add: fresh_server_def)
  from assms have some: "sv_log sv \<noteq> None"
  proof induction
    case (step sv sv')
    with step_events [OF reachable_inv [OF step.hyps(1)] step.hyps(2)] show ?case
      by (auto simp: submit_step_Inr elim!: submit_event_Inr)
  qed (simp add: fresh_server_def)
  from reachable_inv [OF assms] have "build_log_state cr (sv_db sv) = Inr (sv_log sv)" "db_genesis (sv_db sv) = sv_genesis sv"
    by (simp_all add: server_inv_def server_ok_def)
  with gen some show "\<exists>st. sv_log sv = Some st \<and> replay cr g (load_events_in_order (sv_db sv)) = Inr st"
    by (auto simp: build_log_state_def load_genesis_def split: sum.splits)
qed

lemma reachable_ok:
  assumes "reachable cr g sv"
  shows "db_wf (sv_db sv)" "events_ordered (sv_db sv)" "view_ok cr (sv_db sv)" "mirror_ok (sv_db sv)" "origin_ok cr (sv_db sv)"
    "server_ok cr sv"
  using reachable_inv [OF assms] by (simp_all add: server_inv_def server_ok_def)

text \<open>What was asked of every stored event when it came in.\<close>

lemma reachable_events:
  assumes reach: "reachable cr g sv"
  shows "distinct (map (event_hash_of cr) (load_events_in_order (sv_db sv))) \<and>
    (\<forall>e \<in> set (load_events_in_order (sv_db sv)). \<exists>now. check_ingest_caps_at e now = Inr ())"
  using reach
proof induction
  case fresh
  then show ?case by (simp add: fresh_server_def fresh_db_def load_events_in_order_def)
next
  case (step sv sv')
  note inv = reachable_inv [OF step.hyps(1)]
  consider "db_events (sv_db sv') = db_events (sv_db sv)" | te where "submit_step cr sv te = Inr sv'"
    using step_events [OF inv step.hyps(2)] by blast
  then show ?case
  proof cases
    case 1
    with step.IH show ?thesis by (simp add: load_events_in_order_def)
  next
    case (2 te)
    obtain now e where te: "te = (now, e)" by (cases te)
    from 2 obtain ns os where "submit_event cr now sv e = Inr (sv', ns, os)" by (auto simp: submit_step_Inr te)
    then obtain st trial res db' where caps: "check_ingest_caps_at e now = Inr ()"
      and tx: "ingest_transaction cr (map_option g_owner (sv_genesis sv)) e (sv_db sv) = Inr (res, db')"
      and sv': "sv' = sv\<lparr>sv_log := Some trial, sv_db := db'\<rparr>" by (rule submit_event_Inr)
    note tx' = ingest_transaction_Inr(1,3) [OF tx reachable_ok(1) [OF step.hyps(1)]]
    have "load_events_in_order (sv_db sv') = load_events_in_order (sv_db sv) @ [e]"
      by (simp add: sv' load_events_in_order_def tx'(2))
    with step.IH caps tx'(1) show ?thesis by auto
  qed
qed

text \<open>The log's channels are the stored declarations.\<close>

lemma replay_channels:
  "replay cr g es = Inr st \<Longrightarrow> ls_channels st c = Some r \<Longrightarrow>
     \<exists>e \<in> set es. \<exists>name kind parent. ev_payload e = ChannelCreated c name kind (ch_class r) parent"
proof (induction es arbitrary: st rule: rev_induct)
  case Nil
  then show ?case by (auto simp: replay_def from_genesis_def)
next
  case (snoc e es)
  then obtain m where m: "replay cr g es = Inr m" "log_apply cr m e = Inr st" by (auto simp: replay_snoc)
  show ?case
  proof (cases "ls_channels m c = Some r")
    case True
    with snoc.IH [OF m(1)] show ?thesis by auto
  next
    case False
    from m(2) have "\<exists>name kind parent. ev_payload e = ChannelCreated c name kind (ch_class r) parent"
    proof (cases rule: log_apply_cases)
      case (effect k st1)
      with snoc.prems(2) effect_channels(1) [OF effect(3)] False show ?thesis
        by (auto split: event_payload.splits if_splits)
    qed (use False snoc.prems(2) in simp)
    then show ?thesis by simp
  qed
qed

lemma ss_run2:
  obtains sv st where "reachable toy_crypto sc_genesis sv" "map mr_sealed (db_messages (sv_db sv)) = [Some [6]]"
    "sv_log sv = Some st" "LogState.channel_class st ss_channel = Some E2ee" "mls_current_epoch st ss_channel = Some (0, 1)"
proof -
  from servedD [OF ss_before_runs] obtain sv where "reachable toy_crypto sc_genesis sv"
    and "map mr_sealed (db_messages (sv_db sv)) = [Some [6]]"
    and "case sv_log sv of None \<Rightarrow> False | Some st \<Rightarrow> LogState.channel_class st ss_channel = Some E2ee \<and>
        mls_current_epoch st ss_channel = Some (0, 1)" by auto
  then show ?thesis by (auto split: option.splits intro: that)
qed

section \<open>Restarting\<close>

definition without_reply :: "message_row \<Rightarrow> message_row" where
  "without_reply m = m\<lparr>mr_reply_to := None\<rparr>"



section \<open>The view\<close>





text \<open>The class column is a mirror of the log.  In every reachable state a channel the log has
  declared resolves, for every writer outside the log, to the class it was declared with.\<close>

theorem class_mirrors_the_log:
  assumes "reachable cr g sv" and "sv_log sv = Some st" and "LogState.channel_class st c = Some kl"
  shows "resolve (sv_db sv) c = (case kl of Plaintext \<Rightarrow> ClassPlaintext | E2ee \<Rightarrow> ClassE2ee)"
proof -
  from reachable_log(2) [OF assms(1)] assms(2) have rep: "replay cr g (load_events_in_order (sv_db sv)) = Inr st" by simp
  from assms(3) obtain r where r: "ls_channels st c = Some r" "ch_class r = kl" by (auto simp: LogState.channel_class_def)
  from replay_channels [OF rep r(1)] r(2) reachable_ok(4) [OF assms(1)]
  have "map_option cr_content_class (find_channel (sv_db sv) c) = Some (class_string kl)" by (auto simp: mirror_ok_def)
  then show ?thesis by (cases kl) (auto simp: resolve_def class_string_def)
qed

theorem class_mirrors_the_log_witness:
  "\<exists>sv. reachable toy_crypto sc_genesis sv \<and> resolve (sv_db sv) ss_channel = ClassE2ee"
proof -
  obtain sv st where sv: "reachable toy_crypto sc_genesis sv" "sv_log sv = Some st"
    "LogState.channel_class st ss_channel = Some E2ee" by (rule ss_run2)
  from class_mirrors_the_log [OF sv] sv(1) show ?thesis by auto
qed

end
