(* ===== verification/IngestClaims2.thy ===== *)
theory IngestClaims2
  imports IngestClaims
begin

text \<open>
  The properties of the ingest that concern what gets stored: caps, the epoch race, catch-up
  paging, and a deletion that does not go through the log.
\<close>

section \<open>Stored commits\<close>

definition commit_on :: "nat \<Rightarrow> event \<Rightarrow> mls_commit option" where
  "commit_on c e = (case ev_payload e of MlsCommit mc \<Rightarrow> if mc_channel_id mc = c then Some mc else None | _ \<Rightarrow> None)"

definition stored_commits :: "event list \<Rightarrow> nat \<Rightarrow> mls_commit list" where
  "stored_commits es c = List.map_filter (commit_on c) es"

text \<open>The epoch a generation starts at: a reset's group is already one epoch in.\<close>

definition first_epoch :: "nat \<Rightarrow> nat" where
  "first_epoch generation = (if generation = 0 then 0 else 1)"

definition commits_landed :: "log_state \<Rightarrow> event list \<Rightarrow> bool" where
  "commits_landed st es \<longleftrightarrow> (\<forall>c. case ls_mls_groups st c of
       None \<Rightarrow> stored_commits es c = []
     | Some g \<Rightarrow> (\<forall>mc \<in> set (stored_commits es c). mc_generation mc \<le> mg_generation g) \<and>
         first_epoch (mg_generation g) \<le> mg_epoch g \<and>
         map mc_epoch (filter (\<lambda>mc. mc_generation mc = mg_generation g) (stored_commits es c)) =
           [first_epoch (mg_generation g)..<mg_epoch g])"

lemma commits_landedD:
  assumes "commits_landed st es"
  shows "ls_mls_groups st c = None \<Longrightarrow> stored_commits es c = []"
    and "ls_mls_groups st c = Some g \<Longrightarrow> mc \<in> set (stored_commits es c) \<Longrightarrow> mc_generation mc \<le> mg_generation g"
    and "ls_mls_groups st c = Some g \<Longrightarrow> first_epoch (mg_generation g) \<le> mg_epoch g"
    and "ls_mls_groups st c = Some g \<Longrightarrow> map mc_epoch (filter (\<lambda>mc. mc_generation mc = mg_generation g) (stored_commits es c)) =
           [first_epoch (mg_generation g)..<mg_epoch g]"
  using spec [OF assms [unfolded commits_landed_def], of c] by simp_all

lemma stored_commits_snoc: "stored_commits (es @ [e]) c = stored_commits es c @ (case commit_on c e of None \<Rightarrow> [] | Some mc \<Rightarrow> [mc])"
  by (auto simp: stored_commits_def List.map_filter_def split: option.split)

lemma stored_commits_other: "(\<nexists>mc. ev_payload e = MlsCommit mc) \<Longrightarrow> stored_commits (es @ [e]) c = stored_commits es c"
  by (simp add: stored_commits_snoc commit_on_def split: event_payload.split)

text \<open>An event that is no commit, no reset and declares no group leaves generation and epoch alone.\<close>

definition same_epochs :: "log_state \<Rightarrow> log_state \<Rightarrow> bool" where
  "same_epochs st st' \<longleftrightarrow> (\<forall>c. map_option (\<lambda>g. (mg_generation g, mg_epoch g)) (ls_mls_groups st' c) =
     map_option (\<lambda>g. (mg_generation g, mg_epoch g)) (ls_mls_groups st c))"

lemma same_epochs_effect:
  assumes "apply_payload_effect cr e k st = Inr st1"
    and "\<nexists>c n kd kl p. ev_payload e = ChannelCreated c n kd kl p" "\<nexists>mc. ev_payload e = MlsCommit mc"
      "\<nexists>c gen ws th. ev_payload e = MlsGroupReset c gen ws th"
  shows "same_epochs st st1"
  unfolding same_epochs_def effect_groups [OF assms(1)]
  using assms(2-) by (cases "ev_payload e") (auto simp: map_option_case split: option.split)

lemma commits_landed_same:
  assumes "commits_landed st es" and "same_epochs st st'" and "\<And>c. stored_commits es' c = stored_commits es c"
  shows "commits_landed st' es'"
  unfolding commits_landed_def
proof
  fix c
  have eq: "map_option (\<lambda>g. (mg_generation g, mg_epoch g)) (ls_mls_groups st' c) =
     map_option (\<lambda>g. (mg_generation g, mg_epoch g)) (ls_mls_groups st c)" using assms(2) by (simp add: same_epochs_def)
  show "case ls_mls_groups st' c of
       None \<Rightarrow> stored_commits es' c = []
     | Some g \<Rightarrow> (\<forall>mc \<in> set (stored_commits es' c). mc_generation mc \<le> mg_generation g) \<and>
         first_epoch (mg_generation g) \<le> mg_epoch g \<and>
         map mc_epoch (filter (\<lambda>mc. mc_generation mc = mg_generation g) (stored_commits es' c)) =
           [first_epoch (mg_generation g)..<mg_epoch g]"
  proof (cases "ls_mls_groups st' c")
    case None
    with eq have "ls_mls_groups st c = None" by simp
    with commits_landedD(1) [OF assms(1)] None show ?thesis by (simp add: assms(3))
  next
    case (Some g')
    with eq obtain g where g: "ls_mls_groups st c = Some g" "mg_generation g' = mg_generation g" "mg_epoch g' = mg_epoch g"
      by (cases "ls_mls_groups st c") auto
    show ?thesis unfolding Some option.case assms(3) g(2,3)
      using commits_landedD(2-4) [OF assms(1) g(1)] by blast
  qed
qed

text \<open>What each of the three others does.\<close>

lemma commits_landed_update:
  assumes J: "commits_landed st es" and groups: "ls_mls_groups st' = (ls_mls_groups st)(c \<mapsto> g')"
    and other: "\<And>c'. c' \<noteq> c \<Longrightarrow> stored_commits es' c' = stored_commits es c'"
    and mine: "(\<forall>mc \<in> set (stored_commits es' c). mc_generation mc \<le> mg_generation g') \<and>
         first_epoch (mg_generation g') \<le> mg_epoch g' \<and>
         map mc_epoch (filter (\<lambda>mc. mc_generation mc = mg_generation g') (stored_commits es' c)) =
           [first_epoch (mg_generation g')..<mg_epoch g']"
  shows "commits_landed st' es'"
  unfolding commits_landed_def
proof
  fix c'
  show "case ls_mls_groups st' c' of
       None \<Rightarrow> stored_commits es' c' = []
     | Some g \<Rightarrow> (\<forall>mc \<in> set (stored_commits es' c'). mc_generation mc \<le> mg_generation g) \<and>
         first_epoch (mg_generation g) \<le> mg_epoch g \<and>
         map mc_epoch (filter (\<lambda>mc. mc_generation mc = mg_generation g) (stored_commits es' c')) =
           [first_epoch (mg_generation g)..<mg_epoch g]"
  proof (cases "c' = c")
    case True
    with mine groups show ?thesis by simp
  next
    case False
    with spec [OF J [unfolded commits_landed_def], of c'] groups show ?thesis unfolding other [OF False] by simp
  qed
qed

lemma commits_landed_commit:
  assumes J: "commits_landed st es" and app: "check_payload_authz st e = Inr Apply" "apply_payload_effect cr e k st = Inr st1"
    and p: "ev_payload e = MlsCommit mc"
  shows "commits_landed st1 (es @ [e])"
proof -
  from app(1) obtain g where g: "ls_mls_groups st (mc_channel_id mc) = Some g" "mc_generation mc = mg_generation g"
    "mc_epoch mc = mg_epoch g"
    by (auto simp: p check_payload_authz_def check_mls_commit_def result_simps split: if_splits)
  note old = commits_landedD(2-4) [OF J g(1)]
  let ?g' = "commit_group (event_hash_of cr e) e mc (void_obligations st e (mc_channel_id mc)) g"
  have g': "mg_generation ?g' = mg_generation g" "mg_epoch ?g' = Suc (mg_epoch g)"
    by (simp_all add: commit_group_def Let_def g(3))
  have mine: "stored_commits (es @ [e]) (mc_channel_id mc) = stored_commits es (mc_channel_id mc) @ [mc]"
    by (simp add: stored_commits_snoc commit_on_def p)
  show ?thesis
  proof (rule commits_landed_update [OF J, where c = "mc_channel_id mc" and g' = ?g'])
    show "ls_mls_groups st1 = (ls_mls_groups st)(mc_channel_id mc \<mapsto> ?g')"
      using effect_groups [OF app(2)] by (simp add: p g(1))
    show "stored_commits (es @ [e]) c' = stored_commits es c'" if "c' \<noteq> mc_channel_id mc" for c'
      using that by (simp add: stored_commits_snoc commit_on_def p)
    show "(\<forall>mc' \<in> set (stored_commits (es @ [e]) (mc_channel_id mc)). mc_generation mc' \<le> mg_generation ?g') \<and>
         first_epoch (mg_generation ?g') \<le> mg_epoch ?g' \<and>
         map mc_epoch (filter (\<lambda>mc'. mc_generation mc' = mg_generation ?g') (stored_commits (es @ [e]) (mc_channel_id mc))) =
           [first_epoch (mg_generation ?g')..<mg_epoch ?g']"
      unfolding g' mine using old g(2,3) by auto
  qed
qed

lemma commits_landed_reset:
  assumes J: "commits_landed st es" and app: "check_payload_authz st e = Inr Apply" "apply_payload_effect cr e k st = Inr st1"
    and p: "ev_payload e = MlsGroupReset c gen ws th"
  shows "commits_landed st1 (es @ [e])"
proof -
  from app(1) obtain g where g: "ls_mls_groups st c = Some g" "gen = mg_generation g + 1"
    by (auto simp: p check_payload_authz_def check_group_reset_def result_simps)
  have same: "stored_commits (es @ [e]) c' = stored_commits es c'" for c'
    by (rule stored_commits_other) (simp add: p)
  have none: "filter (\<lambda>mc. mc_generation mc = gen) (stored_commits es c) = []"
    unfolding filter_empty_conv
  proof
    fix mc
    assume "mc \<in> set (stored_commits es c)"
    from commits_landedD(2) [OF J g(1) this] g(2) show "mc_generation mc \<noteq> gen" by simp
  qed
  show ?thesis
  proof (rule commits_landed_update [OF J, where c = c and g' = "reset_group e gen ws th g"])
    show "ls_mls_groups st1 = (ls_mls_groups st)(c \<mapsto> reset_group e gen ws th g)"
      using effect_groups [OF app(2)] by (simp add: p g(1))
    show "(\<forall>mc \<in> set (stored_commits (es @ [e]) c). mc_generation mc \<le> mg_generation (reset_group e gen ws th g)) \<and>
         first_epoch (mg_generation (reset_group e gen ws th g)) \<le> mg_epoch (reset_group e gen ws th g) \<and>
         map mc_epoch (filter (\<lambda>mc. mc_generation mc = mg_generation (reset_group e gen ws th g)) (stored_commits (es @ [e]) c)) =
           [first_epoch (mg_generation (reset_group e gen ws th g))..<mg_epoch (reset_group e gen ws th g)]"
      using commits_landedD(2) [OF J g(1)] g(2)
      by (auto simp: same reset_group_def Let_def none [unfolded g(2), simplified] first_epoch_def intro: le_SucI)
  qed (rule same)
qed

lemma commits_landed_created:
  assumes J: "commits_landed st es" and wf: "wf_channels st" and app: "check_payload_authz st e = Inr Apply"
      "apply_payload_effect cr e k st = Inr st1"
    and p: "ev_payload e = ChannelCreated c n kd kl par"
  shows "commits_landed st1 (es @ [e])"
proof -
  have same: "stored_commits (es @ [e]) c' = stored_commits es c'" for c'
    by (rule stored_commits_other) (simp add: p)
  from app(1) have "ls_channels st c = None"
    by (simp add: p check_payload_authz_def check_channel_created_def result_simps)
  then have none: "ls_mls_groups st c = None"
    using wf_channels_group [OF wf, of c] by (cases "ls_mls_groups st c") (auto simp: LogState.channel_class_def)
  show ?thesis
  proof (cases "kl = E2ee")
    case True
    show ?thesis
    proof (rule commits_landed_update [OF J, where c = c and g' = new_mls_group])
      show "ls_mls_groups st1 = (ls_mls_groups st)(c \<mapsto> new_mls_group)"
        using effect_groups [OF app(2)] True by (simp add: p)
    qed (simp_all add: same commits_landedD(1) [OF J none] new_mls_group_def first_epoch_def)
  next
    case False
    then have "ls_mls_groups st1 = ls_mls_groups st" using effect_groups [OF app(2)] by (simp add: p)
    then show ?thesis by (intro commits_landed_same [OF J _ same]) (simp add: same_epochs_def)
  qed
qed

lemma commits_landed_apply:
  assumes J: "commits_landed st es" and wf: "wf_channels st" and app: "log_apply cr st e = Inr st'"
    and live: "\<not> claims_stale_epoch st e"
  shows "commits_landed st' (es @ [e])"
  using app
proof (cases rule: log_apply_cases)
  case (stale mc)
  from stale(2) obtain g where "ls_mls_groups st (mc_channel_id mc) = Some g" "mc_epoch mc \<noteq> mg_epoch g"
    by (auto simp: stale(1) check_payload_authz_def check_mls_commit_def result_simps split: if_splits)
  then have "claims_stale_epoch st e" by (simp add: claims_stale_epoch_def epoch_claim_def stale(1) mls_current_epoch_def)
  with live show ?thesis by blast
next
  case (effect k st1)
  have "commits_landed st1 (es @ [e])"
  proof -
    consider c n kd kl par where "ev_payload e = ChannelCreated c n kd kl par" | mc where "ev_payload e = MlsCommit mc"
      | c gen ws th where "ev_payload e = MlsGroupReset c gen ws th"
      | "\<nexists>c n kd kl p. ev_payload e = ChannelCreated c n kd kl p" "\<nexists>mc. ev_payload e = MlsCommit mc"
        "\<nexists>c gen ws th. ev_payload e = MlsGroupReset c gen ws th" by blast
    then show ?thesis
    proof cases
      case 1
      then show ?thesis by (rule commits_landed_created [OF J wf effect(2,3)])
    next
      case 2
      then show ?thesis by (rule commits_landed_commit [OF J effect(2,3)])
    next
      case 3
      then show ?thesis by (rule commits_landed_reset [OF J effect(2,3)])
    next
      case 4
      show ?thesis
        by (rule commits_landed_same [OF J same_epochs_effect [OF effect(3) 4] stored_commits_other [OF 4(2)]])
    qed
  qed
  then show ?thesis
    by (rule commits_landed_same) (simp_all add: same_epochs_def effect(4))
qed

lemma reachable_commits:
  assumes "reachable cr g sv"
  shows "\<forall>st. sv_log sv = Some st \<longrightarrow> commits_landed st (load_events_in_order (sv_db sv))"
  using assms
proof induction
  case fresh
  then show ?case
    by (simp add: fresh_server_def fresh_db_def load_events_in_order_def commits_landed_def from_genesis_def stored_commits_def)
next
  case (step sv sv')
  note inv = reachable_inv [OF step.hyps(1)]
  consider "sv_log sv' = sv_log sv" "db_events (sv_db sv') = db_events (sv_db sv)" | te where "submit_step cr sv te = Inr sv'"
    using step_events [OF inv step.hyps(2)] by blast
  then show ?case
  proof cases
    case 1
    with step.IH show ?thesis by (simp add: load_events_in_order_def)
  next
    case (2 te)
    obtain now e where te: "te = (now, e)" by (cases te)
    from 2 obtain ns os where "submit_event cr now sv e = Inr (sv', ns, os)" by (auto simp: submit_step_Inr te)
    then obtain st trial res db' where s: "sv_log sv = Some st" "\<not> claims_stale_epoch st e" "log_apply cr st e = Inr trial"
      and tx: "ingest_transaction cr (map_option g_owner (sv_genesis sv)) e (sv_db sv) = Inr (res, db')"
      and sv': "sv' = sv\<lparr>sv_log := Some trial, sv_db := db'\<rparr>" by (rule submit_event_Inr)
    have ev: "load_events_in_order (sv_db sv') = load_events_in_order (sv_db sv) @ [e]"
      using ingest_transaction_Inr(3) [OF tx reachable_ok(1) [OF step.hyps(1)]] by (simp add: sv' load_events_in_order_def)
    from reachable_log(2) [OF step.hyps(1)] s(1) have "log_wf st" by (auto intro: log_wf_replay)
    then have wf: "wf_channels st" by (simp add: log_wf_def)
    have "commits_landed trial (load_events_in_order (sv_db sv) @ [e])"
      by (rule commits_landed_apply [OF _ wf s(3,2)]) (use step.IH s(1) in blast)
    then show ?thesis by (simp add: sv' ev [unfolded sv', simplified])
  qed
qed

text \<open>C11: Only winners of the epoch race are stored.  In every reachable state the commits stored
  for an encrypted channel at its current generation claim consecutive epochs, each once, up to
  the current one (from 0, or from 1 after a reset), and none claims a later generation; so the
  fold's accepted no-op for a stale commit is never reached from a stored event.\<close>

theorem stored_commits_are_winners:
  assumes "reachable cr g sv" and "sv_log sv = Some st" and "mls_current_epoch st c = Some (generation, epoch)"
  shows "map mc_epoch (filter (\<lambda>mc. mc_generation mc = generation) (stored_commits (load_events_in_order (sv_db sv)) c)) =
      [first_epoch generation..<epoch] \<and>
    (\<forall>mc \<in> set (stored_commits (load_events_in_order (sv_db sv)) c). mc_generation mc \<le> generation)"
proof -
  have J: "commits_landed st (load_events_in_order (sv_db sv))" using reachable_commits [OF assms(1)] assms(2) by blast
  from assms(3) obtain grp where grp: "ls_mls_groups st c = Some grp" "generation = mg_generation grp" "epoch = mg_epoch grp"
    by (auto simp: mls_current_epoch_def)
  show ?thesis unfolding grp(2,3) using commits_landedD(2,4) [OF J grp(1)] by blast
qed

theorem stored_commits_are_winners_witness:
  "\<exists>sv. reachable toy_crypto sc_genesis sv \<and>
     map mc_epoch (filter (\<lambda>mc. mc_generation mc = 0) (stored_commits (load_events_in_order (sv_db sv)) ss_channel)) = [0]"
proof -
  obtain sv st where sv: "reachable toy_crypto sc_genesis sv" "sv_log sv = Some st"
    "mls_current_epoch st ss_channel = Some (0, 1)" by (rule ss_run2)
  from stored_commits_are_winners [OF this] sv(1) show ?thesis by (auto simp: first_epoch_def)
qed

text \<open>A live commit that is accepted lands.  Its author's view was current, it is stored, and
  it moves its channel to the next epoch of the same generation.\<close>

theorem live_commits_land:
  assumes "reachable cr g sv" and "submit_event cr now sv e = Inr (sv', notices, orphans)" and "ev_payload e = MlsCommit mc"
  shows "\<exists>st st'. sv_log sv = Some st \<and> sv_log sv' = Some st' \<and>
    mls_current_epoch st (mc_channel_id mc) = Some (mc_generation mc, mc_epoch mc) \<and>
    mls_current_epoch st' (mc_channel_id mc) = Some (mc_generation mc, mc_epoch mc + 1) \<and>
    load_events_in_order (sv_db sv') = load_events_in_order (sv_db sv) @ [e] \<and>
    (Subscribers (mc_channel_id mc), MlsControlEvent (Some (mc_channel_id mc)) (event_hash_of cr e) ''MlsCommit'') \<in> set notices"
proof -
  from assms(2) obtain st trial res db' where s: "sv_log sv = Some st" "\<not> claims_stale_epoch st e" "log_apply cr st e = Inr trial"
      and tx: "ingest_transaction cr (map_option g_owner (sv_genesis sv)) e (sv_db sv) = Inr (res, db')"
      and sv': "sv' = sv\<lparr>sv_log := Some trial, sv_db := db'\<rparr>" by (rule submit_event_Inr)
  have ev: "load_events_in_order (sv_db sv') = load_events_in_order (sv_db sv) @ [e]"
    using ingest_transaction_Inr(3) [OF tx reachable_ok(1) [OF assms(1)]] by (simp add: sv' load_events_in_order_def)
  from s(3) obtain a where "check_payload_authz st e = Inr a" by (auto simp: log_apply_Inr)
  then obtain grp where grp: "ls_mls_groups st (mc_channel_id mc) = Some grp" "mc_generation mc = mg_generation grp"
    by (auto simp: assms(3) check_payload_authz_def check_mls_commit_def result_simps)
  have cur: "mc_epoch mc = mg_epoch grp"
    using s(2) grp by (simp add: claims_stale_epoch_def epoch_claim_def assms(3) mls_current_epoch_def)
  have "mls_current_epoch trial (mc_channel_id mc) = Some (mc_generation mc, mc_epoch mc + 1)"
    using s(3)
  proof (cases rule: log_apply_cases)
    case (stale mc')
    with grp cur assms(3) show ?thesis
      by (auto simp: check_payload_authz_def check_mls_commit_def result_simps split: if_splits)
  next
    case (effect k st1)
    with effect_groups [OF effect(3)] grp cur show ?thesis
      by (simp add: assms(3) mls_current_epoch_def commit_group_def Let_def)
  qed
  moreover have "(Subscribers (mc_channel_id mc), MlsControlEvent (Some (mc_channel_id mc)) (event_hash_of cr e) ''MlsCommit'')
      \<in> set notices"
    using assms(2) s(1-3) tx
    by (auto simp: submit_event_def result_simps control_notices_def assms(3) payload_type_def Let_def)
  ultimately show ?thesis using s(1) sv' ev grp cur by (simp add: mls_current_epoch_def)
qed

theorem live_commits_land_witness:
  "\<exists>sv sv' ns os st'. submit_event toy_crypto 20 sv ss_o2 = Inr (sv', ns, os) \<and> sv_log sv' = Some st' \<and>
     mls_current_epoch st' ss_channel = Some (0, 1)"
proof -
  from servedD [OF ss_commit_runs] obtain sv where sv1: "reachable toy_crypto sc_genesis sv"
    and run: "case submit_event toy_crypto 20 sv ss_o2 of Inl _ \<Rightarrow> False | Inr (sv', ns, os) \<Rightarrow> ns \<noteq> []" by blast
  from run obtain sv' ns os where "submit_event toy_crypto 20 sv ss_o2 = Inr (sv', ns, os)"
    by (cases "submit_event toy_crypto 20 sv ss_o2") auto
  note sv = sv1 this
  from live_commits_land [OF sv, of ss_commit] sv(2) show ?thesis
    by (auto simp: ss_commit_def)
qed

section \<open>Caps\<close>

text \<open>Nothing over its cap is ever stored.  In every reachable state every stored sealed message
  is at most 45 KiB with at most ten attachments, every sealed edit at most 45 KiB, every commit
  at most 256 KiB with at most 256 declared adds and removes, every Welcome at most 256 KiB, every
  key package at most 8 KiB, every reset stages at most 256 Welcomes, and a channel's name and
  kind at most 256 bytes; and no two stored events have the same hash.\<close>

theorem stored_events_within_caps:
  assumes "reachable cr g sv" and "e \<in> set (load_events_in_order (sv_db sv))"
  shows "(case ev_payload e of
      ChannelCreated _ name kind _ _ \<Rightarrow> length name \<le> 256 \<and> length kind \<le> 256
    | MlsKeyPackagePublished kp _ _ \<Rightarrow> length kp \<le> 8192
    | MlsCommit mc \<Rightarrow> length (mc_mls_message mc) \<le> 262144 \<and> length (mc_adds mc) \<le> 256 \<and> length (mc_removes mc) \<le> 256
    | MlsWelcome _ _ _ _ _ w \<Rightarrow> length w \<le> 262144
    | MlsGroupReset _ _ ws _ \<Rightarrow> length ws \<le> 256
    | MessagePostedE2ee _ _ _ ct _ atts _ \<Rightarrow> length ct \<le> 46080 \<and> length atts \<le> 10
    | MessageEditedE2ee _ _ _ _ ct _ \<Rightarrow> length ct \<le> 46080
    | _ \<Rightarrow> True) \<and>
    (\<forall>e' \<in> set (load_events_in_order (sv_db sv)). event_hash_of cr e' = event_hash_of cr e \<longrightarrow> e' = e)"
proof -
  from reachable_events [OF assms(1)] assms(2) obtain now where caps: "check_ingest_caps_at e now = Inr ()" by blast
  have uniq: "inj_on (event_hash_of cr) (set (load_events_in_order (sv_db sv)))"
    using reachable_events [OF assms(1)] by (simp add: distinct_map)
  have "case ev_payload e of
      ChannelCreated _ name kind _ _ \<Rightarrow> length name \<le> 256 \<and> length kind \<le> 256
    | MlsKeyPackagePublished kp _ _ \<Rightarrow> length kp \<le> 8192
    | MlsCommit mc \<Rightarrow> length (mc_mls_message mc) \<le> 262144 \<and> length (mc_adds mc) \<le> 256 \<and> length (mc_removes mc) \<le> 256
    | MlsWelcome _ _ _ _ _ w \<Rightarrow> length w \<le> 262144
    | MlsGroupReset _ _ ws _ \<Rightarrow> length ws \<le> 256
    | MessagePostedE2ee _ _ _ ct _ atts _ \<Rightarrow> length ct \<le> 46080 \<and> length atts \<le> 10
    | MessageEditedE2ee _ _ _ _ ct _ \<Rightarrow> length ct \<le> 46080
    | _ \<Rightarrow> True"
    using caps
    by (cases "ev_payload e") (auto simp: check_ingest_caps_at_def cap_def result_simps
        MAX_E2EE_CIPHERTEXT_BYTES_def MAX_E2EE_EDIT_CIPHERTEXT_BYTES_def MAX_MLS_MESSAGE_BYTES_def MAX_MLS_WELCOME_BYTES_def
        MAX_KEY_PACKAGE_BYTES_def MAX_DECLARED_LEAVES_PER_COMMIT_def MAX_RESET_WELCOMES_def MAX_E2EE_ATTACHMENTS_def
        MAX_CHANNEL_NAME_BYTES_def)
  with uniq assms(2) show ?thesis by (auto dest: inj_onD)
qed

section \<open>Catching up\<close>

text \<open>Catch-up by pages is complete.  In every reachable state a client that feeds the cursor of
  one Welcome page into the next request gets, after enough requests, every Welcome addressed to
  it that was stored after its first cursor, each once and in acceptance order, however many
  events for others lie in between; and then it is told to stop.\<close>

theorem welcome_catch_up_is_complete:
  assumes "reachable cr g sv" and "length (rows_after {''MlsWelcome''} since (sv_db sv)) < n * MAX_FETCH_EVENTS"
  shows "pages (\<lambda>db since. fetch_welcomes_for recipient flt since db) (sv_db sv) n since =
    (filter (welcome_for recipient flt) (map snd (filter (\<lambda>p. since < fst p) (db_events (sv_db sv)))), False)"
proof -
  have only: "payload_type (ev_payload e) = ''MlsWelcome''" if "welcome_for recipient flt e" for e
    using that by (auto simp: welcome_for_def payload_type_iff split: event_payload.splits)
  have "map snd (filter (\<lambda>r. welcome_for recipient flt (snd r)) (rows_after {''MlsWelcome''} since (sv_db sv))) =
      filter (welcome_for recipient flt) (map snd (filter (\<lambda>p. since < fst p) (db_events (sv_db sv))))"
    unfolding rows_after_def filter_map comp_def filter_filter using only by (auto intro!: arg_cong [where f = "map snd"] filter_cong)
  with welcomes.pages_complete [OF reachable_ok(2) [OF assms(1)] assms(2)] show ?thesis by simp
qed

text \<open>The same for the control stream of a channel: the commits, Welcomes, confirmations and
  resets a member needs to follow the group all arrive, once and in order.\<close>

theorem control_catch_up_is_complete:
  assumes "reachable cr g sv" and "length (rows_after control_types since (sv_db sv)) < n * MAX_FETCH_EVENTS"
  shows "pages (\<lambda>db since. fetch_mls_control channel since db) (sv_db sv) n since =
    (filter (mls_control_of channel) (map snd (filter (\<lambda>p. since < fst p) (db_events (sv_db sv)))), False)"
proof -
  have only: "payload_type (ev_payload e) \<in> control_types" if "mls_control_of channel e" for e
    using that by (auto simp: mls_control_of_def payload_type_def control_types_def split: event_payload.splits)
  have "map snd (filter (\<lambda>r. mls_control_of channel (snd r)) (rows_after control_types since (sv_db sv))) =
      filter (mls_control_of channel) (map snd (filter (\<lambda>p. since < fst p) (db_events (sv_db sv))))"
    unfolding rows_after_def filter_map comp_def filter_filter using only by (auto intro!: arg_cong [where f = "map snd"] filter_cong)
  with control.pages_complete [OF reachable_ok(2) [OF assms(1)] assms(2)] show ?thesis by simp
qed

section \<open>A deletion that goes around the log\<close>

definition holds_row :: "event_hash \<Rightarrow> server_db \<Rightarrow> bool" where
  "holds_row h db \<longleftrightarrow> db_wf db \<and> Some h \<in> mr_event_hash ` set (db_messages db)"

lemma holds_row_map:
  assumes "holds_row h db" and "db_wf db'" and "db_messages db' = map f (db_messages db)"
    and "\<And>m. mr_event_hash (f m) = mr_event_hash m"
  shows "holds_row h db'"
  using assms by (simp add: holds_row_def image_image)

lemma derive_message_row_same_log:
  assumes "derive_message_row cr e db = Inr (found, db')" and "db_wf db"
  shows "db_wf db' \<and> (\<forall>h. holds_row h db \<longrightarrow> holds_row h db') \<and>
    (is_content (ev_payload e) \<longrightarrow> holds_row (event_hash_of cr e) db')"
proof -
  note D = derive_message_row_Inr [OF assms]
  show ?thesis
  proof (cases "is_content (ev_payload e)")
    case True
    with D(6) obtain row where "db_messages db' = db_messages db @ [row]" "payload_row cr e row" by auto
    with D(1) show ?thesis by (auto simp: holds_row_def payload_row_def)
  next
    case False
    with D(6) assms(2) show ?thesis by simp
  qed
qed

text \<open>Pass 1 gives every missing event its row, unless it is held deleted.\<close>

lemma derive_missing_holds:
  assumes "fold_result (derive_missing cr dead) acc es = Inr acc'" and "db_wf (snd acc)"
    and "e \<in> set es" "is_content (ev_payload e)" "\<not> dead (event_hash_of cr e)"
  shows "holds_row (event_hash_of cr e) (snd acc')"
proof -
  have step: "db_wf (snd b) \<and> (\<forall>h. holds_row h (snd a) \<longrightarrow> holds_row h (snd b))"
    if st: "derive_missing cr dead a x = Inr b" and wf: "db_wf (snd a)" for a b x
  proof (cases "dead (event_hash_of cr x)")
    case True
    with st wf show ?thesis by (simp add: derive_missing_def)
  next
    case False
    with st obtain found db' where "derive_message_row cr x (snd a) = Inr (found, db')" "snd b = db'"
      by (auto simp: derive_missing_def result_simps)
    with derive_message_row_same_log [OF this(1) wf] show ?thesis by simp
  qed
  from assms(1,3) obtain pre post m m' where es: "es = pre @ e # post"
    and run: "fold_result (derive_missing cr dead) acc pre = Inr m" "derive_missing cr dead m e = Inr m'"
      "fold_result (derive_missing cr dead) m' post = Inr acc'" by (rule fold_result.run_split_at)
  have wf: "db_wf (snd m)"
    by (rule fold_result.run_invariant [where I = "\<lambda>a. db_wf (snd a)", OF _ run(1) assms(2)]) (use step in blast)
  from run(2) assms(5) obtain found where "derive_message_row cr e (snd m) = Inr (found, snd m')"
    by (auto simp: derive_missing_def result_simps)
  with derive_message_row_same_log [OF this wf] assms(4) have "holds_row (event_hash_of cr e) (snd m')" by blast
  then show ?thesis
    by (rule fold_result.run_invariant [where I = "\<lambda>a. holds_row (event_hash_of cr e) (snd a)", OF _ run(3), rotated])
      (use step in \<open>auto simp: holds_row_def\<close>)
qed

lemma sweep_target_holds:
  assumes "sweep_target db t = Inr db'" and "holds_row h db" and "t \<noteq> h"
  shows "holds_row h db'"
proof (cases "find_by_hash db t")
  case None
  with assms show ?thesis by (simp add: sweep_target_def)
next
  case (Some row)
  from assms(2) have wf: "db_wf db" by (simp add: holds_row_def)
  from assms(1) Some obtain z where del: "delete_message (mr_id row) db = Inr (z, db')"
    by (auto simp: sweep_target_def result_simps)
  from assms(2) obtain m where m: "m \<in> set (db_messages db)" "mr_event_hash m = Some h" by (auto simp: holds_row_def)
  have row: "row \<in> set (db_messages db)" "mr_event_hash row = Some t" using Some by (simp_all add: find_by_hash_Some [OF wf])
  have "mr_id m \<noteq> mr_id row" using db_wfD(5) [OF wf m(1) row(1)] m(2) row(2) assms(3) by auto
  moreover have "db_messages db' = filter (\<lambda>m. mr_id m \<noteq> mr_id row) (db_messages db)"
    by (rule delete_message_Inr [OF del wf]) blast
  moreover have "db_wf db'" by (rule db_wf_delete_message [OF del wf])
  ultimately show ?thesis using m by (force simp: holds_row_def)
qed

lemma replay_sealed_edit_holds:
  assumes "replay_sealed_edit dead db e = Inr db'" and "holds_row h db"
  shows "holds_row h db'"
proof -
  from assms(1) consider "db' = db" | mid ct ts where "update_sealed_row mid ct ts db = Inr db'"
    by (auto simp: replay_sealed_edit_def result_simps split: event_payload.splits if_splits option.splits)
  then show ?thesis
  proof cases
    case 2
    have wf: "db_wf db'" by (rule db_wf_update_sealed_row [OF 2]) (use assms(2) in \<open>simp add: holds_row_def\<close>)
    from 2 have "db' = update_message mid (\<lambda>m. m\<lparr>mr_sealed := Some ct, mr_edited_at := Some ts\<rparr>) db"
      by (auto simp: update_sealed_row_def result_simps)
    then have "db_messages db' = map (\<lambda>m. if mr_id m = mid then m\<lparr>mr_sealed := Some ct, mr_edited_at := Some ts\<rparr> else m)
        (db_messages db)" by simp
    then show ?thesis by (rule holds_row_map [OF assms(2) wf]) simp
  qed (use assms(2) in simp)
qed

lemma reconcile_messages_holds:
  assumes rec: "reconcile_messages cr ls db = Inr (n, db')" and wf: "db_wf db"
    and e: "e \<in> set (missing_content cr db)" "\<not> tombstoned_in (stored_tombstone_targets db) ls (event_hash_of cr e)"
  shows "Some (event_hash_of cr e) \<in> mr_event_hash ` set (db_messages db')"
proof -
  let ?h = "event_hash_of cr e" and ?dead = "tombstoned_in (stored_tombstone_targets db) ls"
  from rec obtain k db1 db2 db3 where
    p1: "fold_result (derive_missing cr ?dead) (0, db) (missing_content cr db) = Inr (k, db1)"
    and p2: "fold_result sweep_target db1 (stored_tombstone_targets db) = Inr db2"
    and p3: "replay_sealed_edits ?dead db2 = Inr db3" and p4: "db' = snd (repair_reply_links cr db3)"
    by (auto simp: reconcile_messages_def result_simps Let_def)
  have content: "is_content (ev_payload e)" using e(1) by (simp add: missing_content_def stored_content_eq)
  have h1: "holds_row ?h db1" using derive_missing_holds [OF p1 _ e(1) content e(2)] wf by simp
  have sweep: "fold_result sweep_target a ts = Inr b \<Longrightarrow> holds_row ?h a \<Longrightarrow> ?h \<notin> set ts \<Longrightarrow> holds_row ?h b" for a b ts
    by (induction ts arbitrary: a) (auto simp: result_simps dest: sweep_target_holds)
  have h2: "holds_row ?h db2" by (rule sweep [OF p2 h1]) (use e(2) in \<open>simp add: tombstoned_in_def\<close>)
  have h3: "holds_row ?h db3"
    using p3 unfolding replay_sealed_edits_def
    by (rule fold_result.run_invariant [where I = "holds_row ?h", rotated]) (use h2 replay_sealed_edit_holds in blast)+
  then have "db_wf db3" by (simp add: holds_row_def)
  from repair_reply_links_relinked [OF this, of cr] obtain g where
    g: "db' = db3\<lparr>db_messages := map g (db_messages db3)\<rparr>"
      "\<forall>m \<in> set (db_messages db3). g m = m \<or> mr_reply_to m = None \<and> (\<exists>t. g m = m\<lparr>mr_reply_to := Some t\<rparr>)"
    by (auto simp: relinked_def p4)
  from h3 obtain m where m: "m \<in> set (db_messages db3)" "mr_event_hash m = Some ?h" by (auto simp: holds_row_def)
  have "mr_event_hash (g m) = Some ?h" using bspec [OF g(2) m(1)] m(2) by auto
  then show ?thesis using m(1) g(1) by force
qed

text \<open>A message deleted outside the log comes back at the next restart.  The message-deletion
  request and the retention sweep drop a log-derived row without a tombstone; then in the database
  they leave, the startup derives the row again from the stored event.\<close>

theorem legacy_delete_is_undone:
  assumes "reachable cr g sv" and "row \<in> set (db_messages (sv_db sv))" and "mr_event_hash row = Some h"
    and "delete_message (mr_id row) (sv_db sv) = Inr (orphans, db)" and "startup cr db = Inr sv'"
  shows "Some h \<notin> mr_event_hash ` set (db_messages db) \<and> Some h \<in> mr_event_hash ` set (db_messages (sv_db sv'))"
proof -
  note ok = reachable_ok [OF assms(1)]
  have del: "db_messages db = filter (\<lambda>m. mr_id m \<noteq> mr_id row) (db_messages (sv_db sv))" "db_events db = db_events (sv_db sv)"
      "db_channels db = db_channels (sv_db sv)" "db_genesis db = db_genesis (sv_db sv)"
    by (rule delete_message_Inr [OF assms(4) ok(1)], blast)+
  have gone: "Some h \<notin> mr_event_hash ` set (db_messages db)"
    using db_wfD(4) [OF ok(1) _ assms(2) _ assms(3)] by (auto simp: del(1))
  have wf: "db_wf db" by (rule db_wf_delete_message [OF assms(4) ok(1)])
  from assms(2,3) ok(5) obtain e where e: "e \<in> set (load_events_in_order (sv_db sv))" "row_of_event cr e row"
    by (auto simp: origin_ok_def)
  then have h: "event_hash_of cr e = h" and content: "is_content (ev_payload e)"
    using assms(3) by (auto simp: row_of_event_def is_content_def split: event_payload.splits)
  have "find_by_hash db h = None" using gone unfolding find_by_hash_None by force
  then have missing: "e \<in> set (missing_content cr db)"
    using e(1) content by (simp add: missing_content_def stored_content_eq load_events_in_order_def del(2) h)
  have gen: "db_genesis db = Some g" using del(4) ok(6) reachable_log(1) [OF assms(1)] by (simp add: server_ok_def)
  have build: "build_log_state cr db = Inr (sv_log sv)"
  proof -
    have "build_log_state cr db = build_log_state cr (sv_db sv)"
      by (simp only: build_log_state_def load_genesis_def load_events_in_order_def del(2,4))
    then show ?thesis using ok(6) by (simp add: server_ok_def)
  qed
  have "mirror_ok db" by (rule mirror_ok_same [OF ok(4) del(2,3)])
  with assms(5) gen build obtain n db2 where rec: "reconcile_messages cr (sv_log sv) db = Inr (n, db2)"
    and sv': "sv_db sv' = snd (sweep_redacted_bytes (snd (reconcile_attachments cr db2)))"
    by (auto simp: startup_def load_genesis_def reconcile_channel_classes_id result_simps Let_def)
  have "h \<notin> targets (sv_db sv)" using view_okD(1) [OF ok(3) assms(2,3)] by blast
  then have "\<not> tombstoned_in (stored_tombstone_targets (sv_db sv)) (sv_log sv) h" using dead_iff_target [OF ok(6)] by blast
  moreover have "stored_tombstone_targets db = stored_tombstone_targets (sv_db sv)"
    by (simp add: stored_tombstone_targets_def stored_of_type_def load_events_in_order_def del(2))
  ultimately have live: "\<not> tombstoned_in (stored_tombstone_targets db) (sv_log sv) (event_hash_of cr e)" by (simp add: h)
  have "Some h \<in> mr_event_hash ` set (db_messages db2)"
    using reconcile_messages_holds [OF rec wf missing live] by (simp add: h)
  moreover have "db_messages (sv_db sv') = db_messages db2"
    using reconcile_attachments_same_core [of db2 cr] sweep_same_core by (simp add: sv' same_core_def)
  ultimately show ?thesis using gone by simp
qed

theorem legacy_delete_is_undone_witness:
  "\<exists>sv db sv' z. reachable toy_crypto sc_genesis sv \<and> delete_message 1 (sv_db sv) = Inr (z, db) \<and> db_messages db = [] \<and>
     startup toy_crypto db = Inr sv' \<and> db_messages (sv_db sv') \<noteq> []"
proof -
  from servedD [OF ss_legacy_runs] obtain sv where sv: "reachable toy_crypto sc_genesis sv"
    and run: "case delete_message 1 (sv_db sv) of Inl _ \<Rightarrow> False
     | Inr (orphans, db) \<Rightarrow> db_messages db = [] \<and> (case startup toy_crypto db of Inl _ \<Rightarrow> False | Inr sv' \<Rightarrow> True)"
      "submit_all toy_crypto (fresh_server toy_crypto sc_genesis) ss_before = Inr sv" by blast
  from run(1) obtain z db where del1: "delete_message 1 (sv_db sv) = Inr (z, db)"
    by (cases "delete_message 1 (sv_db sv)") auto
  with run(1) have del: "delete_message 1 (sv_db sv) = Inr (z, db)" "db_messages db = []"
    and ok: "case startup toy_crypto db of Inl _ \<Rightarrow> False | Inr sv' \<Rightarrow> True" by simp_all
  from ok obtain sv' where st: "startup toy_crypto db = Inr sv'" by (cases "startup toy_crypto db") auto
  from run(2) ss_rows obtain row where row: "row \<in> set (db_messages (sv_db sv))" "mr_id row = 1" "mr_event_hash row \<noteq> None"
    by (auto simp: served_def)
  then obtain h where h: "mr_event_hash row = Some h" by blast
  have "Some h \<in> mr_event_hash ` set (db_messages (sv_db sv'))"
    using legacy_delete_is_undone [OF sv row(1) h _ st] del(1) row(2) by auto
  then have "db_messages (sv_db sv') \<noteq> []" by auto
  with sv del st show ?thesis by (intro exI conjI)
qed

theorem stored_events_within_caps_witness:
  "\<exists>sv. reachable toy_crypto sc_genesis sv \<and> ss_o3 \<in> set (load_events_in_order (sv_db sv)) \<and>
     (\<forall>e \<in> set (load_events_in_order (sv_db sv)). event_hash_of toy_crypto e = event_hash_of toy_crypto ss_o3 \<longrightarrow> e = ss_o3)"
proof -
  from servedD [OF ss_events] obtain sv where "reachable toy_crypto sc_genesis sv" "ss_o3 \<in> set (load_events_in_order (sv_db sv))"
    by blast
  from this stored_events_within_caps [OF this] show ?thesis by blast
qed

theorem welcome_catch_up_is_complete_witness:
  "\<exists>sv. reachable toy_crypto sc_genesis sv \<and>
     pages (\<lambda>db since. fetch_welcomes_for (PublicKey sc_alice) None since db) (sv_db sv) 1 0 = ([], False)"
proof -
  from servedD [OF ss_pages] obtain sv where sv: "reachable toy_crypto sc_genesis sv"
    "length (rows_after {''MlsWelcome''} 0 (sv_db sv)) < 1 * MAX_FETCH_EVENTS"
    "filter (welcome_for (PublicKey sc_alice) None) (map snd (filter (\<lambda>p. 0 < fst p) (db_events (sv_db sv)))) = []" by blast
  from welcome_catch_up_is_complete [OF sv(1,2), of "PublicKey sc_alice" None] sv(1,3) show ?thesis by auto
qed

theorem control_catch_up_is_complete_witness:
  "\<exists>sv. reachable toy_crypto sc_genesis sv \<and>
     pages (\<lambda>db since. fetch_mls_control ss_channel since db) (sv_db sv) 1 0 = ([ss_o2], False)"
proof -
  from servedD [OF ss_pages] obtain sv where sv: "reachable toy_crypto sc_genesis sv"
    "length (rows_after control_types 0 (sv_db sv)) < 1 * MAX_FETCH_EVENTS"
    "filter (mls_control_of ss_channel) (map snd (filter (\<lambda>p. 0 < fst p) (db_events (sv_db sv)))) = [ss_o2]" by blast
  from control_catch_up_is_complete [OF sv(1,2), of ss_channel] sv(1,3) show ?thesis by auto
qed

end
