(* ===== verification/MediaDatagram.thy ===== *)
theory MediaDatagram
  imports FarderPrelude
begin

text \<open>
  The media datagram transport, \<open>crates/farder-protocol/src/media_datagram.rs\<close>: the 26-byte outer
  header, the split of a sealed frame into datagrams, and the reassembler of one peer track.

  A \<open>u16\<close>/\<open>u32\<close> field is a word of that width; \<open>received\<close> and the \<open>u64\<close> clock, which only count
  datagrams, are naturals.  The hash map of frames is the list of its entries.  A panic (an
  index out of range, a failed \<open>expect\<close>) is \<open>None\<close>; the debug assertion of \<open>fragment\<close> is the
  precondition its documentation states.
\<close>

section \<open>Header\<close>

datatype track_kind = Audio | Video | ScreenAudio

datatype media_dgram_error = TooShort | BadVersion byte | BadTrackKind byte | BadFragmentation

record outer_header =
  oh_track_kind :: track_kind
  oh_session_id :: bytes
  oh_frame_id :: "32 word"
  oh_frag_index :: "16 word"
  oh_frag_count :: "16 word"

definition MEDIA_DGRAM_VERSION :: byte where "MEDIA_DGRAM_VERSION = 3"
definition SESSION_ID_LEN :: nat where "SESSION_ID_LEN = 16"
definition MEDIA_DGRAM_HEADER_LEN :: nat where "MEDIA_DGRAM_HEADER_LEN = 1 + 1 + SESSION_ID_LEN + 4 + 2 + 2"

definition track_kind_to_byte :: "track_kind \<Rightarrow> byte" where
  "track_kind_to_byte k = (case k of Audio \<Rightarrow> 1 | Video \<Rightarrow> 2 | ScreenAudio \<Rightarrow> 3)"

definition byte_to_track_kind :: "byte \<Rightarrow> track_kind option" where
  "byte_to_track_kind b =
     (if b = 1 then Some Audio else if b = 2 then Some Video else if b = 3 then Some ScreenAudio else None)"

definition write_to :: "outer_header \<Rightarrow> bytes \<Rightarrow> bytes" where
  "write_to h out =
     out @ [MEDIA_DGRAM_VERSION, track_kind_to_byte (oh_track_kind h)] @ oh_session_id h @
     be_bytes 4 (unat (oh_frame_id h)) @ be_bytes 2 (unat (oh_frag_index h)) @ be_bytes 2 (unat (oh_frag_count h))"

text \<open>\<open>buf[a..b]\<close>.\<close>

definition slice :: "nat \<Rightarrow> nat \<Rightarrow> 'a list \<Rightarrow> 'a list" where
  "slice a b xs = take (b - a) (drop a xs)"

definition parse :: "bytes \<Rightarrow> media_dgram_error + (outer_header \<times> bytes)" where
  "parse buf =
     ensure (MEDIA_DGRAM_HEADER_LEN \<le> length buf) TooShort
     (ensure (buf ! 0 = MEDIA_DGRAM_VERSION) (BadVersion (buf ! 0))
     (or_fail (byte_to_track_kind (buf ! 1)) (BadTrackKind (buf ! 1)) (\<lambda>track_kind.
      let session_id = slice 2 (2 + SESSION_ID_LEN) buf;
          frame_id = word_of_nat (from_be (slice 18 22 buf));
          frag_index = word_of_nat (from_be (slice 22 24 buf));
          frag_count = word_of_nat (from_be (slice 24 26 buf))
      in ensure (\<not> (frag_count = 0 \<or> frag_count \<le> frag_index)) BadFragmentation
         (Inr (\<lparr>oh_track_kind = track_kind, oh_session_id = session_id, oh_frame_id = frame_id,
                oh_frag_index = frag_index, oh_frag_count = frag_count\<rparr>, drop MEDIA_DGRAM_HEADER_LEN buf)))))"

section \<open>Splitting a frame\<close>

text \<open>\<open>slice::chunks\<close>.\<close>

function chunks :: "nat \<Rightarrow> 'a list \<Rightarrow> 'a list list" where
  "chunks n xs = (if xs = [] \<or> n = 0 then [] else take n xs # chunks n (drop n xs))"
  by pat_completeness auto
termination by (relation "measure (length \<circ> snd)") auto

declare chunks.simps [simp del]

definition div_ceil :: "nat \<Rightarrow> nat \<Rightarrow> nat" where
  "div_ceil a b = a div b + (if a mod b = 0 then 0 else 1)"

definition u16_max :: nat where "u16_max = 65535"

definition datagram :: "track_kind \<Rightarrow> bytes \<Rightarrow> 32 word \<Rightarrow> 16 word \<Rightarrow> 16 word \<Rightarrow> bytes \<Rightarrow> bytes" where
  "datagram track_kind session_id frame_id i n chunk =
     write_to \<lparr>oh_track_kind = track_kind, oh_session_id = session_id, oh_frame_id = frame_id,
       oh_frag_index = i, oh_frag_count = n\<rparr> [] @ chunk"

definition fragment :: "track_kind \<Rightarrow> bytes \<Rightarrow> 32 word \<Rightarrow> bytes \<Rightarrow> nat \<Rightarrow> bytes list" where
  "fragment track_kind session_id frame_id sealed max_payload0 =
     (let max_payload = max max_payload0 1;
          frag_count = max (div_ceil (length sealed) max_payload) 1;
          frag_count_u16 = word_of_nat (min frag_count u16_max);
          out = map (\<lambda>(i, chunk). datagram track_kind session_id frame_id (word_of_nat i) frag_count_u16 chunk)
                  (enumerate 0 (chunks max_payload sealed))
      in if out = [] then [datagram track_kind session_id frame_id 0 1 []] else out)"

section \<open>Reassembly\<close>

record partial_frame =
  pf_frag_count :: "16 word"
  pf_parts :: "bytes option list"
  pf_received :: nat
  pf_touch :: nat

record reassembler =
  ra_frames :: "(32 word \<times> partial_frame) list"
  ra_max_frames :: nat
  ra_clock :: nat

definition with_capacity :: "nat \<Rightarrow> reassembler" where
  "with_capacity max_frames = \<lparr>ra_frames = [], ra_max_frames = max max_frames 1, ra_clock = 0\<rparr>"

definition new_reassembler :: reassembler where "new_reassembler = with_capacity 4"

definition in_progress_len :: "reassembler \<Rightarrow> nat" where
  "in_progress_len r = length (ra_frames r)"

definition fresh_partial :: "16 word \<Rightarrow> nat \<Rightarrow> partial_frame" where
  "fresh_partial n now = \<lparr>pf_frag_count = n, pf_parts = replicate (unat n) None, pf_received = 0, pf_touch = now\<rparr>"

text \<open>The slot write: the first payload for an index stays.\<close>

definition fill_slot :: "nat \<Rightarrow> bytes \<Rightarrow> partial_frame \<Rightarrow> partial_frame" where
  "fill_slot i payload p =
     (if pf_parts p ! i = None
      then p\<lparr>pf_parts := (pf_parts p)[i := Some payload], pf_received := pf_received p + 1\<rparr> else p)"

text \<open>\<open>min_by_key(touch)\<close> and the removal of its frame.\<close>

definition evict_oldest :: "(32 word \<times> partial_frame) list \<Rightarrow> (32 word \<times> partial_frame) list" where
  "evict_oldest frames =
     (if frames = [] then [] else AList.delete (fst (arg_min_list (\<lambda>f. pf_touch (snd f)) frames)) frames)"

text \<open>The entry of a frame: found or inserted, restarted when the count differs, and touched.\<close>

definition entry_for :: "outer_header \<Rightarrow> nat \<Rightarrow> (32 word \<times> partial_frame) list \<Rightarrow> partial_frame" where
  "entry_for h now frames =
     (let found = (case map_of frames (oh_frame_id h) of None \<Rightarrow> fresh_partial (oh_frag_count h) now | Some p \<Rightarrow> p);
          restarted = (if pf_frag_count found \<noteq> oh_frag_count h then fresh_partial (oh_frag_count h) now else found)
      in restarted\<lparr>pf_touch := now\<rparr>)"

text \<open>The outer option is the panic; the inner one is the frame that a datagram completes.\<close>

definition accept :: "outer_header \<Rightarrow> bytes \<Rightarrow> reassembler \<Rightarrow> (bytes option \<times> reassembler) option" where
  "accept h payload r =
     (if oh_frag_count h = 1 then Some (Some payload, r)
      else
        (let now = ra_clock r + 1; touched = entry_for h now (ra_frames r)
         in if length (pf_parts touched) \<le> unat (oh_frag_index h) then None
            else
              (let entry = fill_slot (unat (oh_frag_index h)) payload touched;
                   frames = AList.update (oh_frame_id h) entry (ra_frames r)
               in if pf_received entry = unat (pf_frag_count entry)
                  then (if None \<in> set (pf_parts entry) then None
                        else Some (Some (concat (map the (pf_parts entry))),
                                   r\<lparr>ra_frames := AList.delete (oh_frame_id h) frames, ra_clock := now\<rparr>))
                  else Some (None,
                    r\<lparr>ra_frames := (if ra_max_frames r < length frames then evict_oldest frames else frames),
                      ra_clock := now\<rparr>))))"

text \<open>A stream of datagrams as the receiver handles it: what does not parse is dropped.\<close>

fun feed :: "bytes list \<Rightarrow> reassembler \<Rightarrow> (bytes list \<times> reassembler) option" where
  "feed [] r = Some ([], r)"
| "feed (d # ds) r =
     (case parse d of
        Inl _ \<Rightarrow> feed ds r
      | Inr (h, payload) \<Rightarrow>
          (case accept h payload r of
             None \<Rightarrow> None
           | Some (done_frame, r') \<Rightarrow>
               map_option (\<lambda>(out, r''). ((case done_frame of None \<Rightarrow> [] | Some f \<Rightarrow> [f]) @ out, r'')) (feed ds r')))"

section \<open>The header\<close>

definition header_ok :: "outer_header \<Rightarrow> bool" where
  "header_ok h \<longleftrightarrow> length (oh_session_id h) = SESSION_ID_LEN \<and> oh_frag_index h < oh_frag_count h"

lemma track_kind_byte [simp]: "byte_to_track_kind (track_kind_to_byte k) = Some k"
  by (cases k) (simp_all add: byte_to_track_kind_def track_kind_to_byte_def)

lemma byte_track_kind: "byte_to_track_kind b = Some k \<Longrightarrow> track_kind_to_byte k = b"
  by (auto simp: byte_to_track_kind_def track_kind_to_byte_def split: if_splits)

lemma from_be_word16: "word_of_nat (from_be (be_bytes 2 (unat (x :: 16 word)))) = x"
proof -
  have "unat x < 2 ^ 16" using unsigned_less [of x] by simp
  then show ?thesis by (simp add: from_be_be_bytes)
qed

lemma from_be_word32: "word_of_nat (from_be (be_bytes 4 (unat (x :: 32 word)))) = x"
proof -
  have "unat x < 2 ^ 32" using unsigned_less [of x] by simp
  then show ?thesis by (simp add: from_be_be_bytes)
qed

lemma be_word16: "length bs = 2 \<Longrightarrow> be_bytes 2 (unat (word_of_nat (from_be bs) :: 16 word)) = bs"
  using from_be_bound [of bs] be_bytes_from_be [of bs] by (simp add: unat_of_nat)

lemma be_word32: "length bs = 4 \<Longrightarrow> be_bytes 4 (unat (word_of_nat (from_be bs) :: 32 word)) = bs"
  using from_be_bound [of bs] be_bytes_from_be [of bs] by (simp add: unat_of_nat)

lemma length_write_to: "length (oh_session_id h) = 16 \<Longrightarrow> length (write_to h []) = 26"
  by (simp add: write_to_def)

lemma parse_write_to:
  assumes "header_ok h"
  shows "parse (write_to h [] @ payload) = Inr (h, payload)"
proof -
  from assms have sid: "length (oh_session_id h) = 16" and idx: "oh_frag_index h < oh_frag_count h"
    by (simp_all add: header_ok_def SESSION_ID_LEN_def)
  let ?buf = "write_to h [] @ payload"
  have buf: "?buf = MEDIA_DGRAM_VERSION # track_kind_to_byte (oh_track_kind h) # oh_session_id h @
      be_bytes 4 (unat (oh_frame_id h)) @ be_bytes 2 (unat (oh_frag_index h)) @ be_bytes 2 (unat (oh_frag_count h)) @ payload"
    by (simp add: write_to_def)
  have parts: "slice 2 (2 + SESSION_ID_LEN) ?buf = oh_session_id h" "slice 18 22 ?buf = be_bytes 4 (unat (oh_frame_id h))"
    "slice 22 24 ?buf = be_bytes 2 (unat (oh_frag_index h))" "slice 24 26 ?buf = be_bytes 2 (unat (oh_frag_count h))"
    "drop MEDIA_DGRAM_HEADER_LEN ?buf = payload"
    using sid by (simp_all add: buf slice_def SESSION_ID_LEN_def MEDIA_DGRAM_HEADER_LEN_def)
  have "\<not> (oh_frag_count h = 0 \<or> oh_frag_count h \<le> oh_frag_index h)" using idx by auto
  moreover have "MEDIA_DGRAM_HEADER_LEN \<le> length ?buf"
    using length_write_to [OF sid] by (simp add: MEDIA_DGRAM_HEADER_LEN_def SESSION_ID_LEN_def)
  moreover have "?buf ! 0 = MEDIA_DGRAM_VERSION" "?buf ! 1 = track_kind_to_byte (oh_track_kind h)" by (simp_all add: buf)
  ultimately show ?thesis
    unfolding parse_def by (simp add: parts [simplified] from_be_word16 from_be_word32 Let_def)
qed

lemma parse_Inr:
  assumes "parse buf = Inr (h, payload)"
  shows "header_ok h" and "buf = write_to h [] @ payload"
proof -
  note p = assms [unfolded parse_def, unfolded result_simps Let_def]
  from p have len: "26 \<le> length buf" by (simp add: MEDIA_DGRAM_HEADER_LEN_def SESSION_ID_LEN_def result_simps)
  from p have idx: "oh_frag_index h < oh_frag_count h"
    and b0: "buf ! 0 = MEDIA_DGRAM_VERSION" and b1: "byte_to_track_kind (buf ! 1) = Some (oh_track_kind h)"
    and f: "oh_session_id h = slice 2 18 buf" "oh_frame_id h = word_of_nat (from_be (slice 18 22 buf))"
      "oh_frag_index h = word_of_nat (from_be (slice 22 24 buf))" "oh_frag_count h = word_of_nat (from_be (slice 24 26 buf))"
      "payload = drop 26 buf"
    by (auto simp: result_simps SESSION_ID_LEN_def MEDIA_DGRAM_HEADER_LEN_def)
  show "header_ok h" using idx len by (simp add: header_ok_def f(1) slice_def SESSION_ID_LEN_def)
  have two: "take 2 buf = [MEDIA_DGRAM_VERSION, track_kind_to_byte (oh_track_kind h)]"
    using len b0 byte_track_kind [OF b1] by (cases buf; cases "tl buf") auto
  have cut: "drop a buf = slice a b buf @ drop b buf" if "a \<le> b" for a b
    using that append_take_drop_id [of "b - a" "drop a buf"] by (simp add: slice_def)
  have lens: "length (slice 18 22 buf) = 4" "length (slice 22 24 buf) = 2" "length (slice 24 26 buf) = 2"
    using len by (simp_all add: slice_def)
  have "buf = take 2 buf @ slice 2 18 buf @ slice 18 22 buf @ slice 22 24 buf @ slice 24 26 buf @ drop 26 buf"
    using append_take_drop_id [of 2 buf] cut [of 2 18] cut [of 18 22] cut [of 22 24] cut [of 24 26] by simp
  also have "\<dots> = write_to h [] @ payload"
    by (simp add: write_to_def two f(1,5)) (simp only: f(2-4) be_word32 [OF lens(1)] be_word16 [OF lens(2)] be_word16 [OF lens(3)])
  finally show "buf = write_to h [] @ payload" .
qed

section \<open>The chunks of a frame\<close>

lemma chunks_Nil [simp]: "chunks n [] = []"
  by (subst chunks.simps) simp

lemma chunks_step: "xs \<noteq> [] \<Longrightarrow> 0 < n \<Longrightarrow> chunks n xs = take n xs # chunks n (drop n xs)"
  by (subst chunks.simps) simp

lemma concat_chunks: "0 < n \<Longrightarrow> concat (chunks n xs) = xs"
proof (induction n xs rule: chunks.induct)
  case (1 n xs)
  then show ?case by (cases "xs = []") (simp_all add: chunks_step)
qed

lemma chunk_bounds: "0 < n \<Longrightarrow> c \<in> set (chunks n xs) \<Longrightarrow> c \<noteq> [] \<and> length c \<le> n"
proof (induction n xs rule: chunks.induct)
  case (1 n xs)
  then show ?case by (cases "xs = []") (auto simp: chunks_step)
qed

lemma div_ceil_drop: "0 < n \<Longrightarrow> 0 < m \<Longrightarrow> div_ceil m n = Suc (div_ceil (m - n) n)"
proof (cases "m < n")
  case False
  then show "0 < n \<Longrightarrow> ?thesis" by (simp add: div_ceil_def le_div_geq le_mod_geq)
qed (simp add: div_ceil_def)

lemma length_chunks: "0 < n \<Longrightarrow> length (chunks n xs) = div_ceil (length xs) n"
proof (induction n xs rule: chunks.induct)
  case (1 n xs)
  show ?case
  proof (cases "xs = []")
    case False
    then have "length (chunks n xs) = Suc (length (chunks n (drop n xs)))" using 1(2) by (simp add: chunks_step)
    also have "\<dots> = Suc (div_ceil (length xs - n) n)" using 1 False by simp
    also have "\<dots> = div_ceil (length xs) n" using div_ceil_drop [OF 1(2), of "length xs"] False by simp
    finally show ?thesis .
  qed (simp add: div_ceil_def)
qed

text \<open>The datagrams of a frame: the pieces, numbered.\<close>

definition pieces :: "nat \<Rightarrow> bytes \<Rightarrow> bytes list" where
  "pieces max_payload sealed = (if sealed = [] then [[]] else chunks (max max_payload 1) sealed)"

lemma concat_pieces: "concat (pieces mp sealed) = sealed"
  by (simp add: pieces_def concat_chunks)

lemma pieces_nonempty: "pieces mp sealed \<noteq> []"
  by (simp add: pieces_def chunks_step)

lemma piece_length: "c \<in> set (pieces mp sealed) \<Longrightarrow> length c \<le> max mp 1"
  using chunk_bounds [of "max mp 1" c sealed] by (auto simp: pieces_def split: if_splits)

definition header_of :: "track_kind \<Rightarrow> bytes \<Rightarrow> 32 word \<Rightarrow> nat \<Rightarrow> nat \<Rightarrow> outer_header" where
  "header_of k sid fid i n = \<lparr>oh_track_kind = k, oh_session_id = sid, oh_frame_id = fid,
     oh_frag_index = word_of_nat i, oh_frag_count = word_of_nat n\<rparr>"

lemma map_enumerate: "map (\<lambda>(i, c). f i c) (enumerate 0 cs) = map (\<lambda>i. f i (cs ! i)) [0..<length cs]"
  by (rule nth_equalityI) (simp_all add: nth_enumerate_eq)

lemma fragment_pieces:
  assumes "length (pieces mp sealed) \<le> u16_max"
  shows "fragment k sid fid sealed mp =
    map (\<lambda>i. write_to (header_of k sid fid i (length (pieces mp sealed))) [] @ pieces mp sealed ! i)
      [0..<length (pieces mp sealed)]"
proof (cases "sealed = []")
  case True
  then show ?thesis by (simp add: fragment_def pieces_def datagram_def header_of_def Let_def)
next
  case False
  then have len: "length (pieces mp sealed) = div_ceil (length sealed) (max mp 1)"
    by (simp add: pieces_def length_chunks)
  have "0 < length (pieces mp sealed)" using pieces_nonempty by blast
  with len have n: "max (div_ceil (length sealed) (max mp 1)) 1 = length (pieces mp sealed)" by simp
  have "chunks (max mp 1) sealed = pieces mp sealed" using False by (simp add: pieces_def)
  moreover have "map g [0..<length (pieces mp sealed)] \<noteq> []" for g :: "nat \<Rightarrow> bytes"
    using pieces_nonempty by simp
  moreover have "min (length (pieces mp sealed)) u16_max = length (pieces mp sealed)" using assms by simp
  ultimately show ?thesis unfolding fragment_def Let_def n map_enumerate datagram_def header_of_def by simp
qed

lemma parse_fragment:
  assumes "length sid = SESSION_ID_LEN" and "i < n" "n \<le> u16_max"
  shows "parse (write_to (header_of k sid fid i n) [] @ c) = Inr (header_of k sid fid i n, c)"
proof (rule parse_write_to)
  have "unat (word_of_nat i :: 16 word) = i" "unat (word_of_nat n :: 16 word) = n"
    using assms by (simp_all add: unat_of_nat u16_max_def)
  then show "header_ok (header_of k sid fid i n)"
    using assms by (simp add: header_ok_def header_of_def word_less_nat_alt)
qed

section \<open>The reassembler\<close>

definition filled :: "bytes option list \<Rightarrow> nat set" where
  "filled ps = {i. i < length ps \<and> ps ! i \<noteq> None}"

definition partial_ok :: "partial_frame \<Rightarrow> bool" where
  "partial_ok p \<longleftrightarrow> length (pf_parts p) = unat (pf_frag_count p) \<and> pf_received p = card (filled (pf_parts p))"

definition ra_wf :: "reassembler \<Rightarrow> bool" where
  "ra_wf r \<longleftrightarrow> distinct (map fst (ra_frames r)) \<and> 1 \<le> ra_max_frames r \<and> length (ra_frames r) \<le> ra_max_frames r \<and>
     (\<forall>f \<in> set (ra_frames r). partial_ok (snd f) \<and> pf_touch (snd f) \<le> ra_clock r)"

lemma finite_filled [simp]: "finite (filled ps)"
  by (simp add: filled_def)

lemma filled_le: "card (filled ps) \<le> length ps"
  using card_mono [of "{..<length ps}" "filled ps"] by (auto simp: filled_def)

lemma filled_all:
  assumes card: "card (filled ps) = length ps"
  shows "None \<notin> set ps"
proof
  assume "None \<in> set ps"
  then obtain i where i: "i < length ps" "ps ! i = None" unfolding in_set_conv_nth by blast
  have "filled ps \<subseteq> {..<length ps} - {i}" using i(2) by (auto simp: filled_def)
  then have "card (filled ps) \<le> card ({..<length ps} - {i})" by (rule card_mono [rotated]) simp
  also have "\<dots> < length ps" using i(1) by simp
  finally show False using card by simp
qed

lemma filled_update:
  assumes "i < length ps" and "ps ! i = None"
  shows "filled (ps[i := Some x]) = insert i (filled ps)" "i \<notin> filled ps"
  using assms by (auto simp: filled_def nth_list_update)

lemma partial_ok_fresh: "partial_ok (fresh_partial n now)"
  by (simp add: partial_ok_def fresh_partial_def filled_def)

lemma entry_for_ok:
  assumes "\<forall>f \<in> set frames. partial_ok (snd f)"
  shows "partial_ok (entry_for h now frames)" "pf_frag_count (entry_for h now frames) = oh_frag_count h"
    "pf_touch (entry_for h now frames) = now"
proof -
  have found: "partial_ok p" if "map_of frames fid = Some p" for fid p
    using assms map_of_SomeD [OF that] by auto
  show "partial_ok (entry_for h now frames)"
    using found partial_ok_fresh by (auto simp: entry_for_def Let_def partial_ok_def split: option.splits)
  show "pf_frag_count (entry_for h now frames) = oh_frag_count h" "pf_touch (entry_for h now frames) = now"
    by (auto simp: entry_for_def Let_def fresh_partial_def)
qed

lemma fill_slot_ok:
  assumes "partial_ok p" and "i < length (pf_parts p)"
  shows "partial_ok (fill_slot i x p)" "pf_frag_count (fill_slot i x p) = pf_frag_count p"
    "pf_touch (fill_slot i x p) = pf_touch p" "length (pf_parts (fill_slot i x p)) = length (pf_parts p)"
    "filled (pf_parts (fill_slot i x p)) = insert i (filled (pf_parts p))"
  using assms filled_update(1) [of i "pf_parts p" x] filled_update(2) [of i "pf_parts p"]
  by (auto simp: fill_slot_def partial_ok_def insert_absorb filled_def)

text \<open>Removing the oldest of several frames never removes the one touched last.\<close>

lemma arg_min_list_least: "xs \<noteq> [] \<Longrightarrow> y \<in> set xs \<Longrightarrow> f (arg_min_list f xs) \<le> f y"
  for f :: "'a \<Rightarrow> 'b :: linorder"
  using f_arg_min_list_f [of xs f] by simp

lemma evict_oldest_keeps:
  assumes dist: "distinct (map fst frames)" and two: "1 < length frames"
    and mine: "map_of frames fid = Some p" and newest: "\<And>f. f \<in> set frames \<Longrightarrow> fst f \<noteq> fid \<Longrightarrow> pf_touch (snd f) < pf_touch p"
  shows "map_of (evict_oldest frames) fid = Some p"
proof -
  let ?old = "arg_min_list (\<lambda>f. pf_touch (snd f)) frames"
  have ne: "frames \<noteq> []" using two by auto
  have "\<exists>f \<in> set frames. fst f \<noteq> fid"
  proof (rule ccontr)
    assume "\<not> ?thesis"
    then have "set (map fst frames) \<subseteq> {fid}" by auto
    then have "card (set (map fst frames)) \<le> 1" using card_mono [of "{fid}" "set (map fst frames)"] by simp
    with dist two show False by (simp add: distinct_card [of "map fst frames", simplified])
  qed
  then obtain f where f: "f \<in> set frames" "fst f \<noteq> fid" by blast
  have "pf_touch (snd ?old) \<le> pf_touch (snd f)" by (rule arg_min_list_least [OF ne f(1)])
  also have "\<dots> < pf_touch p" by (rule newest [OF f])
  finally have less: "pf_touch (snd ?old) < pf_touch p" .
  have "fst ?old \<noteq> fid"
  proof
    assume eq: "fst ?old = fid"
    have "?old \<in> set frames" by (rule arg_min_list_in [OF ne])
    then have "map_of frames fid = Some (snd ?old)" using dist eq by (metis map_of_is_SomeI prod.collapse)
    with mine less show False by simp
  qed
  then show ?thesis using mine ne by (simp add: evict_oldest_def)
qed

lemma evict_oldest_shrinks:
  assumes "frames \<noteq> []" and "distinct (map fst frames)"
  shows "length (evict_oldest frames) + 1 = length frames" "set (evict_oldest frames) \<subseteq> set frames"
    "distinct (map fst (evict_oldest frames))"
proof -
  let ?old = "arg_min_list (\<lambda>f. pf_touch (snd f)) frames"
  have old: "fst ?old \<in> set (map fst frames)"
    unfolding set_map by (rule imageI) (rule arg_min_list_in [OF assms(1)])
  show "set (evict_oldest frames) \<subseteq> set frames" using assms(1) by (auto simp: evict_oldest_def AList.delete_eq)
  show dist: "distinct (map fst (evict_oldest frames))"
    using assms by (simp add: evict_oldest_def distinct_delete)
  have "set (map fst (evict_oldest frames)) = set (map fst frames) - {fst ?old}"
    using assms(1) by (simp add: evict_oldest_def delete_keys)
  then have "card (set (map fst (evict_oldest frames))) + 1 = card (set (map fst frames))"
    using old card_Suc_Diff1 [of "set (map fst frames)" "fst ?old"] by simp
  then show "length (evict_oldest frames) + 1 = length frames"
    using distinct_card [OF dist] distinct_card [OF assms(2)] by simp
qed

lemma set_alist_update: "distinct (map fst al) \<Longrightarrow> set (AList.update k v al) = insert (k, v) {f \<in> set al. fst f \<noteq> k}"
proof (induction al)
  case (Cons a al)
  then have "fst a \<notin> fst ` set al" by simp
  then have "\<forall>f \<in> set al. fst f \<noteq> fst a" by (auto intro: rev_image_eqI)
  with Cons show ?case by auto
qed simp

lemma length_update_le: "length (AList.update k v al) \<le> length al + 1"
  by (induction al) auto

lemma set_alist_delete: "set (AList.delete k al) = {f \<in> set al. fst f \<noteq> k}"
  by (auto simp: AList.delete_eq)

text \<open>What a datagram with more than one fragment does, by cases.\<close>

lemma accept_multi:
  fixes payload :: bytes
  assumes wf: "ra_wf r" and idx: "oh_frag_index h < oh_frag_count h" and many: "oh_frag_count h \<noteq> 1"
  defines "entry \<equiv> fill_slot (unat (oh_frag_index h)) payload (entry_for h (ra_clock r + 1) (ra_frames r))"
  defines "frames \<equiv> AList.update (oh_frame_id h) entry (ra_frames r)"
  shows "partial_ok entry" "pf_frag_count entry = oh_frag_count h" "pf_touch entry = ra_clock r + 1"
    and "accept h payload r =
      (if card (filled (pf_parts entry)) = unat (oh_frag_count h)
       then Some (Some (concat (map the (pf_parts entry))), r\<lparr>ra_frames := AList.delete (oh_frame_id h) (ra_frames r), ra_clock := ra_clock r + 1\<rparr>)
       else Some (None, r\<lparr>ra_frames := (if ra_max_frames r < length frames then evict_oldest frames else frames),
         ra_clock := ra_clock r + 1\<rparr>))"
proof -
  let ?t = "entry_for h (ra_clock r + 1) (ra_frames r)"
  have all: "\<forall>f \<in> set (ra_frames r). partial_ok (snd f)" using wf by (simp add: ra_wf_def)
  note t = entry_for_ok [OF all, of h "ra_clock r + 1"]
  have lt: "unat (oh_frag_index h) < length (pf_parts ?t)"
    using t(1,2) idx by (simp add: partial_ok_def word_less_nat_alt)
  note e = fill_slot_ok [OF t(1) lt, of payload, folded entry_def]
  show ok: "partial_ok entry" and count: "pf_frag_count entry = oh_frag_count h" and "pf_touch entry = ra_clock r + 1"
    using e t by simp_all
  have full: "None \<notin> set (pf_parts entry)" if "card (filled (pf_parts entry)) = unat (oh_frag_count h)"
    using filled_all [of "pf_parts entry"] ok count that by (simp add: partial_ok_def)
  have rec: "pf_received entry = card (filled (pf_parts entry))" using ok by (simp add: partial_ok_def)
  have del: "AList.delete (oh_frame_id h) frames = AList.delete (oh_frame_id h) (ra_frames r)"
    unfolding frames_def by (rule AList.delete_update_same)
  show "accept h payload r =
      (if card (filled (pf_parts entry)) = unat (oh_frag_count h)
       then Some (Some (concat (map the (pf_parts entry))), r\<lparr>ra_frames := AList.delete (oh_frame_id h) (ra_frames r), ra_clock := ra_clock r + 1\<rparr>)
       else Some (None, r\<lparr>ra_frames := (if ra_max_frames r < length frames then evict_oldest frames else frames),
         ra_clock := ra_clock r + 1\<rparr>))"
    unfolding accept_def Let_def entry_def [symmetric] frames_def [symmetric] rec count del
    using many lt full by simp
qed

lemma accept_wf:
  assumes wf: "ra_wf r" and idx: "oh_frag_index h < oh_frag_count h"
  shows "\<exists>res r'. accept h payload r = Some (res, r') \<and> ra_wf r' \<and> ra_max_frames r' = ra_max_frames r"
proof (cases "oh_frag_count h = 1")
  case True
  with wf show ?thesis by (simp add: accept_def)
next
  case False
  define entry where "entry = fill_slot (unat (oh_frag_index h)) payload (entry_for h (ra_clock r + 1) (ra_frames r))"
  define frames where "frames = AList.update (oh_frame_id h) entry (ra_frames r)"
  note A = accept_multi [OF wf idx False, of payload, folded entry_def, folded frames_def]
  from wf have dist: "distinct (map fst (ra_frames r))" and max: "1 \<le> ra_max_frames r" "length (ra_frames r) \<le> ra_max_frames r"
    and old: "\<forall>f \<in> set (ra_frames r). partial_ok (snd f) \<and> pf_touch (snd f) \<le> ra_clock r" by (simp_all add: ra_wf_def)
  show ?thesis
  proof (cases "card (filled (pf_parts entry)) = unat (oh_frag_count h)")
    case True
    have "length (AList.delete (oh_frame_id h) (ra_frames r)) \<le> length (ra_frames r)" by (rule AList.length_delete_le)
    with True A(4) dist max old show ?thesis
      by (auto simp: ra_wf_def distinct_delete set_alist_delete le_SucI)
  next
    case False
    have fr: "distinct (map fst frames)" "length frames \<le> ra_max_frames r + 1"
      "\<forall>f \<in> set frames. partial_ok (snd f) \<and> pf_touch (snd f) \<le> ra_clock r + 1"
      using dist max(2) old A(1,3) length_update_le [of "oh_frame_id h" entry "ra_frames r"]
      by (auto simp: frames_def distinct_update set_alist_update)
    show ?thesis
    proof (cases "ra_max_frames r < length frames")
      case True
      then have ne: "frames \<noteq> []" by auto
      note ev = evict_oldest_shrinks [OF ne fr(1)]
      have "length (evict_oldest frames) \<le> ra_max_frames r" using ev(1) fr(2) by simp
      with True False A(4) max(1) ev(2,3) fr(3) show ?thesis by (auto simp: ra_wf_def)
    next
      case False2: False
      with False A(4) max(1) fr show ?thesis by (simp add: ra_wf_def)
    qed
  qed
qed

lemma with_capacity_wf: "ra_wf (with_capacity n)"
  by (simp add: ra_wf_def with_capacity_def)

lemma feed_wf: "ra_wf r \<Longrightarrow> \<exists>outs r'. feed ds r = Some (outs, r') \<and> ra_wf r' \<and> ra_max_frames r' = ra_max_frames r"
proof (induction ds arbitrary: r)
  case (Cons d ds)
  show ?case
  proof (cases "parse d")
    case (Inr p)
    obtain h payload where p: "p = (h, payload)" by (cases p)
    have "oh_frag_index h < oh_frag_count h" using parse_Inr(1) [OF Inr [unfolded p]] by (simp add: header_ok_def)
    from accept_wf [OF Cons.prems this, of payload] obtain res r' where
      a: "accept h payload r = Some (res, r')" "ra_wf r'" "ra_max_frames r' = ra_max_frames r" by blast
    from Cons.IH [OF a(2)] obtain outs r'' where "feed ds r' = Some (outs, r'')" "ra_wf r''" "ra_max_frames r'' = ra_max_frames r'"
      by blast
    with a Inr p show ?thesis by simp
  qed (use Cons in simp)
qed simp

section \<open>Collecting the pieces of one frame\<close>

definition slots :: "bytes list \<Rightarrow> nat set \<Rightarrow> bytes option list" where
  "slots cs seen = map (\<lambda>i. if i \<in> seen then Some (cs ! i) else None) [0..<length cs]"

lemma length_slots [simp]: "length (slots cs seen) = length cs"
  by (simp add: slots_def)

lemma nth_slots [simp]: "i < length cs \<Longrightarrow> slots cs seen ! i = (if i \<in> seen then Some (cs ! i) else None)"
  by (simp add: slots_def)

lemma slots_empty: "replicate (length cs) None = slots cs {}"
  by (rule nth_equalityI) simp_all

lemma slots_insert: "i < length cs \<Longrightarrow> (slots cs seen)[i := Some (cs ! i)] = slots cs (insert i seen)"
  by (rule nth_equalityI) (auto simp: nth_list_update)

lemma slots_full: "map the (slots cs {..<length cs}) = cs"
  by (rule nth_equalityI) simp_all

lemma filled_slots: "seen \<subseteq> {..<length cs} \<Longrightarrow> filled (slots cs seen) = seen"
  by (auto simp: filled_def split: if_splits)

text \<open>The state in which the pieces \<open>seen\<close> of the frame have come, the last of them just now.\<close>

definition collecting :: "bytes list \<Rightarrow> 32 word \<Rightarrow> nat set \<Rightarrow> reassembler \<Rightarrow> bool" where
  "collecting cs fid seen r \<longleftrightarrow> ra_wf r \<and>
     (if seen = {} then map_of (ra_frames r) fid = None
      else \<exists>p. map_of (ra_frames r) fid = Some p \<and> pf_frag_count p = word_of_nat (length cs) \<and> pf_parts p = slots cs seen)"

lemma entry_parts:
  assumes "collecting cs fid seen r" and "length cs \<le> u16_max"
  shows "pf_parts (entry_for (header_of k sid fid i (length cs)) now (ra_frames r)) = slots cs seen"
proof -
  have n: "unat (word_of_nat (length cs) :: 16 word) = length cs" using assms(2) by (simp add: unat_of_nat u16_max_def)
  show ?thesis
    using assms(1) by (auto simp: collecting_def entry_for_def header_of_def fresh_partial_def Let_def n slots_empty split: if_splits)
qed

lemma collect_piece:
  assumes col: "collecting cs fid seen r" and n: "1 < length cs" "length cs \<le> u16_max"
    and i: "i < length cs" and seen: "seen \<subseteq> {..<length cs}"
  shows "if insert i seen = {..<length cs}
     then \<exists>r'. accept (header_of k sid fid i (length cs)) (cs ! i) r = Some (Some (concat cs), r') \<and> collecting cs fid {} r'
     else \<exists>r'. accept (header_of k sid fid i (length cs)) (cs ! i) r = Some (None, r') \<and> collecting cs fid (insert i seen) r'"
proof -
  let ?h = "header_of k sid fid i (length cs)"
  have w: "unat (word_of_nat (length cs) :: 16 word) = length cs" "unat (word_of_nat i :: 16 word) = i"
    using n i by (simp_all add: unat_of_nat u16_max_def)
  have h: "oh_frame_id ?h = fid" "unat (oh_frag_index ?h) = i" "unat (oh_frag_count ?h) = length cs" "oh_frag_count ?h = word_of_nat (length cs)"
    by (simp_all add: header_of_def w)
  have wf: "ra_wf r" using col by (simp add: collecting_def)
  have idx: "oh_frag_index ?h < oh_frag_count ?h" using h(2,3) i by (simp add: word_less_nat_alt)
  have many: "oh_frag_count ?h \<noteq> 1" using h(3) n(1) by auto
  define entry where "entry = fill_slot (unat (oh_frag_index ?h)) (cs ! i) (entry_for ?h (ra_clock r + 1) (ra_frames r))"
  define frames where "frames = AList.update (oh_frame_id ?h) entry (ra_frames r)"
  note A = accept_multi [OF wf idx many, of "cs ! i", folded entry_def, folded frames_def]
  have parts: "pf_parts entry = slots cs (insert i seen)"
    using entry_parts [OF col n(2), of k sid i "ra_clock r + 1"] i
    by (simp add: entry_def fill_slot_def h(2) slots_insert insert_absorb)
  have filled: "filled (pf_parts entry) = insert i seen" unfolding parts using seen i by (intro filled_slots) auto
  have done_iff: "card (filled (pf_parts entry)) = unat (oh_frag_count ?h) \<longleftrightarrow> insert i seen = {..<length cs}"
  proof
    assume "card (filled (pf_parts entry)) = unat (oh_frag_count ?h)"
    then show "insert i seen = {..<length cs}"
      unfolding filled h(3) using seen i by (intro card_subset_eq) auto
  qed (simp add: filled h(3))
  obtain res r' where r': "accept ?h (cs ! i) r = Some (res, r')" "ra_wf r'" using accept_wf [OF wf idx, of "cs ! i"] by blast
  show ?thesis
  proof (cases "insert i seen = {..<length cs}")
    case True
    with A(4) r' done_iff have "res = Some (concat cs)" "ra_frames r' = AList.delete fid (ra_frames r)"
      by (auto simp: parts True slots_full h(1))
    with r' True show ?thesis by (simp add: collecting_def AList.delete_conv')
  next
    case False
    with A(4) r' done_iff have res: "res = None"
      and fr: "ra_frames r' = (if ra_max_frames r < length frames then evict_oldest frames else frames)" by auto
    have dist: "distinct (map fst (ra_frames r))" and old: "\<forall>f \<in> set (ra_frames r). pf_touch (snd f) \<le> ra_clock r"
      and cap: "1 \<le> ra_max_frames r" using wf by (simp_all add: ra_wf_def)
    have mine: "map_of frames fid = Some entry" by (simp add: frames_def h(1))
    have "map_of (evict_oldest frames) fid = Some entry" if "ra_max_frames r < length frames"
    proof (rule evict_oldest_keeps [OF _ _ mine])
      show "distinct (map fst frames)" using dist by (simp add: frames_def distinct_update)
      show "1 < length frames" using that cap by simp
      show "pf_touch (snd f) < pf_touch entry" if "f \<in> set frames" "fst f \<noteq> fid" for f
        using that old A(3) by (auto simp: frames_def set_alist_update [OF dist] h(1) less_Suc_eq_le)
    qed
    with mine have "map_of (ra_frames r') fid = Some entry" by (simp add: fr)
    then have "collecting cs fid (insert i seen) r'" using r'(2) A(2) parts h(4) by (simp add: collecting_def)
    with r' res False show ?thesis by simp
  qed
qed

text \<open>Feeding the pieces in any order, with repetitions, until the last one comes.\<close>

lemma feed_append: "feed (xs @ ys) r =
    (case feed xs r of None \<Rightarrow> None | Some (out, r') \<Rightarrow> map_option (\<lambda>(out', r''). (out @ out', r'')) (feed ys r'))"
proof (induction xs arbitrary: r)
  case (Cons d ds)
  show ?case
    by (auto simp: Cons.IH map_option_case split: sum.split option.split prod.split)
qed (simp add: option.map_ident_strong split_beta)

lemma feed_pieces:
  assumes "collecting cs fid seen r" and n: "1 < length cs" "length cs \<le> u16_max" and sid: "length sid = SESSION_ID_LEN"
    and "seen \<union> set is \<subset> {..<length cs}"
  shows "\<exists>r'. feed (map (\<lambda>i. write_to (header_of k sid fid i (length cs)) [] @ cs ! i) is) r = Some ([], r') \<and>
    collecting cs fid (seen \<union> set is) r'"
  using assms(1,5)
proof (induction "is" arbitrary: seen r)
  case (Cons i js)
  from Cons.prems(2) have i: "i < length cs" and seen: "seen \<subseteq> {..<length cs}" and more: "insert i seen \<noteq> {..<length cs}" by auto
  from collect_piece [OF Cons.prems(1) n i seen, of k sid] more obtain r1 where
    r1: "accept (header_of k sid fid i (length cs)) (cs ! i) r = Some (None, r1)" "collecting cs fid (insert i seen) r1" by auto
  have "insert i seen \<union> set js \<subset> {..<length cs}" using Cons.prems(2) by auto
  from Cons.IH [OF r1(2) this] r1(1) parse_fragment [OF sid i n(2), of k fid "cs ! i"] show ?case by auto
qed simp

end
