(* ===== verification/MediaReassembly.thy ===== *)
theory MediaReassembly
  imports MediaDatagram
begin

text \<open>
  Splitting and reassembling a frame, for whole frames and for streams of them: the datagrams of a
  frame in any order give the frame back, and leave no trace of it.
\<close>

lemma split_reassembles:
  assumes "length sid = SESSION_ID_LEN" and "div_ceil (length sealed) (max mp 1) \<le> u16_max"
    and "ra_wf r" and "map_of (ra_frames r) fid = None"
    and "set (ds @ [d]) = set (fragment k sid fid sealed mp)" and "d \<notin> set ds"
  shows "\<exists>r' r''. feed ds r = Some ([], r') \<and> feed (ds @ [d]) r = Some ([sealed], r'') \<and> ra_wf r'' \<and>
    map_of (ra_frames r'') fid = None"
proof -
  let ?cs = "pieces mp sealed"
  let ?dg = "\<lambda>i. write_to (header_of k sid fid i (length ?cs)) [] @ ?cs ! i"
  have n: "length ?cs \<le> u16_max" using assms(2) by (auto simp: pieces_def length_chunks u16_max_def)
  have frag: "set (fragment k sid fid sealed mp) = ?dg ` {..<length ?cs}"
    by (simp add: fragment_pieces [OF n] lessThan_atLeast0)
  have parse_dg: "parse (?dg i) = Inr (header_of k sid fid i (length ?cs), ?cs ! i)" if "i < length ?cs" for i
    by (rule parse_fragment [OF assms(1) that n])
  have inj: "inj_on ?dg {..<length ?cs}"
  proof (rule inj_onI)
    fix i j
    assume ij: "i \<in> {..<length ?cs}" "j \<in> {..<length ?cs}" "?dg i = ?dg j"
    from ij(1,2) have lt: "i < length ?cs" "j < length ?cs" by simp_all
    have "parse (?dg i) = parse (?dg j)" by (rule arg_cong [OF ij(3)])
    then have "header_of k sid fid i (length ?cs) = header_of k sid fid j (length ?cs)"
      unfolding parse_dg [OF lt(1)] parse_dg [OF lt(2)] by simp
    then have "(word_of_nat i :: 16 word) = word_of_nat j" by (simp add: header_of_def)
    then have "unat (word_of_nat i :: 16 word) = unat (word_of_nat j :: 16 word)" by simp
    then show "i = j" using ij n by (simp add: unat_of_nat u16_max_def)
  qed
  have "set ds \<subseteq> ?dg ` {..<length ?cs}" using assms(5) frag by auto
  then have from_frag: "\<And>x. x \<in> set ds \<Longrightarrow> x \<in> ?dg ` {..<length ?cs}" by blast
  define js where "js = map (inv_into {..<length ?cs} ?dg) ds"
  have js: "ds = map ?dg js" "set js \<subseteq> {..<length ?cs}"
    unfolding js_def map_map comp_def using f_inv_into_f [OF from_frag] inv_into_into [OF from_frag] by (simp_all add: map_idI image_subset_iff)
  from assms(5) frag obtain i where i: "d = ?dg i" "i < length ?cs" by auto
  have all: "insert i (set js) = {..<length ?cs}"
  proof -
    have "?dg ` insert i (set js) = ?dg ` {..<length ?cs}" using assms(5) frag js(1) i(1) by auto
    moreover have "insert i (set js) \<subseteq> {..<length ?cs}" using js(2) i(2) by auto
    ultimately show ?thesis using inj_on_image_eq_iff [OF inj, of "insert i (set js)" "{..<length ?cs}"] by simp
  qed
  have new: "i \<notin> set js" using assms(6) js(1) i(1) by auto
  show ?thesis
  proof (cases "1 < length ?cs")
    case True
    have "collecting ?cs fid {} r" using assms(3,4) by (simp add: collecting_def)
    moreover have "{} \<union> set js \<subset> {..<length ?cs}" using js(2) i(2) new by auto
    ultimately obtain r' where r': "feed ds r = Some ([], r')" "collecting ?cs fid (set js) r'"
      using feed_pieces [OF _ True n assms(1), of fid "{}" r js k] js(1) by auto
    obtain r'' where
      r'': "accept (header_of k sid fid i (length ?cs)) (?cs ! i) r' = Some (Some (concat ?cs), r'')" "collecting ?cs fid {} r''"
      using collect_piece [OF r'(2) True n i(2) js(2), of k sid] unfolding if_P [OF all] by blast
    have "feed [d] r' = Some ([sealed], r'')" using r''(1) parse_dg [OF i(2)] by (simp add: i(1) concat_pieces)
    with r'(1) have "feed (ds @ [d]) r = Some ([sealed], r'')" by (simp add: feed_append)
    with r'(1) r''(2) show ?thesis by (simp add: collecting_def)
  next
    case False
    with pieces_nonempty [of mp sealed] have one: "length ?cs = 1" by (cases ?cs) auto
    have "i = 0" using i(2) one by simp
    have "set js \<subseteq> {0}" using js(2) unfolding one by auto
    moreover have "0 \<notin> set js" using new by (simp add: \<open>i = 0\<close>)
    ultimately have "set js = {}" using subset_singletonD [of "set js" 0] by auto
    with js(1) have "ds = []" by simp
    have "?cs = [sealed]" using one concat_pieces [of mp sealed] by (cases ?cs) auto
    then have "feed (ds @ [d]) r = Some ([sealed], r)"
      using parse_dg [of 0] by (simp add: \<open>ds = []\<close> i(1) \<open>i = 0\<close> accept_def header_of_def)
    with assms(3,4) \<open>ds = []\<close> show ?thesis by simp
  qed
qed

text \<open>The datagrams of a frame differ from each other.\<close>

lemma fragment_distinct:
  assumes "length sid = SESSION_ID_LEN" and "div_ceil (length sealed) (max mp 1) \<le> u16_max"
  shows "distinct (fragment k sid fid sealed mp)"
proof -
  let ?cs = "pieces mp sealed"
  let ?dg = "\<lambda>i. write_to (header_of k sid fid i (length ?cs)) [] @ ?cs ! i"
  have n: "length ?cs \<le> u16_max" using assms(2) by (auto simp: pieces_def length_chunks u16_max_def)
  have "inj_on ?dg {0..<length ?cs}"
  proof (rule inj_onI)
    fix i j
    assume ij: "i \<in> {0..<length ?cs}" "j \<in> {0..<length ?cs}" "?dg i = ?dg j"
    from ij(1,2) have lt: "i < length ?cs" "j < length ?cs" by simp_all
    have "parse (?dg i) = parse (?dg j)" by (rule arg_cong [OF ij(3)])
    then have "header_of k sid fid i (length ?cs) = header_of k sid fid j (length ?cs)"
      unfolding parse_fragment [OF assms(1) lt(1) n] parse_fragment [OF assms(1) lt(2) n] by simp
    then have "unat (word_of_nat i :: 16 word) = unat (word_of_nat j :: 16 word)" by (simp add: header_of_def)
    then show "i = j" using ij n by (simp add: unat_of_nat u16_max_def)
  qed
  then show ?thesis by (simp add: fragment_pieces [OF n] distinct_map)
qed

text \<open>In any order, each once.\<close>

lemma shuffled_reassembles:
  assumes "length sid = SESSION_ID_LEN" and "div_ceil (length sealed) (max mp 1) \<le> u16_max"
    and "ra_wf r" and "map_of (ra_frames r) fid = None"
    and perm: "mset ds = mset (fragment k sid fid sealed mp)"
  shows "\<exists>r'. feed ds r = Some ([sealed], r') \<and> ra_wf r' \<and> map_of (ra_frames r') fid = None"
proof -
  have "fragment k sid fid sealed mp \<noteq> []"
    using pieces_nonempty fragment_pieces [of mp sealed k sid fid] assms(2)
    by (auto simp: pieces_def length_chunks u16_max_def)
  with perm have "ds \<noteq> []" by auto
  then obtain es e where ds: "ds = es @ [e]" by (meson rev_exhaust)
  have "distinct ds" using fragment_distinct [OF assms(1,2)] perm by (metis mset_eq_imp_distinct_iff)
  then have "e \<notin> set es" by (simp add: ds)
  moreover have "set (es @ [e]) = set (fragment k sid fid sealed mp)" using mset_eq_setD [OF perm] by (simp add: ds)
  ultimately show ?thesis using split_reassembles [OF assms(1-4)] unfolding ds by meson
qed

text \<open>A datagram only touches its own frame; the eviction only removes.\<close>

lemma evicted_frame: "map_of (evict_oldest frames) f = Some p \<Longrightarrow> map_of frames f = Some p"
  by (auto simp: evict_oldest_def split: if_splits)

lemma accept_dom:
  assumes "accept h p r = Some (out, r')"
  shows "dom (map_of (ra_frames r')) \<subseteq> insert (oh_frame_id h) (dom (map_of (ra_frames r)))"
  using assms
  by (auto simp: accept_def Let_def split: if_splits dest!: evicted_frame)

lemma feed_dom:
  assumes "feed ds r = Some (out, r')" and "\<And>d h p. d \<in> set ds \<Longrightarrow> parse d = Inr (h, p) \<Longrightarrow> oh_frame_id h = fid"
  shows "dom (map_of (ra_frames r')) \<subseteq> insert fid (dom (map_of (ra_frames r)))"
  using assms
proof (induction ds arbitrary: r out)
  case (Cons d ds)
  show ?case
  proof (cases "parse d")
    case Inl
    with Cons.prems have "feed ds r = Some (out, r')" by simp
    from Cons.IH [OF this] Cons.prems(2) show ?thesis by (meson list.set_intros(2))
  next
    case (Inr hp)
    obtain h p where hp: "hp = (h, p)" by fastforce
    with Cons.prems(1) Inr obtain o1 r1 out2 where a: "accept h p r = Some (o1, r1)" "feed ds r1 = Some (out2, r')"
      by (auto split: option.splits)
    have "oh_frame_id h = fid" using Cons.prems(2) Inr hp by auto
    with accept_dom [OF a(1)] Cons.IH [OF a(2)] Cons.prems(2) show ?thesis by fastforce
  qed
qed auto

text \<open>So a frame that arrives completely leaves an empty reassembler empty.\<close>

lemma frame_passes:
  assumes "length sid = SESSION_ID_LEN" and "div_ceil (length sealed) (max mp 1) \<le> u16_max"
    and "ra_wf r" and empty: "ra_frames r = []" and perm: "mset ds = mset (fragment k sid fid sealed mp)"
  obtains r' where "feed ds r = Some ([sealed], r')" and "ra_wf r'" and "ra_frames r' = []"
proof -
  obtain r' where r': "feed ds r = Some ([sealed], r')" "ra_wf r'" "map_of (ra_frames r') fid = None"
    using shuffled_reassembles [OF assms(1-3) _ perm] empty by auto
  have n: "length (pieces mp sealed) \<le> u16_max" using assms(2) by (auto simp: pieces_def length_chunks u16_max_def)
  have "oh_frame_id h = fid" if "d \<in> set ds" "parse d = Inr (h, p)" for d h p
  proof -
    have "d \<in> set (fragment k sid fid sealed mp)" using that(1) mset_eq_setD [OF perm] by simp
    then obtain i where "i < length (pieces mp sealed)"
      and "d = write_to (header_of k sid fid i (length (pieces mp sealed))) [] @ pieces mp sealed ! i"
      by (auto simp: fragment_pieces [OF n])
    with parse_fragment [OF assms(1) _ n, of i k fid] that(2) show ?thesis by (auto simp: header_of_def)
  qed
  from feed_dom [OF r'(1) this] have "dom (map_of (ra_frames r')) \<subseteq> {fid}" by (simp add: empty)
  moreover have "fid \<notin> dom (map_of (ra_frames r'))" using r'(3) by (simp add: domIff)
  ultimately have "dom (map_of (ra_frames r')) = {}" by blast
  then have "ra_frames r' = []" by (simp add: dom_map_of_conv_image_fst)
  with r' that show ?thesis by blast
qed

end
