(* ===== verification/MediaClaims.thy ===== *)
theory MediaClaims
  imports MediaReassembly
begin

text \<open>The properties of the media datagram transport.\<close>

text \<open>The datagram header round-trips.  A buffer parses to a header and payload exactly when it is
  that header, with a 16-byte session id and a fragment index below the count, written in front of
  that payload; so parsing accepts nothing that writing does not produce and loses nothing.\<close>

theorem header_round_trips:
  "parse buf = Inr (h, payload) \<longleftrightarrow> header_ok h \<and> buf = write_to h [] @ payload"
  using parse_write_to parse_Inr by blast

text \<open>The pieces of a frame fit and are all there.  Splitting a frame makes at least one datagram,
  each at most the 26-byte header and the payload limit long (a limit of 0 counts as 1), each
  parses from_frag to this track, session and frame with its own index and the common count, and the
  payloads in index order are the frame.\<close>

theorem fragments_fit:
  assumes "length sid = SESSION_ID_LEN" and "div_ceil (length sealed) (max mp 1) \<le> u16_max"
  shows "\<exists>cs. fragment k sid fid sealed mp \<noteq> [] \<and> concat cs = sealed \<and>
    map parse (fragment k sid fid sealed mp) = map (\<lambda>i. Inr (header_of k sid fid i (length cs), cs ! i)) [0..<length cs] \<and>
    (\<forall>d \<in> set (fragment k sid fid sealed mp). length d \<le> 26 + max mp 1)"
proof -
  let ?cs = "pieces mp sealed"
  have n: "length ?cs \<le> u16_max" using assms(2) by (auto simp: pieces_def length_chunks u16_max_def)
  note frag = fragment_pieces [OF n, of k sid fid]
  have "length (write_to (header_of k sid fid i (length ?cs)) []) = 26" for i
    using assms(1) by (intro length_write_to) (simp add: header_of_def SESSION_ID_LEN_def)
  then have "length d \<le> 26 + max mp 1" if "d \<in> set (fragment k sid fid sealed mp)" for d
    using that piece_length [of "?cs ! i" mp sealed for i] by (auto simp: frag)
  moreover have "map parse (fragment k sid fid sealed mp) =
      map (\<lambda>i. Inr (header_of k sid fid i (length ?cs), ?cs ! i)) [0..<length ?cs]"
    using parse_fragment [OF assms(1) _ n] by (simp add: frag)
  moreover have "fragment k sid fid sealed mp \<noteq> []" using pieces_nonempty by (simp add: frag)
  ultimately show ?thesis using concat_pieces by blast
qed

theorem fragments_fit_witness:
  "\<exists>ds. ds = fragment Video (replicate 16 0) 7 [1, 2, 3] 2 \<and> ds \<noteq> [] \<and> (\<forall>d \<in> set ds. length d \<le> 26 + max 2 1)"
proof -
  have sid: "length (replicate 16 (0 :: byte)) = SESSION_ID_LEN" by (simp add: SESSION_ID_LEN_def)
  have "length [1 :: byte, 2, 3] = 3" and "max 2 1 = (2 :: nat)" and "(3 :: nat) div 2 = 1" by simp_all
  then have small: "div_ceil (length [1 :: byte, 2, 3]) (max 2 1) \<le> u16_max"
    by (simp only: div_ceil_def u16_max_def) simp
  from fragments_fit [OF sid small, of Video 7] show ?thesis by blast
qed

text \<open>Reassembly undoes the split.  Whatever other frames are in progress, feeding the datagrams of
  a frame in any order and with any repetitions yields nothing until the last missing one arrives,
  and then exactly the original frame; the frame is then no longer in progress.\<close>

theorem fragments_reassemble:
  assumes "length sid = SESSION_ID_LEN" and "div_ceil (length sealed) (max mp 1) \<le> u16_max"
    and "ra_wf r" and "map_of (ra_frames r) fid = None"
    and "set (ds @ [d]) = set (fragment k sid fid sealed mp)" and "d \<notin> set ds"
  shows "\<exists>r' r''. feed ds r = Some ([], r') \<and> feed (ds @ [d]) r = Some ([sealed], r'') \<and> ra_wf r'' \<and>
    map_of (ra_frames r'') fid = None"
  by (rule split_reassembles [OF assms])

definition sample_frags :: "bytes list" where
  "sample_frags = fragment Video (replicate 16 0) 7 [1, 2, 3] 2"

theorem fragments_reassemble_witness:
  "\<exists>r. feed [sample_frags ! 1, sample_frags ! 1, sample_frags ! 0] (with_capacity 1) = Some ([[1, 2, 3]], r)"
proof -
  have sid: "length (replicate 16 (0 :: byte)) = SESSION_ID_LEN" by (simp add: SESSION_ID_LEN_def)
  have "length [1 :: byte, 2, 3] = 3" and "max 2 1 = (2 :: nat)" and "(3 :: nat) div 2 = 1" by simp_all
  then have small: "div_ceil (length [1 :: byte, 2, 3]) (max 2 1) \<le> u16_max"
    by (simp only: div_ceil_def u16_max_def) simp
  have cs: "pieces 2 [1 :: byte, 2, 3] = [[1, 2], [3]]" by (simp add: pieces_def chunks_step)
  define a b where "a = write_to (header_of Video (replicate 16 0) 7 0 (Suc (Suc 0))) [] @ [1, 2]"
    and "b = write_to (header_of Video (replicate 16 0) 7 (Suc 0) (Suc (Suc 0))) [] @ [3]"
  have ab: "sample_frags = [a, b]"
    unfolding sample_frags_def a_def b_def using fragment_pieces [of 2 "[1, 2, 3]" Video "replicate 16 0" 7]
    by (simp add: cs u16_max_def upt_rec)
  have "length a = 28" "length b = 27" by (simp_all add: a_def b_def length_write_to header_of_def)
  then have differ: "a \<noteq> b" by auto
  have free: "map_of (ra_frames (with_capacity 1)) 7 = None" by (simp add: with_capacity_def)
  have all: "set ([b, b] @ [a]) = set (fragment Video (replicate 16 0) 7 [1, 2, 3] 2)"
    unfolding sample_frags_def [symmetric] ab by auto
  have "a \<notin> set [b, b]" using differ by simp
  from fragments_reassemble [OF sid small with_capacity_wf free all this] show ?thesis by (auto simp: ab)
qed

text \<open>Hostile datagrams cannot crash the reassembler or fill its memory.  Feeding any sequence of
  byte strings to a new reassembler never panics, and afterwards at most its capacity (at least
  one) of frames are in progress.\<close>

theorem hostile_input_is_bounded:
  "\<exists>outs r. feed ds (with_capacity n) = Some (outs, r) \<and> in_progress_len r \<le> max n 1"
proof -
  obtain outs r where r: "feed ds (with_capacity n) = Some (outs, r)" "ra_wf r" "ra_max_frames r = ra_max_frames (with_capacity n)"
    using feed_wf [OF with_capacity_wf] by blast
  then show ?thesis by (auto simp: in_progress_len_def with_capacity_def ra_wf_def)
qed

end
