(* ===== verification/JitterBuffer.thy ===== *)
theory JitterBuffer
  imports FarderPrelude
begin

text \<open>
  The per-peer jitter buffer of the client's voice receiver,
  \<open>client/src-tauri/src/voice/jitter.rs\<close>: a ring of three slots keyed by the frame sequence
  number, and the window it stands for.

  The sequence number is a \<open>u64\<close>, kept as a 64-bit word with its saturating addition; \<open>usize\<close> is
  64 bits wide, so the offsets are the naturals of the word differences.  The slot array is a list
  of length three (an invariant), and the loops that move slots with \<open>take()\<close> are folds over their
  index ranges, in the order the code runs them.
\<close>

section \<open>The buffer\<close>

definition JITTER_DEPTH :: nat where "JITTER_DEPTH = 3"

record jitter_buffer =
  jb_slots :: "bytes option list"
  jb_head_seq :: "64 word"
  jb_initialized :: bool
  jb_popped :: bool

definition new_jitter :: jitter_buffer where
  "new_jitter = \<lparr>jb_slots = [None, None, None], jb_head_seq = 0, jb_initialized = False, jb_popped = False\<rparr>"

text \<open>\<open>slots[dst] = slots[src].take()\<close> and \<open>slots[i] = None\<close>.\<close>

definition take_into :: "nat \<Rightarrow> nat \<Rightarrow> bytes option list \<Rightarrow> bytes option list" where
  "take_into dst src slots = (slots[src := None])[dst := slots ! src]"

definition clear_slots :: "nat list \<Rightarrow> bytes option list \<Rightarrow> bytes option list" where
  "clear_slots js slots = fold (\<lambda>i s. s[i := None]) js slots"

text \<open>\<open>saturating_add\<close> on a \<open>u64\<close>.\<close>

definition u64_max :: nat where "u64_max = 18446744073709551615"

definition saturating_add :: "64 word \<Rightarrow> nat \<Rightarrow> 64 word" where
  "saturating_add a n = word_of_nat (min (unat a + n) u64_max)"

definition advance_head :: "nat \<Rightarrow> jitter_buffer \<Rightarrow> jitter_buffer" where
  "advance_head n b =
     b\<lparr>jb_slots :=
         (if JITTER_DEPTH \<le> n then [None, None, None]
          else clear_slots [JITTER_DEPTH - n..<JITTER_DEPTH]
                 (fold (\<lambda>i. take_into i (i + n)) [0..<JITTER_DEPTH - n] (jb_slots b))),
       jb_head_seq := saturating_add (jb_head_seq b) n\<rparr>"

text \<open>The window slides backward before the first pop.\<close>

definition slide_back_slots :: "nat \<Rightarrow> bytes option list \<Rightarrow> bytes option list" where
  "slide_back_slots n slots =
     clear_slots [0..<n] (fold (\<lambda>i. take_into i (i - n)) (rev [n..<JITTER_DEPTH]) slots)"

definition place :: "64 word \<Rightarrow> bytes \<Rightarrow> jitter_buffer \<Rightarrow> bool \<times> jitter_buffer" where
  "place seq packet b =
     (if seq < jb_head_seq b then (False, b)
      else (let offset = unat (seq - jb_head_seq b)
            in if offset < JITTER_DEPTH
               then (if jb_slots b ! offset \<noteq> None then (False, b)
                     else (True, b\<lparr>jb_slots := (jb_slots b)[offset := Some packet]\<rparr>))
               else (let b' = advance_head (offset - JITTER_DEPTH + 1) b
                     in (True, b'\<lparr>jb_slots := (jb_slots b')[JITTER_DEPTH - 1 := Some packet]\<rparr>))))"

definition insert_packet :: "64 word \<Rightarrow> bytes \<Rightarrow> jitter_buffer \<Rightarrow> bool \<times> jitter_buffer" where
  "insert_packet seq packet b0 =
     (let b = (if jb_initialized b0 then b0 else b0\<lparr>jb_head_seq := seq, jb_initialized := True\<rparr>)
      in if \<not> jb_popped b \<and> seq < jb_head_seq b
         then (let slide_back = unat (jb_head_seq b - seq)
               in if slide_back < JITTER_DEPTH
                  then place seq packet
                         (b\<lparr>jb_slots := slide_back_slots slide_back (jb_slots b), jb_head_seq := seq\<rparr>)
                  else (False, b))
         else place seq packet b)"

definition pop :: "jitter_buffer \<Rightarrow> bytes option \<times> jitter_buffer" where
  "pop b =
     (if \<not> jb_initialized b then (None, b)
      else (let b' = b\<lparr>jb_popped := True\<rparr>
            in (jb_slots b' ! 0, advance_head 1 (b'\<lparr>jb_slots := (jb_slots b')[0 := None]\<rparr>))))"

section \<open>The window it stands for\<close>

text \<open>
  The specification: a set of packets by sequence number inside a window of three, which starts
  where the first packet says, may move back until the playout starts, and moves forward by one
  with each pop or as far as a packet from the future needs.
\<close>

record window =
  w_started :: bool
  w_playing :: bool
  w_head :: nat
  w_packets :: "nat \<rightharpoonup> bytes"

definition window_at :: "nat \<Rightarrow> (nat \<rightharpoonup> bytes) \<Rightarrow> (nat \<rightharpoonup> bytes)" where
  "window_at h m = (\<lambda>q. if h \<le> q \<and> q < h + 3 then m q else None)"

definition spec_insert :: "nat \<Rightarrow> bytes \<Rightarrow> window \<Rightarrow> bool \<times> window" where
  "spec_insert q p w =
     (let head = (if \<not> w_started w then q
                  else if q < w_head w then (if w_playing w \<or> q + 3 \<le> w_head w then w_head w else q)
                  else if q < w_head w + 3 then w_head w else q - 2);
          fresh = (head \<le> q \<and> w_packets w q = None)
      in (fresh, w\<lparr>w_started := True, w_head := head,
                   w_packets := (if fresh then (window_at head (w_packets w))(q \<mapsto> p) else w_packets w)\<rparr>))"

definition spec_pop :: "window \<Rightarrow> bytes option \<times> window" where
  "spec_pop w =
     (if w_started w
      then (w_packets w (w_head w),
            w\<lparr>w_playing := True, w_head := min (w_head w + 1) u64_max, w_packets := (w_packets w)(w_head w := None)\<rparr>)
      else (None, w))"

definition window_of :: "jitter_buffer \<Rightarrow> window" where
  "window_of b =
     \<lparr>w_started = jb_initialized b, w_playing = jb_popped b, w_head = unat (jb_head_seq b),
      w_packets = (\<lambda>q. if unat (jb_head_seq b) \<le> q \<and> q < unat (jb_head_seq b) + 3
                       then jb_slots b ! (q - unat (jb_head_seq b)) else None)\<rparr>"

text \<open>Three slots, none of them beyond the last sequence number, and all empty before the start.\<close>

definition jitter_wf :: "jitter_buffer \<Rightarrow> bool" where
  "jitter_wf b \<longleftrightarrow> length (jb_slots b) = 3 \<and>
     (\<forall>i < 3. jb_slots b ! i \<noteq> None \<longrightarrow> unat (jb_head_seq b) + i \<le> u64_max) \<and>
     (\<not> jb_initialized b \<longrightarrow> jb_slots b = [None, None, None] \<and> \<not> jb_popped b)"

section \<open>The slot loops\<close>

lemma three_slots: "length xs = 3 \<Longrightarrow> \<exists>a b c. xs = [a, b, c]"
  by (auto simp: length_Suc_conv numeral_3_eq_3)

lemma advance_slots:
  assumes "length (jb_slots b) = 3"
  shows "jb_slots (advance_head n b) = drop n (jb_slots b) @ replicate (min n 3) None"
proof -
  from three_slots [OF assms] obtain x y z where s: "jb_slots b = [x, y, z]" by blast
  consider "n = 0" | "n = 1" | "n = 2" | "3 \<le> n" by linarith
  then show ?thesis
    by cases (simp_all add: s advance_head_def JITTER_DEPTH_def clear_slots_def take_into_def upt_rec
        numeral_2_eq_2 numeral_3_eq_3)
qed

lemma slide_slots:
  assumes "length xs = 3" and "0 < n" "n < 3"
  shows "slide_back_slots n xs = replicate n None @ take (3 - n) xs"
proof -
  from three_slots [OF assms(1)] obtain x y z where s: "xs = [x, y, z]" by blast
  from assms(2,3) consider "n = 1" | "n = 2" by linarith
  then show ?thesis
    by cases (simp_all add: s slide_back_slots_def JITTER_DEPTH_def clear_slots_def take_into_def upt_rec
        numeral_2_eq_2 numeral_3_eq_3)
qed

section \<open>Refinement\<close>

lemma window_of_sel [simp]: "w_started (window_of b) = jb_initialized b" "w_playing (window_of b) = jb_popped b"
    "w_head (window_of b) = unat (jb_head_seq b)"
  by (simp_all add: window_of_def)

lemma packets_at:
  assumes "jb_slots b = [x, y, z]" and "unat (jb_head_seq b) = h"
  shows "w_packets (window_of b) = (\<lambda>q. if q = h then x else if q = h + 1 then y else if q = h + 2 then z else None)"
proof
  fix q
  have "q - h = 0 \<or> q - h = 1 \<or> q - h = 2" if "h \<le> q" "q < h + 3" using that by linarith
  with assms show "w_packets (window_of b) q = (if q = h then x else if q = h + 1 then y else if q = h + 2 then z else None)"
    by (auto simp: window_of_def numeral_2_eq_2)
qed

lemma jitter_wf_slots:
  assumes "jitter_wf b"
  obtains x y z where "jb_slots b = [x, y, z]" and "y = None \<or> unat (jb_head_seq b) + 1 \<le> u64_max"
    and "z = None \<or> unat (jb_head_seq b) + 2 \<le> u64_max"
    and "\<not> jb_initialized b \<Longrightarrow> x = None \<and> y = None \<and> z = None \<and> \<not> jb_popped b"
proof -
  from assms have "length (jb_slots b) = 3" by (simp add: jitter_wf_def)
  from three_slots [OF this] obtain x y z where s: "jb_slots b = [x, y, z]" by blast
  have "jb_slots b ! i \<noteq> None \<Longrightarrow> unat (jb_head_seq b) + i \<le> u64_max" if "i < 3" for i
    using assms that unfolding jitter_wf_def by blast
  from this [of 1] this [of 2] show ?thesis
    using assms by (intro that [OF s]) (auto simp: s jitter_wf_def)
qed

lemma unat_le_max: "unat (a :: 64 word) \<le> u64_max"
  using unsigned_less [of a, where 'a = nat] by (simp add: u64_max_def)

lemma jitter_wf_iff:
  assumes "jb_slots b = [x, y, z]"
  shows "jitter_wf b \<longleftrightarrow> (y \<noteq> None \<longrightarrow> unat (jb_head_seq b) + 1 \<le> u64_max) \<and> (z \<noteq> None \<longrightarrow> unat (jb_head_seq b) + 2 \<le> u64_max) \<and>
    (\<not> jb_initialized b \<longrightarrow> x = None \<and> y = None \<and> z = None \<and> \<not> jb_popped b)"
proof -
  have "(\<forall>i < 3. P i) \<longleftrightarrow> P 0 \<and> P 1 \<and> P (2 :: nat)" for P
    using less_Suc_eq by (auto simp: numeral_3_eq_3 numeral_2_eq_2)
  with unat_le_max [of "jb_head_seq b"] show ?thesis by (auto simp: jitter_wf_def assms)
qed

lemma unat_saturating_add: "unat (saturating_add a n) = min (unat a + n) u64_max"
  by (simp add: saturating_add_def unat_of_nat u64_max_def)

lemma new_jitter_wf: "jitter_wf new_jitter"
  using jitter_wf_iff [of new_jitter None None None] by (simp add: new_jitter_def)

lemma pop_refines:
  assumes wf: "jitter_wf b"
  shows "spec_pop (window_of b) = (fst (pop b), window_of (snd (pop b)))" and "jitter_wf (snd (pop b))"
proof -
  from jitter_wf_slots [OF wf] obtain x y z where s: "jb_slots b = [x, y, z]"
    and y: "y = None \<or> unat (jb_head_seq b) + 1 \<le> u64_max"
    and z: "z = None \<or> unat (jb_head_seq b) + 2 \<le> u64_max" by metis
  let ?b' = "advance_head 1 (b\<lparr>jb_popped := True, jb_slots := [None, y, z]\<rparr>)"
  have s': "jb_slots ?b' = [y, z, None]"
    using advance_slots [of "b\<lparr>jb_popped := True, jb_slots := [None, y, z]\<rparr>" 1] by simp
  have h': "unat (jb_head_seq ?b') = min (unat (jb_head_seq b) + 1) u64_max"
    by (simp add: advance_head_def unat_saturating_add)
  have rest: "jb_initialized ?b' = jb_initialized b" "jb_popped ?b'" by (simp_all add: advance_head_def)
  have pop: "pop b = (if jb_initialized b then (x, ?b') else (None, b))"
    by (simp add: pop_def Let_def s)
  have le: "unat (jb_head_seq b) \<le> u64_max" by (rule unat_le_max)
  have "jitter_wf ?b'" if "jb_initialized b"
    unfolding jitter_wf_iff [OF s'] h' rest using that y z by auto
  with wf show "jitter_wf (snd (pop b))" by (simp add: pop)
  have "w_packets (window_of ?b') = (w_packets (window_of b))(unat (jb_head_seq b) := None)"
    using y z le unfolding packets_at [OF s refl] packets_at [OF s' h'] by (auto simp: fun_eq_iff min_def)
  moreover have "w_packets (window_of b) (unat (jb_head_seq b)) = x"
    unfolding packets_at [OF s refl] by simp
  ultimately show "spec_pop (window_of b) = (fst (pop b), window_of (snd (pop b)))"
    by (cases "jb_initialized b") (auto simp: spec_pop_def pop h' rest simp del: One_nat_def intro!: window.equality)
qed

lemma fill_slot_window:
  assumes "length (jb_slots b) = 3" and "i < 3"
  shows "w_packets (window_of (b\<lparr>jb_slots := (jb_slots b)[i := Some p]\<rparr>)) = (w_packets (window_of b))(unat (jb_head_seq b) + i \<mapsto> p)"
  using assms by (auto simp: window_of_def fun_eq_iff nth_list_update)

lemma fill_slot_wf:
  assumes "jitter_wf b" and "jb_initialized b" and "i < 3" and "unat (jb_head_seq b) + i \<le> u64_max"
  shows "jitter_wf (b\<lparr>jb_slots := (jb_slots b)[i := Some p]\<rparr>)"
  using assms by (auto simp: jitter_wf_def nth_list_update)

lemma nth_advance:
  assumes "length (jb_slots b) = 3" and "j < 3"
  shows "jb_slots (advance_head n b) ! j = (if n + j < 3 then jb_slots b ! (n + j) else None)"
  using assms by (auto simp: advance_slots nth_append min_def)

lemma advance_window:
  assumes "length (jb_slots b) = 3" and "unat (jb_head_seq b) + n \<le> u64_max"
  shows "window_of (advance_head n b) =
    (window_of b)\<lparr>w_head := unat (jb_head_seq b) + n, w_packets := window_at (unat (jb_head_seq b) + n) (w_packets (window_of b))\<rparr>"
proof -
  have h: "unat (jb_head_seq (advance_head n b)) = unat (jb_head_seq b) + n"
    using assms(2) by (simp add: advance_head_def unat_saturating_add)
  have "w_packets (window_of (advance_head n b)) = window_at (unat (jb_head_seq b) + n) (w_packets (window_of b))"
  proof
    fix q
    show "w_packets (window_of (advance_head n b)) q = window_at (unat (jb_head_seq b) + n) (w_packets (window_of b)) q"
      using nth_advance [OF assms(1), of "q - (unat (jb_head_seq b) + n)" n] by (auto simp: window_of_def window_at_def h)
  qed
  then show ?thesis by (simp add: window_of_def h) (simp add: advance_head_def)
qed

lemma advance_wf:
  assumes "jitter_wf b" and "jb_initialized b" and "unat (jb_head_seq b) + n \<le> u64_max"
  shows "jitter_wf (advance_head n b)"
proof -
  have len: "length (jb_slots b) = 3" using assms(1) by (simp add: jitter_wf_def)
  then have "length (jb_slots (advance_head n b)) = 3" by (auto simp: advance_slots)
  moreover have "unat (jb_head_seq (advance_head n b)) = unat (jb_head_seq b) + n" "jb_initialized (advance_head n b)"
    using assms(2,3) by (simp_all add: advance_head_def unat_saturating_add)
  ultimately show ?thesis using assms(1) by (auto simp: jitter_wf_def nth_advance [OF len] add.assoc)
qed

lemma window_at_self: "window_at (unat (jb_head_seq b)) (w_packets (window_of b)) = w_packets (window_of b)"
  by (auto simp: window_at_def window_of_def)

lemma place_refines:
  assumes wf: "jitter_wf b" and started: "jb_initialized b" and stale: "seq < jb_head_seq b \<longrightarrow> jb_popped b \<or> unat seq + 3 \<le> unat (jb_head_seq b)"
  shows "spec_insert (unat seq) packet (window_of b) = (fst (place seq packet b), window_of (snd (place seq packet b)))"
    and "jitter_wf (snd (place seq packet b))"
proof -
  from jitter_wf_slots [OF wf] obtain x y z where s: "jb_slots b = [x, y, z]"
    and y: "y = None \<or> unat (jb_head_seq b) + 1 \<le> u64_max"
    and z: "z = None \<or> unat (jb_head_seq b) + 2 \<le> u64_max" by metis
  let ?h = "unat (jb_head_seq b)" and ?q = "unat seq"
  have lt: "seq < jb_head_seq b \<longleftrightarrow> ?q < ?h" by (simp add: word_less_nat_alt)
  have off: "unat (seq - jb_head_seq b) = ?q - ?h" if "\<not> ?q < ?h"
    using that by (intro unat_sub) (simp add: word_le_nat_alt)
  have goal: "spec_insert ?q packet (window_of b) = (ok, window_of c) \<and> jitter_wf c" if "place seq packet b = (ok, c)" for ok c
  proof -
    consider "?q < ?h" | i where "?q = ?h + i" "i < 3" "jb_slots b ! i \<noteq> None"
      | i where "?q = ?h + i" "i < 3" "jb_slots b ! i = None" | "?h + 3 \<le> ?q"
      by (metis add.commute le_add_diff_inverse2 nat_add_left_cancel_less not_less)
    then show ?thesis
    proof cases
      case 1
      with that lt stale have "ok = False" "c = b" and "jb_popped b \<or> ?q + 3 \<le> ?h" by (auto simp: place_def)
      with wf started 1 show ?thesis by (auto simp: spec_insert_def window_of_def Let_def)
    next
      case 2
      with that lt off s have "ok = False" "c = b" by (auto simp: place_def JITTER_DEPTH_def)
      with wf started 2 show ?thesis by (auto simp: spec_insert_def window_of_def Let_def)
    next
      case 3
      then have ok: "ok = True" and c: "c = b\<lparr>jb_slots := (jb_slots b)[i := Some packet]\<rparr>"
        using that lt off s by (auto simp: place_def JITTER_DEPTH_def)
      have len: "length (jb_slots b) = 3" by (simp add: s)
      have "w_packets (window_of b) ?q = None" using 3 by (simp add: window_of_def)
      then have "spec_insert ?q packet (window_of b) = (True, (window_of b)\<lparr>w_packets := (w_packets (window_of b))(?q \<mapsto> packet)\<rparr>)"
        using 3(1,2) started by (auto simp: spec_insert_def Let_def window_at_self intro!: window.equality)
      moreover have "window_of c = (window_of b)\<lparr>w_packets := (w_packets (window_of b))(?q \<mapsto> packet)\<rparr>"
        using fill_slot_window [OF len 3(2), of packet] unfolding c 3(1) by (simp add: window_of_def)
      moreover have "jitter_wf c"
        unfolding c using 3(1,2) unat_le_max [of seq] by (intro fill_slot_wf [OF wf started]) simp_all
      ultimately show ?thesis using ok by simp
    next
      case 4
      define m where "m = ?q - ?h - 3 + 1"
      let ?a = "advance_head m b"
      from 4 have far: "\<not> ?q < ?h" "\<not> ?q - ?h < 3" by linarith+
      have ok: "ok = True" and c: "c = ?a\<lparr>jb_slots := (jb_slots ?a)[2 := Some packet]\<rparr>"
        using that lt off [OF far(1)] far unfolding place_def JITTER_DEPTH_def Let_def m_def by simp_all
      have len: "length (jb_slots b) = 3" by (simp add: s)
      have n: "?h + m = ?q - 2" and max: "?h + m \<le> u64_max" using 4 unat_le_max [of seq] by (auto simp: m_def)
      have wfa: "jitter_wf ?a" by (rule advance_wf [OF wf started max])
      have h: "unat (jb_head_seq ?a) = ?q - 2" and st: "jb_initialized ?a"
        using max n started by (simp_all add: advance_head_def unat_saturating_add)
      have "jitter_wf c"
        unfolding c using 4 unat_le_max [of seq] by (intro fill_slot_wf [OF wfa st]) (simp_all add: h)
      moreover have "window_of c = (window_of ?a)\<lparr>w_packets := (w_packets (window_of ?a))(?q \<mapsto> packet)\<rparr>"
      proof -
        have "length (jb_slots ?a) = 3" using wfa by (simp add: jitter_wf_def)
        note fill = fill_slot_window [OF this, of 2 packet]
        have "unat (jb_head_seq ?a) + 2 = ?q" using h 4 by simp
        with fill show ?thesis unfolding c by (auto intro!: window.equality)
      qed
      moreover have "w_packets (window_of b) ?q = None" using 4 by (simp add: window_of_def)
      ultimately show ?thesis
        using ok 4 started advance_window [OF len max] unfolding n
        by (auto simp: spec_insert_def Let_def intro!: window.equality)
    qed
  qed
  then show "spec_insert ?q packet (window_of b) = (fst (place seq packet b), window_of (snd (place seq packet b)))"
    and "jitter_wf (snd (place seq packet b))"
    by (metis prod.collapse)+
qed

lemma window_at_window_at [simp]: "window_at h (window_at h m) = window_at h m"
  by (auto simp: window_at_def)

lemma slide_wf_window:
  assumes "jitter_wf b" and "jb_initialized b" and "unat seq < unat (jb_head_seq b)" "unat (jb_head_seq b) - unat seq < 3"
  defines "b' \<equiv> b\<lparr>jb_slots := slide_back_slots (unat (jb_head_seq b) - unat seq) (jb_slots b), jb_head_seq := seq\<rparr>"
  shows "jitter_wf b'" "window_of b' = (window_of b)\<lparr>w_head := unat seq, w_packets := window_at (unat seq) (w_packets (window_of b))\<rparr>"
proof -
  let ?n = "unat (jb_head_seq b) - unat seq"
  have len: "length (jb_slots b) = 3" using assms(1) by (simp add: jitter_wf_def)
  have slots: "jb_slots b' = replicate ?n None @ take (3 - ?n) (jb_slots b)"
    using slide_slots [OF len, of ?n] assms(3,4) by (simp add: b'_def)
  have nth: "jb_slots b' ! i = (if i < ?n then None else jb_slots b ! (i - ?n))" if "i < 3" for i
    using that assms(4) len by (simp add: slots nth_append)
  have "unat seq + i \<le> u64_max" if "i < 3" "jb_slots b' ! i \<noteq> None" for i
  proof -
    from that nth have ge: "?n \<le> i" and some: "jb_slots b ! (i - ?n) \<noteq> None" by (auto split: if_splits)
    have "i - ?n < 3" using that(1) by linarith
    with assms(1) some have "unat (jb_head_seq b) + (i - ?n) \<le> u64_max" unfolding jitter_wf_def by blast
    with ge assms(3) show ?thesis by linarith
  qed
  moreover have "length (jb_slots b') = 3" using assms(4) len by (simp add: slots)
  ultimately show "jitter_wf b'" using assms(2) by (simp add: jitter_wf_def b'_def)
  have "w_packets (window_of b') = window_at (unat seq) (w_packets (window_of b))"
    using assms(3) nth by (auto simp: window_of_def window_at_def b'_def fun_eq_iff)
  then show "window_of b' = (window_of b)\<lparr>w_head := unat seq, w_packets := window_at (unat seq) (w_packets (window_of b))\<rparr>"
    by (auto simp: b'_def intro!: window.equality)
qed

lemma insert_refines:
  assumes wf: "jitter_wf b"
  shows "spec_insert (unat seq) packet (window_of b) = (fst (insert_packet seq packet b), window_of (snd (insert_packet seq packet b))) \<and>
    jitter_wf (snd (insert_packet seq packet b))"
proof (cases "jb_initialized b")
  case False
  let ?b = "b\<lparr>jb_head_seq := seq, jb_initialized := True\<rparr>"
  from wf False have empty: "jb_slots b = [None, None, None]" and "\<not> jb_popped b" by (simp_all add: jitter_wf_def)
  then have wf': "jitter_wf ?b" using jitter_wf_iff [of ?b None None None] by simp
  have none: "[None, None, None] ! i = None" if "i < 3" for i using that by (auto simp: less_Suc_eq numeral_3_eq_3)
  have "w_packets (window_of b) = (\<lambda>_. None)" "w_packets (window_of ?b) = (\<lambda>_. None)"
    using packets_at [OF empty refl] packets_at [of ?b None None None "unat seq"] empty by (auto simp: fun_eq_iff)
  then have "spec_insert (unat seq) packet (window_of b) = spec_insert (unat seq) packet (window_of ?b)"
    using False by (auto simp: spec_insert_def Let_def window_at_def intro!: window.equality)
  with place_refines [OF wf', of seq packet] False show ?thesis by (simp add: insert_packet_def)
next
  case True
  note lt = word_less_nat_alt [of seq "jb_head_seq b"]
  show ?thesis
  proof (cases "\<not> jb_popped b \<and> seq < jb_head_seq b")
    case slide: True
    have diff: "unat (jb_head_seq b - seq) = unat (jb_head_seq b) - unat seq"
      using slide by (intro unat_sub) (simp add: word_le_nat_alt lt)
    show ?thesis
    proof (cases "unat (jb_head_seq b) - unat seq < 3")
      case near: True
      let ?b = "b\<lparr>jb_slots := slide_back_slots (unat (jb_head_seq b) - unat seq) (jb_slots b), jb_head_seq := seq\<rparr>"
      from slide lt have "unat seq < unat (jb_head_seq b)" by simp
      note S = slide_wf_window [OF wf True this near]
      have "spec_insert (unat seq) packet (window_of b) = spec_insert (unat seq) packet (window_of ?b)"
        unfolding S(2) using slide near True lt
        by (auto simp: spec_insert_def Let_def window_at_def window_of_def intro!: window.equality)
      with place_refines [OF S(1), of seq packet] slide near True show ?thesis
        by (simp add: insert_packet_def diff JITTER_DEPTH_def)
    next
      case False
      with slide True wf lt show ?thesis
        by (auto simp: insert_packet_def spec_insert_def Let_def diff JITTER_DEPTH_def intro!: window.equality)
    qed
  next
    case False
    with place_refines [OF wf True, of seq packet] True show ?thesis by (auto simp: insert_packet_def Let_def)
  qed
qed

section \<open>Playing a stream\<close>

datatype jitter_op = Arrive "64 word" bytes | Play

text \<open>The packets that come out of a run, each with the sequence number at the head when it did.\<close>

fun jitter_run :: "jitter_op list \<Rightarrow> jitter_buffer \<Rightarrow> (nat \<times> bytes) list" where
  "jitter_run [] b = []"
| "jitter_run (Arrive seq packet # ops) b = jitter_run ops (snd (insert_packet seq packet b))"
| "jitter_run (Play # ops) b =
     (case fst (pop b) of None \<Rightarrow> [] | Some p \<Rightarrow> [(unat (jb_head_seq b), p)]) @ jitter_run ops (snd (pop b))"

fun window_run :: "jitter_op list \<Rightarrow> window \<Rightarrow> (nat \<times> bytes) list" where
  "window_run [] w = []"
| "window_run (Arrive seq packet # ops) w = window_run ops (snd (spec_insert (unat seq) packet w))"
| "window_run (Play # ops) w =
     (case fst (spec_pop w) of None \<Rightarrow> [] | Some p \<Rightarrow> [(w_head w, p)]) @ window_run ops (snd (spec_pop w))"

lemma jitter_run_window: "jitter_wf b \<Longrightarrow> jitter_run ops b = window_run ops (window_of b)"
proof (induction ops arbitrary: b)
  case (Cons op ops)
  show ?case
  proof (cases op)
    case (Arrive seq packet)
    with insert_refines [OF Cons.prems, of seq packet] show ?thesis by (simp add: Cons.IH)
  next
    case Play
    with pop_refines [OF Cons.prems] show ?thesis by (simp add: Cons.IH split: option.split)
  qed
qed simp

definition arrivals :: "jitter_op list \<Rightarrow> (nat \<times> bytes) set" where
  "arrivals ops = {(unat seq, p) | seq p. Arrive seq p \<in> set ops}"

lemma arrivals_simps [simp]: "arrivals [] = {}" "arrivals (Arrive seq p # ops) = insert (unat seq, p) (arrivals ops)"
    "arrivals (Play # ops) = arrivals ops"
  by (auto simp: arrivals_def)

definition contents :: "window \<Rightarrow> (nat \<times> bytes) set" where
  "contents w = {(q, p). w_packets w q = Some p}"

lemma insert_contents: "contents (snd (spec_insert q p w)) \<subseteq> insert (q, p) (contents w)"
  by (auto simp: contents_def spec_insert_def Let_def window_at_def split: if_splits)

lemma pop_contents: "contents (snd (spec_pop w)) \<subseteq> contents w"
  by (auto simp: contents_def spec_pop_def split: if_splits)

lemma popped_contents: "fst (spec_pop w) = Some p \<Longrightarrow> (w_head w, p) \<in> contents w"
  by (auto simp: contents_def spec_pop_def split: if_splits)

lemma window_run_sound: "set (window_run ops w) \<subseteq> contents w \<union> arrivals ops"
proof (induction ops arbitrary: w)
  case (Cons op ops)
  show ?case
  proof (cases op)
    case (Arrive seq p)
    with Cons.IH [of "snd (spec_insert (unat seq) p w)"] insert_contents [of "unat seq" p w] show ?thesis by auto
  next
    case Play
    with Cons.IH [of "snd (spec_pop w)"] pop_contents [of w] popped_contents [of w] show ?thesis
      by (auto split: option.splits)
  qed
qed simp

text \<open>Once the playout runs, the head only moves forward.\<close>

lemma insert_head: "w_started w \<Longrightarrow> w_playing w \<Longrightarrow>
    w_started (snd (spec_insert q p w)) \<and> w_playing (snd (spec_insert q p w)) \<and> w_head w \<le> w_head (snd (spec_insert q p w))"
  by (auto simp: spec_insert_def Let_def)

lemma window_run_bound: "w_started w \<Longrightarrow> w_playing w \<Longrightarrow> \<forall>x \<in> set (window_run ops w). min (w_head w) u64_max \<le> fst x"
proof (induction ops arbitrary: w)
  case (Cons op ops)
  show ?case
  proof (cases op)
    case (Arrive seq p)
    from insert_head [OF Cons.prems, of "unat seq" p] have
      "min (w_head w) u64_max \<le> min (w_head (snd (spec_insert (unat seq) p w))) u64_max"
      "w_started (snd (spec_insert (unat seq) p w))" "w_playing (snd (spec_insert (unat seq) p w))" by auto
    with Cons.IH [of "snd (spec_insert (unat seq) p w)"] show ?thesis unfolding Arrive by (auto intro: order_trans)
  next
    case Play
    let ?w = "snd (spec_pop w)"
    have "w_started ?w" "w_playing ?w" "w_head ?w = min (w_head w + 1) u64_max" using Cons.prems by (simp_all add: spec_pop_def)
    with Cons.IH [of ?w] have "\<forall>x \<in> set (window_run ops ?w). min (w_head w) u64_max \<le> fst x" by force
    with Play show ?thesis by (auto split: option.splits)
  qed
qed simp

lemma window_run_sorted:
  "sorted_wrt (\<lambda>x y. fst x < fst y \<or> fst x = u64_max) (window_run ops w)" if "w_head w \<le> u64_max"
  using that
proof (induction ops arbitrary: w)
  case (Cons op ops)
  show ?case
  proof (cases op)
    case (Arrive seq p)
    have "w_head (snd (spec_insert (unat seq) p w)) \<le> u64_max"
      using Cons.prems unat_le_max [of seq] by (auto simp: spec_insert_def Let_def)
    with Cons.IH Arrive show ?thesis by simp
  next
    case Play
    let ?w = "snd (spec_pop w)"
    have le: "w_head ?w \<le> u64_max" using Cons.prems by (auto simp: spec_pop_def)
    have "\<forall>y \<in> set (window_run ops ?w). w_head w < fst y \<or> w_head w = u64_max" if "fst (spec_pop w) = Some p" for p
    proof -
      have st: "w_started w" using that by (auto simp: spec_pop_def split: if_splits)
      with window_run_bound [of ?w ops] Cons.prems show ?thesis by (auto simp: spec_pop_def split: if_splits)
    qed
    with Cons.IH [OF le] Play show ?thesis by (auto split: option.splits)
  qed
qed simp

section \<open>The properties of the jitter buffer\<close>

text \<open>C35: The slot array implements the window.  From a well-formed buffer, an insert accepts or drops
  a packet and a pop yields one exactly as the window of three sequence numbers says (a set of
  packets by number, moved back only before the playout and forward by a pop or a packet from the
  future), and the buffer stays well formed.\<close>

theorem jitter_refines_window:
  assumes "jitter_wf b"
  shows "(case insert_packet seq packet b of (ok, b') \<Rightarrow> spec_insert (unat seq) packet (window_of b) = (ok, window_of b') \<and> jitter_wf b')
    \<and> (case pop b of (out, b') \<Rightarrow> spec_pop (window_of b) = (out, window_of b') \<and> jitter_wf b')"
  using insert_refines [OF assms, of seq packet] pop_refines [OF assms] by (auto split: prod.split)

theorem jitter_refines_window_witness:
  "case insert_packet 12 [3] new_jitter of (ok, b') \<Rightarrow> ok \<and> jitter_wf b' \<and> w_packets (window_of b') 12 = Some [3]"
proof -
  have "w_packets (window_of new_jitter) = (\<lambda>_. None)"
    using packets_at [of new_jitter None None None 0] by (simp add: new_jitter_def fun_eq_iff)
  then have "spec_insert (unat (12 :: 64 word)) [3] (window_of new_jitter) = (True, snd (spec_insert 12 [3] (window_of new_jitter)))"
    "w_packets (snd (spec_insert 12 [3] (window_of new_jitter))) 12 = Some [3]"
    by (simp_all add: spec_insert_def Let_def new_jitter_def)
  with jitter_refines_window [OF new_jitter_wf, of 12 "[3]"] show ?thesis by auto
qed

text \<open>The playout is in order, without repetition and without invention.  Whatever packets arrive
  and whenever the player pops, a packet that comes out is one that arrived under the sequence
  number played, and the numbers played strictly increase (only the last number of the 64-bit range,
  where the head saturates, could come twice).\<close>

theorem played_in_order:
  "set (jitter_run ops new_jitter) \<subseteq> arrivals ops \<and>
   sorted_wrt (\<lambda>x y. fst x < fst y \<or> fst x = u64_max) (jitter_run ops new_jitter)"
proof -
  note run = jitter_run_window [OF new_jitter_wf, of ops]
  have "contents (window_of new_jitter) = {}"
    using packets_at [of new_jitter None None None 0] by (auto simp: contents_def new_jitter_def)
  with window_run_sound [of ops "window_of new_jitter"] have "set (jitter_run ops new_jitter) \<subseteq> arrivals ops" by (simp add: run)
  moreover have "sorted_wrt (\<lambda>x y. fst x < fst y \<or> fst x = u64_max) (jitter_run ops new_jitter)"
    unfolding run by (rule window_run_sorted) (simp add: unat_le_max)
  ultimately show ?thesis ..
qed

end
