(* ===== verification/RelayRouter.thy ===== *)
theory RelayRouter
  imports FarderPrelude
begin

text \<open>
  The relay's routing state, \<open>crates/farder-relay/src/router.rs\<close> and \<open>datagram.rs\<close>: servers
  registered by id, relayed clients by a 32-bit handle, and the tag a datagram carries between them.

  A QUIC connection is its stable id, a natural.  \<open>handle_register\<close> and \<open>handle_connect\<close> are split
  where they wait: each piece between two awaits is one definition, and \<open>relay_step\<close> interleaves
  the pieces of all connections.  The handle allocator is a 32-bit word, so it wraps.
\<close>

section \<open>The routing state\<close>

type_synonym conn_id = nat

record relay_state =
  rs_servers :: "bytes \<rightharpoonup> conn_id"
  rs_clients :: "32 word \<rightharpoonup> conn_id"
  rs_next_handle :: "32 word"

definition new_state :: relay_state where
  "new_state = \<lparr>rs_servers = Map.empty, rs_clients = Map.empty, rs_next_handle = 1\<rparr>"

text \<open>\<open>handle_register\<close>: the registration, and the clean-up when the connection closes.\<close>

definition register :: "bytes \<Rightarrow> conn_id \<Rightarrow> relay_state \<Rightarrow> relay_state" where
  "register server_id c st = st\<lparr>rs_servers := (rs_servers st)(server_id \<mapsto> c)\<rparr>"

definition unregister :: "bytes \<Rightarrow> conn_id \<Rightarrow> relay_state \<Rightarrow> relay_state" where
  "unregister server_id c st =
     (case rs_servers st server_id of
        Some existing \<Rightarrow>
          if existing = c then st\<lparr>rs_servers := (rs_servers st)(server_id := None)\<rparr> else st
      | None \<Rightarrow> st)"

text \<open>\<open>handle_connect\<close>: the look-up of the destination, the handle, the end of the session.\<close>

definition lookup_dest :: "bytes \<Rightarrow> relay_state \<Rightarrow> conn_id option" where
  "lookup_dest destination_id st = rs_servers st destination_id"

definition assign_handle :: "conn_id \<Rightarrow> relay_state \<Rightarrow> 32 word \<times> relay_state" where
  "assign_handle client st =
     (let h = rs_next_handle st
      in (h, st\<lparr>rs_next_handle := h + 1, rs_clients := (rs_clients st)(h \<mapsto> client)\<rparr>))"

definition end_session :: "32 word \<Rightarrow> relay_state \<Rightarrow> relay_state" where
  "end_session h st = st\<lparr>rs_clients := (rs_clients st)(h := None)\<rparr>"

text \<open>A client's datagram on its way to the server, and a server's datagram on its way to a client.\<close>

definition forward_client_datagram :: "32 word \<Rightarrow> bytes \<Rightarrow> bytes" where
  "forward_client_datagram h dg = be_bytes 4 (unat h) @ dg"

definition route_server_datagram :: "relay_state \<Rightarrow> bytes \<Rightarrow> (conn_id \<times> bytes) option" where
  "route_server_datagram st dg =
     (if length dg < 4 then None
      else (let h = word_of_nat (from_be (take 4 dg)); payload = drop 4 dg
            in map_option (\<lambda>c. (c, payload)) (rs_clients st h)))"

section \<open>All connections together\<close>

datatype relay_task =
    Serving bytes conn_id
  | Found conn_id conn_id
  | Session "32 word" conn_id conn_id

text \<open>
  The state, the tasks, and how many handles were given out.  A \<open>Serving\<close> task is past its
  registration: it writes the acknowledgement, and returns at once when that fails, or holds the
  server's control connection until it closes.  A \<open>Found\<close> task has its destination and writes the
  reply (which can fail), a \<open>Session\<close> bridges a client to a server under a handle.
\<close>

inductive relay_step :: "relay_state \<times> relay_task multiset \<times> nat \<Rightarrow> relay_state \<times> relay_task multiset \<times> nat \<Rightarrow> bool" where
  registers: "relay_step (st, T, n) (register server_id c st, add_mset (Serving server_id c) T, n)"
| ack_fails: "relay_step (st, add_mset (Serving server_id c) T, n) (st, T, n)"
| server_closes: "relay_step (st, add_mset (Serving server_id c) T, n) (unregister server_id c st, T, n)"
| finds: "lookup_dest destination_id st = Some server \<Longrightarrow> relay_step (st, T, n) (st, add_mset (Found client server) T, n)"
| reply_fails: "relay_step (st, add_mset (Found client server) T, n) (st, T, n)"
| gets_handle: "assign_handle client st = (h, st') \<Longrightarrow>
    relay_step (st, add_mset (Found client server) T, n) (st', add_mset (Session h client server) T, n + 1)"
| session_ends: "relay_step (st, add_mset (Session h client server) T, n) (end_session h st, T, n)"

text \<open>
  As long as the handles have not wrapped, the handles of the sessions are distinct, not zero, below
  the next one, and lead to their clients.
\<close>

definition uses_handle :: "32 word \<Rightarrow> relay_task \<Rightarrow> bool" where
  "uses_handle h t \<longleftrightarrow> (\<exists>c sc. t = Session h c sc)"

definition handles_ok :: "relay_state \<times> relay_task multiset \<times> nat \<Rightarrow> bool" where
  "handles_ok s \<longleftrightarrow> (case s of (st, T, n) \<Rightarrow>
     unat (rs_next_handle st) = n + 1 \<and>
     (\<forall>h. size (filter_mset (uses_handle h) T) \<le> 1) \<and>
     (\<forall>h c sc. Session h c sc \<in># T \<longrightarrow> 0 < unat h \<and> unat h \<le> n \<and> rs_clients st h = Some c))"

lemma uses_handle_simps [simp]: "uses_handle h (Session h' c sc) \<longleftrightarrow> h' = h"
    "\<not> uses_handle h (Serving sid c)" "\<not> uses_handle h (Found c sc)"
  by (auto simp: uses_handle_def)

lemma no_other_use:
  assumes "size (filter_mset (uses_handle h) T) = 0" shows "Session h c sc \<notin># T"
proof
  assume "Session h c sc \<in># T"
  then have "Session h c sc \<in># filter_mset (uses_handle h) T" by simp
  with assms have "Session h c sc \<in># {#}" by (simp only: size_eq_0_iff_empty)
  then show False by simp
qed

lemma unat_Suc_32: "unat h + 1 < 2 ^ 32 \<Longrightarrow> unat (h + 1 :: 32 word) = unat h + 1"
  by (simp add: unat_word_ariths)

lemma handles_ok_step: "relay_step s s' \<Longrightarrow> handles_ok s \<Longrightarrow> snd (snd s') < 2 ^ 32 - 1 \<Longrightarrow> handles_ok s'"
proof (induction rule: relay_step.induct)
  case (gets_handle client st h st' server T n)
  then have h: "h = rs_next_handle st" and st': "st' = st\<lparr>rs_next_handle := h + 1, rs_clients := (rs_clients st)(h \<mapsto> client)\<rparr>"
    by (auto simp: assign_handle_def Let_def)
  from gets_handle.prems(1) have "handles_ok (st, T, n)" by (auto simp: handles_ok_def)
  then have n: "unat h = n + 1" and one: "\<And>h. size (filter_mset (uses_handle h) T) \<le> 1"
    and old: "\<And>h c sc. Session h c sc \<in># T \<Longrightarrow> 0 < unat h \<and> unat h \<le> n \<and> rs_clients st h = Some c"
    unfolding handles_ok_def prod.case h by blast+
  have new: "Session h c sc \<notin># T" for c sc using old [of h c sc] n by auto
  then have "filter_mset (uses_handle h) T = {#}" by (auto simp: filter_mset_eq_conv uses_handle_def)
  moreover have "unat (h + 1) = n + 2" using n gets_handle.prems(2) by (subst unat_Suc_32) simp_all
  moreover have "unat h' \<le> n + 1 \<and> h' \<noteq> h" if "Session h' c sc \<in># T" for h' c sc using old [OF that] n by auto
  ultimately show ?case using one old n by (auto simp: handles_ok_def st')
next
  case (session_ends st h client server T n)
  then have "size (filter_mset (uses_handle h) T) = 0" by (auto simp: handles_ok_def dest!: spec [of _ h])
  from no_other_use [OF this] have "Session h c sc \<notin># T" for c sc .
  moreover have "size (filter_mset (uses_handle h') T) \<le> 1" for h'
  proof -
    have "filter_mset (uses_handle h') T \<subseteq># filter_mset (uses_handle h') (add_mset (Session h client server) T)"
      by (rule multiset_filter_mono) simp
    from size_mset_mono [OF this] session_ends show ?thesis by (simp add: handles_ok_def) (meson order_trans)
  qed
  ultimately show ?case using session_ends by (auto simp: handles_ok_def end_session_def)
qed (auto simp: handles_ok_def register_def unregister_def split: option.splits)

text \<open>A server finds the client of a tagged datagram under the tag.\<close>

lemma forward_route:
  "route_server_datagram st (forward_client_datagram h dg) = map_option (\<lambda>c. (c, dg)) (rs_clients st h)"
proof -
  have "unat h < 256 ^ 4" using unsigned_less [of h, where 'a = nat] by simp
  then show ?thesis by (simp add: route_server_datagram_def forward_client_datagram_def from_be_be_bytes)
qed

text \<open>Handles are only given out.\<close>

lemma relay_step_count: "relay_step s s' \<Longrightarrow> snd (snd s) \<le> snd (snd s')"
  by (induction rule: relay_step.induct) simp_all

lemma relay_reach_ok:
  "relay_step\<^sup>*\<^sup>* s s' \<Longrightarrow> handles_ok s \<Longrightarrow> snd (snd s') < 2 ^ 32 - 1 \<longrightarrow> handles_ok s'"
proof (induction rule: rtranclp_induct)
  case (step s' s'')
  show ?case
  proof
    assume n: "snd (snd s'') < 2 ^ 32 - 1"
    have "snd (snd s') < 2 ^ 32 - 1" using le_less_trans [OF relay_step_count [OF step(2)] n] .
    with step have "handles_ok s'" by blast
    from handles_ok_step [OF step(2) this n] show "handles_ok s''" .
  qed
qed simp

text \<open>
  A server whose acknowledgement cannot be written stays in the registry although nothing serves it:
  \<open>handle_register\<close> returns before its clean-up.
\<close>

lemma failed_ack_leaves_the_server_registered:
  "relay_step\<^sup>*\<^sup>* (new_state, {#}, 0) (register [7] 10 new_state, {#}, 0) \<and>
    lookup_dest [7] (register [7] 10 new_state) = Some 10"
proof -
  have "relay_step (new_state, {#}, 0) (register [7] 10 new_state, {#Serving [7] 10#}, 0)" by (rule relay_step.registers)
  moreover have "relay_step (register [7] 10 new_state, {#Serving [7] 10#}, 0) (register [7] 10 new_state, {#}, 0)"
    by (rule relay_step.ack_fails)
  ultimately show ?thesis by (simp add: converse_rtranclp_into_rtranclp r_into_rtranclp lookup_dest_def register_def)
qed

text \<open>C34: The relay delivers to the right client.  However registrations, look-ups, sessions and
  disconnections interleave, as long as fewer than \<open>2^32 - 1\<close> handles were given out, every session
  has a handle of its own that is not zero, and a server's datagram tagged as that session's
  datagrams are tagged goes to that session's client and nobody else.\<close>

theorem relay_delivers_to_the_session:
  assumes "relay_step\<^sup>*\<^sup>* (new_state, {#}, 0) (st, T, n)" and "n < 2 ^ 32 - 1" and "Session h c sc \<in># T"
  shows "route_server_datagram st (forward_client_datagram h dg) = Some (c, dg) \<and> h \<noteq> 0 \<and>
    size (filter_mset (uses_handle h) T) = 1"
proof -
  have start: "handles_ok (new_state, {#}, 0)" by (simp add: handles_ok_def new_state_def)
  from relay_reach_ok [OF assms(1) start] assms(2) have ok: "handles_ok (st, T, n)" by simp
  from ok assms(3) have le: "size (filter_mset (uses_handle h) T) \<le> 1" and h: "0 < unat h" "rs_clients st h = Some c"
    unfolding handles_ok_def prod.case by blast+
  have "size (filter_mset (uses_handle h) T) \<noteq> 0" using no_other_use [of h T c sc] assms(3) by auto
  with le have "size (filter_mset (uses_handle h) T) = 1" by linarith
  with h show ?thesis by (auto simp: forward_route)
qed

theorem relay_delivers_to_the_session_witness:
  "\<exists>st T. relay_step\<^sup>*\<^sup>* (new_state, {#}, 0) (st, T, 1) \<and> route_server_datagram st (forward_client_datagram 1 [5]) = Some (20, [5])"
proof -
  let ?s1 = "register [7] 10 new_state"
  let ?s2 = "snd (assign_handle 20 ?s1)"
  have "relay_step (new_state, {#}, 0) (?s1, {#Serving [7] 10#}, 0)" by (rule relay_step.registers)
  moreover have "relay_step (?s1, {#Serving [7] 10#}, 0) (?s1, {#Found 20 10, Serving [7] 10#}, 0)"
    by (rule relay_step.finds [of "[7]"]) (simp add: lookup_dest_def register_def)
  moreover have "relay_step (?s1, {#Found 20 10, Serving [7] 10#}, 0) (?s2, {#Session 1 20 10, Serving [7] 10#}, 0 + 1)"
    by (rule relay_step.gets_handle) (simp add: assign_handle_def register_def new_state_def)
  ultimately have reach: "relay_step\<^sup>*\<^sup>* (new_state, {#}, 0) (?s2, {#Session 1 20 10, Serving [7] 10#}, 1)"
    by (simp add: converse_rtranclp_into_rtranclp r_into_rtranclp)
  from relay_delivers_to_the_session [OF this, of 1 20 10] reach show ?thesis by auto
qed

end
