(* ===== verification/RelayLimits.thy ===== *)
theory RelayLimits
  imports FarderPrelude
begin

text \<open>
  The relay's abuse control, \<open>crates/farder-relay/src/limits.rs\<close>: a global cap on concurrent
  connections, held as guards that release their slot when dropped, and a sliding-window limit on
  the new connections of one address.

  Times are naturals, and \<open>duration_since\<close> is their subtraction (it saturates at zero).  The atomic
  counter is a natural; \<open>fetch_sub\<close> at zero would wrap, which is written out.  \<open>try_admit\<close> is three
  atomic sections (the counter, the locked table, the counter again), so its pieces are definitions
  of their own: they run in one go in \<open>try_admit\<close> and interleave freely in \<open>limiter_step\<close>.
\<close>

section \<open>The limiter\<close>

datatype ip_addr = V4 "32 word" | V6 "128 word"

record limiter =
  lm_max_connections :: nat
  lm_rate_per_window :: nat
  lm_window :: nat
  lm_active :: nat
  lm_per_ip :: "ip_addr \<rightharpoonup> nat list"

definition new_limiter :: "nat \<Rightarrow> nat \<Rightarrow> nat \<Rightarrow> limiter" where
  "new_limiter max_connections rate_per_window window =
     \<lparr>lm_max_connections = max_connections, lm_rate_per_window = rate_per_window, lm_window = window,
      lm_active = 0, lm_per_ip = Map.empty\<rparr>"

text \<open>\<open>fetch_sub(1)\<close>: a refused attempt, or a guard that is dropped.\<close>

definition release :: "limiter \<Rightarrow> limiter" where
  "release lim = lim\<lparr>lm_active := (if lm_active lim = 0 then 18446744073709551615 else lm_active lim - 1)\<rparr>"

text \<open>\<open>fetch_add(1)\<close> and the comparison with the cap.\<close>

definition enter_cap :: "limiter \<Rightarrow> bool \<times> limiter" where
  "enter_cap lim = (lm_active lim < lm_max_connections lim, lim\<lparr>lm_active := lm_active lim + 1\<rparr>)"

text \<open>The addresses whose most recent hit is inside the window stay.\<close>

definition prune :: "nat \<Rightarrow> nat \<Rightarrow> (ip_addr \<rightharpoonup> nat list) \<Rightarrow> (ip_addr \<rightharpoonup> nat list)" where
  "prune now window m =
     (\<lambda>ip. case m ip of None \<Rightarrow> None
           | Some hits \<Rightarrow> if hits \<noteq> [] \<and> now - last hits < window then Some hits else None)"

text \<open>The locked section; it says whether the address is over its rate.\<close>

definition over_rate :: "ip_addr \<Rightarrow> nat \<Rightarrow> limiter \<Rightarrow> bool \<times> limiter" where
  "over_rate ip now lim =
     (let window = lm_window lim;
          pruned = prune now window (lm_per_ip lim);
          hits = dropWhile (\<lambda>t. window \<le> now - t) (case pruned ip of None \<Rightarrow> [] | Some h \<Rightarrow> h)
      in if lm_rate_per_window lim \<le> length hits
         then (True, lim\<lparr>lm_per_ip := pruned(ip \<mapsto> hits)\<rparr>)
         else (False, lim\<lparr>lm_per_ip := pruned(ip \<mapsto> hits @ [now])\<rparr>))"

definition try_admit :: "ip_addr \<Rightarrow> nat \<Rightarrow> limiter \<Rightarrow> bool \<times> limiter" where
  "try_admit ip now lim =
     (case enter_cap lim of
        (False, lim1) \<Rightarrow> (False, release lim1)
      | (True, lim1) \<Rightarrow>
          (case over_rate ip now lim1 of
             (True, lim2) \<Rightarrow> (False, release lim2)
           | (False, lim2) \<Rightarrow> (True, lim2)))"

section \<open>Concurrent attempts\<close>

text \<open>
  Where a task of \<open>serve\<close> stands: past the cap and before the table, refused with the counter still
  to be taken back, or holding its guard.
\<close>

datatype task = Passed ip_addr nat | Refused | Held

inductive limiter_step :: "limiter \<times> task multiset \<Rightarrow> limiter \<times> task multiset \<Rightarrow> bool" where
  enter: "enter_cap lim = (ok, lim') \<Longrightarrow>
    limiter_step (lim, T) (lim', add_mset (if ok then Passed ip now else Refused) T)"
| rate: "over_rate ip now lim = (over, lim') \<Longrightarrow>
    limiter_step (lim, add_mset (Passed ip now) T) (lim', add_mset (if over then Refused else Held) T)"
| undo: "limiter_step (lim, add_mset Refused T) (release lim, T)"
| drop_guard: "limiter_step (lim, add_mset Held T) (release lim, T)"

inductive_cases limiter_stepE: "limiter_step s s'"

definition past_cap :: "task \<Rightarrow> bool" where
  "past_cap t = (t \<noteq> Refused)"

definition limiter_ok :: "limiter \<times> task multiset \<Rightarrow> bool" where
  "limiter_ok s \<longleftrightarrow> lm_active (fst s) = size (snd s) \<and> size (filter_mset past_cap (snd s)) \<le> lm_max_connections (fst s)"

lemma over_rate_fields:
  assumes "over_rate ip now lim = (over, lim')"
  shows "lm_active lim' = lm_active lim" "lm_max_connections lim' = lm_max_connections lim"
    "lm_rate_per_window lim' = lm_rate_per_window lim" "lm_window lim' = lm_window lim"
  using assms by (auto simp: over_rate_def Let_def split: if_splits)

lemma limiter_step_max: "limiter_step s s' \<Longrightarrow> lm_max_connections (fst s') = lm_max_connections (fst s)"
  by (induction rule: limiter_step.induct) (auto simp: enter_cap_def release_def over_rate_fields)

lemma limiter_step_ok: "limiter_step s s' \<Longrightarrow> limiter_ok s \<Longrightarrow> limiter_ok s'"
proof (induction rule: limiter_step.induct)
  case (enter lim ok lim' T ip now)
  from enter(1) have lim': "lim' = lim\<lparr>lm_active := lm_active lim + 1\<rparr>" "ok \<longleftrightarrow> lm_active lim < lm_max_connections lim"
    by (auto simp: enter_cap_def)
  have "size T < lm_max_connections lim \<Longrightarrow> Suc (size (filter_mset past_cap T)) \<le> lm_max_connections lim"
    using size_filter_mset_lesseq [of past_cap T] by linarith
  with enter(2) show ?case by (auto simp: lim' limiter_ok_def past_cap_def)
next
  case (rate ip now lim over lim' T)
  then show ?case by (auto simp: limiter_ok_def past_cap_def over_rate_fields)
qed (auto simp: limiter_ok_def release_def past_cap_def)

lemma limiter_reach_ok: "limiter_step\<^sup>*\<^sup>* s s' \<Longrightarrow> limiter_ok s \<Longrightarrow>
    limiter_ok s' \<and> lm_max_connections (fst s') = lm_max_connections (fst s)"
  by (induction rule: rtranclp_induct) (auto simp: limiter_step_ok limiter_step_max)

section \<open>The window of one address\<close>

datatype limiter_op = Admit ip_addr nat | Release

text \<open>The admissions of a history of attempts and drops, in order.\<close>

fun admissions :: "limiter_op list \<Rightarrow> limiter \<Rightarrow> (ip_addr \<times> nat) list" where
  "admissions [] lim = []"
| "admissions (Admit ip now # ops) lim =
     (let (ok, lim') = try_admit ip now lim in (if ok then [(ip, now)] else []) @ admissions ops lim')"
| "admissions (Release # ops) lim = admissions ops (release lim)"

definition admitted_at :: "ip_addr \<Rightarrow> (ip_addr \<times> nat) list \<Rightarrow> nat list" where
  "admitted_at ip xs = map snd (filter (\<lambda>a. fst a = ip) xs)"

fun op_times :: "limiter_op list \<Rightarrow> nat list" where
  "op_times [] = []"
| "op_times (Admit ip now # ops) = now # op_times ops"
| "op_times (Release # ops) = op_times ops"

definition spaced :: "nat \<Rightarrow> nat \<Rightarrow> nat list \<Rightarrow> bool" where
  "spaced rate window ts \<longleftrightarrow> (\<forall>i. i + rate < length ts \<longrightarrow> ts ! i + window \<le> ts ! (i + rate))"

lemma sorted_last_le: "sorted (xs :: nat list) \<Longrightarrow> x \<in> set xs \<Longrightarrow> x \<le> last xs"
  by (induction xs) (auto split: if_splits)

lemma expired_prefix:
  "t \<in> set (takeWhile (\<lambda>t. window \<le> now - t) hits) \<Longrightarrow> \<forall>t \<in> set hits. t \<le> now \<Longrightarrow> t + window \<le> (now :: nat)"
  using set_takeWhileD by fastforce

lemma spaced_snoc:
  "spaced rate window (ts @ [t]) \<longleftrightarrow> spaced rate window ts \<and> (rate \<le> length ts \<longrightarrow> (ts @ [t]) ! (length ts - rate) + window \<le> t)"
proof -
  have "i + rate < length (ts @ [t]) \<longleftrightarrow> i + rate < length ts \<or> (rate \<le> length ts \<and> i = length ts - rate)" for i
    by auto
  then show ?thesis by (auto simp: spaced_def nth_append)
qed

text \<open>
  What the table keeps of the admissions of an address: all of them but a prefix that has left the
  window.
\<close>

definition tracks :: "limiter \<Rightarrow> ip_addr \<Rightarrow> nat \<Rightarrow> nat list \<Rightarrow> bool" where
  "tracks lim ip now ts \<longleftrightarrow> sorted ts \<and> (\<forall>t \<in> set ts. t \<le> now) \<and>
     (\<exists>old. ts = old @ (case lm_per_ip lim ip of None \<Rightarrow> [] | Some h \<Rightarrow> h) \<and> (\<forall>t \<in> set old. t + lm_window lim \<le> now))"

lemma tracks_later: "tracks lim ip now ts \<Longrightarrow> now \<le> now' \<Longrightarrow> tracks lim ip now' ts"
  unfolding tracks_def by (blast intro: order_trans)

lemma nth_prefix: "ts = xs @ ys \<Longrightarrow> i < length xs \<Longrightarrow> (ts @ zs) ! i = xs ! i"
  by (simp add: nth_append)

lemma tracksI:
  "sorted ts \<Longrightarrow> \<forall>t \<in> set ts. t \<le> now \<Longrightarrow> lm_per_ip lim ip = Some h \<Longrightarrow> ts = old @ h \<Longrightarrow>
    \<forall>t \<in> set old. t + lm_window lim \<le> now \<Longrightarrow> tracks lim ip now ts"
  by (auto simp: tracks_def)

lemma prune_tracks:
  assumes "tracks lim ip now ts"
  shows "tracks (lim\<lparr>lm_per_ip := prune now (lm_window lim) (lm_per_ip lim)\<rparr>) ip now ts"
proof (cases "prune now (lm_window lim) (lm_per_ip lim) ip = lm_per_ip lim ip")
  case True
  with assms show ?thesis by (simp add: tracks_def)
next
  case False
  then obtain h where h: "lm_per_ip lim ip = Some h" "prune now (lm_window lim) (lm_per_ip lim) ip = None"
    and "h \<noteq> [] \<Longrightarrow> lm_window lim \<le> now - last h"
    by (fastforce simp: prune_def split: option.splits if_splits)
  from assms h(1) obtain old where old: "ts = old @ h" "\<forall>t \<in> set old. t + lm_window lim \<le> now" "sorted (old @ h)"
    "\<forall>t \<in> set ts. t \<le> now" by (auto simp: tracks_def)
  have "t + lm_window lim \<le> now" if "t \<in> set h" for t
  proof -
    from that have ne: "h \<noteq> []" by auto
    have "sorted h" using old(3) by (simp add: sorted_append)
    with that ne have "t \<le> last h" by (simp add: sorted_last_le)
    moreover have "last h \<le> now" using old(1,4) ne by auto
    ultimately show ?thesis using \<open>h \<noteq> [] \<Longrightarrow> lm_window lim \<le> now - last h\<close> ne by linarith
  qed
  with old h show ?thesis by (auto simp: tracks_def)
qed

lemma sorted_snoc_now: "sorted ts \<Longrightarrow> \<forall>t \<in> set ts. t \<le> now \<Longrightarrow> sorted (ts @ [now :: nat])"
  by (simp add: sorted_append)

text \<open>The locked section, for the address it is about and for the others.\<close>

lemma over_rate_tracks:
  assumes tr: "tracks lim ip' now ts" and step: "over_rate ip now lim = (over, lim')"
    and sp: "spaced (lm_rate_per_window lim) (lm_window lim) ts"
  defines "ts' \<equiv> (if ip' = ip \<and> \<not> over then ts @ [now] else ts)"
  shows "tracks lim' ip' now ts' \<and> spaced (lm_rate_per_window lim) (lm_window lim) ts'"
proof -
  let ?w = "lm_window lim" and ?r = "lm_rate_per_window lim"
  let ?p = "prune now ?w (lm_per_ip lim)"
  let ?kept = "case ?p ip of None \<Rightarrow> [] | Some h \<Rightarrow> h"
  let ?hits = "dropWhile (\<lambda>t. ?w \<le> now - t) ?kept"
  note P = prune_tracks [OF tr]
  note fields = over_rate_fields [OF step]
  show ?thesis
  proof (cases "ip' = ip")
    case False
    then have "lm_per_ip lim' ip' = ?p ip'" using step by (auto simp: over_rate_def Let_def split: if_splits)
    with P sp False fields show ?thesis by (simp add: tracks_def ts'_def)
  next
    case True
    from P True obtain old where old: "ts = old @ ?kept" "\<forall>t \<in> set old. t + ?w \<le> now" and sorted: "sorted ts" and le: "\<forall>t \<in> set ts. t \<le> now"
      by (auto simp: tracks_def)
    let ?old = "old @ takeWhile (\<lambda>t. ?w \<le> now - t) ?kept"
    have ts: "ts = ?old @ ?hits" by (simp add: old(1))
    have gone: "\<forall>t \<in> set ?old. t + ?w \<le> now"
    proof
      fix t
      assume "t \<in> set ?old"
      moreover have "\<forall>t \<in> set ?kept. t \<le> now" using le unfolding old(1) by simp
      ultimately show "t + ?w \<le> now" using old(2) expired_prefix [of t ?w now ?kept] by fastforce
    qed
    show ?thesis
    proof (cases "?r \<le> length ?hits")
      case over: True
      with step have o: "over" "lm_per_ip lim' ip = Some ?hits" by (auto simp: over_rate_def Let_def)
      have "tracks lim' ip' now ts"
        unfolding True by (rule tracksI [OF sorted le o(2) ts]) (use gone fields in simp)
      with sp o(1) show ?thesis by (simp add: ts'_def)
    next
      case False
      with step have o: "\<not> over" "lm_per_ip lim' ip = Some (?hits @ [now])" by (auto simp: over_rate_def Let_def)
      have "tracks lim' ip' now (ts @ [now])"
        unfolding True
      proof (rule tracksI [OF sorted_snoc_now [OF sorted le] _ o(2)])
        show "ts @ [now] = ?old @ ?hits @ [now]" using ts by simp
        show "\<forall>t \<in> set ?old. t + lm_window lim' \<le> now" using gone fields by simp
      qed (use le in simp)
      moreover have "spaced ?r ?w (ts @ [now])"
        unfolding spaced_snoc
      proof (intro conjI impI sp)
        assume "?r \<le> length ts"
        moreover have "length ts = length ?old + length ?hits" using arg_cong [OF ts, of length] by (simp only: length_append)
        ultimately have lt: "length ts - ?r < length ?old" using False by linarith
        have "(ts @ [now]) ! (length ts - ?r) = ?old ! (length ts - ?r)" by (rule nth_prefix [OF ts lt])
        with gone nth_mem [OF lt] show "(ts @ [now]) ! (length ts - ?r) + ?w \<le> now" by simp
      qed
      ultimately show ?thesis using True o(1) by (simp add: ts'_def)
    qed
  qed
qed

lemma try_admit_tracks:
  assumes "tracks lim ip' now ts" and "spaced (lm_rate_per_window lim) (lm_window lim) ts"
    and "try_admit ip now lim = (ok, lim')"
  defines "ts' \<equiv> (if ip' = ip \<and> ok then ts @ [now] else ts)"
  shows "tracks lim' ip' now ts'" "spaced (lm_rate_per_window lim') (lm_window lim') ts'"
    "lm_rate_per_window lim' = lm_rate_per_window lim" "lm_window lim' = lm_window lim"
proof -
  obtain over lim2 where step: "over_rate ip now (lim\<lparr>lm_active := lm_active lim + 1\<rparr>) = (over, lim2)" by fastforce
  have same: "tracks (lim\<lparr>lm_active := a\<rparr>) ip' now ts \<longleftrightarrow> tracks lim ip' now ts" for lim a ts by (simp add: tracks_def)
  from assms(1,2) have "tracks (lim\<lparr>lm_active := lm_active lim + 1\<rparr>) ip' now ts" by (simp add: same)
  note T = over_rate_tracks [OF this step]
  have "tracks lim' ip' now ts' \<and> spaced (lm_rate_per_window lim') (lm_window lim') ts' \<and>
    lm_rate_per_window lim' = lm_rate_per_window lim \<and> lm_window lim' = lm_window lim"
    using assms(1-3) T step over_rate_fields [OF step]
    by (auto simp: try_admit_def enter_cap_def release_def ts'_def same split: if_splits bool.splits)
  then show "tracks lim' ip' now ts'" "spaced (lm_rate_per_window lim') (lm_window lim') ts'"
    "lm_rate_per_window lim' = lm_rate_per_window lim" "lm_window lim' = lm_window lim" by blast+
qed

lemma admissions_spaced:
  assumes "tracks lim ip now ts" and "spaced (lm_rate_per_window lim) (lm_window lim) ts" and "sorted (now # op_times ops)"
  shows "spaced (lm_rate_per_window lim) (lm_window lim) (ts @ admitted_at ip (admissions ops lim))"
  using assms
proof (induction ops lim arbitrary: now ts rule: admissions.induct)
  case (2 ip' t ops lim)
  obtain ok lim' where adm: "try_admit ip' t lim = (ok, lim')" by fastforce
  have "now \<le> t" and sorted: "sorted (t # op_times ops)" using "2.prems"(3) by simp_all
  note S = try_admit_tracks [OF tracks_later [OF "2.prems"(1) this(1)] "2.prems"(2) adm]
  from "2.IH" [OF adm [symmetric] refl S(1,2) sorted] S(3,4) adm show ?case
    by (auto simp: admitted_at_def split: if_splits)
next
  case (3 ops lim)
  have "tracks (release lim) ip now ts" using "3.prems"(1) by (simp add: tracks_def release_def)
  from "3.IH" [OF this] "3.prems"(2,3) show ?case by (simp add: release_def)
qed (simp add: admitted_at_def)

section \<open>The properties of the limiter\<close>

text \<open>The cap holds under any interleaving.  However the attempts, their table checks, the undoing of
  refused ones and the dropping of guards interleave, never more connections than the cap hold a
  guard, and the counter is exactly the number of guards and attempts under way.\<close>

theorem connections_stay_capped:
  assumes "limiter_step\<^sup>*\<^sup>* (new_limiter max_connections rate_per_window window, {#}) (lim, T)"
  shows "count T Held \<le> max_connections \<and> lm_active lim = size T"
proof -
  have "limiter_ok (new_limiter max_connections rate_per_window window, {#})"
    by (simp add: limiter_ok_def new_limiter_def)
  from limiter_reach_ok [OF assms this] have ok: "lm_active lim = size T" "size (filter_mset past_cap T) \<le> max_connections"
    by (auto simp: limiter_ok_def new_limiter_def)
  have "count T Held = count (filter_mset past_cap T) Held" by (simp add: past_cap_def)
  also have "\<dots> \<le> size (filter_mset past_cap T)" by (rule count_le_size)
  finally show ?thesis using ok by simp
qed

theorem connections_stay_capped_witness:
  "\<exists>lim T. limiter_step\<^sup>*\<^sup>* (new_limiter 1 5 60, {#}) (lim, T) \<and> T = {#Refused, Held#} \<and> count T Held \<le> 1 \<and> lm_active lim = 2"
proof -
  let ?ip = "V4 0" and ?l0 = "new_limiter 1 5 60"
  let ?l1 = "?l0\<lparr>lm_active := 1\<rparr>"
  let ?l2 = "?l1\<lparr>lm_per_ip := [?ip \<mapsto> [0]]\<rparr>"
  let ?l3 = "?l2\<lparr>lm_active := 2\<rparr>"
  have "limiter_step (?l0, {#}) (?l1, add_mset (Passed ?ip 0) {#})"
    using limiter_step.enter [of ?l0 True ?l1 "{#}" ?ip 0] by (simp add: enter_cap_def new_limiter_def)
  moreover have "over_rate ?ip 0 ?l1 = (False, ?l2)"
    by (simp add: over_rate_def new_limiter_def prune_def fun_eq_iff)
  then have "limiter_step (?l1, add_mset (Passed ?ip 0) {#}) (?l2, add_mset Held {#})"
    using limiter_step.rate [of ?ip 0 ?l1 False ?l2 "{#}"] by simp
  moreover have "limiter_step (?l2, add_mset Held {#}) (?l3, add_mset Refused {#Held#})"
    using limiter_step.enter [of ?l2 False ?l3 "{#Held#}"] by (simp add: enter_cap_def new_limiter_def)
  ultimately have reach: "limiter_step\<^sup>*\<^sup>* (?l0, {#}) (?l3, {#Refused, Held#})" by (meson r_into_rtranclp rtranclp_trans)
  from connections_stay_capped [OF this] reach show ?thesis by (intro exI [of _ ?l3] exI [of _ "{#Refused, Held#}"]) simp
qed

text \<open>C40: No address exceeds its rate.  With a clock that does not run backward, between any admission of
  an address and its \<open>rate\<close>-th next one at least a window has passed, whatever the other addresses
  do, whenever guards are dropped and although the table forgets idle addresses; so no window holds
  more than \<open>rate\<close> admissions of one address.\<close>

theorem address_rate_is_bounded:
  assumes "sorted (op_times ops)"
  shows "spaced rate_per_window window
    (admitted_at ip (admissions ops (new_limiter max_connections rate_per_window window)))"
proof -
  let ?l = "new_limiter max_connections rate_per_window window"
  have "tracks ?l ip 0 []" by (simp add: tracks_def new_limiter_def)
  moreover have "spaced (lm_rate_per_window ?l) (lm_window ?l) []" by (simp add: spaced_def)
  moreover have "sorted (0 # op_times ops)" using assms by simp
  ultimately show ?thesis using admissions_spaced [of ?l ip 0 "[]" ops] by (simp add: new_limiter_def)
qed

theorem address_rate_is_bounded_witness:
  "spaced 2 60 (admitted_at (V4 1) (admissions [Admit (V4 1) 0, Admit (V4 1) 5, Admit (V4 1) 7, Admit (V4 2) 7, Release, Admit (V4 1) 61]
     (new_limiter 10 2 60)))"
  by (rule address_rate_is_bounded) simp

end
