(* ===== verification/RelayFetch.thy ===== *)
theory RelayFetch
  imports RelayLimits
begin

text \<open>
  The relay's fetch proxy, \<open>crates/farder-relay/src/embed.rs\<close> and \<open>proxy.rs\<close>: which addresses may be
  dialled, which hosts are allowlisted, and the fetches, which follow redirects by hand.

  The URL parser, the resolver and the HTTP client are other packages: they are the fields of
  \<open>fetch_env\<close>, with the resolver and the client given the number of the hop, so that they may answer
  differently each time.  A response body is its chunks, \<open>None\<close> being a transport error.  The
  requests that were sent are returned beside the result.  \<open>fetch_text\<close> returns the bytes of the
  body, before their lossy decoding.
\<close>

unbundle bit_operations_syntax

section \<open>Addresses that may be dialled\<close>

definition octet :: "nat \<Rightarrow> 32 word \<Rightarrow> byte" where
  "octet i w = ucast (drop_bit (24 - 8 * i) w)"

definition segment :: "nat \<Rightarrow> 128 word \<Rightarrow> 16 word" where
  "segment i w = ucast (drop_bit (112 - 16 * i) w)"

text \<open>The range tests of \<open>Ipv4Addr\<close>.\<close>

definition v4_is_private :: "32 word \<Rightarrow> bool" where
  "v4_is_private w \<longleftrightarrow> octet 0 w = 10 \<or> (octet 0 w = 172 \<and> 16 \<le> octet 1 w \<and> octet 1 w \<le> 31) \<or> (octet 0 w = 192 \<and> octet 1 w = 168)"

definition v4_is_multicast :: "32 word \<Rightarrow> bool" where
  "v4_is_multicast w \<longleftrightarrow> 224 \<le> octet 0 w \<and> octet 0 w \<le> 239"

definition is_global_v4 :: "32 word \<Rightarrow> bool" where
  "is_global_v4 v4 \<longleftrightarrow>
     \<not> (octet 0 v4 = 127
        \<or> v4_is_private v4
        \<or> (octet 0 v4 = 169 \<and> octet 1 v4 = 254)
        \<or> v4 = 0xFFFFFFFF
        \<or> v4_is_multicast v4
        \<or> v4 = 0
        \<or> (octet 0 v4 = 100 \<and> (octet 1 v4 AND 0xC0) = 64)
        \<or> [octet 0 v4, octet 1 v4, octet 2 v4, octet 3 v4] = [192, 0, 0, 0])"

definition to_ipv4_mapped :: "128 word \<Rightarrow> 32 word option" where
  "to_ipv4_mapped v6 = (if drop_bit 32 v6 = 0xFFFF then Some (ucast v6) else None)"

fun is_global_ip :: "ip_addr \<Rightarrow> bool" where
  "is_global_ip (V4 v4) = is_global_v4 v4"
| "is_global_ip (V6 v6) =
     (case to_ipv4_mapped v6 of
        Some v4 \<Rightarrow> is_global_v4 v4
      | None \<Rightarrow>
          (if segment 0 v6 = 0x2002 \<or> (segment 0 v6 = 0x64 \<and> segment 1 v6 = 0xff9b) then False
           else \<not> (v6 = 1
                   \<or> (ucast (drop_bit 120 v6) :: byte) = 0xff
                   \<or> v6 = 0
                   \<or> (segment 0 v6 AND 0xfe00) = 0xfc00
                   \<or> (segment 0 v6 AND 0xffc0) = 0xfe80)))"

section \<open>Hosts that may be fetched\<close>

datatype provider = Twitter | YouTube | Reddit | Spotify

definition ALLOWLIST :: "(string \<times> provider) list" where
  "ALLOWLIST =
     [(''twitter.com'', Twitter), (''x.com'', Twitter), (''youtube.com'', YouTube), (''youtu.be'', YouTube),
      (''reddit.com'', Reddit), (''redd.it'', Reddit), (''open.spotify.com'', Spotify), (''fxtwitter.com'', Twitter)]"

definition MEDIA_ALLOWLIST :: "string list" where
  "MEDIA_ALLOWLIST = [''twimg.com'', ''ytimg.com'', ''scdn.co'', ''redd.it'', ''redditmedia.com'']"

definition ascii_lower :: "char \<Rightarrow> char" where
  "ascii_lower c = (if 65 \<le> (of_char c :: nat) \<and> (of_char c :: nat) \<le> 90 then char_of ((of_char c :: nat) + 32) else c)"

definition to_ascii_lowercase :: "string \<Rightarrow> string" where
  "to_ascii_lowercase s = map ascii_lower s"

definition ends_with :: "'a list \<Rightarrow> 'a list \<Rightarrow> bool" where
  "ends_with s t \<longleftrightarrow> length t \<le> length s \<and> drop (length s - length t) s = t"

definition host_matches :: "string \<Rightarrow> string \<Rightarrow> bool" where
  "host_matches host suffix \<longleftrightarrow> host = suffix \<or> ends_with host (''.'' @ suffix)"

record url =
  u_scheme :: string
  u_host :: "string option"
  u_port :: "nat option"

record http_response =
  hr_status :: nat
  hr_location :: "string option"
  hr_content_type :: "string option"
  hr_body :: "bytes option list"

record fetch_env =
  fe_parse :: "string \<Rightarrow> url option"
  fe_join :: "url \<Rightarrow> string \<Rightarrow> string option"
  fe_is_ip :: "string \<Rightarrow> bool"
  fe_lookup :: "nat \<Rightarrow> string \<Rightarrow> nat \<Rightarrow> ip_addr list option"
  fe_get :: "nat \<Rightarrow> string \<Rightarrow> http_response option"

text \<open>The longest matching suffix wins.\<close>

definition best_provider :: "string \<Rightarrow> (nat \<times> provider) option" where
  "best_provider host =
     foldl (\<lambda>best (suffix, provider).
        if host_matches host suffix
        then (if (case best of None \<Rightarrow> True | Some (l, _) \<Rightarrow> l < length suffix) then Some (length suffix, provider) else best)
        else best) None ALLOWLIST"

definition web_host :: "fetch_env \<Rightarrow> string \<Rightarrow> string option" where
  "web_host env raw =
     (case fe_parse env raw of
        None \<Rightarrow> None
      | Some parsed \<Rightarrow>
          if u_scheme parsed \<noteq> ''https'' \<and> u_scheme parsed \<noteq> ''http'' then None
          else (case u_host parsed of
                  None \<Rightarrow> None
                | Some h \<Rightarrow> (let host = to_ascii_lowercase h in if fe_is_ip env host then None else Some host)))"

definition classify_url :: "fetch_env \<Rightarrow> string \<Rightarrow> provider option" where
  "classify_url env raw = (case web_host env raw of None \<Rightarrow> None | Some host \<Rightarrow> map_option snd (best_provider host))"

definition host_is_allowlisted :: "fetch_env \<Rightarrow> string \<Rightarrow> bool" where
  "host_is_allowlisted env raw = (classify_url env raw \<noteq> None)"

definition host_is_media_allowlisted :: "fetch_env \<Rightarrow> string \<Rightarrow> bool" where
  "host_is_media_allowlisted env raw =
     (host_is_allowlisted env raw \<or>
      (case web_host env raw of None \<Rightarrow> False | Some host \<Rightarrow> list_ex (host_matches host) MEDIA_ALLOWLIST))"

definition resolves_to_global :: "fetch_env \<Rightarrow> nat \<Rightarrow> string \<Rightarrow> bool" where
  "resolves_to_global env i raw =
     (case fe_parse env raw of
        None \<Rightarrow> False
      | Some u \<Rightarrow>
          (case u_host u of
             None \<Rightarrow> False
           | Some host \<Rightarrow>
               (case fe_lookup env i host (case u_port u of None \<Rightarrow> 443 | Some p \<Rightarrow> p) of
                  None \<Rightarrow> False
                | Some addrs \<Rightarrow> addrs \<noteq> [] \<and> list_all is_global_ip addrs)))"

definition validate_fetchable :: "fetch_env \<Rightarrow> nat \<Rightarrow> string \<Rightarrow> bool" where
  "validate_fetchable env i raw = (host_is_allowlisted env raw \<and> resolves_to_global env i raw)"

definition validate_media_fetchable :: "fetch_env \<Rightarrow> nat \<Rightarrow> string \<Rightarrow> bool" where
  "validate_media_fetchable env i raw = (host_is_media_allowlisted env raw \<and> resolves_to_global env i raw)"

section \<open>The fetches\<close>

datatype fetch_error =
  Refused | Transport | Status nat | NoLocation | BadLocation | TooLarge | TooManyRedirects | ContentType

definition META_CAP :: nat where "META_CAP = 16 * 1024"
definition MEDIA_CAP :: nat where "MEDIA_CAP = 25 * 1024 * 1024"

text \<open>\<open>resp.bytes()\<close>: the whole body, or the error of a chunk.\<close>

definition whole_body :: "bytes option list \<Rightarrow> bytes option" where
  "whole_body chunks = (if None \<in> set chunks then None else Some (concat (map the chunks)))"

fun fetch_hops :: "fetch_env \<Rightarrow> nat \<Rightarrow> nat \<Rightarrow> string \<Rightarrow> (fetch_error + bytes) \<times> (nat \<times> string) list" where
  "fetch_hops env i 0 current = (Inl TooManyRedirects, [])"
| "fetch_hops env i (Suc n) current =
     (if \<not> validate_fetchable env i current then (Inl Refused, [])
      else (let sent = (i, current)
            in case fe_get env i current of
                 None \<Rightarrow> (Inl Transport, [sent])
               | Some resp \<Rightarrow>
                   if 300 \<le> hr_status resp \<and> hr_status resp < 400
                   then (case hr_location resp of
                           None \<Rightarrow> (Inl NoLocation, [sent])
                         | Some loc \<Rightarrow>
                             (case Option.bind (fe_parse env current) (\<lambda>u. fe_join env u loc) of
                                None \<Rightarrow> (Inl BadLocation, [sent])
                              | Some target \<Rightarrow>
                                  (let (res, reqs) = fetch_hops env (i + 1) n target in (res, sent # reqs))))
                   else if \<not> (200 \<le> hr_status resp \<and> hr_status resp < 300) then (Inl (Status (hr_status resp)), [sent])
                   else (case whole_body (hr_body resp) of
                           None \<Rightarrow> (Inl Transport, [sent])
                         | Some full \<Rightarrow> (ensure (length full \<le> META_CAP) TooLarge (Inr full), [sent]))))"

definition fetch_text :: "fetch_env \<Rightarrow> string \<Rightarrow> (fetch_error + bytes) \<times> (nat \<times> string) list" where
  "fetch_text env url = fetch_hops env 0 4 url"

text \<open>\<open>str::trim\<close> (of ASCII), \<open>split(';')\<close>'s first part and \<open>starts_with\<close>.\<close>

definition is_space :: "char \<Rightarrow> bool" where
  "is_space c \<longleftrightarrow> c = CHR '' '' \<or> (9 \<le> (of_char c :: nat) \<and> (of_char c :: nat) \<le> 13)"

definition trim :: "string \<Rightarrow> string" where
  "trim s = rev (dropWhile is_space (rev (dropWhile is_space s)))"

definition content_type_allowed :: "string \<Rightarrow> bool" where
  "content_type_allowed ct =
     (let base = to_ascii_lowercase (trim (takeWhile (\<lambda>c. c \<noteq> CHR '';'') ct))
      in take 6 base = ''image/'' \<or> base = ''video/mp4'')"

text \<open>The cap is checked before a chunk is kept.\<close>

fun read_chunks :: "bytes \<Rightarrow> bytes option list \<Rightarrow> fetch_error + bytes" where
  "read_chunks out [] = Inr out"
| "read_chunks out (None # cs) = Inl Transport"
| "read_chunks out (Some c # cs) = ensure (length out + length c \<le> MEDIA_CAP) TooLarge (read_chunks (out @ c) cs)"

definition fetch_media :: "fetch_env \<Rightarrow> nat \<Rightarrow> string \<Rightarrow> (fetch_error + (string \<times> bytes)) \<times> (nat \<times> string) list" where
  "fetch_media env i url =
     (if \<not> validate_media_fetchable env i url then (Inl Refused, [])
      else
        (case fe_get env i url of
           None \<Rightarrow> (Inl Transport, [(i, url)])
         | Some resp \<Rightarrow>
             (ensure (200 \<le> hr_status resp \<and> hr_status resp < 300) (Status (hr_status resp))
               (let ct = (case hr_content_type resp of None \<Rightarrow> [] | Some ct \<Rightarrow> ct)
                in ensure (content_type_allowed ct) ContentType
                     (try_then (read_chunks [] (hr_body resp)) (\<lambda>out. Inr (ct, out)))), [(i, url)])))"

section \<open>The reserved ranges\<close>

text \<open>The reference: address blocks as intervals of numbers.\<close>

definition reserved_v4 :: "nat set" where
  "reserved_v4 =
     {0} \<union> {10 * 2 ^ 24..<11 * 2 ^ 24} \<union> {100 * 2 ^ 24 + 64 * 2 ^ 16..<100 * 2 ^ 24 + 128 * 2 ^ 16} \<union>
     {127 * 2 ^ 24..<128 * 2 ^ 24} \<union> {169 * 2 ^ 24 + 254 * 2 ^ 16..<169 * 2 ^ 24 + 255 * 2 ^ 16} \<union>
     {172 * 2 ^ 24 + 16 * 2 ^ 16..<172 * 2 ^ 24 + 32 * 2 ^ 16} \<union> {192 * 2 ^ 24} \<union>
     {192 * 2 ^ 24 + 168 * 2 ^ 16..<192 * 2 ^ 24 + 169 * 2 ^ 16} \<union> {224 * 2 ^ 24..<240 * 2 ^ 24} \<union> {2 ^ 32 - 1}"

lemma unat_octet: "unat (octet i w) = unat w div 2 ^ (24 - 8 * i) mod 256"
proof -
  have "unat (octet i w) = take_bit LENGTH(8) (unat (drop_bit (24 - 8 * i) w))" by (simp only: octet_def unsigned_ucast_eq)
  also have "\<dots> = take_bit LENGTH(8) (drop_bit (24 - 8 * i) (unat w))" by (simp only: unat_drop_bit_eq)
  also have "\<dots> = unat w div 2 ^ (24 - 8 * i) mod 256" by (simp only: take_bit_eq_mod drop_bit_eq_div) simp
  finally show ?thesis .
qed

lemma and_c0: "(b AND 0xC0 = (64 :: byte)) \<longleftrightarrow> 64 \<le> unat b \<and> unat b < 128"
proof -
  have "\<forall>n \<in> set [0..<256]. ((word_of_nat n :: byte) AND 0xC0 = 64) = (64 \<le> n \<and> n < 128)" by code_simp
  moreover have "unat b \<in> set [0..<256]" using unsigned_less [of b, where 'a = nat] by simp
  ultimately have "((word_of_nat (unat b) :: byte) AND 0xC0 = 64) = (64 \<le> unat b \<and> unat b < 128)" by blast
  then show ?thesis by simp
qed

lemma global_v4_octets:
  "is_global_v4 w \<longleftrightarrow>
     \<not> (unat (octet 0 w) = 127 \<or> unat (octet 0 w) = 10 \<or> (unat (octet 0 w) = 172 \<and> 16 \<le> unat (octet 1 w) \<and> unat (octet 1 w) \<le> 31)
        \<or> (unat (octet 0 w) = 192 \<and> unat (octet 1 w) = 168) \<or> (unat (octet 0 w) = 169 \<and> unat (octet 1 w) = 254)
        \<or> unat w = 2 ^ 32 - 1 \<or> (224 \<le> unat (octet 0 w) \<and> unat (octet 0 w) \<le> 239) \<or> unat w = 0
        \<or> (unat (octet 0 w) = 100 \<and> 64 \<le> unat (octet 1 w) \<and> unat (octet 1 w) < 128)
        \<or> (unat (octet 0 w) = 192 \<and> unat (octet 1 w) = 0 \<and> unat (octet 2 w) = 0 \<and> unat (octet 3 w) = 0))"
  unfolding is_global_v4_def v4_is_private_def v4_is_multicast_def and_c0
  by (simp add: word_unat_eq_iff word_le_nat_alt)

lemma global_v4_ranges: "is_global_v4 w \<longleftrightarrow> unat w \<notin> reserved_v4"
proof -
  define n where "n = unat w"
  define a b c d where "a = n div 2 ^ 24" and "b = n div 2 ^ 16 mod 256" and "c = n div 2 ^ 8 mod 256" and "d = n mod 256"
  have lt: "n < 2 ^ 32" using unsigned_less [of w, where 'a = nat] by (simp add: n_def)
  have o: "unat (octet 0 w) = a" "unat (octet 1 w) = b" "unat (octet 2 w) = c" "unat (octet 3 w) = d"
    using lt by (simp_all add: unat_octet a_def b_def c_def d_def n_def)
  have "n = n div 256 * 256 + d" "n div 256 = n div 65536 * 256 + c" "n div 65536 = a * 256 + b"
    unfolding a_def b_def c_def d_def by (simp_all add: div_mult2_eq [of _ 256 256, simplified] div_mult2_eq [of _ 65536 256, simplified])
  then have n: "n = 16777216 * a + 65536 * b + 256 * c + d" by linarith
  have less: "b < 256" "c < 256" "d < 256" by (simp_all add: b_def c_def d_def)
  have a: "a = k \<longleftrightarrow> 16777216 * k \<le> n \<and> n < 16777216 * (k + 1)" for k using n less by auto
  have ab: "a = k \<and> l \<le> b \<and> b \<le> m \<longleftrightarrow> 16777216 * k + 65536 * l \<le> n \<and> n < 16777216 * k + 65536 * (m + 1)" if "m \<le> 255" for k l m
  proof
    assume bounds: "16777216 * k + 65536 * l \<le> n \<and> n < 16777216 * k + 65536 * (m + 1)"
    with that have "a = k" unfolding a by auto
    with bounds n less show "a = k \<and> l \<le> b \<and> b \<le> m" by simp
  qed (use n less in auto)
  have "b = 168 \<longleftrightarrow> 168 \<le> b \<and> b \<le> 168" "b = 254 \<longleftrightarrow> 254 \<le> b \<and> b \<le> 254" "b < 128 \<longleftrightarrow> b \<le> 127" by linarith+
  note point_b = this
  have blocks:
    "a = 172 \<and> 16 \<le> b \<and> b \<le> 31 \<longleftrightarrow> 2886729728 \<le> n \<and> n < 2887778304"
    "a = 192 \<and> b = 168 \<longleftrightarrow> 3232235520 \<le> n \<and> n < 3232301056"
    "a = 169 \<and> b = 254 \<longleftrightarrow> 2851995648 \<le> n \<and> n < 2852061184"
    "a = 100 \<and> 64 \<le> b \<and> b < 128 \<longleftrightarrow> 1681915904 \<le> n \<and> n < 1686110208"
    unfolding point_b using ab [of 31 172 16] ab [of 168 192 168] ab [of 254 169 254] ab [of 127 100 64] by simp_all
  have multicast: "224 \<le> a \<and> a \<le> 239 \<longleftrightarrow> 3758096384 \<le> n \<and> n < 4026531840" using n less by auto
  have point: "a = 192 \<and> b = 0 \<and> c = 0 \<and> d = 0 \<longleftrightarrow> n = 3221225472"
  proof
    assume "n = 3221225472"
    moreover from this have "a = 192" unfolding a by simp
    ultimately show "a = 192 \<and> b = 0 \<and> c = 0 \<and> d = 0" using n by simp
  qed (use n in simp)
  have whole: "a = 127 \<longleftrightarrow> 2130706432 \<le> n \<and> n < 2147483648" "a = 10 \<longleftrightarrow> 167772160 \<le> n \<and> n < 184549376"
    using a [of 127] a [of 10] by simp_all
  show ?thesis
    unfolding global_v4_octets o n_def [symmetric] blocks multicast point whole by (auto simp: reserved_v4_def)
qed

text \<open>
  An address that no range of the private, local and reserved ones contains: an IPv4 address, also
  when it is mapped into IPv6, by its number; the unspecified and the loopback address of IPv6.
\<close>

fun public_address :: "ip_addr \<Rightarrow> bool" where
  "public_address (V4 w) \<longleftrightarrow> unat w \<notin> reserved_v4"
| "public_address (V6 w) \<longleftrightarrow> unat w \<noteq> 0 \<and> unat w \<noteq> 1 \<and> \<not> (unat w div 2 ^ 32 = 0xFFFF \<and> unat w mod 2 ^ 32 \<in> reserved_v4)"

lemma global_is_public: "is_global_ip a \<Longrightarrow> public_address a"
proof (cases a)
  case (V6 w)
  assume g: "is_global_ip a"
  have "unat (ucast w :: 32 word) = take_bit LENGTH(32) (unat w)" by (simp only: unsigned_ucast_eq)
  then have low: "unat (ucast w :: 32 word) = unat w mod 2 ^ 32" by (simp only: take_bit_eq_mod) simp
  have high: "drop_bit 32 w = 0xFFFF \<longleftrightarrow> unat w div 2 ^ 32 = 0xFFFF"
    by (simp only: word_unat_eq_iff unat_drop_bit_eq) (simp add: drop_bit_eq_div)
  have small: "w \<noteq> 0" "w \<noteq> 1" if "drop_bit 32 w = 0xFFFF"
    using that unfolding high by (auto simp: word_unat_eq_iff)
  show ?thesis
  proof (cases "drop_bit 32 w = 0xFFFF")
    case True
    with g V6 have "unat (ucast w :: 32 word) \<notin> reserved_v4" by (simp add: to_ipv4_mapped_def global_v4_ranges)
    with V6 small [OF True] low show ?thesis by (simp add: word_unat_eq_iff)
  next
    case False
    with g V6 have "w \<noteq> 0" "w \<noteq> 1" by (auto simp: to_ipv4_mapped_def split: if_splits)
    with V6 False show ?thesis unfolding high by (simp add: word_unat_eq_iff)
  qed
qed (simp add: global_v4_ranges)

section \<open>What the fetches send\<close>

text \<open>
  The contract: a request goes only to an http(s) URL whose host is a listed name or below one, is
  not an address literal, and resolved just before to public addresses only.
\<close>

definition may_dial :: "string set \<Rightarrow> fetch_env \<Rightarrow> nat \<Rightarrow> string \<Rightarrow> bool" where
  "may_dial hosts env i raw \<longleftrightarrow>
     (\<exists>u h addrs. fe_parse env raw = Some u \<and> u_scheme u \<in> {''http'', ''https''} \<and> u_host u = Some h \<and>
        \<not> fe_is_ip env (to_ascii_lowercase h) \<and>
        (\<exists>s \<in> hosts. to_ascii_lowercase h = s \<or> (\<exists>sub. to_ascii_lowercase h = sub @ ''.'' @ s)) \<and>
        fe_lookup env i h (case u_port u of None \<Rightarrow> 443 | Some p \<Rightarrow> p) = Some addrs \<and> addrs \<noteq> [] \<and>
        (\<forall>a \<in> set addrs. public_address a))"

definition page_hosts :: "string set" where "page_hosts = set (map fst ALLOWLIST)"
definition media_hosts :: "string set" where "media_hosts = page_hosts \<union> set MEDIA_ALLOWLIST"

lemma ends_with_iff: "ends_with s t \<longleftrightarrow> (\<exists>p. s = p @ t)"
proof
  assume "ends_with s t"
  then have "s = take (length s - length t) s @ t" unfolding ends_with_def by (metis append_take_drop_id)
  then show "\<exists>p. s = p @ t" ..
qed (auto simp: ends_with_def)

lemma host_matches_iff: "host_matches h s \<longleftrightarrow> h = s \<or> (\<exists>sub. h = sub @ ''.'' @ s)"
  by (simp add: host_matches_def ends_with_iff)

lemma best_provider_listed:
  assumes "best_provider host \<noteq> None" shows "\<exists>s \<in> page_hosts. host_matches host s"
proof (rule ccontr)
  assume "\<not> ?thesis"
  then have none: "\<forall>e \<in> set ALLOWLIST. \<not> host_matches host (fst e)" by (auto simp: page_hosts_def)
  have "foldl (\<lambda>best (suffix, provider).
        if host_matches host suffix
        then (if (case best of None \<Rightarrow> True | Some (l, _) \<Rightarrow> l < length suffix) then Some (length suffix, provider) else best)
        else best) b xs = b" if "set xs \<subseteq> set ALLOWLIST" for b :: "(nat \<times> provider) option" and xs
    using that none by (induction xs) auto
  with assms show False by (simp add: best_provider_def)
qed

lemma web_host_Some:
  "web_host env raw = Some host \<longleftrightarrow> (\<exists>u h. fe_parse env raw = Some u \<and> u_scheme u \<in> {''http'', ''https''} \<and> u_host u = Some h \<and>
     host = to_ascii_lowercase h \<and> \<not> fe_is_ip env host)"
  by (auto simp: web_host_def Let_def split: option.splits)

lemma resolves_public:
  "resolves_to_global env i raw \<Longrightarrow> fe_parse env raw = Some u \<Longrightarrow> u_host u = Some h \<Longrightarrow>
    \<exists>addrs. fe_lookup env i h (case u_port u of None \<Rightarrow> 443 | Some p \<Rightarrow> p) = Some addrs \<and> addrs \<noteq> [] \<and>
      (\<forall>a \<in> set addrs. public_address a)"
  by (auto simp: resolves_to_global_def list_all_iff global_is_public split: option.splits)

lemma may_dialI:
  assumes "web_host env raw = Some host" and "s \<in> hosts" and "host_matches host s" and "resolves_to_global env i raw"
  shows "may_dial hosts env i raw"
proof -
  from assms(1) obtain u h where u: "fe_parse env raw = Some u" "u_scheme u \<in> {''http'', ''https''}" "u_host u = Some h"
    "host = to_ascii_lowercase h" "\<not> fe_is_ip env host" by (auto simp: web_host_Some)
  from resolves_public [OF assms(4) u(1,3)] obtain addrs where
    "fe_lookup env i h (case u_port u of None \<Rightarrow> 443 | Some p \<Rightarrow> p) = Some addrs" "addrs \<noteq> []" "\<forall>a \<in> set addrs. public_address a" by blast
  then show ?thesis
    unfolding may_dial_def using u assms(2) assms(3) [unfolded host_matches_iff]
    by (intro exI [of _ u] exI [of _ h] exI [of _ addrs] conjI) auto
qed

lemma validate_page: "validate_fetchable env i raw \<Longrightarrow> may_dial page_hosts env i raw"
  using best_provider_listed may_dialI
  by (fastforce simp: validate_fetchable_def host_is_allowlisted_def classify_url_def split: option.splits)

lemma validate_media:
  assumes "validate_media_fetchable env i raw" shows "may_dial media_hosts env i raw"
proof -
  from assms have dns: "resolves_to_global env i raw" and host: "host_is_media_allowlisted env raw"
    by (simp_all add: validate_media_fetchable_def)
  from host obtain h where h: "web_host env raw = Some h" and
    "best_provider h \<noteq> None \<or> list_ex (host_matches h) MEDIA_ALLOWLIST"
    by (auto simp: host_is_media_allowlisted_def host_is_allowlisted_def classify_url_def split: option.splits)
  then obtain s where "s \<in> media_hosts" "host_matches h s"
    using best_provider_listed [of h] by (auto simp: media_hosts_def list_ex_iff)
  then show ?thesis using may_dialI [OF h _ _ dns] by blast
qed

lemma fetch_hops_requests:
  "set (snd (fetch_hops env i n current)) \<subseteq> {(j, u). may_dial page_hosts env j u} \<and> length (snd (fetch_hops env i n current)) \<le> n"
proof (induction n arbitrary: i current)
  case (Suc n)
  have IH: "set (snd (fetch_hops env (Suc i) n t)) \<subseteq> {a. may_dial page_hosts env (fst a) (snd a)}" "length (snd (fetch_hops env (Suc i) n t)) \<le> n" for t
    using Suc.IH [of "Suc i" t] by (simp_all add: split_beta)
  show ?case
  proof (cases "validate_fetchable env i current")
    case True
    with validate_page [OF True] show ?thesis
      by (simp add: Let_def split_beta IH split: option.split)
  qed simp
qed simp

definition result_within :: "nat \<Rightarrow> ('a \<Rightarrow> bytes) \<Rightarrow> fetch_error + 'a \<Rightarrow> bool" where
  "result_within cap f r \<longleftrightarrow> (case r of Inl _ \<Rightarrow> True | Inr x \<Rightarrow> length (f x) \<le> cap)"

lemma result_within_ensure [simp]: "result_within cap f (ensure b e k) \<longleftrightarrow> (b \<longrightarrow> result_within cap f k)"
  by (simp add: result_within_def ensure_def)

lemma fetch_hops_within: "result_within META_CAP id (fst (fetch_hops env i n current))"
proof (induction n arbitrary: i current)
  case (Suc n)
  then show ?case
    by (simp add: Let_def split_beta split: option.split) (simp add: result_within_def)
qed (simp add: result_within_def)

lemma read_chunks_within: "length out \<le> MEDIA_CAP \<Longrightarrow> result_within MEDIA_CAP id (read_chunks out cs)"
proof (induction out cs rule: read_chunks.induct)
  case (3 out c cs)
  then show ?case by simp
qed (simp_all add: result_within_def)

text \<open>The proxy cannot be turned against private networks.  Whatever the URL, the answers of the
  servers, the redirects and the resolver, every request a page fetch sends goes to an allowlisted
  host that has just resolved to public addresses only, it sends at most four, and what it returns
  is at most 16 KiB; a media fetch sends at most one request, to an allowlisted page or media host
  under the same condition, and returns at most 25 MiB.\<close>

theorem fetches_are_contained:
  "set (snd (fetch_text env url)) \<subseteq> {(j, u). may_dial page_hosts env j u} \<and> length (snd (fetch_text env url)) \<le> 4 \<and>
   result_within META_CAP id (fst (fetch_text env url)) \<and>
   set (snd (fetch_media env i url)) \<subseteq> {(j, u). j = i \<and> u = url \<and> may_dial media_hosts env j u} \<and>
   result_within MEDIA_CAP snd (fst (fetch_media env i url))"
proof (intro conjI)
  show "set (snd (fetch_text env url)) \<subseteq> {(j, u). may_dial page_hosts env j u}" "length (snd (fetch_text env url)) \<le> 4"
    using fetch_hops_requests [of env 0 4 url] by (simp_all add: fetch_text_def)
  show "result_within META_CAP id (fst (fetch_text env url))" by (simp add: fetch_text_def fetch_hops_within)
  show "set (snd (fetch_media env i url)) \<subseteq> {(j, u). j = i \<and> u = url \<and> may_dial media_hosts env j u}"
    using validate_media [of env i url] by (auto simp: fetch_media_def split: option.splits if_splits)
  have chunks: "result_within MEDIA_CAP id (read_chunks [] cs)" for cs by (rule read_chunks_within) simp
  have "result_within MEDIA_CAP snd (try_then (read_chunks [] cs) (\<lambda>out. Inr (ct, out)))" for cs and ct :: string
    using chunks [of cs] by (cases "read_chunks [] cs") (auto simp: result_within_def)
  then show "result_within MEDIA_CAP snd (fst (fetch_media env i url))"
    by (auto simp: fetch_media_def Let_def result_within_def ensure_def split: option.split)
qed

end
