(* ===== verification/FilePolicy.thy ===== *)
theory FilePolicy
  imports FarderPrelude
begin

text \<open>
  The client-side safety checks of sealed attachments, \<open>crates/farder-crypto/src/file_policy.rs\<close>:
  the sanitizer of file names and the check of a file's bytes against its claimed type.

  A Rust string is its list of Unicode scalar values (naturals); \<open>len\<close> is the length of its UTF-8
  form.  The character classes of the standard library (\<open>is_control\<close>, \<open>is_whitespace\<close>) and its
  UTF-8 decoder are written out.
\<close>

section \<open>Strings\<close>

type_synonym text_str = "nat list"

definition codes :: "string \<Rightarrow> text_str" where
  "codes s = map of_char s"

definition utf8_len :: "text_str \<Rightarrow> nat" where
  "utf8_len s = sum_list (map (\<lambda>c. if c < 0x80 then 1 else if c < 0x800 then 2 else if c < 0x10000 then 3 else 4) s)"

definition is_control :: "nat \<Rightarrow> bool" where
  "is_control c \<longleftrightarrow> c < 32 \<or> (127 \<le> c \<and> c < 160)"

definition is_whitespace :: "nat \<Rightarrow> bool" where
  "is_whitespace c \<longleftrightarrow> (9 \<le> c \<and> c \<le> 13) \<or> c \<in> {32, 0x85, 0xA0, 0x1680, 0x2028, 0x2029, 0x202F, 0x205F, 0x3000} \<or> (0x2000 \<le> c \<and> c \<le> 0x200A)"

definition trim_by :: "(nat \<Rightarrow> bool) \<Rightarrow> text_str \<Rightarrow> text_str" where
  "trim_by p s = rev (dropWhile p (rev (dropWhile p s)))"

definition lower :: "nat \<Rightarrow> nat" where
  "lower c = (if 65 \<le> c \<and> c \<le> 90 then c + 32 else c)"

text \<open>\<open>rsplit_once('.')\<close>, the part after the last dot.\<close>

definition after_last_dot :: "text_str \<Rightarrow> text_str option" where
  "after_last_dot s = (if 46 \<in> set s then Some (rev (takeWhile (\<lambda>c. c \<noteq> 46) (rev s))) else None)"

definition starts_with :: "'a list \<Rightarrow> 'a list \<Rightarrow> bool" where
  "starts_with s p \<longleftrightarrow> take (length p) s = p"

section \<open>File names\<close>

datatype file_refused =
    PathInName
  | EmptyName
  | NameTooLong
  | ExtensionNotAllowed text_str
  | ContentMismatch text_str "text_str option"

definition MAX_FILENAME_LEN :: nat where "MAX_FILENAME_LEN = 120"

definition ALLOWED_EXTENSIONS :: "text_str list" where
  "ALLOWED_EXTENSIONS = map codes
     [''png'', ''jpg'', ''jpeg'', ''gif'', ''webp'',
      ''wav'', ''mp3'', ''ogg'', ''m4a'', ''flac'', ''webm'',
      ''mp4'', ''mov'',
      ''pdf'', ''txt'', ''md'', ''csv'', ''json'', ''log'',
      ''zip'']"

definition is_bidi :: "nat \<Rightarrow> bool" where
  "is_bidi c \<longleftrightarrow> (0x202A \<le> c \<and> c \<le> 0x202E) \<or> (0x2066 \<le> c \<and> c \<le> 0x2069) \<or> c = 0x200E \<or> c = 0x200F \<or> c = 0x061C"

definition safe_filename :: "text_str \<Rightarrow> file_refused + text_str" where
  "safe_filename raw =
     (let cleaned = filter (\<lambda>c. \<not> is_control c \<and> \<not> is_bidi c) raw
      in ensure (\<not> (47 \<in> set cleaned \<or> 92 \<in> set cleaned)) PathInName
         (ensure (\<not> (58 \<in> set cleaned \<or> cleaned = codes ''..'' \<or> starts_with cleaned (codes ''../''))) PathInName
         (let trimmed = trim_by is_whitespace (trim_by (\<lambda>c. c = 46) (trim_by is_whitespace cleaned))
          in ensure (trimmed \<noteq> []) EmptyName
             (ensure (utf8_len trimmed \<le> MAX_FILENAME_LEN) NameTooLong
             (let ext = (case after_last_dot trimmed of None \<Rightarrow> [] | Some e \<Rightarrow> map lower e)
              in ensure (ext \<noteq> []) (ExtensionNotAllowed [])
                 (ensure (ext \<in> set ALLOWED_EXTENSIONS) (ExtensionNotAllowed ext) (Inr trimmed)))))))"

section \<open>File contents\<close>

definition ascii :: "string \<Rightarrow> bytes" where
  "ascii s = map (\<lambda>c. word_of_nat (of_char c)) s"

definition sniff :: "bytes \<Rightarrow> string option" where
  "sniff bs =
     (if starts_with bs [0x89, 0x50, 0x4E, 0x47, 0x0D, 0x0A, 0x1A, 0x0A] then Some ''image/png''
      else if starts_with bs [0xFF, 0xD8, 0xFF] then Some ''image/jpeg''
      else if starts_with bs (ascii ''GIF87a'') \<or> starts_with bs (ascii ''GIF89a'') then Some ''image/gif''
      else if 12 \<le> length bs \<and> starts_with bs (ascii ''RIFF'') \<and> take 4 (drop 8 bs) = ascii ''WEBP'' then Some ''image/webp''
      else if 12 \<le> length bs \<and> starts_with bs (ascii ''RIFF'') \<and> take 4 (drop 8 bs) = ascii ''WAVE'' then Some ''audio/wav''
      else if starts_with bs (ascii ''OggS'') then Some ''audio/ogg''
      else if starts_with bs (ascii ''fLaC'') then Some ''audio/flac''
      else if starts_with bs [0x1A, 0x45, 0xDF, 0xA3] then Some ''video/webm''
      else if starts_with bs (ascii ''ID3'') \<or> starts_with bs [0xFF, 0xFB] then Some ''audio/mpeg''
      else if 12 \<le> length bs \<and> take 4 (drop 4 bs) = ascii ''ftyp'' then Some ''video/mp4''
      else if starts_with bs (ascii ''%PDF-'') then Some ''application/pdf''
      else if starts_with bs [0x50, 0x4B, 0x03, 0x04] then Some ''application/zip''
      else None)"

text \<open>\<open>str::from_utf8\<close>: the well-formed sequences of one to four bytes.\<close>

definition cont :: "byte \<Rightarrow> bool" where
  "cont b \<longleftrightarrow> 0x80 \<le> b \<and> b \<le> 0xBF"

definition low6 :: "byte \<Rightarrow> nat" where
  "low6 b = unat b mod 64"

fun from_utf8 :: "bytes \<Rightarrow> text_str option" where
  "from_utf8 [] = Some []"
| "from_utf8 (a # bs) =
     (if a < 0x80 then map_option (Cons (unat a)) (from_utf8 bs)
      else if 0xC2 \<le> a \<and> a \<le> 0xDF then
        (case bs of b # rest \<Rightarrow> if cont b then map_option (Cons (unat a mod 32 * 64 + low6 b)) (from_utf8 rest) else None
         | _ \<Rightarrow> None)
      else if 0xE0 \<le> a \<and> a \<le> 0xEF then
        (case bs of b # c # rest \<Rightarrow>
           if cont b \<and> cont c \<and> (a = 0xE0 \<longrightarrow> 0xA0 \<le> b) \<and> (a = 0xED \<longrightarrow> b \<le> 0x9F)
           then map_option (Cons (unat a mod 16 * 4096 + low6 b * 64 + low6 c)) (from_utf8 rest) else None
         | _ \<Rightarrow> None)
      else if 0xF0 \<le> a \<and> a \<le> 0xF4 then
        (case bs of b # c # d # rest \<Rightarrow>
           if cont b \<and> cont c \<and> cont d \<and> (a = 0xF0 \<longrightarrow> 0x90 \<le> b) \<and> (a = 0xF4 \<longrightarrow> b \<le> 0x8F)
           then map_option (Cons (unat a mod 8 * 262144 + low6 b * 4096 + low6 c * 64 + low6 d)) (from_utf8 rest) else None
         | _ \<Rightarrow> None)
      else None)"

definition looks_like_text :: "bytes \<Rightarrow> bool" where
  "looks_like_text bs =
     (case from_utf8 bs of
        None \<Rightarrow> False
      | Some text \<Rightarrow> \<not> list_ex (\<lambda>c. is_control c \<and> c \<noteq> 9 \<and> c \<noteq> 13 \<and> c \<noteq> 10) text)"

definition is_textual_mime :: "text_str \<Rightarrow> bool" where
  "is_textual_mime claimed =
     (let c = map lower claimed in starts_with c (codes ''text/'') \<or> c = codes ''application/json'')"

definition mime_agrees :: "string \<Rightarrow> text_str \<Rightarrow> bool" where
  "mime_agrees sniffed claimed \<longleftrightarrow>
     map lower (codes sniffed) = map lower claimed
     \<or> (sniffed, claimed) \<in> {(''video/webm'', codes ''audio/webm''), (''video/mp4'', codes ''audio/mp4''),
          (''video/mp4'', codes ''video/quicktime''), (''audio/mpeg'', codes ''audio/mp3'')}"

definition check_contents :: "bytes \<Rightarrow> text_str \<Rightarrow> file_refused + string" where
  "check_contents bs claimed_mime =
     (case sniff bs of
        Some t \<Rightarrow> if mime_agrees t claimed_mime then Inr t else Inl (ContentMismatch claimed_mime (Some (codes t)))
      | None \<Rightarrow>
          if is_textual_mime claimed_mime \<and> looks_like_text bs then Inr ''text/plain''
          else Inl (ContentMismatch claimed_mime None))"

section \<open>Sanitized names\<close>

lemma set_trim_by: "set (trim_by p s) \<subseteq> set s"
  unfolding trim_by_def by (metis set_dropWhileD set_rev subsetI)

lemma trim_by_ends: "trim_by p s \<noteq> [] \<Longrightarrow> \<not> p (hd (trim_by p s)) \<and> \<not> p (last (trim_by p s))"
proof -
  assume ne: "trim_by p s \<noteq> []"
  let ?m = "dropWhile p s"
  from ne have rne: "dropWhile p (rev ?m) \<noteq> []" by (simp add: trim_by_def)
  then have "\<not> p (hd (dropWhile p (rev ?m)))" by (rule hd_dropWhile)
  then have l: "\<not> p (last (trim_by p s))" using rne by (simp add: trim_by_def last_rev)
  obtain zs where zs: "?m = trim_by p s @ zs"
    using takeWhile_dropWhile_id [of p "rev ?m"] unfolding trim_by_def by (metis rev_append rev_rev_ident)
  with ne have "?m \<noteq> []" "hd ?m = hd (trim_by p s)" by auto
  with hd_dropWhile [of p s] l show ?thesis by simp
qed

lemma after_last_dot_suffix: "after_last_dot s = Some e \<Longrightarrow> \<exists>stem. s = stem @ 46 # e \<and> 46 \<notin> set e"
proof -
  assume "after_last_dot s = Some e"
  then have dot: "46 \<in> set s" and e: "e = rev (takeWhile (\<lambda>c. c \<noteq> 46) (rev s))" by (auto simp: after_last_dot_def split: if_splits)
  have "dropWhile (\<lambda>c. c \<noteq> 46) (rev s) \<noteq> []" using dot by (simp add: dropWhile_eq_Nil_conv)
  then obtain rest where "dropWhile (\<lambda>c. c \<noteq> 46) (rev s) = 46 # rest"
    by (metis (mono_tags, lifting) hd_dropWhile list.collapse)
  then have "rev s = rev e @ 46 # rest" using takeWhile_dropWhile_id [of "\<lambda>c. c \<noteq> 46" "rev s"] e by simp
  then have "s = rev rest @ 46 # e" by (metis append.assoc append_Cons append_Nil rev.simps(2) rev_append rev_rev_ident)
  moreover have "46 \<notin> set e" using e by (auto dest: set_takeWhileD)
  ultimately show ?thesis by blast
qed

text \<open>A name that can be written and shown as it is.\<close>

definition harmless_name :: "text_str \<Rightarrow> bool" where
  "harmless_name name \<longleftrightarrow>
     (\<forall>c \<in> set name. \<not> is_control c \<and> \<not> is_bidi c \<and> c \<noteq> 47 \<and> c \<noteq> 92 \<and> c \<noteq> 58) \<and>
     \<not> is_whitespace (hd name) \<and> \<not> is_whitespace (last name) \<and> utf8_len name \<le> MAX_FILENAME_LEN \<and>
     (\<exists>stem ext. name = stem @ 46 # ext \<and> 46 \<notin> set ext \<and> map lower ext \<in> set ALLOWED_EXTENSIONS)"

text \<open>A name that passes is harmless.  Whatever name a sender chooses, a name the sanitizer returns
  has no path separator, no drive or stream separator, no control or direction character and no
  blank at its ends, is at most 120 bytes long, and its last extension is on the allowlist; and it
  consists of characters of the name that was sent.\<close>

theorem safe_filename_is_harmless:
  assumes "safe_filename raw = Inr name"
  shows "harmless_name name \<and> set name \<subseteq> set raw"
proof -
  define cleaned where "cleaned = filter (\<lambda>c. \<not> is_control c \<and> \<not> is_bidi c) raw"
  define trimmed where "trimmed = trim_by is_whitespace (trim_by (\<lambda>c. c = 46) (trim_by is_whitespace cleaned))"
  from assms have clean: "47 \<notin> set cleaned" "92 \<notin> set cleaned" "58 \<notin> set cleaned" and name: "name = trimmed"
    and ne: "trimmed \<noteq> []" and len: "utf8_len trimmed \<le> MAX_FILENAME_LEN"
    and ext: "(case after_last_dot trimmed of None \<Rightarrow> [] | Some e \<Rightarrow> map lower e) \<noteq> []"
      "(case after_last_dot trimmed of None \<Rightarrow> [] | Some e \<Rightarrow> map lower e) \<in> set ALLOWED_EXTENSIONS"
    unfolding safe_filename_def Let_def cleaned_def [symmetric] trimmed_def [symmetric] by (auto simp: result_simps)
  have sub: "set name \<subseteq> set cleaned" unfolding name trimmed_def by (intro order_trans [OF set_trim_by]) (rule order_refl)
  from ext obtain e where e: "after_last_dot name = Some e" "map lower e \<in> set ALLOWED_EXTENSIONS"
    unfolding name by (cases "after_last_dot trimmed") auto
  have "\<not> is_whitespace (hd name)" "\<not> is_whitespace (last name)" using trim_by_ends [OF ne [unfolded trimmed_def]] by (simp_all add: name trimmed_def)
  moreover have "\<forall>c \<in> set name. \<not> is_control c \<and> \<not> is_bidi c \<and> c \<noteq> 47 \<and> c \<noteq> 92 \<and> c \<noteq> 58"
    using sub clean by (auto simp: cleaned_def)
  moreover have "set cleaned \<subseteq> set raw" by (auto simp: cleaned_def)
  ultimately show ?thesis
    using sub len after_last_dot_suffix [OF e(1)] e(2) by (auto simp: harmless_name_def name)
qed

theorem safe_filename_is_harmless_witness:
  "harmless_name (codes ''report.PDF'') \<and> safe_filename (codes ''  report.PDF '') = Inr (codes ''report.PDF'')"
proof -
  have ok: "safe_filename (codes ''  report.PDF '') = Inr (codes ''report.PDF'')"
    by (simp add: safe_filename_def codes_def is_control_def is_bidi_def is_whitespace_def trim_by_def starts_with_def
        utf8_len_def after_last_dot_def lower_def ALLOWED_EXTENSIONS_def MAX_FILENAME_LEN_def)
  from safe_filename_is_harmless [OF ok] ok show ?thesis by simp
qed

section \<open>Accepted contents\<close>

text \<open>In well-formed UTF-8 every byte below 128 is a character of its own.\<close>

lemma map_option_Cons_Some: "map_option (Cons x) r = Some cs \<longleftrightarrow> (\<exists>cs'. r = Some cs' \<and> cs = x # cs')"
  by auto

lemma from_utf8_ascii: "from_utf8 bs = Some cs \<Longrightarrow> b \<in> set bs \<Longrightarrow> b < 0x80 \<Longrightarrow> unat b \<in> set cs"
proof (induction bs arbitrary: cs rule: from_utf8.induct)
  case (2 a bs)
  have lt: "b < 0x80" by (rule "2.prems"(3))
  have no_cont: "\<not> cont b" using lt by (auto simp: cont_def)
  show ?case
  proof (cases "a < 0x80")
    case True
    with "2.prems"(1) obtain cs' where cs': "from_utf8 bs = Some cs'" "cs = unat a # cs'" by auto
    from "2.prems"(2) "2.IH"(1) [OF True cs'(1) _ lt] cs'(2) show ?thesis by auto
  next
    case multi: False
    then have "b \<noteq> a" using lt by auto
    with "2.prems"(2) have b: "b \<in> set bs" by simp
    consider "0xC2 \<le> a \<and> a \<le> 0xDF" | "\<not> (0xC2 \<le> a \<and> a \<le> 0xDF)" "0xE0 \<le> a \<and> a \<le> 0xEF"
      | "\<not> (0xC2 \<le> a \<and> a \<le> 0xDF)" "\<not> (0xE0 \<le> a \<and> a \<le> 0xEF)" "0xF0 \<le> a \<and> a \<le> 0xF4"
      using "2.prems"(1) multi by (auto split: if_splits)
    then show ?thesis
    proof cases
      case 1
      with "2.prems"(1) multi obtain x rest e cs' where "bs = x # rest" "cont x" "from_utf8 rest = Some cs'" "cs = e # cs'"
        by (cases bs) (auto split: if_splits)
      with "2.IH"(2) [OF multi 1, of x rest cs'] b lt no_cont show ?thesis by auto
    next
      case 2
      with "2.prems"(1) multi obtain x y rest e cs' where "bs = x # y # rest" "cont x" "cont y"
        "(a = 0xE0 \<longrightarrow> 0xA0 \<le> x) \<and> (a = 0xED \<longrightarrow> x \<le> 0x9F)" "from_utf8 rest = Some cs'" "cs = e # cs'"
        by (cases bs; cases "tl bs") (auto split: if_splits)
      with "2.IH"(3) [OF multi 2, of x "y # rest" y rest cs'] b lt no_cont show ?thesis by auto
    next
      case 3
      with "2.prems"(1) multi obtain x y z rest e cs' where "bs = x # y # z # rest" "cont x" "cont y" "cont z"
        "(a = 0xF0 \<longrightarrow> 0x90 \<le> x) \<and> (a = 0xF4 \<longrightarrow> x \<le> 0x8F)" "from_utf8 rest = Some cs'" "cs = e # cs'"
        by (cases bs; cases "tl bs"; cases "tl (tl bs)") (auto split: if_splits)
      with "2.IH"(4) [OF multi 3, of x "y # z # rest" y "z # rest" z rest cs'] b lt no_cont show ?thesis by auto
    qed
  qed
qed simp

text \<open>What is accepted is what it claims to be.  When the check of contents accepts a file, either
  its leading bytes are the signature of the type it reports and that type agrees with the claim, or
  no known signature is there, the claim is a textual one and no byte of the file is a NUL, a delete
  or a control character other than tab, line feed and carriage return; so no executable or archive
  passes as text.\<close>

theorem accepted_contents_are_genuine:
  assumes "check_contents bs claimed = Inr t"
  shows "(sniff bs = Some t \<and> mime_agrees t claimed) \<or>
    (sniff bs = None \<and> t = ''text/plain'' \<and> is_textual_mime claimed \<and> set bs \<inter> {b. (b < 32 \<or> b = 127) \<and> b \<noteq> 9 \<and> b \<noteq> 10 \<and> b \<noteq> 13} = {})"
proof (cases "sniff bs")
  case None
  with assms have t: "t = ''text/plain''" "is_textual_mime claimed" and "looks_like_text bs"
    by (auto simp: check_contents_def split: if_splits)
  then obtain cs where cs: "from_utf8 bs = Some cs" and plain: "\<And>c. c \<in> set cs \<Longrightarrow> \<not> is_control c \<or> c = 9 \<or> c = 13 \<or> c = 10"
    by (auto simp: looks_like_text_def list_ex_iff split: option.splits)
  have "b = 9 \<or> b = 10 \<or> b = 13" if "b \<in> set bs" "b < 32 \<or> b = 127" for b
  proof -
    from that(2) have "b < 0x80" by (auto simp: word_less_nat_alt)
    from plain [OF from_utf8_ascii [OF cs that(1) this]] that(2) show ?thesis
      by (auto simp: is_control_def word_less_nat_alt word_unat_eq_iff)
  qed
  then have "set bs \<inter> {b. (b < 32 \<or> b = 127) \<and> b \<noteq> 9 \<and> b \<noteq> 10 \<and> b \<noteq> 13} = {}" by auto
  with None t show ?thesis by simp
next
  case (Some x)
  with assms show ?thesis by (auto simp: check_contents_def split: if_splits)
qed

theorem accepted_contents_are_genuine_witness:
  "check_contents (ascii ''hello'') (codes ''text/plain'') = Inr ''text/plain'' \<and> is_textual_mime (codes ''text/plain'')"
proof -
  have ok: "check_contents (ascii ''hello'') (codes ''text/plain'') = Inr ''text/plain''" by code_simp
  have "sniff (ascii ''hello'') = None" by code_simp
  with accepted_contents_are_genuine [OF ok] ok show ?thesis by simp
qed

end
