(* ===== verification/AccessState.thy ===== *)
theory AccessState
  imports LogState
begin

text \<open>
  Who may do and see what on a server: the tables of roles, members, channels and permission
  overrides (\<open>members.rs\<close>, \<open>channels.rs\<close> of \<open>crates/farder-server/src\<close>), the resolution of a
  member's permissions (\<open>permissions.rs\<close>, the helpers of \<open>handlers.rs\<close>), and the visibility of a
  channel (\<open>handlers.rs\<close>, \<open>subscriptions.rs\<close>).

  A table is the list of its rows in row-id order.  Permission sets are 64-bit words.  Statements
  fail only for their constraints (a missing row, a foreign key), not for the medium.  Colour and
  hoist of a role and the name of a member are kept in the database for display only and left out.
\<close>

unbundle bit_operations_syntax

section \<open>Permissions\<close>

type_synonym perms = "64 word"

definition VIEW_CHANNEL :: perms where "VIEW_CHANNEL = push_bit 0 1"
definition READ_MESSAGES :: perms where "READ_MESSAGES = push_bit 1 1"
definition SEND_MESSAGES :: perms where "SEND_MESSAGES = push_bit 2 1"
definition MANAGE_MESSAGES :: perms where "MANAGE_MESSAGES = push_bit 3 1"
definition CONNECT :: perms where "CONNECT = push_bit 4 1"
definition SPEAK :: perms where "SPEAK = push_bit 5 1"
definition STREAM :: perms where "STREAM = push_bit 6 1"
definition MANAGE_CHANNEL :: perms where "MANAGE_CHANNEL = push_bit 7 1"
definition MANAGE_ROLES :: perms where "MANAGE_ROLES = push_bit 8 1"
definition MANAGE_SERVER :: perms where "MANAGE_SERVER = push_bit 9 1"
definition KICK_MEMBERS :: perms where "KICK_MEMBERS = push_bit 10 1"
definition BAN_MEMBERS :: perms where "BAN_MEMBERS = push_bit 11 1"
definition ADMIN :: perms where "ADMIN = push_bit 12 1"
definition CREATE_INVITES :: perms where "CREATE_INVITES = push_bit 13 1"
definition TIMEOUT_MEMBERS :: perms where "TIMEOUT_MEMBERS = push_bit 14 1"

definition ALL_PERMISSIONS :: perms where
  "ALL_PERMISSIONS = VIEW_CHANNEL OR READ_MESSAGES OR SEND_MESSAGES OR MANAGE_MESSAGES OR CONNECT OR SPEAK OR STREAM OR
     MANAGE_CHANNEL OR MANAGE_ROLES OR MANAGE_SERVER OR KICK_MEMBERS OR BAN_MEMBERS OR ADMIN OR CREATE_INVITES OR TIMEOUT_MEMBERS"

definition DEFAULT_EVERYONE :: perms where
  "DEFAULT_EVERYONE = VIEW_CHANNEL OR READ_MESSAGES OR SEND_MESSAGES OR CREATE_INVITES"

definition has :: "perms \<Rightarrow> perms \<Rightarrow> bool" where
  "has permissions permission \<longleftrightarrow> permissions AND permission = permission"

record perm_override =
  po_allow :: perms
  po_deny :: perms

record resolution_context =
  rc_everyone :: perms
  rc_roles :: "perms list"
  rc_category :: "perm_override list"
  rc_channel :: "perm_override list"
  rc_is_owner :: bool

definition or_all :: "perms list \<Rightarrow> perms" where
  "or_all ps = foldl (OR) 0 ps"

definition apply_overrides :: "perm_override list \<Rightarrow> perms \<Rightarrow> perms" where
  "apply_overrides ovs perms =
     (let combined_allow = or_all (map po_allow ovs); combined_deny = or_all (map po_deny ovs)
      in (perms AND NOT combined_deny) OR combined_allow)"

definition resolve_perms :: "resolution_context \<Rightarrow> perms" where
  "resolve_perms ctx =
     (if rc_is_owner ctx then ALL_PERMISSIONS
      else (let perms = foldl (OR) (rc_everyone ctx) (rc_roles ctx);
                admin_before_overrides = has perms ADMIN;
                after = apply_overrides (rc_channel ctx) (apply_overrides (rc_category ctx) perms);
                restored = (if admin_before_overrides then after OR ADMIN else after)
            in if has restored ADMIN then ALL_PERMISSIONS else restored))"

section \<open>The tables\<close>

datatype channel_type = Text | Announcement | Thread | Dm | Voice

record role_row =
  ro_id :: nat
  ro_name :: string
  ro_permissions :: perms
  ro_position :: nat
  ro_builtin :: bool

record member_row =
  mr_key :: public_key
  mr_banned :: bool
  mr_revoked :: bool
  mr_timeout_until :: "nat option"
  mr_joined_at :: nat

record chan_row =
  cn_id :: nat
  cn_name :: string
  cn_type :: channel_type
  cn_category :: "nat option"
  cn_position :: nat
  cn_topic :: "string option"
  cn_nsfw :: bool
  cn_slow_mode :: nat
  cn_retention :: "nat option"
  cn_deleted :: bool

record category_row =
  ct_id :: nat
  ct_name :: string
  ct_position :: nat
  ct_deleted :: bool

record override_row =
  ov_target :: nat
  ov_role :: nat
  ov_allow :: perms
  ov_deny :: perms

record audit_row =
  au_actor :: public_key
  au_target :: "public_key option"
  au_action :: string

record access_db =
  ad_roles :: "role_row list"
  ad_member_roles :: "(public_key \<times> nat) list"
  ad_members :: "member_row list"
  ad_channels :: "chan_row list"
  ad_categories :: "category_row list"
  ad_channel_overrides :: "override_row list"
  ad_category_overrides :: "override_row list"
  ad_dm_participants :: "(nat \<times> public_key) list"
  ad_system_keys :: "public_key list"
  ad_audit :: "audit_row list"
  ad_next_role :: nat
  ad_next_channel :: nat
  ad_next_category :: nat

definition get_member :: "access_db \<Rightarrow> public_key \<Rightarrow> member_row option" where
  "get_member db pk = find (\<lambda>m. mr_key m = pk) (ad_members db)"

definition get_role :: "access_db \<Rightarrow> nat \<Rightarrow> role_row option" where
  "get_role db role_id = find (\<lambda>r. ro_id r = role_id) (ad_roles db)"

definition get_chan :: "access_db \<Rightarrow> nat \<Rightarrow> chan_row option" where
  "get_chan db channel_id = find (\<lambda>c. cn_id c = channel_id \<and> \<not> cn_deleted c) (ad_channels db)"

definition get_category :: "access_db \<Rightarrow> nat \<Rightarrow> category_row option" where
  "get_category db category_id = find (\<lambda>c. ct_id c = category_id \<and> \<not> ct_deleted c) (ad_categories db)"

definition get_member_role_ids :: "access_db \<Rightarrow> public_key \<Rightarrow> nat list" where
  "get_member_role_ids db pk = map snd (filter (\<lambda>mr. fst mr = pk) (ad_member_roles db))"

text \<open>The join of the roles of a member with the role table.\<close>

definition member_role_rows :: "access_db \<Rightarrow> public_key \<Rightarrow> role_row list" where
  "member_role_rows db pk = concat (map (\<lambda>i. filter (\<lambda>r. ro_id r = i) (ad_roles db)) (get_member_role_ids db pk))"

definition get_member_role_permissions :: "access_db \<Rightarrow> public_key \<Rightarrow> perms list" where
  "get_member_role_permissions db pk = map ro_permissions (member_role_rows db pk)"

definition get_highest_role_position :: "access_db \<Rightarrow> public_key \<Rightarrow> nat" where
  "get_highest_role_position db pk = foldl max 0 (map ro_position (member_role_rows db pk))"

definition overrides_for_roles :: "override_row list \<Rightarrow> nat \<Rightarrow> nat list \<Rightarrow> perm_override list" where
  "overrides_for_roles table target role_ids =
     map (\<lambda>o'. \<lparr>po_allow = ov_allow o', po_deny = ov_deny o'\<rparr>)
       (filter (\<lambda>o'. ov_target o' = target \<and> ov_role o' \<in> set role_ids) table)"

definition is_dm_participant :: "access_db \<Rightarrow> nat \<Rightarrow> public_key \<Rightarrow> bool" where
  "is_dm_participant db channel_id pk \<longleftrightarrow> (channel_id, pk) \<in> set (ad_dm_participants db)"

definition everyone_permissions :: "access_db \<Rightarrow> perms" where
  "everyone_permissions db =
     (case find (\<lambda>r. ro_name r = ''@everyone'' \<and> ro_builtin r) (ad_roles db) of None \<Rightarrow> 0 | Some r \<Rightarrow> ro_permissions r)"

section \<open>What a member may do\<close>

definition resolve_member_server_perms :: "access_db \<Rightarrow> public_key \<Rightarrow> bool \<Rightarrow> perms" where
  "resolve_member_server_perms db member by_owner =
     (if by_owner then ALL_PERMISSIONS
      else resolve_perms \<lparr>rc_everyone = everyone_permissions db, rc_roles = get_member_role_permissions db member,
             rc_category = [], rc_channel = [], rc_is_owner = by_owner\<rparr>)"

definition resolve_member_perms :: "access_db \<Rightarrow> public_key \<Rightarrow> nat \<Rightarrow> bool \<Rightarrow> perms" where
  "resolve_member_perms db member channel_id by_owner =
     (if by_owner then ALL_PERMISSIONS
      else
        (let role_ids = get_member_role_ids db member;
             category_id = Option.bind (get_chan db channel_id) cn_category;
             category_overrides = (case category_id of None \<Rightarrow> []
               | Some cat \<Rightarrow> overrides_for_roles (ad_category_overrides db) cat role_ids);
             channel_overrides = overrides_for_roles (ad_channel_overrides db) channel_id role_ids
         in resolve_perms \<lparr>rc_everyone = everyone_permissions db, rc_roles = get_member_role_permissions db member,
              rc_category = category_overrides, rc_channel = channel_overrides, rc_is_owner = by_owner\<rparr>))"

text \<open>The server-wide check of a request: the roles alone, without the expansion of \<open>ADMIN\<close>.\<close>

definition resolve_base_perms :: "access_db \<Rightarrow> public_key \<Rightarrow> bool \<Rightarrow> perms" where
  "resolve_base_perms db member by_owner =
     (if by_owner then ALL_PERMISSIONS
      else foldl (OR) (everyone_permissions db) (get_member_role_permissions db member))"

definition channel_visible :: "access_db \<Rightarrow> public_key \<Rightarrow> nat \<Rightarrow> bool \<Rightarrow> bool" where
  "channel_visible db member channel_id by_owner =
     (case get_chan db channel_id of
        None \<Rightarrow> False
      | Some c \<Rightarrow>
          if cn_type c = Dm then is_dm_participant db channel_id member
          else has (resolve_member_perms db member channel_id by_owner) VIEW_CHANNEL)"

text \<open>\<open>content_block_reason\<close> is \<open>None\<close>: a log member, or a server without a log.\<close>

definition content_allowed :: "log_state option \<Rightarrow> public_key \<Rightarrow> bool" where
  "content_allowed log member = (case log of None \<Rightarrow> True | Some ls \<Rightarrow> is_member ls member)"

definition visible :: "log_state option \<Rightarrow> access_db \<Rightarrow> public_key \<Rightarrow> bool \<Rightarrow> nat \<Rightarrow> bool" where
  "visible log db member by_owner channel_id \<longleftrightarrow>
     content_allowed log member \<and>
     (case get_member db member of None \<Rightarrow> False | Some m \<Rightarrow> \<not> mr_banned m \<and> \<not> mr_revoked m) \<and>
     channel_visible db member channel_id by_owner"

section \<open>Permission bits\<close>

lemma bit_or_all: "bit (foldl (OR) (a :: perms) ps) n \<longleftrightarrow> bit a n \<or> (\<exists>p \<in> set ps. bit p n)"
  by (induction ps arbitrary: a) (auto simp: bit_or_iff)

lemma bit_or_all' [simp]: "bit (or_all ps) n \<longleftrightarrow> (\<exists>p \<in> set ps. bit p n)"
  by (simp add: or_all_def bit_or_all)

lemma has_bit: "has p (push_bit k 1) \<longleftrightarrow> bit p k" if "k < 64"
proof
  assume "has p (push_bit k 1)"
  with that have "bit (p AND push_bit k 1) k" by (simp add: has_def bit_exp_iff)
  then show "bit p k" by (simp add: bit_and_iff)
next
  assume "bit p k"
  with that show "has p (push_bit k 1)"
    unfolding has_def by (intro bit_word_eqI) (auto simp: bit_and_iff bit_exp_iff)
qed

lemma has_ADMIN: "has p ADMIN \<longleftrightarrow> bit p 12"
  unfolding ADMIN_def by (rule has_bit) simp

lemma bit_apply_overrides:
  "n < 64 \<Longrightarrow> bit (apply_overrides ovs p) n \<longleftrightarrow>
    (\<exists>v \<in> set ovs. bit (po_allow v) n) \<or> (bit p n \<and> \<not> (\<exists>v \<in> set ovs. bit (po_deny v) n))"
  by (auto simp: apply_overrides_def Let_def bit_or_iff bit_and_iff bit_not_iff)

end
