(* ===== verification/AccessHandlers.thy ===== *)
theory AccessHandlers
  imports AccessState
begin

text \<open>
  The requests of \<open>handle_request\<close> (\<open>crates/farder-server/src/handlers.rs\<close>) that change roles,
  members, channels, categories and permission overrides, with the statements they run
  (\<open>members.rs\<close>, \<open>channels.rs\<close>, \<open>audit.rs\<close>).

  A handler returns the database with the events to broadcast, or the refusal with the database it
  leaves behind: nothing is rolled back, and a failed \<open>unwrap\<close> (\<open>Panicked\<close>) comes after the write.
  The JSON detail of an audit row is left out.
\<close>

section \<open>Events and refusals\<close>

datatype access_event =
    RoleCreated nat | RoleUpdated nat | RoleDeleted nat | PermissionsChanged
  | ChannelCreated nat | ChannelUpdated nat | ChannelDeleted nat
  | CategoryCreated nat | CategoryUpdated nat | CategoryDeleted nat
  | YouWereKicked | MemberLeft public_key | YouWereBanned | MemberBanned public_key | MemberUnbanned public_key
  | MemberTimeoutChanged public_key "nat option" | AuditEventCreated audit_row

datatype access_target = ToAll | ToMembers "public_key list" | ToPermissionHolders perms

datatype access_error =
    MissingPermission perms | RoleAtOrAboveYours | MemberAtOrAboveYou | CannotBeRemoved
  | TimeoutOutOfRange | RoleNotFound | BuiltinRole | ConstraintFailed | Panicked

type_synonym broadcast = "access_target \<times> access_event"
type_synonym handled = "(access_error \<times> access_db) + (access_db \<times> broadcast list)"

section \<open>Statements\<close>

definition create_role :: "access_db \<Rightarrow> string \<Rightarrow> perms \<Rightarrow> nat \<Rightarrow> bool \<Rightarrow> nat \<times> access_db" where
  "create_role db name permissions position builtin =
     (ad_next_role db,
      db\<lparr>ad_roles := ad_roles db @ [\<lparr>ro_id = ad_next_role db, ro_name = name, ro_permissions = permissions,
                                    ro_position = position, ro_builtin = builtin\<rparr>],
         ad_next_role := ad_next_role db + 1\<rparr>)"

definition given :: "'a option \<Rightarrow> 'a \<Rightarrow> 'a" where
  "given o' x = (case o' of None \<Rightarrow> x | Some y \<Rightarrow> y)"

definition update_role :: "access_db \<Rightarrow> nat \<Rightarrow> string option \<Rightarrow> perms option \<Rightarrow> nat option \<Rightarrow> access_db" where
  "update_role db role_id name permissions position =
     db\<lparr>ad_roles := map (\<lambda>r. if ro_id r = role_id
        then r\<lparr>ro_name := given name (ro_name r), ro_permissions := given permissions (ro_permissions r),
               ro_position := given position (ro_position r)\<rparr> else r) (ad_roles db)\<rparr>"

definition delete_role :: "access_db \<Rightarrow> nat \<Rightarrow> access_error + access_db" where
  "delete_role db role_id =
     or_fail (get_role db role_id) ConstraintFailed (\<lambda>r.
     ensure (\<not> ro_builtin r) BuiltinRole
     (Inr (db\<lparr>ad_member_roles := filter (\<lambda>mr. snd mr \<noteq> role_id) (ad_member_roles db),
             ad_channel_overrides := filter (\<lambda>o'. ov_role o' \<noteq> role_id) (ad_channel_overrides db),
             ad_category_overrides := filter (\<lambda>o'. ov_role o' \<noteq> role_id) (ad_category_overrides db),
             ad_roles := filter (\<lambda>r. ro_id r \<noteq> role_id) (ad_roles db)\<rparr>)))"

text \<open>\<open>INSERT OR IGNORE\<close> with its foreign keys.\<close>

definition assign_role :: "access_db \<Rightarrow> public_key \<Rightarrow> nat \<Rightarrow> access_error + access_db" where
  "assign_role db pk role_id =
     (if (pk, role_id) \<in> set (ad_member_roles db) then Inr db
      else ensure (get_member db pk \<noteq> None \<and> get_role db role_id \<noteq> None) ConstraintFailed
             (Inr (db\<lparr>ad_member_roles := ad_member_roles db @ [(pk, role_id)]\<rparr>)))"

definition unassign_role :: "access_db \<Rightarrow> public_key \<Rightarrow> nat \<Rightarrow> access_db" where
  "unassign_role db pk role_id = db\<lparr>ad_member_roles := filter (\<lambda>mr. mr \<noteq> (pk, role_id)) (ad_member_roles db)\<rparr>"

definition remove_member :: "access_db \<Rightarrow> public_key \<Rightarrow> access_db" where
  "remove_member db pk =
     db\<lparr>ad_member_roles := filter (\<lambda>mr. fst mr \<noteq> pk) (ad_member_roles db),
        ad_members := filter (\<lambda>m. mr_key m \<noteq> pk) (ad_members db)\<rparr>"

definition update_member :: "access_db \<Rightarrow> public_key \<Rightarrow> (member_row \<Rightarrow> member_row) \<Rightarrow> access_db" where
  "update_member db pk f = db\<lparr>ad_members := map (\<lambda>m. if mr_key m = pk then f m else m) (ad_members db)\<rparr>"

definition ban_member :: "access_db \<Rightarrow> public_key \<Rightarrow> access_db" where
  "ban_member db pk = update_member db pk (\<lambda>m. m\<lparr>mr_banned := True\<rparr>)"

definition unban_member :: "access_db \<Rightarrow> public_key \<Rightarrow> access_db" where
  "unban_member db pk = update_member db pk (\<lambda>m. m\<lparr>mr_banned := False\<rparr>)"

definition set_timeout :: "access_db \<Rightarrow> public_key \<Rightarrow> nat \<Rightarrow> access_db" where
  "set_timeout db pk until_ms = update_member db pk (\<lambda>m. m\<lparr>mr_timeout_until := Some until_ms\<rparr>)"

definition clear_timeout :: "access_db \<Rightarrow> public_key \<Rightarrow> access_db" where
  "clear_timeout db pk = update_member db pk (\<lambda>m. m\<lparr>mr_timeout_until := None\<rparr>)"

text \<open>An expired timeout is cleared when it is read.\<close>

definition is_timed_out :: "access_db \<Rightarrow> public_key \<Rightarrow> nat \<Rightarrow> nat option \<times> access_db" where
  "is_timed_out db pk now_ms =
     (case Option.bind (get_member db pk) mr_timeout_until of
        None \<Rightarrow> (None, db)
      | Some until_ms \<Rightarrow> if now_ms < until_ms then (Some until_ms, db) else (None, clear_timeout db pk))"

definition category_exists :: "access_db \<Rightarrow> nat \<Rightarrow> bool" where
  "category_exists db i = list_ex (\<lambda>c. ct_id c = i) (ad_categories db)"

definition create_channel :: "access_db \<Rightarrow> string \<Rightarrow> channel_type \<Rightarrow> nat option \<Rightarrow> nat \<Rightarrow> access_error + (nat \<times> access_db)" where
  "create_channel db name ty category_id position =
     ensure (case category_id of None \<Rightarrow> True | Some i \<Rightarrow> category_exists db i) ConstraintFailed
     (Inr (ad_next_channel db,
       db\<lparr>ad_channels := ad_channels db @ [\<lparr>cn_id = ad_next_channel db, cn_name = name, cn_type = ty,
            cn_category = category_id, cn_position = position, cn_topic = None, cn_nsfw = False, cn_slow_mode = 0,
            cn_retention = None, cn_deleted = False\<rparr>],
          ad_next_channel := ad_next_channel db + 1\<rparr>))"

record channel_update =
  cu_name :: "string option"
  cu_topic :: "string option"
  cu_nsfw :: "bool option"
  cu_slow_mode :: "nat option"
  cu_retention :: "nat option option"
  cu_category :: "nat option option"
  cu_position :: "nat option"

definition update_channel :: "access_db \<Rightarrow> nat \<Rightarrow> channel_update \<Rightarrow> access_error + access_db" where
  "update_channel db channel_id u =
     ensure (list_ex (\<lambda>c. cn_id c = channel_id) (ad_channels db) \<longrightarrow>
             (case cu_category u of Some (Some i) \<Rightarrow> category_exists db i | _ \<Rightarrow> True)) ConstraintFailed
     (Inr (db\<lparr>ad_channels := map (\<lambda>c. if cn_id c = channel_id
        then c\<lparr>cn_name := given (cu_name u) (cn_name c),
               cn_topic := (case cu_topic u of None \<Rightarrow> cn_topic c | Some t \<Rightarrow> Some t),
               cn_nsfw := given (cu_nsfw u) (cn_nsfw c), cn_slow_mode := given (cu_slow_mode u) (cn_slow_mode c),
               cn_retention := given (cu_retention u) (cn_retention c),
               cn_category := given (cu_category u) (cn_category c), cn_position := given (cu_position u) (cn_position c)\<rparr>
        else c) (ad_channels db)\<rparr>))"

definition soft_delete_channel :: "access_db \<Rightarrow> nat \<Rightarrow> access_db" where
  "soft_delete_channel db channel_id =
     db\<lparr>ad_channels := map (\<lambda>c. if cn_id c = channel_id then c\<lparr>cn_deleted := True\<rparr> else c) (ad_channels db)\<rparr>"

definition create_category :: "access_db \<Rightarrow> string \<Rightarrow> nat \<Rightarrow> nat \<times> access_db" where
  "create_category db name position =
     (ad_next_category db,
      db\<lparr>ad_categories := ad_categories db @ [\<lparr>ct_id = ad_next_category db, ct_name = name, ct_position = position, ct_deleted = False\<rparr>],
         ad_next_category := ad_next_category db + 1\<rparr>)"

definition update_category :: "access_db \<Rightarrow> nat \<Rightarrow> string option \<Rightarrow> nat option \<Rightarrow> access_db" where
  "update_category db category_id name position =
     db\<lparr>ad_categories := map (\<lambda>c. if ct_id c = category_id
        then c\<lparr>ct_name := given name (ct_name c), ct_position := given position (ct_position c)\<rparr> else c) (ad_categories db)\<rparr>"

definition delete_category :: "access_db \<Rightarrow> nat \<Rightarrow> access_db" where
  "delete_category db category_id =
     db\<lparr>ad_categories := map (\<lambda>c. if ct_id c = category_id then c\<lparr>ct_deleted := True\<rparr> else c) (ad_categories db),
        ad_channels := map (\<lambda>c. if cn_category c = Some category_id then c\<lparr>cn_category := None\<rparr> else c) (ad_channels db),
        ad_category_overrides := filter (\<lambda>o'. ov_target o' \<noteq> category_id) (ad_category_overrides db)\<rparr>"

text \<open>\<open>INSERT .. ON CONFLICT DO UPDATE\<close>.\<close>

definition upsert_override :: "override_row \<Rightarrow> override_row list \<Rightarrow> override_row list" where
  "upsert_override o' table =
     (if list_ex (\<lambda>x. ov_target x = ov_target o' \<and> ov_role x = ov_role o') table
      then map (\<lambda>x. if ov_target x = ov_target o' \<and> ov_role x = ov_role o' then o' else x) table
      else table @ [o'])"

definition set_channel_override :: "access_db \<Rightarrow> nat \<Rightarrow> nat \<Rightarrow> perms \<Rightarrow> perms \<Rightarrow> access_db" where
  "set_channel_override db channel_id role_id allow deny =
     db\<lparr>ad_channel_overrides := upsert_override \<lparr>ov_target = channel_id, ov_role = role_id, ov_allow = allow, ov_deny = deny\<rparr>
          (ad_channel_overrides db)\<rparr>"

definition set_category_override :: "access_db \<Rightarrow> nat \<Rightarrow> nat \<Rightarrow> perms \<Rightarrow> perms \<Rightarrow> access_db" where
  "set_category_override db category_id role_id allow deny =
     db\<lparr>ad_category_overrides := upsert_override \<lparr>ov_target = category_id, ov_role = role_id, ov_allow = allow, ov_deny = deny\<rparr>
          (ad_category_overrides db)\<rparr>"

section \<open>Guards and the audit log\<close>

definition require_base_perm :: "access_db \<Rightarrow> public_key \<Rightarrow> bool \<Rightarrow> perms \<Rightarrow> handled \<Rightarrow> handled" where
  "require_base_perm db member by_owner perm k =
     ensure (has (resolve_base_perms db member by_owner) perm) (MissingPermission perm, db) k"

definition require_channel_perm :: "access_db \<Rightarrow> public_key \<Rightarrow> bool \<Rightarrow> nat \<Rightarrow> perms \<Rightarrow> handled \<Rightarrow> handled" where
  "require_channel_perm db member by_owner channel_id perm k =
     ensure (has (resolve_member_perms db member channel_id by_owner) perm) (MissingPermission perm, db) k"

definition require_role_hierarchy :: "access_db \<Rightarrow> public_key \<Rightarrow> bool \<Rightarrow> nat \<Rightarrow> handled \<Rightarrow> handled" where
  "require_role_hierarchy db actor by_owner target_position k =
     (if by_owner then k
      else ensure (target_position < get_highest_role_position db actor) (RoleAtOrAboveYours, db) k)"

definition require_member_hierarchy :: "access_db \<Rightarrow> public_key \<Rightarrow> bool \<Rightarrow> public_key \<Rightarrow> handled \<Rightarrow> handled" where
  "require_member_hierarchy db actor by_owner target k =
     (if by_owner then k
      else ensure (get_highest_role_position db target < get_highest_role_position db actor) (MemberAtOrAboveYou, db) k)"

text \<open>\<open>statement?\<close>: the error of a statement ends the request.\<close>

definition run_statement :: "access_db \<Rightarrow> access_error + 'a \<Rightarrow> ('a \<Rightarrow> handled) \<Rightarrow> handled" where
  "run_statement db r k = (case r of Inl e \<Rightarrow> Inl (e, db) | Inr x \<Rightarrow> k x)"

definition audit_emit :: "public_key \<Rightarrow> public_key option \<Rightarrow> string \<Rightarrow> access_db \<times> broadcast list \<Rightarrow> access_db \<times> broadcast list" where
  "audit_emit actor target action = (\<lambda>(db, events).
     (let row = \<lparr>au_actor = actor, au_target = target, au_action = action\<rparr>
      in (db\<lparr>ad_audit := ad_audit db @ [row]\<rparr>, events @ [(ToPermissionHolders MANAGE_SERVER, AuditEventCreated row)])))"

section \<open>The requests\<close>

datatype access_request =
    CreateRole string perms "nat option"
  | UpdateRole nat "string option" "perms option" "nat option"
  | DeleteRole nat
  | AssignRole public_key nat
  | RemoveRole public_key nat
  | KickMember public_key
  | BanMember public_key
  | UnbanMember public_key
  | TimeoutMember public_key nat
  | RemoveTimeout public_key
  | CreateChannel string channel_type "nat option" "nat option"
  | UpdateChannel nat channel_update
  | DeleteChannel nat
  | CreateCategory string "nat option"
  | UpdateCategory nat "string option" "nat option"
  | DeleteCategory nat
  | SetChannelOverride nat nat perms perms
  | SetCategoryOverride nat nat perms perms

definition MAX_TIMEOUT_MS :: nat where "MAX_TIMEOUT_MS = 28 * 24 * 60 * 60 * 1000"

fun handle_access :: "nat \<Rightarrow> access_db \<Rightarrow> public_key \<Rightarrow> bool \<Rightarrow> access_request \<Rightarrow> handled" where
  "handle_access now db member by_owner (CreateRole name permissions position) =
     require_base_perm db member by_owner MANAGE_ROLES
     (require_role_hierarchy db member by_owner (given position 0)
     (let (role_id, db1) = create_role db name permissions (given position 0) False
      in Inr (audit_emit member None ''role_created'' (db1, [(ToAll, RoleCreated role_id)]))))"
| "handle_access now db member by_owner (UpdateRole role_id name permissions position) =
     require_base_perm db member by_owner MANAGE_ROLES
     (or_fail (get_role db role_id) (RoleNotFound, db) (\<lambda>target_role.
      require_role_hierarchy db member by_owner (ro_position target_role)
     ((case position of None \<Rightarrow> id | Some new_pos \<Rightarrow> require_role_hierarchy db member by_owner new_pos)
     (let db1 = update_role db role_id name permissions position;
          out = (db1, [(ToAll, RoleUpdated role_id)])
      in Inr (case permissions of
                None \<Rightarrow> out
              | Some new_perms \<Rightarrow> if new_perms \<noteq> ro_permissions target_role
                                 then audit_emit member None ''role_perms_changed'' out else out)))))"
| "handle_access now db member by_owner (DeleteRole role_id) =
     require_base_perm db member by_owner MANAGE_ROLES
     (or_fail (get_role db role_id) (RoleNotFound, db) (\<lambda>target_role.
      require_role_hierarchy db member by_owner (ro_position target_role)
     (run_statement db (delete_role db role_id) (\<lambda>db1.
      Inr (audit_emit member None ''role_deleted'' (db1, [(ToAll, RoleDeleted role_id)]))))))"
| "handle_access now db member by_owner (AssignRole member_key role_id) =
     require_base_perm db member by_owner MANAGE_ROLES
     (or_fail (get_role db role_id) (RoleNotFound, db) (\<lambda>target_role.
      require_role_hierarchy db member by_owner (ro_position target_role)
     (run_statement db (assign_role db member_key role_id) (\<lambda>db1.
      Inr (audit_emit member (Some member_key) ''role_assigned'' (db1, [(ToAll, PermissionsChanged)]))))))"
| "handle_access now db member by_owner (RemoveRole member_key role_id) =
     require_base_perm db member by_owner MANAGE_ROLES
     (or_fail (get_role db role_id) (RoleNotFound, db) (\<lambda>target_role.
      require_role_hierarchy db member by_owner (ro_position target_role)
     (Inr (audit_emit member (Some member_key) ''role_removed''
        (unassign_role db member_key role_id, [(ToAll, PermissionsChanged)])))))"
| "handle_access now db member by_owner (KickMember member_key) =
     require_base_perm db member by_owner KICK_MEMBERS
     (require_member_hierarchy db member by_owner member_key
     (ensure (member_key \<notin> set (ad_system_keys db)) (CannotBeRemoved, db)
     (Inr (audit_emit member (Some member_key) ''kick''
        (remove_member db member_key, [(ToMembers [member_key], YouWereKicked), (ToAll, MemberLeft member_key)])))))"
| "handle_access now db member by_owner (BanMember member_key) =
     require_base_perm db member by_owner BAN_MEMBERS
     (require_member_hierarchy db member by_owner member_key
     (ensure (member_key \<notin> set (ad_system_keys db)) (CannotBeRemoved, db)
     (Inr (audit_emit member (Some member_key) ''ban''
        (ban_member db member_key, [(ToMembers [member_key], YouWereBanned), (ToAll, MemberBanned member_key)])))))"
| "handle_access now db member by_owner (UnbanMember member_key) =
     require_base_perm db member by_owner BAN_MEMBERS
     (Inr (audit_emit member (Some member_key) ''unban'' (unban_member db member_key, [(ToAll, MemberUnbanned member_key)])))"
| "handle_access now db member by_owner (TimeoutMember member_key until_ms) =
     require_base_perm db member by_owner TIMEOUT_MEMBERS
     (require_member_hierarchy db member by_owner member_key
     (ensure (now < until_ms \<and> until_ms \<le> now + MAX_TIMEOUT_MS) (TimeoutOutOfRange, db)
     (Inr (audit_emit member (Some member_key) ''timeout''
        (set_timeout db member_key until_ms, [(ToAll, MemberTimeoutChanged member_key (Some until_ms))])))))"
| "handle_access now db member by_owner (RemoveTimeout member_key) =
     require_base_perm db member by_owner TIMEOUT_MEMBERS
     (require_member_hierarchy db member by_owner member_key
     (Inr (audit_emit member (Some member_key) ''untimeout''
        (clear_timeout db member_key, [(ToAll, MemberTimeoutChanged member_key None)]))))"
| "handle_access now db member by_owner (CreateChannel name ty category_id position) =
     require_base_perm db member by_owner MANAGE_CHANNEL
     (run_statement db (create_channel db name ty category_id (given position 0)) (\<lambda>(channel_id, db1).
      Inr (audit_emit member None ''channel_created'' (db1, [(ToAll, ChannelCreated channel_id)]))))"
| "handle_access now db member by_owner (UpdateChannel channel_id u) =
     require_channel_perm db member by_owner channel_id MANAGE_CHANNEL
     (let prev_name = (case get_chan db channel_id of None \<Rightarrow> '''' | Some c \<Rightarrow> cn_name c)
      in run_statement db (update_channel db channel_id u) (\<lambda>db1.
         or_fail (get_chan db1 channel_id) (Panicked, db1) (\<lambda>_.
         (let out = (db1, [(ToAll, ChannelUpdated channel_id)])
          in Inr (case cu_name u of
                    None \<Rightarrow> out
                  | Some new_name \<Rightarrow> if new_name \<noteq> prev_name then audit_emit member None ''channel_renamed'' out else out)))))"
| "handle_access now db member by_owner (DeleteChannel channel_id) =
     require_channel_perm db member by_owner channel_id MANAGE_CHANNEL
     (Inr (audit_emit member None ''channel_deleted'' (soft_delete_channel db channel_id, [(ToAll, ChannelDeleted channel_id)])))"
| "handle_access now db member by_owner (CreateCategory name position) =
     require_base_perm db member by_owner MANAGE_SERVER
     (let (category_id, db1) = create_category db name (given position 0)
      in Inr (db1, [(ToAll, CategoryCreated category_id)]))"
| "handle_access now db member by_owner (UpdateCategory category_id name position) =
     require_base_perm db member by_owner MANAGE_SERVER
     (let db1 = update_category db category_id name position
      in or_fail (get_category db1 category_id) (Panicked, db1) (\<lambda>_. Inr (db1, [(ToAll, CategoryUpdated category_id)])))"
| "handle_access now db member by_owner (DeleteCategory category_id) =
     require_base_perm db member by_owner MANAGE_SERVER
     (Inr (delete_category db category_id, [(ToAll, CategoryDeleted category_id)]))"
| "handle_access now db member by_owner (SetChannelOverride channel_id role_id allow deny) =
     require_channel_perm db member by_owner channel_id MANAGE_CHANNEL
     (Inr (audit_emit member None ''channel_overrides_changed''
        (set_channel_override db channel_id role_id allow deny, [(ToAll, PermissionsChanged)])))"
| "handle_access now db member by_owner (SetCategoryOverride category_id role_id allow deny) =
     require_base_perm db member by_owner MANAGE_SERVER
     (Inr (set_category_override db category_id role_id allow deny, [(ToAll, PermissionsChanged)]))"

end
