(* ===== verification/AccessInv.thy ===== *)
theory AccessInv
  imports AccessHandlers
begin

text \<open>
  Lemmas on the access tables: what each statement leaves alone, the invariant of the role table,
  the rank of members, and what a request does to the database.
\<close>

section \<open>The outcome of a request\<close>

definition db_after :: "handled \<Rightarrow> access_db" where
  "db_after h = (case h of Inl (e, db) \<Rightarrow> db | Inr (db, events) \<Rightarrow> db)"

definition events_of :: "handled \<Rightarrow> broadcast list" where
  "events_of h = (case h of Inl _ \<Rightarrow> [] | Inr (db, events) \<Rightarrow> events)"

lemma outcome_simps [simp]: "db_after (Inl (e, db)) = db" "db_after (Inr (db, evs)) = db"
    "events_of (Inl x) = []" "events_of (Inr (db, evs)) = evs"
  by (simp_all add: db_after_def events_of_def)

definition audited :: "access_db \<Rightarrow> audit_row list \<Rightarrow> access_db" where
  "audited db rows = db\<lparr>ad_audit := rows\<rparr>"

lemma audit_emit_eq: "audit_emit a t act (db, evs) =
    (audited db (ad_audit db @ [\<lparr>au_actor = a, au_target = t, au_action = act\<rparr>]),
     evs @ [(ToPermissionHolders MANAGE_SERVER, AuditEventCreated \<lparr>au_actor = a, au_target = t, au_action = act\<rparr>)])"
  by (simp add: audit_emit_def audited_def Let_def)

text \<open>The audit log decides nothing.\<close>

lemma audited_tables [simp]:
  "ad_roles (audited db rows) = ad_roles db" "ad_member_roles (audited db rows) = ad_member_roles db"
  "ad_members (audited db rows) = ad_members db" "ad_channels (audited db rows) = ad_channels db"
  "ad_channel_overrides (audited db rows) = ad_channel_overrides db" "ad_category_overrides (audited db rows) = ad_category_overrides db"
  "ad_dm_participants (audited db rows) = ad_dm_participants db" "ad_next_role (audited db rows) = ad_next_role db"
  "audited db (ad_audit db) = db"
  by (simp_all add: audited_def)

lemma audited_queries [simp]:
  "get_member (audited db rows) = get_member db" "get_chan (audited db rows) = get_chan db"
  "get_member_role_ids (audited db rows) = get_member_role_ids db" "member_role_rows (audited db rows) = member_role_rows db"
  "get_highest_role_position (audited db rows) = get_highest_role_position db"
  "is_dm_participant (audited db rows) = is_dm_participant db" "everyone_permissions (audited db rows) = everyone_permissions db"
  "get_member_role_permissions (audited db rows) = get_member_role_permissions db"
  by (simp_all add: get_member_def get_chan_def member_role_rows_def get_member_role_ids_def is_dm_participant_def
      get_highest_role_position_def everyone_permissions_def get_member_role_permissions_def fun_eq_iff)

lemma audited_visible [simp]: "visible log (audited db rows) = visible log db"
  by (simp add: fun_eq_iff visible_def channel_visible_def resolve_member_perms_def cong: option.case_cong)

section \<open>The role table\<close>

definition access_ok :: "access_db \<Rightarrow> bool" where
  "access_ok db \<longleftrightarrow> distinct (map ro_id (ad_roles db)) \<and> (\<forall>r \<in> set (ad_roles db). ro_id r < ad_next_role db) \<and>
     (\<forall>pk i. (pk, i) \<in> set (ad_member_roles db) \<longrightarrow> i < ad_next_role db)"

lemma access_ok_audited [simp]: "access_ok (audited db rows) = access_ok db"
  by (simp add: access_ok_def)

lemma access_ok_frame:
  "ad_roles db' = ad_roles db \<Longrightarrow> ad_next_role db' = ad_next_role db \<Longrightarrow> set (ad_member_roles db') \<subseteq> set (ad_member_roles db) \<Longrightarrow>
    access_ok db \<Longrightarrow> access_ok db'"
  by (auto simp: access_ok_def)

lemma get_role_SomeD: "get_role db i = Some r \<Longrightarrow> r \<in> set (ad_roles db) \<and> ro_id r = i"
  unfolding get_role_def by (drule find_SomeD) simp

lemma statements_ok:
  assumes "access_ok db"
  shows "access_ok (snd (create_role db name p pos b))" "access_ok (update_role db i name' p' pos')"
    "delete_role db i = Inr d1 \<Longrightarrow> access_ok d1" "assign_role db pk i = Inr d2 \<Longrightarrow> access_ok d2"
    "access_ok (unassign_role db pk i)" "access_ok (remove_member db pk)"
    "access_ok (update_member db pk f)" "create_channel db n ty cat pos = Inr (c, d3) \<Longrightarrow> access_ok d3"
    "update_channel db c' u = Inr d4 \<Longrightarrow> access_ok d4" "access_ok (soft_delete_channel db c')"
    "access_ok (snd (create_category db n pos))" "access_ok (update_category db c' name' pos')" "access_ok (delete_category db c')"
    "access_ok (set_channel_override db c' i al de)" "access_ok (set_category_override db c' i al de)"
proof -
  show "access_ok (snd (create_role db name p pos b))"
    using assms by (fastforce simp: access_ok_def create_role_def)
  have ids: "map ro_id (map (\<lambda>r. if ro_id r = i then r\<lparr>ro_name := a r, ro_permissions := b r, ro_position := c r\<rparr> else r) rs) = map ro_id rs" for rs a b c
    by (induction rs) auto
  show "access_ok (update_role db i name' p' pos')"
    using assms by (simp add: access_ok_def update_role_def ids del: map_map) auto
  show "delete_role db i = Inr d1 \<Longrightarrow> access_ok d1"
    using assms by (auto simp: delete_role_def result_simps access_ok_def distinct_map_filter)
  show "assign_role db pk i = Inr d2 \<Longrightarrow> access_ok d2"
    using assms by (auto simp: assign_role_def result_simps access_ok_def split: if_splits dest!: get_role_SomeD)
  show "create_channel db n ty cat pos = Inr (c, d3) \<Longrightarrow> access_ok d3" "update_channel db c' u = Inr d4 \<Longrightarrow> access_ok d4"
    using assms by (auto simp: create_channel_def update_channel_def result_simps access_ok_def)
qed (use assms in \<open>auto simp: access_ok_def unassign_role_def remove_member_def update_member_def soft_delete_channel_def
    create_category_def update_category_def delete_category_def set_channel_override_def set_category_override_def\<close>)

section \<open>What a request does to the database\<close>

text \<open>
  The statement that a request has run when it did anything, with the guards of rank it has passed;
  an audit row may follow.
\<close>

fun effect :: "access_db \<Rightarrow> public_key \<Rightarrow> bool \<Rightarrow> access_request \<Rightarrow> access_db \<Rightarrow> bool" where
  "effect db m own (CreateRole name p pos) d \<longleftrightarrow>
     d = snd (create_role db name p (given pos 0) False) \<and> (\<not> own \<longrightarrow> given pos 0 < get_highest_role_position db m)"
| "effect db m own (UpdateRole i name p pos) d \<longleftrightarrow>
     d = update_role db i name p pos \<and> (\<exists>r. get_role db i = Some r \<and> (\<not> own \<longrightarrow> ro_position r < get_highest_role_position db m \<and>
       (\<forall>n. pos = Some n \<longrightarrow> n < get_highest_role_position db m)))"
| "effect db m own (DeleteRole i) d \<longleftrightarrow>
     delete_role db i = Inr d \<and> (\<exists>r. get_role db i = Some r \<and> (\<not> own \<longrightarrow> ro_position r < get_highest_role_position db m))"
| "effect db m own (AssignRole pk i) d \<longleftrightarrow>
     assign_role db pk i = Inr d \<and> (\<exists>r. get_role db i = Some r \<and> (\<not> own \<longrightarrow> ro_position r < get_highest_role_position db m))"
| "effect db m own (RemoveRole pk i) d \<longleftrightarrow>
     d = unassign_role db pk i \<and> (\<exists>r. get_role db i = Some r \<and> (\<not> own \<longrightarrow> ro_position r < get_highest_role_position db m))"
| "effect db m own (KickMember pk) d \<longleftrightarrow>
     d = remove_member db pk \<and> (\<not> own \<longrightarrow> get_highest_role_position db pk < get_highest_role_position db m)"
| "effect db m own (BanMember pk) d \<longleftrightarrow>
     d = ban_member db pk \<and> (\<not> own \<longrightarrow> get_highest_role_position db pk < get_highest_role_position db m)"
| "effect db m own (UnbanMember pk) d \<longleftrightarrow> d = unban_member db pk"
| "effect db m own (TimeoutMember pk t) d \<longleftrightarrow>
     d = set_timeout db pk t \<and> (\<not> own \<longrightarrow> get_highest_role_position db pk < get_highest_role_position db m)"
| "effect db m own (RemoveTimeout pk) d \<longleftrightarrow>
     d = clear_timeout db pk \<and> (\<not> own \<longrightarrow> get_highest_role_position db pk < get_highest_role_position db m)"
| "effect db m own (CreateChannel name ty cat pos) d \<longleftrightarrow> (\<exists>c. create_channel db name ty cat (given pos 0) = Inr (c, d))"
| "effect db m own (UpdateChannel c u) d \<longleftrightarrow> update_channel db c u = Inr d"
| "effect db m own (DeleteChannel c) d \<longleftrightarrow> d = soft_delete_channel db c"
| "effect db m own (CreateCategory name pos) d \<longleftrightarrow> d = snd (create_category db name (given pos 0))"
| "effect db m own (UpdateCategory c name pos) d \<longleftrightarrow> d = update_category db c name pos"
| "effect db m own (DeleteCategory c) d \<longleftrightarrow> d = delete_category db c"
| "effect db m own (SetChannelOverride c i al de) d \<longleftrightarrow> d = set_channel_override db c i al de"
| "effect db m own (SetCategoryOverride c i al de) d \<longleftrightarrow> d = set_category_override db c i al de"

lemmas guard_defs = require_base_perm_def require_channel_perm_def require_role_hierarchy_def
  require_member_hierarchy_def run_statement_def

lemma ensure_after: "db_after (ensure c (e, db) k) = (if c then db_after k else db)"
  and or_fail_after: "db_after (or_fail opt (e, db1) f) = (case opt of None \<Rightarrow> db1 | Some x \<Rightarrow> db_after (f x))"
  by (simp_all add: ensure_def or_fail_def split: option.split)

definition touched :: "access_db \<Rightarrow> public_key \<Rightarrow> bool \<Rightarrow> access_request \<Rightarrow> access_db \<Rightarrow> bool" where
  "touched db m own req x \<longleftrightarrow> (\<exists>d rows. x = audited d rows \<and> (d = db \<or> effect db m own req d))"

lemma touched_same [simp]: "touched db m own req db"
  unfolding touched_def by (metis audited_tables(9))

lemma touched_audited: "effect db m own req d \<Longrightarrow> touched db m own req (audited d rows)"
  unfolding touched_def by blast

lemma touched_plain: "effect db m own req d \<Longrightarrow> touched db m own req d"
  unfolding touched_def by (metis audited_tables(9))

lemma handle_access_touched: "touched db m own req (db_after (handle_access now db m own req))"
proof (cases req)
  case (UpdateRole i name p pos)
  show ?thesis unfolding UpdateRole
    by (auto simp: guard_defs ensure_after or_fail_after audit_emit_eq Let_def
        intro!: touched_audited intro: touched_plain split: option.split)
next
  case (UpdateChannel c u)
  show ?thesis unfolding UpdateChannel
    by (auto simp: guard_defs ensure_after or_fail_after audit_emit_eq Let_def
        intro!: touched_audited intro: touched_plain split: option.split sum.split)
next
  case (UpdateCategory c name pos)
  show ?thesis unfolding UpdateCategory
    by (auto simp: guard_defs ensure_after or_fail_after Let_def intro!: touched_plain split: option.split)
next
  case (CreateCategory name pos)
  show ?thesis unfolding CreateCategory
    by (auto simp: guard_defs ensure_after Let_def split_beta intro!: touched_plain)
next
  case (DeleteCategory c)
  show ?thesis unfolding DeleteCategory by (auto simp: guard_defs ensure_after intro!: touched_plain)
next
  case (SetCategoryOverride c i al de)
  show ?thesis unfolding SetCategoryOverride by (auto simp: guard_defs ensure_after intro!: touched_plain)
qed (auto simp: guard_defs ensure_after or_fail_after audit_emit_eq Let_def split_beta
      intro!: touched_audited split: option.split sum.split)

lemma handle_access_ok:
  assumes ok: "access_ok db" shows "access_ok (db_after (handle_access now db m own req))"
proof -
  from handle_access_touched [of db m own req now] obtain d rows where
    d: "db_after (handle_access now db m own req) = audited d rows" "d = db \<or> effect db m own req d"
    unfolding touched_def by blast
  from d(2) have "access_ok d"
    using statements_ok [OF ok] ok by (cases req) (auto simp: ban_member_def unban_member_def set_timeout_def clear_timeout_def)
  with d(1) show ?thesis by simp
qed

section \<open>Rank\<close>

definition role_positions :: "access_db \<Rightarrow> public_key \<Rightarrow> nat set" where
  "role_positions db pk = {ro_position r | r. r \<in> set (ad_roles db) \<and> (pk, ro_id r) \<in> set (ad_member_roles db)}"

lemma foldl_max: "n \<le> foldl max a ps \<longleftrightarrow> n \<le> (a :: nat) \<or> (\<exists>p \<in> set ps. n \<le> p)"
  by (induction ps arbitrary: a) auto

lemma highest_iff: "n \<le> get_highest_role_position db pk \<longleftrightarrow> n = 0 \<or> (\<exists>p \<in> role_positions db pk. n \<le> p)"
  unfolding get_highest_role_position_def foldl_max
  by (auto simp: role_positions_def member_role_rows_def get_member_role_ids_def)

lemma position_le_highest: "p \<in> role_positions db pk \<Longrightarrow> p \<le> get_highest_role_position db pk"
  using highest_iff [of p db pk] by auto

text \<open>The rank and the record of the members at or above a rank, and the roles there.\<close>

definition rank_view :: "nat \<Rightarrow> access_db \<Rightarrow> public_key \<Rightarrow> (nat \<times> member_row option) option" where
  "rank_view k db pk =
     (if k \<le> get_highest_role_position db pk then Some (get_highest_role_position db pk, get_member db pk) else None)"

definition senior_roles :: "nat \<Rightarrow> access_db \<Rightarrow> role_row list" where
  "senior_roles k db = filter (\<lambda>r. k \<le> ro_position r) (ad_roles db)"

lemma rank_view_eqI:
  assumes pos: "\<And>p. k \<le> p \<Longrightarrow> p \<in> role_positions d pk \<longleftrightarrow> p \<in> role_positions db pk"
    and mem: "k \<le> get_highest_role_position db pk \<Longrightarrow> get_member d pk = get_member db pk"
  shows "rank_view k d pk = rank_view k db pk"
proof -
  have same: "n \<le> get_highest_role_position d pk \<longleftrightarrow> n \<le> get_highest_role_position db pk" if "k \<le> n" for n
    unfolding highest_iff using pos that by (meson order_trans)
  then have "get_highest_role_position d pk = get_highest_role_position db pk" if "k \<le> get_highest_role_position db pk"
    using that by (meson order_antisym order_refl order_trans)
  with same [of k] mem show ?thesis by (auto simp: rank_view_def)
qed

lemma the_role:
  assumes "access_ok db" and "get_role db i = Some r" and "r' \<in> set (ad_roles db)" and "ro_id r' = i"
  shows "r' = r"
proof -
  from get_role_SomeD [OF assms(2)] have "r \<in> set (ad_roles db)" "ro_id r = i" by simp_all
  moreover have "inj_on ro_id (set (ad_roles db))" using assms(1) by (simp add: access_ok_def distinct_map)
  ultimately show ?thesis using assms(3,4) by (simp add: inj_on_def)
qed

lemma get_member_update: "pk' \<noteq> pk \<Longrightarrow> (\<And>m. mr_key (f m) = mr_key m) \<Longrightarrow> get_member (update_member db pk f) pk' = get_member db pk'"
proof -
  assume ne: "pk' \<noteq> pk" and key: "\<And>m. mr_key (f m) = mr_key m"
  have "find (\<lambda>m. mr_key m = pk') (map (\<lambda>m. if mr_key m = pk then f m else m) ms) = find (\<lambda>m. mr_key m = pk') ms" for ms
    using ne by (induction ms) (auto simp: key)
  then show ?thesis by (simp add: get_member_def update_member_def)
qed

lemma get_member_removed: "pk' \<noteq> pk \<Longrightarrow> get_member (remove_member db pk) pk' = get_member db pk'"
proof -
  assume "pk' \<noteq> pk"
  then have "find (\<lambda>m. mr_key m = pk') (filter (\<lambda>m. mr_key m \<noteq> pk) ms) = find (\<lambda>m. mr_key m = pk') ms" for ms
    by (induction ms) auto
  then show ?thesis by (simp add: get_member_def remove_member_def)
qed

lemma positions_frame [simp]:
  "role_positions (update_member db pk f) = role_positions db" "role_positions (soft_delete_channel db c) = role_positions db"
  "role_positions (snd (create_category db n pos)) = role_positions db" "role_positions (update_category db c n' pos') = role_positions db"
  "role_positions (delete_category db c) = role_positions db" "role_positions (set_channel_override db c i al de) = role_positions db"
  "role_positions (set_category_override db c i al de) = role_positions db"
  by (simp_all add: fun_eq_iff role_positions_def update_member_def soft_delete_channel_def create_category_def
      update_category_def delete_category_def set_channel_override_def set_category_override_def)

lemma member_frame [simp]:
  "get_member (snd (create_role db n p pos b)) = get_member db" "get_member (update_role db i n' p' pos') = get_member db"
  "get_member (unassign_role db pk i) = get_member db" "get_member (soft_delete_channel db c) = get_member db"
  "get_member (snd (create_category db n pos)) = get_member db" "get_member (update_category db c n' pos') = get_member db"
  "get_member (delete_category db c) = get_member db" "get_member (set_channel_override db c i al de) = get_member db"
  "get_member (set_category_override db c i al de) = get_member db"
  by (simp_all add: fun_eq_iff get_member_def create_role_def update_role_def unassign_role_def soft_delete_channel_def create_category_def
      update_category_def delete_category_def set_channel_override_def set_category_override_def)

text \<open>A request of somebody who is not the owner changes nothing at or above its rank.\<close>

lemma positions_role_statements:
  assumes ok: "access_ok db" and rank: "k \<le> p"
  shows "pos < k \<Longrightarrow> p \<in> role_positions (snd (create_role db n pr pos b)) pk \<longleftrightarrow> p \<in> role_positions db pk"
    and "get_role db i = Some r \<Longrightarrow> ro_position r < k \<Longrightarrow> (\<And>n. pos' = Some n \<Longrightarrow> n < k) \<Longrightarrow>
      p \<in> role_positions (update_role db i n' pr' pos') pk \<longleftrightarrow> p \<in> role_positions db pk"
    and "get_role db i = Some r \<Longrightarrow> ro_position r < k \<Longrightarrow> delete_role db i = Inr d1 \<Longrightarrow>
      p \<in> role_positions d1 pk \<longleftrightarrow> p \<in> role_positions db pk"
    and "get_role db i = Some r \<Longrightarrow> ro_position r < k \<Longrightarrow> assign_role db pk' i = Inr d2 \<Longrightarrow>
      p \<in> role_positions d2 pk \<longleftrightarrow> p \<in> role_positions db pk"
    and "get_role db i = Some r \<Longrightarrow> ro_position r < k \<Longrightarrow>
      p \<in> role_positions (unassign_role db pk' i) pk \<longleftrightarrow> p \<in> role_positions db pk"
proof -
  have low: "ro_position r' < k" if "get_role db i = Some r" "ro_position r < k" "r' \<in> set (ad_roles db)" "ro_id r' = i" for r'
    using the_role [OF ok that(1,3,4)] that(2) by simp
  show "pos < k \<Longrightarrow> p \<in> role_positions (snd (create_role db n pr pos b)) pk \<longleftrightarrow> p \<in> role_positions db pk"
    using rank by (auto simp: role_positions_def create_role_def)
  show "get_role db i = Some r \<Longrightarrow> ro_position r < k \<Longrightarrow> delete_role db i = Inr d1 \<Longrightarrow> p \<in> role_positions d1 pk \<longleftrightarrow> p \<in> role_positions db pk"
    using rank low by (fastforce simp: role_positions_def delete_role_def result_simps)
  show "get_role db i = Some r \<Longrightarrow> ro_position r < k \<Longrightarrow> assign_role db pk' i = Inr d2 \<Longrightarrow> p \<in> role_positions d2 pk \<longleftrightarrow> p \<in> role_positions db pk"
    using rank low by (fastforce simp: role_positions_def assign_role_def result_simps split: if_splits)
  show "get_role db i = Some r \<Longrightarrow> ro_position r < k \<Longrightarrow> p \<in> role_positions (unassign_role db pk' i) pk \<longleftrightarrow> p \<in> role_positions db pk"
    using rank low by (fastforce simp: role_positions_def unassign_role_def)
  show "p \<in> role_positions (update_role db i n' pr' pos') pk \<longleftrightarrow> p \<in> role_positions db pk"
    if g: "get_role db i = Some r" "ro_position r < k" and new: "\<And>n. pos' = Some n \<Longrightarrow> n < k"
  proof -
    have "given pos' (ro_position r') < k" if "r' \<in> set (ad_roles db)" "ro_id r' = i" for r'
      using low [OF g that] new by (cases pos') (auto simp: given_def)
    with low [OF g] rank show ?thesis
      by (fastforce simp: role_positions_def update_role_def image_iff split: if_splits)
  qed
qed

lemma senior_roles_statements:
  assumes ok: "access_ok db"
  shows "pos < k \<Longrightarrow> senior_roles k (snd (create_role db n pr pos b)) = senior_roles k db"
    and "get_role db i = Some r \<Longrightarrow> ro_position r < k \<Longrightarrow> (\<And>n. pos' = Some n \<Longrightarrow> n < k) \<Longrightarrow>
      senior_roles k (update_role db i n' pr' pos') = senior_roles k db"
    and "get_role db i = Some r \<Longrightarrow> ro_position r < k \<Longrightarrow> delete_role db i = Inr d1 \<Longrightarrow> senior_roles k d1 = senior_roles k db"
proof -
  have low: "ro_position r' < k" if "get_role db i = Some r" "ro_position r < k" "r' \<in> set (ad_roles db)" "ro_id r' = i" for r'
    using the_role [OF ok that(1,3,4)] that(2) by simp
  show "pos < k \<Longrightarrow> senior_roles k (snd (create_role db n pr pos b)) = senior_roles k db"
    by (simp add: senior_roles_def create_role_def)
  show "get_role db i = Some r \<Longrightarrow> ro_position r < k \<Longrightarrow> delete_role db i = Inr d1 \<Longrightarrow> senior_roles k d1 = senior_roles k db"
  proof -
    assume g: "get_role db i = Some r" "ro_position r < k" and d: "delete_role db i = Inr d1"
    have "ad_roles d1 = filter (\<lambda>r. ro_id r \<noteq> i) (ad_roles db)"
      using d by (auto simp: delete_role_def result_simps)
    moreover have "filter (\<lambda>r. k \<le> ro_position r) (filter (\<lambda>r. ro_id r \<noteq> i) (ad_roles db)) =
      filter (\<lambda>r. k \<le> ro_position r) (ad_roles db)"
      unfolding filter_filter using low [OF g] by (intro filter_cong refl) (metis not_le)
    ultimately show ?thesis by (simp add: senior_roles_def)
  qed
  show "senior_roles k (update_role db i n' pr' pos') = senior_roles k db"
    if g: "get_role db i = Some r" "ro_position r < k" and new: "\<And>n. pos' = Some n \<Longrightarrow> n < k"
  proof -
    have new': "\<not> k \<le> given pos' (ro_position r')" if "\<not> k \<le> ro_position r'" for r'
      using that new by (cases pos') (auto simp: given_def not_le)
    have "filter (\<lambda>r. k \<le> ro_position r) (map (\<lambda>r. if ro_id r = i
        then r\<lparr>ro_name := given n' (ro_name r), ro_permissions := given pr' (ro_permissions r), ro_position := given pos' (ro_position r)\<rparr>
        else r) rs) = filter (\<lambda>r. k \<le> ro_position r) rs" if "\<forall>r' \<in> set rs. ro_id r' = i \<longrightarrow> \<not> k \<le> ro_position r'" for rs
      using that by (induction rs) (auto simp: new')
    moreover have "\<forall>r' \<in> set (ad_roles db). ro_id r' = i \<longrightarrow> \<not> k \<le> ro_position r'"
      using low [OF g] by (auto simp: not_le)
    ultimately show ?thesis by (simp add: senior_roles_def update_role_def)
  qed
qed

end
