(* ===== verification/Handshake.thy ===== *)
theory Handshake
  imports AccessInv
begin

text \<open>
  Coming in: the handshake of \<open>connection.rs\<close> (\<open>authenticate\<close>), who is let in (\<open>auth.rs\<close>), the invites
  (\<open>invites.rs\<close>), how a server gets its owner, and how it finds it again at a restart (\<open>main.rs\<close>).

  Everything up to the registration of the member happens under the database lock (\<open>admit\<close>); the
  setup token is taken, and the owner written, afterwards, each under a lock of its own, so
  handshakes may interleave there (\<open>join_act\<close>).  The challenge is an argument; verifying its
  signature is third-party code (\<open>ed_verify\<close>).
\<close>

section \<open>Invites\<close>

record invite_row =
  in_code :: string
  in_max_uses :: "nat option"
  in_use_count :: nat
  in_expires_at :: "nat option"

datatype join_error =
    BadSignature | AlreadyOwned | BadSetupToken | InviteNotFound | InviteExpired | InviteUsedUp
  | NoCredential | NotAMember | MemberIsBanned | MemberIsRevoked | Internal access_error

definition create_invite :: "nat \<Rightarrow> string \<Rightarrow> nat option \<Rightarrow> nat option \<Rightarrow> invite_row list \<Rightarrow> join_error + invite_row list" where
  "create_invite now code max_uses expires_in_secs invites =
     ensure (\<not> list_ex (\<lambda>i. in_code i = code) invites) (Internal ConstraintFailed)
     (Inr (invites @ [\<lparr>in_code = code, in_max_uses = max_uses, in_use_count = 0,
                       in_expires_at = map_option (\<lambda>s. now + s) expires_in_secs\<rparr>]))"

definition validate_invite :: "nat \<Rightarrow> invite_row list \<Rightarrow> string \<Rightarrow> join_error + invite_row" where
  "validate_invite now invites code =
     or_fail (find (\<lambda>i. in_code i = code) invites) InviteNotFound (\<lambda>i.
     ensure (case in_expires_at i of None \<Rightarrow> True | Some exp \<Rightarrow> now < exp) InviteExpired
     (ensure (case in_max_uses i of None \<Rightarrow> True | Some max_uses \<Rightarrow> in_use_count i < max_uses) InviteUsedUp
     (Inr i)))"

definition use_invite :: "nat \<Rightarrow> invite_row list \<Rightarrow> string \<Rightarrow> join_error + invite_row list" where
  "use_invite now invites code =
     try_then (validate_invite now invites code) (\<lambda>_.
     Inr (map (\<lambda>i. if in_code i = code then i\<lparr>in_use_count := in_use_count i + 1\<rparr> else i) invites))"

section \<open>Registration\<close>

definition register_member :: "access_db \<Rightarrow> public_key \<Rightarrow> nat \<Rightarrow> access_error + access_db" where
  "register_member db pk now =
     ensure (get_member db pk = None) ConstraintFailed
     (Inr (db\<lparr>ad_members := ad_members db @ [\<lparr>mr_key = pk, mr_banned = False, mr_revoked = False,
                                             mr_timeout_until = None, mr_joined_at = now\<rparr>]\<rparr>))"

definition everyone_id :: "access_db \<Rightarrow> nat option" where
  "everyone_id db = map_option ro_id (find (\<lambda>r. ro_name r = ''@everyone'' \<and> ro_builtin r) (ad_roles db))"

definition enter :: "access_db \<Rightarrow> public_key \<Rightarrow> nat \<Rightarrow> access_error + access_db" where
  "enter db pk now =
     try_then (register_member db pk now) (\<lambda>db1.
     case everyone_id db1 of None \<Rightarrow> Inr db1 | Some eid \<Rightarrow> assign_role db1 pk eid)"

section \<open>Admission\<close>

text \<open>\<open>js_genesis_owner\<close>: the owner written into the genesis of the server's log, once there is one.\<close>

record join_server =
  js_db :: access_db
  js_invites :: "invite_row list"
  js_setup_token :: "bytes option"
  js_owner :: "public_key option"
  js_genesis_owner :: "public_key option"

datatype entry = Returning | ByToken | ByInvite string | FirstMember

text \<open>\<open>hex\<close> is the encoding of the crate \<open>hex\<close>, an argument of what uses it.\<close>

type_synonym hex_of = "bytes \<Rightarrow> string"

type_synonym admitted = "join_error + entry"

definition enter_server :: "nat \<Rightarrow> join_server \<Rightarrow> public_key \<Rightarrow> entry \<Rightarrow> admitted \<times> join_server" where
  "enter_server now sv pk how =
     (case enter (js_db sv) pk now of
        Inl e \<Rightarrow> (Inl (Internal e), sv)
      | Inr db \<Rightarrow> (Inr how, sv\<lparr>js_db := db\<rparr>))"

definition authenticate_new_member ::
    "hex_of \<Rightarrow> nat \<Rightarrow> join_server \<Rightarrow> public_key \<Rightarrow> string option \<Rightarrow> string option \<Rightarrow> admitted \<times> join_server" where
  "authenticate_new_member hex now sv pk invite_code setup_token_hex =
     (case setup_token_hex of
        Some provided_hex \<Rightarrow>
          (case js_setup_token sv of
             None \<Rightarrow> (Inl AlreadyOwned, sv)
           | Some token \<Rightarrow>
               if provided_hex \<noteq> hex token then (Inl BadSetupToken, sv)
               else enter_server now sv pk ByToken)
      | None \<Rightarrow>
          (case invite_code of
             Some code \<Rightarrow>
               (case use_invite now (js_invites sv) code of
                  Inl reason \<Rightarrow> (Inl reason, sv)
                | Inr invites \<Rightarrow> enter_server now (sv\<lparr>js_invites := invites\<rparr>) pk (ByInvite code))
           | None \<Rightarrow>
               if ad_members (js_db sv) = [] then enter_server now sv pk FirstMember
               else (Inl NoCredential, sv)))"

definition authenticate_existing_member :: "access_db \<Rightarrow> public_key \<Rightarrow> join_error + unit" where
  "authenticate_existing_member db pk =
     or_fail (get_member db pk) NotAMember (\<lambda>m.
     ensure (\<not> mr_banned m) MemberIsBanned
     (ensure (\<not> mr_revoked m) MemberIsRevoked (Inr ())))"

record auth_frame =
  af_key :: public_key
  af_signed_challenge :: bytes
  af_invite_code :: "string option"
  af_setup_token :: "string option"

definition admit :: "crypto \<Rightarrow> hex_of \<Rightarrow> bytes \<Rightarrow> nat \<Rightarrow> auth_frame \<Rightarrow> join_server \<Rightarrow> admitted \<times> join_server" where
  "admit cr hex nonce now f sv =
     (if \<not> ed_verify cr (af_key f) nonce (af_signed_challenge f) then (Inl BadSignature, sv)
      else (case get_member (js_db sv) (af_key f) of
              Some _ \<Rightarrow> (case authenticate_existing_member (js_db sv) (af_key f) of
                          Inl e \<Rightarrow> (Inl e, sv) | Inr _ \<Rightarrow> (Inr Returning, sv))
            | None \<Rightarrow> authenticate_new_member hex now sv (af_key f) (af_invite_code f) (af_setup_token f)))"

section \<open>The owner\<close>

text \<open>The first owner fixes the genesis; a later one replaces the owner alone.\<close>

definition become_owner :: "public_key \<Rightarrow> join_server \<Rightarrow> join_server" where
  "become_owner pk sv =
     sv\<lparr>js_owner := Some pk,
        js_genesis_owner := (case js_genesis_owner sv of None \<Rightarrow> Some pk | Some g \<Rightarrow> Some g)\<rparr>"

text \<open>\<open>ORDER BY joined_at ASC LIMIT 1\<close> over the members neither banned nor revoked.\<close>

definition earliest :: "member_row list \<Rightarrow> member_row option" where
  "earliest ms =
     foldl (\<lambda>best m. case best of None \<Rightarrow> Some m | Some b \<Rightarrow> if mr_joined_at m < mr_joined_at b then Some m else Some b) None
       (filter (\<lambda>m. \<not> mr_banned m \<and> \<not> mr_revoked m) ms)"

definition detect_owner :: "access_db \<Rightarrow> public_key option" where
  "detect_owner db = map_option mr_key (earliest (ad_members db))"

text \<open>
  A start with no member at all is a first run: it creates the role of everyone (the channels and
  roles of a template, \<open>templates.rs\<close>, are left out) and a new setup token.
\<close>

definition restart_server :: "bytes \<Rightarrow> join_server \<Rightarrow> join_server" where
  "restart_server token sv =
     (if ad_members (js_db sv) = []
      then sv\<lparr>js_db := snd (create_role (js_db sv) ''@everyone'' DEFAULT_EVERYONE 0 True),
              js_setup_token := Some token, js_owner := None\<rparr>
      else sv\<lparr>js_setup_token := None, js_owner := detect_owner (js_db sv)\<rparr>)"

section \<open>Handshakes side by side\<close>

text \<open>
  \<open>jn_claims\<close>: admitted with the token and about to take it; \<open>jn_heirs\<close>: about to be written as the
  owner; \<open>jn_granted\<close>: the keys that took the token, so far.
\<close>

record joining =
  jn_server :: join_server
  jn_claims :: "public_key list"
  jn_heirs :: "public_key list"
  jn_granted :: "public_key list"

datatype join_action =
    Admit bytes nat auth_frame
  | TakeToken nat
  | BecomeOwner nat
  | MakeInvite nat public_key string "nat option" "nat option"
  | Request nat public_key access_request

definition drop_at :: "nat \<Rightarrow> 'a list \<Rightarrow> 'a list" where
  "drop_at n xs = take n xs @ drop (Suc n) xs"

fun join_act :: "crypto \<Rightarrow> hex_of \<Rightarrow> join_action \<Rightarrow> joining \<Rightarrow> joining" where
  "join_act cr hex (Admit nonce now f) j =
     (case admit cr hex nonce now f (jn_server j) of
        (Inr ByToken, sv) \<Rightarrow> j\<lparr>jn_server := sv, jn_claims := jn_claims j @ [af_key f]\<rparr>
      | (Inr FirstMember, sv) \<Rightarrow> j\<lparr>jn_server := sv, jn_heirs := jn_heirs j @ [af_key f]\<rparr>
      | (_, sv) \<Rightarrow> j\<lparr>jn_server := sv\<rparr>)"
| "join_act cr hex (TakeToken n) j =
     (if n < length (jn_claims j)
      then (let pk = jn_claims j ! n; j1 = j\<lparr>jn_claims := drop_at n (jn_claims j)\<rparr>
            in case js_setup_token (jn_server j) of
                 None \<Rightarrow> j1
               | Some _ \<Rightarrow> j1\<lparr>jn_server := (jn_server j)\<lparr>js_setup_token := None\<rparr>,
                               jn_heirs := jn_heirs j @ [pk], jn_granted := jn_granted j @ [pk]\<rparr>)
      else j)"
| "join_act cr hex (BecomeOwner n) j =
     (if n < length (jn_heirs j)
      then j\<lparr>jn_server := become_owner (jn_heirs j ! n) (jn_server j), jn_heirs := drop_at n (jn_heirs j)\<rparr>
      else j)"
| "join_act cr hex (MakeInvite now m code max_uses expires_in) j =
     (let sv = jn_server j
      in if has (resolve_base_perms (js_db sv) m (js_owner sv = Some m)) CREATE_INVITES
         then (case create_invite now code max_uses expires_in (js_invites sv) of
                 Inl _ \<Rightarrow> j | Inr invites \<Rightarrow> j\<lparr>jn_server := sv\<lparr>js_invites := invites\<rparr>\<rparr>)
         else j)"
| "join_act cr hex (Request now m req) j =
     (let sv = jn_server j
      in j\<lparr>jn_server := sv\<lparr>js_db := db_after (handle_access now (js_db sv) m (js_owner sv = Some m) req)\<rparr>\<rparr>)"

definition run_joins :: "crypto \<Rightarrow> hex_of \<Rightarrow> join_action list \<Rightarrow> joining \<Rightarrow> joining" where
  "run_joins cr hex acts j = fold (join_act cr hex) acts j"

section \<open>Lemmas\<close>

lemma validate_invite_Inr: "validate_invite now invites code = Inr i \<Longrightarrow>
    i \<in> set invites \<and> in_code i = code \<and> (\<forall>x. in_expires_at i = Some x \<longrightarrow> now < x) \<and> (\<forall>x. in_max_uses i = Some x \<longrightarrow> in_use_count i < x)"
  by (auto simp: validate_invite_def result_simps dest: find_SomeD split: option.splits)

definition invites_ok :: "invite_row list \<Rightarrow> bool" where
  "invites_ok invites \<longleftrightarrow> distinct (map in_code invites) \<and>
     (\<forall>i \<in> set invites. case in_max_uses i of None \<Rightarrow> True | Some m \<Rightarrow> in_use_count i \<le> m)"

lemma the_invite: "invites_ok invites \<Longrightarrow> i \<in> set invites \<Longrightarrow> i' \<in> set invites \<Longrightarrow> in_code i = in_code i' \<Longrightarrow> i = i'"
  by (auto simp: invites_ok_def distinct_map inj_on_def)

lemma use_invite_ok:
  assumes ok: "invites_ok invites" and use: "use_invite now invites code = Inr invites'"
  shows "invites_ok invites'"
proof -
  from use obtain i where i: "validate_invite now invites code = Inr i"
    and new: "invites' = map (\<lambda>i. if in_code i = code then i\<lparr>in_use_count := in_use_count i + 1\<rparr> else i) invites"
    by (auto simp: use_invite_def result_simps)
  note i = validate_invite_Inr [OF i]
  have "map in_code invites' = map in_code invites" by (simp add: new)
  moreover have "case in_max_uses x of None \<Rightarrow> True | Some m \<Rightarrow> in_use_count x \<le> m" if x: "x \<in> set invites'" for x
  proof -
    from x obtain y where y: "y \<in> set invites" "x = (if in_code y = code then y\<lparr>in_use_count := in_use_count y + 1\<rparr> else y)"
      by (auto simp: new)
    show ?thesis
    proof (cases "in_code y = code")
      case True
      with i y(1) the_invite [OF ok] have "y = i" by metis
      with True y i show ?thesis by (auto split: option.split)
    next
      case False
      with y ok show ?thesis by (auto simp: invites_ok_def)
    qed
  qed
  ultimately show ?thesis using ok by (simp add: invites_ok_def)
qed

lemma create_invite_ok: "invites_ok invites \<Longrightarrow> create_invite now code m e invites = Inr invites' \<Longrightarrow> invites_ok invites'"
  by (fastforce simp: create_invite_def result_simps invites_ok_def list_ex_iff split: option.splits)

lemma admit_invites:
  "admit cr hex nonce now f sv = (r, sv') \<Longrightarrow> js_invites sv' = js_invites sv \<or>
    (\<exists>code. use_invite now (js_invites sv) code = Inr (js_invites sv') \<and> (r = Inr (ByInvite code) \<or> (\<exists>e. r = Inl e)))"
  unfolding admit_def authenticate_new_member_def enter_server_def
  by (auto split: if_splits option.splits sum.splits)

lemma find_append_new: "find P xs = None \<Longrightarrow> find P (xs @ ys) = find P ys"
  by (induction xs) (auto split: if_splits)

lemma get_member_registered: "register_member db pk now = Inr d \<Longrightarrow>
    get_member d pk = Some \<lparr>mr_key = pk, mr_banned = False, mr_revoked = False, mr_timeout_until = None, mr_joined_at = now\<rparr> \<and>
    ad_roles d = ad_roles db \<and> get_member db pk = None"
  by (auto simp: register_member_def result_simps get_member_def find_append_new)

lemma assign_keeps_members: "assign_role db t i = Inr d \<Longrightarrow> get_member d = get_member db"
  by (auto simp: assign_role_def result_simps get_member_def fun_eq_iff split: if_splits)

lemma enter_succeeds: "get_member db pk = None \<Longrightarrow> \<exists>d. enter db pk now = Inr d"
proof -
  assume new: "get_member db pk = None"
  then obtain d where d: "register_member db pk now = Inr d" by (simp add: register_member_def ensure_def)
  note reg = get_member_registered [OF d]
  have "\<exists>d'. assign_role d pk i = Inr d'" if e: "everyone_id d = Some i" for i
  proof -
    from e obtain r where "r \<in> set (ad_roles d)" "ro_id r = i" by (auto simp: everyone_id_def dest: find_SomeD)
    then have "get_role d i \<noteq> None" by (auto simp: get_role_def find_None_iff)
    with reg show ?thesis by (auto simp: assign_role_def ensure_def)
  qed
  with d show ?thesis by (auto simp: enter_def try_then_def split: option.split)
qed

lemma enter_Inr: "enter db pk now = Inr d \<Longrightarrow>
    get_member db pk = None \<and> get_member d pk = Some \<lparr>mr_key = pk, mr_banned = False, mr_revoked = False, mr_timeout_until = None, mr_joined_at = now\<rparr>"
  by (auto simp: enter_def result_simps dest!: get_member_registered assign_keeps_members split: option.splits)

end
