(* ===== verification/Subscriptions.thy ===== *)
theory Subscriptions
  imports AccessInv SubmitEvent LogFrame
begin

text \<open>
  Who is sent what: the live subscriptions of \<open>subscriptions.rs\<close>, the sessions, the negotiated
  protocol versions and the fan-out of \<open>connection.rs\<close>, run together with the requests of
  \<open>AccessHandlers\<close> and the submissions to the log.

  The database and the subscription map are behind locks that are taken one after the other, and
  the events of a request are announced after its response is written.  A run is therefore a list
  of the atomic steps of the connections: to handle a request, to announce the next event of one,
  to evaluate a \<open>Subscribe\<close> and to commit it.  Every interleaving of the connections is such a list.
\<close>

section \<open>State\<close>

text \<open>\<open>SERVER_PROTOCOL_VERSION\<close> and the version below which the sealed frames are withheld.\<close>

definition MIN_CLIENT_VERSION_FOR_E2EE :: nat where "MIN_CLIENT_VERSION_FOR_E2EE = 2"

text \<open>A registered client is its event sender, told apart by a number; a subscription a channel and a key.\<close>

record access_server =
  as_db :: access_db
  as_log :: "log_state option"
  as_owner :: "public_key option"
  as_subs :: "(nat \<times> public_key) list"
  as_clients :: "public_key \<rightharpoonup> nat"
  as_protocol :: "public_key \<rightharpoonup> nat"

type_synonym server_event = "access_event + server_notice"

datatype server_target = Access access_target | Notice event_target

definition may_see :: "access_server \<Rightarrow> public_key \<Rightarrow> nat \<Rightarrow> bool" where
  "may_see sv pk channel_id = visible (as_log sv) (as_db sv) pk (as_owner sv = Some pk) channel_id"

section \<open>Subscribing\<close>

definition allowed_ids :: "access_server \<Rightarrow> public_key \<Rightarrow> nat list \<Rightarrow> nat list" where
  "allowed_ids sv member channel_ids = filter (may_see sv member) channel_ids"

definition commit_subscription :: "access_server \<Rightarrow> public_key \<Rightarrow> nat list \<Rightarrow> access_server" where
  "commit_subscription sv member allowed =
     sv\<lparr>as_subs := filter (\<lambda>s. snd s \<noteq> member) (as_subs sv) @ map (\<lambda>c. (c, member)) allowed\<rparr>"

definition apply_subscribe :: "access_server \<Rightarrow> public_key \<Rightarrow> nat list \<Rightarrow> access_server" where
  "apply_subscribe sv member channel_ids = commit_subscription sv member (allowed_ids sv member channel_ids)"

fun event_changes_access :: "server_event \<Rightarrow> bool" where
  "event_changes_access (Inl PermissionsChanged) = True"
| "event_changes_access (Inl (RoleUpdated _)) = True"
| "event_changes_access (Inl (RoleDeleted _)) = True"
| "event_changes_access (Inl (ChannelUpdated _)) = True"
| "event_changes_access (Inl (ChannelDeleted _)) = True"
| "event_changes_access (Inl (MemberLeft _)) = True"
| "event_changes_access (Inl (MemberBanned _)) = True"
| "event_changes_access (Inl YouWereKicked) = True"
| "event_changes_access (Inl YouWereBanned) = True"
| "event_changes_access (Inr (MembershipChanged _)) = True"
| "event_changes_access _ = False"

definition revalidate :: "access_server \<Rightarrow> access_server" where
  "revalidate sv = sv\<lparr>as_subs := filter (\<lambda>s. may_see sv (snd s) (fst s)) (as_subs sv)\<rparr>"

section \<open>Fan-out\<close>

fun event_requires_v2 :: "server_event \<Rightarrow> bool" where
  "event_requires_v2 (Inr (SealedMessage _ _)) = True"
| "event_requires_v2 (Inr (SealedMessageEdited _ _)) = True"
| "event_requires_v2 (Inr (MessageTombstoned _ _)) = True"
| "event_requires_v2 (Inr (MlsControlEvent _ _ _)) = True"
| "event_requires_v2 (Inr (ChannelAnnouncedV2 _)) = True"
| "event_requires_v2 _ = False"

definition connection_protocol_version :: "access_server \<Rightarrow> public_key \<Rightarrow> nat" where
  "connection_protocol_version sv member = (case as_protocol sv member of None \<Rightarrow> 1 | Some v \<Rightarrow> v)"

definition may_receive :: "access_server \<Rightarrow> public_key \<Rightarrow> server_event \<Rightarrow> bool" where
  "may_receive sv pk event =
     (if \<not> event_requires_v2 event then True
      else MIN_CLIENT_VERSION_FOR_E2EE \<le> connection_protocol_version sv pk)"

definition targeted :: "access_server \<Rightarrow> server_target \<Rightarrow> public_key \<Rightarrow> bool" where
  "targeted sv target pk =
     (case target of
        Access ToAll \<Rightarrow> True
      | Access (ToMembers pks) \<Rightarrow> pk \<in> set pks
      | Access (ToPermissionHolders perm_bit) \<Rightarrow>
          has (resolve_member_server_perms (as_db sv) pk (as_owner sv = Some pk)) perm_bit
      | Notice AllClients \<Rightarrow> True
      | Notice (Subscribers channel_id) \<Rightarrow> (channel_id, pk) \<in> set (as_subs sv))"

text \<open>\<open>broadcast_event\<close>: the re-check first, then the clients the event is put on the queue of.\<close>

definition broadcast_event :: "access_server \<Rightarrow> server_target \<Rightarrow> server_event \<Rightarrow> access_server \<times> (public_key \<Rightarrow> bool)" where
  "broadcast_event sv target event =
     (let sv1 = (if event_changes_access event then revalidate sv else sv)
      in (sv1, \<lambda>pk. as_clients sv1 pk \<noteq> None \<and> targeted sv1 target pk \<and> may_receive sv1 pk event))"

section \<open>Sessions\<close>

definition register_client :: "access_server \<Rightarrow> public_key \<Rightarrow> nat \<Rightarrow> access_server" where
  "register_client sv pk sender = sv\<lparr>as_clients := (as_clients sv)(pk \<mapsto> sender)\<rparr>"

definition negotiate :: "access_server \<Rightarrow> public_key \<Rightarrow> nat \<Rightarrow> access_server" where
  "negotiate sv member client_version = sv\<lparr>as_protocol := (as_protocol sv)(member \<mapsto> client_version)\<rparr>"

definition cleanup_session :: "access_server \<Rightarrow> public_key \<Rightarrow> nat \<Rightarrow> access_server" where
  "cleanup_session sv pk sender =
     (let still_ours = (as_clients sv pk = Some sender);
          sv1 = (if still_ours
                 then sv\<lparr>as_clients := (as_clients sv)(pk := None), as_protocol := (as_protocol sv)(pk := None)\<rparr>
                 else sv)
      in sv1\<lparr>as_subs := filter (\<lambda>s. snd s \<noteq> pk) (as_subs sv1)\<rparr>)"

section \<open>Runs\<close>

type_synonym queued = "server_target \<times> server_event"

text \<open>\<open>sy_pending\<close>: the events each finished request has yet to announce; \<open>sy_looked\<close>: the \<open>Subscribe\<close>s
  evaluated and not committed.\<close>

record access_sys =
  sy_server :: access_server
  sy_pending :: "queued list list"
  sy_looked :: "(public_key \<times> nat list) list"

datatype access_action =
    Handle nat public_key access_request
  | Submit event
  | Announce nat
  | Look public_key "nat list"
  | Commit nat
  | Subscribe public_key "nat list"
  | ResponseFails nat
  | Connect public_key nat
  | Negotiate public_key nat
  | Disconnect public_key nat

definition access_queue :: "broadcast list \<Rightarrow> queued list" where
  "access_queue evs = map (\<lambda>(t, e). (Access t, Inl e)) evs"

definition notice_queue :: "(event_target \<times> server_notice) list \<Rightarrow> queued list" where
  "notice_queue ns = map (\<lambda>(t, n). (Notice t, Inr n)) ns"

definition on_server :: "(access_server \<Rightarrow> access_server) \<Rightarrow> access_sys \<Rightarrow> access_sys" where
  "on_server f sy = sy\<lparr>sy_server := f (sy_server sy)\<rparr>"

text \<open>
  \<open>Subscribe\<close> is \<open>Look\<close> and \<open>Commit\<close> with nothing between.  \<open>ResponseFails\<close>: the response to a
  finished request cannot be written, and the connection ends before the loop over its events.
  Of a submission, the fold and the membership notices are kept: the others change no access.
\<close>

fun act :: "crypto \<Rightarrow> access_action \<Rightarrow> access_sys \<Rightarrow> access_sys" where
  "act cr (Handle now m req) sy =
     (let sv = sy_server sy; h = handle_access now (as_db sv) m (as_owner sv = Some m) req
      in sy\<lparr>sy_server := sv\<lparr>as_db := db_after h\<rparr>, sy_pending := sy_pending sy @ [access_queue (events_of h)]\<rparr>)"
| "act cr (Submit e) sy =
     (let sv = sy_server sy
      in case Option.bind (as_log sv) (\<lambda>ls. case log_apply cr ls e of Inl _ \<Rightarrow> None | Inr ls' \<Rightarrow> Some ls') of
           None \<Rightarrow> sy
         | Some ls' \<Rightarrow> sy\<lparr>sy_server := sv\<lparr>as_log := Some ls'\<rparr>,
             sy_pending := sy_pending sy @ [notice_queue (membership_notices e)]\<rparr>)"
| "act cr (Announce n) sy =
     (if n < length (sy_pending sy)
      then (case sy_pending sy ! n of
              [] \<Rightarrow> sy
            | (t, e) # rest \<Rightarrow> sy\<lparr>sy_server := fst (broadcast_event (sy_server sy) t e),
                                sy_pending := (sy_pending sy)[n := rest]\<rparr>)
      else sy)"
| "act cr (Look m ids) sy =
     (if content_allowed (as_log (sy_server sy)) m
      then sy\<lparr>sy_looked := sy_looked sy @ [(m, allowed_ids (sy_server sy) m ids)]\<rparr> else sy)"
| "act cr (Commit n) sy =
     (if n < length (sy_looked sy)
      then (case sy_looked sy ! n of
              (m, allowed) \<Rightarrow> sy\<lparr>sy_server := commit_subscription (sy_server sy) m allowed,
                                sy_looked := take n (sy_looked sy) @ drop (Suc n) (sy_looked sy)\<rparr>)
      else sy)"
| "act cr (Subscribe m ids) sy =
     (if content_allowed (as_log (sy_server sy)) m then on_server (\<lambda>sv. apply_subscribe sv m ids) sy else sy)"
| "act cr (ResponseFails n) sy = (if n < length (sy_pending sy) then sy\<lparr>sy_pending := (sy_pending sy)[n := []]\<rparr> else sy)"
| "act cr (Connect m sender) sy = on_server (\<lambda>sv. register_client sv m sender) sy"
| "act cr (Negotiate m v) sy = on_server (\<lambda>sv. negotiate sv m v) sy"
| "act cr (Disconnect m sender) sy = on_server (\<lambda>sv. cleanup_session sv m sender) sy"

definition run_actions :: "crypto \<Rightarrow> access_action list \<Rightarrow> access_sys \<Rightarrow> access_sys" where
  "run_actions cr acts sy = fold (act cr) acts sy"

end
