(* ===== verification/SubscriptionInv.thy ===== *)
theory SubscriptionInv
  imports Subscriptions
begin

text \<open>
  Every change of access is announced: what the requests that announce nothing leave visible, the
  same for the submissions to the log, and the invariant of the runs.
\<close>

section \<open>Requests that announce no change of access\<close>

lemma visible_mono:
  assumes "visible log db pk own c"
    and "\<And>m. get_member db pk = Some m \<Longrightarrow> \<not> mr_banned m \<Longrightarrow> \<not> mr_revoked m \<Longrightarrow>
      \<exists>m'. get_member d pk = Some m' \<and> \<not> mr_banned m' \<and> \<not> mr_revoked m'"
    and "\<And>x. get_chan db c = Some x \<Longrightarrow> \<exists>y. get_chan d c = Some y \<and> cn_type y = cn_type x \<and> cn_category y = cn_category x"
    and "ad_dm_participants d = ad_dm_participants db" and "everyone_permissions d = everyone_permissions db"
    and "get_member_role_ids d pk = get_member_role_ids db pk"
    and "get_member_role_permissions d pk = get_member_role_permissions db pk"
    and "ad_channel_overrides d = ad_channel_overrides db" and "ad_category_overrides d = ad_category_overrides db"
  shows "visible log d pk own c"
proof -
  from assms(1) obtain x where x: "get_chan db c = Some x" by (auto simp: visible_def channel_visible_def split: option.splits)
  from assms(3) [OF this] obtain y where y: "get_chan d c = Some y" "cn_type y = cn_type x" "cn_category y = cn_category x" by blast
  have "resolve_member_perms d pk c own = resolve_member_perms db pk c own"
    by (simp add: resolve_member_perms_def x y assms(5-9) cong: option.case_cong)
  then show ?thesis
    using assms(1,2) x y by (auto simp: visible_def channel_visible_def is_dm_participant_def assms(4) split: option.splits)
qed

lemma find_append_Some: "find P xs = Some x \<Longrightarrow> find P (xs @ ys) = Some x"
  by (induction xs) auto

lemma find_append_not: "\<not> P x \<Longrightarrow> find P (xs @ [x]) = find P xs"
  by (induction xs) auto

lemma get_member_changed:
  assumes "get_member db pk' = Some m" and "\<And>m. mr_key (f m) = mr_key m"
  shows "get_member (update_member db pk f) pk' = Some (if pk' = pk then f m else m)"
proof -
  have "find (\<lambda>m. mr_key m = pk') (map (\<lambda>m. if mr_key m = pk then f m else m) ms) = Some (if pk' = pk then f m else m)"
    if "find (\<lambda>m. mr_key m = pk') ms = Some m" for ms
    using that by (induction ms) (auto simp: assms(2) split: if_splits)
  with assms(1) show ?thesis by (simp add: get_member_def update_member_def)
qed

lemma visible_update_member:
  assumes "visible log db pk own c" and "\<And>m. mr_key (f m) = mr_key m"
    and "\<And>m. mr_revoked (f m) = mr_revoked m" and "\<And>m. mr_banned (f m) \<Longrightarrow> mr_banned m"
  shows "visible log (update_member db pk' f) pk own c"
  using assms(1)
  by (rule visible_mono)
    (use get_member_changed [of db pk _ f pk'] assms(2-4) in \<open>auto simp: update_member_def get_chan_def everyone_permissions_def
      get_member_role_ids_def get_member_role_permissions_def member_role_rows_def\<close>)

lemma visible_create_role:
  assumes ok: "access_ok db" and vis: "visible log db pk own c"
  shows "visible log (snd (create_role db n p pos False)) pk own c"
proof -
  let ?d = "snd (create_role db n p pos False)"
  have "(pk, ad_next_role db) \<notin> set (ad_member_roles db)"
    using ok by (fastforce simp: access_ok_def)
  then have "member_role_rows ?d pk = member_role_rows db pk"
    by (auto simp: member_role_rows_def create_role_def get_member_role_ids_def intro!: arg_cong [where f = concat])
  moreover have "everyone_permissions ?d = everyone_permissions db"
    by (simp add: everyone_permissions_def create_role_def find_append_not)
  ultimately show ?thesis
    by (intro visible_mono [OF vis]) (auto simp: create_role_def get_member_def get_chan_def get_member_role_ids_def get_member_role_permissions_def)
qed

lemma channels_frame:
  "everyone_permissions (db\<lparr>ad_channels := cs, ad_next_channel := i\<rparr>) = everyone_permissions db"
  "get_member_role_ids (db\<lparr>ad_channels := cs, ad_next_channel := i\<rparr>) = get_member_role_ids db"
  "get_member_role_permissions (db\<lparr>ad_channels := cs, ad_next_channel := i\<rparr>) = get_member_role_permissions db"
  "everyone_permissions (db\<lparr>ad_channels := cs\<rparr>) = everyone_permissions db"
  "get_member_role_ids (db\<lparr>ad_channels := cs\<rparr>) = get_member_role_ids db"
  "get_member_role_permissions (db\<lparr>ad_channels := cs\<rparr>) = get_member_role_permissions db"
  by (simp_all add: everyone_permissions_def get_member_role_ids_def get_member_role_permissions_def member_role_rows_def fun_eq_iff)

lemma visible_create_channel:
  assumes vis: "visible log db pk own c" and "create_channel db n ty cat pos = Inr (i, d)"
  shows "visible log d pk own c"
proof -
  from assms(2) obtain new n' where d: "d = db\<lparr>ad_channels := ad_channels db @ new, ad_next_channel := n'\<rparr>"
    by (auto simp: create_channel_def result_simps)
  show ?thesis
    by (rule visible_mono [OF vis])
      (simp_all add: d get_member_def get_chan_def find_append_Some channels_frame)
qed

lemma visible_categories:
  "visible log db pk own c \<Longrightarrow> visible log (snd (create_category db n pos)) pk own c"
  "visible log db pk own c \<Longrightarrow> visible log (update_category db i n' pos') pk own c"
  by (erule visible_mono; simp add: create_category_def update_category_def get_member_def get_chan_def everyone_permissions_def
      get_member_role_ids_def get_member_role_permissions_def member_role_rows_def)+

text \<open>The update of a channel that fails its \<open>unwrap\<close> has written to rows nobody sees.\<close>

lemma get_chan_update:
  assumes "update_channel db i u = Inr d"
  shows "get_chan d i = None \<longleftrightarrow> get_chan db i = None" and "c \<noteq> i \<Longrightarrow> get_chan d c = get_chan db c"
proof -
  let ?f = "\<lambda>c. if cn_id c = i then c\<lparr>cn_name := given (cu_name u) (cn_name c),
               cn_topic := (case cu_topic u of None \<Rightarrow> cn_topic c | Some t \<Rightarrow> Some t),
               cn_nsfw := given (cu_nsfw u) (cn_nsfw c), cn_slow_mode := given (cu_slow_mode u) (cn_slow_mode c),
               cn_retention := given (cu_retention u) (cn_retention c),
               cn_category := given (cu_category u) (cn_category c), cn_position := given (cu_position u) (cn_position c)\<rparr> else c"
  have d: "ad_channels d = map ?f (ad_channels db)"
    using assms by (auto simp: update_channel_def result_simps)
  show "get_chan d i = None \<longleftrightarrow> get_chan db i = None"
  proof -
    have "find (\<lambda>x. cn_id x = i \<and> \<not> cn_deleted x) (map ?f cs) = None \<longleftrightarrow> find (\<lambda>x. cn_id x = i \<and> \<not> cn_deleted x) cs = None" for cs
      by (induction cs) auto
    then show ?thesis by (simp add: get_chan_def d)
  qed
  have "find (\<lambda>x. cn_id x = c \<and> \<not> cn_deleted x) (map ?f cs) = find (\<lambda>x. cn_id x = c \<and> \<not> cn_deleted x) cs" if "c \<noteq> i" for cs
    using that by (induction cs) auto
  then show "c \<noteq> i \<Longrightarrow> get_chan d c = get_chan db c" by (simp add: get_chan_def d)
qed

lemma visible_unseen_update:
  assumes vis: "visible log db pk own c" and up: "update_channel db i u = Inr d" and gone: "get_chan d i = None"
  shows "visible log d pk own c"
proof -
  from vis have "get_chan db c \<noteq> None" by (auto simp: visible_def channel_visible_def split: option.splits)
  with gone get_chan_update(1) [OF up] have "c \<noteq> i" by auto
  with get_chan_update(2) [OF up] have same: "get_chan d c = get_chan db c" by simp
  from up obtain cs where d: "d = db\<lparr>ad_channels := cs\<rparr>" unfolding update_channel_def result_simps by blast
  then have "get_member d = get_member db" by (simp add: get_member_def fun_eq_iff)
  with same show ?thesis
    by (intro visible_mono [OF vis]) (simp_all add: d channels_frame)
qed

lemmas quiet_statements = visible_create_role visible_create_channel visible_categories visible_unseen_update

definition announces :: "queued list \<Rightarrow> bool" where
  "announces q \<longleftrightarrow> (\<exists>te \<in> set q. event_changes_access (snd te))"

lemma announces_simps [simp]: "announces [] = False" "announces (q # qs) = (event_changes_access (snd q) \<or> announces qs)"
  "announces (q1 @ q2) = (announces q1 \<or> announces q2)"
  by (auto simp: announces_def)

lemma access_queue_simps [simp]: "access_queue [] = []" "access_queue ((t, e) # evs) = (Access t, Inl e) # access_queue evs"
  "access_queue (evs @ evs') = access_queue evs @ access_queue evs'"
  by (simp_all add: access_queue_def)

definition quiet :: "handled \<Rightarrow> access_db \<Rightarrow> bool" where
  "quiet h db \<longleftrightarrow> announces (access_queue (events_of h)) \<or>
     (\<forall>log pk own c. visible log db pk own c \<longrightarrow> visible log (db_after h) pk own c)"

lemma quiet_simps: "quiet (Inl (e, db)) db"
    "quiet (Inr (d, evs)) db \<longleftrightarrow> announces (access_queue evs) \<or> (\<forall>log pk own c. visible log db pk own c \<longrightarrow> visible log d pk own c)"
    "quiet (Inl (e, d)) db \<longleftrightarrow> (\<forall>log pk own c. visible log db pk own c \<longrightarrow> visible log d pk own c)"
  by (simp_all add: quiet_def)

lemma quiet_ensure: "(c \<Longrightarrow> quiet k db) \<Longrightarrow> quiet (ensure c (e, db) k) db"
  by (simp add: ensure_def quiet_simps)

lemma quiet_or_fail: "(\<And>x. opt = Some x \<Longrightarrow> quiet (f x) db) \<Longrightarrow> quiet (or_fail opt (e, db) f) db"
  by (simp add: or_fail_def quiet_simps split: option.split)

lemma quiet_run: "(\<And>x. r = Inr x \<Longrightarrow> quiet (f x) db) \<Longrightarrow> quiet (run_statement db r f) db"
  by (simp add: run_statement_def quiet_simps split: sum.split)

lemma quiet_rank: "quiet k db \<Longrightarrow> quiet (require_role_hierarchy db m own p k) db"
  "quiet k db \<Longrightarrow> quiet (require_member_hierarchy db m own t k) db"
  by (simp_all add: require_role_hierarchy_def require_member_hierarchy_def quiet_ensure)

lemma quiet_perm: "quiet k db \<Longrightarrow> quiet (require_base_perm db m own p k) db"
  "quiet k db \<Longrightarrow> quiet (require_channel_perm db m own c p k) db"
  by (simp_all add: require_base_perm_def require_channel_perm_def quiet_ensure)

lemmas quiet_intros = quiet_ensure quiet_or_fail quiet_run quiet_rank quiet_perm

lemma handle_access_quiet:
  assumes ok: "access_ok db" and req: "\<forall>i. req \<noteq> DeleteCategory i"
  shows "quiet (handle_access now db m own req) db"
proof (cases req)
  case (UpdateRole i name p pos)
  show ?thesis unfolding UpdateRole handle_access.simps
    by (intro quiet_intros) (auto simp: quiet_simps audit_emit_eq Let_def intro!: quiet_intros split: option.split)
next
  case (UpdateChannel i u)
  show ?thesis unfolding UpdateChannel handle_access.simps Let_def
    by (intro quiet_intros) (auto simp: quiet_simps audit_emit_eq or_fail_def intro: quiet_statements split: option.split)
next
  case (UpdateCategory i name pos)
  show ?thesis unfolding UpdateCategory handle_access.simps Let_def
    by (intro quiet_intros) (auto simp: quiet_simps or_fail_def intro: quiet_statements split: option.split)
next
  case (CreateCategory name pos)
  show ?thesis unfolding CreateCategory handle_access.simps Let_def
    by (intro quiet_intros) (auto simp: quiet_simps split_beta intro: quiet_statements)
next
  case (CreateRole name p pos)
  show ?thesis unfolding CreateRole handle_access.simps Let_def
    by (intro quiet_intros) (auto simp: quiet_simps split_beta audit_emit_eq intro: quiet_statements ok)
next
  case (CreateChannel name ty cat pos)
  show ?thesis unfolding CreateChannel handle_access.simps
    by (intro quiet_intros) (auto simp: quiet_simps split_beta audit_emit_eq intro: quiet_statements)
qed (use req in \<open>auto simp: quiet_simps audit_emit_eq unban_member_def set_timeout_def clear_timeout_def
      intro!: quiet_intros visible_update_member\<close>)

section \<open>Submissions that announce no change of membership\<close>

lemma membership_kept:
  assumes "log_apply cr ls e = Inr ls'" and "membership_notices e = []"
  shows "ls_members ls' = ls_members ls"
proof -
  from assms(1) obtain a k st1 where st: "ls' = envelope_accounting cr e st1"
      "(if a = Apply then apply_payload_effect cr e k ls else Inr ls) = Inr st1"
    by (auto simp: log_apply_def result_simps)
  from assms(2) st(2) effect_membership(1) [of cr e k ls st1] have "ls_members st1 = ls_members ls"
    by (auto simp: membership_notices_def split: if_splits event_payload.splits)
  with st(1) show ?thesis by simp
qed

lemma notices_announced: "membership_notices e \<noteq> [] \<Longrightarrow> announces (notice_queue (membership_notices e))"
  by (auto simp: membership_notices_def notice_queue_def announces_def split: event_payload.splits)

section \<open>The invariant of the runs\<close>

definition to_announce :: "access_sys \<Rightarrow> bool" where
  "to_announce sy \<longleftrightarrow> (\<exists>q \<in> set (sy_pending sy). announces q)"

definition subs_ok :: "access_server \<Rightarrow> bool" where
  "subs_ok sv \<longleftrightarrow> (\<forall>(c, pk) \<in> set (as_subs sv). may_see sv pk c)"

definition sys_ok :: "access_sys \<Rightarrow> bool" where
  "sys_ok sy \<longleftrightarrow> access_ok (as_db (sy_server sy)) \<and> (to_announce sy \<or> subs_ok (sy_server sy))"

fun orderly :: "access_action \<Rightarrow> bool" where
  "orderly (Handle _ _ (DeleteCategory _)) = False"
| "orderly (Look _ _) = False"
| "orderly (Commit _) = False"
| "orderly (ResponseFails _) = False"
| "orderly _ = True"

lemma may_see_frame [simp]:
  "may_see (sv\<lparr>as_subs := s\<rparr>) = may_see sv" "may_see (sv\<lparr>as_clients := cs\<rparr>) = may_see sv" "may_see (sv\<lparr>as_protocol := ps\<rparr>) = may_see sv"
  by (simp_all add: may_see_def fun_eq_iff)

lemma subs_ok_revalidate [simp]: "subs_ok (revalidate sv)"
  by (auto simp: subs_ok_def revalidate_def)

lemma subs_ok_subscribe: "subs_ok sv \<Longrightarrow> subs_ok (apply_subscribe sv m ids)"
  by (auto simp: subs_ok_def apply_subscribe_def commit_subscription_def allowed_ids_def)

lemma subs_ok_drop: "subs_ok sv \<Longrightarrow> subs_ok (sv\<lparr>as_subs := filter P (as_subs sv)\<rparr>)"
  by (auto simp: subs_ok_def)

lemma subs_ok_session:
  "subs_ok (sv\<lparr>as_clients := cs\<rparr>) = subs_ok sv" "subs_ok (sv\<lparr>as_protocol := ps\<rparr>) = subs_ok sv"
  by (simp_all add: subs_ok_def)

lemma subs_ok_cleanup: "subs_ok sv \<Longrightarrow> subs_ok (cleanup_session sv m s)"
  by (auto simp: cleanup_session_def Let_def subs_ok_def)

lemma db_frame [simp]: "as_db (apply_subscribe sv m ids) = as_db sv" "as_db (register_client sv m s) = as_db sv"
    "as_db (negotiate sv m v) = as_db sv" "as_db (cleanup_session sv m s) = as_db sv" "as_db (revalidate sv) = as_db sv"
    "as_db (fst (broadcast_event sv t e)) = as_db sv"
  by (simp_all add: apply_subscribe_def commit_subscription_def register_client_def negotiate_def cleanup_session_def revalidate_def
      broadcast_event_def Let_def)

lemma sys_ok_handle: "sys_ok sy \<Longrightarrow> orderly (Handle now m req) \<Longrightarrow> sys_ok (act cr (Handle now m req) sy)"
proof -
  let ?sv = "sy_server sy"
  let ?h = "handle_access now (as_db ?sv) m (as_owner ?sv = Some m) req"
  assume ok: "sys_ok sy" and o: "orderly (Handle now m req)"
  from o have "\<forall>i. req \<noteq> DeleteCategory i" by auto
  then have "quiet ?h (as_db ?sv)" using ok by (intro handle_access_quiet) (simp_all add: sys_ok_def)
  with ok show ?thesis
    by (auto simp: sys_ok_def to_announce_def quiet_def Let_def handle_access_ok subs_ok_def may_see_def)
qed

lemma sys_ok_submit: "sys_ok sy \<Longrightarrow> sys_ok (act cr (Submit e) sy)"
proof (cases "Option.bind (as_log (sy_server sy)) (\<lambda>ls. case log_apply cr ls e of Inl _ \<Rightarrow> None | Inr ls' \<Rightarrow> Some ls')")
  case (Some ls')
  assume ok: "sys_ok sy"
  from Some obtain ls where ls: "as_log (sy_server sy) = Some ls" "log_apply cr ls e = Inr ls'"
    by (cases "as_log (sy_server sy)") (auto split: sum.splits)
  show ?thesis
  proof (cases "membership_notices e = []")
    case True
    with ls(2) have "ls_members ls' = ls_members ls" by (rule membership_kept)
    with ok ls(1) Some show ?thesis
      by (auto simp: sys_ok_def to_announce_def Let_def subs_ok_def may_see_def visible_def content_allowed_def is_member_def)
  next
    case False
    with notices_announced ok Some show ?thesis by (auto simp: sys_ok_def to_announce_def Let_def)
  qed
qed simp

lemma sys_ok_announce: "sys_ok sy \<Longrightarrow> sys_ok (act cr (Announce n) sy)"
proof -
  assume ok: "sys_ok sy"
  show ?thesis
  proof (cases "n < length (sy_pending sy) \<and> sy_pending sy ! n \<noteq> []")
    case True
    then obtain t e rest where q: "sy_pending sy ! n = (t, e) # rest" by (metis neq_Nil_conv surj_pair)
    show ?thesis
    proof (cases "event_changes_access e")
      case True
      with ok q show ?thesis by (auto simp: sys_ok_def broadcast_event_def Let_def)
    next
      case False
      have "announces rest \<longleftrightarrow> announces (sy_pending sy ! n)" using False q by simp
      then have "(\<exists>q \<in> set ((sy_pending sy)[n := rest]). announces q) \<longleftrightarrow> (\<exists>q \<in> set (sy_pending sy). announces q)"
        using True by (metis (no_types, lifting) in_set_conv_nth length_list_update nth_list_update)
      with False ok q True show ?thesis by (auto simp: sys_ok_def to_announce_def broadcast_event_def Let_def)
    qed
  next
    case False
    with ok show ?thesis by (auto split: list.split)
  qed
qed

lemma sys_ok_act: "sys_ok sy \<Longrightarrow> orderly a \<Longrightarrow> sys_ok (act cr a sy)"
proof (cases a)
  case (Handle now m req)
  then show "sys_ok sy \<Longrightarrow> orderly a \<Longrightarrow> ?thesis" using sys_ok_handle by blast
next
  case (Submit e)
  then show "sys_ok sy \<Longrightarrow> orderly a \<Longrightarrow> ?thesis" using sys_ok_submit by blast
next
  case (Announce n)
  then show "sys_ok sy \<Longrightarrow> orderly a \<Longrightarrow> ?thesis" using sys_ok_announce by blast
qed (auto simp: sys_ok_def on_server_def to_announce_def subs_ok_subscribe subs_ok_cleanup register_client_def negotiate_def subs_ok_session)

lemma sys_ok_run: "sys_ok sy \<Longrightarrow> list_all orderly acts \<Longrightarrow> sys_ok (run_actions cr acts sy)"
  unfolding run_actions_def by (induction acts arbitrary: sy) (auto simp: sys_ok_act)

end
