(* ===== verification/AccessClaims.thy ===== *)
theory AccessClaims
  imports SubscriptionInv LogScenario
begin

text \<open>
  The properties of the access control of a server: how the bits of a member's permissions come
  about, what a request cannot reach above the rank of its author, and who is sent the events of a
  channel; with the runs that show where the code falls short of them.
\<close>

section \<open>The bits of a permission set\<close>

text \<open>One layer of overrides on a bit: any allow wins, else any deny, else the layer below.\<close>

definition layer_bit :: "perm_override list \<Rightarrow> nat \<Rightarrow> bool \<Rightarrow> bool" where
  "layer_bit ovs n below =
     (if \<exists>v \<in> set ovs. bit (po_allow v) n then True
      else if \<exists>v \<in> set ovs. bit (po_deny v) n then False else below)"

definition base_bit :: "resolution_context \<Rightarrow> nat \<Rightarrow> bool" where
  "base_bit ctx n = (bit (rc_everyone ctx) n \<or> (\<exists>p \<in> set (rc_roles ctx). bit p n))"

definition granted :: "resolution_context \<Rightarrow> nat \<Rightarrow> bool" where
  "granted ctx n = layer_bit (rc_channel ctx) n (layer_bit (rc_category ctx) n (base_bit ctx n))"

lemma bit_layer: "bit (apply_overrides ovs p) n = layer_bit ovs n (bit p n)"
proof (cases "n < 64")
  case True
  then show ?thesis by (auto simp: bit_apply_overrides layer_bit_def)
next
  case False
  then have none: "\<not> bit (w :: perms) n" for w using bit_imp_le_length [of w n] by auto
  show ?thesis by (simp add: none layer_bit_def)
qed

lemma bit_base: "bit (foldl (OR) (rc_everyone ctx) (rc_roles ctx)) n = base_bit ctx n"
  by (simp add: bit_or_all base_bit_def)

text \<open>C11: A bit of the permissions that \<open>resolve_perms\<close> computes is set exactly when the member is the
  owner or administrator and the bit is a known permission, or the layers grant it: the channel's
  overrides before the category's before the roles and \<open>@everyone\<close>, an allow before a deny within a
  layer.  Administrator is who has the bit from a role or from \<open>@everyone\<close>, which no override takes
  away, or is granted it by an override.\<close>

theorem permission_bits:
  "bit (resolve_perms ctx) n =
     (if rc_is_owner ctx \<or> base_bit ctx 12 \<or> granted ctx 12 then bit ALL_PERMISSIONS n else granted ctx n)"
proof (cases "rc_is_owner ctx")
  case True
  then show ?thesis by (simp add: resolve_perms_def)
next
  case False
  let ?base = "foldl (OR) (rc_everyone ctx) (rc_roles ctx)"
  let ?after = "apply_overrides (rc_channel ctx) (apply_overrides (rc_category ctx) ?base)"
  have after: "bit ?after k = granted ctx k" for k by (simp add: bit_layer granted_def bit_base)
  have "has (?after OR ADMIN) ADMIN" by (simp add: has_def bit.conj_disj_distrib2)
  with False show ?thesis
    by (simp add: resolve_perms_def Let_def bit_base has_ADMIN after)
qed

section \<open>Rank\<close>

lemma update_member_senior:
  assumes low: "get_highest_role_position db t < k" and key: "\<And>m. mr_key (f m) = mr_key m"
  shows "rank_view k (update_member db t f) pk = rank_view k db pk"
  using assms by (intro rank_view_eqI) (auto intro!: get_member_update)

lemma remove_member_senior:
  assumes low: "get_highest_role_position db t < k"
  shows "rank_view k (remove_member db t) pk = rank_view k db pk"
proof (rule rank_view_eqI)
  show "k \<le> get_highest_role_position db pk \<Longrightarrow> get_member (remove_member db t) pk = get_member db pk"
    using low by (intro get_member_removed) auto
  show "p \<in> role_positions (remove_member db t) pk \<longleftrightarrow> p \<in> role_positions db pk" if "k \<le> p" for p
  proof (cases "pk = t")
    case True
    with low that position_le_highest [of p db pk] have "p \<notin> role_positions db pk" by auto
    with True show ?thesis by (auto simp: role_positions_def remove_member_def)
  qed (auto simp: role_positions_def remove_member_def)
qed

lemma assign_get_member: "assign_role db t i = Inr d \<Longrightarrow> get_member d = get_member db"
  by (auto simp: assign_role_def result_simps get_member_def fun_eq_iff split: if_splits)

lemma delete_get_member: "delete_role db i = Inr d \<Longrightarrow> get_member d = get_member db"
  by (auto simp: delete_role_def result_simps get_member_def fun_eq_iff)

lemma channel_statements_rank:
  "create_channel db n ty cat pos = Inr (c, d) \<Longrightarrow> rank_view k d = rank_view k db \<and> senior_roles k d = senior_roles k db"
  "update_channel db c u = Inr d \<Longrightarrow> rank_view k d = rank_view k db \<and> senior_roles k d = senior_roles k db"
  unfolding create_channel_def update_channel_def
  by (auto simp: result_simps rank_view_def senior_roles_def get_member_def fun_eq_iff get_highest_role_position_def
      member_role_rows_def get_member_role_ids_def)

lemma assign_senior_roles: "assign_role db t i = Inr d \<Longrightarrow> senior_roles k d = senior_roles k db"
  by (auto simp: assign_role_def result_simps senior_roles_def split: if_splits)

lemma senior_frame [simp]:
  "senior_roles k (update_member db pk f) = senior_roles k db" "senior_roles k (remove_member db pk) = senior_roles k db"
  "senior_roles k (unassign_role db pk i) = senior_roles k db" "senior_roles k (soft_delete_channel db c) = senior_roles k db"
  "senior_roles k (snd (create_category db n pos)) = senior_roles k db" "senior_roles k (update_category db c n' pos') = senior_roles k db"
  "senior_roles k (delete_category db c) = senior_roles k db" "senior_roles k (set_channel_override db c i al de) = senior_roles k db"
  "senior_roles k (set_category_override db c i al de) = senior_roles k db"
  by (simp_all add: senior_roles_def update_member_def remove_member_def unassign_role_def soft_delete_channel_def create_category_def
      update_category_def delete_category_def set_channel_override_def set_category_override_def)

lemma rank_view_audited [simp]: "rank_view k (audited db rows) = rank_view k db" "senior_roles k (audited db rows) = senior_roles k db"
  by (simp_all add: rank_view_def senior_roles_def fun_eq_iff)

lemma effect_rank:
  assumes ok: "access_ok db" and eff: "effect db m False req d" and req: "\<forall>pk. req \<noteq> UnbanMember pk"
    and k: "k = get_highest_role_position db m"
  shows "rank_view k d pk = rank_view k db pk \<and> senior_roles k d = senior_roles k db"
proof (cases req)
  case (CreateRole n p pos)
  with eff k show ?thesis
    by (auto intro!: rank_view_eqI positions_role_statements(1) [OF ok] senior_roles_statements(1) [OF ok])
next
  case (UpdateRole i n p pos)
  with eff k obtain r where r: "get_role db i = Some r" "ro_position r < k" "\<And>n. pos = Some n \<Longrightarrow> n < k"
    and d: "d = update_role db i n p pos" by auto
  from r show ?thesis unfolding d
    by (intro conjI rank_view_eqI positions_role_statements(2) [OF ok] senior_roles_statements(2) [OF ok]) simp_all
next
  case (DeleteRole i)
  with eff k obtain r where r: "get_role db i = Some r" "ro_position r < k" "delete_role db i = Inr d" by auto
  then show ?thesis
    by (intro conjI rank_view_eqI positions_role_statements(3) [OF ok] senior_roles_statements(3) [OF ok])
      (simp_all add: delete_get_member)
next
  case (AssignRole t i)
  with eff k obtain r where r: "get_role db i = Some r" "ro_position r < k" "assign_role db t i = Inr d" by auto
  then show ?thesis
    by (intro conjI rank_view_eqI positions_role_statements(4) [OF ok]) (simp_all add: assign_get_member assign_senior_roles)
next
  case (RemoveRole t i)
  with eff k obtain r where r: "get_role db i = Some r" "ro_position r < k" "d = unassign_role db t i" by auto
  then show ?thesis
    by (intro conjI rank_view_eqI) (simp_all add: positions_role_statements(5) [OF ok])
next
  case (CreateChannel n ty cat pos)
  with eff show ?thesis by (auto dest!: channel_statements_rank(1) [where k = k])
next
  case (UpdateChannel c u)
  with eff show ?thesis by (auto dest!: channel_statements_rank(2) [where k = k])
qed (use eff req k in \<open>auto simp: ban_member_def set_timeout_def clear_timeout_def
      intro!: update_member_senior remove_member_senior intro: rank_view_eqI\<close>)


section \<open>A small server\<close>

definition ac_role :: "nat \<Rightarrow> string \<Rightarrow> perms \<Rightarrow> nat \<Rightarrow> bool \<Rightarrow> role_row" where
  "ac_role i n p pos b = \<lparr>ro_id = i, ro_name = n, ro_permissions = p, ro_position = pos, ro_builtin = b\<rparr>"

definition ac_member :: "public_key \<Rightarrow> member_row" where
  "ac_member pk = \<lparr>mr_key = pk, mr_banned = False, mr_revoked = False, mr_timeout_until = None, mr_joined_at = 0\<rparr>"

definition ac_owner :: public_key where "ac_owner = PublicKey [1]"
definition ac_mod :: public_key where "ac_mod = PublicKey [2]"
definition ac_user :: public_key where "ac_user = PublicKey [3]"

text \<open>A moderator who may manage roles and ban, one channel, in a category that hides it from the moderators.\<close>

definition ac_db :: access_db where
  "ac_db = \<lparr>ad_roles = [ac_role 1 ''@everyone'' VIEW_CHANNEL 0 True,
                        ac_role 2 ''mod'' (MANAGE_ROLES OR BAN_MEMBERS OR KICK_MEMBERS) 3 False],
     ad_member_roles = [(ac_mod, 2)], ad_members = [ac_member ac_owner, ac_member ac_mod, ac_member ac_user],
     ad_channels = [\<lparr>cn_id = 7, cn_name = ''general'', cn_type = Text, cn_category = Some 5, cn_position = 0, cn_topic = None,
                     cn_nsfw = False, cn_slow_mode = 0, cn_retention = None, cn_deleted = False\<rparr>],
     ad_categories = [\<lparr>ct_id = 5, ct_name = ''staff'', ct_position = 0, ct_deleted = False\<rparr>],
     ad_channel_overrides = [], ad_category_overrides = [], ad_dm_participants = [], ad_system_keys = [], ad_audit = [],
     ad_next_role = 3, ad_next_channel = 8, ad_next_category = 6\<rparr>"

lemma ac_keys [simp]: "ac_owner \<noteq> ac_mod" "ac_mod \<noteq> ac_owner" "ac_owner \<noteq> ac_user" "ac_user \<noteq> ac_owner" "ac_mod \<noteq> ac_user" "ac_user \<noteq> ac_mod"
  by (simp_all add: ac_owner_def ac_mod_def ac_user_def)

lemma ac_db_ok: "access_ok ac_db"
  by (auto simp: access_ok_def ac_db_def ac_role_def)

lemma ac_rank: "get_highest_role_position ac_db ac_mod = 3"
  by (simp add: get_highest_role_position_def member_role_rows_def get_member_role_ids_def ac_db_def ac_role_def)


definition ac_sys :: access_sys where
  "ac_sys = \<lparr>sy_server = \<lparr>as_db = ac_db, as_log = None, as_owner = Some ac_owner, as_subs = [], as_clients = Map.empty, as_protocol = Map.empty\<rparr>,
     sy_pending = [], sy_looked = []\<rparr>"

section \<open>Who is sent the events of a channel\<close>


text \<open>The user and the moderator read the channel; the user is kicked and the kick announced.\<close>

definition ac_run :: access_sys where
  "ac_run = run_actions toy_crypto
     [Connect ac_user 1, Connect ac_mod 2, Subscribe ac_user [7], Subscribe ac_mod [7, 8],
      Handle 0 ac_mod (KickMember ac_user), Announce 0, Announce 0, Announce 0] ac_sys"

lemma ac_run_quiet: "\<not> to_announce ac_run"
  by code_simp

lemma ac_run_delivers: "snd (broadcast_event (sy_server ac_run) (Notice (Subscribers 7)) (Inr (NewMessage 1))) ac_mod"
  by code_simp


section \<open>Where the code falls short\<close>

text \<open>
  A \<open>Subscribe\<close> evaluated before a kick and committed after its announcement: the kicked member stays
  subscribed, and no event is left to re-check it.
\<close>

definition ac_race :: access_sys where
  "ac_race = run_actions toy_crypto
     [Connect ac_user 1, Look ac_user [7], Handle 0 ac_mod (KickMember ac_user), Announce 0, Announce 0, Announce 0, Commit 0] ac_sys"

lemma racing_subscribe_outlives_a_kick:
  "\<not> to_announce ac_race \<and> (7, ac_user) \<in> set (as_subs (sy_server ac_race)) \<and> \<not> may_see (sy_server ac_race) ac_user 7 \<and>
   snd (broadcast_event (sy_server ac_race) (Notice (Subscribers 7)) (Inr (NewMessage 1))) ac_user"
  by code_simp

text \<open>The same when the response to the kick cannot be written: the announcement is lost with it.\<close>

definition ac_lost :: access_sys where
  "ac_lost = run_actions toy_crypto
     [Connect ac_user 1, Subscribe ac_user [7], Handle 0 ac_mod (KickMember ac_user), ResponseFails 0] ac_sys"

lemma lost_response_loses_the_revocation:
  "\<not> to_announce ac_lost \<and> (7, ac_user) \<in> set (as_subs (sy_server ac_lost)) \<and> \<not> may_see (sy_server ac_lost) ac_user 7"
  by code_simp

text \<open>A channel of a category whose override grants the view: deleting the category takes the view away,
  and \<open>CategoryDeleted\<close> is not an event that makes the server look.\<close>

definition ac_category :: access_sys where
  "ac_category = run_actions toy_crypto
     [Handle 0 ac_owner (UpdateRole 1 None (Some 0) None), Announce 0, Handle 0 ac_owner (SetCategoryOverride 5 2 VIEW_CHANNEL 0),
      Announce 1, Connect ac_mod 1, Subscribe ac_mod [7], Handle 0 ac_owner (DeleteCategory 5), Announce 2] ac_sys"

lemma deleted_category_leaves_subscribers:
  "\<not> to_announce ac_category \<and> (7, ac_mod) \<in> set (as_subs (sy_server ac_category)) \<and> \<not> may_see (sy_server ac_category) ac_mod 7"
  by code_simp

text \<open>
  A reconnect that takes over: the clean-up of the superseded session spares the new one's client entry
  and version, but removes its subscriptions; and the new connection inherits the version that the old
  one negotiated.
\<close>

lemma stale_cleanup_unsubscribes_the_new_session:
  assumes "as_clients sv pk = Some new" and "old \<noteq> new"
  shows "as_clients (cleanup_session sv pk old) pk = Some new" and "(c, pk) \<notin> set (as_subs (cleanup_session sv pk old))"
  using assms by (simp_all add: cleanup_session_def)

lemma takeover_inherits_the_version:
  "connection_protocol_version (cleanup_session (register_client (negotiate sv pk v) pk new) pk old) pk = v" if "old \<noteq> new"
  using that by (simp add: cleanup_session_def register_client_def negotiate_def connection_protocol_version_def)

text \<open>Who may manage roles makes itself administrator: the guard asks for the rank of the role alone.\<close>

definition ac_raised :: access_db where
  "ac_raised = db_after (handle_access 0 (db_after (handle_access 0 ac_db ac_mod False (CreateRole ''x'' ADMIN None)))
     ac_mod False (AssignRole ac_mod 3))"

lemma role_manager_becomes_administrator:
  "resolve_member_server_perms ac_db ac_mod False \<noteq> ALL_PERMISSIONS \<and> resolve_member_server_perms ac_raised ac_mod False = ALL_PERMISSIONS"
  by code_simp

text \<open>
  The server-wide guards read the roles without the expansion of \<open>ADMIN\<close> that the resolver makes: an
  administrator is told that the permission is missing.
\<close>

lemma administrator_is_refused:
  assumes "resolve_base_perms db m False = ADMIN"
  shows "resolve_member_server_perms db m False = ALL_PERMISSIONS"
    and "handle_access now db m False (BanMember t) = Inl (MissingPermission BAN_MEMBERS, db)"
proof -
  have "apply_overrides [] p = p" for p by (simp add: apply_overrides_def or_all_def)
  with assms show "resolve_member_server_perms db m False = ALL_PERMISSIONS"
    by (simp add: resolve_member_server_perms_def resolve_base_perms_def resolve_perms_def has_def)
  have "\<not> has ADMIN BAN_MEMBERS" by code_simp
  with assms show "handle_access now db m False (BanMember t) = Inl (MissingPermission BAN_MEMBERS, db)"
    by (simp add: require_base_perm_def ensure_def)
qed

text \<open>A kick deletes the row that holds the ban.\<close>

lemma kick_forgets_the_ban: "get_member (remove_member db pk) pk = None"
  by (auto simp: get_member_def remove_member_def find_None_iff)

text \<open>The update of a channel that is not there panics while the database is locked.\<close>

lemma update_of_missing_channel_panics:
  assumes "get_chan db c = None" and "has (resolve_member_perms db m c own) MANAGE_CHANNEL" and "cu_category u = None"
  shows "\<exists>d. handle_access now db m own (UpdateChannel c u) = Inl (Panicked, d)"
proof -
  from assms(3) obtain d where d: "update_channel db c u = Inr d" by (simp add: update_channel_def ensure_def)
  with assms(1) have "get_chan d c = None" using get_chan_update(1) by blast
  with d assms(2) show ?thesis
    by (simp add: require_channel_perm_def ensure_def run_statement_def or_fail_def Let_def)
qed

end
