(* ===== verification/AdmissionClaims.thy ===== *)
theory AdmissionClaims
  imports Handshake AccessClaims
begin

text \<open>
  The properties of the handshake: who is let in, how often an invite and the setup token count,
  with the runs in which a server ends up with an owner it should not have.
\<close>

section \<open>Who is let in\<close>

lemma rejection_changes_nothing: "admit cr hex nonce now f sv = (Inl e, sv') \<Longrightarrow> sv' = sv"
proof (cases "get_member (js_db sv) (af_key f)")
  case None
  assume ad: "admit cr hex nonce now f sv = (Inl e, sv')"
  from enter_succeeds [OF None] obtain d where "enter (js_db sv) (af_key f) now = Inr d" by blast
  with ad None show ?thesis
    by (auto simp: admit_def authenticate_new_member_def enter_server_def split: if_splits option.splits sum.splits)
qed (auto simp: admit_def split: if_splits sum.splits)

definition in_good_standing :: "access_db \<Rightarrow> public_key \<Rightarrow> bool" where
  "in_good_standing db pk \<longleftrightarrow> (case get_member db pk of None \<Rightarrow> False | Some m \<Rightarrow> \<not> mr_banned m \<and> \<not> mr_revoked m)"

definition entitled :: "hex_of \<Rightarrow> nat \<Rightarrow> auth_frame \<Rightarrow> join_server \<Rightarrow> entry \<Rightarrow> bool" where
  "entitled hex now f sv how =
     (case how of
        Returning \<Rightarrow> in_good_standing (js_db sv) (af_key f)
      | ByToken \<Rightarrow> get_member (js_db sv) (af_key f) = None \<and>
          (case js_setup_token sv of None \<Rightarrow> False | Some t \<Rightarrow> af_setup_token f = Some (hex t))
      | ByInvite code \<Rightarrow> get_member (js_db sv) (af_key f) = None \<and> af_invite_code f = Some code \<and>
          (case validate_invite now (js_invites sv) code of Inl _ \<Rightarrow> False | Inr _ \<Rightarrow> True)
      | FirstMember \<Rightarrow> ad_members (js_db sv) = [])"

text \<open>C20: Who passes the handshake has signed the challenge, is afterwards a member neither banned nor
  revoked, and was entitled to: a member in good standing already, or a newcomer with the active
  setup token, with a valid invite, or the first member of an empty server.  A returning member
  changes nothing, and neither does anybody who is turned away.\<close>

theorem admission_is_earned:
  "case admit cr hex nonce now f sv of
     (Inl e, sv') \<Rightarrow> sv' = sv
   | (Inr how, sv') \<Rightarrow> ed_verify cr (af_key f) nonce (af_signed_challenge f) \<and> entitled hex now f sv how \<and>
       in_good_standing (js_db sv') (af_key f) \<and> (if how = Returning then sv' = sv else True)"
proof (cases "ed_verify cr (af_key f) nonce (af_signed_challenge f)")
  case signed: True
  show ?thesis
  proof (cases "get_member (js_db sv) (af_key f)")
    case (Some m)
    with signed show ?thesis
      by (auto simp: admit_def authenticate_existing_member_def ensure_def or_fail_def entitled_def in_good_standing_def)
  next
    case None
    from enter_succeeds [OF None] obtain d where d: "enter (js_db sv) (af_key f) now = Inr d" by blast
    note member = enter_Inr [OF this]
    from signed None d member show ?thesis
      by (auto simp: admit_def authenticate_new_member_def enter_server_def entitled_def in_good_standing_def use_invite_def
          result_simps try_then_def split: option.split sum.split)
  qed
qed (simp add: admit_def)

section \<open>How often an invite counts\<close>

fun admissions :: "crypto \<Rightarrow> hex_of \<Rightarrow> join_action list \<Rightarrow> joining \<Rightarrow> entry list" where
  "admissions cr hex [] j = []"
| "admissions cr hex (a # acts) j =
     (case a of
        Admit nonce now f \<Rightarrow> (case fst (admit cr hex nonce now f (jn_server j)) of Inl _ \<Rightarrow> [] | Inr how \<Rightarrow> [how])
      | _ \<Rightarrow> []) @ admissions cr hex acts (join_act cr hex a j)"

lemma admit_spends:
  assumes ok: "invites_ok (js_invites sv)" and i: "i \<in> set (js_invites sv)" "in_max_uses i = Some m"
    and ad: "admit cr hex nonce now f sv = (r, sv')"
  shows "invites_ok (js_invites sv') \<and> (\<exists>i' \<in> set (js_invites sv'). in_code i' = in_code i \<and> in_max_uses i' = Some m \<and>
     in_use_count i' = in_use_count i + (if r = Inr (ByInvite (in_code i)) then 1 else 0))"
proof (cases r)
  case (Inl e)
  with rejection_changes_nothing [OF ad [unfolded Inl]] ok i show ?thesis by auto
next
  case (Inr how)
  show ?thesis
  proof (cases "\<exists>code. how = ByInvite code")
    case True
    then obtain code where code: "how = ByInvite code" by blast
    with ad Inr have use: "use_invite now (js_invites sv) code = Inr (js_invites sv')"
      by (auto simp: admit_def authenticate_new_member_def enter_server_def split: if_splits option.splits sum.splits)
    then have "js_invites sv' = map (\<lambda>i. if in_code i = code then i\<lparr>in_use_count := in_use_count i + 1\<rparr> else i) (js_invites sv)"
      by (auto simp: use_invite_def result_simps)
    with i have "(if in_code i = code then i\<lparr>in_use_count := in_use_count i + 1\<rparr> else i) \<in> set (js_invites sv')" by auto
    with use_invite_ok [OF ok use] i(2) Inr code show ?thesis
      by (intro conjI bexI [of _ "if in_code i = code then i\<lparr>in_use_count := in_use_count i + 1\<rparr> else i"]) auto
  next
    case False
    with ad Inr have "js_invites sv' = js_invites sv"
      by (auto simp: admit_def authenticate_new_member_def enter_server_def split: if_splits option.splits sum.splits)
    with ok i False Inr show ?thesis by auto
  qed
qed

lemma join_act_spends:
  assumes ok: "invites_ok (js_invites (jn_server j))" and i: "i \<in> set (js_invites (jn_server j))" "in_max_uses i = Some m"
  shows "invites_ok (js_invites (jn_server (join_act cr hex a j))) \<and>
    (\<exists>i' \<in> set (js_invites (jn_server (join_act cr hex a j))). in_code i' = in_code i \<and> in_max_uses i' = Some m \<and>
      in_use_count i' = in_use_count i + length (filter (\<lambda>h. h = ByInvite (in_code i)) (admissions cr hex [a] j)))"
proof (cases a)
  case (Admit nonce now f)
  obtain r sv where ad: "admit cr hex nonce now f (jn_server j) = (r, sv)" by (meson surj_pair)
  have "jn_server (join_act cr hex a j) = sv" using Admit ad by (auto split: sum.split entry.split)
  with admit_spends [OF ok i ad] Admit ad show ?thesis by (auto split: sum.split)
next
  case (MakeInvite now k code mu ex)
  with ok i create_invite_ok [of "js_invites (jn_server j)" now code mu ex] show ?thesis
    by (auto simp: Let_def create_invite_def result_simps split: sum.splits)
qed (use ok i in \<open>auto simp: Let_def become_owner_def split: option.split\<close>)

lemma admissions_spend:
  assumes "invites_ok (js_invites (jn_server j))" and "i \<in> set (js_invites (jn_server j))" "in_max_uses i = Some m"
  shows "in_use_count i + length (filter (\<lambda>h. h = ByInvite (in_code i)) (admissions cr hex acts j)) \<le> m"
  using assms
proof (induction acts arbitrary: i j)
  case Nil
  then show ?case by (auto simp: invites_ok_def split: option.splits)
next
  case (Cons a acts)
  from join_act_spends [OF Cons.prems, of cr hex a] obtain i' where
    ok: "invites_ok (js_invites (jn_server (join_act cr hex a j)))" and
    i': "i' \<in> set (js_invites (jn_server (join_act cr hex a j)))" "in_max_uses i' = Some m" "in_code i' = in_code i"
      "in_use_count i' = in_use_count i + length (filter (\<lambda>h. h = ByInvite (in_code i)) (admissions cr hex [a] j))" by blast
  have "admissions cr hex (a # acts) j = admissions cr hex [a] j @ admissions cr hex acts (join_act cr hex a j)" by simp
  with Cons.IH [OF ok i'(1,2)] i'(3,4) show ?case by (simp del: admissions.simps)
qed

text \<open>C21: However the handshakes, the requests of the members and the making of invites follow each
  other, an invite with a maximum admits no more newcomers than that maximum leaves it.\<close>

theorem invite_admits_at_most:
  assumes "invites_ok (js_invites (jn_server j))" and "i \<in> set (js_invites (jn_server j))" and "in_max_uses i = Some m"
  shows "length (filter (\<lambda>h. h = ByInvite (in_code i)) (admissions cr hex acts j)) \<le> m - in_use_count i"
  using admissions_spend [OF assms, of cr hex acts] by simp

section \<open>How often the setup token counts\<close>

definition token_left :: "joining \<Rightarrow> nat" where
  "token_left j = length (jn_granted j) + (if js_setup_token (jn_server j) = None then 0 else 1)"

lemma admit_token: "admit cr hex nonce now f sv = (r, sv') \<Longrightarrow> js_setup_token sv' = js_setup_token sv"
  by (auto simp: admit_def authenticate_new_member_def enter_server_def split: if_splits option.splits sum.splits)

lemma token_left_act: "token_left (join_act cr hex a j) \<le> token_left j"
proof (cases a)
  case (Admit nonce now f)
  obtain r sv where ad: "admit cr hex nonce now f (jn_server j) = (r, sv)" by (meson surj_pair)
  from admit_token [OF ad] Admit ad show ?thesis by (auto simp: token_left_def split: sum.split entry.split)
qed (auto simp: token_left_def Let_def become_owner_def split: option.split sum.split)

text \<open>However many connections present the setup token at once, and whatever runs between them,
  at most one of them is made the owner by it, and none once the token is gone.\<close>

theorem setup_token_counts_once:
  "length (jn_granted (run_joins cr hex acts j)) \<le>
    length (jn_granted j) + (if js_setup_token (jn_server j) = None then 0 else 1)"
proof -
  have "token_left (fold (join_act cr hex) acts j) \<le> token_left j"
    by (induction acts arbitrary: j) (auto intro: order_trans [OF _ token_left_act])
  then show ?thesis by (simp add: token_left_def run_joins_def split: if_splits)
qed

section \<open>An invite that admits two\<close>

definition ad_frame :: "public_key \<Rightarrow> string option \<Rightarrow> string option \<Rightarrow> auth_frame" where
  "ad_frame pk invite token = \<lparr>af_key = pk, af_signed_challenge = as_bytes pk, af_invite_code = invite, af_setup_token = token\<rparr>"

definition ad_hex :: "bytes \<Rightarrow> string" where
  "ad_hex bs = concat (map (\<lambda>b. if b = 1 then ''01'' else ''ff'') bs)"

definition ad_join :: joining where
  "ad_join = \<lparr>jn_server = \<lparr>js_db = ac_db, js_invites = [\<lparr>in_code = ''abc'', in_max_uses = Some 2, in_use_count = 1, in_expires_at = None\<rparr>],
       js_setup_token = None, js_owner = Some ac_owner, js_genesis_owner = Some ac_owner\<rparr>,
     jn_claims = [], jn_heirs = [], jn_granted = []\<rparr>"

definition ad_two :: "join_action list" where
  "ad_two = [Admit [] 5 (ad_frame (PublicKey [8]) (Some ''abc'') None), Admit [] 6 (ad_frame (PublicKey [9]) (Some ''abc'') None)]"

lemma ad_two_admits: "admissions toy_crypto ad_hex ad_two ad_join = [ByInvite ''abc'']"
  by code_simp

theorem invite_admits_at_most_witness:
  "length (filter (\<lambda>h. h = ByInvite ''abc'') (admissions toy_crypto ad_hex ad_two ad_join)) \<le> 2 - 1 \<and>
   admissions toy_crypto ad_hex ad_two ad_join = [ByInvite ''abc'']"
  using invite_admits_at_most [of ad_join "\<lparr>in_code = ''abc'', in_max_uses = Some 2, in_use_count = 1, in_expires_at = None\<rparr>" 2
      toy_crypto ad_hex ad_two] ad_two_admits
  by (simp add: ad_join_def invites_ok_def)

section \<open>Owners a server should not have\<close>

text \<open>
  The rank of the owner is that of its roles, so a moderator may ban it; and after a restart the owner
  is the earliest member left, here the moderator itself, while the log still names the first one.
\<close>

definition ad_coup :: join_server where
  "ad_coup = restart_server [2] (jn_server (run_joins toy_crypto ad_hex [Request 0 ac_mod (BanMember ac_owner)] ad_join))"

lemma moderator_inherits_the_server:
  "js_owner ad_coup = Some ac_mod \<and> js_genesis_owner ad_coup = Some ac_owner \<and>
   fst (admit toy_crypto ad_hex [] 9 (ad_frame ac_owner None None) ad_coup) = Inl MemberIsBanned"
  by code_simp

text \<open>
  The first member of an empty server becomes its owner, but the setup token stays active: who presents
  it later replaces the owner, and the log keeps naming the first.
\<close>

definition ad_fresh :: joining where
  "ad_fresh = ad_join\<lparr>jn_server := \<lparr>js_db = ac_db\<lparr>ad_members := [], ad_member_roles := []\<rparr>, js_invites = [],
     js_setup_token = Some [1], js_owner = None, js_genesis_owner = None\<rparr>\<rparr>"

definition ad_replaced :: joining where
  "ad_replaced = run_joins toy_crypto ad_hex [Admit [] 1 (ad_frame ac_owner None None), BecomeOwner 0,
     Admit [] 2 (ad_frame ac_user None (Some ''01'')), TakeToken 0, BecomeOwner 0] ad_fresh"

lemma token_replaces_the_owner:
  "js_owner (jn_server ad_replaced) = Some ac_user \<and> js_genesis_owner (jn_server ad_replaced) = Some ac_owner"
  by code_simp

end
