(* ===== verification/MlsEnvelope.thy ===== *)
theory MlsEnvelope
  imports EventLog
begin

text \<open>
  What goes into a sealed message and into an MLS leaf: the padding ladder and the size limits of
  \<open>crates/farder-mls/src/envelope.rs\<close>, the credential bytes of \<open>credential.rs\<close>.

  The serialization of an envelope is third-party code (\<open>rmp_serde\<close>), an argument.  Texts are the
  list of their code points where the code counts characters; a \<open>String\<close> elsewhere is the list of
  its UTF-8 bytes, read as characters.
\<close>

unbundle bit_operations_syntax

section \<open>The envelope and the padding ladder\<close>

record message_envelope =
  me_content :: "nat list"
  me_attachment_keys :: "bytes list"
  me_filenames :: "string list"
  me_mimes :: "string list"

definition PADDING_BUCKETS :: "nat list" where "PADDING_BUCKETS = [256, 1024, 4096, 16384, 40960]"
definition MAX_PRESEAL_BYTES :: nat where "MAX_PRESEAL_BYTES = 32 * 1024"
definition MAX_CONTENT_CHARS :: nat where "MAX_CONTENT_CHARS = 8000"

datatype group_error =
    PayloadTooLarge | NotABucket | BadLengthPrefix | TooManyChars | TooManyBytes
  | EnvelopeUnencodable | EnvelopeUndecodable | LibraryRefused | NotACommit | UnknownLeaf | ForeignCredential
  | EpochZero | EpochMismatch | NoPendingCommit | AddsDiffer | RemovesDiffer | TreeHashDiffers
  | NoSuchMember | CredentialMismatch | BindingBroken
  | KeyPackageInvalid | WrongCiphersuite | NotAWelcome

definition bucket_for :: "nat \<Rightarrow> nat option" where
  "bucket_for needed = find (\<lambda>b. needed \<le> b) PADDING_BUCKETS"

definition pad_to_bucket :: "bytes \<Rightarrow> group_error + bytes" where
  "pad_to_bucket bs =
     (let needed = length bs + 4
      in or_fail (bucket_for needed) PayloadTooLarge (\<lambda>bucket.
         Inr (be_bytes 4 (length bs) @ bs @ replicate (bucket - needed) 0)))"

definition unpad :: "bytes \<Rightarrow> group_error + bytes" where
  "unpad padded =
     ensure (length padded \<in> set PADDING_BUCKETS) NotABucket
     (let len = from_be (take 4 padded)
      in ensure (len \<le> length padded - 4) BadLengthPrefix
         (Inr (take len (drop 4 padded))))"

definition check_preseal_limits :: "message_envelope \<Rightarrow> nat \<Rightarrow> group_error + unit" where
  "check_preseal_limits envelope encoded_len =
     ensure (length (me_content envelope) \<le> MAX_CONTENT_CHARS) TooManyChars
     (ensure (encoded_len \<le> MAX_PRESEAL_BYTES) TooManyBytes (Inr ()))"

lemma bucket_for_Some:
  "bucket_for n = Some b \<Longrightarrow> b \<in> set PADDING_BUCKETS \<and> n \<le> b \<and> b < 2 ^ 32 \<and> (\<forall>b' \<in> set PADDING_BUCKETS. n \<le> b' \<longrightarrow> b \<le> b')"
  by (auto simp: bucket_for_def PADDING_BUCKETS_def split: if_splits)

lemma bucket_for_None: "bucket_for n = None \<longleftrightarrow> 40960 < n"
  by (auto simp: bucket_for_def PADDING_BUCKETS_def)

lemma pad_to_bucket_Inr:
  assumes "pad_to_bucket bs = Inr p"
  shows "length p \<in> set PADDING_BUCKETS" and "bucket_for (length bs + 4) = Some (length p)" and "unpad p = Inr bs"
proof -
  from assms obtain b where b: "bucket_for (length bs + 4) = Some b"
    and p: "p = be_bytes 4 (length bs) @ bs @ replicate (b - (length bs + 4)) 0"
    by (auto simp: pad_to_bucket_def Let_def result_simps)
  note b' = bucket_for_Some [OF b]
  from b' have len: "length p = b" by (simp add: p)
  with b b' show "length p \<in> set PADDING_BUCKETS" "bucket_for (length bs + 4) = Some (length p)" by simp_all
  have "length bs < 256 ^ 4" using b' by simp
  then have "from_be (take 4 p) = length bs" by (simp add: p from_be_be_bytes)
  moreover from b' have "length bs \<le> b - 4" by linarith
  ultimately show "unpad p = Inr bs" using b' len by (simp add: unpad_def Let_def ensure_def p)
qed

text \<open>A payload that fits the ladder is padded to the smallest bucket that holds it and its length
  prefix, and unpadding gives it back; one that does not is refused.  What an observer sees of a
  sealed message, its length, depends on nothing but the bucket.\<close>

theorem padding_round_trips:
  "case pad_to_bucket bs of
     Inl e \<Rightarrow> e = PayloadTooLarge \<and> 40956 < length bs
   | Inr p \<Rightarrow> unpad p = Inr bs \<and> bucket_for (length bs + 4) = Some (length p)"
proof (cases "pad_to_bucket bs")
  case (Inl e)
  then show ?thesis
    using bucket_for_None [of "length bs + 4"] by (auto simp: pad_to_bucket_def Let_def or_fail_def split: option.splits)
next
  case (Inr p)
  with pad_to_bucket_Inr [OF Inr] show ?thesis by simp
qed

section \<open>Credentials\<close>

text \<open>Well-formed UTF-8, byte by byte: \<open>String::from_utf8\<close>.\<close>

definition cont :: "byte \<Rightarrow> bool" where
  "cont b \<longleftrightarrow> 0x80 \<le> b \<and> b \<le> 0xBF"

fun utf8_valid :: "bytes \<Rightarrow> bool" where
  "utf8_valid [] = True"
| "utf8_valid (a # rest) =
     (if a \<le> 0x7F then utf8_valid rest
      else case rest of
        b # rest1 \<Rightarrow>
          if 0xC2 \<le> a \<and> a \<le> 0xDF then cont b \<and> utf8_valid rest1
          else (case rest1 of
            c # rest2 \<Rightarrow>
              if 0xE0 \<le> a \<and> a \<le> 0xEF then
                cont b \<and> (a = 0xE0 \<longrightarrow> 0xA0 \<le> b) \<and> (a = 0xED \<longrightarrow> b \<le> 0x9F) \<and> cont c \<and> utf8_valid rest2
              else (case rest2 of
                d # rest3 \<Rightarrow> 0xF0 \<le> a \<and> a \<le> 0xF4 \<and> cont b \<and> (a = 0xF0 \<longrightarrow> 0x90 \<le> b) \<and> (a = 0xF4 \<longrightarrow> b \<le> 0x8F) \<and>
                  cont c \<and> cont d \<and> utf8_valid rest3
              | [] \<Rightarrow> False)
          | [] \<Rightarrow> False)
      | [] \<Rightarrow> False)"

definition bytes_string :: "bytes \<Rightarrow> string" where
  "bytes_string bs = map (\<lambda>b. char_of (unat b)) bs"

definition CRED_PREFIX :: bytes where "CRED_PREFIX = string_bytes ''farder-mls-cred-v1''"

definition encode_credential_identity :: "public_key \<Rightarrow> device_id \<Rightarrow> bytes" where
  "encode_credential_identity identity device =
     CRED_PREFIX @ [word_of_nat (length (as_bytes identity))] @ as_bytes identity @
     be_bytes 4 (length (string_bytes device)) @ string_bytes device"

definition decode_credential_identity :: "bytes \<Rightarrow> (public_key \<times> device_id) option" where
  "decode_credential_identity bs =
     (if take (length CRED_PREFIX) bs \<noteq> CRED_PREFIX then None
      else case drop (length CRED_PREFIX) bs of
        [] \<Rightarrow> None
      | pk_len # rest \<Rightarrow>
          if length rest < unat pk_len then None
          else
            (let pk_bytes = take (unat pk_len) rest; rest1 = drop (unat pk_len) rest
             in if length pk_bytes \<noteq> 32 then None
                else if length rest1 < 4 then None
                else
                  (let dev_len = from_be (take 4 rest1); rest2 = drop 4 rest1
                   in if length rest2 < dev_len then None
                      else if length rest2 > dev_len then None
                      else if \<not> utf8_valid rest2 then None
                      else Some (PublicKey pk_bytes, bytes_string rest2))))"

lemma length_strings [simp]: "length (bytes_string bs) = length bs" "length (string_bytes s) = length s"
  by (simp_all add: bytes_string_def string_bytes_def)

lemma char_bytes [simp]: "bytes_string (string_bytes s) = s" "string_bytes (bytes_string bs) = bs"
proof -
  have "char_of (unat (of_char c :: byte)) = c" for c
  proof -
    have "(of_char c :: byte) = word_of_nat (of_char c)" by (rule of_nat_of_char [symmetric])
    then have "unat (of_char c :: byte) = (of_char c :: nat) mod 2 ^ 8" by (simp only: unat_of_nat) simp
    then have "unat (of_char c :: byte) = (of_char c :: nat)" using nat_of_char_less_256 [of c] by simp
    then show ?thesis by simp
  qed
  then show "bytes_string (string_bytes s) = s" by (simp add: bytes_string_def string_bytes_def comp_def)
  have "of_char (char_of (unat b)) = b" for b :: byte
  proof -
    have "unat b < 256" using unsigned_less [of b, where 'a = nat] by simp
    then have "(of_char (char_of (unat b)) :: nat) = unat b" by simp
    then show ?thesis using of_nat_of_char [of "char_of (unat b)", where 'a = byte] by simp
  qed
  then show "string_bytes (bytes_string bs) = bs" by (simp add: bytes_string_def string_bytes_def comp_def)
qed

lemma as_bytes_PublicKey [simp]: "PublicKey (as_bytes pk) = pk"
  by (cases pk) simp

lemma decode_encode:
  assumes "length (as_bytes identity) = 32" and "utf8_valid (string_bytes device)" and "length device < 2 ^ 32"
  shows "decode_credential_identity (encode_credential_identity identity device) = Some (identity, device)"
proof -
  have "from_be (be_bytes 4 (length (string_bytes device))) = length (string_bytes device)"
    using assms(3) by (intro from_be_be_bytes) (simp add: string_bytes_def)
  with assms show ?thesis
    by (simp add: decode_credential_identity_def encode_credential_identity_def Let_def)
qed

lemma encode_decode:
  assumes "decode_credential_identity bs = Some (identity, device)"
  shows "bs = encode_credential_identity identity device \<and> length (as_bytes identity) = 32 \<and> utf8_valid (string_bytes device) \<and>
    length device < 2 ^ 32"
proof -
  from assms obtain l rest where bs: "take (length CRED_PREFIX) bs = CRED_PREFIX" "drop (length CRED_PREFIX) bs = l # rest"
    by (auto simp: decode_credential_identity_def split: if_splits list.splits)
  let ?pk = "take (unat l) rest" let ?rest1 = "drop (unat l) rest" let ?rest2 = "drop 4 ?rest1"
  from assms bs have pk: "length ?pk = 32" "identity = PublicKey ?pk" and dev: "4 \<le> length ?rest1" "device = bytes_string ?rest2"
      "length ?rest2 = from_be (take 4 ?rest1)" "utf8_valid ?rest2"
    by (auto simp: decode_credential_identity_def Let_def split: if_splits)
  have l: "unat l = 32" using pk(1) assms bs
    by (auto simp: decode_credential_identity_def Let_def split: if_splits)
  then have lw: "l = 32" by (simp add: word_unat_eq_iff)
  have four: "be_bytes 4 (from_be (take 4 ?rest1)) = take 4 ?rest1"
    using be_bytes_from_be [of "take 4 ?rest1"] dev(1) by simp
  have bound: "from_be (take 4 ?rest1) < 256 ^ 4"
    using from_be_bound [of "take 4 ?rest1"] dev(1) by simp
  have "bs = CRED_PREFIX @ l # rest" using bs by (metis append_take_drop_id)
  moreover have "rest = ?pk @ take 4 ?rest1 @ ?rest2" by (metis append_take_drop_id)
  ultimately show ?thesis
    using pk dev lw four bound l by (simp add: encode_credential_identity_def)
qed

text \<open>Decoding a credential is strict: bytes decode to an identity and a device exactly when they are
  the encoding of the two, for a 32-byte identity and a device id that is well-formed UTF-8.  No two
  leaves that claim different devices share credential bytes.\<close>

theorem credentials_decode_strictly:
  "decode_credential_identity bs = Some (identity, device) \<longleftrightarrow>
     bs = encode_credential_identity identity device \<and> length (as_bytes identity) = 32 \<and>
     utf8_valid (string_bytes device) \<and> length device < 2 ^ 32"
  using decode_encode encode_decode by blast

end
