(* ===== verification/MlsGroup.thy ===== *)
theory MlsGroup
  imports MlsEnvelope "HOL-Library.Multiset" "HOL-Library.List_Lexorder" "HOL-Library.Product_Lexorder"
begin

text \<open>
  The wrapper around an MLS group, \<open>crates/farder-mls/src/group.rs\<close>: what a staged commit did, the
  check of a commit against what its event declares, merging, our own commits, sealing and opening.

  The library (OpenMLS) is a record of functions over its own group state \<open>'g\<close> and staged commits
  \<open>'s\<close>; \<open>None\<close> is its refusal of any kind, a contained panic included.  \<open>mls_lib_ok\<close> is what the
  client's code relies on, as the library documents it.
\<close>

section \<open>The library\<close>

record raw_leaf =
  rl_credential :: bytes
  rl_key :: bytes

datatype own_commit = AddMembers "bytes list" | RemoveLeaves "nat list" | SelfUpdate

record ('g, 's) mls_lib =
  ml_epoch :: "'g \<Rightarrow> nat"
  ml_authenticator :: "'g \<Rightarrow> bytes"
  ml_members :: "'g \<Rightarrow> (nat \<times> raw_leaf) list" \<comment> \<open>leaf index and leaf\<close>
  ml_stage :: "'g \<Rightarrow> bytes \<Rightarrow> 's option \<times> 'g" \<comment> \<open>\<open>process_message\<close>, of a commit\<close>
  ml_staged_adds :: "'s \<Rightarrow> raw_leaf list"
  ml_staged_removes :: "'s \<Rightarrow> nat list"
  ml_staged_tree_hash :: "'s \<Rightarrow> bytes"
  ml_staged_epoch :: "'s \<Rightarrow> nat"
  ml_merge :: "'g \<Rightarrow> 's \<Rightarrow> 'g option"
  ml_own_commit :: "'g \<Rightarrow> own_commit \<Rightarrow> (bytes \<times> bytes option) option \<times> 'g" \<comment> \<open>commit, Welcome\<close>
  ml_pending :: "'g \<Rightarrow> 's option"
  ml_merge_pending :: "'g \<Rightarrow> 'g option"
  ml_clear_pending :: "'g \<Rightarrow> 'g option"
  ml_seal :: "'g \<Rightarrow> bytes \<Rightarrow> bytes option \<times> 'g"
  ml_open :: "'g \<Rightarrow> bytes \<Rightarrow> bytes option \<times> 'g"
  ml_key_package :: "bytes \<Rightarrow> (bool \<times> bytes) option" \<comment> \<open>decoded and valid: is the suite the pinned one, credential\<close>
  ml_create :: "string \<Rightarrow> bytes \<Rightarrow> 'g option" \<comment> \<open>group id, credential\<close>
  ml_group_info :: "'g \<Rightarrow> bytes option" \<comment> \<open>the tree hash of an exported \<open>GroupInfo\<close>\<close>
  ml_join :: "bytes \<Rightarrow> ('g \<times> nat \<times> bytes) option" \<comment> \<open>the group, the epoch and tree hash of the staged Welcome\<close>

definition mls_lib_ok :: "('g, 's) mls_lib \<Rightarrow> bool" where
  "mls_lib_ok L \<longleftrightarrow>
     (\<forall>g bs r g'. ml_stage L g bs = (r, g') \<longrightarrow> ml_epoch L g' = ml_epoch L g) \<and>
     (\<forall>g s g'. ml_merge L g s = Some g' \<longrightarrow> ml_epoch L g' = ml_epoch L g + 1) \<and>
     (\<forall>g p r g'. ml_seal L g p = (r, g') \<longrightarrow> ml_epoch L g' = ml_epoch L g) \<and>
     (\<forall>g oc r g'. ml_own_commit L g oc = (r, g') \<longrightarrow> ml_epoch L g' = ml_epoch L g) \<and>
     (\<forall>g g'. ml_merge_pending L g = Some g' \<longrightarrow> ml_epoch L g' = ml_epoch L g + 1) \<and>
     (\<forall>g g'. ml_clear_pending L g = Some g' \<longrightarrow> ml_epoch L g' = ml_epoch L g)"

section \<open>Leaves and staged commits\<close>

type_synonym declared_member = "public_key \<times> device_id"

record actual_leaf =
  al_member :: declared_member
  al_credential :: bytes
  al_key :: bytes

text \<open>\<open>tree_hash\<close> is tracked beside the library's group.\<close>

record 'g channel_group =
  cg_inner :: 'g
  cg_tree_hash :: bytes

fun collect_all :: "('a \<Rightarrow> 'e + 'b) \<Rightarrow> 'a list \<Rightarrow> 'e + 'b list" where
  "collect_all f [] = Inr []"
| "collect_all f (x # xs) = try_then (f x) (\<lambda>y. try_then (collect_all f xs) (\<lambda>ys. Inr (y # ys)))"

definition declared_member_of :: "bytes \<Rightarrow> group_error + declared_member" where
  "declared_member_of credential = or_fail (decode_credential_identity credential) ForeignCredential Inr"

definition actual_leaf_of :: "raw_leaf \<Rightarrow> group_error + actual_leaf" where
  "actual_leaf_of l =
     try_then (declared_member_of (rl_credential l)) (\<lambda>m.
     Inr \<lparr>al_member = m, al_credential = rl_credential l, al_key = rl_key l\<rparr>)"

definition hash32 :: "bytes \<Rightarrow> group_error + bytes" where
  "hash32 bs = ensure (length bs = 32) LibraryRefused (Inr bs)"

record staged_summary =
  ss_adds :: "actual_leaf list"
  ss_removes :: "declared_member list"
  ss_post_tree_hash :: bytes
  ss_authored_epoch :: nat

definition staged_commit_summary :: "('g, 's) mls_lib \<Rightarrow> 'g \<Rightarrow> 's \<Rightarrow> group_error + staged_summary" where
  "staged_commit_summary L inner staged =
     try_then (collect_all actual_leaf_of (ml_staged_adds L staged)) (\<lambda>adds.
     try_then (collect_all (\<lambda>i.
        or_fail (map_of (ml_members L inner) i) UnknownLeaf (\<lambda>l. declared_member_of (rl_credential l)))
        (ml_staged_removes L staged)) (\<lambda>removes.
     try_then (hash32 (ml_staged_tree_hash L staged)) (\<lambda>h.
     ensure (0 < ml_staged_epoch L staged) EpochZero
     (Inr \<lparr>ss_adds = adds, ss_removes = removes, ss_post_tree_hash = h,
           ss_authored_epoch = ml_staged_epoch L staged - 1\<rparr>))))"

definition stage_commit ::
    "('g, 's) mls_lib \<Rightarrow> 'g channel_group \<Rightarrow> bytes \<Rightarrow> (group_error + 's \<times> staged_summary) \<times> 'g channel_group" where
  "stage_commit L cg commit_bytes =
     (case ml_stage L (cg_inner cg) commit_bytes of
        (None, g) \<Rightarrow> (Inl NotACommit, cg\<lparr>cg_inner := g\<rparr>)
      | (Some staged, g) \<Rightarrow>
          (try_then (staged_commit_summary L g staged) (\<lambda>summary. Inr (staged, summary)), cg\<lparr>cg_inner := g\<rparr>))"

definition merge_staged ::
    "('g, 's) mls_lib \<Rightarrow> 'g channel_group \<Rightarrow> 's \<Rightarrow> staged_summary \<Rightarrow> (group_error + staged_summary) \<times> 'g channel_group" where
  "merge_staged L cg staged summary =
     (case ml_merge L (cg_inner cg) staged of
        None \<Rightarrow> (Inl LibraryRefused, cg)
      | Some g \<Rightarrow> (Inr summary, \<lparr>cg_inner = g, cg_tree_hash = ss_post_tree_hash summary\<rparr>))"

section \<open>The check of a commit against its declaration\<close>

definition sorted_members :: "declared_member list \<Rightarrow> declared_member list" where
  "sorted_members members = sort_key (\<lambda>m. (as_bytes (fst m), snd m)) members"

definition verify_declared_matches_actual ::
    "staged_summary \<Rightarrow> declared_member list \<Rightarrow> declared_member list \<Rightarrow> bytes \<Rightarrow> group_error + unit" where
  "verify_declared_matches_actual processed declared_adds declared_removes declared_post_tree_hash =
     ensure (sorted_members (map al_member (ss_adds processed)) = sorted_members declared_adds) AddsDiffer
     (ensure (sorted_members (ss_removes processed) = sorted_members declared_removes) RemovesDiffer
     (ensure (ss_post_tree_hash processed = declared_post_tree_hash) TreeHashDiffers
     (Inr ())))"

definition process_commit_checked ::
    "('g, 's) mls_lib \<Rightarrow> 'g channel_group \<Rightarrow> bytes \<Rightarrow> declared_member list \<Rightarrow> declared_member list \<Rightarrow> bytes \<Rightarrow>
     (group_error + staged_summary) \<times> 'g channel_group" where
  "process_commit_checked L cg commit_bytes declared_adds declared_removes declared_post_tree_hash =
     (case stage_commit L cg commit_bytes of
        (Inl e, cg1) \<Rightarrow> (Inl e, cg1)
      | (Inr (staged, summary), cg1) \<Rightarrow>
          (case verify_declared_matches_actual summary declared_adds declared_removes declared_post_tree_hash of
             Inl e \<Rightarrow> (Inl e, cg1)
           | Inr _ \<Rightarrow> merge_staged L cg1 staged summary))"

definition process_commit ::
    "('g, 's) mls_lib \<Rightarrow> 'g channel_group \<Rightarrow> bytes \<Rightarrow> (group_error + staged_summary) \<times> 'g channel_group" where
  "process_commit L cg commit_bytes =
     (case stage_commit L cg commit_bytes of
        (Inl e, cg1) \<Rightarrow> (Inl e, cg1)
      | (Inr (staged, summary), cg1) \<Rightarrow> merge_staged L cg1 staged summary)"

definition leaves :: "('g, 's) mls_lib \<Rightarrow> 'g channel_group \<Rightarrow> group_error + actual_leaf list" where
  "leaves L cg = collect_all actual_leaf_of (map snd (ml_members L (cg_inner cg)))"

definition verify_leaf_binding :: "crypto \<Rightarrow> bytes \<Rightarrow> bytes \<Rightarrow> device_cert \<Rightarrow> group_error + unit" where
  "verify_leaf_binding cr credential leaf_signature_key cert =
     try_then (declared_member_of credential) (\<lambda>(identity, device).
     ensure (identity = dc_identity (cert_core cert)) CredentialMismatch
     (ensure (device = dc_device_id (cert_core cert)) CredentialMismatch
     (ensure (leaf_signature_key = as_bytes (dc_device_pubkey (cert_core cert))) BindingBroken
     (case cert_verify cr cert of Inl _ \<Rightarrow> Inl BindingBroken | Inr _ \<Rightarrow> Inr ()))))"

section \<open>Our own commits\<close>

record commit_outcome =
  co_commit_bytes :: bytes
  co_welcome_bytes :: "bytes option"
  co_prev_epoch_authenticator :: bytes
  co_post_tree_hash :: bytes
  co_epoch :: nat
  co_adds :: "declared_member list"
  co_removes :: "declared_member list"

definition finish_own_commit_inner ::
    "('g, 's) mls_lib \<Rightarrow> 'g channel_group \<Rightarrow> bytes \<times> bytes option \<Rightarrow> bytes \<Rightarrow> nat \<Rightarrow>
     (group_error + commit_outcome) \<times> 'g channel_group" where
  "finish_own_commit_inner L cg msgs prev_epoch_authenticator epoch =
     (case ml_pending L (cg_inner cg) of
        None \<Rightarrow> (Inl NoPendingCommit, cg)
      | Some staged \<Rightarrow>
          (case staged_commit_summary L (cg_inner cg) staged of
             Inl e \<Rightarrow> (Inl e, cg)
           | Inr summary \<Rightarrow>
               if ss_authored_epoch summary \<noteq> epoch then (Inl EpochMismatch, cg)
               else (case ml_merge_pending L (cg_inner cg) of
                       None \<Rightarrow> (Inl LibraryRefused, cg)
                     | Some g \<Rightarrow>
                         (Inr \<lparr>co_commit_bytes = fst msgs, co_welcome_bytes = snd msgs,
                               co_prev_epoch_authenticator = prev_epoch_authenticator,
                               co_post_tree_hash = ss_post_tree_hash summary, co_epoch = epoch,
                               co_adds = map al_member (ss_adds summary), co_removes = ss_removes summary\<rparr>,
                          \<lparr>cg_inner = g, cg_tree_hash = ss_post_tree_hash summary\<rparr>))))"

text \<open>A failed commit of our own is cleared; when clearing fails too, the first error stays.\<close>

definition finish_own_commit ::
    "('g, 's) mls_lib \<Rightarrow> 'g channel_group \<Rightarrow> bytes \<times> bytes option \<Rightarrow> bytes \<Rightarrow> nat \<Rightarrow>
     (group_error + commit_outcome) \<times> 'g channel_group" where
  "finish_own_commit L cg msgs prev_epoch_authenticator epoch =
     (case finish_own_commit_inner L cg msgs prev_epoch_authenticator epoch of
        (Inr out, cg1) \<Rightarrow> (Inr out, cg1)
      | (Inl e, cg1) \<Rightarrow>
          (Inl e, case ml_clear_pending L (cg_inner cg1) of None \<Rightarrow> cg1 | Some g \<Rightarrow> cg1\<lparr>cg_inner := g\<rparr>))"

definition own_commit ::
    "('g, 's) mls_lib \<Rightarrow> own_commit \<Rightarrow> 'g channel_group \<Rightarrow> (group_error + commit_outcome) \<times> 'g channel_group" where
  "own_commit L oc cg =
     (let prev_auth = ml_authenticator L (cg_inner cg); epoch = ml_epoch L (cg_inner cg)
      in case ml_own_commit L (cg_inner cg) oc of
           (None, g) \<Rightarrow> (Inl LibraryRefused, cg\<lparr>cg_inner := g\<rparr>)
         | (Some msgs, g) \<Rightarrow> finish_own_commit L (cg\<lparr>cg_inner := g\<rparr>) msgs prev_auth epoch)"

definition add_members :: "('g, 's) mls_lib \<Rightarrow> bytes list \<Rightarrow> 'g channel_group \<Rightarrow> (group_error + commit_outcome) \<times> 'g channel_group" where
  "add_members L key_packages cg = own_commit L (AddMembers key_packages) cg"

definition self_update :: "('g, 's) mls_lib \<Rightarrow> 'g channel_group \<Rightarrow> (group_error + commit_outcome) \<times> 'g channel_group" where
  "self_update L cg = own_commit L SelfUpdate cg"

text \<open>Every leaf that claims the target is removed; a target that no leaf claims is an error.\<close>

definition leaves_claiming :: "('g, 's) mls_lib \<Rightarrow> 'g \<Rightarrow> declared_member \<Rightarrow> nat list" where
  "leaves_claiming L inner target =
     map fst (filter (\<lambda>(i, l). decode_credential_identity (rl_credential l) = Some target) (ml_members L inner))"

definition remove_members ::
    "('g, 's) mls_lib \<Rightarrow> declared_member list \<Rightarrow> 'g channel_group \<Rightarrow> (group_error + commit_outcome) \<times> 'g channel_group" where
  "remove_members L members cg =
     (if list_ex (\<lambda>t. leaves_claiming L (cg_inner cg) t = []) members then (Inl NoSuchMember, cg)
      else own_commit L (RemoveLeaves (remdups_adj (sort (concat (map (leaves_claiming L (cg_inner cg)) members))))) cg)"

section \<open>Key packages, creation and joining\<close>

definition decode_key_package :: "('g, 's) mls_lib \<Rightarrow> bytes \<Rightarrow> group_error + declared_member" where
  "decode_key_package L bs =
     or_fail (ml_key_package L bs) KeyPackageInvalid (\<lambda>(pinned_suite, credential).
     ensure pinned_suite WrongCiphersuite
     (declared_member_of credential))"

definition create_group :: "('g, 's) mls_lib \<Rightarrow> string \<Rightarrow> bytes \<Rightarrow> group_error + 'g channel_group" where
  "create_group L channel_group_id credential =
     or_fail (ml_create L channel_group_id credential) LibraryRefused (\<lambda>g.
     or_fail (ml_group_info L g) LibraryRefused (\<lambda>h.
     try_then (hash32 h) (\<lambda>tree_hash.
     Inr \<lparr>cg_inner = g, cg_tree_hash = tree_hash\<rparr>)))"

record join_info =
  ji_epoch :: nat
  ji_tree_hash :: bytes

definition join_from_welcome :: "('g, 's) mls_lib \<Rightarrow> bytes \<Rightarrow> group_error + 'g channel_group \<times> join_info" where
  "join_from_welcome L welcome_bytes =
     or_fail (ml_join L welcome_bytes) NotAWelcome (\<lambda>(g, epoch, h).
     try_then (hash32 h) (\<lambda>tree_hash.
     Inr (\<lparr>cg_inner = g, cg_tree_hash = tree_hash\<rparr>, \<lparr>ji_epoch = epoch, ji_tree_hash = tree_hash\<rparr>)))"

section \<open>Sealing and opening\<close>

definition seal_message ::
    "('g, 's) mls_lib \<Rightarrow> (message_envelope \<Rightarrow> bytes option) \<Rightarrow> 'g channel_group \<Rightarrow> message_envelope \<Rightarrow>
     (group_error + bytes) \<times> 'g channel_group" where
  "seal_message L encode cg envelope =
     (case or_fail (encode envelope) EnvelopeUnencodable (\<lambda>encoded.
           try_then (check_preseal_limits envelope (length encoded)) (\<lambda>_. pad_to_bucket encoded)) of
        Inl e \<Rightarrow> (Inl e, cg)
      | Inr padded \<Rightarrow>
          (case ml_seal L (cg_inner cg) padded of
             (r, g) \<Rightarrow> (or_fail r LibraryRefused Inr, cg\<lparr>cg_inner := g\<rparr>)))"

definition open_message ::
    "('g, 's) mls_lib \<Rightarrow> (bytes \<Rightarrow> message_envelope option) \<Rightarrow> 'g channel_group \<Rightarrow> bytes \<Rightarrow>
     (group_error + message_envelope) \<times> 'g channel_group" where
  "open_message L decode cg bs =
     (case ml_open L (cg_inner cg) bs of
        (r, g) \<Rightarrow>
          (or_fail r LibraryRefused (\<lambda>padded.
           try_then (unpad padded) (\<lambda>encoded.
           or_fail (decode encoded) EnvelopeUndecodable Inr)), cg\<lparr>cg_inner := g\<rparr>))"

section \<open>Lemmas\<close>

lemma sorted_members_eq: "sorted_members xs = sorted_members ys \<longleftrightarrow> mset xs = mset ys"
proof
  assume "sorted_members xs = sorted_members ys"
  then have "mset (sorted_members xs) = mset (sorted_members ys)" by simp
  then show "mset xs = mset ys" by (simp add: sorted_members_def)
next
  assume eq: "mset xs = mset ys"
  have inj: "inj_on (\<lambda>m :: declared_member. (as_bytes (fst m), snd m)) (set xs)"
    by (rule inj_onI) (auto simp: prod_eq_iff intro: public_key.expand)
  show "sorted_members xs = sorted_members ys"
    unfolding sorted_members_def by (rule sort_key_inj_key_eq) (simp_all add: eq inj)
qed

lemma stage_commit_Inr:
  "stage_commit L cg bs = (Inr (staged, summary), cg1) \<Longrightarrow>
     \<exists>g. ml_stage L (cg_inner cg) bs = (Some staged, g) \<and> staged_commit_summary L g staged = Inr summary \<and> cg1 = cg\<lparr>cg_inner := g\<rparr>"
  by (auto simp: stage_commit_def try_then_Inr split: prod.splits option.splits)

lemma process_commit_checked_Inr:
  assumes "process_commit_checked L cg bs adds removes h = (Inr summary, cg')"
  shows "mset (map al_member (ss_adds summary)) = mset adds" "mset (ss_removes summary) = mset removes"
    "ss_post_tree_hash summary = h" "cg_tree_hash cg' = h"
    and "\<exists>staged g. ml_stage L (cg_inner cg) bs = (Some staged, g) \<and> staged_commit_summary L g staged = Inr summary \<and>
      ml_merge L g staged = Some (cg_inner cg')"
proof -
  obtain r cg1 where st: "stage_commit L cg bs = (r, cg1)" by (meson surj_pair)
  with assms obtain staged sm where r: "r = Inr (staged, sm)"
    by (cases r) (auto simp: process_commit_checked_def)
  from st r stage_commit_Inr [of L cg bs staged sm cg1] obtain g where
    g: "ml_stage L (cg_inner cg) bs = (Some staged, g)" "staged_commit_summary L g staged = Inr sm" "cg1 = cg\<lparr>cg_inner := g\<rparr>" by blast
  from assms st r have v: "verify_declared_matches_actual sm adds removes h = Inr ()" "merge_staged L cg1 staged sm = (Inr summary, cg')"
    by (auto simp: process_commit_checked_def split: sum.splits)
  from v(2) g(3) have m: "summary = sm" "ml_merge L g staged = Some (cg_inner cg')" "cg_tree_hash cg' = ss_post_tree_hash sm"
    by (auto simp: merge_staged_def split: option.splits)
  from v(1) m show "mset (map al_member (ss_adds summary)) = mset adds" "mset (ss_removes summary) = mset removes"
    "ss_post_tree_hash summary = h" "cg_tree_hash cg' = h"
    by (auto simp: verify_declared_matches_actual_def ensure_Inr sorted_members_eq)
  from g m show "\<exists>staged g. ml_stage L (cg_inner cg) bs = (Some staged, g) \<and> staged_commit_summary L g staged = Inr summary \<and>
      ml_merge L g staged = Some (cg_inner cg')" by blast
qed

text \<open>What a refused commit leaves: the group in its epoch, under its tree hash.\<close>

lemma process_commit_checked_Inl:
  assumes "mls_lib_ok L" and "process_commit_checked L cg bs adds removes h = (Inl e, cg')"
  shows "ml_epoch L (cg_inner cg') = ml_epoch L (cg_inner cg) \<and> cg_tree_hash cg' = cg_tree_hash cg"
proof -
  obtain r cg1 where st: "stage_commit L cg bs = (r, cg1)" by (meson surj_pair)
  then have cg1: "ml_epoch L (cg_inner cg1) = ml_epoch L (cg_inner cg) \<and> cg_tree_hash cg1 = cg_tree_hash cg"
    using assms(1) by (auto simp: stage_commit_def mls_lib_ok_def split: prod.splits option.splits)
  from assms(2) st have "cg' = cg1"
    by (auto simp: process_commit_checked_def merge_staged_def split: sum.splits option.splits prod.splits)
  with cg1 show ?thesis by simp
qed

lemma process_commit_checked_epoch:
  assumes "mls_lib_ok L" and "process_commit_checked L cg bs adds removes h = (Inr summary, cg')"
  shows "ml_epoch L (cg_inner cg') = ml_epoch L (cg_inner cg) + 1"
  using process_commit_checked_Inr(5) [OF assms(2)] assms(1) by (auto simp: mls_lib_ok_def)

text \<open>Our own commits move the group by one epoch exactly when they succeed.\<close>

lemma own_commit_epoch:
  assumes ok: "mls_lib_ok L" and "own_commit L oc cg = (r, cg')"
  shows "case r of
      Inl e \<Rightarrow> ml_epoch L (cg_inner cg') = ml_epoch L (cg_inner cg)
    | Inr out \<Rightarrow> ml_epoch L (cg_inner cg') = ml_epoch L (cg_inner cg) + 1 \<and> co_epoch out = ml_epoch L (cg_inner cg)"
proof (cases "ml_own_commit L (cg_inner cg) oc")
  case (Pair msgs g)
  with ok have g: "ml_epoch L g = ml_epoch L (cg_inner cg)" by (auto simp: mls_lib_ok_def)
  show ?thesis
  proof (cases msgs)
    case None
    with Pair assms(2) g show ?thesis by (auto simp: own_commit_def Let_def)
  next
    case (Some m)
    obtain r1 cg1 where inner: "finish_own_commit_inner L (cg\<lparr>cg_inner := g\<rparr>) m (ml_authenticator L (cg_inner cg))
        (ml_epoch L (cg_inner cg)) = (r1, cg1)" by (meson surj_pair)
    from Pair Some assms(2) inner have r: "(r, cg') = (case r1 of Inr out \<Rightarrow> (Inr out, cg1)
        | Inl e \<Rightarrow> (Inl e, case ml_clear_pending L (cg_inner cg1) of None \<Rightarrow> cg1 | Some g \<Rightarrow> cg1\<lparr>cg_inner := g\<rparr>))"
      by (auto simp: own_commit_def finish_own_commit_def Let_def split: sum.split)
    show ?thesis
    proof (cases r1)
      case (Inl e)
      with inner have "cg1 = cg\<lparr>cg_inner := g\<rparr>"
        by (auto simp: finish_own_commit_inner_def split: option.splits sum.splits if_splits)
      with r Inl g ok show ?thesis by (auto simp: mls_lib_ok_def split: option.splits)
    next
      case (Inr out)
      with inner ok g have "ml_epoch L (cg_inner cg1) = ml_epoch L (cg_inner cg) + 1 \<and> co_epoch out = ml_epoch L (cg_inner cg)"
        by (auto simp: finish_own_commit_inner_def mls_lib_ok_def split: option.splits sum.splits if_splits)
      with r Inr show ?thesis by simp
    qed
  qed
qed

lemma seal_message_epoch:
  "mls_lib_ok L \<Longrightarrow> seal_message L encode cg envelope = (r, cg') \<Longrightarrow>
     ml_epoch L (cg_inner cg') = ml_epoch L (cg_inner cg) \<and> cg_tree_hash cg' = cg_tree_hash cg"
  by (auto simp: seal_message_def mls_lib_ok_def split: sum.splits prod.splits)

end
