(* ===== verification/E2eeTransport.thy ===== *)
theory E2eeTransport
  imports MlsGroup EventIngest
begin

text \<open>
  What the client of the encrypted channels is made of, \<open>crates/farder-e2ee-client/src\<close>: the transport
  it runs over (\<open>transport.rs\<close>), its errors (\<open>channel.rs\<close>), its place in its device's chain
  (\<open>chain.rs\<close>), and operations as functions on the client's state that return an error or a value.

  A transport is a record of functions over a state of its own, which stands for the connection, the
  server behind it and the clock: what a request does to it and what it answers is left open.  The
  only implementation (\<open>client/src-tauri/src/e2ee_transport.rs\<close>) passes the server's answers on.
\<close>

section \<open>Operations\<close>

text \<open>\<open>and_then\<close> is \<open>?\<close> between two calls: what the first one did stays when the second one fails.\<close>

definition give :: "'e + 'a \<Rightarrow> 's \<Rightarrow> ('e + 'a) \<times> 's" where
  "give r s = (r, s)"

definition and_then :: "('s \<Rightarrow> ('e + 'a) \<times> 's) \<Rightarrow> ('a \<Rightarrow> 's \<Rightarrow> ('e + 'b) \<times> 's) \<Rightarrow> 's \<Rightarrow> ('e + 'b) \<times> 's" where
  "and_then m f s = (case m s of (Inl e, s') \<Rightarrow> (Inl e, s') | (Inr x, s') \<Rightarrow> f x s')"

fun for_each :: "('i \<Rightarrow> 's \<Rightarrow> ('e + 'a) \<times> 's) \<Rightarrow> 'i list \<Rightarrow> 's \<Rightarrow> ('e + 'a list) \<times> 's" where
  "for_each f [] = give (Inr [])"
| "for_each f (i # is) = and_then (f i) (\<lambda>x. and_then (for_each f is) (\<lambda>xs. give (Inr (x # xs))))"

section \<open>The transport\<close>

datatype transport_error = ServerRejected string | TransportFailed string

definition contains :: "string \<Rightarrow> string \<Rightarrow> bool" where
  "contains reason part \<longleftrightarrow> list_ex (\<lambda>n. take (length part) (drop n reason) = part) [0..<Suc (length reason)]"

definition rejected_with :: "string \<Rightarrow> transport_error \<Rightarrow> bool" where
  "rejected_with part e = (case e of ServerRejected reason \<Rightarrow> contains reason part | TransportFailed _ \<Rightarrow> False)"

definition is_stale_epoch :: "transport_error \<Rightarrow> bool" where
  "is_stale_epoch e = (case e of ServerRejected reason \<Rightarrow> reason = ''stale-epoch'' | TransportFailed _ \<Rightarrow> False)"

definition is_commit_rate_limited :: "transport_error \<Rightarrow> bool" where
  "is_commit_rate_limited = rejected_with ''commit-rate rule:''"

definition is_freshness_ceiling_reached :: "transport_error \<Rightarrow> bool" where
  "is_freshness_ceiling_reached = rejected_with ''freshness ceiling reached''"

definition is_sealed_pending_removals :: "transport_error \<Rightarrow> bool" where
  "is_sealed_pending_removals = rejected_with ''channel is sealed until a rekey discharges its pending removals''"

definition is_device_cap_reached :: "transport_error \<Rightarrow> bool" where
  "is_device_cap_reached = rejected_with ''identity already has the maximum number of live devices''"

definition rejection_reason :: "transport_error \<Rightarrow> string" where
  "rejection_reason e = (case e of ServerRejected reason \<Rightarrow> reason | TransportFailed message \<Rightarrow> message)"

record event_accepted =
  ea_event_hash :: event_hash
  ea_timestamp :: nat

text \<open>A page of Welcomes or of the control plane; the cursor is a \<open>u64\<close>.\<close>

record event_page =
  pg_events :: "bytes list"
  pg_next_accept_seq :: "64 word"
  pg_more :: bool

record 't transport =
  tr_now :: "'t \<Rightarrow> nat"
  tr_submit_event :: "event \<Rightarrow> 't \<Rightarrow> (transport_error + event_accepted) \<times> 't"
  tr_fetch_welcomes :: "nat option \<Rightarrow> 64 word \<Rightarrow> 't \<Rightarrow> (transport_error + event_page) \<times> 't"
  tr_fetch_mls_control :: "nat \<Rightarrow> 64 word \<Rightarrow> 't \<Rightarrow> (transport_error + event_page) \<times> 't"
  tr_fetch_key_packages :: "public_key \<Rightarrow> device_id \<Rightarrow> 't \<Rightarrow> (transport_error + bytes list) \<times> 't"
  tr_fetch_device_certs :: "public_key \<Rightarrow> 't \<Rightarrow> (transport_error + bytes list) \<times> 't"

section \<open>Errors\<close>

text \<open>The reasons of \<open>E2eeError::Chain\<close> and the sources of \<open>E2eeError::Mls\<close>, by the check that refuses.\<close>

datatype chain_fault =
    NoPriorEvent | NoDeadLeaves | NoKeyPackage | NotAKeyPackage | CredentialOfAnother | CommitGap
  | OtherChannel | ForeignTree | GenerationOverflow | OtherIdentity

datatype mls_fault = OfGroup group_error | EventUndecodable | NoWelcomeMade

datatype e2ee_error =
    Transport transport_error
  | StaleEpochDiverged nat
  | RekeyRateLimited string
  | CommitRejectedDiverged string nat
  | ChannelIdBelowFloor nat
  | ChainFault chain_fault
  | MlsFailed mls_fault
  | NotConfirmed
  | SealedOverCap
  | ResyncEquivocation nat nat
  | ResyncPoisoned declared_member
  | DeviceCapReached string

definition is_diverged :: "e2ee_error \<Rightarrow> bool" where
  "is_diverged e =
     (case e of StaleEpochDiverged _ \<Rightarrow> True | RekeyRateLimited _ \<Rightarrow> True | CommitRejectedDiverged _ _ \<Rightarrow> True
      | ResyncEquivocation _ _ \<Rightarrow> True | ResyncPoisoned _ \<Rightarrow> True | _ \<Rightarrow> False)"

section \<open>The device's chain\<close>

record actor =
  at_device :: keypair
  at_identity :: keypair
  at_server :: server_id

record chain_state =
  cs_next_seq :: nat
  cs_last_event_hash :: "event_hash option"
  cs_lamport :: nat

definition advance :: "crypto \<Rightarrow> event \<Rightarrow> chain_state" where
  "advance cr e = \<lparr>cs_next_seq = (ev_seq e + 1) mod 2 ^ 64, cs_last_event_hash = Some (event_hash_of cr e),
                   cs_lamport = ev_lamport e\<rparr>"

definition build_next_event ::
    "crypto \<Rightarrow> keypair \<Rightarrow> keypair \<Rightarrow> server_id \<Rightarrow> chain_state \<Rightarrow> nat \<Rightarrow> event_payload \<Rightarrow> event" where
  "build_next_event cr device identity server_id chain timestamp payload =
     event_sign cr
       \<lparr>ec_server_id = server_id, ec_author = ed_public cr identity,
        ec_device = device_id_of cr (ed_public cr device), ec_seq = cs_next_seq chain,
        ec_prev = cs_last_event_hash chain, ec_lamport = (cs_lamport chain + 1) mod 2 ^ 64,
        ec_timestamp = timestamp, ec_payload = payload\<rparr> device"

section \<open>The client\<close>

text \<open>
  \<open>client\<close> is what an operation borrows mutably; \<open>env\<close> the transport, the MLS library with the store
  behind it, the cryptography and the codecs of the third-party serializer.
\<close>

record ('t, 'g) client =
  cl_net :: 't
  cl_chain :: chain_state
  cl_group :: "'g channel_group"

record ('t, 'g, 's) env =
  en_net :: "'t transport"
  en_lib :: "('g, 's) mls_lib"
  en_crypto :: crypto
  en_event :: "bytes \<Rightarrow> event option" \<comment> \<open>\<open>Event::from_bytes\<close>\<close>
  en_envelope :: "message_envelope \<Rightarrow> bytes option"

record channel_key =
  ck_server :: server_id
  ck_channel :: nat

definition ask :: "('t \<Rightarrow> (transport_error + 'a) \<times> 't) \<Rightarrow> ('t, 'g) client \<Rightarrow> (e2ee_error + 'a) \<times> ('t, 'g) client" where
  "ask request s =
     (case request (cl_net s) of (r, t) \<Rightarrow> (map_sum Transport id r, s\<lparr>cl_net := t\<rparr>))"

definition on_group ::
    "('g channel_group \<Rightarrow> (group_error + 'a) \<times> 'g channel_group) \<Rightarrow> ('t, 'g) client \<Rightarrow> (e2ee_error + 'a) \<times> ('t, 'g) client" where
  "on_group change s =
     (case change (cl_group s) of (r, cg) \<Rightarrow> (map_sum (MlsFailed \<circ> OfGroup) id r, s\<lparr>cl_group := cg\<rparr>))"

definition cl_epoch :: "('t, 'g, 's) env \<Rightarrow> ('t, 'g) client \<Rightarrow> nat" where
  "cl_epoch E s = ml_epoch (en_lib E) (cg_inner (cl_group s))"

text \<open>
  Build the next event, submit it, and advance the chain once it is accepted; \<open>refused\<close> turns the
  transport's error, given the group's epoch, into the operation's.
\<close>

definition submit_with ::
    "(transport_error \<Rightarrow> nat \<Rightarrow> e2ee_error) \<Rightarrow> ('t, 'g, 's) env \<Rightarrow> actor \<Rightarrow> server_id \<Rightarrow> event_payload \<Rightarrow>
     ('t, 'g) client \<Rightarrow> (e2ee_error + event_accepted) \<times> ('t, 'g) client" where
  "submit_with refused E a sid payload s =
     (let e = build_next_event (en_crypto E) (at_device a) (at_identity a) sid (cl_chain s)
                (tr_now (en_net E) (cl_net s)) payload
      in case tr_submit_event (en_net E) e (cl_net s) of
           (Inl err, t) \<Rightarrow> (Inl (refused err (cl_epoch E s)), s\<lparr>cl_net := t\<rparr>)
         | (Inr accepted, t) \<Rightarrow> (Inr accepted, s\<lparr>cl_net := t, cl_chain := advance (en_crypto E) e\<rparr>))"

definition submit_next ::
    "('t, 'g, 's) env \<Rightarrow> actor \<Rightarrow> server_id \<Rightarrow> event_payload \<Rightarrow> ('t, 'g) client \<Rightarrow> (e2ee_error + event_accepted) \<times> ('t, 'g) client" where
  "submit_next = submit_with (\<lambda>err _. Transport err)"

text \<open>The head every commit and sealed message attests.\<close>

definition authz_head :: "('t, 'g) client \<Rightarrow> (e2ee_error + event_hash) \<times> ('t, 'g) client" where
  "authz_head s = give (or_fail (cs_last_event_hash (cl_chain s)) (ChainFault NoPriorEvent) Inr) s"

section \<open>Catching up\<close>

text \<open>
  The two paging loops (\<open>join.rs\<close>, \<open>resync.rs\<close>): they end because a page that says there is more must
  move the \<open>u64\<close> cursor forward.
\<close>

definition decode_all :: "('t, 'g, 's) env \<Rightarrow> e2ee_error \<Rightarrow> bytes list \<Rightarrow> e2ee_error + event list" where
  "decode_all E err = collect_all (\<lambda>bs. or_fail (en_event E bs) err Inr)"

definition undecodable_page :: e2ee_error where
  "undecodable_page = Transport (TransportFailed ''decode event'')"

definition stalled_page :: e2ee_error where
  "stalled_page = Transport (TransportFailed ''more=true without advancing the cursor'')"

lemma cursor_bound: "unat (w :: 64 word) < 18446744073709551616"
  using unsigned_less [where ?'a = nat and w = w] by simp

function fetch_pages ::
    "('t, 'g, 's) env \<Rightarrow> (64 word \<Rightarrow> 't \<Rightarrow> (transport_error + event_page) \<times> 't) \<Rightarrow> (event \<Rightarrow> 'a option) \<Rightarrow> 64 word \<Rightarrow> 'a list \<Rightarrow>
     ('t, 'g) client \<Rightarrow> (e2ee_error + 'a list \<times> 64 word) \<times> ('t, 'g) client" where
  "fetch_pages E fetch pick cursor out s =
     (case ask (fetch cursor) s of
        (Inl e, s1) \<Rightarrow> (Inl e, s1)
      | (Inr page, s1) \<Rightarrow>
          (case decode_all E undecodable_page (pg_events page) of
             Inl e \<Rightarrow> (Inl e, s1)
           | Inr events \<Rightarrow>
               (let out1 = out @ List.map_filter pick events in
                if \<not> pg_more page then (Inr (out1, pg_next_accept_seq page), s1)
                else if pg_next_accept_seq page \<le> cursor then (Inl stalled_page, s1)
                else fetch_pages E fetch pick (pg_next_accept_seq page) out1 s1)))"
  by pat_completeness auto

termination
  by (relation "measure (\<lambda>(E, fetch, pick, cursor, out, s). 2 ^ 64 - unat cursor)")
    (auto simp: not_le word_less_nat_alt intro!: diff_less_mono2 cursor_bound)

declare fetch_pages.simps [simp del]

definition fetch_mls_control_exhaustive ::
    "('t, 'g, 's) env \<Rightarrow> nat \<Rightarrow> 64 word \<Rightarrow> ('t, 'g) client \<Rightarrow> (e2ee_error + event list \<times> 64 word) \<times> ('t, 'g) client" where
  "fetch_mls_control_exhaustive E channel_id since =
     fetch_pages E (tr_fetch_mls_control (en_net E) channel_id) Some since []"

record pending_welcome =
  pw_channel_id :: nat
  pw_generation :: nat
  pw_welcome :: bytes

definition match_pending_welcome :: "public_key \<Rightarrow> device_id \<Rightarrow> event \<Rightarrow> pending_welcome option" where
  "match_pending_welcome my_identity my_device e =
     (case ev_payload e of
        MlsWelcome c gen _ for_member for_device welcome \<Rightarrow>
          if for_member \<noteq> my_identity \<or> for_device \<noteq> my_device then None
          else Some \<lparr>pw_channel_id = c, pw_generation = gen, pw_welcome = welcome\<rparr>
      | _ \<Rightarrow> None)"

definition fetch_pending_welcomes ::
    "('t, 'g, 's) env \<Rightarrow> actor \<Rightarrow> nat option \<Rightarrow> 64 word \<Rightarrow> ('t, 'g) client \<Rightarrow> (e2ee_error + pending_welcome list) \<times> ('t, 'g) client" where
  "fetch_pending_welcomes E a channel_id since =
     (let cr = en_crypto E in
      and_then (fetch_pages E (tr_fetch_welcomes (en_net E) channel_id)
                  (match_pending_welcome (ed_public cr (at_identity a)) (device_id_of cr (ed_public cr (at_device a)))) since [])
        (\<lambda>(out, _). give (Inr out)))"

end
