(* ===== verification/E2eeClient.thy ===== *)
theory E2eeClient
  imports E2eeTransport
begin

text \<open>
  Receiving and sending on an encrypted channel: device certificates from the log (\<open>cert.rs\<close>), other
  members' commits through the two gates (\<open>commit.rs\<close>), sealed messages (\<open>sealed.rs\<close>), the bounded
  resync (\<open>resync.rs\<close>) and joining (\<open>join.rs\<close>).
\<close>

section \<open>Certificates from the log\<close>

definition fetch_lifecycle ::
    "('t, 'g, 's) env \<Rightarrow> public_key \<Rightarrow> ('t, 'g) client \<Rightarrow> (e2ee_error + event list) \<times> ('t, 'g) client" where
  "fetch_lifecycle E identity =
     and_then (ask (tr_fetch_device_certs (en_net E) identity)) (\<lambda>events.
     give (decode_all E (MlsFailed EventUndecodable) events))"

definition revoked_in :: "event list \<Rightarrow> device_id set" where
  "revoked_in events = set (List.map_filter (\<lambda>e. case ev_payload e of DeviceRevoked d \<Rightarrow> Some d | _ \<Rightarrow> None) events)"

text \<open>The certificates of the identity that verify and whose device is not revoked, oldest first.\<close>

definition standing_certs :: "crypto \<Rightarrow> public_key \<Rightarrow> event list \<Rightarrow> device_cert list" where
  "standing_certs cr identity events =
     List.map_filter (\<lambda>e. case ev_payload e of
         DeviceAuthorized cert \<Rightarrow>
           if dc_identity (cert_core cert) = identity \<and> dc_device_id (cert_core cert) \<notin> revoked_in events \<and>
              cert_verify cr cert = Inr ()
           then Some cert else None
       | _ \<Rightarrow> None) events"

definition newest_cert :: "crypto \<Rightarrow> public_key \<Rightarrow> device_id \<Rightarrow> event list \<Rightarrow> device_cert option" where
  "newest_cert cr identity device events =
     foldl (\<lambda>found cert. if dc_device_id (cert_core cert) = device then Some cert else found) None
       (standing_certs cr identity events)"

definition cert_unexpired :: "nat \<Rightarrow> device_cert \<Rightarrow> bool" where
  "cert_unexpired now cert = (case dc_expires_at (cert_core cert) of None \<Rightarrow> True | Some t \<Rightarrow> now \<le> t)"

definition resolve_device_cert ::
    "('t, 'g, 's) env \<Rightarrow> declared_member \<Rightarrow> ('t, 'g) client \<Rightarrow> (e2ee_error + device_cert option) \<times> ('t, 'g) client" where
  "resolve_device_cert E m =
     and_then (fetch_lifecycle E (fst m)) (\<lambda>events s.
     give (Inr (case newest_cert (en_crypto E) (fst m) (snd m) events of
                  None \<Rightarrow> None
                | Some cert \<Rightarrow> if cert_unexpired (tr_now (en_net E) (cl_net s)) cert then Some cert else None)) s)"

type_synonym cert_resolver = "declared_member \<Rightarrow> device_cert option"

definition build_cert_resolver ::
    "('t, 'g, 's) env \<Rightarrow> declared_member list \<Rightarrow> ('t, 'g) client \<Rightarrow> (e2ee_error + cert_resolver) \<times> ('t, 'g) client" where
  "build_cert_resolver E members =
     and_then (for_each (\<lambda>m. resolve_device_cert E m) members) (\<lambda>certs.
     give (Inr (foldl (\<lambda>known (m, c). case c of None \<Rightarrow> known | Some cert \<Rightarrow> known(m \<mapsto> cert)) Map.empty (zip members certs))))"

text \<open>\<open>reset.rs\<close>: every device of the identity that is authorized, not revoked and not expired.\<close>

definition member_live_leaves ::
    "('t, 'g, 's) env \<Rightarrow> public_key \<Rightarrow> ('t, 'g) client \<Rightarrow> (e2ee_error + declared_member list) \<times> ('t, 'g) client" where
  "member_live_leaves E identity =
     and_then (fetch_lifecycle E identity) (\<lambda>events s.
     (let certs = standing_certs (en_crypto E) identity events;
          live = (\<lambda>d. case newest_cert (en_crypto E) identity d events of
                    None \<Rightarrow> False | Some cert \<Rightarrow> cert_unexpired (tr_now (en_net E) (cl_net s)) cert)
      in give (Inr (map (Pair identity) (sort (filter live (remdups (map (dc_device_id \<circ> cert_core) certs)))))) s))"

section \<open>Other members' commits\<close>

record declared_commit =
  dm_epoch :: nat
  dm_adds :: "declared_add list"
  dm_removes :: "declared_remove list"
  dm_post_tree_hash :: bytes

datatype incoming_outcome = Applied nat bytes | OutOfOrder nat nat | LeafBindingFailure declared_member

definition leaf_binds :: "crypto \<Rightarrow> cert_resolver \<Rightarrow> actual_leaf \<Rightarrow> bool" where
  "leaf_binds cr certs leaf =
     (case certs (al_member leaf) of
        None \<Rightarrow> False
      | Some cert \<Rightarrow> verify_leaf_binding cr (al_credential leaf) (al_key leaf) cert = Inr ())"

definition process_incoming_commit ::
    "('t, 'g, 's) env \<Rightarrow> cert_resolver \<Rightarrow> bytes \<Rightarrow> declared_commit \<Rightarrow> ('t, 'g) client \<Rightarrow>
     (e2ee_error + incoming_outcome) \<times> ('t, 'g) client" where
  "process_incoming_commit E certs commit_bytes declared s =
     (if dm_epoch declared \<noteq> cl_epoch E s then (Inr (OutOfOrder (cl_epoch E s) (dm_epoch declared)), s)
      else and_then
        (on_group (\<lambda>cg. process_commit_checked (en_lib E) cg commit_bytes (map add_leaf (dm_adds declared))
                          (map rem_leaf (dm_removes declared)) (dm_post_tree_hash declared)))
        (\<lambda>processed s1.
         give (Inr (case find (\<lambda>leaf. \<not> leaf_binds (en_crypto E) certs leaf) (ss_adds processed) of
                      Some leaf \<Rightarrow> LeafBindingFailure (al_member leaf)
                    | None \<Rightarrow> Applied (cl_epoch E s1) (ss_post_tree_hash processed))) s1) s)"

definition declared_of :: "mls_commit \<Rightarrow> declared_commit" where
  "declared_of mc = \<lparr>dm_epoch = mc_epoch mc, dm_adds = mc_adds mc, dm_removes = mc_removes mc,
                     dm_post_tree_hash = mc_post_tree_hash mc\<rparr>"

fun apply_commits ::
    "('t, 'g, 's) env \<Rightarrow> cert_resolver \<Rightarrow> event list \<Rightarrow> ('t, 'g) client \<Rightarrow> (e2ee_error + unit) \<times> ('t, 'g) client" where
  "apply_commits E certs [] = give (Inr ())"
| "apply_commits E certs (e # events) =
     (case ev_payload e of
        MlsCommit mc \<Rightarrow>
          and_then (process_incoming_commit E certs (mc_mls_message mc) (declared_of mc)) (\<lambda>outcome.
          case outcome of
            Applied _ _ \<Rightarrow> apply_commits E certs events
          | OutOfOrder current received \<Rightarrow>
              if received < current then apply_commits E certs events else give (Inl (ChainFault CommitGap))
          | LeafBindingFailure m \<Rightarrow> give (Inl (ResyncPoisoned m)))
      | _ \<Rightarrow> apply_commits E certs events)"

section \<open>Sealed messages\<close>

record sealed_attachment =
  sa_cap :: attachment_cap
  sa_key :: bytes
  sa_filename :: string
  sa_mime :: string

record seal_context =
  sx_key :: channel_key
  sx_generation :: nat
  sx_content :: "nat list"
  sx_reply_to :: "event_ref option"
  sx_attachments :: "sealed_attachment list"

record sealed_sent =
  so_event_hash :: event_hash
  so_epoch :: nat

definition envelope_of :: "seal_context \<Rightarrow> message_envelope" where
  "envelope_of ctx = \<lparr>me_content = sx_content ctx, me_attachment_keys = map sa_key (sx_attachments ctx),
                      me_filenames = map sa_filename (sx_attachments ctx), me_mimes = map sa_mime (sx_attachments ctx)\<rparr>"

definition within_caps :: "('t, 'g, 's) env \<Rightarrow> message_envelope \<Rightarrow> e2ee_error + unit" where
  "within_caps E envelope =
     or_fail (en_envelope E envelope) (MlsFailed (OfGroup EnvelopeUnencodable)) (\<lambda>encoded.
     ensure (check_preseal_limits envelope (length encoded) = Inr ()) SealedOverCap (Inr ()))"

definition send_sealed ::
    "('t, 'g, 's) env \<Rightarrow> actor \<Rightarrow> bool \<Rightarrow> seal_context \<Rightarrow> ('t, 'g) client \<Rightarrow> (e2ee_error + sealed_sent) \<times> ('t, 'g) client" where
  "send_sealed E a confirmed ctx =
     and_then (give (ensure confirmed NotConfirmed (Inr ()))) (\<lambda>_.
     and_then authz_head (\<lambda>head.
     and_then (give (within_caps E (envelope_of ctx))) (\<lambda>_ s.
     (let epoch = cl_epoch E s in
      and_then (on_group (\<lambda>cg. seal_message (en_lib E) (en_envelope E) cg (envelope_of ctx))) (\<lambda>ciphertext.
      and_then (give (ensure (length ciphertext \<le> MAX_E2EE_CIPHERTEXT_BYTES) SealedOverCap (Inr ()))) (\<lambda>_.
      and_then (submit_next E a (ck_server (sx_key ctx))
        (MessagePostedE2ee (ck_channel (sx_key ctx)) (sx_generation ctx) epoch ciphertext (sx_reply_to ctx)
           (map sa_cap (sx_attachments ctx)) head)) (\<lambda>accepted.
      give (Inr \<lparr>so_event_hash = ea_event_hash accepted, so_epoch = epoch\<rparr>)))) s))))"

datatype sealed_outcome = Decrypted message_envelope | Undecryptable

definition receive_sealed ::
    "('g, 's) mls_lib \<Rightarrow> (bytes \<Rightarrow> message_envelope option) \<Rightarrow> 'g channel_group \<Rightarrow> bytes \<Rightarrow> sealed_outcome \<times> 'g channel_group" where
  "receive_sealed L decode cg ciphertext =
     (case open_message L decode cg ciphertext of
        (Inr envelope, cg') \<Rightarrow> (Decrypted envelope, cg')
      | (Inl _, cg') \<Rightarrow> (Undecryptable, cg'))"

section \<open>The bounded resync\<close>

definition MAX_UNPRODUCTIVE_RESYNC_ATTEMPTS :: nat where "MAX_UNPRODUCTIVE_RESYNC_ATTEMPTS = 3"
definition MAX_TOTAL_RESYNC_ATTEMPTS :: nat where "MAX_TOTAL_RESYNC_ATTEMPTS = 10"

definition resync ::
    "('t, 'g, 's) env \<Rightarrow> cert_resolver \<Rightarrow> nat \<Rightarrow> 64 word \<Rightarrow> ('t, 'g) client \<Rightarrow> (e2ee_error + 64 word) \<times> ('t, 'g) client" where
  "resync E certs channel_id cursor =
     and_then (fetch_mls_control_exhaustive E channel_id cursor) (\<lambda>(events, next).
     and_then (apply_commits E certs events) (\<lambda>_. give (Inr next)))"

text \<open>The two counters of the loop after one more attempt, or the bound that ends it.\<close>

record resync_progress =
  rp_unproductive :: nat
  rp_attempts :: nat
  rp_last_epoch :: nat

definition resync_again :: "resync_progress \<Rightarrow> nat \<Rightarrow> e2ee_error + resync_progress" where
  "resync_again p new_epoch =
     (let attempts = rp_attempts p + 1;
          unproductive = (if new_epoch = rp_last_epoch p then rp_unproductive p + 1 else 0)
      in ensure (unproductive < MAX_UNPRODUCTIVE_RESYNC_ATTEMPTS) (ResyncEquivocation attempts new_epoch)
         (ensure (attempts < MAX_TOTAL_RESYNC_ATTEMPTS) (ResyncEquivocation attempts new_epoch)
         (Inr \<lparr>rp_unproductive = unproductive, rp_attempts = attempts, rp_last_epoch = new_epoch\<rparr>)))"

lemma resync_again_attempts:
  "resync_again p new_epoch = Inr p' \<Longrightarrow> rp_attempts p' = rp_attempts p + 1 \<and> rp_attempts p' < MAX_TOTAL_RESYNC_ATTEMPTS"
  by (auto simp: resync_again_def Let_def ensure_Inr)

function resync_loop ::
    "('t, 'g, 's) env \<Rightarrow> actor \<Rightarrow> bool \<Rightarrow> seal_context \<Rightarrow> cert_resolver \<Rightarrow> resync_progress \<Rightarrow> 64 word \<Rightarrow> ('t, 'g) client \<Rightarrow>
     (e2ee_error + sealed_sent \<times> 64 word) \<times> ('t, 'g) client" where
  "resync_loop E a confirmed ctx certs p cursor s =
     (case send_sealed E a confirmed ctx s of
        (Inr sent, s1) \<Rightarrow> (Inr (sent, cursor), s1)
      | (Inl (Transport err), s1) \<Rightarrow>
          if \<not> is_stale_epoch err then (Inl (Transport err), s1)
          else (case resync E certs (ck_channel (sx_key ctx)) cursor s1 of
                  (Inl e, s2) \<Rightarrow> (Inl e, s2)
                | (Inr next, s2) \<Rightarrow>
                    (case resync_again p (cl_epoch E s2) of
                       Inl e \<Rightarrow> (Inl e, s2)
                     | Inr p' \<Rightarrow> resync_loop E a confirmed ctx certs p' next s2))
      | (Inl e, s1) \<Rightarrow> (Inl e, s1))"
  by pat_completeness auto

termination
  by (relation "measure (\<lambda>(E, a, confirmed, ctx, certs, p, cursor, s). MAX_TOTAL_RESYNC_ATTEMPTS - rp_attempts p)")
    (auto dest!: resync_again_attempts)

declare resync_loop.simps [simp del]

definition send_sealed_resync ::
    "('t, 'g, 's) env \<Rightarrow> actor \<Rightarrow> bool \<Rightarrow> seal_context \<Rightarrow> cert_resolver \<Rightarrow> 64 word \<Rightarrow> ('t, 'g) client \<Rightarrow>
     (e2ee_error + sealed_sent \<times> 64 word) \<times> ('t, 'g) client" where
  "send_sealed_resync E a confirmed ctx certs since s =
     resync_loop E a confirmed ctx certs \<lparr>rp_unproductive = 0, rp_attempts = 0, rp_last_epoch = cl_epoch E s\<rparr> since s"

section \<open>Joining\<close>

definition confirm ::
    "('t, 'g, 's) env \<Rightarrow> actor \<Rightarrow> server_id \<Rightarrow> event_payload \<Rightarrow> ('t, 'g) client \<Rightarrow> (e2ee_error + event_hash) \<times> ('t, 'g) client" where
  "confirm E a sid payload = and_then (submit_next E a sid payload) (\<lambda>accepted. give (Inr (ea_event_hash accepted)))"

definition confirm_leaf ::
    "('t, 'g, 's) env \<Rightarrow> actor \<Rightarrow> channel_key \<Rightarrow> bytes \<Rightarrow> pending_welcome \<Rightarrow> join_info \<Rightarrow> ('t, 'g) client \<Rightarrow>
     (e2ee_error + event_hash) \<times> ('t, 'g) client" where
  "confirm_leaf E a key store_hash pending info =
     and_then (give (ensure (ck_channel key = pw_channel_id pending) (ChainFault OtherChannel) (Inr ()))) (\<lambda>_.
     confirm E a (ck_server key)
       (MlsLeafConfirmed (ck_channel key) (pw_generation pending) (ji_epoch info) (ji_tree_hash info) store_hash))"

definition join_reset ::
    "('t, 'g, 's) env \<Rightarrow> actor \<Rightarrow> channel_key \<Rightarrow> bytes \<Rightarrow> pending_welcome \<Rightarrow> bytes \<Rightarrow> ('t, 'g) client \<Rightarrow>
     (e2ee_error + event_hash) \<times> ('t, 'g) client" where
  "join_reset E a key store_hash welcome reset_post_tree_hash =
     and_then (give (ensure (ck_channel key = pw_channel_id welcome) (ChainFault OtherChannel) (Inr ()))) (\<lambda>_.
     and_then (give (map_sum (MlsFailed \<circ> OfGroup) id (join_from_welcome (en_lib E) (pw_welcome welcome)))) (\<lambda>(_, info).
     and_then (give (ensure (ji_tree_hash info = reset_post_tree_hash) (ChainFault ForeignTree) (Inr ()))) (\<lambda>_.
     confirm E a (at_server a)
       (MlsLeafConfirmed (ck_channel key) (pw_generation welcome) (ji_epoch info) reset_post_tree_hash store_hash))))"

end
