(* ===== verification/E2eeSteward.thy ===== *)
theory E2eeSteward
  imports E2eeClient
begin

text \<open>
  Changing an encrypted channel from the client: our own commits, which merge locally before they are
  submitted (bootstrap in \<open>channel.rs\<close>, \<open>commit.rs\<close>, \<open>rekey.rs\<close>, \<open>drift.rs\<close>), the send that repairs a
  sealed channel (\<open>keepalive.rs\<close>), devices (\<open>device.rs\<close>, \<open>revoke.rs\<close>, \<open>reprovision.rs\<close>) and the reset
  (\<open>reset.rs\<close>).
\<close>

section \<open>Our own commits\<close>

text \<open>The contexts of the source that name a channel, its generation and the store's instance hash.\<close>

record commit_context =
  cx_key :: channel_key
  cx_generation :: nat
  cx_store_instance_hash :: bytes

definition commit_refused :: "transport_error \<Rightarrow> nat \<Rightarrow> e2ee_error" where
  "commit_refused err local_epoch =
     (if is_stale_epoch err then StaleEpochDiverged local_epoch
      else case err of ServerRejected reason \<Rightarrow> CommitRejectedDiverged reason local_epoch
                     | TransportFailed _ \<Rightarrow> Transport err)"

definition rekey_refused :: "transport_error \<Rightarrow> nat \<Rightarrow> e2ee_error" where
  "rekey_refused err local_epoch =
     (if is_stale_epoch err then StaleEpochDiverged local_epoch
      else if is_commit_rate_limited err then RekeyRateLimited (rejection_reason err)
      else case err of ServerRejected reason \<Rightarrow> CommitRejectedDiverged reason local_epoch
                     | TransportFailed _ \<Rightarrow> Transport err)"

record commit_submitted =
  sb_event_hash :: event_hash
  sb_local_epoch :: nat
  sb_post_epoch_authenticator :: bytes
  sb_post_tree_hash :: bytes

definition removes_of :: "commit_outcome \<Rightarrow> declared_remove list" where
  "removes_of outcome = map (\<lambda>m. \<lparr>rem_identity = fst m, rem_device = snd m\<rparr>) (co_removes outcome)"

definition submit_commit ::
    "(transport_error \<Rightarrow> nat \<Rightarrow> e2ee_error) \<Rightarrow> ('t, 'g, 's) env \<Rightarrow> actor \<Rightarrow> commit_context \<Rightarrow> commit_outcome \<Rightarrow>
     declared_add list \<Rightarrow> declared_remove list \<Rightarrow> event_hash \<Rightarrow> ('t, 'g) client \<Rightarrow>
     (e2ee_error + commit_submitted) \<times> ('t, 'g) client" where
  "submit_commit refused E a ctx outcome adds removes head s =
     (let auth = ml_authenticator (en_lib E) (cg_inner (cl_group s)) in
      and_then (submit_with refused E a (ck_server (cx_key ctx))
        (MlsCommit \<lparr>mc_channel_id = ck_channel (cx_key ctx), mc_generation = cx_generation ctx, mc_epoch = co_epoch outcome,
           mc_mls_message = co_commit_bytes outcome, mc_adds = adds, mc_removes = removes,
           mc_prev_epoch_authenticator = co_prev_epoch_authenticator outcome, mc_post_epoch_authenticator = auth,
           mc_post_tree_hash = co_post_tree_hash outcome, mc_authz_head = head,
           mc_store_instance_hash = cx_store_instance_hash ctx\<rparr>)) (\<lambda>accepted s1.
      give (Inr \<lparr>sb_event_hash = ea_event_hash accepted, sb_local_epoch = cl_epoch E s1,
                 sb_post_epoch_authenticator = auth, sb_post_tree_hash = co_post_tree_hash outcome\<rparr>) s1) s)"

definition bootstrap_group ::
    "('t, 'g, 's) env \<Rightarrow> actor \<Rightarrow> channel_key \<Rightarrow> bytes \<Rightarrow> ('t, 'g) client \<Rightarrow> (e2ee_error + commit_submitted) \<times> ('t, 'g) client" where
  "bootstrap_group E a key store_hash =
     and_then authz_head (\<lambda>head.
     and_then (on_group (self_update (en_lib E))) (\<lambda>outcome.
     submit_commit commit_refused E a \<lparr>cx_key = key, cx_generation = 0, cx_store_instance_hash = store_hash\<rparr>
       outcome [] [] head))"

definition rekey_channel ::
    "('t, 'g, 's) env \<Rightarrow> actor \<Rightarrow> commit_context \<Rightarrow> ('t, 'g) client \<Rightarrow> (e2ee_error + commit_submitted) \<times> ('t, 'g) client" where
  "rekey_channel E a ctx =
     and_then authz_head (\<lambda>head.
     and_then (on_group (self_update (en_lib E))) (\<lambda>outcome.
     submit_commit rekey_refused E a ctx outcome [] [] head))"

definition discharge_drift ::
    "('t, 'g, 's) env \<Rightarrow> actor \<Rightarrow> commit_context \<Rightarrow> declared_member list \<Rightarrow> ('t, 'g) client \<Rightarrow>
     (e2ee_error + commit_submitted) \<times> ('t, 'g) client" where
  "discharge_drift E a ctx dead =
     and_then authz_head (\<lambda>head.
     and_then (give (ensure (dead \<noteq> []) (ChainFault NoDeadLeaves) (Inr ()))) (\<lambda>_.
     and_then (on_group (remove_members (en_lib E) dead)) (\<lambda>outcome.
     submit_commit rekey_refused E a ctx outcome [] (removes_of outcome) head)))"

text \<open>The newest key package of a member's device: its bytes and the hash of its event.\<close>

definition fetched_key_package ::
    "('t, 'g, 's) env \<Rightarrow> declared_member \<Rightarrow> ('t, 'g) client \<Rightarrow> (e2ee_error + bytes \<times> event_hash) \<times> ('t, 'g) client" where
  "fetched_key_package E member =
     and_then (ask (tr_fetch_key_packages (en_net E) (fst member) (snd member))) (\<lambda>events.
     give (ensure (events \<noteq> []) (ChainFault NoKeyPackage)
       (or_fail (en_event E (last events)) (MlsFailed EventUndecodable) (\<lambda>e.
        case ev_payload e of
          MlsKeyPackagePublished key_package _ _ \<Rightarrow>
            (case decode_key_package (en_lib E) key_package of
               Inl err \<Rightarrow> Inl (MlsFailed (OfGroup err))
             | Inr claimed \<Rightarrow> ensure (claimed = member) (ChainFault CredentialOfAnother)
                 (Inr (key_package, event_hash_of (en_crypto E) e)))
        | _ \<Rightarrow> Inl (ChainFault NotAKeyPackage)))))"

record member_added =
  ma_commit :: commit_submitted
  ma_welcome_event_hash :: event_hash

text \<open>The attested head is read after the commit has been merged.\<close>

definition add_member ::
    "('t, 'g, 's) env \<Rightarrow> actor \<Rightarrow> commit_context \<Rightarrow> declared_member \<Rightarrow> ('t, 'g) client \<Rightarrow> (e2ee_error + member_added) \<times> ('t, 'g) client" where
  "add_member E a ctx member =
     and_then (fetched_key_package E member) (\<lambda>(key_package, key_package_event_hash).
     and_then (on_group (add_members (en_lib E) [key_package])) (\<lambda>outcome.
     and_then (give (or_fail (co_welcome_bytes outcome) (MlsFailed NoWelcomeMade) Inr)) (\<lambda>welcome_bytes.
     and_then authz_head (\<lambda>head.
     and_then (submit_commit commit_refused E a ctx outcome
        [\<lparr>add_identity = fst member, add_device = snd member, add_key_package = key_package_event_hash\<rparr>]
        (removes_of outcome) head) (\<lambda>committed.
     and_then (submit_next E a (ck_server (cx_key ctx))
        (MlsWelcome (ck_channel (cx_key ctx)) (cx_generation ctx) (sb_event_hash committed) (fst member) (snd member) welcome_bytes)) (\<lambda>accepted.
     give (Inr \<lparr>ma_commit = committed, ma_welcome_event_hash = ea_event_hash accepted\<rparr>)))))))"

section \<open>When to rekey\<close>

definition REKEY_SEALED_SEND_INTERVAL :: nat where "REKEY_SEALED_SEND_INTERVAL = 100"
definition REKEY_WALL_CLOCK_SECS :: nat where "REKEY_WALL_CLOCK_SECS = 7 * 24 * 60 * 60"

record rekey_cadence =
  rc_has_committed :: bool
  rc_last_commit_epoch :: nat
  rc_current_epoch :: nat
  rc_committing_identities :: nat
  rc_sealed_sends_since_last_commit :: nat
  rc_last_rekey_secs :: nat

datatype rekey_trigger = CeilingSignalled | Proactive
datatype hold_reason = Cadence | RateRule
datatype rekey_decision = Rekey rekey_trigger | Hold hold_reason

definition rekey_permitted_by_rate_rule :: "bool \<Rightarrow> nat \<Rightarrow> nat \<Rightarrow> nat \<Rightarrow> bool \<Rightarrow> bool" where
  "rekey_permitted_by_rate_rule has_committed last_commit_epoch current_epoch committing ceiling_signalled \<longleftrightarrow>
     (if ceiling_signalled then True
      else if \<not> has_committed then True
      else (let gap = min COMMIT_RATE_MIN_EPOCH_GAP (max committing 1)
            in min (last_commit_epoch + gap) (2 ^ 64 - 1) \<le> current_epoch))"

definition should_rekey :: "bool \<Rightarrow> rekey_cadence \<Rightarrow> nat \<Rightarrow> rekey_decision" where
  "should_rekey ceiling_signalled c now_secs =
     (if ceiling_signalled then Rekey CeilingSignalled
      else if \<not> (rc_last_rekey_secs c = 0 \<or> REKEY_WALL_CLOCK_SECS \<le> now_secs - rc_last_rekey_secs c \<or>
                 REKEY_SEALED_SEND_INTERVAL \<le> rc_sealed_sends_since_last_commit c) then Hold Cadence
      else if rekey_permitted_by_rate_rule (rc_has_committed c) (rc_last_commit_epoch c) (rc_current_epoch c)
                (rc_committing_identities c) False then Rekey Proactive
      else Hold RateRule)"

section \<open>Dead leaves\<close>

definition dead_leaves_from_revocation :: "device_id \<Rightarrow> declared_member list \<Rightarrow> declared_member list" where
  "dead_leaves_from_revocation revoked_device members = filter (\<lambda>m. snd m = revoked_device) members"

definition dead_leaves :: "('g, 's) mls_lib \<Rightarrow> 'g channel_group \<Rightarrow> declared_member list \<Rightarrow> e2ee_error + declared_member list" where
  "dead_leaves L cg live =
     (case leaves L cg of
        Inl e \<Rightarrow> Inl (MlsFailed (OfGroup e))
      | Inr ls \<Rightarrow> Inr (filter (\<lambda>m. \<not> list_ex (\<lambda>k. fst k = fst m \<and> snd k = snd m) live) (map al_member ls)))"

record leaf_diff =
  lf_gained :: "declared_member list"
  lf_lost :: "declared_member list"

definition diff_leaves :: "declared_member list \<Rightarrow> declared_member list \<Rightarrow> leaf_diff" where
  "diff_leaves before after =
     \<lparr>lf_gained = filter (\<lambda>m. \<not> list_ex (\<lambda>k. fst k = fst m \<and> snd k = snd m) before) after,
      lf_lost = filter (\<lambda>m. \<not> list_ex (\<lambda>k. fst k = fst m \<and> snd k = snd m) after) before\<rparr>"

definition leaf_snapshot :: "('g, 's) mls_lib \<Rightarrow> 'g channel_group \<Rightarrow> declared_member list" where
  "leaf_snapshot L cg = (case leaves L cg of Inl _ \<Rightarrow> [] | Inr ls \<Rightarrow> map al_member ls)"

definition estimated_committers :: "('g, 's) mls_lib \<Rightarrow> 'g channel_group \<Rightarrow> nat" where
  "estimated_committers L cg =
     (case leaves L cg of Inl _ \<Rightarrow> 1 | Inr ls \<Rightarrow> max (length (remdups (map (fst \<circ> al_member) ls))) 1)"

section \<open>Sending with repairs\<close>

datatype keepalive_action = SentDirectly | RekeyedThenSent | DischargedThenSent

record keepalive_repairs =
  kr_rekey :: commit_context
  kr_drift :: commit_context
  kr_dead :: "declared_member list"

definition ceiling_reached :: "e2ee_error \<Rightarrow> bool" where
  "ceiling_reached e = (case e of Transport err \<Rightarrow> is_freshness_ceiling_reached err | _ \<Rightarrow> False)"

definition pending_removals_seal :: "e2ee_error \<Rightarrow> bool" where
  "pending_removals_seal e = (case e of Transport err \<Rightarrow> is_sealed_pending_removals err | _ \<Rightarrow> False)"

definition send_sealed_keepalive ::
    "('t, 'g, 's) env \<Rightarrow> actor \<Rightarrow> bool \<Rightarrow> seal_context \<Rightarrow> keepalive_repairs \<Rightarrow> ('t, 'g) client \<Rightarrow>
     (e2ee_error + sealed_sent \<times> keepalive_action) \<times> ('t, 'g) client" where
  "send_sealed_keepalive E a confirmed ctx repairs s =
     (case send_sealed E a confirmed ctx s of
        (Inr sent, s1) \<Rightarrow> (Inr (sent, SentDirectly), s1)
      | (Inl e, s1) \<Rightarrow>
          if ceiling_reached e then
            and_then (rekey_channel E a (kr_rekey repairs)) (\<lambda>_.
            and_then (send_sealed E a confirmed ctx) (\<lambda>sent. give (Inr (sent, RekeyedThenSent)))) s1
          else if pending_removals_seal e then
            (if kr_dead repairs = [] then (Inl e, s1)
             else and_then (discharge_drift E a (kr_drift repairs) (kr_dead repairs)) (\<lambda>_.
                  and_then (send_sealed E a confirmed ctx) (\<lambda>sent. give (Inr (sent, DischargedThenSent)))) s1)
          else (Inl e, s1))"

section \<open>Devices\<close>

definition revoke_device ::
    "('t, 'g, 's) env \<Rightarrow> actor \<Rightarrow> device_id \<Rightarrow> ('t, 'g) client \<Rightarrow> (e2ee_error + event_hash) \<times> ('t, 'g) client" where
  "revoke_device E a device =
     and_then (submit_next E a (at_server a) (DeviceRevoked device)) (\<lambda>accepted. give (Inr (ea_event_hash accepted)))"

definition device_refused :: "transport_error \<Rightarrow> nat \<Rightarrow> e2ee_error" where
  "device_refused err _ = (if is_device_cap_reached err then DeviceCapReached (rejection_reason err) else Transport err)"

definition authorize_device :: "('t, 'g, 's) env \<Rightarrow> actor \<Rightarrow> ('t, 'g) client \<Rightarrow> (e2ee_error + event_hash) \<times> ('t, 'g) client" where
  "authorize_device E a s =
     (let cr = en_crypto E;
          cert = cert_create cr (at_identity a) (ed_public cr (at_device a)) (tr_now (en_net E) (cl_net s))
      in and_then (submit_with device_refused E a (at_server a) (DeviceAuthorized cert))
           (\<lambda>accepted. give (Inr (ea_event_hash accepted))) s)"

definition KEY_PACKAGE_LIFETIME_LOG_POSITIONS :: nat where "KEY_PACKAGE_LIFETIME_LOG_POSITIONS = 2 ^ 40"

text \<open>The key package is made by the library, from the store it will be used with.\<close>

definition publish_key_package ::
    "('t, 'g, 's) env \<Rightarrow> actor \<Rightarrow> bytes option \<Rightarrow> bytes \<Rightarrow> ('t, 'g) client \<Rightarrow> (e2ee_error + event_hash) \<times> ('t, 'g) client" where
  "publish_key_package E a made store_hash =
     and_then (give (or_fail made (MlsFailed (OfGroup LibraryRefused)) Inr)) (\<lambda>key_package s.
     and_then (submit_next E a (at_server a)
        (MlsKeyPackagePublished key_package store_hash ((cs_next_seq (cl_chain s) + 1 + KEY_PACKAGE_LIFETIME_LOG_POSITIONS) mod 2 ^ 64)))
       (\<lambda>accepted. give (Inr (ea_event_hash accepted))) s)"

text \<open>Several devices of one client: an operation of one of them runs on that device's chain.\<close>

record ('t, 'g) provisioning =
  pv_client :: "('t, 'g) client" \<comment> \<open>with the steward's chain and group\<close>
  pv_old_chain :: chain_state
  pv_new_chain :: chain_state

definition as_steward :: "(('t, 'g) client \<Rightarrow> (e2ee_error + 'a) \<times> ('t, 'g) client) \<Rightarrow> ('t, 'g) provisioning \<Rightarrow> (e2ee_error + 'a) \<times> ('t, 'g) provisioning" where
  "as_steward m p = (case m (pv_client p) of (r, c) \<Rightarrow> (r, p\<lparr>pv_client := c\<rparr>))"

definition as_new :: "(('t, 'g) client \<Rightarrow> (e2ee_error + 'a) \<times> ('t, 'g) client) \<Rightarrow> ('t, 'g) provisioning \<Rightarrow> (e2ee_error + 'a) \<times> ('t, 'g) provisioning" where
  "as_new m p =
     (case m ((pv_client p)\<lparr>cl_chain := pv_new_chain p\<rparr>) of
        (r, c) \<Rightarrow> (r, p\<lparr>pv_client := c\<lparr>cl_chain := cl_chain (pv_client p)\<rparr>, pv_new_chain := cl_chain c\<rparr>))"

definition as_old :: "(('t, 'g) client \<Rightarrow> (e2ee_error + 'a) \<times> ('t, 'g) client) \<Rightarrow> ('t, 'g) provisioning \<Rightarrow> (e2ee_error + 'a) \<times> ('t, 'g) provisioning" where
  "as_old m p =
     (case m ((pv_client p)\<lparr>cl_chain := pv_old_chain p\<rparr>) of
        (r, c) \<Rightarrow> (r, p\<lparr>pv_client := c\<lparr>cl_chain := cl_chain (pv_client p)\<rparr>, pv_old_chain := cl_chain c\<rparr>))"

record own_device_context =
  od_identity :: keypair
  od_new_device :: keypair
  od_new_key_package :: "bytes option"
  od_new_store_instance_hash :: bytes
  od_steward :: commit_context

definition add_own_device ::
    "('t, 'g, 's) env \<Rightarrow> actor \<Rightarrow> own_device_context \<Rightarrow> ('t, 'g) provisioning \<Rightarrow> (e2ee_error + member_added) \<times> ('t, 'g) provisioning" where
  "add_own_device E steward ctx =
     (let cr = en_crypto E;
          new_actor = \<lparr>at_device = od_new_device ctx, at_identity = od_identity ctx, at_server = ck_server (cx_key (od_steward ctx))\<rparr>;
          member = (ed_public cr (od_identity ctx), device_id_of cr (ed_public cr (od_new_device ctx)))
      in and_then (give (ensure (ed_public cr (at_identity steward) = ed_public cr (od_identity ctx)) (ChainFault OtherIdentity) (Inr ()))) (\<lambda>_.
         and_then (as_new (authorize_device E new_actor)) (\<lambda>_.
         and_then (as_new (publish_key_package E new_actor (od_new_key_package ctx) (od_new_store_instance_hash ctx))) (\<lambda>_.
         as_steward (add_member E steward (od_steward ctx) member)))))"

definition reprovision_device ::
    "('t, 'g, 's) env \<Rightarrow> actor \<Rightarrow> keypair \<Rightarrow> own_device_context \<Rightarrow> ('t, 'g) provisioning \<Rightarrow> (e2ee_error + member_added) \<times> ('t, 'g) provisioning" where
  "reprovision_device E steward old_device fresh =
     (let cr = en_crypto E;
          revoke_actor = \<lparr>at_device = old_device, at_identity = od_identity fresh, at_server = ck_server (cx_key (od_steward fresh))\<rparr>;
          old_device_id = device_id_of cr (ed_public cr old_device)
      in and_then (as_old (revoke_device E revoke_actor old_device_id)) (\<lambda>_.
         and_then (as_steward (discharge_drift E steward (od_steward fresh) [(ed_public cr (od_identity fresh), old_device_id)])) (\<lambda>_.
         add_own_device E steward fresh)))"

definition recover_diverged_group ::
    "('t, 'g, 's) env \<Rightarrow> actor \<Rightarrow> keypair \<Rightarrow> own_device_context \<Rightarrow> e2ee_error \<Rightarrow> ('t, 'g) provisioning \<Rightarrow>
     (e2ee_error + member_added) \<times> ('t, 'g) provisioning" where
  "recover_diverged_group E steward old_device fresh trigger p =
     (if \<not> is_diverged trigger then (Inl trigger, p) else reprovision_device E steward old_device fresh p)"

section \<open>The reset\<close>

definition channel_group_id :: "server_id \<Rightarrow> nat \<Rightarrow> nat \<Rightarrow> string" where
  "channel_group_id log_server_id channel_id generation =
     log_server_id @ ''/'' @ decimal channel_id @ ''/generation-'' @ decimal generation"

definition RESET_WELCOME_COMMIT_SENTINEL :: event_ref where
  "RESET_WELCOME_COMMIT_SENTINEL = replicate 64 (CHR ''0'')"

record reset_done =
  rd_event_hash :: event_hash
  rd_new_generation :: nat
  rd_post_tree_hash :: bytes

definition stage_welcome ::
    "('t, 'g, 's) env \<Rightarrow> actor \<Rightarrow> nat \<Rightarrow> nat \<Rightarrow> bytes \<Rightarrow> declared_member \<Rightarrow> ('t, 'g) client \<Rightarrow> (e2ee_error + event_hash) \<times> ('t, 'g) client" where
  "stage_welcome E a channel_id new_generation welcome_bytes member =
     and_then (submit_next E a (at_server a)
       (MlsWelcome channel_id new_generation RESET_WELCOME_COMMIT_SENTINEL (fst member) (snd member) welcome_bytes))
       (\<lambda>accepted. give (Inr (ea_event_hash accepted)))"

text \<open>
  Every member goes into the fresh group in one commit, which is never submitted; one Welcome is
  staged per member.  The result is the group as it then is, and the references of the Welcomes.
\<close>

definition add_everyone ::
    "('t, 'g, 's) env \<Rightarrow> actor \<Rightarrow> nat \<Rightarrow> nat \<Rightarrow> declared_member list \<Rightarrow> 'g channel_group \<Rightarrow> ('t, 'g) client \<Rightarrow>
     (e2ee_error + 'g channel_group \<times> event_hash list) \<times> ('t, 'g) client" where
  "add_everyone E a channel_id new_generation members fresh =
     (if members = [] then give (Inr (fresh, []))
      else
        and_then (for_each (fetched_key_package E) members) (\<lambda>key_packages.
        case add_members (en_lib E) (map fst key_packages) fresh of
          (Inl e, _) \<Rightarrow> give (Inl (MlsFailed (OfGroup e)))
        | (Inr outcome, fresh1) \<Rightarrow>
            and_then (give (or_fail (co_welcome_bytes outcome) (MlsFailed NoWelcomeMade) Inr)) (\<lambda>welcome_bytes.
            and_then (for_each (stage_welcome E a channel_id new_generation welcome_bytes) members) (\<lambda>refs.
            give (Inr (fresh1, refs))))))"

definition reset_group ::
    "('t, 'g, 's) env \<Rightarrow> actor \<Rightarrow> channel_key \<Rightarrow> nat \<Rightarrow> declared_member list \<Rightarrow> ('t, 'g) client \<Rightarrow>
     (e2ee_error + reset_done) \<times> ('t, 'g) client" where
  "reset_group E a key generation members =
     (let new_generation = generation + 1; cr = en_crypto E;
          credential = encode_credential_identity (ed_public cr (at_identity a)) (device_id_of cr (ed_public cr (at_device a)))
      in and_then (give (ensure (new_generation < 2 ^ 64) (ChainFault GenerationOverflow) (Inr ()))) (\<lambda>_.
         and_then (give (map_sum (MlsFailed \<circ> OfGroup) id
            (create_group (en_lib E) (channel_group_id (ck_server key) (ck_channel key) new_generation) credential))) (\<lambda>fresh.
         and_then (add_everyone E a (ck_channel key) new_generation members fresh) (\<lambda>(fresh1, refs).
         and_then (submit_next E a (at_server a)
            (MlsGroupReset (ck_channel key) new_generation refs (cg_tree_hash fresh1))) (\<lambda>accepted.
         give (Inr \<lparr>rd_event_hash = ea_event_hash accepted, rd_new_generation = new_generation,
                    rd_post_tree_hash = cg_tree_hash fresh1\<rparr>))))))"

end
