(* ===== verification/E2eeServer.thy ===== *)
theory E2eeServer
  imports E2eeSteward SubmitEvent Subscriptions
begin

text \<open>
  The modelled server as the transport of the client: the texts it refuses with, which the client
  reads (\<open>event_log_state.rs\<close>, \<open>handlers.rs\<close>), the gates of the fetch requests, and
  \<open>client/src-tauri/src/e2ee_transport.rs\<close>, which passes the answers on.
\<close>

section \<open>What a refusal says\<close>

definition envelope_message :: "envelope_error \<Rightarrow> string" where
  "envelope_message e = (case e of
     ServerIdMismatch \<Rightarrow> ''event server_id does not match this server''
   | CertInvalid _ \<Rightarrow> ''device cert is invalid''
   | CertIdentityMismatch \<Rightarrow> ''device cert identity does not match event author''
   | CertDeviceMismatch \<Rightarrow> ''device cert device_id does not match event device''
   | UnauthorizedDevice \<Rightarrow> ''event signed by an unauthorized device''
   | DeviceOfOtherIdentity \<Rightarrow> ''device is authorized to a different identity''
   | EventSignatureInvalid \<Rightarrow> ''event signature is invalid''
   | DeviceIsRevoked \<Rightarrow> ''device has been revoked''
   | DeviceCertExpired \<Rightarrow> ''device cert has expired''
   | AuthorBanned \<Rightarrow> ''author is banned''
   | FirstSeqNotZero \<Rightarrow> ''first event of a chain must have seq 0''
   | FirstPrevNotNone \<Rightarrow> ''first event of a chain must have prev = None''
   | NonContiguousSeq \<Rightarrow> ''non-contiguous seq (gap or fork)''
   | ForkedPrev \<Rightarrow> ''prev does not link to the chain head (fork)'')"

definition member_message :: "member_error \<Rightarrow> string" where
  "member_message e = (case e of
     TooManyLiveDevices \<Rightarrow> ''identity already has the maximum number of live devices''
   | MissingCapability c \<Rightarrow> ''missing '' @ [CHR 0x27] @ c @ [CHR 0x27] @ '' capability''
   | JoinNotSelfAuthored \<Rightarrow> ''MemberJoined must be self-authored''
   | AlreadyMember \<Rightarrow> ''already a member''
   | AlreadyPending \<Rightarrow> ''already pending approval''
   | UnknownInvite \<Rightarrow> ''join cites an unknown invite''
   | InviteExhausted \<Rightarrow> ''invite has no uses left''
   | InviteExpired \<Rightarrow> ''invite has expired''
   | TargetNotPending \<Rightarrow> ''target is not pending approval''
   | TargetNotMemberNorPending \<Rightarrow> ''target is neither a member nor pending''
   | NotSelfNorKick \<Rightarrow> ''must be the member (leave) or hold 'kick'' @ [CHR 0x27]
   | OwnerCannotBeBanned \<Rightarrow> ''the owner cannot be banned''
   | GranteeNotMember \<Rightarrow> ''grantee is not a member''
   | CapabilityNotHeld \<Rightarrow> ''cannot grant a capability you do not hold''
   | UnknownDevice \<Rightarrow> ''revocation cites an unknown device''
   | DeviceAlreadyRevoked \<Rightarrow> ''device already revoked''
   | NotDeviceOwner \<Rightarrow> ''only the owning identity or the server owner may revoke a device'')"

definition channel_message :: "channel_error \<Rightarrow> string" where
  "channel_message e = (case e of
     OnlyMembersPost \<Rightarrow> ''only members may post''
   | PlaintextInE2eeChannel \<Rightarrow> ''plaintext MessagePosted is invalid in an E2ee channel''
   | UnknownAttachment \<Rightarrow> ''redaction cites an unknown attachment''
   | NotUploaderNorKick \<Rightarrow> ''must be the uploader or hold 'kick'' @ [CHR 0x27]
   | AttachmentAlreadyRedacted \<Rightarrow> ''attachment already redacted''
   | OnlyOwnerCreatesChannels \<Rightarrow> ''only the owner may create channels''
   | ChannelExists \<Rightarrow> ''channel_id already exists (channel identity is immutable)''
   | ChannelHasPlaintextHistory \<Rightarrow> ''channel already has plaintext history in the log (a legacy channel is permanently plaintext)''
   | UnknownParent \<Rightarrow> ''thread parent channel is unknown to the log''
   | ParentClassMismatch \<Rightarrow> ''thread child must inherit its parent's class''
   | DeleteInUnknownChannel \<Rightarrow> ''MessageDeleted cites a channel unknown to the log''
   | AlreadyTombstoned \<Rightarrow> ''target already tombstoned''
   | OnlyMembersDelete \<Rightarrow> ''only members may delete their messages'')"

definition mls_message :: "mls_error \<Rightarrow> event_payload \<Rightarrow> string" where
  "mls_message e payload =
     (let what = (case payload of MlsCommit _ \<Rightarrow> ''commit'' | MlsWelcome _ _ _ _ _ _ \<Rightarrow> ''welcome''
                  | MlsLeafConfirmed _ _ _ _ _ \<Rightarrow> ''leaf confirmation'' | _ \<Rightarrow> ''sealed content'');
          name = (case payload of MlsCommit _ \<Rightarrow> ''MlsCommit'' | MlsWelcome _ _ _ _ _ _ \<Rightarrow> ''MlsWelcome''
                  | MlsLeafConfirmed _ _ _ _ _ \<Rightarrow> ''MlsLeafConfirmed'' | _ \<Rightarrow> ''MlsGroupReset'')
      in case e of
     InstanceMismatch \<Rightarrow> ''store_instance_hash does not match this device's pinned instance (possible clone/restore)''
   | NotFullMember \<Rightarrow> (case payload of
         MlsKeyPackagePublished _ _ _ \<Rightarrow> ''only full members may publish key packages''
       | MlsCommit _ \<Rightarrow> ''only full members may author MLS commits''
       | MlsWelcome _ _ _ _ _ _ \<Rightarrow> ''only full members may author MLS welcomes''
       | MlsLeafConfirmed _ _ _ _ _ \<Rightarrow> ''only full members may confirm an MLS leaf''
       | _ \<Rightarrow> ''only full members may send sealed content'')
   | KeyPackageExpired \<Rightarrow> ''key package is already expired at its publish log position''
   | TooManyKeyPackages \<Rightarrow> ''device already has the maximum number of live key packages''
   | NoGroup \<Rightarrow> name @ '' cites a channel with no E2ee group''
   | GenerationMismatch \<Rightarrow> what @ '' generation does not match the group''
   | NoConfirmedLeaf \<Rightarrow> (case payload of
         MlsCommit _ \<Rightarrow> ''commit author does not hold a confirmed leaf''
       | MlsWelcome _ _ _ _ _ _ \<Rightarrow> ''welcome author does not hold a confirmed leaf''
       | _ \<Rightarrow> ''sealed content author does not hold a confirmed leaf'')
   | WelcomeTargetNotPending \<Rightarrow> ''welcome target leaf is not pending''
   | WelcomeUnknownCommit \<Rightarrow> ''welcome cites a commit the fold has not recorded''
   | WelcomeOwnerOnly \<Rightarrow> ''next-generation (reset-staging) welcomes are owner-only''
   | WelcomeBadGeneration \<Rightarrow> ''welcome generation is neither the current one nor current + 1''
   | LeafNotPending \<Rightarrow> ''leaf confirmation must come from the joining device of a pending leaf''
   | TreeHashMismatch \<Rightarrow> ''confirmed tree hash does not match the cited epoch's commit''
   | ResetTreeHashMismatch \<Rightarrow> ''confirmed tree hash does not match the tree hash the reset declared''
   | NoRecordedCommit \<Rightarrow> ''leaf confirmation cites an epoch with no recorded commit'')"

definition commit_message :: "nat \<Rightarrow> commit_error \<Rightarrow> string" where
  "commit_message gap e = (case e of
     NotChannelCreator \<Rightarrow> ''a generation's bootstrap commit must be authored by the channel's creator''
   | BrokenCommitChain \<Rightarrow> ''commit does not chain onto the previous commit's declared authenticator''
   | AddOfNonMember \<Rightarrow> ''declared add of a non-member''
   | AddOfBanned \<Rightarrow> ''declared add of a banned identity''
   | AddDeviceNotLive \<Rightarrow> ''declared add of a device that is not live (unknown, revoked, or cert-expired)''
   | AddConsumedKeyPackage \<Rightarrow> ''declared add cites a consumed key package''
   | AddNoLiveKeyPackage \<Rightarrow> ''declared add does not cite a live key package of exactly that (identity, device)''
   | AddLeafPresent \<Rightarrow> ''declared add of a leaf that is already present or pending''
   | SelfAddRule \<Rightarrow> ''self-add rule: only the identity itself may add its additional devices''
   | RemoveAbsentLeaf \<Rightarrow> ''declared remove of an absent leaf''
   | RemoveGoodStanding \<Rightarrow> ''cannot remove a leaf of a member in good standing (except self-removal)''
   | CommitRateRule \<Rightarrow> ''commit-rate rule: a non-drift-discharging commit must be its author's first or at least '' @
       decimal gap @ '' epochs past their previous one'')"

definition sealed_message :: "sealed_error \<Rightarrow> string" where
  "sealed_message e = (case e of
     SealedInUnknownChannel \<Rightarrow> ''sealed content cites a channel unknown to the log''
   | SealedInPlaintextChannel \<Rightarrow> ''sealed content is invalid in a Plaintext channel''
   | EpochNotCurrent \<Rightarrow> ''sealed content does not cite the group's current epoch''
   | SealedUntilRekey \<Rightarrow> ''channel is sealed until a rekey discharges its pending removals''
   | FreshnessCeilingReached \<Rightarrow> ''freshness ceiling reached: the channel is sealed until somebody rekeys''
   | ResetIncomplete \<Rightarrow> ''group reset is incomplete: the channel is sealed until every welcomed leaf confirms or is removed''
   | EditTargetTombstoned \<Rightarrow> ''edit target is tombstoned'')"

definition reset_message :: "reset_error \<Rightarrow> string" where
  "reset_message e = (case e of
     OnlyOwnerResets \<Rightarrow> ''only the owner may reset an MLS group''
   | ResetGenerationNotNext \<Rightarrow> ''a reset must advance the generation by exactly one''
   | ResetRateLimit \<Rightarrow> ''reset rate limit: at most one reset per '' @ decimal RESET_MIN_CHANNEL_EVENTS @ '' channel events''
   | ResetDuplicateRef \<Rightarrow> ''reset welcomes contain a duplicate reference''
   | ResetUnknownWelcome \<Rightarrow> ''reset cites a welcome the fold has not recorded''
   | ResetWelcomeGeneration \<Rightarrow> ''reset cites a welcome staged for a different generation''
   | ResetNotExactCover \<Rightarrow> ''non-selective reset: welcomes must cover exactly the fold's members x live devices (minus the resetter's own device)'')"

definition fold_message :: "nat \<Rightarrow> event_payload \<Rightarrow> log_error \<Rightarrow> string" where
  "fold_message gap payload err = (case err of
     Envelope e \<Rightarrow> envelope_message e
   | Member e \<Rightarrow> member_message e
   | Channel e \<Rightarrow> channel_message e
   | Mls e \<Rightarrow> mls_message e payload
   | log_error.Commit e \<Rightarrow> commit_message gap e
   | Sealed e \<Rightarrow> sealed_message e
   | log_error.Reset e \<Rightarrow> reset_message e
   | GroupMissingPanic \<Rightarrow> '''')"

text \<open>
  What the client sees of a refusal of \<open>SubmitEvent\<close>.  A panic ends the connection; \<open>text\<close> stands for
  the texts of the caps and of the database, which no predicate of the client looks for.
\<close>

definition refusal :: "(ingest_error \<Rightarrow> string) \<Rightarrow> nat \<Rightarrow> event_payload \<Rightarrow> ingest_error \<Rightarrow> transport_error" where
  "refusal text gap payload err = (case err of
     StaleEpoch \<Rightarrow> ServerRejected ''stale-epoch''
   | Rejected GroupMissingPanic \<Rightarrow> TransportFailed ''connection lost''
   | Rejected e \<Rightarrow> ServerRejected (''event rejected: '' @ fold_message gap payload e)
   | _ \<Rightarrow> ServerRejected (text err))"

section \<open>The transport\<close>

record mesh =
  ms_server :: server_state
  ms_access :: access_server
  ms_server_now :: nat
  ms_client_now :: nat

definition content_block_reason :: "server_state \<Rightarrow> public_key \<Rightarrow> string option" where
  "content_block_reason sv member =
     (case sv_log sv of
        Some ls \<Rightarrow>
          if is_member ls member then None
          else Some (if is_pending ls member then ''pending approval: waiting for a moderator to approve your join''
                     else ''not a member of this server'')
      | None \<Rightarrow> None)"

definition UPGRADE_REQUIRED :: string where
  "UPGRADE_REQUIRED = ''this channel requires a newer client''"

definition gated :: "public_key \<Rightarrow> mesh \<Rightarrow> transport_error + 'a \<Rightarrow> transport_error + 'a" where
  "gated member m answer =
     (case content_block_reason (ms_server m) member of
        Some reason \<Rightarrow> Inl (ServerRejected reason)
      | None \<Rightarrow>
          ensure (MIN_CLIENT_VERSION_FOR_E2EE \<le> connection_protocol_version (ms_access m) member)
            (ServerRejected UPGRADE_REQUIRED) answer)"

definition page_of :: "crypto \<Rightarrow> event list \<times> nat \<times> bool \<Rightarrow> event_page" where
  "page_of cr = (\<lambda>(events, next, more).
     \<lparr>pg_events = map (ser_event cr) events, pg_next_accept_seq = word_of_nat next, pg_more = more\<rparr>)"

definition serve_control :: "crypto \<Rightarrow> public_key \<Rightarrow> nat \<Rightarrow> 64 word \<Rightarrow> mesh \<Rightarrow> transport_error + event_page" where
  "serve_control cr member channel_id since m =
     gated member m
       (ensure (has (resolve_member_perms (as_db (ms_access m)) member channel_id (as_owner (ms_access m) = Some member)) READ_MESSAGES)
          (ServerRejected ''missing READ_MESSAGES permission'')
       (Inr (page_of cr (fetch_mls_control channel_id (unat since) (sv_db (ms_server m))))))"

definition commit_gap :: "server_state \<Rightarrow> event \<Rightarrow> nat" where
  "commit_gap sv e =
     (case ev_payload e of
        MlsCommit mc \<Rightarrow>
          (case Option.bind (sv_log sv) (\<lambda>st. ls_mls_groups st (mc_channel_id mc)) of
             None \<Rightarrow> 0 | Some g \<Rightarrow> commit_rate_gap g)
      | _ \<Rightarrow> 0)"

definition server_transport :: "crypto \<Rightarrow> (ingest_error \<Rightarrow> string) \<Rightarrow> public_key \<Rightarrow> mesh transport" where
  "server_transport cr text member =
     \<lparr>tr_now = ms_client_now,
      tr_submit_event = (\<lambda>e m.
        case submit_event cr (ms_server_now m) (ms_server m) e of
          Inl err \<Rightarrow> (Inl (refusal text (commit_gap (ms_server m) e) (ev_payload e) err), m)
        | Inr (sv, _, _) \<Rightarrow>
            (Inr \<lparr>ea_event_hash = event_hash_of cr e, ea_timestamp = ev_timestamp e\<rparr>, m\<lparr>ms_server := sv\<rparr>)),
      tr_fetch_welcomes = (\<lambda>channel since m.
        (gated member m (Inr (page_of cr (fetch_welcomes_for member channel (unat since) (sv_db (ms_server m))))), m)),
      tr_fetch_mls_control = (\<lambda>channel since m. (serve_control cr member channel since m, m)),
      tr_fetch_key_packages = (\<lambda>target device m.
        (gated member m (Inr (map (ser_event cr) (fetch_key_packages target device (sv_db (ms_server m))))), m)),
      tr_fetch_device_certs = (\<lambda>identity m.
        (gated member m (Inr (map (ser_event cr) (fetch_device_certs identity (sv_db (ms_server m))))), m))\<rparr>"

end
