(* ===== verification/E2eeScenario.thy ===== *)
theory E2eeScenario
  imports E2eeServer ServerScenario
begin

text \<open>
  Concrete parts for the witnesses of the client: a small library that satisfies \<open>mls_lib_ok\<close>, the
  environment around it, and the owner's client in front of a modelled server.
\<close>

section \<open>A small library\<close>

text \<open>A commit is the new leaf's key and credential; the tree hash repeats the number of leaves.\<close>

type_synonym toy_group = "nat \<times> raw_leaf list"

definition toy_hash :: "raw_leaf list \<Rightarrow> bytes" where
  "toy_hash ls = replicate 32 (of_nat (length ls))"

definition toy_mls :: "(toy_group, nat \<times> raw_leaf list) mls_lib" where
  "toy_mls =
     \<lparr>ml_epoch = fst, ml_authenticator = (\<lambda>g. [of_nat (fst g)]), ml_members = (\<lambda>g. enumerate 0 (snd g)),
      ml_stage = (\<lambda>g bs. (if bs = [] then None else Some (fst g + 1, [\<lparr>rl_credential = tl bs, rl_key = [hd bs]\<rparr>]), g)),
      ml_staged_adds = snd, ml_staged_removes = (\<lambda>_. []), ml_staged_tree_hash = (\<lambda>s. toy_hash (snd s)), ml_staged_epoch = fst,
      ml_merge = (\<lambda>g s. Some (fst g + 1, snd g @ snd s)),
      ml_own_commit = (\<lambda>g oc. (Some ([1], None), g)), ml_pending = (\<lambda>g. Some (fst g + 1, [])),
      ml_merge_pending = (\<lambda>g. Some (fst g + 1, snd g)), ml_clear_pending = Some,
      ml_seal = (\<lambda>g p. (Some p, g)), ml_open = (\<lambda>g p. (Some p, g)), ml_key_package = (\<lambda>_. None),
      ml_create = (\<lambda>_ c. Some (0, [\<lparr>rl_credential = c, rl_key = [0]\<rparr>])), ml_group_info = (\<lambda>g. Some (toy_hash (snd g))),
      ml_join = (\<lambda>_. None)\<rparr>"

lemma toy_mls_ok: "mls_lib_ok toy_mls"
  by (auto simp: mls_lib_ok_def toy_mls_def)

section \<open>A client and a server\<close>

definition toy_env :: "'t transport \<Rightarrow> ('t, toy_group, nat \<times> raw_leaf list) env" where
  "toy_env N = \<lparr>en_net = N, en_lib = toy_mls, en_crypto = toy_crypto,
     en_event = (\<lambda>bs. find (\<lambda>e. ser_event toy_crypto e = bs) (map snd ss_before)), en_envelope = (\<lambda>_. Some [])\<rparr>"

lemma toy_sel [simp]:
  "en_lib (toy_env N) = toy_mls" "en_crypto (toy_env N) = toy_crypto" "en_net (toy_env N) = N" "ml_epoch toy_mls = fst"
  "ml_merge toy_mls g s = Some (fst g + 1, snd g @ snd s)" "ml_staged_epoch toy_mls = fst" "ml_staged_removes toy_mls s = []"
  "ml_staged_adds toy_mls = snd" "ml_staged_tree_hash toy_mls s = toy_hash (snd s)"
  "ml_stage toy_mls g (b # bs) = (Some (fst g + 1, [\<lparr>rl_credential = bs, rl_key = [b]\<rparr>]), g)"
  by (simp_all add: toy_env_def toy_mls_def)

lemma toy_decodes: "e \<in> set (map snd ss_before) \<Longrightarrow> en_event (toy_env N) (ser_event toy_crypto e) = Some e"
  by (simp add: toy_env_def ss_defs sc_defs crypto_eval_defs) (elim disjE; simp)

definition ec_mesh :: "server_state \<Rightarrow> mesh" where
  "ec_mesh sv = \<lparr>ms_server = sv,
     ms_access = \<lparr>as_db = undefined, as_log = None, as_owner = Some (PublicKey sc_owner), as_subs = [], as_clients = Map.empty,
                  as_protocol = [PublicKey sc_owner \<mapsto> 2]\<rparr>,
     ms_server_now = 20, ms_client_now = 20\<rparr>"

definition ec_owner :: actor where
  "ec_owner = \<lparr>at_device = sc_owner_dev, at_identity = sc_owner, at_server = genesis_server_id toy_crypto sc_genesis\<rparr>"

text \<open>The owner's client before its device's first event.\<close>

definition ec_client :: "'t \<Rightarrow> ('t, toy_group) client" where
  "ec_client t = \<lparr>cl_net = t, cl_chain = \<lparr>cs_next_seq = 0, cs_last_event_hash = None, cs_lamport = 0\<rparr>,
     cl_group = \<lparr>cg_inner = (4, []), cg_tree_hash = []\<rparr>\<rparr>"

definition ec_env :: "(mesh, toy_group, nat \<times> raw_leaf list) env" where
  "ec_env = toy_env (server_transport toy_crypto (\<lambda>_. []) (PublicKey sc_owner))"

end
