(* ===== verification/E2eeBounds.thy ===== *)
theory E2eeBounds
  imports E2eeScenario IngestClaims
begin

text \<open>
  How much a client asks of its server: the events it submits, counted by a transport wrapped around
  any other, and the pages of a catch-up against the modelled server.
\<close>

section \<open>Counting submissions\<close>

definition counting :: "'t transport \<Rightarrow> ('t \<times> nat) transport" where
  "counting N =
     \<lparr>tr_now = tr_now N \<circ> fst,
      tr_submit_event = (\<lambda>e tn. map_prod id (\<lambda>t. (t, snd tn + 1)) (tr_submit_event N e (fst tn))),
      tr_fetch_welcomes = (\<lambda>c since tn. map_prod id (\<lambda>t. (t, snd tn)) (tr_fetch_welcomes N c since (fst tn))),
      tr_fetch_mls_control = (\<lambda>c since tn. map_prod id (\<lambda>t. (t, snd tn)) (tr_fetch_mls_control N c since (fst tn))),
      tr_fetch_key_packages = (\<lambda>m d tn. map_prod id (\<lambda>t. (t, snd tn)) (tr_fetch_key_packages N m d (fst tn))),
      tr_fetch_device_certs = (\<lambda>i tn. map_prod id (\<lambda>t. (t, snd tn)) (tr_fetch_device_certs N i (fst tn)))\<rparr>"

definition counted :: "('t, 'g, 's) env \<Rightarrow> ('t \<times> nat, 'g, 's) env" where
  "counted E = \<lparr>en_net = counting (en_net E), en_lib = en_lib E, en_crypto = en_crypto E, en_event = en_event E,
                en_envelope = en_envelope E\<rparr>"

definition subs :: "('t \<times> nat, 'g) client \<Rightarrow> nat" where
  "subs s = snd (cl_net s)"

definition spends :: "nat \<Rightarrow> (('t \<times> nat, 'g) client \<Rightarrow> ('e + 'a) \<times> ('t \<times> nat, 'g) client) \<Rightarrow> bool" where
  "spends n m \<longleftrightarrow> (\<forall>s. subs s \<le> subs (snd (m s)) \<and> subs (snd (m s)) \<le> subs s + n)"

named_theorems spends_intros

lemma spendsD: "spends n m \<Longrightarrow> m s = (r, s') \<Longrightarrow> subs s \<le> subs s' \<and> subs s' \<le> subs s + n"
  unfolding spends_def by (metis snd_conv)

lemma spends_give [spends_intros]: "spends 0 (give r)"
  by (simp add: spends_def give_def)

lemma spends_and_then:
  assumes "spends a m" and "\<And>x. spends b (f x)"
  shows "spends (a + b) (and_then m f)"
  unfolding spends_def
proof
  fix s
  obtain r s1 where m: "m s = (r, s1)" by (meson surj_pair)
  from spendsD [OF assms(1) m] have 1: "subs s \<le> subs s1" "subs s1 \<le> subs s + a" by simp_all
  show "subs s \<le> subs (snd (and_then m f s)) \<and> subs (snd (and_then m f s)) \<le> subs s + (a + b)"
  proof (cases r)
    case (Inl e)
    with m 1 show ?thesis by (simp add: and_then_def)
  next
    case (Inr x)
    obtain r2 s2 where f: "f x s1 = (r2, s2)" by (meson surj_pair)
    from spendsD [OF assms(2) f] 1 m Inr f show ?thesis by (simp add: and_then_def)
  qed
qed

text \<open>Silent before, or silent after: the two shapes every operation is made of.\<close>

lemma spends_before [spends_intros]: "spends 0 m \<Longrightarrow> (\<And>x. spends n (f x)) \<Longrightarrow> spends n (and_then m f)"
  using spends_and_then [of 0 m n f] by simp

lemma spends_after: "spends n m \<Longrightarrow> (\<And>x. spends 0 (f x)) \<Longrightarrow> spends n (and_then m f)"
  using spends_and_then [of n m 0 f] by simp

lemma spends_pointwise: "(\<And>s. spends n (m s)) \<Longrightarrow> spends n (\<lambda>s. m s s)"
  by (simp add: spends_def)

lemma spends_on_group [spends_intros]: "spends 0 (on_group change)"
  by (auto simp: spends_def on_group_def subs_def split: prod.split)

lemma spends_authz_head [spends_intros]: "spends 0 authz_head"
  by (simp add: spends_def authz_head_def give_def)

lemma spends_submit_with: "spends 1 (submit_with refused (counted E) a sid payload)"
  by (auto simp: spends_def submit_with_def counted_def counting_def subs_def Let_def map_prod_def split: prod.split sum.split)

lemma spends_submit_next: "spends 1 (submit_next (counted E) a sid payload)"
  unfolding submit_next_def by (rule spends_submit_with)

lemma spends_fetch [spends_intros]:
  "spends 0 (ask (tr_fetch_mls_control (en_net (counted E)) c since))"
  "spends 0 (ask (tr_fetch_welcomes (en_net (counted E)) cf since))"
  "spends 0 (ask (tr_fetch_key_packages (en_net (counted E)) m d))"
  "spends 0 (ask (tr_fetch_device_certs (en_net (counted E)) m))"
  by (auto simp: spends_def ask_def counted_def counting_def subs_def map_prod_def split: prod.split)

text \<open>A loop over pages keeps what every page keeps.\<close>

lemma fetch_pages_keeps:
  assumes "\<And>cursor s. R s (snd (ask (fetch cursor) s))" and "\<And>s. R s s" and "\<And>s1 s2 s3. R s1 s2 \<Longrightarrow> R s2 s3 \<Longrightarrow> R s1 s3"
  shows "R s (snd (fetch_pages E fetch pick cursor out s))"
  using assms(1)
proof (induction E fetch pick cursor out s rule: fetch_pages.induct)
  case (1 E fetch pick cursor out s)
  obtain r s1 where ask: "ask (fetch cursor) s = (r, s1)" by (meson surj_pair)
  with "1.prems" [of s cursor] have R: "R s s1" by simp
  show ?case
  proof (cases r)
    case (Inl e)
    with ask R show ?thesis by (simp add: fetch_pages.simps)
  next
    case (Inr page)
    show ?thesis
    proof (cases "decode_all E undecodable_page (pg_events page)")
      case (Inl e)
      with ask Inr R show ?thesis by (simp add: fetch_pages.simps)
    next
      case dec: (Inr events)
      show ?thesis
      proof (cases "pg_more page \<and> \<not> pg_next_accept_seq page \<le> cursor")
        case True
        with ask Inr dec have "R s1 (snd (fetch_pages E fetch pick (pg_next_accept_seq page) (out @ List.map_filter pick events) s1))"
          by (intro "1.IH" [OF ask [symmetric] Inr dec refl]) (auto intro: "1.prems")
        with R True ask Inr dec assms(3) show ?thesis by (subst fetch_pages.simps) (auto simp: Let_def)
      next
        case False
        with ask Inr dec R show ?thesis by (subst fetch_pages.simps) (auto simp: Let_def)
      qed
    qed
  qed
qed

lemma spends_control [spends_intros]: "spends 0 (fetch_mls_control_exhaustive (counted E) c since)"
proof -
  have "subs s = subs (snd (fetch_pages (counted E) (tr_fetch_mls_control (en_net (counted E)) c) Some since [] s))" for s
    by (rule fetch_pages_keeps) (use spends_fetch(1) [of E c] in \<open>auto simp: spends_def intro: antisym\<close>)
  then show ?thesis by (simp add: spends_def fetch_mls_control_exhaustive_def)
qed

lemma spends_incoming [spends_intros]: "spends 0 (process_incoming_commit E certs bs declared)"
  by (auto simp: spends_def process_incoming_commit_def and_then_def on_group_def give_def subs_def split: prod.split sum.split)

lemma spends_apply_commits [spends_intros]: "spends 0 (apply_commits E certs events)"
proof (induction events)
  case (Cons e events)
  show ?case
  proof (cases "ev_payload e")
    case (MlsCommit mc)
    show ?thesis unfolding apply_commits.simps MlsCommit event_payload.case
      by (intro spends_before spends_incoming) (simp add: Cons spends_give split: incoming_outcome.split)
  qed (use Cons in auto)
qed (simp add: spends_give)

lemma spends_resync [spends_intros]: "spends 0 (resync (counted E) certs c cursor)"
  unfolding resync_def by (intro spends_before spends_intros) (auto intro!: spends_before spends_intros)

lemma map_sum_Inl: "map_sum f g r = Inl y \<longleftrightarrow> (\<exists>x. r = Inl x \<and> y = f x)"
  by (cases r) auto

lemma map_sum_Inr: "map_sum f g r = Inr y \<longleftrightarrow> (\<exists>x. r = Inr x \<and> y = g x)"
  by (cases r) auto

lemmas run_simps = and_then_def give_def ensure_def or_fail_def authz_head_def on_group_def ask_def submit_next_def submit_with_def Let_def

lemma spends_send_sealed: "spends 1 (send_sealed (counted E) a confirmed ctx)"
  by (auto simp: spends_def send_sealed_def within_caps_def run_simps counted_def counting_def subs_def map_prod_def
      split: prod.splits sum.splits option.split)

text \<open>A transport's error comes from the one submission.\<close>

lemma send_sealed_transport_error:
  "send_sealed (counted E) a confirmed ctx s = (Inl (Transport err), s') \<Longrightarrow> subs s' = subs s + 1"
  by (auto simp: send_sealed_def within_caps_def run_simps counted_def counting_def subs_def map_prod_def map_sum_Inl
      split: prod.splits sum.splits if_splits option.splits)

section \<open>Which errors an operation has\<close>

definition fails_with :: "('e \<Rightarrow> bool) \<Rightarrow> ('s \<Rightarrow> ('e + 'a) \<times> 's) \<Rightarrow> bool" where
  "fails_with P m \<longleftrightarrow> (\<forall>s e s'. m s = (Inl e, s') \<longrightarrow> P e)"

lemma fails_and_then: "fails_with P m \<Longrightarrow> (\<And>x. fails_with P (f x)) \<Longrightarrow> fails_with P (and_then m f)"
  by (fastforce simp: fails_with_def and_then_def split: prod.splits sum.splits)

lemma fails_give: "(\<And>e. r = Inl e \<Longrightarrow> P e) \<Longrightarrow> fails_with P (give r)"
  by (auto simp: fails_with_def give_def)

lemma fails_ask: "(\<And>err. P (Transport err)) \<Longrightarrow> fails_with P (ask request)"
  by (auto simp: fails_with_def ask_def map_sum_Inl split: prod.splits)

lemma fails_fetch_pages:
  assumes "\<And>err. P (Transport err)"
  shows "fetch_pages E fetch pick cursor out s = (Inl e, s') \<Longrightarrow> P e"
proof (induction E fetch pick cursor out s rule: fetch_pages.induct)
  case (1 E fetch pick cursor out s)
  have dec: "P e'" if "decode_all E undecodable_page bs = Inl e'" for bs e'
    using that by (induction bs) (auto simp: decode_all_def try_then_def or_fail_def undecodable_page_def assms split: sum.splits option.splits)
  from "1.prems" "1.IH" show ?case
    by (subst (asm) fetch_pages.simps) (auto simp: Let_def ask_def map_sum_Inl map_sum_Inr stalled_page_def assms dest: dec
        split: prod.splits sum.splits if_splits)
qed

definition not_given_up :: "e2ee_error \<Rightarrow> bool" where
  "not_given_up e = (case e of ResyncEquivocation _ _ \<Rightarrow> False | _ \<Rightarrow> True)"

lemma not_given_up_simps [simp]:
  "not_given_up (ResyncEquivocation n k) = False" "not_given_up (Transport err)" "not_given_up (ChainFault c)"
  "not_given_up (MlsFailed f)" "not_given_up NotConfirmed" "not_given_up SealedOverCap" "not_given_up (ResyncPoisoned m)"
  by (simp_all add: not_given_up_def)

lemma not_given_upD: "not_given_up e \<Longrightarrow> e \<noteq> ResyncEquivocation n k"
  by auto

lemma send_sealed_fails: "fails_with not_given_up (send_sealed E a confirmed ctx)"
  by (auto simp: fails_with_def send_sealed_def within_caps_def run_simps map_sum_Inl
      split: prod.splits sum.splits if_splits option.splits)

lemma apply_commits_fails: "fails_with not_given_up (apply_commits E certs events)"
proof (induction events)
  case (Cons e events)
  have inc: "fails_with not_given_up (process_incoming_commit E certs bs declared)" for bs declared
    by (auto simp: fails_with_def process_incoming_commit_def run_simps map_sum_Inl
        split: prod.splits sum.splits if_splits)
  show ?case
  proof (cases "ev_payload e")
    case (MlsCommit mc)
    show ?thesis unfolding apply_commits.simps MlsCommit event_payload.case
      by (intro fails_and_then inc) (auto simp: Cons intro!: fails_give split: incoming_outcome.split)
  qed (use Cons in auto)
qed (auto simp: fails_with_def give_def)

lemma resync_fails: "fails_with not_given_up (resync E certs c cursor)"
proof -
  have "fails_with not_given_up (fetch_mls_control_exhaustive E c cursor)"
    unfolding fails_with_def fetch_mls_control_exhaustive_def by (auto intro: fails_fetch_pages)
  then show ?thesis unfolding resync_def
    by (intro fails_and_then) (auto intro!: fails_and_then apply_commits_fails fails_give)
qed

section \<open>The resync\<close>

lemma resync_loop_bounded:
  "rp_attempts p < MAX_TOTAL_RESYNC_ATTEMPTS \<Longrightarrow> resync_loop (counted E) a confirmed ctx certs p cursor s = (r, s') \<Longrightarrow>
     subs s' + rp_attempts p \<le> subs s + MAX_TOTAL_RESYNC_ATTEMPTS \<and>
     (case r of Inl (ResyncEquivocation n _) \<Rightarrow> subs s' + rp_attempts p = subs s + n | _ \<Rightarrow> True)"
proof (induction "counted E" a confirmed ctx certs p cursor s arbitrary: r s' rule: resync_loop.induct)
  case (1 a confirmed ctx certs p cursor s)
  obtain r1 s1 where send: "send_sealed (counted E) a confirmed ctx s = (r1, s1)" by (meson surj_pair)
  have s1: "subs s1 \<le> subs s + 1" using spendsD [OF spends_send_sealed send] by simp
  show ?case
  proof (cases "\<exists>err. r1 = Inl (Transport err) \<and> is_stale_epoch err")
    case False
    moreover have "r1 \<noteq> Inl (ResyncEquivocation n k)" for n k
      using send_sealed_fails [of "counted E" a confirmed ctx] send by (fastforce simp: fails_with_def)
    ultimately have "s' = s1" and "\<forall>n k. r \<noteq> Inl (ResyncEquivocation n k)"
      using send "1.prems"(2) by (auto simp: resync_loop.simps split: sum.splits e2ee_error.splits)
    with s1 "1.prems"(1) show ?thesis by (auto split: sum.split e2ee_error.split)
  next
    case True
    then obtain err where err: "r1 = Inl (Transport err)" "is_stale_epoch err" by blast
    have one: "subs s1 = subs s + 1" using send_sealed_transport_error send err(1) by metis
    obtain r2 s2 where res: "resync (counted E) certs (ck_channel (sx_key ctx)) cursor s1 = (r2, s2)" by (meson surj_pair)
    have two: "subs s2 = subs s1" using spendsD [OF spends_resync res] by simp
    show ?thesis
    proof (cases r2)
      case (Inl e)
      with send err res "1.prems"(2) have "r = Inl e" "s' = s2" by (simp_all add: resync_loop.simps)
      moreover have "not_given_up e" using resync_fails res Inl by (fastforce simp: fails_with_def)
      ultimately show ?thesis using one two "1.prems"(1) by (auto split: e2ee_error.split)
    next
      case (Inr cur)
      show ?thesis
      proof (cases "resync_again p (cl_epoch (counted E) s2)")
        case again: (Inl e)
        with send err res Inr "1.prems"(2) have r: "r = Inl e" "s' = s2" by (simp_all add: resync_loop.simps)
        from again obtain k where "e = ResyncEquivocation (rp_attempts p + 1) k"
          by (auto simp: resync_again_def Let_def ensure_def split: if_splits)
        with r one two "1.prems"(1) show ?thesis by simp
      next
        case again: (Inr p')
        note p' = resync_again_attempts [OF again]
        from send err res Inr again "1.prems"(2)
        have "resync_loop (counted E) a confirmed ctx certs p' cur s2 = (r, s')" by (simp add: resync_loop.simps)
        from "1.hyps" [OF send [symmetric] err(1) refl _ res [symmetric] Inr again _ this] err(2) p' one two
        show ?thesis by (auto split: sum.splits e2ee_error.splits)
      qed
    qed
  qed
qed

lemma spends_keepalive: "spends 3 (send_sealed_keepalive (counted E) a confirmed ctx repairs)"
  unfolding spends_def
proof
  fix s :: "('a \<times> nat, 'b) client"
  obtain r s1 where send: "send_sealed (counted E) a confirmed ctx s = (r, s1)" by (meson surj_pair)
  have 1: "subs s \<le> subs s1 \<and> subs s1 \<le> subs s + 1" using spendsD [OF spends_send_sealed send] by simp
  have again: "spends 2 (and_then m (\<lambda>_. and_then (send_sealed (counted E) a confirmed ctx) (\<lambda>sent. give (Inr (sent, act)))))"
    if "spends 1 m" for act and m :: "('a \<times> nat, 'b) client \<Rightarrow> (e2ee_error + commit_submitted) \<times> ('a \<times> nat, 'b) client"
  proof -
    have "spends 1 (and_then (send_sealed (counted E) a confirmed ctx) (\<lambda>sent. give (Inr (sent, act))))"
      by (rule spends_after [OF spends_send_sealed spends_give])
    from spends_and_then [OF that this] show ?thesis by (simp add: numeral_2_eq_2)
  qed
  have commit: "spends 1 (submit_commit refused (counted E) a cx outcome adds removes head)" for refused cx outcome adds removes head
    by (auto simp: spends_def submit_commit_def run_simps counted_def counting_def subs_def map_prod_def split: prod.splits sum.splits)
  have rekey: "spends 1 (rekey_channel (counted E) a cx)" and drift: "spends 1 (discharge_drift (counted E) a cx dead)" for cx dead
    unfolding rekey_channel_def discharge_drift_def by (intro spends_before spends_authz_head spends_on_group spends_give commit)+
  show "subs s \<le> subs (snd (send_sealed_keepalive (counted E) a confirmed ctx repairs s)) \<and>
      subs (snd (send_sealed_keepalive (counted E) a confirmed ctx repairs s)) \<le> subs s + 3"
    using send 1 again [OF rekey, of "kr_rekey repairs" RekeyedThenSent]
      again [OF drift, of "kr_drift repairs" "kr_dead repairs" DischargedThenSent]
    unfolding send_sealed_keepalive_def spends_def
    by (auto split: sum.split dest: spec [of _ s1])
qed

text \<open>C31: Whatever the server answers, sending with resync submits at most ten events and sending with
  repairs at most three; a resync that gives up reports as attempts exactly the events it submitted.\<close>

theorem sends_are_bounded:
  "(case send_sealed_resync (counted E) a confirmed ctx certs since s of (r, s') \<Rightarrow>
      snd (cl_net s') \<le> snd (cl_net s) + MAX_TOTAL_RESYNC_ATTEMPTS \<and>
      (case r of Inl (ResyncEquivocation n _) \<Rightarrow> snd (cl_net s') = snd (cl_net s) + n | _ \<Rightarrow> True)) \<and>
   snd (cl_net (snd (send_sealed_keepalive (counted E) a confirmed ctx repairs s))) \<le> snd (cl_net s) + 3"
proof
  obtain r s' where run: "send_sealed_resync (counted E) a confirmed ctx certs since s = (r, s')" by (meson surj_pair)
  from resync_loop_bounded [OF _ run [unfolded send_sealed_resync_def]]
  show "case send_sealed_resync (counted E) a confirmed ctx certs since s of (r, s') \<Rightarrow>
     snd (cl_net s') \<le> snd (cl_net s) + MAX_TOTAL_RESYNC_ATTEMPTS \<and>
     (case r of Inl (ResyncEquivocation n _) \<Rightarrow> snd (cl_net s') = snd (cl_net s) + n | _ \<Rightarrow> True)"
    by (simp add: run MAX_TOTAL_RESYNC_ATTEMPTS_def subs_def split: sum.splits e2ee_error.splits)
  show "snd (cl_net (snd (send_sealed_keepalive (counted E) a confirmed ctx repairs s))) \<le> snd (cl_net s) + 3"
    using spends_keepalive [of E a confirmed ctx repairs] by (simp add: spends_def subs_def)
qed

section \<open>The catch-up against the server\<close>

definition serves_control :: "public_key \<Rightarrow> nat \<Rightarrow> mesh \<Rightarrow> bool" where
  "serves_control member channel_id m \<longleftrightarrow>
     content_block_reason (ms_server m) member = None \<and>
     MIN_CLIENT_VERSION_FOR_E2EE \<le> connection_protocol_version (ms_access m) member \<and>
     has (resolve_member_perms (as_db (ms_access m)) member channel_id (as_owner (ms_access m) = Some member)) READ_MESSAGES"

definition mesh_db :: "(mesh, 'g) client \<Rightarrow> server_db" where
  "mesh_db s = sv_db (ms_server (cl_net s))"

lemma ask_control:
  assumes "en_net E = server_transport cr text member" and "serves_control member c (cl_net s)"
  shows "ask (tr_fetch_mls_control (en_net E) c since) s =
    (Inr (page_of cr (fetch_mls_control c (unat since) (mesh_db s))), s)"
  using assms by (simp add: ask_def server_transport_def serve_control_def gated_def serves_control_def mesh_db_def)

lemma decode_all_ser:
  "(\<And>e. e \<in> set events \<Longrightarrow> en_event E (ser_event cr e) = Some e) \<Longrightarrow>
     decode_all E err (map (ser_event cr) events) = Inr events"
  by (induction events) (auto simp: decode_all_def or_fail_def try_then_def)

lemma control_page:
  assumes ord: "events_ordered db" and page: "fetch_mls_control c since db = (out, cursor, again)"
    and bound: "db_last_event db < 2 ^ 64" "since < 2 ^ 64"
  shows "cursor < 2 ^ 64" and "again \<Longrightarrow> since < cursor"
proof -
  let ?rows = "rows_after control_types since db"
  from scan_page_spec [OF page [unfolded fetch_mls_control_def]]
  have cur: "cursor = last (since # map fst (take MAX_FETCH_EVENTS ?rows))" and again: "again = (MAX_FETCH_EVENTS < length ?rows)"
    by simp_all
  have row: "since < seq \<and> seq \<le> db_last_event db" if "seq \<in> set (map fst (take MAX_FETCH_EVENTS ?rows))" for seq
    using that ord by (auto simp: rows_after_def events_ordered_def dest!: in_set_takeD)
  show "cursor < 2 ^ 64"
  proof (cases "take MAX_FETCH_EVENTS ?rows = []")
    case False
    then have "cursor \<in> set (map fst (take MAX_FETCH_EVENTS ?rows))"
      unfolding cur by (metis last.simps last_in_set map_is_Nil_conv)
    from row [OF this] bound show ?thesis by linarith
  qed (use bound in \<open>simp add: cur\<close>)
  show "since < cursor" if again
  proof -
    from that again have "take MAX_FETCH_EVENTS ?rows \<noteq> []" by (auto simp: MAX_FETCH_EVENTS_def)
    then have "cursor \<in> set (map fst (take MAX_FETCH_EVENTS ?rows))"
      unfolding cur by (metis last.simps last_in_set map_is_Nil_conv)
    from row [OF this] show ?thesis by simp
  qed
qed

lemma control_rows:
  "map snd (filter (\<lambda>r. mls_control_of c (snd r)) (rows_after control_types n db)) =
     filter (mls_control_of c) (map snd (filter (\<lambda>p. n < fst p) (db_events db)))"
proof -
  have only: "payload_type (ev_payload e) \<in> control_types" if "mls_control_of c e" for e
    using that by (auto simp: mls_control_of_def payload_type_def control_types_def split: event_payload.splits)
  show ?thesis
    unfolding rows_after_def filter_map comp_def filter_filter using only by (auto intro!: arg_cong [where f = "map snd"] filter_cong)
qed

lemma fetched_rows_stored:
  "fetch_mls_control c since db = (out, cursor, again) \<Longrightarrow> e \<in> set out \<Longrightarrow> \<exists>p \<in> set (db_events db). e = snd p"
  using scan_page_spec [of "mls_control_of c" "rows_after control_types since db" since out cursor again]
  by (auto simp: fetch_mls_control_def rows_after_def dest!: in_set_takeD)

lemma fetch_pages_control:
  assumes "en_net E = server_transport cr text member" and "serves_control member c (cl_net s)"
    and decodes: "\<And>p. p \<in> set (db_events (mesh_db s)) \<Longrightarrow> en_event E (ser_event cr (snd p)) = Some (snd p)"
    and "events_ordered (mesh_db s)" and "db_last_event (mesh_db s) < 2 ^ 64"
  shows "\<exists>last_seq. fetch_pages E (tr_fetch_mls_control (en_net E) c) Some since out s =
    (Inr (out @ map snd (filter (\<lambda>r. mls_control_of c (snd r)) (rows_after control_types (unat since) (mesh_db s))), last_seq), s) \<and>
    rows_after control_types (unat last_seq) (mesh_db s) = []"
proof (induction "length (rows_after control_types (unat since) (mesh_db s))" arbitrary: since out rule: less_induct)
  case less
  let ?rows = "\<lambda>since. rows_after control_types since (mesh_db s)" and ?wanted = "\<lambda>r. mls_control_of c (snd r)"
  obtain events cursor again where page: "fetch_mls_control c (unat since) (mesh_db s) = (events, cursor, again)" by (metis surj_pair)
  note law = control.fetched [OF assms(4) page]
  note cur = control_page [OF assms(4) page assms(5)]
  have bound: "unat since < 2 ^ 64" using cursor_bound [of since] by simp
  have unat: "unat (word_of_nat cursor :: 64 word) = cursor" using cur(1) [OF bound] by (simp add: unat_of_nat take_bit_nat_eq_self)
  have decode: "decode_all E err (map (ser_event cr) events) = Inr events" for err
    using fetched_rows_stored [OF page] decodes by (intro decode_all_ser) blast
  have step: "fetch_pages E (tr_fetch_mls_control (en_net E) c) Some since out s =
      (if \<not> again then (Inr (out @ events, word_of_nat cursor), s)
       else if (word_of_nat cursor :: 64 word) \<le> since then (Inl stalled_page, s)
       else fetch_pages E (tr_fetch_mls_control (en_net E) c) Some (word_of_nat cursor) (out @ events) s)"
    by (subst fetch_pages.simps) (simp add: ask_control [OF assms(1,2)] page page_of_def decode map_filter_def)
  show ?case
  proof (cases again)
    case False
    with law have "length (?rows (unat since)) \<le> MAX_FETCH_EVENTS" by simp
    with law False show ?thesis by (simp add: step unat)
  next
    case True
    with law have shorter: "length (?rows cursor) < length (?rows (unat since))" by (auto simp: MAX_FETCH_EVENTS_def)
    have later: "\<not> (word_of_nat cursor :: 64 word) \<le> since" using cur(2) [OF bound True] by (simp add: word_le_nat_alt unat)
    from less [of "word_of_nat cursor" "out @ events"] shorter law True
    show ?thesis
      by (simp add: step later unat) (metis append_take_drop_id filter_append map_append)
  qed
qed


lemma all_permissions_read: "has ALL_PERMISSIONS READ_MESSAGES"
  by code_simp

lemma ec_serves:
  "served ss_before (\<lambda>sv. serves_control (PublicKey sc_owner) ss_channel (ec_mesh sv) \<and> db_last_event (sv_db sv) = 5 \<and>
     map snd (db_events (sv_db sv)) = map snd ss_before \<and>
     filter (mls_control_of ss_channel) (map snd (filter (\<lambda>p. unat (0 :: 64 word) < fst p) (db_events (sv_db sv)))) = [ss_o2])"
  by (simp add: served_def ingest_eval_defs ss_defs run_defs serves_control_def ec_mesh_def content_block_reason_def
      connection_protocol_version_def MIN_CLIENT_VERSION_FOR_E2EE_def resolve_member_perms_def mls_control_of_def
      all_permissions_read)


end
