(* ===== verification/E2eeChain.thy ===== *)
theory E2eeChain
  imports E2eeBounds
begin

text \<open>
  The client's place in its device's chain and the log's: over the modelled server every operation of
  the client leaves them in step, so its next event extends the chain; an answer that is lost does not.
\<close>

section \<open>In step\<close>

definition chain_at :: "log_state \<Rightarrow> leaf \<Rightarrow> chain_state \<Rightarrow> bool" where
  "chain_at st k chain \<longleftrightarrow>
     (case ls_chains st k of
        None \<Rightarrow> cs_next_seq chain = 0 \<and> cs_last_event_hash chain = None
      | Some head \<Rightarrow> cs_next_seq chain = (hd_seq head + 1) mod 2 ^ 64 \<and> cs_last_event_hash chain = Some (hd_hash head))"

definition leaf_of :: "crypto \<Rightarrow> actor \<Rightarrow> leaf" where
  "leaf_of cr a = (ed_public cr (at_identity a), device_id_of cr (ed_public cr (at_device a)))"

definition in_step :: "('t, 'g, 's) env \<Rightarrow> actor \<Rightarrow> (mesh, 'g) client \<Rightarrow> bool" where
  "in_step E a s \<longleftrightarrow>
     (\<exists>st. sv_log (ms_server (cl_net s)) = Some st \<and> chain_at st (leaf_of (en_crypto E) a) (cl_chain s))"

lemma next_event_core [simp]:
  "ev_author (build_next_event cr d i sid ch t p) = ed_public cr i"
  "ev_device (build_next_event cr d i sid ch t p) = device_id_of cr (ed_public cr d)"
  "ev_seq (build_next_event cr d i sid ch t p) = cs_next_seq ch"
  "ev_prev (build_next_event cr d i sid ch t p) = cs_last_event_hash ch"
  "ev_payload (build_next_event cr d i sid ch t p) = p"
  "ev_timestamp (build_next_event cr d i sid ch t p) = t"
  by (simp_all add: build_next_event_def event_sign_def)

lemma chain_at_next:
  assumes "log_apply cr st e = Inr st'" and "(ev_author e, ev_device e) = k"
  shows "chain_at st' k (advance cr e)"
  using apply_chains [OF assms(1)] assms(2) by (simp add: chain_at_def advance_def)

section \<open>What keeps an invariant of the client\<close>

definition keeps :: "('s \<Rightarrow> bool) \<Rightarrow> ('s \<Rightarrow> ('e + 'a) \<times> 's) \<Rightarrow> bool" where
  "keeps I m \<longleftrightarrow> (\<forall>s. I s \<longrightarrow> I (snd (m s)))"

named_theorems keeps_intros

lemma keepsD: "keeps I m \<Longrightarrow> I s \<Longrightarrow> m s = (r, s') \<Longrightarrow> I s'"
  unfolding keeps_def by (metis snd_conv)

lemma keeps_give [keeps_intros]: "keeps I (give r)"
  by (simp add: keeps_def give_def)

lemma keeps_and_then [keeps_intros]: "keeps I m \<Longrightarrow> (\<And>x. keeps I (f x)) \<Longrightarrow> keeps I (and_then m f)"
  by (force simp: keeps_def and_then_def split: prod.splits sum.splits)

lemma keeps_at: "(\<And>s. keeps I (m s)) \<Longrightarrow> keeps I (\<lambda>s. m s s)"
  by (simp add: keeps_def)

lemma keeps_for_each [keeps_intros]: "(\<And>i. keeps I (f i)) \<Longrightarrow> keeps I (for_each f is)"
  by (induction "is") (auto intro!: keeps_intros)

section \<open>The operations\<close>

abbreviation stays :: "(mesh, 'g, 's) env \<Rightarrow> actor \<Rightarrow> ((mesh, 'g) client \<Rightarrow> ('e + 'a) \<times> (mesh, 'g) client) \<Rightarrow> bool" where
  "stays E a \<equiv> keeps (in_step E a)"

lemma stays_on_group [keeps_intros]: "stays E a (on_group change)"
  by (auto simp: keeps_def on_group_def in_step_def split: prod.split)

lemma stays_authz_head [keeps_intros]: "stays E a authz_head"
  by (simp add: keeps_def authz_head_def give_def)


text \<open>Only a submission changes the server or the chain.\<close>

definition over_server :: "(mesh, 'g, 's) env \<Rightarrow> bool" where
  "over_server E \<longleftrightarrow> (\<exists>text member. en_net E = server_transport (en_crypto E) text member)"

lemma stays_ask [keeps_intros]:
  assumes "over_server E"
  shows "stays E a (ask (tr_fetch_mls_control (en_net E) c since))" "stays E a (ask (tr_fetch_welcomes (en_net E) cf since))"
    "stays E a (ask (tr_fetch_key_packages (en_net E) m d))" "stays E a (ask (tr_fetch_device_certs (en_net E) m))"
  using assms by (auto simp: over_server_def keeps_def ask_def server_transport_def in_step_def)

lemma stays_pages [keeps_intros]:
  assumes "over_server E"
  shows "stays E a (fetch_mls_control_exhaustive E c since)"
  unfolding keeps_def fetch_mls_control_exhaustive_def
proof (intro allI impI)
  fix s
  assume "in_step E a s"
  moreover have "in_step E a s \<longrightarrow> in_step E a (snd (fetch_pages E (tr_fetch_mls_control (en_net E) c) Some since [] s))"
    by (rule fetch_pages_keeps) (use stays_ask(1) [OF assms] in \<open>auto simp: keeps_def\<close>)
  ultimately show "in_step E a (snd (fetch_pages E (tr_fetch_mls_control (en_net E) c) Some since [] s))" by blast
qed

lemma stays_submit_with [keeps_intros]:
  assumes "over_server E"
  shows "stays E a (submit_with refused E a sid payload)"
  unfolding keeps_def
proof (intro allI impI)
  fix s
  assume step: "in_step E a s"
  let ?e = "build_next_event (en_crypto E) (at_device a) (at_identity a) sid (cl_chain s) (tr_now (en_net E) (cl_net s)) payload"
  from assms obtain report member where net: "en_net E = server_transport (en_crypto E) report member" by (auto simp: over_server_def)
  show "in_step E a (snd (submit_with refused E a sid payload s))"
  proof (cases "submit_event (en_crypto E) (ms_server_now (cl_net s)) (ms_server (cl_net s)) ?e")
    case (Inl err)
    with step net show ?thesis by (simp add: submit_with_def in_step_def Let_def) (simp add: server_transport_def)
  next
    case (Inr acc)
    obtain sv ns os where acc: "acc = (sv, ns, os)" by (metis prod_cases3)
    from Inr [unfolded acc] obtain st trial res db' where "log_apply (en_crypto E) st ?e = Inr trial" "sv_log sv = Some trial"
      by (rule submit_event_Inr) simp
    with chain_at_next [of "en_crypto E" st ?e trial "leaf_of (en_crypto E) a"] Inr acc net
    show ?thesis by (simp add: submit_with_def in_step_def Let_def leaf_of_def) (simp add: server_transport_def)
  qed
qed

lemma stays_submit_next [keeps_intros]: "over_server E \<Longrightarrow> stays E a (submit_next E a sid payload)"
  unfolding submit_next_def by (rule stays_submit_with)


section \<open>Every operation\<close>

lemma stays_send_sealed [keeps_intros]: "over_server E \<Longrightarrow> stays E a (send_sealed E a confirmed ctx)"
  unfolding send_sealed_def Let_def
  by (intro keeps_intros) (rule keeps_at, intro keeps_intros)

lemma stays_incoming [keeps_intros]: "stays E a (process_incoming_commit E certs bs declared)"
  by (auto simp: keeps_def process_incoming_commit_def and_then_def on_group_def give_def in_step_def split: prod.split sum.split)

lemma stays_apply_commits [keeps_intros]: "stays E a (apply_commits E certs events)"
proof (induction events)
  case (Cons e events)
  then show ?case
    by (auto intro!: keeps_intros split: event_payload.split incoming_outcome.split)
qed (simp add: keeps_intros)

lemma stays_resync [keeps_intros]: "over_server E \<Longrightarrow> stays E a (resync E certs c cursor)"
  unfolding resync_def by (auto intro!: keeps_intros split: prod.split)

lemma stays_resync_loop:
  "over_server E \<Longrightarrow> in_step E a s \<Longrightarrow> in_step E a (snd (resync_loop E a confirmed ctx certs p cursor s))"
proof (induction E a confirmed ctx certs p cursor s rule: resync_loop.induct)
  case (1 E a confirmed ctx certs p cursor s)
  obtain r1 s1 where send: "send_sealed E a confirmed ctx s = (r1, s1)" by (meson surj_pair)
  note s1 = keepsD [OF stays_send_sealed [OF "1.prems"(1)] "1.prems"(2) send]
  show ?case
  proof (cases "\<exists>err. r1 = Inl (Transport err) \<and> is_stale_epoch err")
    case False
    with send s1 show ?thesis by (auto simp: resync_loop.simps split: sum.split e2ee_error.split)
  next
    case True
    then obtain err where err: "r1 = Inl (Transport err)" "is_stale_epoch err" by blast
    obtain r2 s2 where res: "resync E certs (ck_channel (sx_key ctx)) cursor s1 = (r2, s2)" by (meson surj_pair)
    note s2 = keepsD [OF stays_resync [OF "1.prems"(1)] s1 res]
    show ?thesis
    proof (cases r2)
      case (Inl e)
      with send err res s2 show ?thesis by (simp add: resync_loop.simps)
    next
      case (Inr cur)
      show ?thesis
      proof (cases "resync_again p (cl_epoch E s2)")
        case (Inl e)
        with send err res Inr s2 show ?thesis by (simp add: resync_loop.simps)
      next
        case again: (Inr p')
        from "1.IH" [OF send [symmetric] err(1) refl _ res [symmetric] Inr again "1.prems"(1) s2] err(2)
        show ?thesis using send err res Inr again by (simp add: resync_loop.simps)
      qed
    qed
  qed
qed

lemma stays_send_sealed_resync [keeps_intros]: "over_server E \<Longrightarrow> stays E a (send_sealed_resync E a confirmed ctx certs since)"
  by (simp add: keeps_def send_sealed_resync_def stays_resync_loop)

lemma stays_submit_commit [keeps_intros]: "over_server E \<Longrightarrow> stays E a (submit_commit refused E a cx outcome adds removes head)"
  unfolding submit_commit_def Let_def 
  by (rule keeps_at, rule keeps_and_then, erule stays_submit_with, rule keeps_at, rule keeps_give)

lemma stays_own_commits [keeps_intros]:
  assumes "over_server E"
  shows "stays E a (bootstrap_group E a key sh)" "stays E a (rekey_channel E a cx)" "stays E a (discharge_drift E a cx dead)"
  unfolding bootstrap_group_def rekey_channel_def discharge_drift_def by (intro keeps_intros assms)+

lemma stays_key_package [keeps_intros]: "over_server E \<Longrightarrow> stays E a (fetched_key_package E m)"
  unfolding fetched_key_package_def by (intro keeps_intros)

lemma stays_add_member [keeps_intros]: "over_server E \<Longrightarrow> stays E a (add_member E a cx m)"
  unfolding add_member_def by (auto intro!: keeps_intros split: prod.split)

lemma stays_keepalive [keeps_intros]:
  assumes "over_server E"
  shows "stays E a (send_sealed_keepalive E a confirmed ctx repairs)"
  unfolding keeps_def
proof (intro allI impI)
  fix s
  assume "in_step E a s"
  obtain r s1 where send: "send_sealed E a confirmed ctx s = (r, s1)" by (meson surj_pair)
  note s1 = keepsD [OF stays_send_sealed [OF assms] \<open>in_step E a s\<close> send]
  have again: "in_step E a (snd (and_then m (\<lambda>_. and_then (send_sealed E a confirmed ctx) (\<lambda>sent. give (Inr (sent, act)))) s1))"
    if "stays E a m" for act :: keepalive_action and m :: "(mesh, 'a) client \<Rightarrow> (e2ee_error + commit_submitted) \<times> (mesh, 'a) client"
  proof -
    have "stays E a (and_then m (\<lambda>_. and_then (send_sealed E a confirmed ctx) (\<lambda>sent. give (Inr (sent, act)))))"
      by (intro keeps_and_then that stays_send_sealed assms keeps_give)
    with s1 show ?thesis by (simp add: keeps_def)
  qed
  show "in_step E a (snd (send_sealed_keepalive E a confirmed ctx repairs s))"
    using send s1 again [OF stays_own_commits(2) [OF assms]] again [OF stays_own_commits(3) [OF assms]]
    by (simp add: send_sealed_keepalive_def split: sum.split)
qed

lemma stays_joining [keeps_intros]:
  assumes "over_server E"
  shows "stays E a (confirm_leaf E a key sh pending info)" "stays E a (join_reset E a key sh pending h)"
  using assms unfolding confirm_leaf_def join_reset_def confirm_def by (auto intro!: keeps_intros split: prod.split)

lemma stays_devices [keeps_intros]:
  assumes "over_server E"
  shows "stays E a (revoke_device E a d)" "stays E a (authorize_device E a)" "stays E a (publish_key_package E a made sh)"
    apply (unfold revoke_device_def authorize_device_def publish_key_package_def Let_def)
    apply (intro keeps_intros assms)
   apply (rule keeps_at, intro keeps_intros assms)
  apply (intro keeps_intros assms, rule keeps_at, intro keeps_intros assms)
  done

lemma stays_add_everyone [keeps_intros]: "over_server E \<Longrightarrow> stays E a (add_everyone E a c gen members fresh)"
  unfolding add_everyone_def stage_welcome_def by (auto intro!: keeps_intros split: prod.split sum.split)

lemma stays_reset [keeps_intros]: "over_server E \<Longrightarrow> stays E a (reset_group E a key gen members)"
  unfolding reset_group_def Let_def by (auto intro!: keeps_intros split: prod.split)


section \<open>The client follows its chain\<close>

lemma next_extends:
  assumes "chain_at st (leaf_of cr a) chain" and "\<And>head. ls_chains st (leaf_of cr a) = Some head \<Longrightarrow> hd_seq head + 1 < 2 ^ 64"
  shows "check_chain st (build_next_event cr (at_device a) (at_identity a) sid chain now payload) = Inr ()"
  using assms by (auto simp: chain_at_def leaf_of_def check_chain_def ensure_Inr split: option.splits)

text \<open>C6: Over the modelled server, a client whose chain state names the head the log has for its device keeps
  doing so through every operation, whatever of it the server refuses: sending with resync or repairs, its own
  commits, adding a member, joining, resetting, and authorizing, revoking and publishing for a device.  Its
  next event then passes the log's check of the chain.\<close>

theorem client_follows_its_chain:
  assumes "over_server E" and "in_step E a s"
  shows "in_step E a (snd (send_sealed_resync E a confirmed ctx certs since s)) \<and>
    in_step E a (snd (send_sealed_keepalive E a confirmed ctx repairs s)) \<and>
    in_step E a (snd (bootstrap_group E a key store_hash s)) \<and>
    in_step E a (snd (rekey_channel E a cx s)) \<and>
    in_step E a (snd (discharge_drift E a cx dead s)) \<and>
    in_step E a (snd (add_member E a cx m s)) \<and>
    in_step E a (snd (confirm_leaf E a key store_hash pending info s)) \<and>
    in_step E a (snd (join_reset E a key store_hash pending h s)) \<and>
    in_step E a (snd (reset_group E a key gen members s)) \<and>
    in_step E a (snd (authorize_device E a s)) \<and>
    in_step E a (snd (revoke_device E a d s)) \<and>
    in_step E a (snd (publish_key_package E a made store_hash s)) \<and>
    (\<exists>st. sv_log (ms_server (cl_net s)) = Some st \<and>
       ((\<forall>head. ls_chains st (leaf_of (en_crypto E) a) = Some head \<longrightarrow> hd_seq head + 1 < 2 ^ 64) \<longrightarrow>
        check_chain st (build_next_event (en_crypto E) (at_device a) (at_identity a) sid (cl_chain s) now payload) = Inr ()))"
proof -
  have run: "in_step E a (snd (m s))" if "stays E a m" for m :: "(mesh, 'a) client \<Rightarrow> ('x + 'y) \<times> (mesh, 'a) client"
    using that assms(2) by (simp add: keeps_def)
  from assms(2) obtain st where "sv_log (ms_server (cl_net s)) = Some st" "chain_at st (leaf_of (en_crypto E) a) (cl_chain s)"
    by (auto simp: in_step_def)
  then have "\<exists>st. sv_log (ms_server (cl_net s)) = Some st \<and>
       ((\<forall>head. ls_chains st (leaf_of (en_crypto E) a) = Some head \<longrightarrow> hd_seq head + 1 < 2 ^ 64) \<longrightarrow>
        check_chain st (build_next_event (en_crypto E) (at_device a) (at_identity a) sid (cl_chain s) now payload) = Inr ())"
    using next_extends [of st "en_crypto E" a "cl_chain s"] by blast
  then show ?thesis
    using assms by (intro conjI run keeps_intros)
qed

lemma ec_in_step: "in_step ec_env ec_owner (ec_client (ec_mesh (fresh_server toy_crypto sc_genesis)))"
  by (simp add: in_step_def ec_client_def ec_mesh_def fresh_server_def from_genesis_def chain_at_def)

theorem client_follows_its_chain_witness:
  "in_step ec_env ec_owner (snd (authorize_device ec_env ec_owner (ec_client (ec_mesh (fresh_server toy_crypto sc_genesis)))))"
proof -
  have "over_server ec_env" by (auto simp: over_server_def ec_env_def)
  from client_follows_its_chain [OF this ec_in_step] show ?thesis by blast
qed

section \<open>An answer that is lost\<close>

text \<open>The server stores the event, the connection ends before its answer arrives.\<close>

definition losing_answers :: "'t transport \<Rightarrow> 't transport" where
  "losing_answers N = N\<lparr>tr_submit_event := (\<lambda>e t.
     case tr_submit_event N e t of
       (Inr _, t') \<Rightarrow> (Inl (TransportFailed ''connection lost''), t')
     | (Inl err, t') \<Rightarrow> (Inl err, t'))\<rparr>"

lemma lost_answer_stops_the_device:
  assumes "en_net E = losing_answers (server_transport (en_crypto E) report member)"
    and "in_step E a s"
    and "submit_event (en_crypto E) (ms_server_now (cl_net s)) (ms_server (cl_net s))
      (build_next_event (en_crypto E) (at_device a) (at_identity a) sid (cl_chain s) (ms_client_now (cl_net s)) payload) = Inr (sv, ns, os)"
  shows "\<exists>s' st. submit_next E a sid payload s = (Inl (Transport (TransportFailed ''connection lost'')), s') \<and>
    sv_log (ms_server (cl_net s')) = Some st \<and>
    check_chain st (build_next_event (en_crypto E) (at_device a) (at_identity a) sid (cl_chain s') now payload') =
      Inl (Envelope NonContiguousSeq)"
proof -
  from assms(3) obtain st trial where trial: "log_apply (en_crypto E) st
      (build_next_event (en_crypto E) (at_device a) (at_identity a) sid (cl_chain s) (ms_client_now (cl_net s)) payload) = Inr trial"
    "sv_log sv = Some trial" by (rule submit_event_Inr) simp
  from apply_chains [OF trial(1)] assms trial(2) show ?thesis
    by (simp add: submit_next_def submit_with_def losing_answers_def server_transport_def Let_def check_chain_def ensure_def)
qed

end
