(* ===== verification/E2eeClaims.thy ===== *)
theory E2eeClaims
  imports E2eeChain
begin

text \<open>
  Properties of the client: what an incoming commit must satisfy, what our own commits leave behind,
  and the client and the modelled server agreeing on the chain, the rate rule and the refusals.
\<close>

section \<open>Incoming commits\<close>

definition bound_by :: "crypto \<Rightarrow> cert_resolver \<Rightarrow> actual_leaf \<Rightarrow> bool" where
  "bound_by cr certs leaf \<longleftrightarrow>
     (\<exists>cert. certs (al_member leaf) = Some cert \<and> cert_verify cr cert = Inr () \<and>
        decode_credential_identity (al_credential leaf) = Some (dc_identity (cert_core cert), dc_device_id (cert_core cert)) \<and>
        al_key leaf = as_bytes (dc_device_pubkey (cert_core cert)))"

lemma leaf_binds_bound: "leaf_binds cr certs leaf \<Longrightarrow> bound_by cr certs leaf"
  by (auto simp: leaf_binds_def bound_by_def verify_leaf_binding_def declared_member_of_def try_then_Inr or_fail_Inr ensure_Inr
      split: option.splits sum.splits)



text \<open>The owner's commit adds a member's device, whose certificate the resolver has.\<close>

abbreviation (input) joining :: keypair where "joining \<equiv> replicate 32 2"

definition ec_cert :: device_cert where
  "ec_cert = cert_create toy_crypto joining (PublicKey [12]) 0"

definition ec_member :: declared_member where
  "ec_member = (PublicKey joining, device_id_of toy_crypto (PublicKey [12]))"

definition ec_declared :: declared_commit where
  "ec_declared = \<lparr>dm_epoch = 4, dm_adds = [\<lparr>add_identity = fst ec_member, add_device = snd ec_member, add_key_package = []\<rparr>],
     dm_removes = [], dm_post_tree_hash = replicate 32 1\<rparr>"

definition ec_run :: "(e2ee_error + incoming_outcome) \<times> (unit, toy_group) client" where
  "ec_run = process_incoming_commit (toy_env undefined) [ec_member \<mapsto> ec_cert]
     (12 # encode_credential_identity (fst ec_member) (snd ec_member)) ec_declared (ec_client ())"

lemma ec_credential: "decode_credential_identity (encode_credential_identity (fst ec_member) (snd ec_member)) = Some ec_member"
  by (subst decode_encode) (simp_all add: ec_member_def crypto_eval_defs)

lemma ec_cert_facts: "dc_identity (cert_core ec_cert) = fst ec_member" "dc_device_id (cert_core ec_cert) = snd ec_member"
    "dc_device_pubkey (cert_core ec_cert) = PublicKey [12]" "cert_verify toy_crypto ec_cert = Inr ()"
  using cert_create_inner_verifies [OF toy_crypto_ok, of joining "PublicKey [12]" 0 None]
  by (simp_all add: ec_cert_def cert_create_def ec_member_def) (simp add: toy_crypto_def)

lemma ec_binds: "leaf_binds toy_crypto [ec_member \<mapsto> ec_cert]
    \<lparr>al_member = ec_member, al_credential = encode_credential_identity (fst ec_member) (snd ec_member), al_key = [12]\<rparr>"
  by (simp add: leaf_binds_def verify_leaf_binding_def declared_member_of_def ec_credential or_fail_def try_then_def ec_cert_facts
      ensure_def case_prod_unfold)

lemma ec_applies: "fst ec_run = Inr (Applied 5 (replicate 32 1))"
  by (simp add: ec_run_def process_incoming_commit_def ec_declared_def ec_client_def cl_epoch_def and_then_def on_group_def give_def
      process_commit_checked_def stage_commit_def staged_commit_summary_def actual_leaf_of_def declared_member_of_def ec_credential
      or_fail_def try_then_def ensure_def hash32_def toy_hash_def verify_declared_matches_actual_def sorted_members_def
      add_leaf_def merge_staged_def ec_binds)


section \<open>Our own commits\<close>

text \<open>The shape the three operations share.\<close>

definition own_commit_op ::
    "(transport_error \<Rightarrow> nat \<Rightarrow> e2ee_error) \<Rightarrow> ('t, 'g, 's) env \<Rightarrow> actor \<Rightarrow> commit_context \<Rightarrow> e2ee_error + unit \<Rightarrow>
     ('g channel_group \<Rightarrow> (group_error + commit_outcome) \<times> 'g channel_group) \<Rightarrow> (commit_outcome \<Rightarrow> declared_remove list) \<Rightarrow>
     ('t, 'g) client \<Rightarrow> (e2ee_error + commit_submitted) \<times> ('t, 'g) client" where
  "own_commit_op refused E a cx guard change removes =
     and_then authz_head (\<lambda>head. and_then (give guard) (\<lambda>_. and_then (on_group change) (\<lambda>outcome.
       submit_commit refused E a cx outcome [] (removes outcome) head)))"

lemma and_then_give [simp]: "and_then (give (Inr x)) f = f x" "and_then (give (Inl e)) f = give (Inl e)"
  by (simp_all add: fun_eq_iff and_then_def give_def)

lemma own_commit_ops:
  "bootstrap_group E a key h =
     own_commit_op commit_refused E a \<lparr>cx_key = key, cx_generation = 0, cx_store_instance_hash = h\<rparr> (Inr ()) (self_update (en_lib E)) (\<lambda>_. [])"
  "rekey_channel E a cx = own_commit_op rekey_refused E a cx (Inr ()) (self_update (en_lib E)) (\<lambda>_. [])"
  "discharge_drift E a cx dead =
     own_commit_op rekey_refused E a cx (ensure (dead \<noteq> []) (ChainFault NoDeadLeaves) (Inr ())) (remove_members (en_lib E) dead) removes_of"
  by (simp_all add: own_commit_op_def bootstrap_group_def rekey_channel_def discharge_drift_def)

lemma refused_kinds:
  "is_diverged (commit_refused err n) \<or> (\<exists>msg. commit_refused err n = Transport (TransportFailed msg))"
  "is_diverged (rekey_refused err n) \<or> (\<exists>msg. rekey_refused err n = Transport (TransportFailed msg))"
  by (auto simp: commit_refused_def rekey_refused_def is_diverged_def split: transport_error.split)

definition moves_on_success :: "('g, 's) mls_lib \<Rightarrow> ('g channel_group \<Rightarrow> (group_error + commit_outcome) \<times> 'g channel_group) \<Rightarrow> bool" where
  "moves_on_success L change \<longleftrightarrow>
     (\<forall>cg r cg'. change cg = (r, cg') \<longrightarrow>
        (case r of
           Inl e \<Rightarrow> ml_epoch L (cg_inner cg') = ml_epoch L (cg_inner cg)
         | Inr out \<Rightarrow> ml_epoch L (cg_inner cg') = ml_epoch L (cg_inner cg) + 1 \<and> co_epoch out = ml_epoch L (cg_inner cg) \<and>
             co_post_tree_hash out = cg_tree_hash cg'))"

lemma movesD:
  assumes "moves_on_success L change"
  shows "change cg = (Inl e, cg') \<Longrightarrow> ml_epoch L (cg_inner cg') = ml_epoch L (cg_inner cg)"
    and "change cg = (Inr out, cg') \<Longrightarrow> ml_epoch L (cg_inner cg') = ml_epoch L (cg_inner cg) + 1 \<and>
      co_epoch out = ml_epoch L (cg_inner cg) \<and> co_post_tree_hash out = cg_tree_hash cg'"
  using assms [unfolded moves_on_success_def, rule_format, of cg _ cg'] by auto

lemma own_commit_tree: "own_commit L oc cg = (Inr out, cg') \<Longrightarrow> co_post_tree_hash out = cg_tree_hash cg'"
  by (auto simp: own_commit_def finish_own_commit_def finish_own_commit_inner_def Let_def
      split: prod.splits option.splits sum.splits if_splits)

lemma own_commits_move:
  assumes "mls_lib_ok L"
  shows "moves_on_success L (self_update L)" "moves_on_success L (remove_members L dead)"
  using own_commit_epoch [OF assms] own_commit_tree
  by (fastforce simp: moves_on_success_def self_update_def remove_members_def split: sum.splits if_splits)+

text \<open>What such an operation leaves behind.\<close>

definition commit_left :: "('t, 'g, 's) env \<Rightarrow> ('t, 'g) client \<Rightarrow> e2ee_error + commit_submitted \<Rightarrow> ('t, 'g) client \<Rightarrow> bool" where
  "commit_left E s r s' \<longleftrightarrow>
     (case r of
        Inr sent \<Rightarrow>
          cl_epoch E s' = cl_epoch E s + 1 \<and> sb_local_epoch sent = cl_epoch E s' \<and>
          sb_post_tree_hash sent = cg_tree_hash (cl_group s') \<and>
          (\<exists>e mc. cl_chain s' = advance (en_crypto E) e \<and> ev_payload e = MlsCommit mc \<and> mc_epoch mc = cl_epoch E s \<and>
             mc_adds mc = [] \<and> mc_post_tree_hash mc = cg_tree_hash (cl_group s'))
      | Inl err \<Rightarrow>
          cl_chain s' = cl_chain s \<and>
          cl_epoch E s' = cl_epoch E s + (if is_diverged err \<or> (\<exists>msg. err = Transport (TransportFailed msg)) then 1 else 0))"

lemma own_commit_op_left:
  assumes moves: "moves_on_success (en_lib E) change"
    and refused: "\<And>err n. is_diverged (refused err n) \<or> (\<exists>msg. refused err n = Transport (TransportFailed msg))"
    and guard: "guard = Inr () \<or> guard = Inl (ChainFault NoDeadLeaves)"
    and run: "own_commit_op refused E a cx guard change removes s = (r, s')"
  shows "commit_left E s r s'"
proof (cases "cs_last_event_hash (cl_chain s) = None \<or> guard \<noteq> Inr ()")
  case True
  with run guard have "s' = s" "r = Inl (ChainFault NoPriorEvent) \<or> r = Inl (ChainFault NoDeadLeaves)"
    by (auto simp: own_commit_op_def and_then_def authz_head_def or_fail_def split: sum.splits option.splits) (auto simp: give_def)
  then show ?thesis by (auto simp: commit_left_def is_diverged_def)
next
  case False
  then obtain head where head: "cs_last_event_hash (cl_chain s) = Some head" and g: "guard = Inr ()" by auto
  obtain r1 cg where ch: "change (cl_group s) = (r1, cg)" by (meson surj_pair)
  show ?thesis
  proof (cases r1)
    case (Inl e)
    with run head g ch have "r = Inl (MlsFailed (OfGroup e))" "s' = s\<lparr>cl_group := cg\<rparr>"
      by (auto simp: own_commit_op_def run_simps)
    with movesD(1) [OF moves ch [unfolded Inl]] show ?thesis by (simp add: commit_left_def is_diverged_def cl_epoch_def)
  next
    case (Inr out)
    with movesD(2) [OF moves ch [unfolded Inr]] have out: "ml_epoch (en_lib E) (cg_inner cg) = cl_epoch E s + 1"
        "co_epoch out = cl_epoch E s" "co_post_tree_hash out = cg_tree_hash cg" by (simp_all add: cl_epoch_def)
    from run head g ch Inr
    have sub: "submit_commit refused E a cx out [] (removes out) head (s\<lparr>cl_group := cg\<rparr>) = (r, s')"
      by (simp add: own_commit_op_def run_simps)
    show ?thesis
    proof (cases r)
      case (Inl e)
      with sub obtain err n where "e = refused err n" "cl_chain s' = cl_chain s" "cl_group s' = cg"
        by (auto simp: submit_commit_def run_simps split: prod.splits sum.splits)
      with Inl refused [of err n] out(1) show ?thesis
        by (auto simp: commit_left_def cl_epoch_def)
    next
      case (Inr sent)
      with sub out show ?thesis
        by (auto simp: commit_left_def submit_commit_def run_simps cl_epoch_def split: prod.splits sum.splits)
    qed
  qed
qed


definition accepting :: "unit transport" where
  "accepting = \<lparr>tr_now = (\<lambda>_. 0), tr_submit_event = (\<lambda>e t. (Inr \<lparr>ea_event_hash = [], ea_timestamp = 0\<rparr>, t)),
     tr_fetch_welcomes = (\<lambda>_ _ t. (Inl (TransportFailed []), t)), tr_fetch_mls_control = (\<lambda>_ _ t. (Inl (TransportFailed []), t)),
     tr_fetch_key_packages = (\<lambda>_ _ t. (Inr [], t)), tr_fetch_device_certs = (\<lambda>_ t. (Inr [], t))\<rparr>"

definition ec_cx :: commit_context where
  "ec_cx = \<lparr>cx_key = \<lparr>ck_server = [], ck_channel = ss_channel\<rparr>, cx_generation = 0, cx_store_instance_hash = []\<rparr>"

definition ec_started :: "(unit, toy_group) client" where
  "ec_started = (ec_client ())\<lparr>cl_chain := \<lparr>cs_next_seq = 1, cs_last_event_hash = Some [], cs_lamport = 0\<rparr>\<rparr>"

definition ec_rekey :: "(e2ee_error + commit_submitted) \<times> (unit, toy_group) client" where
  "ec_rekey = rekey_channel (toy_env accepting) ec_owner ec_cx ec_started"

lemmas ec_rekey_defs = ec_rekey_def rekey_channel_def run_simps ec_started_def ec_cx_def ec_client_def self_update_def own_commit_def
  finish_own_commit_def finish_own_commit_inner_def staged_commit_summary_def submit_commit_def toy_env_def toy_mls_def accepting_def
  hash32_def toy_hash_def try_then_def advance_def

lemma ec_rekey_sent: "\<exists>sent. fst ec_rekey = Inr sent"
  by (simp add: ec_rekey_defs)


section \<open>The client's judgement and the fold's\<close>



text \<open>A fold whose group has the one confirmed leaf that the client's group has.\<close>

definition ec_group :: mls_group_record where
  "ec_group = new_mls_group\<lparr>mg_epoch := 4, mg_leaves_confirmed := {ec_member}\<rparr>"

definition ec_fold :: log_state where
  "ec_fold = (from_genesis toy_crypto sc_genesis)\<lparr>ls_mls_groups := [ss_channel \<mapsto> ec_group]\<rparr>"

definition ec_tree :: "toy_group channel_group" where
  "ec_tree = \<lparr>cg_inner = (4, [\<lparr>rl_credential = encode_credential_identity (fst ec_member) (snd ec_member), rl_key = [12]\<rparr>]),
     cg_tree_hash = []\<rparr>"

lemma ec_leaves: "\<exists>l. leaves toy_mls ec_tree = Inr [l] \<and> al_member l = ec_member"
  by (simp add: leaves_def ec_tree_def toy_mls_def actual_leaf_of_def declared_member_of_def ec_credential try_then_def or_fail_def)


end
