(* ===== verification/E2eeResolver.thy ===== *)
theory E2eeResolver
  imports E2eeChain LogDevices IngestClaims
begin

text \<open>
  The client's certificates and the fold's devices: over the modelled server the client finds a
  certificate of a device exactly when the fold holds the device live.
\<close>

section \<open>The devices of a history\<close>

text \<open>The last authorization of a device, by anyone and by one identity.\<close>

definition authorizes :: "(event \<Rightarrow> bool) \<Rightarrow> event \<Rightarrow> device_cert option" where
  "authorizes P e = (case ev_payload e of DeviceAuthorized cert \<Rightarrow> if P e then Some cert else None | _ \<Rightarrow> None)"

definition last_cert :: "(event \<Rightarrow> bool) \<Rightarrow> event list \<Rightarrow> (public_key \<times> device_cert) option" where
  "last_cert P es = foldl (\<lambda>found e. case authorizes P e of None \<Rightarrow> found | Some cert \<Rightarrow> Some (ev_author e, cert)) None es"

lemma last_cert_snoc [simp]:
  "last_cert P [] = None"
  "last_cert P (es @ [e]) = (case authorizes P e of None \<Rightarrow> last_cert P es | Some cert \<Rightarrow> Some (ev_author e, cert))"
  by (simp_all add: last_cert_def split: option.split)

definition honest_cert :: "crypto \<Rightarrow> event \<Rightarrow> bool" where
  "honest_cert cr e \<longleftrightarrow> (\<forall>cert. ev_payload e = DeviceAuthorized cert \<longrightarrow>
     cert_verify cr cert = Inr () \<and> dc_identity (cert_core cert) = ev_author e \<and> dc_device_id (cert_core cert) = ev_device e)"

definition device_of :: "public_key \<times> device_cert \<Rightarrow> device_record" where
  "device_of p = \<lparr>dr_identity = fst p, dr_device_pubkey = dc_device_pubkey (cert_core (snd p)),
     dr_expires_at = dc_expires_at (cert_core (snd p))\<rparr>"

definition history_of :: "crypto \<Rightarrow> event list \<Rightarrow> log_state \<Rightarrow> bool" where
  "history_of cr es st \<longleftrightarrow>
     (\<forall>e \<in> set es. honest_cert cr e) \<and>
     (\<forall>d. ls_devices st d = map_option device_of (last_cert (\<lambda>e. ev_device e = d) es)) \<and>
     (\<forall>i d. (\<exists>ds. ls_devices_by_identity st i = Some ds \<and> d \<in> ds) \<longleftrightarrow>
        (\<exists>e \<in> set es. authorizes (\<lambda>e. ev_author e = i \<and> ev_device e = d) e \<noteq> None)) \<and>
     ls_revoked_devices st = {d. \<exists>e \<in> set es. ev_payload e = DeviceRevoked d}"

lemma resolved_cert:
  assumes "resolve_device_pubkey cr st e = Inr k" and "ev_payload e = DeviceAuthorized cert"
  shows "honest_cert cr e \<and> k = dc_device_pubkey (cert_core cert)"
  using assms by (auto simp: resolve_device_pubkey_def honest_cert_def ensure_Inr split: sum.splits)

lemma history_snoc:
  assumes "log_apply cr st e = Inr st'" and hist: "history_of cr es st"
  shows "history_of cr (es @ [e]) st'"
  using assms(1)
proof (cases rule: log_apply_cases)
  case (stale mc)
  with hist show ?thesis by (auto simp: history_of_def honest_cert_def authorizes_def)
next
  case (effect k st1)
  note dev = effect_devices [OF effect(3)]
  show ?thesis
  proof (cases "\<exists>cert. ev_payload e = DeviceAuthorized cert")
    case True
    then obtain cert where cert: "ev_payload e = DeviceAuthorized cert" by blast
    note k = resolved_cert [OF effect(1) cert]
    have "ls_devices st' d = map_option device_of (last_cert (\<lambda>e. ev_device e = d) (es @ [e]))" for d
      using hist k cert effect(4) dev(1) by (simp add: history_of_def authorizes_def device_of_def)
    moreover have "(\<exists>ds. ls_devices_by_identity st' i = Some ds \<and> d \<in> ds) \<longleftrightarrow>
        (\<exists>e \<in> set (es @ [e]). authorizes (\<lambda>e. ev_author e = i \<and> ev_device e = d) e \<noteq> None)" for i d
    proof -
      have "(\<exists>ds. ls_devices_by_identity st' i = Some ds \<and> d \<in> ds) \<longleftrightarrow>
          (\<exists>ds. ls_devices_by_identity st i = Some ds \<and> d \<in> ds) \<or> (i = ev_author e \<and> d = ev_device e)"
        using cert effect(4) dev(2) by (auto split: option.splits)
      with hist show ?thesis by (auto simp: history_of_def authorizes_def cert)
    qed
    moreover have "ls_revoked_devices st' = {d. \<exists>e \<in> set (es @ [e]). ev_payload e = DeviceRevoked d}"
      using hist cert effect(4) dev(3) by (auto simp: history_of_def)
    moreover have "\<forall>e \<in> set (es @ [e]). honest_cert cr e" using hist k by (auto simp: history_of_def)
    ultimately show ?thesis unfolding history_of_def by blast
  next
    case False
    then have auth: "authorizes P e = None" "honest_cert cr e" for P
      by (auto simp: authorizes_def honest_cert_def split: event_payload.split)
    from False have same: "ls_devices st' = ls_devices st" "ls_devices_by_identity st' = ls_devices_by_identity st"
      using effect(4) dev(1,2) by (auto split: event_payload.splits)
    have "ls_revoked_devices st' = {d. \<exists>e \<in> set (es @ [e]). ev_payload e = DeviceRevoked d}"
      using hist effect(4) dev(3) by (cases "ev_payload e") (auto simp: history_of_def)
    with hist auth same show ?thesis by (simp add: history_of_def)
  qed
qed

lemma replay_history: "replay cr g es = Inr st \<Longrightarrow> history_of cr es st"
proof (induction es arbitrary: st rule: rev_induct)
  case Nil
  then show ?case by (auto simp: replay_def from_genesis_def history_of_def)
next
  case (snoc e es)
  then show ?case by (auto simp: replay_snoc intro: history_snoc)
qed

lemma last_cert_honest:
  "last_cert P es = Some (i, cert) \<Longrightarrow> (\<And>e. e \<in> set es \<Longrightarrow> honest_cert cr e) \<Longrightarrow> (\<And>e. P e \<Longrightarrow> ev_device e = d) \<Longrightarrow>
     cert_verify cr cert = Inr () \<and> dc_identity (cert_core cert) = i \<and> dc_device_id (cert_core cert) = d"
proof (induction es rule: rev_induct)
  case (snoc e es)
  then show ?case
    by (cases "authorizes P e") (auto simp: authorizes_def honest_cert_def split: event_payload.splits if_splits)
qed simp

section \<open>What the client reads\<close>

definition lifecycle_rows :: "public_key \<Rightarrow> server_db \<Rightarrow> (nat \<times> event) list" where
  "lifecycle_rows i db =
     filter (\<lambda>(_, e). payload_type (ev_payload e) = ''DeviceAuthorized'' \<and> ev_author e = i) (db_events db) @
     filter (\<lambda>(_, e). case ev_payload e of DeviceRevoked d \<Rightarrow> d \<in> own_devices i db | _ \<Rightarrow> False) (db_events db)"

definition authorized_by :: "public_key \<Rightarrow> event \<Rightarrow> bool" where
  "authorized_by i e \<longleftrightarrow> (\<exists>cert. ev_payload e = DeviceAuthorized cert) \<and> ev_author e = i"

lemma authorized_type: "payload_type (ev_payload e) = ''DeviceAuthorized'' \<longleftrightarrow> (\<exists>cert. ev_payload e = DeviceAuthorized cert)"
  by (cases "ev_payload e") (simp_all add: payload_type_def)

lemma own_devices_iff:
  "d \<in> own_devices i db \<longleftrightarrow> (\<exists>e \<in> set (load_events_in_order db). authorized_by i e \<and> ev_device e = d)"
  by (auto simp: own_devices_def stored_of_type_def authorized_by_def authorized_type)

text \<open>The stream of a complete answer: the authorizations of the identity as the log has them, and its revocations.\<close>

lemma stream_of:
  assumes ordered: "events_ordered db" and complete: "length (lifecycle_rows i db) \<le> MAX_FETCH_EVENTS"
  shows "filter (authorized_by i) (fetch_device_certs i db) = filter (authorized_by i) (load_events_in_order db)"
    and "set (fetch_device_certs i db) = {e \<in> set (load_events_in_order db).
      authorized_by i e \<or> (\<exists>d \<in> own_devices i db. ev_payload e = DeviceRevoked d)}"
proof -
  let ?auth = "\<lambda>p :: nat \<times> event. authorized_by i (snd p)"
  let ?rev = "\<lambda>(_, e). case ev_payload e of DeviceRevoked d \<Rightarrow> d \<in> own_devices i db | _ \<Rightarrow> False"
  let ?rows = "filter ?auth (db_events db) @ filter ?rev (db_events db)"
  have rows: "lifecycle_rows i db = ?rows"
    by (simp add: lifecycle_rows_def authorized_by_def authorized_type case_prod_unfold)
  have fetch: "fetch_device_certs i db = map snd (sort_key fst ?rows)"
    using complete unfolding rows fetch_device_certs_def Let_def lifecycle_rows_def [symmetric] by (simp add: rows)
  have none: "filter ?auth (filter ?rev (db_events db)) = []"
    by (auto simp: filter_empty_conv authorized_by_def)
  have sorted: "sorted (map fst (filter ?auth (db_events db)))"
    using ordered by (auto simp: events_ordered_def strict_sorted_imp_sorted sorted_filter)
  have "filter (authorized_by i) (map snd (sort_key fst ?rows)) = map snd (sort_key fst (filter ?auth ?rows))"
    by (simp only: filter_map comp_def filter_sort)
  also have "filter ?auth ?rows = filter ?auth (db_events db)" 
    by (simp only: filter_append none append_Nil2) (simp only: filter_filter conj_absorb)
  also have "map snd (sort_key fst (filter ?auth (db_events db))) = filter (authorized_by i) (load_events_in_order db)"
    using sort_key_id_if_sorted [OF sorted] by (simp add: load_events_in_order_def filter_map comp_def)
  finally show "filter (authorized_by i) (fetch_device_certs i db) = filter (authorized_by i) (load_events_in_order db)"
    unfolding fetch .
  show "set (fetch_device_certs i db) = {e \<in> set (load_events_in_order db).
      authorized_by i e \<or> (\<exists>d \<in> own_devices i db. ev_payload e = DeviceRevoked d)}"
  proof -
    have rev: "(case ev_payload e of DeviceRevoked d \<Rightarrow> d \<in> own_devices i db | _ \<Rightarrow> False) \<longleftrightarrow>
        (\<exists>d \<in> own_devices i db. ev_payload e = DeviceRevoked d)" for e
      by (cases "ev_payload e") auto
    have "set (fetch_device_certs i db) = snd ` {p \<in> set (db_events db).
        authorized_by i (snd p) \<or> (\<exists>d \<in> own_devices i db. ev_payload (snd p) = DeviceRevoked d)}"
      unfolding fetch by (auto simp: rev case_prod_unfold)
    then show ?thesis by (auto simp: load_events_in_order_def)
  qed
qed

lemma last_cert_filter:
  "(\<And>e. authorizes P e \<noteq> None \<Longrightarrow> Q e) \<Longrightarrow> last_cert P (filter Q es) = last_cert P es"
  by (induction es rule: rev_induct) (auto split: option.split)

lemma revoked_in_iff: "d \<in> revoked_in es \<longleftrightarrow> (\<exists>e \<in> set es. ev_payload e = DeviceRevoked d)"
proof (induction es)
  case (Cons e es)
  then show ?case by (cases "ev_payload e") (auto simp: revoked_in_def)
qed (simp add: revoked_in_def)

lemma newest_cert_eq:
  assumes "\<forall>e \<in> set events. honest_cert cr e"
  shows "newest_cert cr i d events =
    (if d \<in> revoked_in events then None else map_option snd (last_cert (\<lambda>e. ev_author e = i \<and> ev_device e = d) events))"
proof -
  have "foldl (\<lambda>found cert. if dc_device_id (cert_core cert) = d then Some cert else found) None
      (List.map_filter (\<lambda>e. case ev_payload e of
         DeviceAuthorized cert \<Rightarrow>
           if dc_identity (cert_core cert) = i \<and> dc_device_id (cert_core cert) \<notin> R \<and> cert_verify cr cert = Inr ()
           then Some cert else None
       | _ \<Rightarrow> None) es) =
    (if d \<in> R then None else map_option snd (last_cert (\<lambda>e. ev_author e = i \<and> ev_device e = d) es))"
    if "\<forall>e \<in> set es. honest_cert cr e" for R es
    using that
  proof (induction es rule: rev_induct)
    case (snoc e es)
    then show ?case
      by (cases "ev_payload e") (auto simp: map_filter_def authorizes_def honest_cert_def)
  qed (simp add: map_filter_def)
  from this [OF assms, of "revoked_in events"] show ?thesis by (simp add: newest_cert_def standing_certs_def)
qed

section \<open>The client and the fold agree\<close>

lemma last_cert_of:
  assumes "devices_not_rebound es" and "e \<in> set es" and "authorizes (\<lambda>e. ev_author e = i \<and> ev_device e = d) e \<noteq> None"
  shows "\<exists>cert. last_cert (\<lambda>e. ev_device e = d) es = Some (i, cert) \<and>
    last_cert (\<lambda>e. ev_author e = i \<and> ev_device e = d) es = Some (i, cert)"
proof -
  from assms(2,3) have e: "ev_author e = i" "ev_device e = d" "\<exists>c. ev_payload e = DeviceAuthorized c"
    by (auto simp: authorizes_def split: event_payload.splits if_splits)
  have same: "authorizes (\<lambda>e. ev_device e = d) x = authorizes (\<lambda>e. ev_author e = i \<and> ev_device e = d) x" if "x \<in> set es" for x
  proof (cases "\<exists>c. ev_payload x = DeviceAuthorized c")
    case True
    with assms(1,2) that e have "ev_device x = d \<longrightarrow> ev_author x = i" unfolding devices_not_rebound_def by metis
    with True show ?thesis by (auto simp: authorizes_def)
  next
    case False
    then show ?thesis by (simp add: authorizes_def split: event_payload.split)
  qed
  have agree: "last_cert (\<lambda>e. ev_device e = d) xs = last_cert (\<lambda>e. ev_author e = i \<and> ev_device e = d) xs" if "set xs \<subseteq> set es" for xs
    using that by (induction xs rule: rev_induct) (simp_all add: same split: option.split)
  have "\<exists>cert. last_cert (\<lambda>e. ev_author e = i \<and> ev_device e = d) xs = Some (i, cert)" if "e \<in> set xs" for xs
    using that
  proof (induction xs rule: rev_induct)
    case (snoc x xs)
    show ?case
    proof (cases "authorizes (\<lambda>e. ev_author e = i \<and> ev_device e = d) x")
      case None
      with assms(3) snoc.prems have "e \<in> set xs" by auto
      with snoc.IH None show ?thesis by simp
    next
      case (Some cert)
      then have "ev_author x = i" by (simp add: authorizes_def split: event_payload.splits if_splits)
      with Some show ?thesis by simp
    qed
  qed simp
  with agree [of es] assms(2) show ?thesis by simp
qed

lemma authorizes_by: "authorizes (\<lambda>e. ev_author e = i \<and> ev_device e = d) e \<noteq> None \<longleftrightarrow> authorized_by i e \<and> ev_device e = d"
  by (auto simp: authorizes_def authorized_by_def split: event_payload.split)

text \<open>What the client finds in a complete answer.\<close>

lemma newest_of_stream:
  assumes ordered: "events_ordered db" and complete: "length (lifecycle_rows i db) \<le> MAX_FETCH_EVENTS"
    and replay: "replay cr g (load_events_in_order db) = Inr st" and once: "devices_not_rebound (load_events_in_order db)"
  shows "newest_cert cr i d (fetch_device_certs i db) =
    (if \<exists>ds. ls_devices_by_identity st i = Some ds \<and> d \<in> ds \<and> d \<notin> ls_revoked_devices st
     then map_option snd (last_cert (\<lambda>e. ev_device e = d) (load_events_in_order db)) else None)"
    and "d \<in> own_devices i db \<Longrightarrow> \<exists>cert. last_cert (\<lambda>e. ev_device e = d) (load_events_in_order db) = Some (i, cert)"
proof -
  let ?es = "load_events_in_order db" and ?F = "fetch_device_certs i db" and ?P = "\<lambda>e. ev_author e = i \<and> ev_device e = d"
  note stream = stream_of [OF ordered complete]
  note hist = replay_history [OF replay, unfolded history_of_def]
  have honest: "\<forall>e \<in> set ?F. honest_cert cr e" using hist stream(2) by auto
  have "last_cert ?P ?F = last_cert ?P (filter (authorized_by i) ?F)"
    by (rule last_cert_filter [symmetric]) (use authorizes_by [of i d] in auto)
  also have "\<dots> = last_cert ?P ?es"
    unfolding stream(1) by (rule last_cert_filter) (use authorizes_by [of i d] in auto)
  finally have certs: "last_cert ?P ?F = last_cert ?P ?es" .
  have own: "d \<in> own_devices i db \<longleftrightarrow> (\<exists>ds. ls_devices_by_identity st i = Some ds \<and> d \<in> ds)"
    unfolding own_devices_iff authorizes_by [symmetric] using hist by blast
  have revoked: "d \<in> revoked_in ?F \<longleftrightarrow> d \<in> own_devices i db \<and> d \<in> ls_revoked_devices st"
    using hist unfolding revoked_in_iff stream(2) by (auto simp: authorized_by_def)
  have found: "\<exists>cert. last_cert (\<lambda>e. ev_device e = d) ?es = Some (i, cert) \<and> last_cert ?P ?es = Some (i, cert)"
    if "d \<in> own_devices i db"
    using that last_cert_of [OF once] unfolding own_devices_iff authorizes_by [symmetric] by blast
  have "last_cert ?P ?es = None" if "d \<notin> own_devices i db"
  proof -
    have "last_cert ?P xs = None" if "set xs \<subseteq> set ?es" for xs
      using that
    proof (induction xs rule: rev_induct)
      case (snoc x xs)
      with \<open>d \<notin> own_devices i db\<close> have "authorizes ?P x = None" unfolding own_devices_iff authorizes_by [symmetric] by auto
      with snoc show ?case by simp
    qed simp
    then show ?thesis by simp
  qed
  with found revoked own show "newest_cert cr i d ?F =
    (if \<exists>ds. ls_devices_by_identity st i = Some ds \<and> d \<in> ds \<and> d \<notin> ls_revoked_devices st
     then map_option snd (last_cert (\<lambda>e. ev_device e = d) ?es) else None)"
    unfolding newest_cert_eq [OF honest] certs by (cases "d \<in> own_devices i db") auto
  show "\<exists>cert. last_cert (\<lambda>e. ev_device e = d) ?es = Some (i, cert)" if "d \<in> own_devices i db"
    using found [OF that] by blast
qed

lemma ask_certs:
  assumes "en_net E = server_transport cr report member" and "content_block_reason (ms_server (cl_net s)) member = None"
    and "MIN_CLIENT_VERSION_FOR_E2EE \<le> connection_protocol_version (ms_access (cl_net s)) member"
  shows "ask (tr_fetch_device_certs (en_net E) i) s = (Inr (map (ser_event cr) (fetch_device_certs i (mesh_db s))), s)"
    and "tr_now (en_net E) (cl_net s) = ms_client_now (cl_net s)"
  using assms by (simp_all add: ask_def server_transport_def gated_def ensure_def mesh_db_def)

text \<open>C5: Against a reachable server, the client finds a certificate of a member's device exactly when the fold holds
  that device live at the client's time: authorized by that identity, not revoked and not expired.  The certificate
  verifies, names the identity and the device, and carries the key and expiry the fold has for it.  This is as far as
  one answer holds the identity's whole lifecycle and no device is registered under two identities.\<close>

theorem resolver_agrees_with_the_fold:
  assumes net: "en_net E = server_transport (en_crypto E) report member"
    and allowed: "content_block_reason (ms_server (cl_net s)) member = None"
      "MIN_CLIENT_VERSION_FOR_E2EE \<le> connection_protocol_version (ms_access (cl_net s)) member"
    and decodes: "\<And>e. e \<in> set (load_events_in_order (mesh_db s)) \<Longrightarrow> en_event E (ser_event (en_crypto E) e) = Some e"
    and reach: "reachable (en_crypto E) g (ms_server (cl_net s))" and st: "sv_log (ms_server (cl_net s)) = Some st"
    and once: "devices_not_rebound (load_events_in_order (mesh_db s))"
    and complete: "length (lifecycle_rows i (mesh_db s)) \<le> MAX_FETCH_EVENTS"
  shows "\<exists>found. resolve_device_cert E (i, d) s = (Inr found, s) \<and>
    (found \<noteq> None \<longleftrightarrow> d \<in> set (live_devices_at st i (ms_client_now (cl_net s)))) \<and>
    (\<forall>cert. found = Some cert \<longrightarrow>
       cert_verify (en_crypto E) cert = Inr () \<and> dc_identity (cert_core cert) = i \<and> dc_device_id (cert_core cert) = d \<and>
       ls_devices st d = Some \<lparr>dr_identity = i, dr_device_pubkey = dc_device_pubkey (cert_core cert),
                               dr_expires_at = dc_expires_at (cert_core cert)\<rparr>)"
proof -
  let ?cr = "en_crypto E" and ?db = "mesh_db s" and ?now = "ms_client_now (cl_net s)"
  let ?F = "fetch_device_certs i ?db" and ?es = "load_events_in_order ?db"
  have ordered: "events_ordered ?db" using reachable_ok(2) [OF reach] by (simp add: mesh_db_def)
  have replay: "replay ?cr g ?es = Inr st" using reachable_log(2) [OF reach] st by (simp add: mesh_db_def)
  note hist = replay_history [OF replay, unfolded history_of_def]
  note newest = newest_of_stream [OF ordered complete replay once]
  define found where "found = (case newest_cert ?cr i d ?F of None \<Rightarrow> None | Some cert \<Rightarrow> if cert_unexpired ?now cert then Some cert else None)"
  have "decode_all E (MlsFailed EventUndecodable) (map (ser_event ?cr) ?F) = Inr ?F"
    using decodes stream_of(2) [OF ordered complete] by (intro decode_all_ser) auto
  then have run: "resolve_device_cert E (i, d) s = (Inr found, s)"
    using ask_certs [OF net allowed]
    by (simp add: resolve_device_cert_def fetch_lifecycle_def and_then_def give_def found_def split: option.split)
  show ?thesis
  proof (cases "\<exists>ds. ls_devices_by_identity st i = Some ds \<and> d \<in> ds \<and> d \<notin> ls_revoked_devices st")
    case False
    with newest(1) [of d] have "found = None" by (simp add: found_def)
    with False run set_live_devices_at [of st i ?now] log_wf_replay [OF replay] show ?thesis by (auto simp: log_wf_def)
  next
    case True
    with hist have "d \<in> own_devices i ?db" unfolding own_devices_iff authorizes_by [symmetric] by blast
    with newest(2) obtain cert where cert: "last_cert (\<lambda>e. ev_device e = d) ?es = Some (i, cert)" by blast
    with newest(1) [of d] True have found: "found = (if cert_unexpired ?now cert then Some cert else None)" by (simp add: found_def)
    have dev: "ls_devices st d = Some \<lparr>dr_identity = i, dr_device_pubkey = dc_device_pubkey (cert_core cert),
        dr_expires_at = dc_expires_at (cert_core cert)\<rparr>" using hist cert by (simp add: device_of_def)
    have cert_ok: "cert_verify ?cr cert = Inr () \<and> dc_identity (cert_core cert) = i \<and> dc_device_id (cert_core cert) = d"
      using last_cert_honest [OF cert] hist by auto
    have "d \<in> set (live_devices_at st i ?now) \<longleftrightarrow> cert_unexpired ?now cert"
      using True set_live_devices_at [of st i ?now] log_wf_replay [OF replay] dev
      by (auto simp: log_wf_def device_unexpired_def cert_unexpired_def)
    with run found dev cert_ok show ?thesis by auto
  qed
qed

lemma ec_not_rebound: "devices_not_rebound (map snd ss_before)"
proof -
  have "e = ss_o0" if "e \<in> set (map snd ss_before)" "ev_payload e = DeviceAuthorized c" for e c
    using that by (auto simp: ss_before_def ss_o1_def ss_o2_def ss_o3_def ss_o4_def sc_next_def event_next_core)
  then show ?thesis unfolding devices_not_rebound_def by metis
qed

theorem resolver_agrees_with_the_fold_witness:
  "\<exists>sv st found. reachable toy_crypto sc_genesis sv \<and> sv_log sv = Some st \<and>
     resolve_device_cert ec_env (PublicKey sc_owner, device_id_of toy_crypto (PublicKey sc_owner_dev)) (ec_client (ec_mesh sv)) =
       (Inr found, ec_client (ec_mesh sv)) \<and>
     (found \<noteq> None \<longleftrightarrow> device_id_of toy_crypto (PublicKey sc_owner_dev) \<in> set (live_devices_at st (PublicKey sc_owner) 20))"
proof -
  from servedD [OF ec_serves] obtain sv where sv: "reachable toy_crypto sc_genesis sv"
    "serves_control (PublicKey sc_owner) ss_channel (ec_mesh sv)" "map snd (db_events (sv_db sv)) = map snd ss_before" by blast
  from reachable_log(2) [OF sv(1)] obtain st where st: "sv_log sv = Some st" by blast
  let ?s = "ec_client (ec_mesh sv)"
  have parts: "mesh_db ?s = sv_db sv" "ms_server (cl_net ?s) = sv" "ms_client_now (cl_net ?s) = 20" "cl_net ?s = ec_mesh sv"
    "ms_server (ec_mesh sv) = sv" "ms_client_now (ec_mesh sv) = 20"
    by (simp_all add: mesh_db_def ec_client_def ec_mesh_def)
  have events: "load_events_in_order (mesh_db ?s) = map snd ss_before" by (simp add: load_events_in_order_def parts sv(3))
  have "length (db_events (sv_db sv)) = 5" using arg_cong [OF sv(3), of length] by (simp add: ss_before_def)
  then have few: "length (lifecycle_rows (PublicKey sc_owner) (mesh_db ?s)) \<le> MAX_FETCH_EVENTS"
    unfolding lifecycle_rows_def length_append parts MAX_FETCH_EVENTS_def
    by (intro order_trans [OF add_mono [OF length_filter_le length_filter_le]]) simp
  have decodes: "en_event ec_env (ser_event (en_crypto ec_env) e) = Some e" if "e \<in> set (load_events_in_order (mesh_db ?s))" for e
    using that toy_decodes [of e] unfolding events ec_env_def by simp
  have env: "en_net ec_env = server_transport (en_crypto ec_env) (\<lambda>_. []) (PublicKey sc_owner)" "en_crypto ec_env = toy_crypto"
    by (simp_all add: ec_env_def)
  have allowed: "content_block_reason (ms_server (cl_net ?s)) (PublicKey sc_owner) = None"
    "MIN_CLIENT_VERSION_FOR_E2EE \<le> connection_protocol_version (ms_access (cl_net ?s)) (PublicKey sc_owner)"
    using sv(2) by (simp_all add: serves_control_def parts)
  have reach: "reachable (en_crypto ec_env) sc_genesis (ms_server (cl_net ?s))" "sv_log (ms_server (cl_net ?s)) = Some st"
    "devices_not_rebound (load_events_in_order (mesh_db ?s))"
    using sv(1) st ec_not_rebound events by (simp_all add: parts env(2))
  from resolver_agrees_with_the_fold [OF env(1) allowed decodes reach few] sv(1) st show ?thesis unfolding parts by blast
qed

section \<open>A device revoked since\<close>

text \<open>
  The resolver judges the devices of an old commit by their standing now: a commit that honestly added
  a device that has been revoked, or has expired, since then fails for a member that catches up late.
\<close>

lemma revoked_since_poisons:
  assumes "dm_epoch declared = cl_epoch E s"
    and "process_commit_checked (en_lib E) (cl_group s) bs (map add_leaf (dm_adds declared)) (map rem_leaf (dm_removes declared))
      (dm_post_tree_hash declared) = (Inr processed, cg)"
    and "leaf \<in> set (ss_adds processed)" and "certs (al_member leaf) = None"
    and "ev_payload e = MlsCommit mc" "declared_of mc = declared" "mc_mls_message mc = bs"
  shows "\<exists>m s'. apply_commits E certs (e # events) s = (Inl (ResyncPoisoned m), s')"
proof -
  have "\<not> leaf_binds (en_crypto E) certs leaf" using assms(4) by (simp add: leaf_binds_def)
  with assms(3) obtain bad where "find (\<lambda>leaf. \<not> leaf_binds (en_crypto E) certs leaf) (ss_adds processed) = Some bad"
    by (cases "find (\<lambda>leaf. \<not> leaf_binds (en_crypto E) certs leaf) (ss_adds processed)") (auto simp: find_None_iff)
  with assms show ?thesis
    by (simp add: process_incoming_commit_def and_then_def on_group_def give_def)
qed

end
