(* ===== verification/E2eeTexts.thy ===== *)
theory E2eeTexts
  imports E2eeScenario
begin

text \<open>
  The client reads the server's refusals: it looks for a part of the text, and finds it exactly in the
  text of the refusal it means.
\<close>

section \<open>Looking for a part of a text\<close>

fun starts_with :: "string \<Rightarrow> string \<Rightarrow> bool" where
  "starts_with [] xs = True"
| "starts_with (y # ys) [] = False"
| "starts_with (y # ys) (x # xs) = (if y = x then starts_with ys xs else False)"

lemma starts_with_take: "take (length part) s = part \<longleftrightarrow> starts_with part s"
  by (induction part s rule: starts_with.induct) auto

lemma contains_rec:
  "contains [] part = starts_with part []"
  "contains (x # xs) part = (if starts_with part (x # xs) then True else contains xs part)"
proof -
  show "contains [] part = starts_with part []" by (cases part) (simp_all add: contains_def)
  have "[0..<Suc (length (x # xs))] = 0 # map Suc [0..<Suc (length xs)]" by (simp only: map_Suc_upt length_Cons) (simp add: upt_conv_Cons del: upt_Suc)
  then show "contains (x # xs) part = (if starts_with part (x # xs) then True else contains xs part)"
    unfolding contains_def by (simp add: starts_with_take list_ex_iff del: upt_Suc set_upt)
qed

definition signals :: "string \<Rightarrow> bool \<times> bool \<times> bool \<times> bool" where
  "signals reason =
     (contains reason ''commit-rate rule:'', contains reason ''freshness ceiling reached'',
      contains reason ''channel is sealed until a rekey discharges its pending removals'',
      contains reason ''identity already has the maximum number of live devices'')"

text \<open>The texts are literals: the simplifier need not look into them again at every character.\<close>

lemma text_congs: "contains reason part = contains reason part" "starts_with part reason = starts_with part reason"
  by (rule refl)+

lemmas signal_simps = signals_def contains_rec

lemma signals_envelope: "signals (''event rejected: '' @ envelope_message e) = (False, False, False, False)"
  by (cases e) (simp_all only: envelope_message_def envelope_error.case append.simps, simp_all add: signal_simps cong: text_congs)

lemma signals_member:
  assumes "\<And>c. e = MissingCapability c \<Longrightarrow> c \<in> {''invite'', ''kick'', ''ban''}"
  shows "signals (''event rejected: '' @ member_message e) = (False, False, False, e = TooManyLiveDevices)"
proof (cases e)
  case (MissingCapability c)
  with assms have "c = ''invite'' \<or> c = ''kick'' \<or> c = ''ban''" by simp
  then show ?thesis unfolding MissingCapability member_message_def member_error.case
    by (elim disjE) (simp_all only: append.simps, simp_all add: signal_simps cong: text_congs)
qed (simp_all only: member_message_def member_error.case append.simps, simp_all add: signal_simps cong: text_congs)

lemma signals_channel: "signals (''event rejected: '' @ channel_message e) = (False, False, False, False)"
  by (cases e) (simp_all only: channel_message_def channel_error.case append.simps, simp_all add: signal_simps cong: text_congs)

lemma signals_sealed:
  "signals (''event rejected: '' @ sealed_message e) = (False, e = FreshnessCeilingReached, e = SealedUntilRekey, False)"
  by (cases e) (simp_all only: sealed_message_def sealed_error.case append.simps, simp_all add: signal_simps cong: text_congs)

lemma decimal_1000: "decimal RESET_MIN_CHANNEL_EVENTS = ''1000''"
  by (simp add: decimal.simps digit_def RESET_MIN_CHANNEL_EVENTS_def)

lemma decimal_digit: "gap \<le> 4 \<Longrightarrow> decimal gap \<in> {''0'', ''1'', ''2'', ''3'', ''4''}"
proof -
  assume "gap \<le> 4"
  then have "gap = 0 \<or> gap = 1 \<or> gap = 2 \<or> gap = 3 \<or> gap = 4" by auto
  then show ?thesis by (elim disjE) (simp_all add: decimal.simps digit_def)
qed

lemma signals_reset: "signals (''event rejected: '' @ reset_message e) = (False, False, False, False)"
  by (cases e) (simp_all only: reset_message_def reset_error.case append.simps decimal_1000, simp_all add: signal_simps cong: text_congs)

lemma signals_commit:
  assumes "gap \<le> 4"
  shows "signals (''event rejected: '' @ commit_message gap e) = (e = CommitRateRule, False, False, False)"
proof (cases e)
  case CommitRateRule
  from decimal_digit [OF assms] have "decimal gap = ''0'' \<or> decimal gap = ''1'' \<or> decimal gap = ''2'' \<or> decimal gap = ''3'' \<or>
    decimal gap = ''4''" by simp
  then show ?thesis unfolding CommitRateRule commit_message_def commit_error.case
    by (elim disjE) (simp_all only: append.simps, simp_all add: signal_simps cong: text_congs)
qed (simp_all only: commit_message_def commit_error.case append.simps, simp_all add: signal_simps cong: text_congs)

lemma signals_mls: "signals (''event rejected: '' @ mls_message e payload) = (False, False, False, False)"
proof -
  let ?said = "\<lambda>reason. signals (''event rejected: '' @ reason) = (False, False, False, False)"
  have what: "?said (what @ '' generation does not match the group'')"
    if "what \<in> {''commit'', ''welcome'', ''leaf confirmation'', ''sealed content''}" for what
    using that by (elim insertE emptyE) (simp_all only: append.simps, simp_all add: signal_simps cong: text_congs)
  have name: "?said (name @ '' cites a channel with no E2ee group'')"
    if "name \<in> {''MlsCommit'', ''MlsWelcome'', ''MlsLeafConfirmed'', ''MlsGroupReset''}" for name
    using that by (elim insertE emptyE) (simp_all only: append.simps, simp_all add: signal_simps cong: text_congs)
  have full: "?said ''only full members may publish key packages''" "?said ''only full members may author MLS commits''"
    "?said ''only full members may author MLS welcomes''" "?said ''only full members may confirm an MLS leaf''"
    "?said ''only full members may send sealed content''" "?said ''commit author does not hold a confirmed leaf''"
    "?said ''welcome author does not hold a confirmed leaf''" "?said ''sealed content author does not hold a confirmed leaf''"
    by (simp_all only: append.simps) (simp_all add: signal_simps cong: text_congs)
  show ?thesis
  proof (cases e)
    case NoGroup
    then show ?thesis unfolding mls_message_def Let_def by (simp only: mls_error.case, intro name) (cases payload; simp)
  next
    case GenerationMismatch
    then show ?thesis unfolding mls_message_def Let_def by (simp only: mls_error.case, intro what) (cases payload; simp)
  next
    case NotFullMember
    with full show ?thesis unfolding mls_message_def Let_def by (cases payload) simp_all
  next
    case NoConfirmedLeaf
    with full show ?thesis unfolding mls_message_def Let_def by (cases payload) simp_all
  qed (simp_all only: mls_message_def Let_def mls_error.case append.simps, simp_all add: signal_simps cong: text_congs)
qed

section \<open>The refusals of the fold\<close>

text \<open>What all errors of a fallible expression satisfy.\<close>

definition errs :: "('e \<Rightarrow> bool) \<Rightarrow> 'e + 'a \<Rightarrow> bool" where
  "errs P r \<longleftrightarrow> (\<forall>e. r = Inl e \<longrightarrow> P e)"

lemma errs_intros:
  "errs P r \<Longrightarrow> (\<And>x. errs P (k x)) \<Longrightarrow> errs P (try_then r k)"
  "P err \<Longrightarrow> errs P k' \<Longrightarrow> errs P (ensure b err k')"
  "P err \<Longrightarrow> (\<And>x. errs P (k x)) \<Longrightarrow> errs P (or_fail opt err k)"
  "errs P (Inr x)"
  "P err \<Longrightarrow> errs P (Inl err)"
  by (auto simp: errs_def try_then_def ensure_def or_fail_def split: sum.splits option.splits if_splits)

text \<open>The capabilities that the fold asks for.\<close>

definition named :: "log_error \<Rightarrow> bool" where
  "named err \<longleftrightarrow> (\<forall>c. err = Member (MissingCapability c) \<longrightarrow> c \<in> {''invite'', ''kick'', ''ban''})"

abbreviation names_capability :: "log_error + 'a \<Rightarrow> bool" where
  "names_capability \<equiv> errs named"

lemma names_check_each: "(\<And>x. names_capability (f x)) \<Longrightarrow> names_capability (check_each f xs)"
  by (induction xs) (auto intro!: errs_intros)

lemma names_welcomes: "names_capability (collect_reset_welcomes grp gen seen welcomed rs)"
  by (induction grp gen seen welcomed rs rule: collect_reset_welcomes.induct) (auto intro!: errs_intros simp: named_def)

lemma names_sealed: "names_capability (check_sealed_send st e c gen ep)"
  by (auto simp: check_sealed_send_def Let_def named_def intro!: errs_intros split: option.split)

lemma names_declared:
  "names_capability (check_declared_add st g e a)" "names_capability (check_declared_remove st g e r)"
  by (auto simp: check_declared_add_def check_declared_remove_def Let_def named_def intro!: errs_intros)

lemma names_checks: "names_capability (check_payload_authz st e)"
  unfolding check_payload_authz_def
  by (cases "ev_payload e"; simp only: event_payload.case
      check_device_authorized_def check_invite_created_def check_member_joined_def check_member_approved_def check_message_posted_def
      check_member_removed_def check_member_banned_def check_member_unbanned_def check_permission_granted_def
      check_attachment_redacted_def check_channel_created_def check_message_deleted_def check_device_revoked_def
      check_key_package_published_def check_mls_commit_def check_mls_welcome_def check_leaf_confirmed_def check_message_edited_def
      check_group_reset_def check_commit_author_def check_instance_pin_def Let_def)
    (auto intro!: errs_intros names_check_each names_welcomes names_sealed names_declared simp: named_def split: option.split delete_reason.split)

lemma names_apply: "names_capability (log_apply cr st e)"
proof -
  have res: "names_capability (resolve_device_pubkey cr st e)"
    unfolding resolve_device_pubkey_def by (cases "ev_payload e") (auto intro!: errs_intros simp: named_def split: sum.split)
  have exp: "names_capability (check_cert_expiry st e)" and chain: "names_capability (check_chain st e)"
    by (auto simp: check_cert_expiry_def check_chain_def named_def intro!: errs_intros split: option.split)
  have eff: "names_capability (apply_payload_effect cr e k st)" for k
    unfolding apply_payload_effect_def
    by (cases "ev_payload e") (auto simp: effect_mls_commit_def effect_mls_welcome_def effect_leaf_confirmed_def effect_group_reset_def expect_group_def named_def intro!: errs_intros split: option.split)
  show ?thesis unfolding log_apply_def
    by (auto intro!: errs_intros res exp chain eff names_checks simp: named_def)
qed

lemma commit_gap_bound: "commit_gap sv e \<le> 4"
  by (auto simp: commit_gap_def commit_rate_gap_def COMMIT_RATE_MIN_EPOCH_GAP_def split: event_payload.split option.split)

lemma fold_signals:
  assumes "named err" and "gap \<le> 4" and "err \<noteq> GroupMissingPanic"
  shows "signals (''event rejected: '' @ fold_message gap payload err) =
    (err = log_error.Commit CommitRateRule, err = Sealed FreshnessCeilingReached, err = Sealed SealedUntilRekey,
     err = Member TooManyLiveDevices)"
proof (cases err)
  case (Member e)
  with assms(1) have "c \<in> {''invite'', ''kick'', ''ban''}" if "e = MissingCapability c" for c using that by (simp add: named_def)
  with signals_member [of e] show ?thesis unfolding Member fold_message_def log_error.case by simp
next
  case (Commit e)
  with signals_commit [OF assms(2), of e] show ?thesis unfolding Commit fold_message_def log_error.case by simp
qed (use assms(3) in \<open>simp_all only: fold_message_def log_error.case signals_envelope signals_channel signals_mls signals_sealed
   signals_reset log_error.distinct log_error.inject simp_thms\<close>)

lemma refusal_signals:
  assumes "err \<noteq> GroupMissingPanic"
  shows "refusal report gap payload (Rejected err) = ServerRejected (''event rejected: '' @ fold_message gap payload err)"
  using assms by (cases err) (simp_all add: refusal_def)

text \<open>Only the fold's refusals are reported as such.\<close>

abbreviation own_error :: "ingest_error + 'a \<Rightarrow> bool" where
  "own_error \<equiv> errs (\<lambda>e. \<forall>x. e \<noteq> Rejected x)"

lemma own_try_write: "(\<And>x. own_error (k x)) \<Longrightarrow> own_error (try_write r k)"
  by (cases r) (auto simp: errs_def)

lemma own_caps: "own_error (check_ingest_caps_at e now)"
  unfolding check_ingest_caps_at_def cap_def by (cases "ev_payload e") (auto intro!: errs_intros)

lemma own_transaction: "own_error (ingest_transaction cr owner e db)"
proof -
  have "own_error (materialize_channel_created e db)" for db
    unfolding materialize_channel_created_def by (cases "ev_payload e") (auto intro!: errs_intros)
  moreover have "own_error (derive_message_row cr e db)" for db
    unfolding derive_message_row_def by (cases "ev_payload e") (auto intro!: errs_intros own_try_write)
  moreover have "own_error (sealed_edit_target db c target author strict)" for db c target author strict
    unfolding sealed_edit_target_def by (auto intro!: errs_intros split: option.split)
  then have "own_error (apply_sealed_edit e db)" for db
    unfolding apply_sealed_edit_def by (cases "ev_payload e") (auto intro!: errs_intros own_try_write)
  moreover have "own_error (apply_tombstone e db)" for db
    unfolding apply_tombstone_def by (cases "ev_payload e") (auto intro!: errs_intros own_try_write)
  ultimately show ?thesis unfolding ingest_transaction_def Let_def
    by (auto intro!: errs_intros own_try_write)
qed

lemma submit_rejected:
  assumes "submit_event cr now sv e = Inl (Rejected err)"
  shows "\<exists>st. log_apply cr st e = Inl err"
proof (cases "sv_log sv")
  case None
  with assms show ?thesis by (simp add: submit_event_def or_fail_def)
next
  case (Some st)
  show ?thesis
  proof (cases "log_apply cr st e")
    case (Inr trial)
    have "own_error (check_posted (sv_db sv) e)"
      unfolding check_posted_def by (cases "ev_payload e") (auto intro!: errs_intros)
    then have "own_error (submit_event cr now sv e)"
      unfolding submit_event_def Some or_fail_def option.case Inr sum.case
      by (auto intro!: errs_intros own_caps own_transaction)
    with assms show ?thesis by (auto simp: errs_def)
  next
    case (Inl err')
    have "errs (\<lambda>x. \<forall>y. x = Rejected y \<longrightarrow> y = err') (submit_event cr now sv e)"
      unfolding submit_event_def Some or_fail_def option.case Inl sum.case
      using own_caps [of e now] by (intro errs_intros) (auto simp: errs_def)
    with assms Inl show ?thesis by (auto simp: errs_def)
  qed
qed

text \<open>What the client reads off a refusal is what the fold refused for.  It sees the commit-rate rule, the freshness
  ceiling, the seal over pending removals and the device cap in the answer to a submission exactly when that is the
  fold's reason, takes no other refusal of the fold for a lost epoch race, and sees every lost race as one.\<close>

theorem client_reads_the_refusal:
  assumes "submit_event cr now sv e = Inl refused"
    and "refused = StaleEpoch \<or> refused = Rejected err"
    and "answer = refusal report (commit_gap sv e) (ev_payload e) refused"
  shows "(is_stale_epoch answer \<longleftrightarrow> refused = StaleEpoch) \<and>
    (is_commit_rate_limited answer \<longleftrightarrow> refused = Rejected (log_error.Commit CommitRateRule)) \<and>
    (is_freshness_ceiling_reached answer \<longleftrightarrow> refused = Rejected (Sealed FreshnessCeilingReached)) \<and>
    (is_sealed_pending_removals answer \<longleftrightarrow> refused = Rejected (Sealed SealedUntilRekey)) \<and>
    (is_device_cap_reached answer \<longleftrightarrow> refused = Rejected (Member TooManyLiveDevices))"
  using assms(2)
proof
  assume "refused = StaleEpoch"
  moreover have "signals ''stale-epoch'' = (False, False, False, False)" by (simp add: signal_simps cong: text_congs)
  ultimately show ?thesis
    by (simp add: assms(3) refusal_def is_stale_epoch_def is_commit_rate_limited_def is_freshness_ceiling_reached_def
        is_sealed_pending_removals_def is_device_cap_reached_def rejected_with_def signals_def)
next
  assume rej: "refused = Rejected err"
  show ?thesis
  proof (cases "err = GroupMissingPanic")
    case True
    with rej show ?thesis
      by (simp add: assms(3) refusal_def is_stale_epoch_def is_commit_rate_limited_def is_freshness_ceiling_reached_def
          is_sealed_pending_removals_def is_device_cap_reached_def rejected_with_def)
  next
    case False
    from submit_rejected [OF assms(1) [unfolded rej]] obtain st where "log_apply cr st e = Inl err" by blast
    with names_apply [of cr st e] have "named err" by (simp add: errs_def)
    note sig = fold_signals [OF this commit_gap_bound False, of sv e "ev_payload e"]
    with rej False show ?thesis
      by (simp add: assms(3) refusal_signals is_stale_epoch_def is_commit_rate_limited_def is_freshness_ceiling_reached_def
          is_sealed_pending_removals_def is_device_cap_reached_def rejected_with_def signals_def)
  qed
qed


text \<open>A device that the log does not know.\<close>

lemma ec_refused: "submit_event toy_crypto 20 (fresh_server toy_crypto sc_genesis) ss_o1 = Inl (Rejected (Envelope UnauthorizedDevice))"
  by (simp add: ingest_eval_defs ss_defs run_defs)

theorem client_reads_the_refusal_witness:
  "\<not> is_stale_epoch (refusal (\<lambda>_. []) (commit_gap (fresh_server toy_crypto sc_genesis) ss_o1) (ev_payload ss_o1)
       (Rejected (Envelope UnauthorizedDevice)))"
  using client_reads_the_refusal [OF ec_refused disjI2 [OF refl] refl, of "\<lambda>_. []"] by blast

end
