(* ===== verification/MediaCrypto.thy ===== *)
theory MediaCrypto
  imports MediaDatagram
begin

text \<open>
  The sealing of media frames, \<open>crates/farder-crypto/src/media.rs\<close>, with the two wrappers it rests
  on: \<open>encryption.rs\<close> (AES-256-GCM with the nonce in front) and \<open>key_exchange.rs\<close> (the X25519 secret
  two identities share).

  The primitives are parameters, fields of \<open>primitives\<close>: AES-GCM, ChaCha20-Poly1305, SHA-512, the map
  from the Edwards to the Montgomery curve and the Diffie-Hellman function.  What the code relies on
  is said by \<open>gcm_ok\<close>, \<open>chacha_ok\<close> and \<open>agrees\<close>.  A random nonce or key is an argument.
\<close>

section \<open>The primitives\<close>

record primitives =
  pr_gcm_seal :: "bytes \<Rightarrow> bytes \<Rightarrow> bytes \<Rightarrow> bytes option"
  pr_gcm_open :: "bytes \<Rightarrow> bytes \<Rightarrow> bytes \<Rightarrow> bytes option"
  pr_chacha_seal :: "bytes \<Rightarrow> bytes \<Rightarrow> bytes \<Rightarrow> bytes \<Rightarrow> bytes option"
  pr_chacha_open :: "bytes \<Rightarrow> bytes \<Rightarrow> bytes \<Rightarrow> bytes \<Rightarrow> bytes option"
  pr_sha512 :: "bytes \<Rightarrow> bytes"
  pr_to_montgomery :: "bytes \<Rightarrow> bytes option"
  pr_x25519 :: "bytes \<Rightarrow> bytes \<Rightarrow> bytes"

definition gcm_ok :: "primitives \<Rightarrow> bool" where
  "gcm_ok P \<longleftrightarrow> (\<forall>k n m c. pr_gcm_seal P k n m = Some c \<longrightarrow> pr_gcm_open P k n c = Some m \<and> length c = length m + 16)"

definition chacha_ok :: "primitives \<Rightarrow> bool" where
  "chacha_ok P \<longleftrightarrow>
     (\<forall>k n m a c. pr_chacha_seal P k n m a = Some c \<longrightarrow> pr_chacha_open P k n c a = Some m \<and> length c = length m + 16)"

lemma gcm_okD: "gcm_ok P \<Longrightarrow> pr_gcm_seal P k n m = Some c \<Longrightarrow> pr_gcm_open P k n c = Some m \<and> length c = length m + 16"
  by (auto simp: gcm_ok_def)

lemma chacha_okD:
  "chacha_ok P \<Longrightarrow> pr_chacha_seal P k n m a = Some c \<Longrightarrow> pr_chacha_open P k n c a = Some m \<and> length c = length m + 16"
  by (auto simp: chacha_ok_def)

section \<open>\<open>encryption.rs\<close>\<close>

datatype crypto_error =
    CiphertextTooShort
  | EncryptionFailed
  | DecryptionFailed
  | BadPeerKey
  | StreamKeyLength nat
  | PlaintextTooShort
  | WireTooShort nat
  | WireVersion byte
  | WireType byte

definition gcm_encrypt :: "primitives \<Rightarrow> bytes \<Rightarrow> bytes \<Rightarrow> bytes \<Rightarrow> crypto_error + bytes" where
  "gcm_encrypt P nonce key plaintext =
     or_fail (pr_gcm_seal P key nonce plaintext) EncryptionFailed (\<lambda>ciphertext. Inr (nonce @ ciphertext))"

definition gcm_decrypt :: "primitives \<Rightarrow> bytes \<Rightarrow> bytes \<Rightarrow> crypto_error + bytes" where
  "gcm_decrypt P key data =
     ensure (12 + 16 \<le> length data) CiphertextTooShort
     (or_fail (pr_gcm_open P key (take 12 data) (drop 12 data)) DecryptionFailed Inr)"

text \<open>\<open>file_policy.rs\<close>: a file is sealed under a key of its own.\<close>

definition seal_file :: "primitives \<Rightarrow> bytes \<Rightarrow> bytes \<Rightarrow> bytes \<Rightarrow> crypto_error + bytes \<times> bytes" where
  "seal_file P key nonce plaintext =
     try_then (gcm_encrypt P nonce key plaintext) (\<lambda>ciphertext. Inr (key, ciphertext))"

definition open_file :: "primitives \<Rightarrow> bytes \<Rightarrow> bytes \<Rightarrow> crypto_error + bytes" where
  "open_file P key ciphertext = gcm_decrypt P key ciphertext"

section \<open>\<open>key_exchange.rs\<close>\<close>

definition clamp :: "bytes \<Rightarrow> bytes" where
  "clamp s0 =
     (let s1 = s0[0 := and (s0 ! 0) 248];
          s2 = s1[31 := and (s1 ! 31) 127]
      in s2[31 := or (s2 ! 31) 64])"

definition ed25519_sk_to_x25519 :: "primitives \<Rightarrow> bytes \<Rightarrow> bytes" where
  "ed25519_sk_to_x25519 P ed_sk = clamp (take 32 (pr_sha512 P ed_sk))"

definition ed25519_pk_to_x25519 :: "primitives \<Rightarrow> bytes \<Rightarrow> crypto_error + bytes" where
  "ed25519_pk_to_x25519 P ed_pk = or_fail (pr_to_montgomery P ed_pk) BadPeerKey Inr"

definition derive_dm_shared_secret :: "primitives \<Rightarrow> bytes \<Rightarrow> bytes \<Rightarrow> crypto_error + bytes" where
  "derive_dm_shared_secret P our_ed_sk their_ed_pk =
     (let x_secret = ed25519_sk_to_x25519 P our_ed_sk
      in try_then (ed25519_pk_to_x25519 P their_ed_pk) (\<lambda>x_public. Inr (pr_x25519 P x_secret x_public)))"

text \<open>The symmetry of Diffie-Hellman, for two key pairs: both sides compute one secret.\<close>

definition agrees :: "primitives \<Rightarrow> bytes \<times> bytes \<Rightarrow> bytes \<times> bytes \<Rightarrow> bool" where
  "agrees P a b \<longleftrightarrow>
     (\<exists>ma mb. pr_to_montgomery P (snd a) = Some ma \<and> pr_to_montgomery P (snd b) = Some mb \<and>
        pr_x25519 P (ed25519_sk_to_x25519 P (fst a)) mb = pr_x25519 P (ed25519_sk_to_x25519 P (fst b)) ma)"

section \<open>Stream keys\<close>

definition wrap_stream_key_for_peer :: "primitives \<Rightarrow> bytes \<Rightarrow> bytes \<Rightarrow> bytes \<Rightarrow> bytes \<Rightarrow> crypto_error + bytes" where
  "wrap_stream_key_for_peer P nonce stream_key my_ed_sk peer_ed_pk =
     try_then (derive_dm_shared_secret P my_ed_sk peer_ed_pk) (\<lambda>shared. gcm_encrypt P nonce shared stream_key)"

definition unwrap_stream_key :: "primitives \<Rightarrow> bytes \<Rightarrow> bytes \<Rightarrow> bytes \<Rightarrow> crypto_error + bytes" where
  "unwrap_stream_key P wrapped my_ed_sk sender_ed_pk =
     try_then (derive_dm_shared_secret P my_ed_sk sender_ed_pk) (\<lambda>shared.
     try_then (gcm_decrypt P shared wrapped) (\<lambda>plaintext.
     ensure (length plaintext = 32) (StreamKeyLength (length plaintext)) (Inr plaintext)))"

section \<open>Frames\<close>

definition MEDIA_FRAME_VERSION :: byte where "MEDIA_FRAME_VERSION = 0x02"
definition MEDIA_FRAME_TYPE_AUDIO :: byte where "MEDIA_FRAME_TYPE_AUDIO = 0x01"
definition MEDIA_FRAME_TYPE_VIDEO :: byte where "MEDIA_FRAME_TYPE_VIDEO = 0x02"
definition MEDIA_FRAME_HEADER_LEN :: nat where "MEDIA_FRAME_HEADER_LEN = 28"

definition media_frame_nonce :: "bytes \<Rightarrow> 64 word \<Rightarrow> bytes" where
  "media_frame_nonce session_id seq = take 4 session_id @ be_bytes 8 (unat seq)"

definition seal_media_frame :: "primitives \<Rightarrow> bytes \<Rightarrow> 64 word \<Rightarrow> bytes \<Rightarrow> bytes \<Rightarrow> bytes \<Rightarrow> bytes \<Rightarrow> crypto_error + bytes" where
  "seal_media_frame P key seq session_id header_aad speaker_pk codec_payload =
     or_fail (pr_chacha_seal P key (media_frame_nonce session_id seq) (speaker_pk @ codec_payload) header_aad)
       EncryptionFailed Inr"

definition open_media_frame :: "primitives \<Rightarrow> bytes \<Rightarrow> 64 word \<Rightarrow> bytes \<Rightarrow> bytes \<Rightarrow> bytes \<Rightarrow> crypto_error + (bytes \<times> bytes)" where
  "open_media_frame P key seq session_id header_aad ciphertext =
     or_fail (pr_chacha_open P key (media_frame_nonce session_id seq) ciphertext header_aad) DecryptionFailed (\<lambda>plaintext.
     ensure (32 \<le> length plaintext) PlaintextTooShort (Inr (take 32 plaintext, drop 32 plaintext)))"

definition build_audio_header :: "64 word \<Rightarrow> bytes \<Rightarrow> bytes" where
  "build_audio_header seq session_id =
     [MEDIA_FRAME_VERSION, MEDIA_FRAME_TYPE_AUDIO, 0, 0] @ be_bytes 8 (unat seq) @ session_id"

definition build_video_header :: "64 word \<Rightarrow> bytes \<Rightarrow> bytes" where
  "build_video_header seq session_id =
     [MEDIA_FRAME_VERSION, MEDIA_FRAME_TYPE_VIDEO, 0, 0] @ be_bytes 8 (unat seq) @ session_id"

definition seal_audio_packet_to_wire :: "primitives \<Rightarrow> bytes \<Rightarrow> 64 word \<Rightarrow> bytes \<Rightarrow> bytes \<Rightarrow> bytes \<Rightarrow> crypto_error + bytes" where
  "seal_audio_packet_to_wire P key seq session_id speaker_pk opus_packet =
     (let hdr = build_audio_header seq session_id
      in try_then (seal_media_frame P key seq session_id hdr speaker_pk opus_packet) (\<lambda>ciphertext. Inr (hdr @ ciphertext)))"

definition open_audio_wire_frame :: "primitives \<Rightarrow> bytes \<Rightarrow> bytes \<Rightarrow> crypto_error + (64 word \<times> bytes \<times> bytes)" where
  "open_audio_wire_frame P key wire =
     ensure (MEDIA_FRAME_HEADER_LEN \<le> length wire) (WireTooShort (length wire))
     (ensure (wire ! 0 = MEDIA_FRAME_VERSION) (WireVersion (wire ! 0))
     (ensure (wire ! 1 = MEDIA_FRAME_TYPE_AUDIO) (WireType (wire ! 1))
     (let seq = word_of_nat (from_be (slice 4 12 wire));
          session_id = slice 12 28 wire;
          header_aad = take MEDIA_FRAME_HEADER_LEN wire;
          ciphertext = drop MEDIA_FRAME_HEADER_LEN wire
      in try_then (open_media_frame P key seq session_id header_aad ciphertext) (\<lambda>(speaker_pk, opus_packet).
         Inr (seq, speaker_pk, opus_packet)))))"

definition seal_video_frame_to_wire :: "primitives \<Rightarrow> bytes \<Rightarrow> 64 word \<Rightarrow> bytes \<Rightarrow> bytes \<Rightarrow> bytes \<Rightarrow> crypto_error + bytes" where
  "seal_video_frame_to_wire P key seq session_id speaker_pk h264_payload =
     (let hdr = build_video_header seq session_id
      in try_then (seal_media_frame P key seq session_id hdr speaker_pk h264_payload) (\<lambda>ciphertext. Inr (hdr @ ciphertext)))"

definition open_video_wire_frame :: "primitives \<Rightarrow> bytes \<Rightarrow> bytes \<Rightarrow> crypto_error + (64 word \<times> bytes \<times> bytes)" where
  "open_video_wire_frame P key wire =
     ensure (MEDIA_FRAME_HEADER_LEN \<le> length wire) (WireTooShort (length wire))
     (ensure (wire ! 0 = MEDIA_FRAME_VERSION) (WireVersion (wire ! 0))
     (ensure (wire ! 1 = MEDIA_FRAME_TYPE_VIDEO) (WireType (wire ! 1))
     (let seq = word_of_nat (from_be (slice 4 12 wire));
          session_id = slice 12 28 wire;
          header_aad = take MEDIA_FRAME_HEADER_LEN wire;
          ciphertext = drop MEDIA_FRAME_HEADER_LEN wire
      in try_then (open_media_frame P key seq session_id header_aad ciphertext) (\<lambda>(speaker_pk, h264).
         Inr (seq, speaker_pk, h264)))))"

text \<open>The server's reading of a frame, \<open>crates/farder-server/src/media_stream.rs\<close>.\<close>

record media_frame =
  mf_kind :: track_kind
  mf_seq :: "64 word"
  mf_session_id :: bytes
  mf_ciphertext :: bytes

datatype media_frame_error = FrameTooShort | FrameVersion byte | FrameType byte

definition media_frame_header_aad :: "bytes \<Rightarrow> bytes" where
  "media_frame_header_aad buf = take MEDIA_FRAME_HEADER_LEN buf"

definition parse_media_frame :: "bytes \<Rightarrow> media_frame_error + media_frame" where
  "parse_media_frame buf =
     ensure (MEDIA_FRAME_HEADER_LEN \<le> length buf) FrameTooShort
     (ensure (buf ! 0 = MEDIA_FRAME_VERSION) (FrameVersion (buf ! 0))
     (or_fail (if buf ! 1 = MEDIA_FRAME_TYPE_AUDIO then Some Audio
               else if buf ! 1 = MEDIA_FRAME_TYPE_VIDEO then Some Video else None) (FrameType (buf ! 1)) (\<lambda>kind.
      let seq = word_of_nat (from_be (slice 4 12 buf));
          session_id = slice 12 28 buf
      in Inr \<lparr>mf_kind = kind, mf_seq = seq, mf_session_id = session_id, mf_ciphertext = drop MEDIA_FRAME_HEADER_LEN buf\<rparr>)))"

definition build_media_frame :: "track_kind \<Rightarrow> 64 word \<Rightarrow> bytes \<Rightarrow> bytes \<Rightarrow> bytes" where
  "build_media_frame kind seq session_id ciphertext =
     (let type_byte = (case kind of Audio \<Rightarrow> MEDIA_FRAME_TYPE_AUDIO | Video \<Rightarrow> MEDIA_FRAME_TYPE_VIDEO
                       | ScreenAudio \<Rightarrow> MEDIA_FRAME_TYPE_AUDIO)
      in [MEDIA_FRAME_VERSION, type_byte, 0, 0] @ be_bytes 8 (unat seq) @ session_id @ ciphertext)"

section \<open>The sealed frame is read back\<close>

lemma from_be_word64: "word_of_nat (from_be (be_bytes 8 (unat (x :: 64 word)))) = x"
proof -
  have "unat x < 2 ^ 64" using unsigned_less [of x] by simp
  then show ?thesis by (simp add: from_be_be_bytes)
qed

text \<open>A header of either kind: what the fixed offsets read.\<close>

lemma header_parts:
  assumes "length sid = 16" and w_def: "w = [v, t, 0, 0] @ be_bytes 8 (unat (seq :: 64 word)) @ sid @ rest"
  shows "28 \<le> length w" and "w ! 0 = v" and "w ! 1 = t" and "w ! Suc 0 = t"
    and "word_of_nat (from_be (slice 4 12 w)) = seq" and "slice 12 28 w = sid"
    and "take 28 w = [v, t, 0, 0] @ be_bytes 8 (unat seq) @ sid" and "drop 28 w = rest"
proof -
  have four: "slice 4 12 w = be_bytes 8 (unat seq)" by (simp add: w_def slice_def)
  show "word_of_nat (from_be (slice 4 12 w)) = seq" unfolding four by (rule from_be_word64)
qed (use assms in \<open>simp_all add: slice_def\<close>)

lemma open_media_seal:
  assumes "chacha_ok P" and "seal_media_frame P key seq sid aad pk payload = Inr c" and "length pk = 32"
  shows "open_media_frame P key seq sid aad c = Inr (pk, payload)"
  using assms chacha_okD [OF assms(1), of key "media_frame_nonce sid seq" "pk @ payload" aad c]
  by (auto simp: seal_media_frame_def open_media_frame_def result_simps)

lemma audio_seal_open:
  assumes "chacha_ok P" and "length sid = 16" and "length pk = 32"
    and seal: "seal_audio_packet_to_wire P key seq sid pk pkt = Inr wire"
  shows "open_audio_wire_frame P key wire = Inr (seq, pk, pkt)"
proof -
  from seal obtain c where c: "seal_media_frame P key seq sid (build_audio_header seq sid) pk pkt = Inr c"
    and w: "wire = build_audio_header seq sid @ c"
    by (auto simp: seal_audio_packet_to_wire_def result_simps Let_def)
  have w': "wire = [MEDIA_FRAME_VERSION, MEDIA_FRAME_TYPE_AUDIO, 0, 0] @ be_bytes 8 (unat seq) @ sid @ c"
    by (simp add: w build_audio_header_def)
  note p = header_parts [OF assms(2) w']
  show ?thesis
    using open_media_seal [OF assms(1) c assms(3)]
    by (simp add: open_audio_wire_frame_def MEDIA_FRAME_HEADER_LEN_def p Let_def build_audio_header_def)
qed

lemma video_seal_open:
  assumes "chacha_ok P" and "length sid = 16" and "length pk = 32"
    and seal: "seal_video_frame_to_wire P key seq sid pk pkt = Inr wire"
  shows "open_video_wire_frame P key wire = Inr (seq, pk, pkt)"
proof -
  from seal obtain c where c: "seal_media_frame P key seq sid (build_video_header seq sid) pk pkt = Inr c"
    and w: "wire = build_video_header seq sid @ c"
    by (auto simp: seal_video_frame_to_wire_def result_simps Let_def)
  have w': "wire = [MEDIA_FRAME_VERSION, MEDIA_FRAME_TYPE_VIDEO, 0, 0] @ be_bytes 8 (unat seq) @ sid @ c"
    by (simp add: w build_video_header_def)
  note p = header_parts [OF assms(2) w']
  show ?thesis
    using open_media_seal [OF assms(1) c assms(3)]
    by (simp add: open_video_wire_frame_def MEDIA_FRAME_HEADER_LEN_def p Let_def build_video_header_def)
qed

lemma wire_length:
  assumes "chacha_ok P" and "length sid = 16" and "length pk = 32"
  shows "seal_audio_packet_to_wire P key seq sid pk pkt = Inr wire \<Longrightarrow> length wire = length pkt + 76"
    and "seal_video_frame_to_wire P key seq sid pk pkt = Inr wire \<Longrightarrow> length wire = length pkt + 76"
  using assms by (auto simp: seal_audio_packet_to_wire_def seal_video_frame_to_wire_def seal_media_frame_def
      build_audio_header_def build_video_header_def result_simps Let_def dest!: chacha_okD)

text \<open>The nonce: no two sequence numbers of one session give the same.\<close>

lemma be_bytes_inject: "a < 256 ^ n \<Longrightarrow> b < 256 ^ n \<Longrightarrow> be_bytes n a = be_bytes n b \<longleftrightarrow> a = b"
  using from_be_be_bytes by metis

lemma nonce_inject: "media_frame_nonce sid p = media_frame_nonce sid q \<longleftrightarrow> p = q"
  by (metis media_frame_nonce_def append_eq_append_conv from_be_word64)

lemma parse_build_frame:
  assumes "length sid = 16"
  shows "parse_media_frame (build_media_frame kind seq sid c) =
    Inr \<lparr>mf_kind = (if kind = ScreenAudio then Audio else kind), mf_seq = seq, mf_session_id = sid, mf_ciphertext = c\<rparr>"
proof -
  define t where "t = (case kind of Audio \<Rightarrow> MEDIA_FRAME_TYPE_AUDIO | Video \<Rightarrow> MEDIA_FRAME_TYPE_VIDEO | ScreenAudio \<Rightarrow> MEDIA_FRAME_TYPE_AUDIO)"
  define w where "w = build_media_frame kind seq sid c"
  have w': "w = [MEDIA_FRAME_VERSION, t, 0, 0] @ be_bytes 8 (unat seq) @ sid @ c"
    by (simp only: w_def t_def build_media_frame_def Let_def)
  note p = header_parts [OF assms w']
  have kind: "(if w ! 1 = MEDIA_FRAME_TYPE_AUDIO then Some Audio else if w ! 1 = MEDIA_FRAME_TYPE_VIDEO then Some Video else None) =
      Some (if kind = ScreenAudio then Audio else kind)"
    unfolding p(3) t_def by (cases kind) (simp_all add: MEDIA_FRAME_TYPE_AUDIO_def MEDIA_FRAME_TYPE_VIDEO_def)
  show ?thesis
    unfolding w_def [symmetric] parse_media_frame_def kind or_fail_simps MEDIA_FRAME_HEADER_LEN_def by (simp add: p(1,2,5,6,8) Let_def)
qed

section \<open>Keys are delivered\<close>

lemma gcm_round_trip:
  "gcm_ok P \<Longrightarrow> length nonce = 12 \<Longrightarrow> gcm_encrypt P nonce key m = Inr c \<Longrightarrow> gcm_decrypt P key c = Inr m"
  by (auto simp: gcm_encrypt_def gcm_decrypt_def result_simps dest!: gcm_okD)

lemma file_round_trip:
  "gcm_ok P \<Longrightarrow> length nonce = 12 \<Longrightarrow> seal_file P key nonce m = Inr (k, c) \<Longrightarrow> open_file P k c = Inr m"
  by (auto simp: seal_file_def open_file_def result_simps intro: gcm_round_trip)

lemma stream_key_round_trip:
  assumes "gcm_ok P" and "agrees P me peer" and "length nonce = 12" and "length key = 32"
    and wrap: "wrap_stream_key_for_peer P nonce key (fst me) (snd peer) = Inr w"
  shows "unwrap_stream_key P w (fst peer) (snd me) = Inr key"
proof -
  from assms(2) obtain ma mb where m: "pr_to_montgomery P (snd me) = Some ma" "pr_to_montgomery P (snd peer) = Some mb"
    and same: "pr_x25519 P (ed25519_sk_to_x25519 P (fst me)) mb = pr_x25519 P (ed25519_sk_to_x25519 P (fst peer)) ma"
    by (auto simp: agrees_def)
  from wrap have "gcm_encrypt P nonce (pr_x25519 P (ed25519_sk_to_x25519 P (fst me)) mb) key = Inr w"
    by (simp add: wrap_stream_key_for_peer_def derive_dm_shared_secret_def ed25519_pk_to_x25519_def m)
  from gcm_round_trip [OF assms(1,3) this] show ?thesis
    by (simp add: unwrap_stream_key_def derive_dm_shared_secret_def ed25519_pk_to_x25519_def m same assms(4))
qed

end
