(* ===== verification/VoicePipeline.thy ===== *)
theory VoicePipeline
  imports MediaCrypto MediaReassembly JitterBuffer
begin

text \<open>
  The client's media pipeline, \<open>client/src-tauri/src/voice\<close>: the senders of microphone, screen-audio
  and video frames (\<open>send.rs\<close>, \<open>send_screen_audio.rs\<close>, \<open>send_video.rs\<close>), the dispatcher of inbound
  datagrams (\<open>mod.rs\<close>), and the receivers with the ring that feeds the mixer (\<open>recv.rs\<close>,
  \<open>recv_video.rs\<close>).

  A task is a function on the state its loop keeps and one item of its channel.  The audio device is
  a parameter, \<open>voice_device\<close>: the processing module, the Opus encoder and the arithmetic of \<open>f32\<close>
  samples; its state is one value.  What the loop loads from shared atomics is part of the item.
\<close>

definition DEFAULT_MAX_DGRAM_PAYLOAD :: nat where "DEFAULT_MAX_DGRAM_PAYLOAD = 1100"
definition OPUS_FRAME_SAMPLES_MONO :: nat where "OPUS_FRAME_SAMPLES_MONO = 960"
definition SPEAK_HANGOVER_FRAMES :: nat where "SPEAK_HANGOVER_FRAMES = 15"

record stream_id =
  si_key :: bytes
  si_session :: bytes
  si_speaker :: bytes

section \<open>Video\<close>

record encoded_frame =
  ef_data :: bytes
  ef_is_keyframe :: bool
  ef_timestamp_ms :: nat

record video_sender =
  vs_stream :: stream_id
  vs_seq :: "64 word"
  vs_frame_id :: "32 word"

definition new_video_sender :: "stream_id \<Rightarrow> video_sender" where
  "new_video_sender sid = \<lparr>vs_stream = sid, vs_seq = 0, vs_frame_id = 0\<rparr>"

definition video_payload :: "encoded_frame \<Rightarrow> bytes" where
  "video_payload frame = (if ef_is_keyframe frame then 1 else 0) # ef_data frame"

definition build_video_datagrams :: "primitives \<Rightarrow> stream_id \<Rightarrow> 64 word \<Rightarrow> 32 word \<Rightarrow> encoded_frame \<Rightarrow> crypto_error + bytes list" where
  "build_video_datagrams P s seq frame_id frame =
     (let payload = video_payload frame
      in try_then (seal_video_frame_to_wire P (si_key s) seq (si_session s) (si_speaker s) payload) (\<lambda>wire.
         Inr (fragment Video (si_session s) frame_id wire DEFAULT_MAX_DGRAM_PAYLOAD)))"

text \<open>\<open>VideoSender::send\<close>: a frame that cannot be sealed is dropped, and the counters go on.\<close>

definition video_send :: "primitives \<Rightarrow> encoded_frame \<Rightarrow> video_sender \<Rightarrow> bytes list \<times> video_sender" where
  "video_send P frame v =
     ((case build_video_datagrams P (vs_stream v) (vs_seq v) (vs_frame_id v) frame of Inl _ \<Rightarrow> [] | Inr dgrams \<Rightarrow> dgrams),
      v\<lparr>vs_seq := vs_seq v + 1, vs_frame_id := vs_frame_id v + 1\<rparr>)"

fun video_send_all :: "primitives \<Rightarrow> encoded_frame list \<Rightarrow> video_sender \<Rightarrow> bytes list list \<times> video_sender" where
  "video_send_all P [] v = ([], v)"
| "video_send_all P (f # fs) v =
     (let (ds, v1) = video_send P f v; (dss, v2) = video_send_all P fs v1 in (ds # dss, v2))"

record video_out =
  vo_data :: bytes
  vo_is_keyframe :: bool
  vo_seq :: "64 word"

text \<open>One datagram of the video receiver: what goes to the sink; \<open>None\<close> is a panic of the reassembler.\<close>

definition recv_video_step :: "primitives \<Rightarrow> bytes \<Rightarrow> bytes \<Rightarrow> reassembler \<Rightarrow> (video_out list \<times> reassembler) option" where
  "recv_video_step P key dgram r =
     (case parse dgram of
        Inl _ \<Rightarrow> Some ([], r)
      | Inr (header, payload) \<Rightarrow>
          (case accept header payload r of
             None \<Rightarrow> None
           | Some (None, r') \<Rightarrow> Some ([], r')
           | Some (Some sealed, r') \<Rightarrow>
               (case open_video_wire_frame P key sealed of
                  Inl _ \<Rightarrow> Some ([], r')
                | Inr (seq, _, plaintext) \<Rightarrow>
                    Some (if plaintext = [] then []
                          else [\<lparr>vo_data = tl plaintext, vo_is_keyframe = (plaintext ! 0 = 1), vo_seq = seq\<rparr>], r'))))"

fun recv_video :: "primitives \<Rightarrow> bytes \<Rightarrow> bytes list \<Rightarrow> reassembler \<Rightarrow> (video_out list \<times> reassembler) option" where
  "recv_video P key [] r = Some ([], r)"
| "recv_video P key (d # ds) r =
     (case recv_video_step P key d r of
        None \<Rightarrow> None
      | Some (out, r') \<Rightarrow> map_option (\<lambda>(outs, r''). (out @ outs, r'')) (recv_video P key ds r'))"

section \<open>The microphone\<close>

datatype gate_mode = GateOpen | GateVad | GatePtt bool

definition gate_pass :: "gate_mode \<Rightarrow> bool" where
  "gate_pass g = (case g of GateOpen \<Rightarrow> True | GateVad \<Rightarrow> True | GatePtt flag \<Rightarrow> flag)"

record ('f, 'd) voice_device =
  vd_render :: "'f list \<Rightarrow> 'd \<Rightarrow> 'd"
  vd_capture :: "'f list \<Rightarrow> 'd \<Rightarrow> 'f list \<times> 'd"
  vd_rms :: "'f list \<Rightarrow> 'f"
  vd_greater :: "'f \<Rightarrow> 'f \<Rightarrow> bool"
  vd_encode :: "'f list \<Rightarrow> 'd \<Rightarrow> bytes option \<times> 'd"

record 'f voice_input =
  vi_samples :: "'f list"
  vi_aec_ref :: "'f list"
  vi_threshold :: 'f
  vi_muted :: bool
  vi_gate :: gate_mode
  vi_muted_later :: bool

datatype 'f voice_signal = InputLevel 'f | LocalSpeaking bool

record 'd voice_state =
  ve_seq :: "64 word"
  ve_frame_id :: "32 word"
  ve_speaking :: bool
  ve_consec_below :: nat
  ve_frame_count :: "64 word"
  ve_device :: 'd

definition new_voice_state :: "'d \<Rightarrow> 'd voice_state" where
  "new_voice_state d = \<lparr>ve_seq = 0, ve_frame_id = 0, ve_speaking = False, ve_consec_below = 0, ve_frame_count = 0, ve_device = d\<rparr>"

text \<open>The speaking indicator and the level meter.\<close>

definition detect_speaking :: "bool \<Rightarrow> bool \<Rightarrow> 'd voice_state \<Rightarrow> 'f voice_signal list \<times> 'd voice_state" where
  "detect_speaking loud is_muted st =
     (if loud \<and> \<not> is_muted
      then (if ve_speaking st then [] else [LocalSpeaking True], st\<lparr>ve_speaking := True, ve_consec_below := 0\<rparr>)
      else (let st' = st\<lparr>ve_consec_below := sat_inc (ve_consec_below st)\<rparr>
            in if ve_speaking st' \<and> (is_muted \<or> SPEAK_HANGOVER_FRAMES \<le> ve_consec_below st')
               then ([LocalSpeaking False], st'\<lparr>ve_speaking := False\<rparr>)
               else ([], st')))"

text \<open>
  The loop body up to the encoder: the packet to send, if any.  A chunk of the wrong size is skipped
  before the device sees it.
\<close>

definition voice_prepare :: "('f, 'd) voice_device \<Rightarrow> 'f voice_input \<Rightarrow> 'd voice_state \<Rightarrow>
    'f voice_signal list \<times> bytes option \<times> 'd voice_state" where
  "voice_prepare D i st =
     (if length (vi_samples i) \<noteq> OPUS_FRAME_SAMPLES_MONO then ([], None, st)
      else
        (let d0 = (if length (vi_aec_ref i) = OPUS_FRAME_SAMPLES_MONO then vd_render D (vi_aec_ref i) (ve_device st) else ve_device st);
             (frame, d1) = vd_capture D (vi_samples i) d0;
             rms = vd_rms D frame;
             st1 = st\<lparr>ve_device := d1, ve_frame_count := ve_frame_count st + 1\<rparr>;
             level = (if ve_frame_count st1 mod 5 = 0 then [InputLevel rms] else []);
             (speaking, st2) = detect_speaking (vd_greater D rms (vi_threshold i)) (vi_muted i) st1
         in if \<not> gate_pass (vi_gate i) then (level @ speaking, None, st2)
            else if vi_muted_later i then (level @ speaking, None, st2)
            else (let (pkt, d2) = vd_encode D frame d1 in (level @ speaking, pkt, st2\<lparr>ve_device := d2\<rparr>))))"

text \<open>The rest of the body: seal, split, count.\<close>

definition voice_transmit :: "primitives \<Rightarrow> stream_id \<Rightarrow> bytes option \<Rightarrow> 'd voice_state \<Rightarrow> bytes list \<times> 'd voice_state" where
  "voice_transmit P s pkt st =
     (let skipped = st\<lparr>ve_seq := saturating_add (ve_seq st) 1\<rparr>
      in case pkt of
           None \<Rightarrow> ([], skipped)
         | Some packet \<Rightarrow>
             (case seal_audio_packet_to_wire P (si_key s) (ve_seq st) (si_session s) (si_speaker s) packet of
                Inl _ \<Rightarrow> ([], skipped)
              | Inr frame_bytes \<Rightarrow>
                  (fragment Audio (si_session s) (ve_frame_id st) frame_bytes DEFAULT_MAX_DGRAM_PAYLOAD,
                   skipped\<lparr>ve_frame_id := ve_frame_id st + 1\<rparr>)))"

definition voice_send :: "primitives \<Rightarrow> ('f, 'd) voice_device \<Rightarrow> stream_id \<Rightarrow> 'f voice_input \<Rightarrow> 'd voice_state \<Rightarrow>
    'f voice_signal list \<times> bytes list \<times> 'd voice_state" where
  "voice_send P D s i st =
     (let (signals, pkt, st1) = voice_prepare D i st; (dgrams, st2) = voice_transmit P s pkt st1
      in (signals, dgrams, st2))"

fun voice_send_all :: "primitives \<Rightarrow> ('f, 'd) voice_device \<Rightarrow> stream_id \<Rightarrow> 'f voice_input list \<Rightarrow> 'd voice_state \<Rightarrow>
    'f voice_signal list \<times> bytes list list \<times> 'd voice_state" where
  "voice_send_all P D s [] st = ([], [], st)"
| "voice_send_all P D s (i # is) st =
     (let (sig, ds, st1) = voice_send P D s i st; (sigs, dss, st2) = voice_send_all P D s is st1
      in (sig @ sigs, ds # dss, st2))"

text \<open>\<open>send_screen_audio.rs\<close>: the same transmission, with nothing but the size check before the encoder.\<close>

definition screen_audio_send :: "primitives \<Rightarrow> ('f list \<Rightarrow> 'd \<Rightarrow> bytes option \<times> 'd) \<Rightarrow> stream_id \<Rightarrow> 'f list \<Rightarrow>
    64 word \<times> 32 word \<times> 'd \<Rightarrow> bytes list \<times> (64 word \<times> 32 word \<times> 'd)" where
  "screen_audio_send P encode s samples st =
     (let (seq, frame_id, d) = st; seq' = saturating_add seq 1
      in if length samples \<noteq> OPUS_FRAME_SAMPLES_MONO then ([], (seq', frame_id, d))
         else (let (pkt, d') = encode samples d
               in case pkt of
                    None \<Rightarrow> ([], (seq', frame_id, d'))
                  | Some packet \<Rightarrow>
                      (case seal_audio_packet_to_wire P (si_key s) seq (si_session s) (si_speaker s) packet of
                         Inl _ \<Rightarrow> ([], (seq', frame_id, d'))
                       | Inr frame_bytes \<Rightarrow>
                           (fragment ScreenAudio (si_session s) frame_id frame_bytes DEFAULT_MAX_DGRAM_PAYLOAD,
                            (seq', frame_id + 1, d')))))"

section \<open>The audio receiver\<close>

text \<open>What the decoder is given: a packet, or a request to conceal a lost one.\<close>

datatype played = Packet bytes | Conceal

definition jitter_step :: "64 word \<Rightarrow> bytes \<Rightarrow> jitter_buffer \<Rightarrow> played \<times> jitter_buffer" where
  "jitter_step seq pkt j =
     (let (popped, j2) = pop (snd (insert_packet seq pkt j))
      in (case popped of Some p \<Rightarrow> Packet p | None \<Rightarrow> Conceal, j2))"

definition recv_audio_step :: "primitives \<Rightarrow> bytes \<Rightarrow> bool \<Rightarrow> bytes \<Rightarrow> reassembler \<times> jitter_buffer \<Rightarrow>
    (played list \<times> (reassembler \<times> jitter_buffer)) option" where
  "recv_audio_step P key deafened dgram st =
     (let (r, j) = st
      in if deafened then Some ([], st)
         else case parse dgram of
                Inl _ \<Rightarrow> Some ([], st)
              | Inr (header, payload) \<Rightarrow>
                  (case accept header payload r of
                     None \<Rightarrow> None
                   | Some (None, r') \<Rightarrow> Some ([], (r', j))
                   | Some (Some sealed, r') \<Rightarrow>
                       (case open_audio_wire_frame P key sealed of
                          Inl _ \<Rightarrow> Some ([], (r', j))
                        | Inr (seq, _, opus_pkt) \<Rightarrow>
                            (let (out, j') = jitter_step seq opus_pkt j in Some ([out], (r', j'))))))"

fun recv_audio :: "primitives \<Rightarrow> bytes \<Rightarrow> (bool \<times> bytes) list \<Rightarrow> reassembler \<times> jitter_buffer \<Rightarrow>
    (played list \<times> (reassembler \<times> jitter_buffer)) option" where
  "recv_audio P key [] st = Some ([], st)"
| "recv_audio P key ((deafened, d) # ds) st =
     (case recv_audio_step P key deafened d st of
        None \<Rightarrow> None
      | Some (out, st') \<Rightarrow> map_option (\<lambda>(outs, st''). (out @ outs, st'')) (recv_audio P key ds st'))"

text \<open>\<open>PeerPcmRing\<close>: the samples it holds, and its capacity.\<close>

definition ring_push :: "nat \<Rightarrow> 'f list \<Rightarrow> 'f list \<Rightarrow> 'f list" where
  "ring_push capacity samples q =
     foldl (\<lambda>q s. (if capacity \<le> length q then tl q else q) @ [s]) q samples"

definition ring_pop :: "'f \<Rightarrow> 'f list \<Rightarrow> 'f list \<times> 'f list" where
  "ring_pop silence q =
     (take OPUS_FRAME_SAMPLES_MONO q @ replicate (OPUS_FRAME_SAMPLES_MONO - length q) silence, drop OPUS_FRAME_SAMPLES_MONO q)"

section \<open>The dispatcher\<close>

text \<open>Routes by session and track; a channel is the list of what was sent to it.\<close>

type_synonym routes = "(bytes \<times> track_kind) \<rightharpoonup> bytes list"

definition register_route :: "bytes \<Rightarrow> track_kind \<Rightarrow> routes \<Rightarrow> routes" where
  "register_route session_id kind R = R((session_id, kind) \<mapsto> [])"

definition unregister_route :: "bytes \<Rightarrow> track_kind \<Rightarrow> routes \<Rightarrow> routes" where
  "unregister_route session_id kind R = R((session_id, kind) := None)"

definition dispatch :: "bytes \<Rightarrow> routes \<Rightarrow> routes" where
  "dispatch dgram R =
     (case parse dgram of
        Inl _ \<Rightarrow> R
      | Inr (header, _) \<Rightarrow>
          (let route = (oh_session_id header, oh_track_kind header)
           in case R route of None \<Rightarrow> R | Some tx \<Rightarrow> R(route \<mapsto> tx @ [dgram])))"

end
