(* ===== verification/VoiceClaims.thy ===== *)
theory VoiceClaims
  imports VoicePipeline
begin

text \<open>The properties of the client's media pipeline.\<close>

section \<open>The receivers behind the reassembler\<close>

definition video_of :: "primitives \<Rightarrow> bytes \<Rightarrow> bytes \<Rightarrow> video_out list" where
  "video_of P key sealed =
     (case open_video_wire_frame P key sealed of
        Inl _ \<Rightarrow> []
      | Inr (seq, _, pt) \<Rightarrow> if pt = [] then [] else [\<lparr>vo_data = tl pt, vo_is_keyframe = (pt ! 0 = 1), vo_seq = seq\<rparr>])"

lemma recv_video_step_eq: "recv_video_step P key d r =
    map_option (\<lambda>(out, r'). (concat (map (video_of P key) out), r')) (feed [d] r)"
  by (auto simp: recv_video_step_def video_of_def split: sum.splits option.splits)

lemma recv_video_append: "recv_video P key (xs @ ys) r =
    (case recv_video P key xs r of None \<Rightarrow> None
     | Some (out, r') \<Rightarrow> map_option (\<lambda>(out', r''). (out @ out', r'')) (recv_video P key ys r'))"
proof (induction xs arbitrary: r)
  case (Cons d ds)
  then show ?case by (auto simp: map_option_case split: option.split prod.split)
qed (simp add: option.map_ident_strong split_beta)

lemma recv_video_feed: "recv_video P key ds r =
    map_option (\<lambda>(out, r'). (concat (map (video_of P key) out), r')) (feed ds r)"
proof (induction ds arbitrary: r)
  case (Cons d ds)
  then show ?case
    using feed_append [of "[d]" ds r]
    by (auto simp: recv_video_step_eq map_option_case simp del: feed.simps split: option.splits prod.splits)
qed simp

text \<open>Audio: the opened packets go through the jitter buffer.\<close>

fun play_all :: "(64 word \<times> bytes) list \<Rightarrow> jitter_buffer \<Rightarrow> played list \<times> jitter_buffer" where
  "play_all [] j = ([], j)"
| "play_all ((seq, p) # ps) j =
     (let (out, j1) = jitter_step seq p j; (outs, j2) = play_all ps j1 in (out # outs, j2))"

definition packets_of :: "primitives \<Rightarrow> bytes \<Rightarrow> bytes \<Rightarrow> (64 word \<times> bytes) list" where
  "packets_of P key sealed = (case open_audio_wire_frame P key sealed of Inl _ \<Rightarrow> [] | Inr (seq, _, p) \<Rightarrow> [(seq, p)])"

lemma play_all_append: "play_all (xs @ ys) j =
    (let (out, j1) = play_all xs j; (out', j2) = play_all ys j1 in (out @ out', j2))"
  by (induction xs arbitrary: j) (auto simp: Let_def split: prod.splits)

definition heard :: "bytes list \<Rightarrow> (bool \<times> bytes) list" where
  "heard ds = map (Pair False) ds"

lemma recv_audio_feed: "recv_audio P key (heard ds) (r, j) =
    map_option (\<lambda>(out, r'). let (played, j') = play_all (concat (map (packets_of P key) out)) j in (played, (r', j'))) (feed ds r)"
proof (induction ds arbitrary: r j)
  case (Cons d ds)
  have step: "recv_audio_step P key False d (r, j) =
      map_option (\<lambda>(out, r'). let (played, j') = play_all (concat (map (packets_of P key) out)) j in (played, (r', j'))) (feed [d] r)"
    by (auto simp: recv_audio_step_def packets_of_def Let_def split: sum.splits option.splits prod.splits)
  show ?case
    using feed_append [of "[d]" ds r]
    by (auto simp: heard_def Cons.IH [unfolded heard_def] step map_option_case play_all_append Let_def simp del: feed.simps
        split: option.splits prod.splits)
qed (simp add: heard_def)

section \<open>Streams of frames\<close>

lemma few_pieces: "n \<le> 1100 * 65535 \<Longrightarrow> div_ceil n (max DEFAULT_MAX_DGRAM_PAYLOAD 1) \<le> u16_max"
proof -
  assume n: "n \<le> 1100 * 65535"
  have m: "max DEFAULT_MAX_DGRAM_PAYLOAD 1 = 1100" by (simp add: DEFAULT_MAX_DGRAM_PAYLOAD_def)
  have "n = n div 1100 * 1100 + n mod 1100" by simp
  with n have "n mod 1100 \<noteq> 0 \<Longrightarrow> n div 1100 < 65535" and "n div 1100 \<le> 65535" by linarith+
  then show ?thesis unfolding m div_ceil_def u16_max_def by auto
qed

text \<open>Frames that arrive one after the other, each in any order: the sealed ones, in order.\<close>

lemma frames_pass:
  assumes "length sid = SESSION_ID_LEN" and "ra_wf r" and "ra_frames r = []"
    and "list_all2 (\<lambda>ds x. mset ds = (case x of None \<Rightarrow> {#} | Some (fid, w) \<Rightarrow> mset (fragment k sid fid w DEFAULT_MAX_DGRAM_PAYLOAD))) arrived xs"
    and "\<And>fid w. Some (fid, w) \<in> set xs \<Longrightarrow> length w \<le> 1100 * 65535"
  shows "\<exists>r'. feed (concat arrived) r = Some (concat (map (\<lambda>x. case x of None \<Rightarrow> [] | Some (fid, w) \<Rightarrow> [w]) xs), r') \<and>
    ra_wf r' \<and> ra_frames r' = []"
  using assms(4,2,3,5)
proof (induction arbitrary: r rule: list_all2_induct)
  case Nil
  then show ?case by simp
next
  case (Cons ds arrived x xs)
  show ?case
  proof (cases x)
    case None
    with Cons show ?thesis by auto
  next
    case (Some y)
    obtain fid w where y: "y = (fid, w)" by fastforce
    have "length w \<le> 1100 * 65535" using Cons.prems(3) Some y by auto
    with Cons.hyps(1) Some y obtain r1 where r1: "feed ds r = Some ([w], r1)" "ra_wf r1" "ra_frames r1 = []"
      using frame_passes [OF assms(1) few_pieces Cons.prems(1,2)] by (metis (no_types, lifting) case_prod_conv option.simps(5))
    from Cons.IH [OF r1(2,3)] Cons.prems(3) obtain r' where
      "feed (concat arrived) r1 = Some (concat (map (\<lambda>x. case x of None \<Rightarrow> [] | Some (fid, w) \<Rightarrow> [w]) xs), r')"
      "ra_wf r'" "ra_frames r' = []" by auto
    with r1(1) show ?thesis by (simp add: Some y feed_append)
  qed
qed

section \<open>Video\<close>

definition sealed_video :: "primitives \<Rightarrow> stream_id \<Rightarrow> 64 word \<Rightarrow> encoded_frame \<Rightarrow> bytes option" where
  "sealed_video P s seq f =
     (case seal_video_frame_to_wire P (si_key s) seq (si_session s) (si_speaker s) (video_payload f) of Inl _ \<Rightarrow> None | Inr w \<Rightarrow> Some w)"

fun sealed_videos :: "primitives \<Rightarrow> video_sender \<Rightarrow> encoded_frame list \<Rightarrow> (32 word \<times> bytes) option list" where
  "sealed_videos P v [] = []"
| "sealed_videos P v (f # fs) =
     map_option (Pair (vs_frame_id v)) (sealed_video P (vs_stream v) (vs_seq v) f) # sealed_videos P (snd (video_send P f v)) fs"

lemma video_sent: "fst (video_send_all P fs v) =
    map (\<lambda>x. case x of None \<Rightarrow> [] | Some (fid, w) \<Rightarrow> fragment Video (si_session (vs_stream v)) fid w DEFAULT_MAX_DGRAM_PAYLOAD)
      (sealed_videos P v fs)"
proof (induction fs arbitrary: v)
  case (Cons f fs)
  have "vs_stream (snd (video_send P f v)) = vs_stream v" by (simp add: video_send_def)
  note IH = Cons.IH [of "snd (video_send P f v)", unfolded this]
  from IH show ?case
    by (auto simp: video_send_def sealed_video_def build_video_datagrams_def Let_def split: prod.splits sum.splits)
qed simp

text \<open>What the receiver should show: the frames whose sealing succeeds, with their numbers.\<close>

fun shown :: "primitives \<Rightarrow> video_sender \<Rightarrow> encoded_frame list \<Rightarrow> video_out list" where
  "shown P v [] = []"
| "shown P v (f # fs) =
     (if sealed_video P (vs_stream v) (vs_seq v) f = None then []
      else [\<lparr>vo_data = ef_data f, vo_is_keyframe = ef_is_keyframe f, vo_seq = vs_seq v\<rparr>]) @ shown P (snd (video_send P f v)) fs"

definition stream_ok :: "stream_id \<Rightarrow> bool" where
  "stream_ok s \<longleftrightarrow> length (si_session s) = SESSION_ID_LEN \<and> length (si_speaker s) = 32"

lemma stream_okD: "stream_ok s \<Longrightarrow> length (si_session s) = 16 \<and> length (si_speaker s) = 32"
  by (simp add: stream_ok_def SESSION_ID_LEN_def)

lemma video_of_sealed:
  assumes "chacha_ok P" and "stream_ok s" and "sealed_video P s seq f = Some w"
  shows "video_of P (si_key s) w = [\<lparr>vo_data = ef_data f, vo_is_keyframe = ef_is_keyframe f, vo_seq = seq\<rparr>]"
proof -
  from assms(3) have "seal_video_frame_to_wire P (si_key s) seq (si_session s) (si_speaker s) (video_payload f) = Inr w"
    by (auto simp: sealed_video_def split: sum.splits)
  from video_seal_open [OF assms(1) _ _ this] stream_okD [OF assms(2)] show ?thesis
    by (simp add: video_of_def video_payload_def)
qed

lemma shown_opened:
  assumes "chacha_ok P" and "stream_ok (vs_stream v)"
  shows "concat (map (video_of P (si_key (vs_stream v))) (concat (map (\<lambda>x. case x of None \<Rightarrow> [] | Some (fid, w) \<Rightarrow> [w]) (sealed_videos P v fs)))) =
    shown P v fs"
  using assms(2)
proof (induction fs arbitrary: v)
  case (Cons f fs)
  have same: "vs_stream (snd (video_send P f v)) = vs_stream v" by (simp add: video_send_def)
  from Cons.IH [of "snd (video_send P f v)"] Cons.prems show ?case
    by (cases "sealed_video P (vs_stream v) (vs_seq v) f") (simp_all add: same video_of_sealed [OF assms(1) Cons.prems])
qed simp

lemma sealed_videos_length:
  assumes "chacha_ok P" and "stream_ok (vs_stream v)" and "Some (fid, w) \<in> set (sealed_videos P v fs)"
  shows "\<exists>f \<in> set fs. length w = length (ef_data f) + 77"
  using assms(2,3)
proof (induction fs arbitrary: v)
  case (Cons f fs)
  have same: "vs_stream (snd (video_send P f v)) = vs_stream v" by (simp add: video_send_def)
  from Cons.prems(2) consider "sealed_video P (vs_stream v) (vs_seq v) f = Some w" | "Some (fid, w) \<in> set (sealed_videos P (snd (video_send P f v)) fs)"
    by (cases "sealed_video P (vs_stream v) (vs_seq v) f") auto
  then show ?case
  proof cases
    case 1
    then have "seal_video_frame_to_wire P (si_key (vs_stream v)) (vs_seq v) (si_session (vs_stream v)) (si_speaker (vs_stream v)) (video_payload f) = Inr w"
      by (auto simp: sealed_video_def split: sum.splits)
    from wire_length(2) [OF assms(1) _ _ this] stream_okD [OF Cons.prems(1)] show ?thesis by (auto simp: video_payload_def)
  next
    case 2
    from Cons.IH [OF _ 2] Cons.prems(1) same show ?thesis by auto
  qed
qed simp

text \<open>C23: A shared screen arrives.  Whatever frames the sender of a stream is given and however the
  datagrams of each frame are permuted on the way, a receiver with the key of the stream shows, in
  order, exactly the frames whose encryption succeeded, each with its data, its keyframe mark and its
  number, and its reassembler is empty again.\<close>

theorem video_travels:
  assumes "chacha_ok P" and "stream_ok s" and "\<And>f. f \<in> set fs \<Longrightarrow> length (ef_data f) \<le> 72000000"
    and "list_all2 (\<lambda>ds sent. mset ds = mset sent) arrived (fst (video_send_all P fs (new_video_sender s)))"
  shows "\<exists>r. recv_video P (si_key s) (concat arrived) new_reassembler = Some (shown P (new_video_sender s) fs, r) \<and> ra_frames r = []"
proof -
  let ?v = "new_video_sender s"
  have v: "vs_stream ?v = s" by (simp add: new_video_sender_def)
  have "list_all2 (\<lambda>ds x. mset ds = (case x of None \<Rightarrow> {#} | Some (fid, w) \<Rightarrow> mset (fragment Video (si_session s) fid w DEFAULT_MAX_DGRAM_PAYLOAD)))
      arrived (sealed_videos P ?v fs)"
    using assms(4) by (auto simp: video_sent v list_all2_conv_all_nth split: option.splits)
  moreover have "length w \<le> 1100 * 65535" if "Some (fid, w) \<in> set (sealed_videos P ?v fs)" for fid w
    using sealed_videos_length [OF assms(1) _ that] assms(2,3) v by fastforce
  moreover have "ra_wf new_reassembler" "ra_frames new_reassembler = []"
    by (simp_all only: new_reassembler_def with_capacity_wf) (simp add: with_capacity_def)
  ultimately obtain r' where "feed (concat arrived) new_reassembler =
      Some (concat (map (\<lambda>x. case x of None \<Rightarrow> [] | Some (fid, w) \<Rightarrow> [w]) (sealed_videos P ?v fs)), r')" "ra_frames r' = []"
    using frames_pass [of "si_session s"] assms(2) unfolding stream_ok_def by metis
  with shown_opened [OF assms(1), of ?v] assms(2) show ?thesis by (simp add: recv_video_feed v)
qed

section \<open>Witness\<close>

text \<open>Primitives that keep the laws: the message with a tag of sixteen zeros.\<close>

definition plain_primitives :: primitives where
  "plain_primitives =
     \<lparr>pr_gcm_seal = \<lambda>k n m. Some (m @ replicate 16 0), pr_gcm_open = \<lambda>k n c. Some (take (length c - 16) c),
      pr_chacha_seal = \<lambda>k n m a. Some (m @ replicate 16 0), pr_chacha_open = \<lambda>k n c a. Some (take (length c - 16) c),
      pr_sha512 = \<lambda>m. replicate 64 0, pr_to_montgomery = Some, pr_x25519 = \<lambda>a b. replicate 32 0\<rparr>"

lemma plain_chacha: "chacha_ok plain_primitives"
  by (simp add: chacha_ok_def plain_primitives_def)

definition sample_stream :: stream_id where
  "sample_stream = \<lparr>si_key = [7], si_session = replicate 16 1, si_speaker = replicate 32 2\<rparr>"

lemma sample_stream_ok: "stream_ok sample_stream"
  by (simp add: stream_ok_def sample_stream_def SESSION_ID_LEN_def)

lemma sample_key: "si_key sample_stream = [7]"
  by (simp add: sample_stream_def)

definition sample_frame :: encoded_frame where
  "sample_frame = \<lparr>ef_data = [1, 2], ef_is_keyframe = True, ef_timestamp_ms = 0\<rparr>"

lemma sample_shown: "shown plain_primitives (new_video_sender sample_stream) [sample_frame] =
    [\<lparr>vo_data = [1, 2], vo_is_keyframe = True, vo_seq = 0\<rparr>]"
  by (simp add: sealed_video_def seal_video_frame_to_wire_def seal_media_frame_def plain_primitives_def new_video_sender_def
      sample_frame_def)

theorem video_travels_witness:
  "\<exists>r. recv_video plain_primitives [7] (concat (fst (video_send_all plain_primitives [sample_frame] (new_video_sender sample_stream)))) new_reassembler =
    Some ([\<lparr>vo_data = [1, 2], vo_is_keyframe = True, vo_seq = 0\<rparr>], r)"
proof -
  let ?all = "fst (video_send_all plain_primitives [sample_frame] (new_video_sender sample_stream))"
  have small: "length (ef_data f) \<le> 72000000" if "f \<in> set [sample_frame]" for f using that by (simp add: sample_frame_def)
  have "list_all2 (\<lambda>ds sent. mset ds = mset sent) ?all ?all" by (simp add: list_all2_refl)
  from video_travels [OF plain_chacha sample_stream_ok small this] obtain r where
    "recv_video plain_primitives (si_key sample_stream) (concat ?all) new_reassembler =
      Some (shown plain_primitives (new_video_sender sample_stream) [sample_frame], r)" by blast
  then show ?thesis unfolding sample_shown sample_key by blast
qed

end
