(* ===== verification/VoiceAudio.thy ===== *)
theory VoiceAudio
  imports VoiceClaims
begin

text \<open>The properties of the microphone's stream: what is heard, and what a pause costs.\<close>

section \<open>The jitter buffer, one arrival and one pop at a time\<close>

definition window_step :: "nat \<Rightarrow> bytes \<Rightarrow> window \<Rightarrow> played \<times> window" where
  "window_step q p w =
     (let (popped, w2) = spec_pop (snd (spec_insert q p w))
      in (case popped of Some x \<Rightarrow> Packet x | None \<Rightarrow> Conceal, w2))"

lemma jitter_step_window:
  assumes "jitter_wf j" and "jitter_step seq p j = (out, j')"
  shows "window_step (unat seq) p (window_of j) = (out, window_of j')" and "jitter_wf j'"
proof -
  let ?j = "snd (insert_packet seq p j)"
  from insert_refines [OF assms(1), of seq p] have i: "snd (spec_insert (unat seq) p (window_of j)) = window_of ?j" "jitter_wf ?j"
    by (simp_all add: prod_eq_iff)
  from assms(2) have o1: "out = (case fst (pop ?j) of Some x \<Rightarrow> Packet x | None \<Rightarrow> Conceal)" "j' = snd (pop ?j)"
    by (auto simp: jitter_step_def Let_def split: prod.splits)
  show "window_step (unat seq) p (window_of j) = (out, window_of j')"
    by (simp add: window_step_def i(1) pop_refines(1) [OF i(2)] o1)
  show "jitter_wf j'" using pop_refines(2) [OF i(2)] by (simp add: o1)
qed

definition playing_at :: "nat \<Rightarrow> (nat \<rightharpoonup> bytes) \<Rightarrow> window" where
  "playing_at h m = \<lparr>w_started = True, w_playing = True, w_head = h, w_packets = m\<rparr>"

text \<open>The four kinds of step: in time, after a pause, the one that follows, and running late.\<close>

lemma step_in_time: "q < u64_max \<Longrightarrow> window_step q p (playing_at q Map.empty) = (Packet p, playing_at (q + 1) Map.empty)"
  by (auto simp: window_step_def playing_at_def spec_insert_def spec_pop_def window_at_def Let_def fun_eq_iff)

lemma step_first:
  "q < u64_max \<Longrightarrow> w_packets w = Map.empty \<Longrightarrow> \<not> w_started w \<Longrightarrow> window_step q p w = (Packet p, playing_at (q + 1) Map.empty)"
  by (cases w) (auto simp: window_step_def playing_at_def spec_insert_def spec_pop_def window_at_def Let_def fun_eq_iff)

lemma step_after_pause:
  assumes "h + 4 \<le> q" and "dom m \<subseteq> {h, h + 1}" and "q < u64_max"
  shows "window_step q p (playing_at h m) = (Conceal, playing_at (q - 1) [q \<mapsto> p])"
proof -
  have out: "m i = None" if "h + 2 \<le> i" for i
    using assms(2) that by (metis domIff insertE le_add1 not_less_eq_eq add_2_eq_Suc' singletonD subsetD Suc_eq_plus1 le_refl)
  have "window_at (q - 2) m = Map.empty" using out assms(1) by (auto simp: window_at_def fun_eq_iff)
  moreover have "m q = None" "(q - 2) \<le> q" "\<not> q < h + 3" "\<not> q < h" using out assms(1) by simp_all
  ultimately show ?thesis
    using assms(1,3)
    by (auto simp: window_step_def playing_at_def spec_insert_def spec_pop_def Let_def fun_eq_iff)
qed

lemma step_second:
  assumes "2 \<le> q" and "q < u64_max"
  shows "window_step q p (playing_at (q - 2) [q - 1 \<mapsto> a]) = (Conceal, playing_at (q - 1) [q - 1 \<mapsto> a, q \<mapsto> p])"
  using assms
  by (auto simp: window_step_def playing_at_def spec_insert_def spec_pop_def window_at_def Let_def fun_eq_iff)

lemma step_late:
  assumes "2 \<le> q" and "q < u64_max"
  shows "window_step q p (playing_at (q - 2) [q - 2 \<mapsto> a, q - 1 \<mapsto> b]) = (Packet a, playing_at (q - 1) [q - 1 \<mapsto> b, q \<mapsto> p])"
  using assms
  by (auto simp: window_step_def playing_at_def spec_insert_def spec_pop_def window_at_def Let_def fun_eq_iff)

section \<open>Runs of consecutive packets\<close>

definition numbered :: "nat \<Rightarrow> bytes list \<Rightarrow> (64 word \<times> bytes) list" where
  "numbered q ps = map (\<lambda>(i, p). (word_of_nat i, p)) (enumerate q ps)"

lemma numbered_simps [simp]: "numbered q [] = []" "numbered q (p # ps) = (word_of_nat q, p) # numbered (Suc q) ps"
  by (simp_all add: numbered_def)

definition buffered :: "jitter_buffer \<Rightarrow> nat \<Rightarrow> (nat \<rightharpoonup> bytes) \<Rightarrow> bool" where
  "buffered j h m \<longleftrightarrow> jitter_wf j \<and> window_of j = playing_at h m"

lemma play_one:
  assumes "jitter_wf j" and "window_step q p (window_of j) = (out, playing_at h m)" and "q \<le> u64_max"
  obtains j' where "jitter_step (word_of_nat q) p j = (out, j')" and "buffered j' h m"
proof -
  have u: "unat (word_of_nat q :: 64 word) = q" using assms(3) by (simp add: unat_of_nat u64_max_def)
  obtain out' j' where s: "jitter_step (word_of_nat q) p j = (out', j')" by fastforce
  from jitter_step_window [OF assms(1) s] assms(2) s that show ?thesis by (auto simp: u buffered_def)
qed

lemma play_in_time:
  assumes "buffered j q Map.empty" and "q + length ps \<le> u64_max"
  shows "\<exists>j'. play_all (numbered q ps) j = (map Packet ps, j') \<and> buffered j' (q + length ps) Map.empty"
  using assms
proof (induction ps arbitrary: q j)
  case (Cons p ps)
  have "q < u64_max" using Cons.prems(2) by simp
  then obtain j1 where j1: "jitter_step (word_of_nat q) p j = (Packet p, j1)" "buffered j1 (q + 1) Map.empty"
    using Cons.prems(1) play_one [of j q p] step_in_time [of q p] unfolding buffered_def by (metis less_imp_le)
  with Cons.IH [of j1 "Suc q"] Cons.prems(2) show ?case by auto
qed simp

lemma play_from_start:
  assumes "ps \<noteq> []" and "q + length ps \<le> u64_max"
  shows "\<exists>j'. play_all (numbered q ps) new_jitter = (map Packet ps, j') \<and> buffered j' (q + length ps) Map.empty"
proof -
  obtain p qs where ps: "ps = p # qs" using assms(1) by (cases ps) auto
  have "q < u64_max" using assms(2) ps by simp
  moreover have "w_packets (window_of new_jitter) = Map.empty" "\<not> w_started (window_of new_jitter)"
    using packets_at [of new_jitter None None None 0] by (auto simp: new_jitter_def fun_eq_iff)
  ultimately obtain j1 where j1: "jitter_step (word_of_nat q) p new_jitter = (Packet p, j1)" "buffered j1 (q + 1) Map.empty"
    using play_one [OF new_jitter_wf, of q p] step_first [of q "window_of new_jitter" p] by (metis less_imp_le)
  with play_in_time [of j1 "Suc q" qs] assms(2) show ?thesis by (auto simp: ps)
qed

lemma play_late:
  assumes "buffered j (q - 2) [q - 2 \<mapsto> a, q - 1 \<mapsto> b]" and "2 \<le> q" and "q + length ps \<le> u64_max"
  shows "\<exists>j' m. play_all (numbered q ps) j = (map Packet (take (length ps) (a # b # ps)), j') \<and>
    buffered j' (q + length ps - 2) m \<and> dom m \<subseteq> {q + length ps - 2, q + length ps - 1}"
  using assms
proof (induction ps arbitrary: q j a b)
  case Nil
  have "dom [q - 2 \<mapsto> a, q - 1 \<mapsto> b] \<subseteq> {q - 2, q - 1}" by auto
  with Nil.prems(1) show ?case by (metis add.right_neutral list.map(1) list.size(3) numbered_simps(1) play_all.simps(1) take0)
next
  case (Cons p ps)
  have "q < u64_max" using Cons.prems(3) by simp
  with Cons.prems(1,2) obtain j1 where
    j1: "jitter_step (word_of_nat q) p j = (Packet a, j1)" "buffered j1 (q - 1) [q - 1 \<mapsto> b, q \<mapsto> p]"
    using play_one [of j q p] step_late [of q p a b] unfolding buffered_def by (metis less_imp_le)
  have "Suc q - 2 = q - 1" "Suc q - 1 = q" using Cons.prems(2) by simp_all
  then have "buffered j1 (Suc q - 2) [Suc q - 2 \<mapsto> b, Suc q - 1 \<mapsto> p]" using j1(2) by (simp only:)
  from Cons.IH [OF this] Cons.prems(2,3) obtain j' m where
    "play_all (numbered (Suc q) ps) j1 = (map Packet (take (length ps) (b # p # ps)), j')"
    "buffered j' (Suc q + length ps - 2) m" "dom m \<subseteq> {Suc q + length ps - 2, Suc q + length ps - 1}" by auto
  with j1(1) show ?case by (intro exI [of _ j'] exI [of _ m]) simp
qed

text \<open>A talkspurt after a pause.\<close>

lemma play_after_pause:
  assumes "buffered j h m" and "dom m \<subseteq> {h, h + 1}" and "h + 4 \<le> q" and "2 \<le> length ps" and "q + length ps \<le> u64_max"
  shows "\<exists>j' m'. play_all (numbered q ps) j = (Conceal # Conceal # map Packet (take (length ps - 2) ps), j') \<and>
    buffered j' (q + length ps - 2) m' \<and> dom m' \<subseteq> {q + length ps - 2, q + length ps - 1}"
proof -
  obtain a b rest where ps: "ps = a # b # rest" using assms(4) by (cases ps; cases "tl ps") auto
  have q: "q < u64_max" "Suc q < u64_max \<or> Suc q \<le> u64_max" "Suc q < u64_max" using assms(5) ps by simp_all
  from assms(1) play_one [of j q a] step_after_pause [OF assms(3,2) q(1), of a] q(1)
  obtain j1 where j1: "jitter_step (word_of_nat q) a j = (Conceal, j1)" "buffered j1 (q - 1) [q \<mapsto> a]"
    unfolding buffered_def by (metis less_imp_le)
  from j1(2) play_one [of j1 "Suc q" b] step_second [of "Suc q" b a] q(3) assms(3)
  obtain j2 where j2: "jitter_step (word_of_nat (Suc q)) b j1 = (Conceal, j2)" "buffered j2 q [q \<mapsto> a, Suc q \<mapsto> b]"
    unfolding buffered_def by (auto simp: numeral_2_eq_2)
  have "buffered j2 (Suc (Suc q) - 2) [Suc (Suc q) - 2 \<mapsto> a, Suc (Suc q) - 1 \<mapsto> b]" using j2(2) by simp
  from play_late [OF this] assms(5) ps obtain j' m' where
    "play_all (numbered (Suc (Suc q)) rest) j2 = (map Packet (take (length rest) (a # b # rest)), j')"
    "buffered j' (Suc (Suc q) + length rest - 2) m'" "dom m' \<subseteq> {Suc (Suc q) + length rest - 2, Suc (Suc q) + length rest - 1}"
    by fastforce
  with j1(1) j2(1) ps show ?thesis by auto
qed

text \<open>Talkspurts: each with its first number, and at least three frames of silence before it.\<close>

fun talks_apart :: "nat \<Rightarrow> (nat \<times> bytes list) list \<Rightarrow> bool" where
  "talks_apart e [] \<longleftrightarrow> True"
| "talks_apart e ((q, ps) # rest) \<longleftrightarrow> e + 3 \<le> q \<and> 2 \<le> length ps \<and> q + length ps \<le> u64_max \<and> talks_apart (q + length ps) rest"

definition spurts :: "(nat \<times> bytes list) list \<Rightarrow> (64 word \<times> bytes) list" where
  "spurts xs = concat (map (\<lambda>(q, ps). numbered q ps) xs)"

definition clipped :: "(nat \<times> bytes list) list \<Rightarrow> played list" where
  "clipped xs = concat (map (\<lambda>(q, ps). Conceal # Conceal # map Packet (take (length ps - 2) ps)) xs)"

lemma play_spurts:
  assumes "buffered j h m" and "dom m \<subseteq> {h, h + 1}" and "h \<le> e" and "talks_apart (e + 1) xs"
  shows "fst (play_all (spurts xs) j) = clipped xs"
  using assms
proof (induction xs arbitrary: j h m e)
  case (Cons x xs)
  obtain q ps where x: "x = (q, ps)" by fastforce
  from Cons.prems(3,4) x have sp: "h + 4 \<le> q" "2 \<le> length ps" "q + length ps \<le> u64_max" "talks_apart (q + length ps) xs" by auto
  obtain j' m' where j': "play_all (numbered q ps) j = (Conceal # Conceal # map Packet (take (length ps - 2) ps), j')"
    "buffered j' (q + length ps - 2) m'" "dom m' \<subseteq> {q + length ps - 2, q + length ps - 1}"
    using play_after_pause [OF Cons.prems(1,2) sp(1-3)] by blast
  have ends: "q + length ps - 2 + 1 = q + length ps - 1" "q + length ps - 1 + 1 = q + length ps" using sp(2) by simp_all
  have "fst (play_all (spurts xs) j') = clipped xs"
    using Cons.IH [OF j'(2), of "q + length ps - 1"] j'(3) sp(4) by (simp only: ends)
  with j'(1) show ?case by (simp add: x spurts_def clipped_def play_all_append Let_def split_beta)
qed (simp add: spurts_def clipped_def)

section \<open>From the microphone to the jitter buffer\<close>

definition sealed_audio :: "primitives \<Rightarrow> stream_id \<Rightarrow> 64 word \<Rightarrow> bytes option \<Rightarrow> (bytes \<times> bytes) option" where
  "sealed_audio P s seq pkt =
     (case pkt of None \<Rightarrow> None
      | Some p \<Rightarrow> (case seal_audio_packet_to_wire P (si_key s) seq (si_session s) (si_speaker s) p of
                    Inl _ \<Rightarrow> None | Inr w \<Rightarrow> Some (p, w)))"

lemma voice_transmit_eq: "voice_transmit P s pkt st =
    (case sealed_audio P s (ve_seq st) pkt of
       None \<Rightarrow> ([], st\<lparr>ve_seq := saturating_add (ve_seq st) 1\<rparr>)
     | Some (_, w) \<Rightarrow> (fragment Audio (si_session s) (ve_frame_id st) w DEFAULT_MAX_DGRAM_PAYLOAD,
                       st\<lparr>ve_seq := saturating_add (ve_seq st) 1, ve_frame_id := ve_frame_id st + 1\<rparr>))"
  by (auto simp: voice_transmit_def sealed_audio_def Let_def split: option.splits sum.splits)

lemma prepare_keeps:
  assumes "voice_prepare D i st = (sig, pkt, st1)"
  shows "ve_seq st1 = ve_seq st" and "ve_frame_id st1 = ve_frame_id st"
  using assms
  by (auto simp: voice_prepare_def detect_speaking_def Let_def split: if_splits prod.splits)

text \<open>The frames a run transmits: frame id, number, packet and sealed frame of each input that sends one.\<close>

fun transmitted :: "primitives \<Rightarrow> ('f, 'd) voice_device \<Rightarrow> stream_id \<Rightarrow> 'f voice_input list \<Rightarrow> 'd voice_state \<Rightarrow>
    (32 word \<times> 64 word \<times> bytes \<times> bytes) option list" where
  "transmitted P D s [] st = []"
| "transmitted P D s (i # is) st =
     (let (_, pkt, st1) = voice_prepare D i st
      in map_option (\<lambda>(p, w). (ve_frame_id st1, ve_seq st1, p, w)) (sealed_audio P s (ve_seq st1) pkt)
         # transmitted P D s is (snd (voice_transmit P s pkt st1)))"

definition sent :: "primitives \<Rightarrow> ('f, 'd) voice_device \<Rightarrow> stream_id \<Rightarrow> 'f voice_input list \<Rightarrow> 'd voice_state \<Rightarrow> (64 word \<times> bytes) list" where
  "sent P D s is st = concat (map (\<lambda>x. case x of None \<Rightarrow> [] | Some (fid, seq, p, w) \<Rightarrow> [(seq, p)]) (transmitted P D s is st))"

lemma voice_sent: "fst (snd (voice_send_all P D s is st)) =
    map (\<lambda>x. case x of None \<Rightarrow> [] | Some (fid, seq, p, w) \<Rightarrow> fragment Audio (si_session s) fid w DEFAULT_MAX_DGRAM_PAYLOAD)
      (transmitted P D s is st)"
proof (induction "is" arbitrary: st)
  case (Cons i "is")
  obtain sig pkt st1 where p: "voice_prepare D i st = (sig, pkt, st1)" by (metis prod_cases3)
  obtain ds st2 where t: "voice_transmit P s pkt st1 = (ds, st2)" by fastforce
  from Cons.IH [of st2] t show ?case
    by (auto simp: voice_send_def p voice_transmit_eq Let_def split: prod.splits option.splits)
qed simp

lemma transmitted_opens:
  assumes "chacha_ok P" and "stream_ok s" and "Some (fid, seq, p, w) \<in> set (transmitted P D s is st)"
  shows "packets_of P (si_key s) w = [(seq, p)]" and "length w = length p + 76"
proof -
  have "seal_audio_packet_to_wire P (si_key s) seq (si_session s) (si_speaker s) p = Inr w"
    using assms(3)
  proof (induction "is" arbitrary: st)
    case (Cons i "is")
    obtain sig pkt st1 where pr: "voice_prepare D i st = (sig, pkt, st1)" by (metis prod_cases3)
    from Cons.prems pr consider "Some (fid, seq, p, w) = map_option (\<lambda>(p, w). (ve_frame_id st1, ve_seq st1, p, w)) (sealed_audio P s (ve_seq st1) pkt)"
      | "Some (fid, seq, p, w) \<in> set (transmitted P D s is (snd (voice_transmit P s pkt st1)))" by auto
    then show ?case
    proof cases
      case 1
      then show ?thesis by (auto simp: sealed_audio_def split: option.splits sum.splits)
    next
      case 2
      then show ?thesis by (rule Cons.IH)
    qed
  qed simp
  from audio_seal_open [OF assms(1) _ _ this] wire_length(1) [OF assms(1) _ _ this] stream_okD [OF assms(2)]
  show "packets_of P (si_key s) w = [(seq, p)]" and "length w = length p + 76" by (simp_all add: packets_of_def)
qed

text \<open>The numbers: every input takes one, whether it sends or not.\<close>

lemma transmitted_numbers:
  assumes "length is + n \<le> u64_max" and "ve_seq st = word_of_nat n"
  shows "\<forall>k < length is. \<forall>fid seq p w. transmitted P D s is st ! k = Some (fid, seq, p, w) \<longrightarrow> seq = word_of_nat (n + k)"
  using assms
proof (induction "is" arbitrary: st n)
  case (Cons i "is")
  obtain sig pkt st1 where pr: "voice_prepare D i st = (sig, pkt, st1)" by (metis prod_cases3)
  have u: "unat (ve_seq st1) = n"
    using prepare_keeps [OF pr] Cons.prems by (simp add: unat_of_nat u64_max_def)
  have "ve_seq (snd (voice_transmit P s pkt st1)) = saturating_add (ve_seq st1) 1"
    by (auto simp: voice_transmit_eq split: option.splits)
  also have "\<dots> = word_of_nat (Suc n)" using Cons.prems(1) by (simp add: saturating_add_def u)
  finally have IH: "\<forall>k < length is. \<forall>fid seq p w.
      transmitted P D s is (snd (voice_transmit P s pkt st1)) ! k = Some (fid, seq, p, w) \<longrightarrow> seq = word_of_nat (Suc n + k)"
    using Cons.IH [of "Suc n" "snd (voice_transmit P s pkt st1)"] Cons.prems(1) by simp
  show ?case
  proof (intro allI impI)
    fix k fid seq p w
    assume "k < length (i # is)" and "transmitted P D s (i # is) st ! k = Some (fid, seq, p, w)"
    then show "seq = word_of_nat (n + k)"
      using IH prepare_keeps [OF pr] Cons.prems(2) pr by (cases k) auto
  qed
qed simp

lemma length_transmitted [simp]: "length (transmitted P D s is st) = length is"
  by (induction "is" arbitrary: st) (auto simp: split_beta)

text \<open>When every input sends, the packets are numbered without gaps.\<close>

lemma sent_all:
  assumes "length (concat (map (\<lambda>x. case x of None \<Rightarrow> [] | Some (fid, seq, p, w) \<Rightarrow> [(seq, p)]) xs)) = length xs"
  shows "None \<notin> set xs"
proof -
  have le: "length (concat (map (\<lambda>x. case x of None \<Rightarrow> [] | Some (fid, seq, p, w) \<Rightarrow> [(seq, p)]) xs)) \<le> length xs" for xs :: "('c \<times> 'a \<times> 'b \<times> 'd) option list"
    by (induction xs) (auto split: option.split)
  from assms show ?thesis
  proof (induction xs)
    case (Cons x xs)
    with le [of xs] show ?case by (cases x) auto
  qed simp
qed

lemma sent_numbered:
  assumes "length is + n \<le> u64_max" and "length (sent P D s is st) = length is" and "ve_seq st = word_of_nat n"
  shows "sent P D s is st = numbered n (map snd (sent P D s is st))"
proof -
  have gen: "concat (map (\<lambda>x. case x of None \<Rightarrow> [] | Some (fid, seq, p, w) \<Rightarrow> [(seq, p)]) xs) =
      numbered n (map snd (concat (map (\<lambda>x. case x of None \<Rightarrow> [] | Some (fid, seq, p, w) \<Rightarrow> [(seq, p)]) xs)))"
    if "None \<notin> set xs" and "\<forall>k < length xs. \<forall>fid seq p w. xs ! k = Some (fid, seq, p, w) \<longrightarrow> seq = word_of_nat (n + k)"
    for xs :: "(32 word \<times> 64 word \<times> bytes \<times> bytes) option list" and n
    using that
  proof (induction xs arbitrary: n)
    case (Cons x xs)
    obtain fid seq p w where x: "x = Some (fid, seq, p, w)" using Cons.prems(1) by (cases x) auto
    have "seq = word_of_nat n" using Cons.prems(2) [rule_format, of 0] x by simp
    moreover have "\<forall>k < length xs. \<forall>fid seq p w. xs ! k = Some (fid, seq, p, w) \<longrightarrow> seq = word_of_nat (Suc n + k)"
      using Cons.prems(2) by (metis add_Suc add_Suc_right length_Cons not_less_eq nth_Cons_Suc)
    ultimately show ?case using Cons.IH [of "Suc n"] Cons.prems(1) by (simp add: x)
  qed simp
  have "None \<notin> set (transmitted P D s is st)"
    using assms(2) length_transmitted [of P D s "is" st] unfolding sent_def by (intro sent_all) simp
  then show ?thesis
    unfolding sent_def using transmitted_numbers [OF assms(1,3), of P D s] by (intro gen) simp_all
qed

lemma opened_packets:
  assumes "\<And>fid seq p w. Some (fid, seq, p, w) \<in> set xs \<Longrightarrow> packets_of P key w = [(seq, p)]"
  shows "concat (map (packets_of P key) (concat (map (\<lambda>x. case x of None \<Rightarrow> [] | Some (fid, w) \<Rightarrow> [w])
      (map (map_option (\<lambda>(fid, seq, p, w). (fid, w))) xs)))) =
    concat (map (\<lambda>x. case x of None \<Rightarrow> [] | Some (fid, seq, p, w) \<Rightarrow> [(seq, p)]) xs)"
  using assms
proof (induction xs)
  case (Cons x xs)
  have IH: "concat (map (packets_of P key) (concat (map (\<lambda>x. case x of None \<Rightarrow> [] | Some (fid, w) \<Rightarrow> [w])
      (map (map_option (\<lambda>(fid, seq, p, w). (fid, w))) xs)))) =
    concat (map (\<lambda>x. case x of None \<Rightarrow> [] | Some (fid, seq, p, w) \<Rightarrow> [(seq, p)]) xs)"
    using Cons.prems by (intro Cons.IH) (meson list.set_intros(2))
  show ?case
  proof (cases x)
    case (Some y)
    obtain fid seq p w where y: "y = (fid, seq, p, w)" by (metis prod_cases4)
    from Cons.prems [of fid seq p w] IH show ?thesis by (simp add: Some y)
  qed (use IH in simp)
qed simp

text \<open>Numbers that grow with the position are distinct.\<close>

lemma numbers_distinct:
  assumes "\<forall>k < length xs. \<forall>fid seq p w. xs ! k = Some (fid, seq, p, w) \<longrightarrow> seq = word_of_nat (n + k)"
    and "n + length xs \<le> u64_max"
  shows "distinct (map fst (concat (map (\<lambda>x. case x of None \<Rightarrow> [] | Some (fid, seq, p, w) \<Rightarrow> [(seq :: 64 word, p)]) xs))) \<and>
    (\<forall>y \<in> set (concat (map (\<lambda>x. case x of None \<Rightarrow> [] | Some (fid, seq, p, w) \<Rightarrow> [(seq, p)]) xs)). n \<le> unat (fst y))"
  using assms
proof (induction xs arbitrary: n)
  case (Cons x xs)
  have "\<forall>k < length xs. \<forall>fid seq p w. xs ! k = Some (fid, seq, p, w) \<longrightarrow> seq = word_of_nat (Suc n + k)"
    using Cons.prems(1) by (metis add_Suc add_Suc_right length_Cons not_less_eq nth_Cons_Suc)
  note IH = Cons.IH [OF this]
  show ?case
  proof (cases x)
    case (Some y)
    obtain fid seq p w where y: "y = (fid, seq, p, w)" by (metis prod_cases4)
    have "seq = word_of_nat n" using Cons.prems(1) [rule_format, of 0] Some y by simp
    then have u: "unat seq = n" using Cons.prems(2) by (simp add: unat_of_nat u64_max_def)
    with IH Cons.prems(2) show ?thesis by (fastforce simp: Some y)
  qed (use IH Cons.prems(2) in fastforce)
qed simp

lemma shown_distinct:
  assumes "vs_seq v = word_of_nat n" and "n + length fs \<le> u64_max"
  shows "distinct (map vo_seq (shown P v fs)) \<and> (\<forall>y \<in> set (shown P v fs). n \<le> unat (vo_seq y))"
  using assms
proof (induction fs arbitrary: v n)
  case (Cons f fs)
  have u: "unat (vs_seq v) = n" using Cons.prems by (simp add: unat_of_nat u64_max_def)
  have "vs_seq (snd (video_send P f v)) = word_of_nat (Suc n)" using Cons.prems(1) by (simp add: video_send_def)
  from Cons.IH [OF this] Cons.prems(2)
  have d: "distinct (map vo_seq (shown P (snd (video_send P f v)) fs))" and low: "\<forall>y \<in> set (shown P (snd (video_send P f v)) fs). Suc n \<le> unat (vo_seq y)"
    by simp_all
  have "vs_seq v \<notin> vo_seq ` set (shown P (snd (video_send P f v)) fs)" using low u by fastforce
  with d low u show ?case by (auto dest: Suc_leD)
qed simp

lemma distinct_nonces:
  assumes "distinct (map f xs)"
  shows "distinct (map (\<lambda>x. media_frame_nonce sid (f x)) xs)"
  using assms by (auto simp: distinct_map inj_on_def nonce_inject)

section \<open>The properties\<close>

text \<open>C9: A voice is heard.  Whatever the microphone delivers and however the datagrams of each frame
  are permuted on the way, a receiver with the key plays what its jitter buffer makes of exactly the
  packets that were encoded and encrypted, in order and under their numbers; and when every input
  yields a packet, it plays all of them, concealing none.\<close>

theorem voice_travels:
  assumes "chacha_ok P" and "stream_ok s" and "length is < u64_max"
    and small: "\<forall>x \<in> set (sent P D s is (new_voice_state d)). length (snd x) \<le> 72000000"
    and perm: "list_all2 (\<lambda>ds sent. mset ds = mset sent) arrived (fst (snd (voice_send_all P D s is (new_voice_state d))))"
  shows "\<exists>st'. recv_audio P (si_key s) (heard (concat arrived)) (new_reassembler, new_jitter) =
      Some (fst (play_all (sent P D s is (new_voice_state d)) new_jitter), st') \<and>
    (length (sent P D s is (new_voice_state d)) = length is \<longrightarrow>
     fst (play_all (sent P D s is (new_voice_state d)) new_jitter) = map (Packet \<circ> snd) (sent P D s is (new_voice_state d)))"
proof -
  let ?st = "new_voice_state d"
  let ?xs = "map (map_option (\<lambda>(fid, seq, p, w). (fid, w))) (transmitted P D s is ?st)"
  have "list_all2 (\<lambda>ds x. mset ds = (case x of None \<Rightarrow> {#} | Some (fid, w) \<Rightarrow> mset (fragment Audio (si_session s) fid w DEFAULT_MAX_DGRAM_PAYLOAD)))
      arrived ?xs"
    using perm by (auto simp: voice_sent list_all2_conv_all_nth split: option.splits)
  moreover have "length w \<le> 1100 * 65535" if "Some (fid, w) \<in> set ?xs" for fid w
  proof -
    from that have "Some (fid, w) \<in> map_option (\<lambda>(fid, seq, p, w). (fid, w)) ` set (transmitted P D s is ?st)" by (simp only: set_map)
    then obtain y where y: "Some (fid, w) = map_option (\<lambda>(fid, seq, p, w). (fid, w)) y" "y \<in> set (transmitted P D s is ?st)" by (rule imageE)
    then obtain seq p where x: "Some (fid, seq, p, w) \<in> set (transmitted P D s is ?st)" by (cases y) auto
    then have "(seq, p) \<in> set (sent P D s is ?st)" by (force simp: sent_def)
    with small have "length p \<le> 72000000" by fastforce
    then show ?thesis using transmitted_opens(2) [OF assms(1,2) x] by simp
  qed
  moreover have "ra_wf new_reassembler" "ra_frames new_reassembler = []"
    by (simp_all only: new_reassembler_def with_capacity_wf) (simp add: with_capacity_def)
  ultimately obtain r' where fed: "feed (concat arrived) new_reassembler = Some (concat (map (\<lambda>x. case x of None \<Rightarrow> [] | Some (fid, w) \<Rightarrow> [w]) ?xs), r')"
    using frames_pass [of "si_session s"] assms(2) unfolding stream_ok_def by metis
  have opened: "concat (map (packets_of P (si_key s)) (concat (map (\<lambda>x. case x of None \<Rightarrow> [] | Some (fid, w) \<Rightarrow> [w]) ?xs))) = sent P D s is ?st"
    unfolding sent_def by (rule opened_packets) (rule transmitted_opens(1) [OF assms(1,2)])
  have "fst (play_all (sent P D s is ?st) new_jitter) = map (Packet \<circ> snd) (sent P D s is ?st)"
    if all: "length (sent P D s is ?st) = length is"
  proof (cases "is = []")
    case False
    let ?ps = "map snd (sent P D s is ?st)"
    have "sent P D s is ?st = numbered 0 ?ps" using sent_numbered [OF _ all, of 0] assms(3) by (simp add: new_voice_state_def)
    moreover have "?ps \<noteq> []" "0 + length ?ps \<le> u64_max" using False all assms(3) by auto
    ultimately show ?thesis using play_from_start [of ?ps 0] by (metis fst_conv map_map)
  qed (simp add: sent_def)
  with fed opened show ?thesis by (simp add: recv_audio_feed Let_def split_beta)
qed

text \<open>A pause cuts the speech before it.  After the first talkspurt, which is played whole, the
  receiver conceals two frames at the start of every talkspurt that a pause of at least three frames
  precedes, and never plays its last two packets, however reliably they all arrived: the buffer
  hands out one slot for each arrival, stays two behind after the jump, and drops what waits in it
  when the next talkspurt comes.\<close>

theorem pauses_cut_the_tail:
  assumes "ps \<noteq> []" and "q + length ps \<le> u64_max" and "talks_apart (q + length ps + 1) xs"
  shows "fst (play_all (numbered q ps @ spurts xs) new_jitter) = map Packet ps @ clipped xs"
proof -
  obtain j where j: "play_all (numbered q ps) new_jitter = (map Packet ps, j)" "buffered j (q + length ps) Map.empty"
    using play_from_start [OF assms(1,2)] by blast
  with play_spurts [OF j(2) _ _ assms(3)] show ?thesis by (simp add: play_all_append Let_def split_beta)
qed


section \<open>Witnesses\<close>

definition sample_device :: "(nat, unit) voice_device" where
  "sample_device = \<lparr>vd_render = \<lambda>f d. d, vd_capture = \<lambda>f d. (f, d), vd_rms = \<lambda>f. 0, vd_greater = (>), vd_encode = \<lambda>f d. (Some [9], d)\<rparr>"

definition sample_input :: "nat voice_input" where
  "sample_input = \<lparr>vi_samples = replicate 960 0, vi_aec_ref = [], vi_threshold = 1, vi_muted = False, vi_gate = GateOpen, vi_muted_later = False\<rparr>"

lemma sample_sent: "sent plain_primitives sample_device sample_stream [sample_input, sample_input] (new_voice_state ()) = [(0, [9]), (1, [9])]"
  by (simp add: sent_def voice_prepare_def sample_input_def sample_device_def OPUS_FRAME_SAMPLES_MONO_def detect_speaking_def
      new_voice_state_def gate_pass_def sealed_audio_def seal_audio_packet_to_wire_def seal_media_frame_def plain_primitives_def
      voice_transmit_def saturating_add_def u64_max_def Let_def)

theorem voice_travels_witness:
  "\<exists>st'. recv_audio plain_primitives [7]
      (heard (concat (fst (snd (voice_send_all plain_primitives sample_device sample_stream [sample_input, sample_input] (new_voice_state ()))))))
      (new_reassembler, new_jitter) = Some ([Packet [9], Packet [9]], st')"
proof -
  have "\<forall>x \<in> set (sent plain_primitives sample_device sample_stream [sample_input, sample_input] (new_voice_state ())). length (snd x) \<le> 72000000"
    and "length [sample_input, sample_input] < u64_max" by (simp_all add: sample_sent u64_max_def)
  note small = this
  let ?all = "fst (snd (voice_send_all plain_primitives sample_device sample_stream [sample_input, sample_input] (new_voice_state ())))"
  have "list_all2 (\<lambda>ds sent. mset ds = mset sent) ?all ?all" by (simp add: list_all2_refl)
  from voice_travels [OF plain_chacha sample_stream_ok small(2,1) this] obtain st' where
    "recv_audio plain_primitives (si_key sample_stream) (heard (concat ?all)) (new_reassembler, new_jitter) =
      Some (fst (play_all [(0, [9]), (1, [9])] new_jitter), st')" and
    "fst (play_all [(0, [9]), (1, [9])] new_jitter) = [Packet [9], Packet [9]]"
    unfolding sample_sent by auto
  then show ?thesis unfolding sample_key by auto
qed

theorem pauses_cut_the_tail_witness:
  "fst (play_all (numbered 0 [[1], [2]] @ spurts [(10, [[3], [4], [5]]), (20, [[6], [7]])]) new_jitter) =
    [Packet [1], Packet [2], Conceal, Conceal, Packet [3], Conceal, Conceal]"
  using pauses_cut_the_tail [of "[[1], [2]]" 0 "[(10, [[3], [4], [5]]), (20, [[6], [7]])]"]
  by (simp add: u64_max_def clipped_def)


end
