(* ===== verification/MediaStreams.thy ===== *)
theory MediaStreams
  imports MediaDatagram AccessHandlers
begin

text \<open>
  The media-stream router of the server: \<open>crates/farder-server/src/media_stream.rs\<close>, the stream
  requests of \<open>handle_request\<close> (\<open>handlers.rs\<close>), and \<open>process_inbound_voice_frame\<close> with the voice
  connections (\<open>connection.rs\<close>, \<open>relay.rs\<close>, \<open>state.rs\<close>).

  A hash map is the list of its entries, in the order of its iteration.  A new session id comes from
  the random generator and is an argument; the loop that draws another one when it is taken is the
  condition that it is not.  \<open>Instant\<close> is a number of nanoseconds.  The product of the elapsed
  seconds and the rate in \<open>f64\<close>, cut to an integer, is a parameter, \<open>f64_refill\<close>; \<open>refill_ok\<close> says that
  it does not exceed the exact product where the bucket is not full anyway.
\<close>

section \<open>Token buckets\<close>

type_synonym refill = "nat \<Rightarrow> nat \<Rightarrow> nat"

definition refill_ok :: "refill \<Rightarrow> bool" where
  "refill_ok f64_refill \<longleftrightarrow> (\<forall>ns cap. min (f64_refill ns cap) (cap div 2) * 1000000000 \<le> ns * cap)"

record token_bucket =
  tb_cap_bps :: nat
  tb_tokens :: nat
  tb_max_tokens :: nat
  tb_last_refill :: nat

definition new_bucket :: "nat \<Rightarrow> nat \<Rightarrow> token_bucket" where
  "new_bucket now cap_bps =
     (let max_tokens = cap_bps div 2
      in \<lparr>tb_cap_bps = cap_bps, tb_tokens = max_tokens, tb_max_tokens = max_tokens, tb_last_refill = now\<rparr>)"

definition refill_bucket :: "refill \<Rightarrow> nat \<Rightarrow> token_bucket \<Rightarrow> token_bucket" where
  "refill_bucket f64_refill now b =
     (let add = f64_refill (now - tb_last_refill b) (tb_cap_bps b)
      in if 0 < add then b\<lparr>tb_tokens := min (tb_tokens b + add) (tb_max_tokens b), tb_last_refill := now\<rparr> else b)"

definition try_consume :: "refill \<Rightarrow> nat \<Rightarrow> nat \<Rightarrow> token_bucket \<Rightarrow> bool \<times> token_bucket" where
  "try_consume f64_refill now frame_len b0 =
     (let b = refill_bucket f64_refill now b0
      in if frame_len \<le> tb_tokens b then (True, b\<lparr>tb_tokens := tb_tokens b - frame_len\<rparr>) else (False, b))"

section \<open>Sessions\<close>

record media_session =
  se_connection_pk :: public_key
  se_channel_id :: nat
  se_public_key :: public_key
  se_display_name :: string
  se_active_tracks :: "track_kind list"
  se_buckets :: "track_kind \<rightharpoonup> token_bucket"
  se_last_audio_frame_ms :: "nat option"
  se_last_video_frame_ms :: "nat option"
  se_last_screen_audio_frame_ms :: "nat option"

record stream_state =
  st_sessions :: "(bytes \<times> media_session) list"
  st_deafened :: "bytes list"
  st_muted :: "bytes list"

definition new_stream_state :: stream_state where
  "new_stream_state = \<lparr>st_sessions = [], st_deafened = [], st_muted = []\<rparr>"

definition audio_max_bps :: nat where "audio_max_bps = 64000"
definition video_max_bps :: nat where "video_max_bps = 8000000"

datatype drop_reason =
    UnknownSession
  | SessionConnectionMismatch
  | TrackNotEnabled
  | BandwidthCap
  | DatagramParseError

type_synonym media_map = "(nat \<times> stream_state) list"

definition track_cap :: "track_kind \<Rightarrow> nat" where
  "track_cap kind = (case kind of Audio \<Rightarrow> audio_max_bps | Video \<Rightarrow> video_max_bps | ScreenAudio \<Rightarrow> audio_max_bps)"

definition stamp_frame :: "track_kind \<Rightarrow> nat \<Rightarrow> media_session \<Rightarrow> media_session" where
  "stamp_frame kind now_ms s =
     (case kind of Audio \<Rightarrow> s\<lparr>se_last_audio_frame_ms := Some now_ms\<rparr>
      | Video \<Rightarrow> s\<lparr>se_last_video_frame_ms := Some now_ms\<rparr>
      | ScreenAudio \<Rightarrow> s\<lparr>se_last_screen_audio_frame_ms := Some now_ms\<rparr>)"

definition recipients_of :: "bytes \<Rightarrow> nat \<Rightarrow> stream_state \<Rightarrow> bytes list" where
  "recipients_of sender_session channel_id st =
     map fst (filter (\<lambda>(sid, s). sid \<noteq> sender_session \<and> se_channel_id s = channel_id \<and> sid \<notin> set (st_deafened st)) (st_sessions st))"

text \<open>\<open>on_frame_ingress\<close>: who gets the frame, or why it is dropped.\<close>

definition on_frame_ingress :: "refill \<Rightarrow> public_key \<Rightarrow> bytes \<Rightarrow> nat \<Rightarrow> nat \<Rightarrow> stream_state \<Rightarrow>
    (drop_reason + bytes list) \<times> stream_state" where
  "on_frame_ingress f64_refill sending_pk raw now now_ms st =
     (case parse raw of
        Inl _ \<Rightarrow> (Inl DatagramParseError, st)
      | Inr (header, _) \<Rightarrow>
          (let sid = oh_session_id header; kind = oh_track_kind header
           in case map_of (st_sessions st) sid of
                None \<Rightarrow> (Inl UnknownSession, st)
              | Some session \<Rightarrow>
                  if se_connection_pk session \<noteq> sending_pk then (Inl SessionConnectionMismatch, st)
                  else if kind \<notin> set (se_active_tracks session) then (Inl TrackNotEnabled, st)
                  else
                    (let bucket = (case se_buckets session kind of None \<Rightarrow> new_bucket now (track_cap kind) | Some b \<Rightarrow> b);
                         (admitted, bucket') = try_consume f64_refill now (length raw) bucket;
                         session' = session\<lparr>se_buckets := (se_buckets session)(kind \<mapsto> bucket')\<rparr>;
                         keep = (\<lambda>s. st\<lparr>st_sessions := AList.update sid s (st_sessions st)\<rparr>)
                     in if \<not> admitted then (Inl BandwidthCap, keep session')
                        else (let st' = keep (stamp_frame kind now_ms session')
                              in (Inr (recipients_of sid (se_channel_id session) st'), st')))))"

section \<open>Activity\<close>

definition ACTIVITY_TIMEOUT_MS :: nat where "ACTIVITY_TIMEOUT_MS = 300"

record activity_transition =
  at_session_id :: bytes
  at_channel_id :: nat
  at_kind :: track_kind
  at_active :: bool

definition last_frame_ms :: "track_kind \<Rightarrow> media_session \<Rightarrow> nat option" where
  "last_frame_ms kind s =
     (case kind of Audio \<Rightarrow> se_last_audio_frame_ms s | Video \<Rightarrow> se_last_video_frame_ms s
      | ScreenAudio \<Rightarrow> se_last_screen_audio_frame_ms s)"

definition track_is_active :: "nat \<Rightarrow> track_kind \<Rightarrow> media_session \<Rightarrow> bool" where
  "track_is_active now_ms kind s =
     (case last_frame_ms kind s of Some t \<Rightarrow> now_ms - t < ACTIVITY_TIMEOUT_MS | None \<Rightarrow> False)"

type_synonym activity = "(bytes \<times> track_kind) \<rightharpoonup> bool"

definition tick_track :: "activity \<Rightarrow> nat \<Rightarrow> bytes \<times> media_session \<Rightarrow> track_kind \<Rightarrow>
    activity_transition list \<times> activity \<Rightarrow> activity_transition list \<times> activity" where
  "tick_track prev now_ms entry kind acc =
     (let (sid, session) = entry; (transitions, new_active) = acc
      in if kind \<notin> set (se_active_tracks session) then acc
         else (let is_active = track_is_active now_ms kind session;
                   was_active = (case prev (sid, kind) of None \<Rightarrow> False | Some b \<Rightarrow> b)
               in (transitions @
                     (if was_active \<noteq> is_active
                      then [\<lparr>at_session_id = sid, at_channel_id = se_channel_id session, at_kind = kind, at_active = is_active\<rparr>]
                      else []),
                   new_active((sid, kind) \<mapsto> is_active))))"

definition compute_activity_transitions :: "stream_state \<Rightarrow> activity \<Rightarrow> nat \<Rightarrow> activity_transition list \<times> activity" where
  "compute_activity_transitions st prev now_ms =
     fold (\<lambda>entry. fold (tick_track prev now_ms entry) [Audio, Video, ScreenAudio]) (st_sessions st) ([], Map.empty)"

section \<open>The stream requests\<close>

datatype media_request =
    JoinStream nat
  | LeaveStream
  | EnableTrack track_kind
  | DisableTrack track_kind
  | SetDeafen bool
  | SetMute bool
  | OfferStreamKey track_kind "(public_key \<times> bytes) list"

datatype media_event =
    StreamJoined nat public_key string bytes
  | StreamLeft nat bytes
  | TrackEnabled nat bytes track_kind
  | TrackDisabled nat bytes track_kind
  | StreamStateChanged nat bytes bool bool
  | StreamKeyOffer nat public_key bytes track_kind bytes

datatype media_response = MediaOk | StreamSessionStarted bytes | NoStreamJoined

type_synonym media_broadcast = "access_target \<times> media_event"

definition add_once :: "'a \<Rightarrow> 'a list \<Rightarrow> 'a list" where
  "add_once x xs = (if x \<in> set xs then xs else xs @ [x])"

text \<open>\<open>allocate_session_id\<close>: the draw that the channel does not have yet.\<close>

definition fresh_session :: "bytes \<Rightarrow> nat \<Rightarrow> media_map \<Rightarrow> bool" where
  "fresh_session sid channel_id M \<longleftrightarrow>
     (case map_of M channel_id of None \<Rightarrow> True | Some st \<Rightarrow> sid \<notin> set (map fst (st_sessions st)))"

definition join_stream :: "public_key \<Rightarrow> string \<Rightarrow> bytes \<Rightarrow> nat \<Rightarrow> media_map \<Rightarrow> media_response \<times> media_broadcast list \<times> media_map" where
  "join_stream member display_name session_id channel_id M =
     (let st = (case map_of M channel_id of None \<Rightarrow> new_stream_state | Some st \<Rightarrow> st);
          session = \<lparr>se_connection_pk = member, se_channel_id = channel_id, se_public_key = member, se_display_name = display_name,
             se_active_tracks = [], se_buckets = Map.empty, se_last_audio_frame_ms = None, se_last_video_frame_ms = None,
             se_last_screen_audio_frame_ms = None\<rparr>
      in (StreamSessionStarted session_id, [(ToAll, StreamJoined channel_id member display_name session_id)],
          AList.update channel_id (st\<lparr>st_sessions := AList.update session_id session (st_sessions st)\<rparr>) M))"

definition own_sessions :: "public_key \<Rightarrow> stream_state \<Rightarrow> bytes list" where
  "own_sessions member st = map fst (filter (\<lambda>(_, s). se_connection_pk s = member) (st_sessions st))"

text \<open>A pass over the channels that changes each and says something about each.\<close>

definition each_channel :: "(nat \<Rightarrow> stream_state \<Rightarrow> media_broadcast list \<times> stream_state) \<Rightarrow> media_map \<Rightarrow> media_broadcast list \<times> media_map" where
  "each_channel f M = (concat (map (\<lambda>(c, st). fst (f c st)) M), map (\<lambda>(c, st). (c, snd (f c st))) M)"

definition leave_in :: "public_key \<Rightarrow> nat \<Rightarrow> stream_state \<Rightarrow> media_broadcast list \<times> stream_state" where
  "leave_in member c st =
     (let gone = own_sessions member st
      in (map (\<lambda>sid. (ToAll, StreamLeft c sid)) gone,
          \<lparr>st_sessions = filter (\<lambda>(sid, _). sid \<notin> set gone) (st_sessions st),
           st_deafened = filter (\<lambda>sid. sid \<notin> set gone) (st_deafened st),
           st_muted = filter (\<lambda>sid. sid \<notin> set gone) (st_muted st)\<rparr>))"

definition enable_in :: "public_key \<Rightarrow> track_kind \<Rightarrow> nat \<Rightarrow> stream_state \<Rightarrow> media_broadcast list \<times> stream_state" where
  "enable_in member kind c st =
     (map (\<lambda>sid. (ToAll, TrackEnabled c sid kind)) (own_sessions member st),
      st\<lparr>st_sessions := map (\<lambda>(sid, s). (sid, if se_connection_pk s = member
            then s\<lparr>se_active_tracks := add_once kind (se_active_tracks s)\<rparr> else s)) (st_sessions st)\<rparr>)"

definition disable_in :: "public_key \<Rightarrow> track_kind \<Rightarrow> nat \<Rightarrow> stream_state \<Rightarrow> media_broadcast list \<times> stream_state" where
  "disable_in member kind c st =
     (map (\<lambda>sid. (ToAll, TrackDisabled c sid kind)) (own_sessions member st),
      st\<lparr>st_sessions := map (\<lambda>(sid, s). (sid, if se_connection_pk s = member
            then s\<lparr>se_active_tracks := filter (\<lambda>k. k \<noteq> kind) (se_active_tracks s)\<rparr> else s)) (st_sessions st)\<rparr>)"

text \<open>Setting a flag for every own session, and what it says of the other flag.\<close>

definition flag_in :: "bytes list \<Rightarrow> bool \<Rightarrow> bytes list \<Rightarrow> bytes list" where
  "flag_in sids on flags =
     fold (\<lambda>sid fl. if on then add_once sid fl else filter (\<lambda>x. x \<noteq> sid) fl) sids flags"

definition deafen_in :: "public_key \<Rightarrow> bool \<Rightarrow> nat \<Rightarrow> stream_state \<Rightarrow> media_broadcast list \<times> stream_state" where
  "deafen_in member deafened c st =
     (let own = own_sessions member st
      in (map (\<lambda>sid. (ToAll, StreamStateChanged c sid (sid \<in> set (st_muted st)) deafened)) own,
          st\<lparr>st_deafened := flag_in own deafened (st_deafened st)\<rparr>))"

definition mute_in :: "public_key \<Rightarrow> bool \<Rightarrow> nat \<Rightarrow> stream_state \<Rightarrow> media_broadcast list \<times> stream_state" where
  "mute_in member muted c st =
     (let own = own_sessions member st
      in (map (\<lambda>sid. (ToAll, StreamStateChanged c sid muted (sid \<in> set (st_deafened st)))) own,
          st\<lparr>st_muted := flag_in own muted (st_muted st)\<rparr>))"

text \<open>\<open>OfferStreamKey\<close>: under the first session the sender has.\<close>

definition first_session :: "public_key \<Rightarrow> media_map \<Rightarrow> (nat \<times> bytes) option" where
  "first_session member M =
     map_option (\<lambda>(c, st). (c, hd (own_sessions member st))) (find (\<lambda>(c, st). own_sessions member st \<noteq> []) M)"

definition offer_stream_key :: "public_key \<Rightarrow> track_kind \<Rightarrow> (public_key \<times> bytes) list \<Rightarrow> media_map \<Rightarrow>
    media_response \<times> media_broadcast list" where
  "offer_stream_key member kind wrapped_keys M =
     (case first_session member M of
        None \<Rightarrow> (NoStreamJoined, [])
      | Some (channel_id, session_id) \<Rightarrow>
          (MediaOk, map (\<lambda>(peer_pk, wrapped). (ToMembers [peer_pk], StreamKeyOffer channel_id member session_id kind wrapped)) wrapped_keys))"

definition handle_media :: "public_key \<Rightarrow> string \<Rightarrow> bytes \<Rightarrow> media_request \<Rightarrow> media_map \<Rightarrow>
    media_response \<times> media_broadcast list \<times> media_map" where
  "handle_media member display_name drawn request M =
     (case request of
        JoinStream channel_id \<Rightarrow> join_stream member display_name drawn channel_id M
      | LeaveStream \<Rightarrow> (MediaOk, each_channel (leave_in member) M)
      | EnableTrack kind \<Rightarrow> (MediaOk, each_channel (enable_in member kind) M)
      | DisableTrack kind \<Rightarrow> (MediaOk, each_channel (disable_in member kind) M)
      | SetDeafen deafened \<Rightarrow> (MediaOk, each_channel (deafen_in member deafened) M)
      | SetMute muted \<Rightarrow> (MediaOk, each_channel (mute_in member muted) M)
      | OfferStreamKey kind wrapped_keys \<Rightarrow>
          (let (response, events) = offer_stream_key member kind wrapped_keys M in (response, events, M)))"

section \<open>Frames through the server\<close>

text \<open>
  The voice connections: the sink of each member, here a number; a connection registers its sink
  and removes whatever is registered when it ends.
\<close>

datatype voice_sink = Direct nat | Relayed nat "32 word"

type_synonym voice_connections = "public_key \<rightharpoonup> voice_sink"

definition sink_datagram :: "voice_sink \<Rightarrow> bytes \<Rightarrow> nat \<times> bytes" where
  "sink_datagram sink frame =
     (case sink of Direct conn \<Rightarrow> (conn, frame) | Relayed relay handle \<Rightarrow> (relay, be_bytes 4 (unat handle) @ frame))"

record media_server =
  ms_channels :: media_map
  ms_voice :: voice_connections

definition channel_of_session :: "bytes \<Rightarrow> media_map \<Rightarrow> nat option" where
  "channel_of_session sid M = map_option fst (find (\<lambda>(c, st). sid \<in> set (map fst (st_sessions st))) M)"

text \<open>\<open>process_inbound_voice_frame\<close>: the members it is sent to, each with the sink.\<close>

definition process_inbound_voice_frame :: "refill \<Rightarrow> public_key \<Rightarrow> bytes \<Rightarrow> nat \<Rightarrow> nat \<Rightarrow> media_server \<Rightarrow>
    (public_key \<times> voice_sink) list \<times> media_server" where
  "process_inbound_voice_frame f64_refill sending_pk raw now now_ms M =
     (case (case parse raw of Inl _ \<Rightarrow> None | Inr (header, _) \<Rightarrow> channel_of_session (oh_session_id header) (ms_channels M)) of
        None \<Rightarrow> ([], M)
      | Some channel_id \<Rightarrow>
          (case map_of (ms_channels M) channel_id of
             None \<Rightarrow> ([], M)
           | Some st \<Rightarrow>
               (let (decision, st') = on_frame_ingress f64_refill sending_pk raw now now_ms st;
                    M' = M\<lparr>ms_channels := AList.update channel_id st' (ms_channels M)\<rparr>
                in case decision of
                     Inl _ \<Rightarrow> ([], M')
                   | Inr recipients \<Rightarrow>
                       (concat (map (\<lambda>sid.
                          case map_of (st_sessions st') sid of
                            None \<Rightarrow> []
                          | Some session \<Rightarrow>
                              (case ms_voice M (se_connection_pk session) of
                                 None \<Rightarrow> [] | Some sink \<Rightarrow> [(se_connection_pk session, sink)])) recipients), M'))))"

end
