(* ===== verification/MediaStreamClaims.thy ===== *)
theory MediaStreamClaims
  imports MediaStreams
begin

text \<open>
  The server's media router over whole runs: who is sent a frame, and how much of it.  A run is a
  sequence of requests, frames, connections and disconnections; its history is kept with the latest
  step first.
\<close>

section \<open>Runs\<close>

datatype media_step =
    Request public_key string bytes media_request
  | Frame public_key bytes nat nat
  | VoiceConnected public_key voice_sink
  | VoiceGone public_key

definition media_step_allowed :: "media_step \<Rightarrow> media_server \<Rightarrow> bool" where
  "media_step_allowed step M =
     (case step of Request _ _ drawn (JoinStream c) \<Rightarrow> fresh_session drawn c (ms_channels M) | _ \<Rightarrow> True)"

definition run_media_step :: "refill \<Rightarrow> media_step \<Rightarrow> media_server \<Rightarrow> media_server" where
  "run_media_step f step M =
     (case step of
        Request member name drawn request \<Rightarrow> M\<lparr>ms_channels := snd (snd (handle_media member name drawn request (ms_channels M)))\<rparr>
      | Frame pk raw now now_ms \<Rightarrow> snd (process_inbound_voice_frame f pk raw now now_ms M)
      | VoiceConnected pk sink \<Rightarrow> M\<lparr>ms_voice := (ms_voice M)(pk \<mapsto> sink)\<rparr>
      | VoiceGone pk \<Rightarrow> M\<lparr>ms_voice := (ms_voice M)(pk := None)\<rparr>)"

inductive media_reaches :: "refill \<Rightarrow> media_step list \<Rightarrow> media_server \<Rightarrow> bool" for f where
  start: "media_reaches f [] \<lparr>ms_channels = [], ms_voice = Map.empty\<rparr>"
| step: "media_reaches f hist M \<Longrightarrow> media_step_allowed step M \<Longrightarrow> media_reaches f (step # hist) (run_media_step f step M)"

section \<open>What the history says of a member\<close>

fun in_stream :: "public_key \<Rightarrow> nat \<Rightarrow> media_step list \<Rightarrow> bool" where
  "in_stream pk c [] = False"
| "in_stream pk c (Request m n d (JoinStream c') # hist) = ((m = pk \<and> c' = c) \<or> in_stream pk c hist)"
| "in_stream pk c (Request m n d LeaveStream # hist) = (m \<noteq> pk \<and> in_stream pk c hist)"
| "in_stream pk c (_ # hist) = in_stream pk c hist"

fun track_on :: "public_key \<Rightarrow> track_kind \<Rightarrow> media_step list \<Rightarrow> bool" where
  "track_on pk k [] = False"
| "track_on pk k (Request m n d (EnableTrack k') # hist) = ((m = pk \<and> k' = k) \<or> track_on pk k hist)"
| "track_on pk k (Request m n d (DisableTrack k') # hist) = (\<not> (m = pk \<and> k' = k) \<and> track_on pk k hist)"
| "track_on pk k (_ # hist) = track_on pk k hist"

fun is_deaf :: "public_key \<Rightarrow> media_step list \<Rightarrow> bool" where
  "is_deaf pk [] = False"
| "is_deaf pk (Request m n d (SetDeafen on) # hist) = (if m = pk then on else is_deaf pk hist)"
| "is_deaf pk (Request m n d (JoinStream c) # hist) = (m \<noteq> pk \<and> is_deaf pk hist)"
| "is_deaf pk (_ # hist) = is_deaf pk hist"

section \<open>The invariant\<close>

definition session_fits :: "media_step list \<Rightarrow> nat \<Rightarrow> stream_state \<Rightarrow> bytes \<Rightarrow> media_session \<Rightarrow> bool" where
  "session_fits hist c st sid s \<longleftrightarrow>
     se_channel_id s = c \<and> in_stream (se_connection_pk s) c hist \<and>
     (\<forall>k \<in> set (se_active_tracks s). track_on (se_connection_pk s) k hist) \<and>
     (is_deaf (se_connection_pk s) hist \<longrightarrow> sid \<in> set (st_deafened st))"

definition channel_fits :: "media_step list \<Rightarrow> nat \<Rightarrow> stream_state \<Rightarrow> bool" where
  "channel_fits hist c st \<longleftrightarrow> distinct (map fst (st_sessions st)) \<and> (\<forall>sid s. (sid, s) \<in> set (st_sessions st) \<longrightarrow> session_fits hist c st sid s)"

definition streams_fit :: "media_step list \<Rightarrow> media_map \<Rightarrow> bool" where
  "streams_fit hist M \<longleftrightarrow> (\<forall>c st. (c, st) \<in> set M \<longrightarrow> channel_fits hist c st)"

lemma set_update_sub: "set (AList.update k v al) \<subseteq> insert (k, v) (set al)"
  by (induction al) auto

lemma streams_fit_update:
  assumes "streams_fit hist M" and "channel_fits hist c st"
  shows "streams_fit hist (AList.update c st M)"
  using assms set_update_sub [of c st M] by (fastforce simp: streams_fit_def)

lemma streams_fit_lookup: "streams_fit hist M \<Longrightarrow> map_of M c = Some st \<Longrightarrow> channel_fits hist c st"
  by (auto simp: streams_fit_def dest: map_of_SomeD)

lemma channel_fits_update:
  assumes "channel_fits hist c st" and "session_fits hist c st sid s"
  shows "channel_fits hist c (st\<lparr>st_sessions := AList.update sid s (st_sessions st)\<rparr>)"
  using assms set_update_sub [of sid s "st_sessions st"]
  by (fastforce simp: channel_fits_def session_fits_def distinct_update)

text \<open>A frame changes no channel, owner or track.\<close>

lemma stamp_keeps [simp]:
  "se_channel_id (stamp_frame k n s) = se_channel_id s" "se_connection_pk (stamp_frame k n s) = se_connection_pk s"
  "se_active_tracks (stamp_frame k n s) = se_active_tracks s" "se_buckets (stamp_frame k n s) = se_buckets s"
  by (cases k; simp add: stamp_frame_def)+

lemma ingress_fits:
  assumes "channel_fits hist c st" and "on_frame_ingress f pk raw now ms st = (d, st')"
  shows "channel_fits hist c st'"
proof -
  have upd: "channel_fits hist c (st\<lparr>st_sessions := AList.update sid s' (st_sessions st)\<rparr>)"
    if "map_of (st_sessions st) sid = Some s" and "se_channel_id s' = se_channel_id s" and "se_connection_pk s' = se_connection_pk s"
      and "se_active_tracks s' = se_active_tracks s" for sid s s'
  proof (rule channel_fits_update [OF assms(1)])
    have "(sid, s) \<in> set (st_sessions st)" using that(1) by (rule map_of_SomeD)
    with assms(1) have "session_fits hist c st sid s" by (auto simp: channel_fits_def)
    then show "session_fits hist c st sid s'" by (simp add: session_fits_def that)
  qed
  from assms show ?thesis
    by (auto simp: on_frame_ingress_def Let_def intro!: upd split: sum.splits prod.splits option.splits if_splits)
qed

text \<open>The history moves on: what a step that concerns nobody's streams leaves.\<close>

definition quiet_media :: "media_step \<Rightarrow> bool" where
  "quiet_media step \<longleftrightarrow> (\<forall>m n d r. step = Request m n d r \<longrightarrow> (\<exists>b. r = SetMute b) \<or> (\<exists>k ws. r = OfferStreamKey k ws))"

lemma quiet_history:
  assumes "quiet_media step"
  shows "in_stream pk c (step # hist) = in_stream pk c hist" and "track_on pk k (step # hist) = track_on pk k hist"
    and "is_deaf pk (step # hist) = is_deaf pk hist"
  using assms by (auto simp: quiet_media_def split: media_step.splits elim!: media_step.exhaust) (cases step; auto)+

lemma quiet_fits: "quiet_media step \<Longrightarrow> streams_fit (step # hist) M = streams_fit hist M"
  by (simp add: streams_fit_def channel_fits_def session_fits_def quiet_history)

lemma each_channel_fits:
  assumes "streams_fit hist M" and "\<And>c st. channel_fits hist c st \<Longrightarrow> channel_fits hist' c (snd (f c st))"
  shows "streams_fit hist' (snd (each_channel f M))"
  using assms by (auto simp: streams_fit_def each_channel_def)

lemma set_flag_in: "set (flag_in sids on flags) = (if on then set sids \<union> set flags else set flags - set sids)"
proof (induction sids arbitrary: flags)
  case (Cons x xs)
  then show ?case by (auto simp: flag_in_def add_once_def)
qed (simp add: flag_in_def)

lemma own_sessions_iff: "sid \<in> set (own_sessions m st) \<longleftrightarrow> (\<exists>s. (sid, s) \<in> set (st_sessions st) \<and> se_connection_pk s = m)"
  by (force simp: own_sessions_def)

lemma leave_fits:
  assumes "channel_fits hist c st"
  shows "channel_fits (Request m n d LeaveStream # hist) c (snd (leave_in m c st))"
  using assms by (auto simp: channel_fits_def session_fits_def leave_in_def Let_def own_sessions_iff distinct_map_filter)

lemma enable_fits:
  assumes "channel_fits hist c st"
  shows "channel_fits (Request m n d (EnableTrack k) # hist) c (snd (enable_in m k c st))"
  using assms by (auto simp: channel_fits_def session_fits_def comp_def split_beta' enable_in_def Let_def add_once_def split: if_splits)

lemma disable_fits:
  assumes "channel_fits hist c st"
  shows "channel_fits (Request m n d (DisableTrack k) # hist) c (snd (disable_in m k c st))"
  using assms by (auto simp: channel_fits_def session_fits_def comp_def split_beta' disable_in_def Let_def split: if_splits)

lemma deafen_fits:
  assumes "channel_fits hist c st"
  shows "channel_fits (Request m n d (SetDeafen on) # hist) c (snd (deafen_in m on c st))"
  using assms by (auto simp: channel_fits_def session_fits_def deafen_in_def Let_def set_flag_in own_sessions_iff dest: eq_key_imp_eq_value)

lemma mute_fits:
  assumes "channel_fits hist c st"
  shows "channel_fits hist c (snd (mute_in m on c st))"
  using assms by (auto simp: channel_fits_def session_fits_def mute_in_def Let_def)

lemma join_history:
  assumes "channel_fits hist c st"
  shows "channel_fits (Request m n d (JoinStream c') # hist) c st"
  using assms by (auto simp: channel_fits_def session_fits_def)

lemma join_fits:
  assumes "streams_fit hist M"
  shows "streams_fit (Request m n d (JoinStream c) # hist) (snd (snd (join_stream m n d c M)))"
proof -
  let ?h = "Request m n d (JoinStream c) # hist"
  define st where "st = (case map_of M c of None \<Rightarrow> new_stream_state | Some st \<Rightarrow> st)"
  have M: "streams_fit ?h M" using assms join_history by (fastforce simp: streams_fit_def)
  have "channel_fits ?h c st"
    using streams_fit_lookup [OF M] by (auto simp: st_def channel_fits_def new_stream_state_def split: option.splits)
  then have "channel_fits ?h c (st\<lparr>st_sessions := AList.update d s (st_sessions st)\<rparr>)"
    if "se_channel_id s = c" "se_connection_pk s = m" "se_active_tracks s = []" for s
    using that by (intro channel_fits_update) (auto simp: session_fits_def)
  from streams_fit_update [OF M this] show ?thesis by (simp add: join_stream_def st_def Let_def)
qed

lemma process_channels: "ms_channels (snd (process_inbound_voice_frame f pk raw now ms M)) =
    (case (case parse raw of Inl _ \<Rightarrow> None | Inr (h, _) \<Rightarrow> channel_of_session (oh_session_id h) (ms_channels M)) of
       None \<Rightarrow> ms_channels M
     | Some c \<Rightarrow> (case map_of (ms_channels M) c of None \<Rightarrow> ms_channels M
         | Some st \<Rightarrow> AList.update c (snd (on_frame_ingress f pk raw now ms st)) (ms_channels M)))"
  by (auto simp: process_inbound_voice_frame_def Let_def split: option.splits prod.splits sum.splits)

lemma step_fits:
  assumes IH: "streams_fit hist (ms_channels M)"
  shows "streams_fit (step # hist) (ms_channels (run_media_step f step M))"
proof (cases step)
  case (Request m n d r)
  have M: "ms_channels (run_media_step f step M) = snd (snd (handle_media m n d r (ms_channels M)))"
    by (simp add: run_media_step_def Request)
  show ?thesis
  proof (cases r)
    case (OfferStreamKey k ws)
    have "quiet_media step" by (simp add: quiet_media_def Request OfferStreamKey)
    with IH show ?thesis by (simp add: quiet_fits M handle_media_def OfferStreamKey split: prod.split)
  next
    case (SetMute b)
    have "quiet_media step" by (simp add: quiet_media_def Request SetMute)
    with IH show ?thesis
      by (simp add: quiet_fits M handle_media_def SetMute each_channel_fits [OF _ mute_fits])
  qed (unfold M handle_media_def, simp_all add: Request join_fits [OF IH] each_channel_fits [OF IH] leave_fits enable_fits disable_fits deafen_fits)
next
  case (Frame pk raw now ms)
  have "quiet_media step" by (simp add: quiet_media_def Frame)
  moreover have "streams_fit hist (ms_channels (run_media_step f step M))"
    using IH streams_fit_lookup [OF IH]
    by (auto simp: run_media_step_def Frame process_channels split: option.splits
        intro!: streams_fit_update intro: ingress_fits [OF _ prod.collapse [symmetric]])
  ultimately show ?thesis by (simp add: quiet_fits)
next
  case (VoiceConnected pk sink)
  have "quiet_media step" by (simp add: quiet_media_def VoiceConnected)
  with IH show ?thesis by (simp add: quiet_fits run_media_step_def VoiceConnected)
next
  case (VoiceGone pk)
  have "quiet_media step" by (simp add: quiet_media_def VoiceGone)
  with IH show ?thesis by (simp add: quiet_fits run_media_step_def VoiceGone)
qed

lemma reaches_fits: "media_reaches f hist M \<Longrightarrow> streams_fit hist (ms_channels M)"
proof (induction rule: media_reaches.induct)
  case start
  then show ?case by (simp add: streams_fit_def)
next
  case (step hist M step)
  then show ?case by (intro step_fits)
qed

text \<open>C8: Media stays in its channel.  However requests, frames, connections and disconnections follow
  each other, a frame that the server sends on came from a member who has joined the stream of some
  channel, has not left and has the frame's track switched on, and it goes to the registered
  connection of a member who has joined the stream of the same channel, has not left, and has not
  deafened itself since.\<close>

theorem media_stays_in_its_channel:
  assumes "media_reaches f hist M"
    and "(pk, sink) \<in> set (fst (process_inbound_voice_frame f sender raw now now_ms M))"
  shows "\<exists>h payload c. parse raw = Inr (h, payload) \<and> in_stream sender c hist \<and> track_on sender (oh_track_kind h) hist \<and>
    in_stream pk c hist \<and> \<not> is_deaf pk hist \<and> ms_voice M pk = Some sink"
proof -
  from assms(2) obtain h payload c st rs st' sid r where
    p: "parse raw = Inr (h, payload)" and st: "map_of (ms_channels M) c = Some st"
    and ing: "on_frame_ingress f sender raw now now_ms st = (Inr rs, st')" and sid: "sid \<in> set rs"
    and r: "map_of (st_sessions st') sid = Some r" "se_connection_pk r = pk" "ms_voice M pk = Some sink"
    by (auto simp: process_inbound_voice_frame_def Let_def split: sum.splits option.splits prod.splits) (metis)
  have fits: "channel_fits hist c st" by (rule streams_fit_lookup [OF reaches_fits [OF assms(1)] st])
  from ing p obtain s where s: "map_of (st_sessions st) (oh_session_id h) = Some s" "se_connection_pk s = sender"
    "oh_track_kind h \<in> set (se_active_tracks s)" and rs: "rs = recipients_of (oh_session_id h) (se_channel_id s) st'"
    by (auto simp: on_frame_ingress_def Let_def split: option.splits if_splits prod.splits)
  have deaf: "st_deafened st' = st_deafened st"
    using ing p by (auto simp: on_frame_ingress_def Let_def split: option.splits if_splits prod.splits)
  have "session_fits hist c st (oh_session_id h) s" using fits s(1) by (auto simp: channel_fits_def dest: map_of_SomeD)
  moreover have "session_fits hist c st' sid r"
    using ingress_fits [OF fits ing] r(1) by (auto simp: channel_fits_def dest: map_of_SomeD)
  moreover have "sid \<notin> set (st_deafened st')" using sid by (auto simp: rs recipients_of_def)
  ultimately show ?thesis using s r p by (auto simp: session_fits_def)
qed

section \<open>Bandwidth\<close>

text \<open>One bucket: what it has let through and what it holds are covered by its size and its rate.\<close>

definition bucket_covers :: "nat \<Rightarrow> nat \<Rightarrow> nat \<Rightarrow> token_bucket \<Rightarrow> bool" where
  "bucket_covers cap t0 spent b \<longleftrightarrow>
     tb_cap_bps b = cap \<and> tb_max_tokens b = cap div 2 \<and> t0 \<le> tb_last_refill b \<and>
     (tb_tokens b + spent) * 1000000000 \<le> (cap div 2) * 1000000000 + cap * (tb_last_refill b - t0)"

lemma new_bucket_covers: "t0 \<le> now \<Longrightarrow> bucket_covers cap t0 0 (new_bucket now cap)"
  by (simp add: bucket_covers_def new_bucket_def Let_def)

lemma refill_covers:
  assumes "refill_ok f" and "bucket_covers cap t0 spent b" and "tb_last_refill b \<le> now"
  shows "bucket_covers cap t0 spent (refill_bucket f now b)" and "tb_last_refill (refill_bucket f now b) \<le> now"
proof -
  let ?add = "f (now - tb_last_refill b) (tb_cap_bps b)"
  from assms(2) have b: "tb_cap_bps b = cap" "tb_max_tokens b = cap div 2" "t0 \<le> tb_last_refill b"
    and c: "(tb_tokens b + spent) * 1000000000 \<le> (cap div 2) * 1000000000 + cap * (tb_last_refill b - t0)"
    by (simp_all add: bucket_covers_def)
  have "min ?add (cap div 2) * 1000000000 \<le> (now - tb_last_refill b) * cap"
    using assms(1) by (simp add: refill_ok_def b)
  moreover have "min (tb_tokens b + ?add) (cap div 2) \<le> tb_tokens b + min ?add (cap div 2)" by simp
  then have "(min (tb_tokens b + ?add) (cap div 2) + spent) * 1000000000 \<le> (tb_tokens b + spent + min ?add (cap div 2)) * 1000000000"
    by (intro mult_le_mono1) linarith
  ultimately have "(min (tb_tokens b + ?add) (cap div 2) + spent) * 1000000000
      \<le> (tb_tokens b + spent) * 1000000000 + (now - tb_last_refill b) * cap" by (simp add: distrib_right)
  also have "\<dots> \<le> (cap div 2) * 1000000000 + cap * (tb_last_refill b - t0) + (now - tb_last_refill b) * cap" using c by linarith
  also have "\<dots> = (cap div 2) * 1000000000 + cap * (now - t0)"
  proof -
    have "now - t0 = (tb_last_refill b - t0) + (now - tb_last_refill b)" using b(3) assms(3) by simp
    then show ?thesis by (simp only: distrib_left) (simp add: mult.commute)
  qed
  finally have "(min (tb_tokens b + ?add) (cap div 2) + spent) * 1000000000 \<le> (cap div 2) * 1000000000 + cap * (now - t0)" .
  then show "bucket_covers cap t0 spent (refill_bucket f now b)"
    using assms(2,3) b by (simp add: refill_bucket_def bucket_covers_def Let_def)
  show "tb_last_refill (refill_bucket f now b) \<le> now" using assms(3) by (simp add: refill_bucket_def Let_def)
qed

lemma consume_covers:
  assumes "refill_ok f" and "bucket_covers cap t0 spent b" and "tb_last_refill b \<le> now" and "try_consume f now n b = (ok, b')"
  shows "bucket_covers cap t0 (spent + (if ok then n else 0)) b' \<and> tb_last_refill b' \<le> now"
  using refill_covers [OF assms(1-3)] assms(4)
  by (auto simp: try_consume_def Let_def bucket_covers_def split: if_splits)

text \<open>The bytes of a session's track that a run has sent on, from the moment the session is there.\<close>

definition forwards :: "refill \<Rightarrow> bytes \<Rightarrow> track_kind \<Rightarrow> media_step \<Rightarrow> media_server \<Rightarrow> bool" where
  "forwards f sid kind step M =
     (case step of Frame pk raw now now_ms \<Rightarrow>
        (case parse raw of Inl _ \<Rightarrow> False
         | Inr (h, _) \<Rightarrow> oh_session_id h = sid \<and> oh_track_kind h = kind \<and>
             (case channel_of_session sid (ms_channels M) of None \<Rightarrow> False
              | Some c \<Rightarrow> (case map_of (ms_channels M) c of None \<Rightarrow> False
                  | Some st \<Rightarrow> \<not> isl (fst (on_frame_ingress f pk raw now now_ms st)))))
      | _ \<Rightarrow> False)"

definition step_bytes :: "media_step \<Rightarrow> nat" where
  "step_bytes step = (case step of Frame pk raw now now_ms \<Rightarrow> length raw | _ \<Rightarrow> 0)"

fun run_media :: "refill \<Rightarrow> media_step list \<Rightarrow> media_server \<Rightarrow> media_server" where
  "run_media f [] M = M"
| "run_media f (step # steps) M = run_media f steps (run_media_step f step M)"

fun forwarded :: "refill \<Rightarrow> bytes \<Rightarrow> track_kind \<Rightarrow> media_step list \<Rightarrow> media_server \<Rightarrow> nat" where
  "forwarded f sid kind [] M = 0"
| "forwarded f sid kind (step # steps) M =
     (if forwards f sid kind step M then step_bytes step else 0) + forwarded f sid kind steps (run_media_step f step M)"

text \<open>The clock of a run does not run backward.\<close>

fun clock_runs :: "nat \<Rightarrow> nat \<Rightarrow> media_step list \<Rightarrow> bool" where
  "clock_runs t0 t1 [] \<longleftrightarrow> t0 \<le> t1"
| "clock_runs t0 t1 (Frame pk raw now now_ms # steps) \<longleftrightarrow> t0 \<le> now \<and> clock_runs now t1 steps"
| "clock_runs t0 t1 (_ # steps) \<longleftrightarrow> clock_runs t0 t1 steps"

definition track_within :: "bytes \<Rightarrow> track_kind \<Rightarrow> nat \<Rightarrow> nat \<Rightarrow> nat \<Rightarrow> nat \<Rightarrow> media_map \<Rightarrow> bool" where
  "track_within sid kind c t0 t spent M \<longleftrightarrow>
     spent * 1000000000 \<le> (track_cap kind div 2) * 1000000000 + track_cap kind * (t - t0) \<and>
     (\<forall>c' st s. (c', st) \<in> set M \<longrightarrow> (sid, s) \<in> set (st_sessions st) \<longrightarrow> c' = c \<and>
        (case se_buckets s kind of None \<Rightarrow> spent = 0
         | Some b \<Rightarrow> bucket_covers (track_cap kind) t0 spent b \<and> tb_last_refill b \<le> t))"

text \<open>A step that leaves the session's bucket alone.\<close>

definition same_buckets :: "bytes \<Rightarrow> track_kind \<Rightarrow> media_map \<Rightarrow> media_map \<Rightarrow> bool" where
  "same_buckets sid kind M M' \<longleftrightarrow>
     (\<forall>c st' s'. (c, st') \<in> set M' \<longrightarrow> (sid, s') \<in> set (st_sessions st') \<longrightarrow>
        (\<exists>st s. (c, st) \<in> set M \<and> (sid, s) \<in> set (st_sessions st) \<and> se_buckets s' kind = se_buckets s kind))"

lemma same_buckets_refl: "same_buckets sid kind M M"
  by (auto simp: same_buckets_def)

lemma same_buckets_within:
  assumes "same_buckets sid kind M M'" and "track_within sid kind c t0 t spent M"
  shows "track_within sid kind c t0 t spent M'"
  unfolding track_within_def
proof (intro conjI allI impI)
  show "spent * 1000000000 \<le> (track_cap kind div 2) * 1000000000 + track_cap kind * (t - t0)"
    using assms(2) by (simp add: track_within_def)
next
  fix c' st' s'
  assume in': "(c', st') \<in> set M'" "(sid, s') \<in> set (st_sessions st')"
  then obtain st s where "(c', st) \<in> set M" "(sid, s) \<in> set (st_sessions st)" "se_buckets s' kind = se_buckets s kind"
    using assms(1) unfolding same_buckets_def by meson
  with assms(2) show "c' = c" and "case se_buckets s' kind of None \<Rightarrow> spent = 0
      | Some b \<Rightarrow> bucket_covers (track_cap kind) t0 spent b \<and> tb_last_refill b \<le> t"
    unfolding track_within_def by metis+
qed

lemma track_within_later: "track_within sid kind c t0 t spent M \<Longrightarrow> t \<le> t' \<Longrightarrow> track_within sid kind c t0 t' spent M"
proof -
  assume w: "track_within sid kind c t0 t spent M" and le: "t \<le> t'"
  have "track_cap kind * (t - t0) \<le> track_cap kind * (t' - t0)" using le by (intro mult_le_mono2 diff_le_mono)
  then have "(track_cap kind div 2) * 1000000000 + track_cap kind * (t - t0) \<le> (track_cap kind div 2) * 1000000000 + track_cap kind * (t' - t0)"
    by simp
  moreover have "(case x of None \<Rightarrow> spent = 0 | Some b \<Rightarrow> bucket_covers (track_cap kind) t0 spent b \<and> tb_last_refill b \<le> t) \<Longrightarrow>
      (case x of None \<Rightarrow> spent = 0 | Some b \<Rightarrow> bucket_covers (track_cap kind) t0 spent b \<and> tb_last_refill b \<le> t')" for x
    using le by (cases x) auto
  ultimately show ?thesis using w unfolding track_within_def by (meson le_trans)
qed

lemma same_buckets_each:
  assumes "\<And>c st sid s'. (sid, s') \<in> set (st_sessions (snd (g c st))) \<Longrightarrow> \<exists>s. (sid, s) \<in> set (st_sessions st) \<and> se_buckets s' = se_buckets s"
  shows "same_buckets sid kind M (snd (each_channel g M))"
  using assms by (fastforce simp: same_buckets_def each_channel_def)

lemma handle_media_buckets:
  assumes "\<not> (\<exists>c. r = JoinStream c \<and> d = sid)"
  shows "same_buckets sid kind M (snd (snd (handle_media m n d r M)))"
proof (cases r)
  case (JoinStream c)
  define st where "st = (case map_of M c of None \<Rightarrow> new_stream_state | Some st \<Rightarrow> st)"
  have old: "st_sessions st \<noteq> [] \<Longrightarrow> (c, st) \<in> set M"
    by (auto simp: st_def new_stream_state_def dest: map_of_SomeD split: option.splits)
  obtain s0 where M': "snd (snd (handle_media m n d r M)) = AList.update c (st\<lparr>st_sessions := AList.update d s0 (st_sessions st)\<rparr>) M"
    by (simp add: handle_media_def JoinStream join_stream_def st_def Let_def)
  show ?thesis
    unfolding same_buckets_def M'
  proof (intro allI impI)
    fix c' st' s'
    assume in': "(c', st') \<in> set (AList.update c (st\<lparr>st_sessions := AList.update d s0 (st_sessions st)\<rparr>) M)" "(sid, s') \<in> set (st_sessions st')"
    then consider "c' = c" "st' = st\<lparr>st_sessions := AList.update d s0 (st_sessions st)\<rparr>" | "(c', st') \<in> set M"
      using set_update_sub by fastforce
    then show "\<exists>st s. (c', st) \<in> set M \<and> (sid, s) \<in> set (st_sessions st) \<and> se_buckets s' kind = se_buckets s kind"
    proof cases
      case 1
      then have "(sid, s') \<in> set (st_sessions st)"
        using in'(2) set_update_sub [of d s0 "st_sessions st"] assms JoinStream by auto
      with old 1 show ?thesis by fastforce
    qed (use in' in blast)
  qed
next
  case LeaveStream
  then show ?thesis by (simp add: handle_media_def) (rule same_buckets_each, auto simp: leave_in_def Let_def)
next
  case (EnableTrack k)
  then show ?thesis by (simp add: handle_media_def) (rule same_buckets_each, auto simp: enable_in_def)
next
  case (DisableTrack k)
  then show ?thesis by (simp add: handle_media_def) (rule same_buckets_each, auto simp: disable_in_def)
next
  case (SetDeafen b)
  then show ?thesis by (simp add: handle_media_def) (rule same_buckets_each, auto simp: deafen_in_def Let_def)
next
  case (SetMute b)
  then show ?thesis by (simp add: handle_media_def) (rule same_buckets_each, auto simp: mute_in_def Let_def)
next
  case (OfferStreamKey k ws)
  then show ?thesis by (simp add: handle_media_def same_buckets_refl split: prod.split)
qed

text \<open>What a frame does to the channel it is looked up in.\<close>

lemma update_exI: "P x \<Longrightarrow> \<exists>y. P y \<and> st\<lparr>st_sessions := AList.update k x ss\<rparr> = st\<lparr>st_sessions := AList.update k y ss\<rparr>"
  by blast

lemma ingress_step:
  assumes "on_frame_ingress f pk raw now ms st = (d, st')"
  shows "(st' = st \<and> isl d) \<or>
    (\<exists>h payload s s' b b' ok. parse raw = Inr (h, payload) \<and> map_of (st_sessions st) (oh_session_id h) = Some s \<and>
       b = (case se_buckets s (oh_track_kind h) of None \<Rightarrow> new_bucket now (track_cap (oh_track_kind h)) | Some b \<Rightarrow> b) \<and>
       try_consume f now (length raw) b = (ok, b') \<and> se_buckets s' = (se_buckets s)(oh_track_kind h \<mapsto> b') \<and> ok = (\<not> isl d) \<and>
       st' = st\<lparr>st_sessions := AList.update (oh_session_id h) s' (st_sessions st)\<rparr>)"
proof (cases "parse raw")
  case (Inr hp)
  obtain h payload where hp: "hp = (h, payload)" by fastforce
  show ?thesis
  proof (cases "map_of (st_sessions st) (oh_session_id h)")
    case (Some s)
    define b where "b = (case se_buckets s (oh_track_kind h) of None \<Rightarrow> new_bucket now (track_cap (oh_track_kind h)) | Some b \<Rightarrow> b)"
    obtain ok b' where c: "try_consume f now (length raw) b = (ok, b')" by fastforce
    have c': "try_consume f now (length raw) (case se_buckets s (oh_track_kind h) of None \<Rightarrow> new_bucket now (track_cap (oh_track_kind h)) | Some b \<Rightarrow> b) = (ok, b')"
      using c by (simp only: b_def)
    show ?thesis
    proof (cases "se_connection_pk s \<noteq> pk \<or> oh_track_kind h \<notin> set (se_active_tracks s)")
      case True
      then have "st' = st \<and> isl d" using assms Some Inr hp by (auto simp: on_frame_ingress_def Let_def split: if_splits)
      then show ?thesis ..
    next
      case False
      then have "ok = (\<not> isl d) \<and> (\<exists>s'. se_buckets s' = (se_buckets s)(oh_track_kind h \<mapsto> b') \<and>
          st' = st\<lparr>st_sessions := AList.update (oh_session_id h) s' (st_sessions st)\<rparr>)"
        using assms Some Inr hp by (cases ok) (auto simp: on_frame_ingress_def Let_def c' intro: update_exI)
      with c Some Inr hp b_def show ?thesis by blast
    qed
  qed (use assms Inr hp in \<open>auto simp: on_frame_ingress_def Let_def\<close>)
qed (use assms in \<open>auto simp: on_frame_ingress_def\<close>)

lemma updated_entry:
  "distinct (map fst al) \<Longrightarrow> x \<in> set (AList.update k v al) \<Longrightarrow> x = (k, v) \<or> (x \<in> set al \<and> fst x \<noteq> k)"
  using set_alist_update [of al k v] by auto

lemma same_buckets_update:
  assumes "distinct (map fst M)" and "map_of M c = Some st"
    and "\<And>s'. (sid, s') \<in> set (st_sessions st') \<Longrightarrow> \<exists>s. (sid, s) \<in> set (st_sessions st) \<and> se_buckets s' kind = se_buckets s kind"
  shows "same_buckets sid kind M (AList.update c st' M)"
  unfolding same_buckets_def
proof (intro allI impI)
  fix c1 st1 s1
  assume a: "(c1, st1) \<in> set (AList.update c st' M)" "(sid, s1) \<in> set (st_sessions st1)"
  from updated_entry [OF assms(1) a(1)] show "\<exists>st s. (c1, st) \<in> set M \<and> (sid, s) \<in> set (st_sessions st) \<and> se_buckets s1 kind = se_buckets s kind"
    using a(2) assms(3) [of s1] map_of_SomeD [OF assms(2)] by auto
qed

lemma ingress_other:
  assumes "on_frame_ingress f pk raw now ms st = (d, st')" and "distinct (map fst (st_sessions st))"
    and "parse raw = Inr (h, p)" and "\<not> (oh_session_id h = sid \<and> oh_track_kind h = kind)" and "(sid, s') \<in> set (st_sessions st')"
  shows "\<exists>s. (sid, s) \<in> set (st_sessions st) \<and> se_buckets s' kind = se_buckets s kind"
  using ingress_step [OF assms(1)]
proof (elim disjE exE conjE)
  assume "st' = st"
  with assms(5) show ?thesis by blast
next
  fix h1 p1 s s1 b b' ok
  assume "parse raw = Inr (h1, p1)" and s: "map_of (st_sessions st) (oh_session_id h1) = Some s"
    and s1: "se_buckets s1 = (se_buckets s)(oh_track_kind h1 \<mapsto> b')"
    and st': "st' = st\<lparr>st_sessions := AList.update (oh_session_id h1) s1 (st_sessions st)\<rparr>"
  then have h1: "h1 = h" using assms(3) by simp
  have "(sid, s') \<in> set (AList.update (oh_session_id h) s1 (st_sessions st))" using assms(5) by (simp add: st' h1)
  from updated_entry [OF assms(2) this] show ?thesis
  proof
    assume "(sid, s') = (oh_session_id h, s1)"
    then show ?thesis using assms(4) s s1 h1 by (auto dest: map_of_SomeD)
  qed auto
qed

lemma ingress_own:
  assumes ok: "refill_ok f" and ing: "on_frame_ingress f pk raw now ms st = (d, st')" and dist: "distinct (map fst (st_sessions st))"
    and p: "parse raw = Inr (h, p)" and own: "oh_session_id h = sid" "oh_track_kind h = kind" and t: "t0 \<le> t" "t \<le> now"
    and w: "\<And>s. (sid, s) \<in> set (st_sessions st) \<Longrightarrow>
      (case se_buckets s kind of None \<Rightarrow> spent = 0 | Some b \<Rightarrow> bucket_covers (track_cap kind) t0 spent b \<and> tb_last_refill b \<le> t)"
  shows "st' = st \<and> isl d \<or> (\<exists>b. bucket_covers (track_cap kind) t0 (spent + (if isl d then 0 else length raw)) b \<and> tb_last_refill b \<le> now \<and>
    (\<forall>s'. (sid, s') \<in> set (st_sessions st') \<longrightarrow> se_buckets s' kind = Some b))"
  using ingress_step [OF ing]
proof (elim disjE exE conjE)
  assume "st' = st" and "isl d"
  then show ?thesis by blast
next
  fix h1 p1 s s1 b b' cons
  assume "parse raw = Inr (h1, p1)" and s: "map_of (st_sessions st) (oh_session_id h1) = Some s"
    and b: "b = (case se_buckets s (oh_track_kind h1) of None \<Rightarrow> new_bucket now (track_cap (oh_track_kind h1)) | Some b \<Rightarrow> b)"
    and cns: "try_consume f now (length raw) b = (cons, b')" and s1: "se_buckets s1 = (se_buckets s)(oh_track_kind h1 \<mapsto> b')"
    and d: "cons = (\<not> isl d)" and st': "st' = st\<lparr>st_sessions := AList.update (oh_session_id h1) s1 (st_sessions st)\<rparr>"
  then have h1: "h1 = h" using p by simp
  have "(sid, s) \<in> set (st_sessions st)" using s own h1 by (auto dest: map_of_SomeD)
  note w1 = w [OF this]
  have "bucket_covers (track_cap kind) t0 spent b \<and> tb_last_refill b \<le> now"
  proof (cases "se_buckets s kind")
    case None
    then show ?thesis using w1 b own h1 new_bucket_covers [of t0 now] t by (simp add: new_bucket_def Let_def)
  next
    case (Some b1)
    then show ?thesis using w1 b own h1 t by auto
  qed
  from consume_covers [OF ok conjunct1 [OF this] conjunct2 [OF this] cns]
  have b': "bucket_covers (track_cap kind) t0 (spent + (if isl d then 0 else length raw)) b'" "tb_last_refill b' \<le> now"
    using d by (cases "isl d"; simp)+
  have "se_buckets s' kind = Some b'" if in': "(sid, s') \<in> set (st_sessions st')" for s'
  proof -
    from in' have "(sid, s') \<in> set (AList.update sid s1 (st_sessions st))" by (simp add: st' h1 own)
    from updated_entry [OF dist this] show ?thesis using s1 h1 own by simp
  qed
  with b' show ?thesis by blast
qed

lemma session_of_channel:
  assumes "oh_session_id h = sid \<and> oh_track_kind h = kind" and "channel_of_session (oh_session_id h) M = Some c"
    and "map_of M c = Some st" and "distinct (map fst M)"
  shows "sid \<in> set (map fst (st_sessions st))"
proof -
  from assms(1,2) obtain st1 where "(c, st1) \<in> set M" "sid \<in> set (map fst (st_sessions st1))"
    by (auto simp: channel_of_session_def dest!: find_SomeD)
  with assms(3,4) show ?thesis by (auto dest: map_of_is_SomeI)
qed

lemma covers_total:
  assumes "bucket_covers cap t0 spent b" and "tb_last_refill b \<le> now"
  shows "spent * 1000000000 \<le> (cap div 2) * 1000000000 + cap * (now - t0)"
proof -
  have "cap * (tb_last_refill b - t0) \<le> cap * (now - t0)" using assms(2) by (intro mult_le_mono2 diff_le_mono)
  with assms(1) show ?thesis unfolding bucket_covers_def add_mult_distrib by linarith
qed

lemma frame_within:
  assumes ok: "refill_ok f" and fits: "streams_fit hist (ms_channels M)" and keys: "distinct (map fst (ms_channels M))"
    and w: "track_within sid kind c t0 t spent (ms_channels M)" and t: "t0 \<le> t" "t \<le> now"
  shows "track_within sid kind c t0 now (spent + (if forwards f sid kind (Frame pk raw now ms) M then length raw else 0))
    (ms_channels (snd (process_inbound_voice_frame f pk raw now ms M)))"
proof -
  let ?out = "forwards f sid kind (Frame pk raw now ms) M"
  note later = track_within_later [OF w t(2)]
  show ?thesis
  proof (cases "\<exists>h p c' st. parse raw = Inr (h, p) \<and> channel_of_session (oh_session_id h) (ms_channels M) = Some c' \<and>
      map_of (ms_channels M) c' = Some st")
    case False
    then have "\<not> ?out" and "ms_channels (snd (process_inbound_voice_frame f pk raw now ms M)) = ms_channels M"
      by (auto simp: forwards_def process_channels split: sum.splits option.splits)
    with later show ?thesis by simp
  next
    case True
    then obtain h p c' st where p: "parse raw = Inr (h, p)" and ch: "channel_of_session (oh_session_id h) (ms_channels M) = Some c'"
      and st: "map_of (ms_channels M) c' = Some st" by blast
    obtain d st' where ing: "on_frame_ingress f pk raw now ms st = (d, st')" by fastforce
    have M': "ms_channels (snd (process_inbound_voice_frame f pk raw now ms M)) = AList.update c' st' (ms_channels M)"
      by (simp add: process_channels p ch st ing)
    have out: "?out \<longleftrightarrow> oh_session_id h = sid \<and> oh_track_kind h = kind \<and> \<not> isl d"
      using p ch st ing by (auto simp: forwards_def)
    have dist: "distinct (map fst (st_sessions st))"
      using streams_fit_lookup [OF fits st] by (simp add: channel_fits_def)
    show ?thesis
    proof (cases "oh_session_id h = sid \<and> oh_track_kind h = kind")
      case False
      have "same_buckets sid kind (ms_channels M) (AList.update c' st' (ms_channels M))"
        by (rule same_buckets_update [OF keys st ingress_other [OF ing dist p False]])
      moreover have "\<not> ?out" using out False by blast
      ultimately show ?thesis using same_buckets_within [OF _ later] by (simp add: M')
    next
      case own: True
      have w1: "c' = c" "case se_buckets s kind of None \<Rightarrow> spent = 0 | Some b \<Rightarrow> bucket_covers (track_cap kind) t0 spent b \<and> tb_last_refill b \<le> t"
        if "(sid, s) \<in> set (st_sessions st)" for s
        using w map_of_SomeD [OF st] that unfolding track_within_def by metis+
      have "st' = st \<and> isl d \<or> (\<exists>b. bucket_covers (track_cap kind) t0 (spent + (if isl d then 0 else length raw)) b \<and>
          tb_last_refill b \<le> now \<and> (\<forall>s'. (sid, s') \<in> set (st_sessions st') \<longrightarrow> se_buckets s' kind = Some b))"
        by (rule ingress_own [OF ok ing dist p conjunct1 [OF own] conjunct2 [OF own] t w1(2)])
      then show ?thesis
      proof (elim disjE exE conjE)
        assume "st' = st" and "isl d"
        then have "same_buckets sid kind (ms_channels M) (AList.update c' st' (ms_channels M))"
          using same_buckets_update [OF keys st] by blast
        with same_buckets_within [OF _ later] out \<open>isl d\<close> show ?thesis by (simp add: M')
      next
        fix b
        assume b: "bucket_covers (track_cap kind) t0 (spent + (if isl d then 0 else length raw)) b" "tb_last_refill b \<le> now"
          and all: "\<forall>s'. (sid, s') \<in> set (st_sessions st') \<longrightarrow> se_buckets s' kind = Some b"
        have n: "(if ?out then length raw else 0) = (if isl d then 0 else length raw)" using out own by simp
        have "sid \<in> set (map fst (st_sessions st))" using own ch st keys by (rule session_of_channel)
        then have c': "c' = c" using w1(1) by auto
        have "c1 = c \<and> se_buckets s1 kind = Some b"
          if "(c1, st1) \<in> set (AList.update c' st' (ms_channels M))" "(sid, s1) \<in> set (st_sessions st1)" for c1 st1 s1
          using updated_entry [OF keys that(1)] that(2) all c' w unfolding track_within_def by fastforce
        with covers_total [OF b] b show ?thesis unfolding track_within_def M' n by fastforce
      qed
    qed
  qed
qed

lemma step_keys:
  assumes "distinct (map fst (ms_channels M))"
  shows "distinct (map fst (ms_channels (run_media_step f step M)))"
proof -
  have each: "map fst (snd (each_channel g N)) = map fst N" for g and N :: media_map
    by (simp add: each_channel_def comp_def split_beta')
  show ?thesis
  proof (cases step)
    case (Request m n d r)
    then show ?thesis using assms
      by (cases r) (simp_all add: run_media_step_def handle_media_def each join_stream_def Let_def distinct_update split_beta)
  next
    case (Frame pk raw now ms)
    then show ?thesis using assms
      by (auto simp: run_media_step_def process_channels distinct_update split: option.split)
  qed (use assms in \<open>simp_all add: run_media_step_def\<close>)
qed

lemma reaches_keys: "media_reaches f hist M \<Longrightarrow> distinct (map fst (ms_channels M))"
  by (induction rule: media_reaches.induct) (simp_all add: step_keys)

definition draws :: "bytes \<Rightarrow> media_step \<Rightarrow> bool" where
  "draws sid step \<longleftrightarrow> (\<exists>m n c. step = Request m n sid (JoinStream c))"

lemma forwarded_within:
  assumes "refill_ok f" and "streams_fit hist (ms_channels M)" and "distinct (map fst (ms_channels M))"
    and "track_within sid kind c t0 t spent (ms_channels M)" and "t0 \<le> t" and "clock_runs t t1 steps"
    and "\<forall>step \<in> set steps. \<not> draws sid step"
  shows "(spent + forwarded f sid kind steps M) * 1000000000 \<le> (track_cap kind div 2) * 1000000000 + track_cap kind * (t1 - t0)"
  using assms(2-)
proof (induction steps arbitrary: hist M t spent)
  case Nil
  then have "track_within sid kind c t0 t1 spent (ms_channels M)" using track_within_later by simp
  then show ?case by (simp add: track_within_def)
next
  case (Cons step steps)
  note IH = Cons.IH [OF step_fits [OF Cons.prems(1)] step_keys [OF Cons.prems(2)]]
  show ?case
  proof (cases step)
    case (Frame pk raw now ms)
    with Cons.prems(5) have t: "t \<le> now" "clock_runs now t1 steps" by simp_all
    have "track_within sid kind c t0 now (spent + (if forwards f sid kind step M then step_bytes step else 0))
        (ms_channels (run_media_step f step M))"
      using frame_within [OF assms(1) Cons.prems(1,2,3,4) t(1), of pk raw ms]
      unfolding run_media_step_def Frame step_bytes_def media_step.case .
    from IH [OF this _ t(2)] Cons.prems(4,6) t(1) show ?thesis by (simp add: add.assoc)
  next
    case (Request m n d r)
    have "\<not> (\<exists>c. r = JoinStream c \<and> d = sid)" using Cons.prems(6) Request by (auto simp: draws_def)
    from same_buckets_within [OF handle_media_buckets [OF this] Cons.prems(3)]
    have "track_within sid kind c t0 t spent (ms_channels (run_media_step f step M))" by (simp add: run_media_step_def Request)
    from IH [OF this Cons.prems(4)] Cons.prems(5,6) show ?thesis by (simp add: Request forwards_def)
  next
    case (VoiceConnected pk sink)
    have "track_within sid kind c t0 t spent (ms_channels (run_media_step f step M))"
      using Cons.prems(3) by (simp add: run_media_step_def VoiceConnected)
    from IH [OF this Cons.prems(4)] Cons.prems(5,6) show ?thesis by (simp add: VoiceConnected forwards_def)
  next
    case (VoiceGone pk)
    have "track_within sid kind c t0 t spent (ms_channels (run_media_step f step M))"
      using Cons.prems(3) by (simp add: run_media_step_def VoiceGone)
    from IH [OF this Cons.prems(4)] Cons.prems(5,6) show ?thesis by (simp add: VoiceGone forwards_def)
  qed
qed


section \<open>Witnesses, and what the requests do not check\<close>

definition exact_refill :: refill where
  "exact_refill ns cap = ns * cap div 1000000000"

lemma exact_refill_ok: "refill_ok exact_refill"
proof -
  have "min (ns * cap div 1000000000) x * 1000000000 \<le> ns * cap" for ns cap x :: nat
    by (rule order.trans [OF mult_le_mono1 [OF min.cobounded1]]) simp
  then show ?thesis by (simp add: refill_ok_def exact_refill_def)
qed

definition alice :: public_key where "alice = PublicKey [1]"
definition bob :: public_key where "bob = PublicKey [2]"
definition sid_a :: bytes where "sid_a = replicate 16 1"
definition sid_b :: bytes where "sid_b = replicate 16 2"

lemma demo_names [simp]: "alice \<noteq> bob" "bob \<noteq> alice" "sid_a \<noteq> sid_b" "sid_b \<noteq> sid_a"
  by (simp_all add: alice_def bob_def sid_a_def sid_b_def)

definition demo_header :: outer_header where
  "demo_header = \<lparr>oh_track_kind = Audio, oh_session_id = sid_a, oh_frame_id = 0, oh_frag_index = 0, oh_frag_count = 1\<rparr>"

definition demo_raw :: bytes where
  "demo_raw = write_to demo_header [] @ [9]"

lemma demo_parse: "parse demo_raw = Inr (demo_header, [9])"
  unfolding demo_raw_def
  by (rule parse_write_to) (simp add: header_ok_def demo_header_def sid_a_def SESSION_ID_LEN_def)

lemma demo_length: "length demo_raw = 27"
  by (simp add: demo_raw_def length_write_to demo_header_def sid_a_def)

text \<open>Two members, of whom the server knows nothing but their keys, in the stream of a channel; the latest step first.\<close>

definition demo_hist :: "media_step list" where
  "demo_hist =
     [VoiceConnected bob (Direct 5), Request bob [] sid_b (JoinStream 7), Request alice [] sid_a (EnableTrack Audio),
      Request alice [] sid_a (JoinStream 7)]"

definition demo_session :: "public_key \<Rightarrow> track_kind list \<Rightarrow> media_session" where
  "demo_session pk tracks = \<lparr>se_connection_pk = pk, se_channel_id = 7, se_public_key = pk, se_display_name = [],
     se_active_tracks = tracks, se_buckets = Map.empty, se_last_audio_frame_ms = None, se_last_video_frame_ms = None,
     se_last_screen_audio_frame_ms = None\<rparr>"

definition demo_server :: media_server where
  "demo_server = \<lparr>ms_channels = [(7, \<lparr>st_sessions = [(sid_a, demo_session alice [Audio]), (sid_b, demo_session bob [])],
      st_deafened = [], st_muted = []\<rparr>)], ms_voice = [bob \<mapsto> Direct 5]\<rparr>"

lemma demo_reached: "media_reaches f demo_hist demo_server"
proof -
  let ?s0 = "\<lparr>ms_channels = [], ms_voice = Map.empty\<rparr>"
  let ?run = "\<lambda>step M. run_media_step f step M"
  let ?s1 = "?run (Request alice [] sid_a (JoinStream 7)) ?s0"
  let ?s2 = "?run (Request alice [] sid_a (EnableTrack Audio)) ?s1"
  let ?s3 = "?run (Request bob [] sid_b (JoinStream 7)) ?s2"
  let ?s4 = "?run (VoiceConnected bob (Direct 5)) ?s3"
  note defs = run_media_step_def handle_media_def join_stream_def Let_def new_stream_state_def each_channel_def enable_in_def
    add_once_def own_sessions_def
  have s2: "ms_channels ?s2 = [(7, \<lparr>st_sessions = [(sid_a, demo_session alice [Audio])], st_deafened = [], st_muted = []\<rparr>)]"
    by (simp add: defs demo_session_def)
  have "media_reaches f [Request alice [] sid_a (JoinStream 7)] ?s1"
    by (rule media_reaches.step [OF media_reaches.start]) (simp add: media_step_allowed_def fresh_session_def)
  then have "media_reaches f [Request alice [] sid_a (EnableTrack Audio), Request alice [] sid_a (JoinStream 7)] ?s2"
    by (rule media_reaches.step) (simp add: media_step_allowed_def)
  then have "media_reaches f (tl demo_hist) ?s3"
    unfolding demo_hist_def list.sel by (rule media_reaches.step) (simp add: media_step_allowed_def fresh_session_def s2)
  then have "media_reaches f (VoiceConnected bob (Direct 5) # tl demo_hist) ?s4"
    by (rule media_reaches.step) (simp add: media_step_allowed_def)
  moreover have "VoiceConnected bob (Direct 5) # tl demo_hist = demo_hist" by (simp add: demo_hist_def)
  moreover have "?s4 = demo_server" by (simp add: defs demo_server_def demo_session_def)
  ultimately show ?thesis by simp
qed

text \<open>Whoever asks is in: a member's key and a channel's number are all that \<open>JoinStream\<close> looks at, and the frames come.\<close>

lemma joined_is_served: "fst (process_inbound_voice_frame exact_refill alice demo_raw 0 0 demo_server) = [(bob, Direct 5)]"
proof -
  have consume: "fst (try_consume exact_refill 0 27 (new_bucket 0 64000))"
    by (simp add: try_consume_def refill_bucket_def new_bucket_def exact_refill_def Let_def)
  show ?thesis
    using consume
    by (simp add: process_inbound_voice_frame_def demo_parse channel_of_session_def demo_server_def demo_header_def on_frame_ingress_def
        demo_session_def track_cap_def audio_max_bps_def demo_length recipients_of_def stamp_frame_def Let_def split_beta)
qed

text \<open>A session outlives its connection: whoever reconnects is served without joining again.\<close>

lemma ghost_session_is_served:
  "fst (process_inbound_voice_frame exact_refill alice demo_raw 0 0
     (run_media exact_refill [VoiceGone bob, VoiceConnected bob (Direct 6)] demo_server)) = [(bob, Direct 6)]"
proof -
  have consume: "fst (try_consume exact_refill 0 27 (new_bucket 0 64000))"
    by (simp add: try_consume_def refill_bucket_def new_bucket_def exact_refill_def Let_def)
  show ?thesis
    using consume
    by (simp add: run_media_step_def process_inbound_voice_frame_def demo_parse channel_of_session_def demo_server_def demo_header_def
        on_frame_ingress_def demo_session_def track_cap_def audio_max_bps_def demo_length recipients_of_def stamp_frame_def Let_def split_beta)
qed

text \<open>A connection that ends removes the registration of the one that replaced it.\<close>

lemma old_connection_unregisters:
  "ms_voice (run_media f [VoiceConnected pk (Direct a), VoiceConnected pk (Direct b), VoiceGone pk] M) pk = None"
  by (simp add: run_media_step_def)

theorem media_stays_in_its_channel_witness:
  "\<exists>h payload c. parse demo_raw = Inr (h, payload) \<and> in_stream alice c demo_hist \<and> track_on alice (oh_track_kind h) demo_hist \<and>
    in_stream bob c demo_hist \<and> \<not> is_deaf bob demo_hist \<and> ms_voice demo_server bob = Some (Direct 5)"
proof -
  have "(bob, Direct 5) \<in> set (fst (process_inbound_voice_frame exact_refill alice demo_raw 0 0 demo_server))"
    by (simp add: joined_is_served)
  from media_stays_in_its_channel [OF demo_reached this] show ?thesis .
qed


end
