(* ===== verification/WidgetParse.thy ===== *)
theory WidgetParse
  imports FilePolicy
begin

text \<open>
  The arguments of the widget commands: the parsers of \<open>polls.rs\<close>, \<open>giveaways.rs\<close>, \<open>reminders.rs\<close> and
  \<open>channel_events.rs\<close> (\<open>crates/farder-server/src\<close>).

  A string is its list of Unicode scalar values, as in the file policy; \<open>to_lowercase\<close> of the
  standard library is a parameter, since its table is.  A parser that may panic returns an option,
  \<open>None\<close> being the panic; inside it is the refusal, named after its text, or the result.
\<close>

section \<open>Strings\<close>

definition trim_ws :: "text_str \<Rightarrow> text_str" where
  "trim_ws s = trim_by is_whitespace s"

text \<open>\<open>split('|')\<close>.\<close>

fun split_bar :: "text_str \<Rightarrow> text_str list" where
  "split_bar [] = [[]]"
| "split_bar (x # xs) = (if x = 124 then [] # split_bar xs else (x # hd (split_bar xs)) # tl (split_bar xs))"

text \<open>\<open>splitn(2, char::is_whitespace)\<close>: the first word and what follows one separator.\<close>

definition first_word :: "text_str \<Rightarrow> text_str" where
  "first_word s = takeWhile (\<lambda>c. \<not> is_whitespace c) s"

definition after_word :: "text_str \<Rightarrow> text_str" where
  "after_word s = (case dropWhile (\<lambda>c. \<not> is_whitespace c) s of [] \<Rightarrow> [] | _ # rest \<Rightarrow> rest)"

text \<open>
  \<open>s.split_at(s.len() - 1)\<close>: the length counts bytes, and a position inside a character panics.
\<close>

definition split_last_byte :: "text_str \<Rightarrow> (text_str \<times> text_str) option" where
  "split_last_byte s = (if s \<noteq> [] \<and> last s < 0x80 then Some (butlast s, [last s]) else None)"

definition is_digit :: "nat \<Rightarrow> bool" where
  "is_digit c \<longleftrightarrow> 48 \<le> c \<and> c \<le> 57"

definition digits_value :: "text_str \<Rightarrow> nat" where
  "digits_value ds = foldl (\<lambda>a c. a * 10 + (c - 48)) 0 ds"

definition unit_secs :: "nat \<Rightarrow> nat option" where
  "unit_secs c =
     (if lower c = 109 then Some 60 else if lower c = 104 then Some 3600 else if lower c = 100 then Some 86400 else None)"

text \<open>\<open>duration_token_secs\<close>, the same in the three files that have it.\<close>

definition duration_token_secs :: "text_str \<Rightarrow> nat option option" where
  "duration_token_secs seg =
     (if utf8_len seg < 2 then Some None
      else case split_last_byte seg of
             None \<Rightarrow> None
           | Some (digits, unit) \<Rightarrow>
               Some (if digits = [] \<or> 4 < utf8_len digits \<or> \<not> list_all is_digit digits then None
                     else map_option (\<lambda>per_unit. digits_value digits * per_unit) (unit_secs (hd unit))))"

definition MIN_DURATION_SECS :: nat where "MIN_DURATION_SECS = 60"
definition MAX_DURATION_SECS :: nat where "MAX_DURATION_SECS = 30 * 86400"

section \<open>Polls\<close>

datatype poll_refusal = PollUsage | PollDuration | PollOptionCount | PollQuestion | PollOption | PollDuplicate

record parsed_poll =
  pp_question :: text_str
  pp_options :: "text_str list"
  pp_duration_secs :: "nat option"

definition check_poll :: "(text_str \<Rightarrow> text_str) \<Rightarrow> nat option \<Rightarrow> text_str list \<Rightarrow> poll_refusal + parsed_poll" where
  "check_poll to_lowercase duration_secs segments =
     ensure (\<not> list_ex (\<lambda>s. s = []) segments) PollUsage
     (ensure (3 \<le> length segments) (if length segments = 2 then PollOptionCount else PollUsage)
     (let question = hd segments; options = tl segments
      in ensure (\<not> (question = [] \<or> 256 < length question)) PollQuestion
         (ensure (\<not> (length options < 2 \<or> 10 < length options)) PollOptionCount
         (ensure (list_all (\<lambda>opt. \<not> (opt = [] \<or> 100 < length opt)) options) PollOption
         (ensure (distinct (map to_lowercase options)) PollDuplicate
         (Inr \<lparr>pp_question = question, pp_options = options, pp_duration_secs = duration_secs\<rparr>))))))"

definition parse_poll_args :: "(text_str \<Rightarrow> text_str) \<Rightarrow> text_str \<Rightarrow> (poll_refusal + parsed_poll) option" where
  "parse_poll_args to_lowercase args =
     (let segments = map trim_ws (split_bar args)
      in case duration_token_secs (last segments) of
           None \<Rightarrow> None
         | Some None \<Rightarrow> Some (check_poll to_lowercase None segments)
         | Some (Some secs) \<Rightarrow>
             Some (ensure (MIN_DURATION_SECS \<le> secs \<and> secs \<le> MAX_DURATION_SECS) PollDuration
                    (check_poll to_lowercase (Some secs) (butlast segments))))"

section \<open>Giveaways\<close>

datatype giveaway_refusal = GiveawayUsage | GiveawayPrize

text \<open>\<open>digits.parse::<u64>()\<close> and \<open>checked_mul\<close>.\<close>

definition u64_limit :: nat where "u64_limit = 2 ^ 64"

definition parse_giveaway_duration :: "text_str \<Rightarrow> nat option option" where
  "parse_giveaway_duration s =
     (if utf8_len s < 2 then Some None
      else case split_last_byte s of
             None \<Rightarrow> None
           | Some (digits, unit) \<Rightarrow>
               Some (if digits = [] \<or> \<not> list_all is_digit digits then None
                     else if u64_limit \<le> digits_value digits then None
                     else case unit_secs (hd unit) of
                            None \<Rightarrow> None
                          | Some per_unit \<Rightarrow>
                              (let secs = digits_value digits * per_unit
                               in if u64_limit \<le> secs then None
                                  else if \<not> (MIN_DURATION_SECS \<le> secs \<and> secs \<le> MAX_DURATION_SECS) then None
                                  else Some secs)))"

definition parse_giveaway_args :: "text_str \<Rightarrow> (giveaway_refusal + nat \<times> text_str) option" where
  "parse_giveaway_args args =
     (let trimmed = trim_ws args
      in map_option (\<lambda>duration.
           or_fail duration GiveawayUsage (\<lambda>duration_secs.
           let prize = trim_ws (after_word trimmed)
           in ensure (\<not> (prize = [] \<or> 200 < length prize)) GiveawayPrize (Inr (duration_secs, prize))))
         (parse_giveaway_duration (first_word trimmed)))"

section \<open>Reminders\<close>

datatype reminder_refusal = ReminderUsage | ReminderDuration | ReminderText

definition MAX_REMINDER_TEXT :: nat where "MAX_REMINDER_TEXT = 500"

definition parse_reminder_args :: "text_str \<Rightarrow> (reminder_refusal + nat \<times> text_str) option" where
  "parse_reminder_args args =
     (let trimmed = trim_ws args
      in map_option (\<lambda>token.
           or_fail token ReminderUsage (\<lambda>delay_secs.
           ensure (\<not> (delay_secs < MIN_DURATION_SECS \<or> MAX_DURATION_SECS < delay_secs)) ReminderDuration
           (let text = trim_ws (after_word trimmed)
            in ensure (text \<noteq> []) ReminderUsage
               (ensure (length text \<le> MAX_REMINDER_TEXT) ReminderText (Inr (delay_secs, text))))))
         (duration_token_secs (first_word trimmed)))"

section \<open>Events\<close>

datatype event_refusal = EventUsage | WhenHint | EventTitle | EventLocation | EventDescription | EventTooSoon | EventTooFar

datatype when_spec = Relative nat | Absolute nat

record parsed_event =
  pe_title :: text_str
  pe_when :: when_spec
  pe_location :: "text_str option"
  pe_description :: "text_str option"
  pe_remind_lead :: "nat option"

definition MAX_TITLE :: nat where "MAX_TITLE = 120"
definition MAX_LOCATION :: nat where "MAX_LOCATION = 120"
definition MAX_DESCRIPTION :: nat where "MAX_DESCRIPTION = 500"
definition MIN_LEAD_SECS :: nat where "MIN_LEAD_SECS = 60"
definition MAX_AHEAD_SECS :: nat where "MAX_AHEAD_SECS = 365 * 86400"

definition strip_prefix :: "text_str \<Rightarrow> text_str \<Rightarrow> text_str option" where
  "strip_prefix p s = (if starts_with s p then Some (drop (length p) s) else None)"

text \<open>The outer option: whether the segment is a reminder token; the inner one its lead.\<close>

definition remind_token :: "text_str \<Rightarrow> nat option option" where
  "remind_token seg =
     (case strip_prefix (codes ''remind'') (map lower seg) of
        None \<Rightarrow> None
      | Some rest \<Rightarrow>
          if rest = [] \<or> \<not> is_whitespace (hd rest) then None
          else (let word = trim_ws rest
                in if word = codes ''15m'' then Some (Some 900) else if word = codes ''1h'' then Some (Some 3600)
                   else if word = codes ''1d'' then Some (Some 86400) else if word = codes ''none'' then Some None else None))"

text \<open>\<open>in 3d\<close> is \<open>3d\<close>.\<close>

definition when_body :: "text_str \<Rightarrow> text_str" where
  "when_body seg =
     (let trimmed = trim_ws seg
      in if starts_with (map lower trimmed) (codes ''in '') then trim_ws (drop 3 trimmed) else trimmed)"

definition parse_when :: "text_str \<Rightarrow> (event_refusal + when_spec) option" where
  "parse_when seg =
     (let body = when_body seg
      in case strip_prefix [64] body of
           Some digits \<Rightarrow>
             Some (ensure (9 \<le> utf8_len digits \<and> utf8_len digits \<le> 12 \<and> list_all is_digit digits) WhenHint
                    (Inr (Absolute (digits_value digits))))
         | None \<Rightarrow> map_option (\<lambda>secs. or_fail secs WhenHint (\<lambda>s. Inr (Relative s))) (duration_token_secs body))"

definition validate_event_fields :: "text_str \<Rightarrow> text_str option \<Rightarrow> text_str option \<Rightarrow> event_refusal + unit" where
  "validate_event_fields title description location =
     ensure (\<not> (title = [] \<or> MAX_TITLE < length title)) EventTitle
     (ensure (case location of None \<Rightarrow> True | Some l \<Rightarrow> length l \<le> MAX_LOCATION) EventLocation
     (ensure (case description of None \<Rightarrow> True | Some d \<Rightarrow> length d \<le> MAX_DESCRIPTION) EventDescription (Inr ())))"

text \<open>An optional segment: absent or empty is none.\<close>

definition segment_at :: "nat \<Rightarrow> text_str list \<Rightarrow> text_str option" where
  "segment_at i segs = (if i < length segs \<and> segs ! i \<noteq> [] then Some (segs ! i) else None)"

definition parse_event_args :: "text_str \<Rightarrow> (event_refusal + parsed_event) option" where
  "parse_event_args args =
     (let segments0 = map trim_ws (split_bar args);
          token = remind_token (last segments0);
          remind_lead = (case token of None \<Rightarrow> None | Some lead \<Rightarrow> lead);
          segments = (case token of None \<Rightarrow> segments0 | Some _ \<Rightarrow> butlast segments0)
      in if length segments < 2 \<or> 4 < length segments then Some (Inl EventUsage)
         else if segments ! 1 = [] then Some (Inl EventUsage)
         else map_option (\<lambda>when_result.
                try_then when_result (\<lambda>start.
                let location = segment_at 2 segments; description = segment_at 3 segments
                in try_then (validate_event_fields (hd segments) description location) (\<lambda>_.
                   Inr \<lparr>pe_title = hd segments, pe_when = start, pe_location = location, pe_description = description,
                        pe_remind_lead = remind_lead\<rparr>)))
              (parse_when (segments ! 1)))"

text \<open>\<open>saturating_add\<close> on a \<open>u64\<close>.\<close>

definition sat_add64 :: "nat \<Rightarrow> nat \<Rightarrow> nat" where
  "sat_add64 a b = min (a + b) (u64_limit - 1)"

definition resolve_start :: "when_spec \<Rightarrow> nat \<Rightarrow> event_refusal + nat" where
  "resolve_start w now =
     (let starts_at = (case w of Relative d \<Rightarrow> sat_add64 now d | Absolute t \<Rightarrow> t)
      in ensure (sat_add64 now MIN_LEAD_SECS \<le> starts_at) EventTooSoon
         (ensure (starts_at \<le> sat_add64 now MAX_AHEAD_SECS) EventTooFar (Inr starts_at)))"

section \<open>When the parsers panic\<close>

text \<open>The token that crashes them: at least two bytes, the last of which is inside a character.\<close>

definition crashing :: "text_str \<Rightarrow> bool" where
  "crashing s \<longleftrightarrow> s \<noteq> [] \<and> 0x80 \<le> last s"

lemma utf8_len_append: "utf8_len (s @ t) = utf8_len s + utf8_len t"
  by (simp add: utf8_len_def)

lemma utf8_len_ge: "length s \<le> utf8_len s"
  by (induction s) (auto simp: utf8_len_def)

lemma crashing_iff: "(2 \<le> utf8_len s \<and> split_last_byte s = None) \<longleftrightarrow> crashing s"
proof (cases s rule: rev_cases)
  case (snoc t c)
  have "2 \<le> utf8_len (t @ [c])" if "0x80 \<le> c" using that by (simp add: utf8_len_append) (simp add: utf8_len_def)
  then show ?thesis by (auto simp: snoc split_last_byte_def crashing_def)
qed (simp add: split_last_byte_def crashing_def utf8_len_def)

lemma duration_panics: "duration_token_secs s = None \<longleftrightarrow> crashing s"
  by (auto simp: duration_token_secs_def simp flip: crashing_iff split: option.splits prod.splits)

lemma giveaway_duration_panics: "parse_giveaway_duration s = None \<longleftrightarrow> crashing s"
  by (auto simp: parse_giveaway_duration_def simp flip: crashing_iff split: option.splits prod.splits)

lemma split_bar_nonempty: "split_bar s \<noteq> []"
  by (induction s) auto

lemma last_segment: "last (map trim_ws (split_bar args)) = trim_ws (last (split_bar args))"
  by (simp add: last_map split_bar_nonempty)

text \<open>C36: An accent crashes the command.  The parsers of the widget commands panic, instead of
  answering, exactly when the word they try as a duration ends in a character that is not ASCII: the
  last option of a poll (whose name ends in an accented letter, say, or in an emoji), the first word
  of a giveaway or a reminder, the time of an event unless it starts with an at sign; on every other
  input they return a result or a refusal.\<close>

theorem widget_parsers_panic:
  "(parse_poll_args to_lowercase args = None \<longleftrightarrow> crashing (trim_ws (last (split_bar args)))) \<and>
   (parse_giveaway_args args = None \<longleftrightarrow> crashing (first_word (trim_ws args))) \<and>
   (parse_reminder_args args = None \<longleftrightarrow> crashing (first_word (trim_ws args))) \<and>
   (parse_when args = None \<longleftrightarrow> strip_prefix [64] (when_body args) = None \<and> crashing (when_body args))"
  by (auto simp: parse_poll_args_def parse_giveaway_args_def parse_reminder_args_def parse_when_def Let_def last_segment
      duration_panics giveaway_duration_panics split: option.split) (auto simp flip: duration_panics split: option.splits)

section \<open>What can be said\<close>

fun join_bar :: "text_str list \<Rightarrow> text_str" where
  "join_bar [] = []"
| "join_bar [s] = s"
| "join_bar (s # t # rest) = s @ 124 # join_bar (t # rest)"

lemma split_bar_append: "124 \<notin> set s \<Longrightarrow> split_bar (s @ xs) = (s @ hd (split_bar xs)) # tl (split_bar xs)"
  by (induction s) (auto simp: split_bar_nonempty)

lemma split_join: "segs \<noteq> [] \<Longrightarrow> \<forall>s \<in> set segs. 124 \<notin> set s \<Longrightarrow> split_bar (join_bar segs) = segs"
proof (induction segs rule: join_bar.induct)
  case (2 s)
  then show ?case using split_bar_append [of s "[]"] by simp
next
  case (3 s t rest)
  then show ?case using split_bar_append [of s "124 # join_bar (t # rest)"] by simp
qed simp

definition poll_ok :: "(text_str \<Rightarrow> text_str) \<Rightarrow> parsed_poll \<Rightarrow> bool" where
  "poll_ok to_lowercase p \<longleftrightarrow>
     pp_question p \<noteq> [] \<and> length (pp_question p) \<le> 256 \<and> 2 \<le> length (pp_options p) \<and> length (pp_options p) \<le> 10 \<and>
     (\<forall>opt \<in> set (pp_options p). opt \<noteq> [] \<and> length opt \<le> 100) \<and> distinct (map to_lowercase (pp_options p)) \<and>
     (\<forall>secs. pp_duration_secs p = Some secs \<longrightarrow> 60 \<le> secs \<and> secs \<le> 2592000)"

lemma check_poll_Inr: "check_poll to_lowercase d segs = Inr p \<longleftrightarrow>
    segs = pp_question p # pp_options p \<and> pp_duration_secs p = d \<and>
    pp_question p \<noteq> [] \<and> length (pp_question p) \<le> 256 \<and> 2 \<le> length (pp_options p) \<and> length (pp_options p) \<le> 10 \<and>
    (\<forall>opt \<in> set (pp_options p). opt \<noteq> [] \<and> length opt \<le> 100) \<and> distinct (map to_lowercase (pp_options p))"
  by (cases segs; cases p) (auto simp: check_poll_def result_simps Let_def list_all_iff list_ex_iff not_less)

text \<open>A text as it is after trimming, without a bar.\<close>

definition plain_segment :: "text_str \<Rightarrow> bool" where
  "plain_segment s \<longleftrightarrow> trim_ws s = s \<and> 124 \<notin> set s"

text \<open>Every poll can be asked for, and nothing else comes out.  A poll that the parser returns has
  a question of 1 to 256 characters, two to ten options of 1 to 100 characters, no two of them equal
  without regard to case, and lasts between a minute and thirty days if it has an end; and whatever
  such poll somebody writes down, question and options separated by bars and a duration behind them
  or not, is read back as that poll, unless its last option looks like a duration or crashes the
  parser.\<close>

theorem polls_are_read_back:
  "(parse_poll_args to_lowercase args = Some (Inr p) \<longrightarrow> poll_ok to_lowercase p) \<and>
   (poll_ok to_lowercase p \<and> (\<forall>s \<in> insert (pp_question p) (set (pp_options p)). plain_segment s) \<longrightarrow>
     (pp_duration_secs p = None \<and> duration_token_secs (last (pp_options p)) = Some None \<longrightarrow>
        parse_poll_args to_lowercase (join_bar (pp_question p # pp_options p)) = Some (Inr p)) \<and>
     (\<forall>token. plain_segment token \<and> duration_token_secs token = Some (pp_duration_secs p) \<and> pp_duration_secs p \<noteq> None \<longrightarrow>
        parse_poll_args to_lowercase (join_bar (pp_question p # pp_options p @ [token])) = Some (Inr p)))"
proof (intro conjI impI allI)
  assume "parse_poll_args to_lowercase args = Some (Inr p)"
  then show "poll_ok to_lowercase p"
    by (auto simp: parse_poll_args_def Let_def check_poll_Inr result_simps poll_ok_def MIN_DURATION_SECS_def MAX_DURATION_SECS_def
        split: option.splits)
next
  assume ok: "poll_ok to_lowercase p \<and> (\<forall>s \<in> insert (pp_question p) (set (pp_options p)). plain_segment s)"
    and last: "pp_duration_secs p = None \<and> duration_token_secs (last (pp_options p)) = Some None"
  let ?segs = "pp_question p # pp_options p"
  have "split_bar (join_bar ?segs) = ?segs" using ok by (intro split_join) (auto simp: plain_segment_def)
  moreover have "map trim_ws ?segs = ?segs" using ok by (intro map_idI) (auto simp: plain_segment_def)
  moreover have "last ?segs = last (pp_options p)" using ok by (auto simp: poll_ok_def)
  ultimately show "parse_poll_args to_lowercase (join_bar ?segs) = Some (Inr p)"
    using ok last by (simp add: parse_poll_args_def check_poll_Inr poll_ok_def)
next
  fix token
  assume ok: "poll_ok to_lowercase p \<and> (\<forall>s \<in> insert (pp_question p) (set (pp_options p)). plain_segment s)"
    and token: "plain_segment token \<and> duration_token_secs token = Some (pp_duration_secs p) \<and> pp_duration_secs p \<noteq> None"
  let ?segs = "pp_question p # pp_options p @ [token]"
  have "split_bar (join_bar ?segs) = ?segs" using ok token by (intro split_join) (auto simp: plain_segment_def)
  moreover have "map trim_ws ?segs = ?segs" using ok token by (intro map_idI) (auto simp: plain_segment_def)
  ultimately show "parse_poll_args to_lowercase (join_bar ?segs) = Some (Inr p)"
    using ok token by (auto simp: parse_poll_args_def check_poll_Inr poll_ok_def result_simps MIN_DURATION_SECS_def MAX_DURATION_SECS_def)
qed

text \<open>The poll "Lunch?" with the options "tea" and "rice", as the member types it, for an hour and without
  an end.\<close>

definition lunch_poll :: "nat option \<Rightarrow> parsed_poll" where
  "lunch_poll d = \<lparr> pp_question = [76, 117, 110, 99, 104, 63], pp_options = [[116, 101, 97], [114, 105, 99, 101]],
     pp_duration_secs = d \<rparr>"

theorem polls_are_read_back_witness:
  "parse_poll_args id [76, 117, 110, 99, 104, 63, 124, 116, 101, 97, 124, 114, 105, 99, 101] = Some (Inr (lunch_poll None)) \<and>
   parse_poll_args id [76, 117, 110, 99, 104, 63, 124, 116, 101, 97, 124, 114, 105, 99, 101, 124, 49, 104] =
     Some (Inr (lunch_poll (Some 3600))) \<and>
   poll_ok id (lunch_poll None)"
proof (intro conjI)
  have ok: "poll_ok id (lunch_poll d) \<and> (\<forall>s \<in> insert (pp_question (lunch_poll d)) (set (pp_options (lunch_poll d))). plain_segment s)"
    if "d \<in> {None, Some 3600}" for d
    using that by (auto simp: poll_ok_def lunch_poll_def plain_segment_def trim_ws_def trim_by_def is_whitespace_def)
  have last: "duration_token_secs [114, 105, 99, 101] = Some None"
    by (simp add: duration_token_secs_def split_last_byte_def unit_secs_def is_digit_def)
  have token: "plain_segment [49, 104] \<and> duration_token_secs [49, 104] = Some (Some 3600)"
    by (simp add: duration_token_secs_def split_last_byte_def unit_secs_def is_digit_def digits_value_def plain_segment_def lower_def utf8_len_def 
        trim_ws_def trim_by_def is_whitespace_def)
  show plain: "parse_poll_args id [76, 117, 110, 99, 104, 63, 124, 116, 101, 97, 124, 114, 105, 99, 101] = Some (Inr (lunch_poll None))"
    using conjunct1 [OF conjunct2 [OF polls_are_read_back, THEN mp, OF ok, of None], THEN mp] last
    by (simp add: lunch_poll_def)
  show "parse_poll_args id [76, 117, 110, 99, 104, 63, 124, 116, 101, 97, 124, 114, 105, 99, 101, 124, 49, 104] =
     Some (Inr (lunch_poll (Some 3600)))"
    using conjunct2 [OF conjunct2 [OF polls_are_read_back, THEN mp, OF ok, of "Some 3600"], THEN spec, THEN mp, of "[49, 104]"] token
    by (simp add: lunch_poll_def)
  show "poll_ok id (lunch_poll None)" using conjunct1 [OF polls_are_read_back, THEN mp, OF plain] .
qed

end
