(* ===== verification/WidgetState.thy ===== *)
theory WidgetState
  imports WidgetParse ServerDb AccessHandlers
begin

text \<open>
  The widgets of a server: the tables of \<open>polls.rs\<close>, \<open>giveaways.rs\<close>, \<open>reminders.rs\<close> and
  \<open>channel_events.rs\<close> (\<open>crates/farder-server/src\<close>) with every statement on them, and the cards.

  A table is the list of its rows in row-id order, a status column the datatype of the values the
  code writes into it.  Times are seconds.  The clock, the display names, \<open>to_lowercase\<close>, SQLite's
  date formatter, the random draws and the keys that are generated are the fields of
  \<open>widget_env\<close>; a request reads the clock once.
\<close>

section \<open>Texts\<close>

text \<open>The bytes of a text, as the message table keeps them.\<close>

definition utf8_char :: "nat \<Rightarrow> string" where
  "utf8_char c =
     map char_of
       (if c < 0x80 then [c]
        else if c < 0x800 then [0xC0 + c div 64, 0x80 + c mod 64]
        else if c < 0x10000 then [0xE0 + c div 4096, 0x80 + c div 64 mod 64, 0x80 + c mod 64]
        else [0xF0 + c div 262144, 0x80 + c div 4096 mod 64, 0x80 + c div 64 mod 64, 0x80 + c mod 64])"

definition utf8 :: "text_str \<Rightarrow> string" where
  "utf8 s = concat (map utf8_char s)"

definition number :: "nat \<Rightarrow> text_str" where
  "number n = codes (decimal n)"

definition hex_digit :: "nat \<Rightarrow> nat" where
  "hex_digit n = (if n < 10 then 48 + n else 87 + n)"

text \<open>The display of a public key, and the part of it a nameless member is shown by.\<close>

definition show_key :: "public_key \<Rightarrow> text_str" where
  "show_key pk = codes ''vk_'' @ concat (map (\<lambda>b. [hex_digit (unat b div 16), hex_digit (unat b mod 16)]) (as_bytes pk))"

section \<open>Rows\<close>

text \<open>\<open>UPDATE rows SET f WHERE p\<close>.\<close>

definition update_where :: "('r \<Rightarrow> bool) \<Rightarrow> ('r \<Rightarrow> 'r) \<Rightarrow> 'r list \<Rightarrow> 'r list" where
  "update_where p f rows = map (\<lambda>r. if p r then f r else r) rows"

lemma map_update_where [simp]: "(\<And>r. p r \<Longrightarrow> g (f r) = g r) \<Longrightarrow> map g (update_where p f rows) = map g rows"
  by (simp add: update_where_def)

lemma in_update_where: "x \<in> set (update_where p f rows) \<longleftrightarrow> (\<exists>r \<in> set rows. x = (if p r then f r else r))"
  by (auto simp: update_where_def)

lemma bounded_update_where [simp]:
  "(\<forall>x \<in> set (update_where p f rows). Q x) \<longleftrightarrow> (\<forall>r \<in> set rows. Q (if p r then f r else r))"
  "(\<exists>x \<in> set (update_where p f rows). Q x) \<longleftrightarrow> (\<exists>r \<in> set rows. Q (if p r then f r else r))"
  by (auto simp: update_where_def)

lemma find_update_where:
  "(\<And>r. p r \<Longrightarrow> q (f r) = q r) \<Longrightarrow>
    find q (update_where p f rows) = map_option (\<lambda>r. if p r then f r else r) (find q rows)"
  by (induction rows) (auto simp: update_where_def)

lemma filter_update_where:
  "(\<And>r. p r \<Longrightarrow> q (f r) = q r) \<Longrightarrow> filter q (update_where p f rows) = update_where p f (filter q rows)"
  by (induction rows) (auto simp: update_where_def)

lemma update_where_none [simp]: "(\<And>r. r \<in> set rows \<Longrightarrow> \<not> p r) \<Longrightarrow> update_where p f rows = rows"
  by (simp add: update_where_def map_idI)

record poll_row =
  pl_id :: nat
  pl_channel :: nat
  pl_message :: nat
  pl_creator :: public_key
  pl_question :: text_str
  pl_options :: "text_str list"
  pl_created_at :: nat
  pl_closes_at :: "nat option"
  pl_closed_at :: "nat option"

record vote_row =
  vt_poll :: nat
  vt_voter :: public_key
  vt_option :: nat
  vt_at :: nat

datatype giveaway_status = GiveawayOpen | GiveawayEnded | GiveawayCancelled

record giveaway_row =
  gw_id :: nat
  gw_channel :: nat
  gw_message :: nat
  gw_creator :: public_key
  gw_prize :: text_str
  gw_ends_at :: nat
  gw_status :: giveaway_status
  gw_winner :: "public_key option"
  gw_created_at :: nat

record entry_row =
  ge_giveaway :: nat
  ge_member :: public_key
  ge_at :: nat

datatype reminder_status = ReminderPending | ReminderSent | ReminderCancelled

record reminder_row =
  rm_id :: nat
  rm_owner :: public_key
  rm_channel :: nat
  rm_text :: text_str
  rm_created_at :: nat
  rm_due_at :: nat
  rm_status :: reminder_status
  rm_sent_at :: "nat option"

datatype event_status = EventUpcoming | EventStarted | EventCancelled

record event_card =
  vc_id :: nat
  vc_channel :: nat
  vc_message :: nat
  vc_creator :: public_key
  vc_title :: text_str
  vc_description :: "text_str option"
  vc_location :: "text_str option"
  vc_starts_at :: nat
  vc_remind_lead :: "nat option"
  vc_reminded_at :: "nat option"
  vc_status :: event_status
  vc_started_at :: "nat option"
  vc_cancelled_at :: "nat option"
  vc_cancel_notified_at :: "nat option"
  vc_created_at :: nat

record rsvp_row =
  rs_event :: nat
  rs_member :: public_key
  rs_response :: string
  rs_at :: nat

record widget_db =
  wd_polls :: "poll_row list"
  wd_votes :: "vote_row list"
  wd_giveaways :: "giveaway_row list"
  wd_entries :: "entry_row list"
  wd_reminders :: "reminder_row list"
  wd_events :: "event_card list"
  wd_rsvps :: "rsvp_row list"
  wd_last_poll :: nat
  wd_last_giveaway :: nat
  wd_last_reminder :: nat
  wd_last_event :: nat

record widget_env =
  we_now :: nat
  we_now_ms :: nat
  we_name :: "public_key \<Rightarrow> text_str"
  we_lower :: "text_str \<Rightarrow> text_str"
  we_stamp :: "nat \<Rightarrow> text_str"
  we_pick :: "nat \<Rightarrow> nat"
  we_key :: "nat \<Rightarrow> public_key"
  we_system_key :: public_key

text \<open>Why a transaction is rolled back.\<close>

datatype widget_failure = WriteFailed write_error | Vanished | NotOpen | BadStart event_refusal

abbreviation door :: "write_error + 'a \<Rightarrow> widget_failure + 'a" where
  "door r \<equiv> map_sum WriteFailed id r"

section \<open>Polls\<close>

definition poll_create :: "nat \<Rightarrow> nat \<Rightarrow> nat \<Rightarrow> public_key \<Rightarrow> text_str \<Rightarrow> text_str list \<Rightarrow> nat option \<Rightarrow> widget_db \<Rightarrow> nat \<times> widget_db" where
  "poll_create now channel_id message_id creator question options closes_at W =
     (let i = wd_last_poll W + 1
      in (i, W\<lparr>wd_polls := wd_polls W @ [\<lparr>pl_id = i, pl_channel = channel_id, pl_message = message_id, pl_creator = creator,
             pl_question = question, pl_options = options, pl_created_at = now, pl_closes_at = closes_at, pl_closed_at = None\<rparr>],
             wd_last_poll := i\<rparr>))"

definition poll_get :: "widget_db \<Rightarrow> nat \<Rightarrow> poll_row option" where
  "poll_get W i = find (\<lambda>r. pl_id r = i) (wd_polls W)"

record poll_info =
  pi_id :: nat
  pi_channel :: nat
  pi_message :: nat
  pi_creator :: public_key
  pi_question :: text_str
  pi_options :: "text_str list"
  pi_counts :: "nat list"
  pi_total_votes :: nat
  pi_created_at :: nat
  pi_closes_at :: "nat option"
  pi_closed :: bool

text \<open>A group of votes for an option the poll does not have is not counted.\<close>

definition poll_counts :: "widget_db \<Rightarrow> nat \<Rightarrow> nat \<Rightarrow> nat list" where
  "poll_counts W poll_id n = map (\<lambda>i. length (filter (\<lambda>v. vt_poll v = poll_id \<and> vt_option v = i) (wd_votes W))) [0..<n]"

definition poll_build_info :: "widget_db \<Rightarrow> poll_row \<Rightarrow> poll_info" where
  "poll_build_info W row =
     (let counts = poll_counts W (pl_id row) (length (pl_options row))
      in \<lparr>pi_id = pl_id row, pi_channel = pl_channel row, pi_message = pl_message row, pi_creator = pl_creator row,
          pi_question = pl_question row, pi_options = pl_options row, pi_counts = counts, pi_total_votes = sum_list counts,
          pi_created_at = pl_created_at row, pi_closes_at = pl_closes_at row, pi_closed = (pl_closed_at row \<noteq> None)\<rparr>)"

definition poll_vote :: "nat \<Rightarrow> nat \<Rightarrow> public_key \<Rightarrow> nat \<Rightarrow> widget_db \<Rightarrow> widget_db" where
  "poll_vote now poll_id voter option_index W =
     (if list_ex (\<lambda>v. vt_poll v = poll_id \<and> vt_voter v = voter) (wd_votes W)
      then W\<lparr>wd_votes := update_where (\<lambda>v. vt_poll v = poll_id \<and> vt_voter v = voter)
               (\<lambda>v. v\<lparr>vt_option := option_index, vt_at := now\<rparr>) (wd_votes W)\<rparr>
      else W\<lparr>wd_votes := wd_votes W @ [\<lparr>vt_poll = poll_id, vt_voter = voter, vt_option = option_index, vt_at = now\<rparr>]\<rparr>)"

definition poll_retract :: "nat \<Rightarrow> public_key \<Rightarrow> widget_db \<Rightarrow> bool \<times> widget_db" where
  "poll_retract poll_id voter W =
     (list_ex (\<lambda>v. vt_poll v = poll_id \<and> vt_voter v = voter) (wd_votes W),
      W\<lparr>wd_votes := filter (\<lambda>v. \<not> (vt_poll v = poll_id \<and> vt_voter v = voter)) (wd_votes W)\<rparr>)"

definition update_polls :: "(poll_row \<Rightarrow> bool) \<Rightarrow> (poll_row \<Rightarrow> poll_row) \<Rightarrow> widget_db \<Rightarrow> widget_db" where
  "update_polls p f W = W\<lparr>wd_polls := update_where p f (wd_polls W)\<rparr>"

definition poll_close :: "nat \<Rightarrow> nat \<Rightarrow> widget_db \<Rightarrow> widget_db" where
  "poll_close now poll_id = update_polls (\<lambda>r. pl_id r = poll_id \<and> pl_closed_at r = None) (\<lambda>r. r\<lparr>pl_closed_at := Some now\<rparr>)"

definition poll_due :: "nat \<Rightarrow> poll_row \<Rightarrow> bool" where
  "poll_due now r \<longleftrightarrow> pl_closed_at r = None \<and> (case pl_closes_at r of None \<Rightarrow> False | Some t \<Rightarrow> t \<le> now)"

definition poll_close_due :: "nat \<Rightarrow> widget_db \<Rightarrow> poll_info list \<times> widget_db" where
  "poll_close_due now W =
     fold (\<lambda>row (out, V). let V' = poll_close now (pl_id row) V
             in (out @ [poll_build_info V' (row\<lparr>pl_closed_at := Some now\<rparr>)], V'))
       (filter (poll_due now) (wd_polls W)) ([], W)"

definition polls_open_in_channel :: "nat \<Rightarrow> nat \<Rightarrow> nat \<Rightarrow> widget_db \<Rightarrow> poll_row list" where
  "polls_open_in_channel now channel_id limit W =
     take limit (filter (\<lambda>r. pl_channel r = channel_id \<and> pl_closed_at r = None \<and>
       (case pl_closes_at r of None \<Rightarrow> True | Some t \<Rightarrow> now < t)) (wd_polls W))"

definition my_vote :: "nat \<Rightarrow> public_key \<Rightarrow> widget_db \<Rightarrow> nat option" where
  "my_vote poll_id voter W = map_option vt_option (find (\<lambda>v. vt_poll v = poll_id \<and> vt_voter v = voter) (wd_votes W))"

text \<open>The pointer of a card to its widget, and how it is read back when the card is deleted.\<close>

definition widget_json :: "string \<Rightarrow> nat \<Rightarrow> string" where
  \<open>widget_json kind i = ''{"type":"'' @ kind @ ''","id":'' @ decimal i @ ''}''\<close>

definition create_poll_card :: "widget_env \<Rightarrow> nat \<Rightarrow> public_key \<Rightarrow> parsed_poll \<Rightarrow> server_db \<times> widget_db \<Rightarrow>
    widget_failure + ((message_row \<times> poll_info) \<times> (server_db \<times> widget_db))" where
  "create_poll_card E channel_id invoker parsed st =
     (let content = [0x1F4CA] @ codes '' Poll: '' @ pp_question parsed @
            concat (map (\<lambda>opt. [10] @ codes ''- '' @ opt) (pp_options parsed))
      in try_then (door (insert_message (we_now E) (fst st) channel_id invoker (utf8 content) None)) (\<lambda>(mid, db).
         let (poll_id, W) = poll_create (we_now E) channel_id mid invoker (pp_question parsed) (pp_options parsed)
               (map_option ((+) (we_now E)) (pp_duration_secs parsed)) (snd st);
             db' = set_widget mid (widget_json ''poll'' poll_id) db
         in or_fail (find_message db' mid) Vanished (\<lambda>msg.
            or_fail (poll_get W poll_id) Vanished (\<lambda>row.
            Inr ((msg, poll_build_info W row), (db', W))))))"

section \<open>Giveaways\<close>

definition giveaway_create :: "nat \<Rightarrow> nat \<Rightarrow> nat \<Rightarrow> public_key \<Rightarrow> text_str \<Rightarrow> nat \<Rightarrow> widget_db \<Rightarrow> nat \<times> widget_db" where
  "giveaway_create now channel_id message_id creator prize ends_at W =
     (let i = wd_last_giveaway W + 1
      in (i, W\<lparr>wd_giveaways := wd_giveaways W @ [\<lparr>gw_id = i, gw_channel = channel_id, gw_message = message_id, gw_creator = creator,
             gw_prize = prize, gw_ends_at = ends_at, gw_status = GiveawayOpen, gw_winner = None, gw_created_at = now\<rparr>],
             wd_last_giveaway := i\<rparr>))"

definition giveaway_get :: "widget_db \<Rightarrow> nat \<Rightarrow> giveaway_row option" where
  "giveaway_get W i = find (\<lambda>r. gw_id r = i) (wd_giveaways W)"

record giveaway_info =
  gi_id :: nat
  gi_channel :: nat
  gi_message :: nat
  gi_creator :: public_key
  gi_prize :: text_str
  gi_ends_at :: nat
  gi_status :: giveaway_status
  gi_entry_count :: nat
  gi_winner :: "public_key option"
  gi_winner_name :: "text_str option"

definition member_name :: "widget_env \<Rightarrow> access_db \<Rightarrow> public_key \<Rightarrow> text_str option" where
  "member_name E A pk = map_option (\<lambda>_. we_name E pk) (get_member A pk)"

definition giveaway_build_info :: "widget_env \<Rightarrow> access_db \<Rightarrow> widget_db \<Rightarrow> giveaway_row \<Rightarrow> giveaway_info" where
  "giveaway_build_info E A W row =
     \<lparr>gi_id = gw_id row, gi_channel = gw_channel row, gi_message = gw_message row, gi_creator = gw_creator row, gi_prize = gw_prize row,
      gi_ends_at = gw_ends_at row, gi_status = gw_status row,
      gi_entry_count = length (filter (\<lambda>e. ge_giveaway e = gw_id row) (wd_entries W)),
      gi_winner = gw_winner row, gi_winner_name = Option.bind (gw_winner row) (member_name E A)\<rparr>"

definition my_entered :: "nat \<Rightarrow> public_key \<Rightarrow> widget_db \<Rightarrow> bool" where
  "my_entered giveaway_id member W = list_ex (\<lambda>e. ge_giveaway e = giveaway_id \<and> ge_member e = member) (wd_entries W)"

definition giveaway_enter :: "nat \<Rightarrow> nat \<Rightarrow> public_key \<Rightarrow> widget_db \<Rightarrow> bool \<times> widget_db" where
  "giveaway_enter now giveaway_id member W =
     (if my_entered giveaway_id member W then (False, W)
      else (True, W\<lparr>wd_entries := wd_entries W @ [\<lparr>ge_giveaway = giveaway_id, ge_member = member, ge_at = now\<rparr>]\<rparr>))"

definition giveaway_leave :: "nat \<Rightarrow> public_key \<Rightarrow> widget_db \<Rightarrow> bool \<times> widget_db" where
  "giveaway_leave giveaway_id member W =
     (my_entered giveaway_id member W,
      W\<lparr>wd_entries := filter (\<lambda>e. \<not> (ge_giveaway e = giveaway_id \<and> ge_member e = member)) (wd_entries W)\<rparr>)"

text \<open>A guarded update: whether it hit a row.\<close>

definition update_giveaways :: "(giveaway_row \<Rightarrow> bool) \<Rightarrow> (giveaway_row \<Rightarrow> giveaway_row) \<Rightarrow> widget_db \<Rightarrow> bool \<times> widget_db" where
  "update_giveaways p f W =
     (list_ex p (wd_giveaways W), W\<lparr>wd_giveaways := update_where p f (wd_giveaways W)\<rparr>)"

definition giveaway_cancel :: "nat \<Rightarrow> widget_db \<Rightarrow> bool \<times> widget_db" where
  "giveaway_cancel giveaway_id =
     update_giveaways (\<lambda>r. gw_id r = giveaway_id \<and> gw_status r = GiveawayOpen) (\<lambda>r. r\<lparr>gw_status := GiveawayCancelled\<rparr>)"

definition giveaways_due :: "nat \<Rightarrow> widget_db \<Rightarrow> giveaway_row list" where
  "giveaways_due now W = filter (\<lambda>r. gw_status r = GiveawayOpen \<and> gw_ends_at r \<le> now) (wd_giveaways W)"

definition giveaways_open_in_channel :: "nat \<Rightarrow> nat \<Rightarrow> widget_db \<Rightarrow> giveaway_row list" where
  "giveaways_open_in_channel channel_id limit W =
     take limit (filter (\<lambda>r. gw_channel r = channel_id \<and> gw_status r = GiveawayOpen) (wd_giveaways W))"

definition giveaway_reroll :: "nat \<Rightarrow> public_key \<Rightarrow> widget_db \<Rightarrow> widget_db" where
  "giveaway_reroll giveaway_id winner W =
     snd (update_giveaways (\<lambda>r. gw_id r = giveaway_id \<and> gw_status r = GiveawayEnded) (\<lambda>r. r\<lparr>gw_winner := Some winner\<rparr>) W)"

definition may_win :: "access_db \<Rightarrow> public_key \<Rightarrow> bool" where
  "may_win A pk = (case get_member A pk of None \<Rightarrow> False | Some m \<Rightarrow> \<not> mr_banned m \<and> \<not> mr_revoked m)"

definition eligible_entrants :: "access_db \<Rightarrow> widget_db \<Rightarrow> nat \<Rightarrow> public_key list" where
  "eligible_entrants A W giveaway_id =
     filter (may_win A)
       (map ge_member (sort_key (\<lambda>e. (ge_at e, as_bytes (ge_member e))) (filter (\<lambda>e. ge_giveaway e = giveaway_id) (wd_entries W))))"

definition draw_winner :: "widget_env \<Rightarrow> nat \<Rightarrow> public_key list \<Rightarrow> public_key option" where
  "draw_winner E giveaway_id eligible =
     (if eligible = [] then None else Some (eligible ! (we_pick E giveaway_id mod length eligible)))"

definition display_name_for :: "widget_env \<Rightarrow> access_db \<Rightarrow> public_key \<Rightarrow> text_str" where
  "display_name_for E A pk = (case member_name E A pk of Some n \<Rightarrow> n | None \<Rightarrow> take 11 (show_key pk))"

definition insert_announcement :: "widget_env \<Rightarrow> giveaway_row \<Rightarrow> text_str \<Rightarrow> server_db \<Rightarrow> widget_failure + (message_row \<times> server_db)" where
  "insert_announcement E row txt db =
     try_then (door (insert_message_with_author_name (we_now E) db (gw_channel row) (we_key E (gw_id row)) (utf8 txt)
        (Some (gw_message row)) (Some ''Giveaway'') (Some ''BOT''))) (\<lambda>(mid, db').
     or_fail (find_message db' mid) Vanished (\<lambda>msg. Inr (msg, db')))"

definition close_and_draw :: "widget_env \<Rightarrow> access_db \<Rightarrow> giveaway_row \<Rightarrow> server_db \<times> widget_db \<Rightarrow>
    widget_failure + ((giveaway_info \<times> message_row) \<times> (server_db \<times> widget_db))" where
  "close_and_draw E A row st =
     (let winner = draw_winner E (gw_id row) (eligible_entrants A (snd st) (gw_id row));
          (hit, W) = update_giveaways (\<lambda>r. gw_id r = gw_id row \<and> gw_status r = GiveawayOpen)
             (\<lambda>r. r\<lparr>gw_status := GiveawayEnded, gw_winner := winner\<rparr>) (snd st);
          txt = [0x1F389] @ (case winner of
              Some w \<Rightarrow> codes '' '' @ display_name_for E A w @ codes '' won: '' @ gw_prize row
            | None \<Rightarrow> codes '' Giveaway ended '' @ [0x2014] @ codes '' no entries: '' @ gw_prize row)
      in ensure hit NotOpen
         (try_then (insert_announcement E row txt (fst st)) (\<lambda>(msg, db).
          or_fail (giveaway_get W (gw_id row)) Vanished (\<lambda>updated.
          Inr ((giveaway_build_info E A W updated, msg), (db, W))))))"

definition reroll_and_announce :: "widget_env \<Rightarrow> access_db \<Rightarrow> giveaway_row \<Rightarrow> server_db \<times> widget_db \<Rightarrow>
    widget_failure + ((giveaway_info \<times> message_row) \<times> (server_db \<times> widget_db)) option" where
  "reroll_and_announce E A row st =
     (case draw_winner E (gw_id row) (eligible_entrants A (snd st) (gw_id row)) of
        None \<Rightarrow> Inr None
      | Some winner \<Rightarrow>
          (let W = giveaway_reroll (gw_id row) winner (snd st);
               txt = [0x1F389] @ codes '' Reroll '' @ [0x2014] @ codes '' '' @ display_name_for E A winner @ codes '' won: '' @ gw_prize row
           in try_then (insert_announcement E row txt (fst st)) (\<lambda>(msg, db).
              or_fail (giveaway_get W (gw_id row)) Vanished (\<lambda>updated.
              Inr (Some ((giveaway_build_info E A W updated, msg), (db, W)))))))"

text \<open>A date from the days since 1970, counted in eras of 400 years that begin in March.\<close>

definition civil_from_days :: "nat \<Rightarrow> nat \<times> nat \<times> nat" where
  "civil_from_days days =
     (let z = days + 719468;
          era = z div 146097;
          doe = z mod 146097;
          yoe = (doe - doe div 1460 + doe div 36524 - doe div 146096) div 365;
          doy = doe - (365 * yoe + yoe div 4 - yoe div 100);
          mp = (5 * doy + 2) div 153;
          d = doy - (153 * mp + 2) div 5 + 1;
          m = (if mp < 10 then mp + 3 else mp - 9)
      in (yoe + era * 400 + (if m \<le> 2 then 1 else 0), m, d))"

definition padded :: "nat \<Rightarrow> nat \<Rightarrow> text_str" where
  "padded width n = replicate (width - length (number n)) 48 @ number n"

definition format_utc :: "nat \<Rightarrow> text_str" where
  "format_utc secs =
     (let (y, m, d) = civil_from_days (secs div 86400); rem = secs mod 86400
      in padded 4 y @ codes ''-'' @ padded 2 m @ codes ''-'' @ padded 2 d @ codes '' '' @
         padded 2 (rem div 3600) @ codes '':'' @ padded 2 (rem mod 3600 div 60) @ codes '' UTC'')"

definition create_giveaway_card :: "widget_env \<Rightarrow> access_db \<Rightarrow> nat \<Rightarrow> public_key \<Rightarrow> text_str \<Rightarrow> nat \<Rightarrow> server_db \<times> widget_db \<Rightarrow>
    widget_failure + ((message_row \<times> giveaway_info) \<times> (server_db \<times> widget_db))" where
  "create_giveaway_card E A channel_id invoker prize duration_secs st =
     (let ends_at = we_now E + duration_secs;
          content = [0x1F389] @ codes '' Giveaway: '' @ prize @ codes '' '' @ [0x2014] @ codes '' ends '' @ format_utc ends_at
      in try_then (door (insert_message (we_now E) (fst st) channel_id invoker (utf8 content) None)) (\<lambda>(mid, db).
         let (gid, W) = giveaway_create (we_now E) channel_id mid invoker prize ends_at (snd st);
             db' = set_widget mid (widget_json ''giveaway'' gid) db
         in or_fail (find_message db' mid) Vanished (\<lambda>msg.
            or_fail (giveaway_get W gid) Vanished (\<lambda>row.
            Inr ((msg, giveaway_build_info E A W row), (db', W))))))"

end
