(* ===== verification/WidgetEvents.thy ===== *)
theory WidgetEvents
  imports WidgetState
begin

text \<open>
  Reminders (\<open>reminders.rs\<close>), event cards (\<open>channel_events.rs\<close>) and the sweeper that serves every
  kind of widget (\<open>widgets.rs\<close>), all of \<open>crates/farder-server/src\<close>.
\<close>

section \<open>Reminders\<close>

definition MAX_PENDING_PER_USER :: nat where "MAX_PENDING_PER_USER = 20"
definition REMINDER_DUE_BATCH :: nat where "REMINDER_DUE_BATCH = 200"

definition humanize_delay :: "nat \<Rightarrow> text_str" where
  "humanize_delay secs =
     (if secs < 3600 then number (secs div 60) @ codes ''m''
      else if secs < 86400
      then (let h = secs div 3600; m = secs mod 3600 div 60
            in number h @ codes ''h'' @ (if m = 0 then [] else codes '' '' @ number m @ codes ''m''))
      else (let d = secs div 86400; h = secs mod 86400 div 3600;
                days = (if d = 1 then codes ''1 day'' else number d @ codes '' days'')
            in if h = 0 then days else days @ codes '' '' @ number h @ codes ''h''))"

definition reminder_create :: "public_key \<Rightarrow> nat \<Rightarrow> text_str \<Rightarrow> nat \<Rightarrow> nat \<Rightarrow> widget_db \<Rightarrow> nat \<times> widget_db" where
  "reminder_create owner channel_id txt due_at now W =
     (let i = wd_last_reminder W + 1
      in (i, W\<lparr>wd_reminders := wd_reminders W @ [\<lparr>rm_id = i, rm_owner = owner, rm_channel = channel_id, rm_text = txt,
             rm_created_at = now, rm_due_at = due_at, rm_status = ReminderPending, rm_sent_at = None\<rparr>],
             wd_last_reminder := i\<rparr>))"

definition pending_of :: "public_key \<Rightarrow> widget_db \<Rightarrow> reminder_row list" where
  "pending_of owner W = filter (\<lambda>r. rm_owner r = owner \<and> rm_status r = ReminderPending) (wd_reminders W)"

definition count_pending :: "public_key \<Rightarrow> widget_db \<Rightarrow> nat" where
  "count_pending owner W = length (pending_of owner W)"

definition list_pending_for :: "public_key \<Rightarrow> widget_db \<Rightarrow> reminder_row list" where
  "list_pending_for owner W = take MAX_PENDING_PER_USER (sort_key rm_due_at (pending_of owner W))"

definition update_reminders :: "(reminder_row \<Rightarrow> bool) \<Rightarrow> (reminder_row \<Rightarrow> reminder_row) \<Rightarrow> widget_db \<Rightarrow> bool \<times> widget_db" where
  "update_reminders p f W =
     (list_ex p (wd_reminders W), W\<lparr>wd_reminders := update_where p f (wd_reminders W)\<rparr>)"

definition reminder_cancel :: "nat \<Rightarrow> public_key \<Rightarrow> widget_db \<Rightarrow> bool \<times> widget_db" where
  "reminder_cancel reminder_id owner =
     update_reminders (\<lambda>r. rm_id r = reminder_id \<and> rm_owner r = owner \<and> rm_status r = ReminderPending)
       (\<lambda>r. r\<lparr>rm_status := ReminderCancelled\<rparr>)"

definition reminders_due :: "nat \<Rightarrow> widget_db \<Rightarrow> reminder_row list" where
  "reminders_due now W =
     take REMINDER_DUE_BATCH (sort_key rm_due_at (filter (\<lambda>r. rm_status r = ReminderPending \<and> rm_due_at r \<le> now) (wd_reminders W)))"

definition mark_sent :: "nat \<Rightarrow> nat \<Rightarrow> widget_db \<Rightarrow> bool \<times> widget_db" where
  "mark_sent reminder_id now =
     update_reminders (\<lambda>r. rm_id r = reminder_id \<and> rm_status r = ReminderPending)
       (\<lambda>r. r\<lparr>rm_status := ReminderSent, rm_sent_at := Some now\<rparr>)"

record reminder_info =
  ri_id :: nat
  ri_text :: text_str
  ri_due_at :: nat
  ri_created_at :: nat
  ri_channel :: nat

definition reminder_to_info :: "reminder_row \<Rightarrow> reminder_info" where
  "reminder_to_info row =
     \<lparr>ri_id = rm_id row, ri_text = rm_text row, ri_due_at = rm_due_at row, ri_created_at = rm_created_at row, ri_channel = rm_channel row\<rparr>"

section \<open>Events\<close>

definition ATTENDEE_NAME_CAP :: nat where "ATTENDEE_NAME_CAP = 10"
definition EVENT_DUE_BATCH :: nat where "EVENT_DUE_BATCH = 200"
definition REMIND_LEADS :: "nat list" where "REMIND_LEADS = [900, 3600, 86400]"

definition event_create :: "nat \<Rightarrow> nat \<Rightarrow> nat \<Rightarrow> public_key \<Rightarrow> parsed_event \<Rightarrow> nat \<Rightarrow> widget_db \<Rightarrow> nat \<times> widget_db" where
  "event_create now channel_id message_id creator parsed starts_at W =
     (let i = wd_last_event W + 1
      in (i, W\<lparr>wd_events := wd_events W @ [\<lparr>vc_id = i, vc_channel = channel_id, vc_message = message_id, vc_creator = creator,
             vc_title = pe_title parsed, vc_description = pe_description parsed, vc_location = pe_location parsed,
             vc_starts_at = starts_at, vc_remind_lead = pe_remind_lead parsed, vc_reminded_at = None, vc_status = EventUpcoming,
             vc_started_at = None, vc_cancelled_at = None, vc_cancel_notified_at = None, vc_created_at = now\<rparr>],
             wd_last_event := i\<rparr>))"

definition event_get :: "widget_db \<Rightarrow> nat \<Rightarrow> event_card option" where
  "event_get W i = find (\<lambda>r. vc_id r = i) (wd_events W)"

text \<open>The answers to an event, the earliest first.\<close>

definition rsvps_of :: "nat \<Rightarrow> widget_db \<Rightarrow> rsvp_row list" where
  "rsvps_of event_id W = sort_key rs_at (filter (\<lambda>r. rs_event r = event_id) (wd_rsvps W))"

record event_info =
  ei_id :: nat
  ei_channel :: nat
  ei_message :: nat
  ei_creator :: public_key
  ei_title :: text_str
  ei_description :: "text_str option"
  ei_location :: "text_str option"
  ei_starts_at :: nat
  ei_remind_lead :: "nat option"
  ei_status :: event_status
  ei_going_count :: nat
  ei_maybe_count :: nat
  ei_no_count :: nat
  ei_going_names :: "text_str list"
  ei_maybe_names :: "text_str list"
  ei_no_names :: "text_str list"

text \<open>The names of one answer: a member without a row is passed over, and at the cap it stops.\<close>

definition attendee_names :: "widget_env \<Rightarrow> access_db \<Rightarrow> string \<Rightarrow> rsvp_row list \<Rightarrow> text_str list" where
  "attendee_names E A response rows =
     foldl (\<lambda>names r. if rs_response r = response \<and> length names < ATTENDEE_NAME_CAP
                      then names @ (case member_name E A (rs_member r) of None \<Rightarrow> [] | Some n \<Rightarrow> [n]) else names) [] rows"

definition event_build_info :: "widget_env \<Rightarrow> access_db \<Rightarrow> widget_db \<Rightarrow> event_card \<Rightarrow> event_info" where
  "event_build_info E A W row =
     (let rows = rsvps_of (vc_id row) W; count = (\<lambda>response. length (filter (\<lambda>r. rs_response r = response) rows))
      in \<lparr>ei_id = vc_id row, ei_channel = vc_channel row, ei_message = vc_message row, ei_creator = vc_creator row,
          ei_title = vc_title row, ei_description = vc_description row, ei_location = vc_location row,
          ei_starts_at = vc_starts_at row, ei_remind_lead = vc_remind_lead row, ei_status = vc_status row,
          ei_going_count = count ''going'', ei_maybe_count = count ''maybe'', ei_no_count = count ''no'',
          ei_going_names = attendee_names E A ''going'' rows, ei_maybe_names = attendee_names E A ''maybe'' rows,
          ei_no_names = attendee_names E A ''no'' rows\<rparr>)"

definition event_rsvp :: "nat \<Rightarrow> nat \<Rightarrow> public_key \<Rightarrow> string \<Rightarrow> widget_db \<Rightarrow> widget_db" where
  "event_rsvp now event_id member response W =
     (if list_ex (\<lambda>r. rs_event r = event_id \<and> rs_member r = member) (wd_rsvps W)
      then W\<lparr>wd_rsvps := update_where (\<lambda>r. rs_event r = event_id \<and> rs_member r = member)
               (\<lambda>r. r\<lparr>rs_response := response, rs_at := now\<rparr>) (wd_rsvps W)\<rparr>
      else W\<lparr>wd_rsvps := wd_rsvps W @ [\<lparr>rs_event = event_id, rs_member = member, rs_response = response, rs_at = now\<rparr>]\<rparr>)"

definition event_clear_rsvp :: "nat \<Rightarrow> public_key \<Rightarrow> widget_db \<Rightarrow> bool \<times> widget_db" where
  "event_clear_rsvp event_id member W =
     (list_ex (\<lambda>r. rs_event r = event_id \<and> rs_member r = member) (wd_rsvps W),
      W\<lparr>wd_rsvps := filter (\<lambda>r. \<not> (rs_event r = event_id \<and> rs_member r = member)) (wd_rsvps W)\<rparr>)"

definition my_rsvp :: "nat \<Rightarrow> public_key \<Rightarrow> widget_db \<Rightarrow> string option" where
  "my_rsvp event_id member W = map_option rs_response (find (\<lambda>r. rs_event r = event_id \<and> rs_member r = member) (wd_rsvps W))"

definition responders :: "nat \<Rightarrow> string list \<Rightarrow> widget_db \<Rightarrow> public_key list" where
  "responders event_id responses W = map rs_member (filter (\<lambda>r. rs_response r \<in> set responses) (rsvps_of event_id W))"

definition update_events :: "(event_card \<Rightarrow> bool) \<Rightarrow> (event_card \<Rightarrow> event_card) \<Rightarrow> widget_db \<Rightarrow> bool \<times> widget_db" where
  "update_events p f W = (list_ex p (wd_events W), W\<lparr>wd_events := update_where p f (wd_events W)\<rparr>)"

definition event_cancel :: "nat \<Rightarrow> nat \<Rightarrow> widget_db \<Rightarrow> bool \<times> widget_db" where
  "event_cancel event_id now =
     update_events (\<lambda>r. vc_id r = event_id \<and> vc_status r = EventUpcoming)
       (\<lambda>r. r\<lparr>vc_status := EventCancelled, vc_cancelled_at := Some now\<rparr>)"

definition event_edit :: "nat \<Rightarrow> text_str \<Rightarrow> text_str option \<Rightarrow> text_str option \<Rightarrow> nat \<Rightarrow> nat option \<Rightarrow> bool \<Rightarrow> widget_db \<Rightarrow> widget_db" where
  "event_edit event_id title description location starts_at remind_lead rearm W =
     snd (update_events (\<lambda>r. vc_id r = event_id \<and> vc_status r = EventUpcoming)
       (\<lambda>r. let r' = r\<lparr>vc_title := title, vc_description := description, vc_location := location, vc_starts_at := starts_at,
                        vc_remind_lead := remind_lead\<rparr>
            in if rearm then r'\<lparr>vc_reminded_at := None\<rparr> else r') W)"

definition lead_due :: "nat \<Rightarrow> event_card \<Rightarrow> bool" where
  "lead_due now r \<longleftrightarrow> vc_status r = EventUpcoming \<and> vc_reminded_at r = None \<and>
     (case vc_remind_lead r of None \<Rightarrow> False | Some lead \<Rightarrow> int (vc_starts_at r) - int lead \<le> int now) \<and> now < vc_starts_at r"

definition list_reminder_due :: "nat \<Rightarrow> widget_db \<Rightarrow> event_card list" where
  "list_reminder_due now W = take EVENT_DUE_BATCH (filter (lead_due now) (wd_events W))"

definition start_due :: "nat \<Rightarrow> event_card \<Rightarrow> bool" where
  "start_due now r \<longleftrightarrow> vc_status r = EventUpcoming \<and> vc_starts_at r \<le> now"

definition list_start_due :: "nat \<Rightarrow> widget_db \<Rightarrow> event_card list" where
  "list_start_due now W = take EVENT_DUE_BATCH (filter (start_due now) (wd_events W))"

definition list_cancel_unnotified :: "widget_db \<Rightarrow> event_card list" where
  "list_cancel_unnotified W =
     take EVENT_DUE_BATCH (filter (\<lambda>r. vc_status r = EventCancelled \<and> vc_cancel_notified_at r = None) (wd_events W))"

definition mark_reminded :: "nat \<Rightarrow> nat \<Rightarrow> widget_db \<Rightarrow> bool \<times> widget_db" where
  "mark_reminded event_id now =
     update_events (\<lambda>r. vc_id r = event_id \<and> vc_reminded_at r = None) (\<lambda>r. r\<lparr>vc_reminded_at := Some now\<rparr>)"

definition mark_cancel_notified :: "nat \<Rightarrow> nat \<Rightarrow> widget_db \<Rightarrow> bool \<times> widget_db" where
  "mark_cancel_notified event_id now =
     update_events (\<lambda>r. vc_id r = event_id \<and> vc_cancel_notified_at r = None) (\<lambda>r. r\<lparr>vc_cancel_notified_at := Some now\<rparr>)"

definition list_upcoming_in_channel :: "nat \<Rightarrow> nat \<Rightarrow> nat \<Rightarrow> widget_db \<Rightarrow> event_card list" where
  "list_upcoming_in_channel now channel_id limit W =
     take limit (filter (\<lambda>r. vc_channel r = channel_id \<and> vc_status r = EventUpcoming \<and> now < vc_starts_at r) (wd_events W))"

definition create_event_card :: "widget_env \<Rightarrow> access_db \<Rightarrow> nat \<Rightarrow> public_key \<Rightarrow> parsed_event \<Rightarrow> server_db \<times> widget_db \<Rightarrow>
    widget_failure + ((message_row \<times> event_info) \<times> (server_db \<times> widget_db))" where
  "create_event_card E A channel_id invoker parsed st =
     try_then (map_sum BadStart id (resolve_start (pe_when parsed) (we_now E))) (\<lambda>starts_at.
     let content = [0x1F4C5] @ codes '' '' @ pe_title parsed @ codes '' '' @ [0x2014] @ codes '' '' @ we_stamp E starts_at @
           (case pe_location parsed of None \<Rightarrow> [] | Some loc \<Rightarrow> [10, 0x1F4CD] @ codes '' '' @ loc) @
           (case pe_description parsed of None \<Rightarrow> [] | Some desc \<Rightarrow> [10] @ desc)
     in try_then (door (insert_message (we_now E) (fst st) channel_id invoker (utf8 content) None)) (\<lambda>(mid, db).
        let (eid, W) = event_create (we_now E) channel_id mid invoker parsed starts_at (snd st);
            db' = set_widget mid (widget_json ''event'' eid) db
        in or_fail (find_message db' mid) Vanished (\<lambda>msg.
           or_fail (event_get W eid) Vanished (\<lambda>row.
           Inr ((msg, event_build_info E A W row), (db', W))))))"

text \<open>\<open>Ok(None)\<close>, and nothing announced, when the guarded flip hits no row.\<close>

definition start_and_announce :: "widget_env \<Rightarrow> access_db \<Rightarrow> event_card \<Rightarrow> public_key \<Rightarrow> server_db \<times> widget_db \<Rightarrow>
    widget_failure + ((event_info \<times> message_row) \<times> (server_db \<times> widget_db)) option" where
  "start_and_announce E A row system_pk st =
     (let (hit, W) = update_events (\<lambda>r. vc_id r = vc_id row \<and> vc_status r = EventUpcoming)
            (\<lambda>r. r\<lparr>vc_status := EventStarted, vc_started_at := Some (we_now E)\<rparr>) (snd st)
      in if \<not> hit then Inr None
         else try_then (door (insert_message_with_author_name (we_now E) (fst st) (vc_channel row) system_pk
                (utf8 ([0x1F4C5] @ codes '' '' @ vc_title row @ codes '' is starting now!''))
                (Some (vc_message row)) (Some ''Events'') (Some ''BOT''))) (\<lambda>(mid, db).
              or_fail (find_message db mid) Vanished (\<lambda>msg.
              or_fail (event_get W (vc_id row)) Vanished (\<lambda>updated.
              Inr (Some ((event_build_info E A W updated, msg), (db, W)))))))"

section \<open>The server\<close>

datatype widget_event =
    NewMessage message_row
  | MessageDeleted nat nat
  | PollUpdated poll_info
  | GiveawayUpdated giveaway_info
  | EventUpdated event_info

type_synonym limiter_queue = "public_key \<rightharpoonup> nat list"

record command_row =
  cm_trigger :: text_str
  cm_name :: string
  cm_kind :: string
  cm_body_text :: "text_str option"
  cm_public_key :: public_key

record widget_server =
  ws_log :: "log_state option"
  ws_access :: access_db
  ws_blocked :: "(public_key \<times> public_key) list"
  ws_tables :: server_db
  ws_widgets :: widget_db
  ws_commands :: "command_row list"
  ws_widget_limiter :: limiter_queue
  ws_command_limiter :: limiter_queue

record sweep_outcome =
  so_broadcasts :: "(nat \<times> widget_event) list"
  so_dms :: "(public_key \<times> text_str) list"

type_synonym sweeping = "sweep_outcome \<times> widget_server"

definition say :: "(nat \<times> widget_event) list \<Rightarrow> (public_key \<times> text_str) list \<Rightarrow> sweep_outcome \<Rightarrow> sweep_outcome" where
  "say events dms out = \<lparr>so_broadcasts = so_broadcasts out @ events, so_dms = so_dms out @ dms\<rparr>"

definition transacted :: "widget_server \<Rightarrow> server_db \<times> widget_db \<Rightarrow> widget_server" where
  "transacted S st = S\<lparr>ws_tables := fst st, ws_widgets := snd st\<rparr>"

abbreviation tables :: "widget_server \<Rightarrow> server_db \<times> widget_db" where
  "tables S \<equiv> (ws_tables S, ws_widgets S)"

text \<open>\<open>get_or_create_system_identity\<close>: the key of the server itself, with the member row it needs.\<close>

definition register_bot_member :: "nat \<Rightarrow> public_key \<Rightarrow> access_db \<Rightarrow> access_db" where
  "register_bot_member now pk A =
     A\<lparr>ad_members := ad_members A @ [\<lparr>mr_key = pk, mr_banned = False, mr_revoked = False, mr_timeout_until = None, mr_joined_at = now\<rparr>]\<rparr>"

definition get_or_create_system_identity :: "widget_env \<Rightarrow> access_db \<Rightarrow> public_key \<times> access_db" where
  "get_or_create_system_identity E A =
     (case ad_system_keys A of
        pk # _ \<Rightarrow> (pk, if get_member A pk = None then register_bot_member (we_now E) pk A else A)
      | [] \<Rightarrow> (let pk = we_system_key E
               in (pk, (register_bot_member (we_now E) pk A)\<lparr>ad_system_keys := [pk]\<rparr>)))"

section \<open>The sweeper\<close>

definition sweep_polls :: "widget_env \<Rightarrow> sweeping \<Rightarrow> sweeping" where
  "sweep_polls E acc =
     (let (infos, W) = poll_close_due (we_now E) (ws_widgets (snd acc))
      in (say (map (\<lambda>info. (pi_channel info, PollUpdated info)) infos) [] (fst acc), (snd acc)\<lparr>ws_widgets := W\<rparr>))"

definition class_refuses :: "widget_server \<Rightarrow> nat \<Rightarrow> bool" where
  "class_refuses S channel_id \<longleftrightarrow> refuses_server_authored_content (resolve (ws_tables S) channel_id)"

definition sweep_giveaway :: "widget_env \<Rightarrow> giveaway_row \<Rightarrow> sweeping \<Rightarrow> sweeping" where
  "sweep_giveaway E row acc =
     (if class_refuses (snd acc) (gw_channel row) then acc
      else case close_and_draw E (ws_access (snd acc)) row (tables (snd acc)) of
             Inl _ \<Rightarrow> acc
           | Inr ((info, msg), st) \<Rightarrow>
               (say [(gi_channel info, GiveawayUpdated info), (gi_channel info, NewMessage msg)] [] (fst acc), transacted (snd acc) st))"

definition reminder_dm_text :: "reminder_row \<Rightarrow> chan_row option \<Rightarrow> text_str" where
  "reminder_dm_text row chan =
     (let start = [0x23F0] @ codes '' '' @ rm_text row @ [10, 0x2014]
      in if (case chan of None \<Rightarrow> False | Some c \<Rightarrow> cn_type c = Dm) then start @ codes '' set in a direct message''
         else start @ codes '' set in #'' @ (case chan of None \<Rightarrow> codes ''a channel'' | Some c \<Rightarrow> codes (cn_name c)) @
              codes '' '' @ [0xB7] @ codes '' farder://channel/'' @ number (rm_channel row))"

definition sweep_reminder :: "widget_env \<Rightarrow> reminder_row \<Rightarrow> sweeping \<Rightarrow> sweeping" where
  "sweep_reminder E row acc =
     (let (hit, W) = mark_sent (rm_id row) (we_now E) (ws_widgets (snd acc))
      in if \<not> hit then acc
         else (say [] [(rm_owner row, reminder_dm_text row (get_chan (ws_access (snd acc)) (rm_channel row)))] (fst acc),
               (snd acc)\<lparr>ws_widgets := W\<rparr>))"

definition event_dm_text :: "text_str \<Rightarrow> event_card \<Rightarrow> text_str" where
  "event_dm_text head row =
     head @ (case vc_location row of None \<Rightarrow> [] | Some loc \<Rightarrow> [10, 0x1F4CD] @ codes '' '' @ loc) @
     [10] @ codes ''farder://widget/event/'' @ number (vc_channel row) @ codes ''/'' @ number (vc_id row)"

definition event_dms :: "event_card \<Rightarrow> string list \<Rightarrow> text_str \<Rightarrow> widget_server \<Rightarrow> (public_key \<times> text_str) list" where
  "event_dms row responses txt S = map (\<lambda>pk. (pk, txt)) (responders (vc_id row) responses (ws_widgets S))"

definition quoted :: "text_str \<Rightarrow> text_str" where
  "quoted title = [34] @ title @ [34]"

definition sweep_lead :: "widget_env \<Rightarrow> event_card \<Rightarrow> sweeping \<Rightarrow> sweeping" where
  "sweep_lead E row acc =
     (let (hit, W) = mark_reminded (vc_id row) (we_now E) (ws_widgets (snd acc)); S = (snd acc)\<lparr>ws_widgets := W\<rparr>
      in if \<not> hit then acc
         else (say [] (event_dms row [''going'', ''maybe'']
                 (event_dm_text ([0x23F0] @ codes '' '' @ quoted (vc_title row) @ codes '' starts soon.'') row) S) (fst acc), S))"

definition sweep_start :: "widget_env \<Rightarrow> public_key \<Rightarrow> event_card \<Rightarrow> sweeping \<Rightarrow> sweeping" where
  "sweep_start E system_pk row acc =
     (if class_refuses (snd acc) (vc_channel row) then acc
      else case start_and_announce E (ws_access (snd acc)) row system_pk (tables (snd acc)) of
             Inl _ \<Rightarrow> acc
           | Inr None \<Rightarrow> acc
           | Inr (Some ((info, msg), st)) \<Rightarrow>
               (let S = transacted (snd acc) st
                in (say [(ei_channel info, EventUpdated info), (ei_channel info, NewMessage msg)]
                      (event_dms row [''going'']
                         (event_dm_text ([0x1F4C5] @ codes '' '' @ quoted (vc_title row) @ codes '' is starting now.'') row) S) (fst acc), S)))"

definition sweep_starts :: "widget_env \<Rightarrow> sweeping \<Rightarrow> sweeping" where
  "sweep_starts E acc =
     (let rows = list_start_due (we_now E) (ws_widgets (snd acc))
      in if rows = [] then acc
         else (let (system_pk, A) = get_or_create_system_identity E (ws_access (snd acc))
               in fold (sweep_start E system_pk) rows (fst acc, (snd acc)\<lparr>ws_access := A\<rparr>)))"

definition sweep_cancelled :: "widget_env \<Rightarrow> event_card \<Rightarrow> sweeping \<Rightarrow> sweeping" where
  "sweep_cancelled E row acc =
     (let (hit, W) = mark_cancel_notified (vc_id row) (we_now E) (ws_widgets (snd acc)); S = (snd acc)\<lparr>ws_widgets := W\<rparr>
      in if \<not> hit then acc
         else (say [] (event_dms row [''going''] ([0x274C] @ codes '' '' @ quoted (vc_title row) @ codes '' was cancelled.'') S) (fst acc), S))"

definition sweep_events :: "widget_env \<Rightarrow> sweeping \<Rightarrow> sweeping" where
  "sweep_events E acc =
     (let acc1 = fold (sweep_lead E) (list_reminder_due (we_now E) (ws_widgets (snd acc))) acc;
          acc2 = sweep_starts E acc1
      in fold (sweep_cancelled E) (list_cancel_unnotified (ws_widgets (snd acc2))) acc2)"

definition sweep_once :: "widget_env \<Rightarrow> widget_server \<Rightarrow> sweep_outcome \<times> widget_server" where
  "sweep_once E S =
     (let acc1 = sweep_polls E (\<lparr>so_broadcasts = [], so_dms = []\<rparr>, S);
          acc2 = fold (sweep_giveaway E) (giveaways_due (we_now E) (ws_widgets (snd acc1))) acc1;
          acc3 = fold (sweep_reminder E) (reminders_due (we_now E) (ws_widgets (snd acc2))) acc2
      in sweep_events E acc3)"

end
