(* ===== verification/WidgetHandlers.thy ===== *)
theory WidgetHandlers
  imports WidgetEvents
begin

text \<open>
  The widget requests of a member: the arms of \<open>handle_request\<close> (\<open>handlers.rs\<close>) for polls, giveaways,
  events, active widgets and reminders, the deletion of a message with its widget hook, the dispatch
  of a slash command (\<open>connection.rs\<close>, \<open>commands.rs\<close>) and the limiter (\<open>state.rs\<close>), all of
  \<open>crates/farder-server/src\<close>.

  A request runs as one step: \<open>handle_request\<close> holds the database throughout; a command takes it several
  times.  A refusal is a constructor named after its text.  An \<open>api\<close> command fetches a page over HTTP,
  and what it makes of it is an argument.
\<close>

section \<open>The limiter\<close>

definition allow :: "nat \<Rightarrow> nat \<Rightarrow> nat \<Rightarrow> public_key \<Rightarrow> limiter_queue \<Rightarrow> bool \<times> limiter_queue" where
  "allow max_per_window window_secs now user users =
     (let queue = dropWhile (\<lambda>front. window_secs \<le> now - front) (case users user of None \<Rightarrow> [] | Some q \<Rightarrow> q)
      in if max_per_window \<le> length queue then (False, users(user \<mapsto> queue))
         else (True, users(user \<mapsto> queue @ [now])))"

section \<open>Requests and answers\<close>

datatype widget_request =
    GetPoll nat
  | VotePoll nat nat
  | RetractVote nat
  | ClosePoll nat
  | GetGiveaway nat
  | EnterGiveaway nat
  | LeaveGiveaway nat
  | CancelGiveaway nat
  | RerollGiveaway nat
  | GetEvent nat
  | RsvpEvent nat string
  | ClearRsvp nat
  | CancelEvent nat
  | EditEvent nat text_str "text_str option" "text_str option" nat "nat option"
  | ListActiveWidgets nat
  | ListMyReminders
  | CancelReminder nat
  | DeleteMessage nat
  | RunCommand text_str nat text_str

datatype widget_refusal =
    NotALogMember bool
  | SlowDown
  | TimedOut nat
  | PollNotFound | PollIsClosed | InvalidOption | PollAlreadyClosed
  | GiveawayNotFound | GiveawayWasCancelled | GiveawayHasEnded | GiveawayAlreadyEnded | OnlyCreatorOrModerator
  | NothingToReroll | NoEligibleEntries
  | EventNotFound | InvalidRsvp | EventWasCancelled | EventHasStarted | EventOver | OnlyUpcoming | InvalidLead
  | BadEvent event_refusal
  | MissingManageServer
  | ChannelNotFound
  | ReminderNotFound | TooManyReminders
  | MessageNotFound | MissingManageMessages
  | E2eeRefused | NotAParticipant | UserBlocked | MissingSendMessages
  | UnknownCommand | CommandMisconfigured | CommandFailed
  | BadPoll poll_refusal | BadGiveaway giveaway_refusal | BadReminder reminder_refusal
  | InternalError

datatype widget_reply =
    Done
  | PollReply poll_info "nat option"
  | GiveawayReply giveaway_info bool
  | EventReply event_info "string option"
  | ActiveWidgets "poll_info list" "giveaway_info list" "event_info list"
  | MyReminders "reminder_info list"
  | Notice text_str
  | Refused widget_refusal
  | Crashed

type_synonym outcome = "widget_reply \<times> (nat \<times> widget_event) list \<times> widget_server"

section \<open>Guards\<close>

definition refuse :: "widget_refusal \<Rightarrow> widget_server \<Rightarrow> outcome" where
  "refuse r S = (Refused r, [], S)"

definition answer :: "widget_reply \<Rightarrow> widget_server \<Rightarrow> outcome" where
  "answer reply S = (reply, [], S)"

definition guarded :: "bool \<Rightarrow> widget_refusal \<Rightarrow> widget_server \<Rightarrow> outcome \<Rightarrow> outcome" where
  "guarded c r S k = (if c then k else refuse r S)"

definition limited :: "widget_env \<Rightarrow> public_key \<Rightarrow> widget_server \<Rightarrow> (widget_server \<Rightarrow> outcome) \<Rightarrow> outcome" where
  "limited E member S k =
     (let (ok, users) = allow 10 10 (we_now E) member (ws_widget_limiter S); S' = S\<lparr>ws_widget_limiter := users\<rparr>
      in guarded ok SlowDown S' (k S'))"

definition unless_timed_out :: "widget_env \<Rightarrow> public_key \<Rightarrow> widget_server \<Rightarrow> (widget_server \<Rightarrow> outcome) \<Rightarrow> outcome" where
  "unless_timed_out E member S k =
     (let (until, A) = is_timed_out (ws_access S) member (we_now_ms E); S' = S\<lparr>ws_access := A\<rparr>
      in case until of None \<Rightarrow> k S' | Some until_ms \<Rightarrow> refuse (TimedOut until_ms) S')"

definition widget_channel_visible :: "widget_server \<Rightarrow> public_key \<Rightarrow> nat \<Rightarrow> bool \<Rightarrow> bool" where
  "widget_channel_visible S member channel_id by_owner \<longleftrightarrow>
     \<not> class_refuses S channel_id \<and> channel_visible (ws_access S) member channel_id by_owner"

definition with_poll :: "public_key \<Rightarrow> bool \<Rightarrow> nat \<Rightarrow> widget_server \<Rightarrow> (poll_row \<Rightarrow> outcome) \<Rightarrow> outcome" where
  "with_poll member by_owner poll_id S k =
     (case poll_get (ws_widgets S) poll_id of
        None \<Rightarrow> refuse PollNotFound S
      | Some row \<Rightarrow> guarded (widget_channel_visible S member (pl_channel row) by_owner) PollNotFound S (k row))"

definition with_giveaway :: "public_key \<Rightarrow> bool \<Rightarrow> nat \<Rightarrow> widget_server \<Rightarrow> (giveaway_row \<Rightarrow> outcome) \<Rightarrow> outcome" where
  "with_giveaway member by_owner giveaway_id S k =
     (case giveaway_get (ws_widgets S) giveaway_id of
        None \<Rightarrow> refuse GiveawayNotFound S
      | Some row \<Rightarrow> guarded (widget_channel_visible S member (gw_channel row) by_owner) GiveawayNotFound S (k row))"

definition visible_event :: "public_key \<Rightarrow> bool \<Rightarrow> nat \<Rightarrow> widget_server \<Rightarrow> event_card option" where
  "visible_event member by_owner event_id S =
     (case event_get (ws_widgets S) event_id of
        None \<Rightarrow> None
      | Some row \<Rightarrow> if widget_channel_visible S member (vc_channel row) by_owner then Some row else None)"

definition with_event :: "public_key \<Rightarrow> bool \<Rightarrow> nat \<Rightarrow> widget_server \<Rightarrow> (event_card \<Rightarrow> outcome) \<Rightarrow> outcome" where
  "with_event member by_owner event_id S k =
     (case visible_event member by_owner event_id S of None \<Rightarrow> refuse EventNotFound S | Some row \<Rightarrow> k row)"

text \<open>The creator or somebody with \<open>MANAGE_SERVER\<close>: of the roles alone, or of the resolved permissions.\<close>

definition creator_or_manager :: "public_key \<Rightarrow> bool \<Rightarrow> public_key \<Rightarrow> widget_server \<Rightarrow> bool" where
  "creator_or_manager member by_owner creator S \<longleftrightarrow>
     creator = member \<or> has (resolve_base_perms (ws_access S) member by_owner) MANAGE_SERVER"

definition creator_or_moderator :: "public_key \<Rightarrow> bool \<Rightarrow> public_key \<Rightarrow> widget_server \<Rightarrow> bool" where
  "creator_or_moderator member by_owner creator S \<longleftrightarrow>
     creator = member \<or> has (resolve_member_server_perms (ws_access S) member by_owner) MANAGE_SERVER"

section \<open>Polls\<close>

definition with_widgets :: "widget_server \<Rightarrow> widget_db \<Rightarrow> widget_server" where
  "with_widgets S W = S\<lparr>ws_widgets := W\<rparr>"

definition poll_over :: "widget_env \<Rightarrow> poll_row \<Rightarrow> bool" where
  "poll_over E row \<longleftrightarrow> pl_closed_at row \<noteq> None \<or> (case pl_closes_at row of None \<Rightarrow> False | Some t \<Rightarrow> t \<le> we_now E)"

definition get_poll :: "public_key \<Rightarrow> bool \<Rightarrow> nat \<Rightarrow> widget_server \<Rightarrow> outcome" where
  "get_poll member by_owner poll_id S =
     with_poll member by_owner poll_id S (\<lambda>row.
       answer (PollReply (poll_build_info (ws_widgets S) row) (my_vote poll_id member (ws_widgets S))) S)"

definition vote_poll :: "widget_env \<Rightarrow> public_key \<Rightarrow> bool \<Rightarrow> nat \<Rightarrow> nat \<Rightarrow> widget_server \<Rightarrow> outcome" where
  "vote_poll E member by_owner poll_id option_index S0 =
     limited E member S0 (\<lambda>S1. unless_timed_out E member S1 (\<lambda>S. with_poll member by_owner poll_id S (\<lambda>row.
     guarded (\<not> poll_over E row) PollIsClosed S
     (guarded (option_index < length (pl_options row)) InvalidOption S
     (let W = poll_vote (we_now E) poll_id member option_index (ws_widgets S)
      in (Done, [(pl_channel row, PollUpdated (poll_build_info W row))], with_widgets S W))))))"

definition retract_vote :: "widget_env \<Rightarrow> public_key \<Rightarrow> bool \<Rightarrow> nat \<Rightarrow> widget_server \<Rightarrow> outcome" where
  "retract_vote E member by_owner poll_id S0 =
     limited E member S0 (\<lambda>S1. unless_timed_out E member S1 (\<lambda>S. with_poll member by_owner poll_id S (\<lambda>row.
     guarded (\<not> poll_over E row) PollIsClosed S
     (let (existed, W) = poll_retract poll_id member (ws_widgets S)
      in if \<not> existed then answer Done S
         else (Done, [(pl_channel row, PollUpdated (poll_build_info W row))], with_widgets S W)))))"

definition close_poll :: "widget_env \<Rightarrow> public_key \<Rightarrow> bool \<Rightarrow> nat \<Rightarrow> widget_server \<Rightarrow> outcome" where
  "close_poll E member by_owner poll_id S0 =
     unless_timed_out E member S0 (\<lambda>S. with_poll member by_owner poll_id S (\<lambda>row.
     guarded (pl_closed_at row = None) PollAlreadyClosed S
     (guarded (creator_or_manager member by_owner (pl_creator row) S) MissingManageServer S
     (let W = poll_close (we_now E) poll_id (ws_widgets S)
      in case poll_get W poll_id of
           None \<Rightarrow> refuse InternalError (with_widgets S W)
         | Some closed_row \<Rightarrow> (Done, [(pl_channel row, PollUpdated (poll_build_info W closed_row))], with_widgets S W)))))"

section \<open>Giveaways\<close>

definition get_giveaway :: "widget_env \<Rightarrow> public_key \<Rightarrow> bool \<Rightarrow> nat \<Rightarrow> widget_server \<Rightarrow> outcome" where
  "get_giveaway E member by_owner giveaway_id S =
     with_giveaway member by_owner giveaway_id S (\<lambda>row.
       answer (GiveawayReply (giveaway_build_info E (ws_access S) (ws_widgets S) row) (my_entered giveaway_id member (ws_widgets S))) S)"

definition giveaway_changed :: "widget_env \<Rightarrow> giveaway_row \<Rightarrow> widget_server \<Rightarrow> widget_db \<Rightarrow> outcome" where
  "giveaway_changed E row S W =
     (Done, [(gw_channel row, GiveawayUpdated (giveaway_build_info E (ws_access S) W row))], with_widgets S W)"

definition enter_giveaway :: "widget_env \<Rightarrow> public_key \<Rightarrow> bool \<Rightarrow> nat \<Rightarrow> widget_server \<Rightarrow> outcome" where
  "enter_giveaway E member by_owner giveaway_id S0 =
     limited E member S0 (\<lambda>S1. unless_timed_out E member S1 (\<lambda>S. with_giveaway member by_owner giveaway_id S (\<lambda>row.
     guarded (gw_status row \<noteq> GiveawayCancelled) GiveawayWasCancelled S
     (guarded (gw_status row = GiveawayOpen \<and> we_now E < gw_ends_at row) GiveawayHasEnded S
     (let (inserted, W) = giveaway_enter (we_now E) giveaway_id member (ws_widgets S)
      in if \<not> inserted then answer Done S else giveaway_changed E row S W)))))"

definition leave_giveaway :: "widget_env \<Rightarrow> public_key \<Rightarrow> bool \<Rightarrow> nat \<Rightarrow> widget_server \<Rightarrow> outcome" where
  "leave_giveaway E member by_owner giveaway_id S0 =
     limited E member S0 (\<lambda>S1. unless_timed_out E member S1 (\<lambda>S. with_giveaway member by_owner giveaway_id S (\<lambda>row.
     guarded (gw_status row \<noteq> GiveawayCancelled) GiveawayWasCancelled S
     (guarded (gw_status row = GiveawayOpen) GiveawayHasEnded S
     (let (existed, W) = giveaway_leave giveaway_id member (ws_widgets S)
      in if \<not> existed then answer Done S else giveaway_changed E row S W)))))"

definition cancel_giveaway :: "widget_env \<Rightarrow> public_key \<Rightarrow> bool \<Rightarrow> nat \<Rightarrow> widget_server \<Rightarrow> outcome" where
  "cancel_giveaway E member by_owner giveaway_id S0 =
     unless_timed_out E member S0 (\<lambda>S. with_giveaway member by_owner giveaway_id S (\<lambda>row.
     guarded (creator_or_moderator member by_owner (gw_creator row) S) OnlyCreatorOrModerator S
     (guarded (gw_status row = GiveawayOpen) GiveawayAlreadyEnded S
     (let W = snd (giveaway_cancel giveaway_id (ws_widgets S))
      in case giveaway_get W giveaway_id of
           None \<Rightarrow> refuse InternalError (with_widgets S W)
         | Some updated \<Rightarrow> giveaway_changed E updated S W))))"

definition reroll_giveaway :: "widget_env \<Rightarrow> public_key \<Rightarrow> bool \<Rightarrow> nat \<Rightarrow> widget_server \<Rightarrow> outcome" where
  "reroll_giveaway E member by_owner giveaway_id S0 =
     unless_timed_out E member S0 (\<lambda>S. with_giveaway member by_owner giveaway_id S (\<lambda>row.
     guarded (creator_or_moderator member by_owner (gw_creator row) S) OnlyCreatorOrModerator S
     (guarded (gw_status row = GiveawayEnded \<and> gw_winner row \<noteq> None) NothingToReroll S
     (case reroll_and_announce E (ws_access S) row (tables S) of
        Inl _ \<Rightarrow> refuse InternalError S
      | Inr None \<Rightarrow> refuse NoEligibleEntries S
      | Inr (Some ((info, msg), st)) \<Rightarrow>
          (Done, [(gw_channel row, GiveawayUpdated info), (gw_channel row, NewMessage msg)], transacted S st)))))"

section \<open>Events\<close>

definition event_changed :: "widget_env \<Rightarrow> nat \<Rightarrow> event_card \<Rightarrow> widget_server \<Rightarrow> widget_db \<Rightarrow> outcome" where
  "event_changed E channel_id row S W =
     (Done, [(channel_id, EventUpdated (event_build_info E (ws_access S) W row))], with_widgets S W)"

definition get_event :: "widget_env \<Rightarrow> public_key \<Rightarrow> bool \<Rightarrow> nat \<Rightarrow> widget_server \<Rightarrow> outcome" where
  "get_event E member by_owner event_id S =
     with_event member by_owner event_id S (\<lambda>row.
       answer (EventReply (event_build_info E (ws_access S) (ws_widgets S) row) (my_rsvp event_id member (ws_widgets S))) S)"

definition rsvp_event :: "widget_env \<Rightarrow> public_key \<Rightarrow> bool \<Rightarrow> nat \<Rightarrow> string \<Rightarrow> widget_server \<Rightarrow> outcome" where
  "rsvp_event E member by_owner event_id response S0 =
     limited E member S0 (\<lambda>S1. unless_timed_out E member S1 (\<lambda>S. with_event member by_owner event_id S (\<lambda>row.
     guarded (response \<in> {''going'', ''maybe'', ''no''}) InvalidRsvp S
     (guarded (vc_status row \<noteq> EventCancelled) EventWasCancelled S
     (guarded (vc_status row = EventUpcoming \<and> we_now E < vc_starts_at row) EventHasStarted S
     (event_changed E (vc_channel row) row S (event_rsvp (we_now E) event_id member response (ws_widgets S))))))))"

definition clear_rsvp :: "widget_env \<Rightarrow> public_key \<Rightarrow> bool \<Rightarrow> nat \<Rightarrow> widget_server \<Rightarrow> outcome" where
  "clear_rsvp E member by_owner event_id S0 =
     limited E member S0 (\<lambda>S1. unless_timed_out E member S1 (\<lambda>S. with_event member by_owner event_id S (\<lambda>row.
     guarded (vc_status row \<noteq> EventCancelled) EventWasCancelled S
     (guarded (vc_status row = EventUpcoming \<and> we_now E < vc_starts_at row) EventHasStarted S
     (let (existed, W) = event_clear_rsvp event_id member (ws_widgets S)
      in if \<not> existed then answer Done S else event_changed E (vc_channel row) row S W)))))"

definition cancel_event :: "widget_env \<Rightarrow> public_key \<Rightarrow> bool \<Rightarrow> nat \<Rightarrow> widget_server \<Rightarrow> outcome" where
  "cancel_event E member by_owner event_id S0 =
     limited E member S0 (\<lambda>S1. unless_timed_out E member S1 (\<lambda>S. with_event member by_owner event_id S (\<lambda>row.
     guarded (vc_status row = EventUpcoming) EventOver S
     (guarded (creator_or_manager member by_owner (vc_creator row) S) MissingManageServer S
     (let W = snd (event_cancel event_id (we_now E) (ws_widgets S))
      in case event_get W event_id of
           None \<Rightarrow> refuse InternalError (with_widgets S W)
         | Some updated \<Rightarrow> event_changed E (vc_channel row) updated S W)))))"

definition trimmed_field :: "text_str option \<Rightarrow> text_str option" where
  "trimmed_field f = (case map_option trim_ws f of None \<Rightarrow> None | Some [] \<Rightarrow> None | Some s \<Rightarrow> Some s)"

definition edit_event :: "widget_env \<Rightarrow> public_key \<Rightarrow> bool \<Rightarrow> nat \<Rightarrow> text_str \<Rightarrow> text_str option \<Rightarrow> text_str option \<Rightarrow> nat \<Rightarrow> nat option \<Rightarrow>
    widget_server \<Rightarrow> outcome" where
  "edit_event E member by_owner event_id title0 description0 location0 starts_at remind_lead S0 =
     limited E member S0 (\<lambda>S1. unless_timed_out E member S1 (\<lambda>S. with_event member by_owner event_id S (\<lambda>row.
     guarded (vc_status row = EventUpcoming) OnlyUpcoming S
     (guarded (creator_or_manager member by_owner (vc_creator row) S) MissingManageServer S
     (let title = trim_ws title0; description = trimmed_field description0; location = trimmed_field location0
      in case validate_event_fields title description location of
           Inl reason \<Rightarrow> refuse (BadEvent reason) S
         | Inr _ \<Rightarrow>
             (case resolve_start (Absolute starts_at) (we_now E) of
                Inl reason \<Rightarrow> refuse (BadEvent reason) S
              | Inr _ \<Rightarrow>
                  guarded (case remind_lead of None \<Rightarrow> True | Some lead \<Rightarrow> lead \<in> set REMIND_LEADS) InvalidLead S
                  (let W = event_edit event_id title description location starts_at remind_lead (starts_at \<noteq> vc_starts_at row) (ws_widgets S)
                   in case event_get W event_id of
                        None \<Rightarrow> refuse InternalError (with_widgets S W)
                      | Some updated \<Rightarrow> event_changed E (vc_channel row) updated S W)))))))"

section \<open>Active widgets and reminders\<close>

definition ACTIVE_WIDGETS_CAP :: nat where "ACTIVE_WIDGETS_CAP = 20"

text \<open>
  The merge of the three lists by creation, the earliest first and at most \<open>n\<close> in all: on a tie the
  poll comes before the giveaway and the giveaway before the event.
\<close>

fun merge_active :: "nat \<Rightarrow> poll_row list \<Rightarrow> giveaway_row list \<Rightarrow> event_card list \<Rightarrow>
    poll_row list \<times> giveaway_row list \<times> event_card list" where
  "merge_active 0 ps gs es = ([], [], [])"
| "merge_active (Suc n) ps gs es =
     (let pick1 = (case ps of [] \<Rightarrow> None | p # _ \<Rightarrow> Some (0 :: nat, pl_created_at p));
          pick2 = (case gs of [] \<Rightarrow> pick1
             | g # _ \<Rightarrow> if (case pick1 of None \<Rightarrow> True | Some (_, c) \<Rightarrow> gw_created_at g < c) then Some (1, gw_created_at g) else pick1);
          pick3 = (case es of [] \<Rightarrow> pick2
             | e # _ \<Rightarrow> if (case pick2 of None \<Rightarrow> True | Some (_, c) \<Rightarrow> vc_created_at e < c) then Some (2, vc_created_at e) else pick2)
      in case pick3 of
           None \<Rightarrow> ([], [], [])
         | Some (k, _) \<Rightarrow>
             if k = 0 then (let (ps', gs', es') = merge_active n (tl ps) gs es in (hd ps # ps', gs', es'))
             else if k = 1 then (let (ps', gs', es') = merge_active n ps (tl gs) es in (ps', hd gs # gs', es'))
             else (let (ps', gs', es') = merge_active n ps gs (tl es) in (ps', gs', hd es # es')))"

definition list_active_widgets :: "widget_env \<Rightarrow> public_key \<Rightarrow> bool \<Rightarrow> nat \<Rightarrow> widget_server \<Rightarrow> outcome" where
  "list_active_widgets E member by_owner channel_id S =
     guarded (widget_channel_visible S member channel_id by_owner) ChannelNotFound S
     (let W = ws_widgets S;
          (ps, gs, es) = merge_active ACTIVE_WIDGETS_CAP
             (polls_open_in_channel (we_now E) channel_id ACTIVE_WIDGETS_CAP W)
             (giveaways_open_in_channel channel_id ACTIVE_WIDGETS_CAP W)
             (list_upcoming_in_channel (we_now E) channel_id ACTIVE_WIDGETS_CAP W)
      in answer (ActiveWidgets (map (poll_build_info W) ps) (map (giveaway_build_info E (ws_access S) W) gs)
           (map (event_build_info E (ws_access S) W) es)) S)"

definition list_my_reminders :: "public_key \<Rightarrow> widget_server \<Rightarrow> outcome" where
  "list_my_reminders member S = answer (MyReminders (map reminder_to_info (list_pending_for member (ws_widgets S)))) S"

definition cancel_reminder :: "widget_env \<Rightarrow> public_key \<Rightarrow> nat \<Rightarrow> widget_server \<Rightarrow> outcome" where
  "cancel_reminder E member reminder_id S0 =
     limited E member S0 (\<lambda>S.
     let (cancelled, W) = reminder_cancel reminder_id member (ws_widgets S)
     in guarded cancelled ReminderNotFound S (answer Done (with_widgets S W)))"

section \<open>Deleting a card\<close>

text \<open>The pointer of a card, read back: the text the server itself has written.\<close>

definition parse_widget :: "string \<Rightarrow> (string \<times> nat) option" where
  \<open>parse_widget json =
     (let start = ''{"type":"''; after_start = drop (length start) json;
          kind = takeWhile (\<lambda>c. c \<noteq> CHR 34) after_start;
          mid = ''","id":''; after_mid = drop (length kind + length mid) after_start;
          digits = takeWhile (\<lambda>c. is_digit (of_char c)) after_mid
      in if json = start @ kind @ mid @ digits @ ''}'' \<and> digits \<noteq> []
         then Some (kind, digits_value (codes digits)) else None)\<close>

definition the_list :: "'a option \<Rightarrow> 'a list" where
  "the_list o' = (case o' of None \<Rightarrow> [] | Some x \<Rightarrow> [x])"

text \<open>What the deletion of a card does to an open widget, and says of it (the row that was just found
  is found again).\<close>

definition poll_hook :: "widget_env \<Rightarrow> nat \<Rightarrow> nat \<Rightarrow> widget_server \<Rightarrow> (nat \<times> widget_event) list \<times> widget_server" where
  "poll_hook E channel_id i S =
     (case poll_get (ws_widgets S) i of
        None \<Rightarrow> ([], S)
      | Some row \<Rightarrow>
          if pl_closed_at row \<noteq> None then ([], S)
          else (let W = poll_close (we_now E) i (ws_widgets S)
                in (map (\<lambda>r. (channel_id, PollUpdated (poll_build_info W r))) (the_list (poll_get W i)), with_widgets S W)))"

definition giveaway_hook :: "widget_env \<Rightarrow> nat \<Rightarrow> nat \<Rightarrow> widget_server \<Rightarrow> (nat \<times> widget_event) list \<times> widget_server" where
  "giveaway_hook E channel_id i S =
     (case giveaway_get (ws_widgets S) i of
        None \<Rightarrow> ([], S)
      | Some row \<Rightarrow>
          if gw_status row \<noteq> GiveawayOpen then ([], S)
          else (let W = snd (giveaway_cancel i (ws_widgets S))
                in (map (\<lambda>r. (channel_id, GiveawayUpdated (giveaway_build_info E (ws_access S) W r))) (the_list (giveaway_get W i)),
                    with_widgets S W)))"

definition event_hook :: "widget_env \<Rightarrow> nat \<Rightarrow> nat \<Rightarrow> widget_server \<Rightarrow> (nat \<times> widget_event) list \<times> widget_server" where
  "event_hook E channel_id i S =
     (case event_get (ws_widgets S) i of
        None \<Rightarrow> ([], S)
      | Some row \<Rightarrow>
          if vc_status row \<noteq> EventUpcoming then ([], S)
          else (let W = snd (event_cancel i (we_now E) (ws_widgets S))
                in (map (\<lambda>r. (channel_id, EventUpdated (event_build_info E (ws_access S) W r))) (the_list (event_get W i)),
                    with_widgets S W)))"

definition widget_hook :: "widget_env \<Rightarrow> nat \<Rightarrow> string option \<Rightarrow> widget_server \<Rightarrow> (nat \<times> widget_event) list \<times> widget_server" where
  "widget_hook E channel_id widget S =
     (case Option.bind widget parse_widget of
        None \<Rightarrow> ([], S)
      | Some (kind, i) \<Rightarrow>
          if kind = ''poll'' then poll_hook E channel_id i S
          else if kind = ''giveaway'' then giveaway_hook E channel_id i S
          else if kind = ''event'' then event_hook E channel_id i S
          else ([], S))"

definition delete_message_request :: "widget_env \<Rightarrow> public_key \<Rightarrow> bool \<Rightarrow> nat \<Rightarrow> widget_server \<Rightarrow> outcome" where
  "delete_message_request E member by_owner message_id S =
     (case find_message (ws_tables S) message_id of
        None \<Rightarrow> refuse MessageNotFound S
      | Some msg \<Rightarrow>
          guarded (mr_author msg = member \<or> has (resolve_member_perms (ws_access S) member (mr_channel msg) by_owner) MANAGE_MESSAGES)
            MissingManageMessages S
          (case delete_message message_id (ws_tables S) of
             Inl _ \<Rightarrow> refuse InternalError S
           | Inr (_, db) \<Rightarrow>
               (let (events, S') = widget_hook E (mr_channel msg) (mr_widget msg) (S\<lparr>ws_tables := db\<rparr>)
                in (Done, (mr_channel msg, MessageDeleted message_id (mr_channel msg)) # events, S'))))"

section \<open>Commands\<close>

text \<open>\<open>content_block_reason\<close>: whether the caller's join is pending, when it is not a member of the log.\<close>

definition content_block_reason :: "widget_server \<Rightarrow> public_key \<Rightarrow> bool option" where
  "content_block_reason S member =
     (case ws_log S of
        None \<Rightarrow> None
      | Some ls \<Rightarrow> if is_member ls member then None else Some (is_pending ls member))"

definition is_blocked :: "widget_server \<Rightarrow> public_key \<Rightarrow> public_key \<Rightarrow> bool" where
  "is_blocked S a b \<longleftrightarrow> (a, b) \<in> set (ws_blocked S) \<or> (b, a) \<in> set (ws_blocked S)"

text \<open>The other participant of a direct message, as \<open>list_dm_channels\<close> finds it.\<close>

definition other_participant :: "access_db \<Rightarrow> nat \<Rightarrow> public_key \<Rightarrow> public_key option" where
  "other_participant A channel_id member =
     map_option snd (find (\<lambda>(c, pk). c = channel_id \<and> pk \<noteq> member) (ad_dm_participants A))"

definition check_run_command_channel_auth :: "widget_env \<Rightarrow> public_key \<Rightarrow> bool \<Rightarrow> nat \<Rightarrow> widget_server \<Rightarrow> (widget_server \<Rightarrow> outcome) \<Rightarrow> outcome" where
  "check_run_command_channel_auth E member by_owner channel_id S0 k =
     unless_timed_out E member S0 (\<lambda>S.
     guarded (\<not> class_refuses S channel_id) E2eeRefused S
     (case get_chan (ws_access S) channel_id of
        None \<Rightarrow> refuse InternalError S
      | Some c \<Rightarrow>
          if cn_type c = Dm then
            guarded (is_dm_participant (ws_access S) channel_id member) NotAParticipant S
            (guarded (case other_participant (ws_access S) channel_id member of None \<Rightarrow> True | Some other \<Rightarrow> \<not> is_blocked S member other)
               UserBlocked S (k S))
          else guarded (has (resolve_member_perms (ws_access S) member channel_id by_owner) SEND_MESSAGES) MissingSendMessages S (k S)))"

definition posted :: "nat \<Rightarrow> widget_server \<Rightarrow> ('i \<Rightarrow> widget_event) \<Rightarrow>
    widget_failure + ((message_row \<times> 'i) \<times> (server_db \<times> widget_db)) \<Rightarrow> outcome" where
  "posted channel_id S event r =
     (case r of
        Inl _ \<Rightarrow> refuse InternalError S
      | Inr ((msg, info), st) \<Rightarrow> (Done, [(channel_id, NewMessage msg), (channel_id, event info)], transacted S st))"

text \<open>A parser's answer: it panics, refuses, or goes on.\<close>

definition parsed_args :: "('r + 'p) option \<Rightarrow> ('r \<Rightarrow> widget_refusal) \<Rightarrow> widget_server \<Rightarrow> ('p \<Rightarrow> outcome) \<Rightarrow> outcome" where
  "parsed_args r reason S k =
     (case r of None \<Rightarrow> answer Crashed S | Some (Inl e) \<Rightarrow> refuse (reason e) S | Some (Inr p) \<Rightarrow> k p)"

definition run_poll :: "widget_env \<Rightarrow> public_key \<Rightarrow> nat \<Rightarrow> text_str \<Rightarrow> widget_server \<Rightarrow> outcome" where
  "run_poll E member channel_id args S =
     parsed_args (parse_poll_args (we_lower E) args) BadPoll S (\<lambda>parsed.
       posted channel_id S PollUpdated (create_poll_card E channel_id member parsed (tables S)))"

definition run_giveaway :: "widget_env \<Rightarrow> public_key \<Rightarrow> bool \<Rightarrow> nat \<Rightarrow> text_str \<Rightarrow> widget_server \<Rightarrow> outcome" where
  "run_giveaway E member by_owner channel_id args S =
     guarded (has (resolve_member_server_perms (ws_access S) member by_owner) MANAGE_SERVER) MissingManageServer S
     (parsed_args (parse_giveaway_args args) BadGiveaway S (\<lambda>(duration_secs, prize).
       posted channel_id S GiveawayUpdated (create_giveaway_card E (ws_access S) channel_id member prize duration_secs (tables S))))"

definition run_event :: "widget_env \<Rightarrow> public_key \<Rightarrow> nat \<Rightarrow> text_str \<Rightarrow> widget_server \<Rightarrow> outcome" where
  "run_event E member channel_id args S =
     parsed_args (parse_event_args args) BadEvent S (\<lambda>parsed.
       case resolve_start (pe_when parsed) (we_now E) of
         Inl reason \<Rightarrow> refuse (BadEvent reason) S
       | Inr _ \<Rightarrow> posted channel_id S EventUpdated (create_event_card E (ws_access S) channel_id member parsed (tables S)))"

definition run_reminder :: "widget_env \<Rightarrow> public_key \<Rightarrow> nat \<Rightarrow> text_str \<Rightarrow> widget_server \<Rightarrow> outcome" where
  "run_reminder E member channel_id args S =
     parsed_args (parse_reminder_args args) BadReminder S (\<lambda>(delay_secs, txt).
       guarded (count_pending member (ws_widgets S) < MAX_PENDING_PER_USER) TooManyReminders S
       (let W = snd (reminder_create member channel_id txt (we_now E + delay_secs) (we_now E) (ws_widgets S))
        in answer (Notice ([0x23F0] @ codes '' Reminder set for '' @ humanize_delay delay_secs @ codes '' '' @ [0x2014] @ codes '' I'' @ [39] @ codes ''ll DM you.''))
             (with_widgets S W)))"

text \<open>A \<open>text\<close> or \<open>api\<close> command posts what its bot says.\<close>

definition run_bot :: "widget_env \<Rightarrow> command_row \<Rightarrow> nat \<Rightarrow> text_str option \<Rightarrow> widget_server \<Rightarrow> outcome" where
  "run_bot E cmd channel_id content S =
     (case content of
        None \<Rightarrow> refuse CommandFailed S
      | Some txt \<Rightarrow>
          (case insert_message_with_author_name (we_now E) (ws_tables S) channel_id (cm_public_key cmd) (utf8 txt) None
                  (Some (cm_name cmd)) (Some ''BOT'') of
             Inl _ \<Rightarrow> refuse InternalError S
           | Inr (mid, db) \<Rightarrow>
               (case find_message db mid of
                  None \<Rightarrow> refuse InternalError (S\<lparr>ws_tables := db\<rparr>)
                | Some msg \<Rightarrow> (Done, [(channel_id, NewMessage msg)], S\<lparr>ws_tables := db\<rparr>))))"

definition find_by_trigger :: "widget_server \<Rightarrow> text_str \<Rightarrow> command_row option" where
  "find_by_trigger S trigger = find (\<lambda>c. cm_trigger c = trigger) (ws_commands S)"

definition run_command :: "(command_row \<Rightarrow> text_str \<Rightarrow> text_str option) \<Rightarrow> widget_env \<Rightarrow> public_key \<Rightarrow> bool \<Rightarrow> text_str \<Rightarrow> nat \<Rightarrow> text_str \<Rightarrow>
    widget_server \<Rightarrow> outcome" where
  "run_command api E member by_owner trigger channel_id args S0 =
     (case content_block_reason S0 member of
        Some pending \<Rightarrow> refuse (NotALogMember pending) S0
      | None \<Rightarrow>
          (let (ok, users) = allow 5 10 (we_now E) member (ws_command_limiter S0); S1 = S0\<lparr>ws_command_limiter := users\<rparr>
           in guarded ok SlowDown S1
              (check_run_command_channel_auth E member by_owner channel_id S1 (\<lambda>S.
               case find_by_trigger S (we_lower E (trim_ws trigger)) of
                 None \<Rightarrow> refuse UnknownCommand S
               | Some cmd \<Rightarrow>
                   if cm_kind cmd = ''poll'' then run_poll E member channel_id args S
                   else if cm_kind cmd = ''giveaway'' then run_giveaway E member by_owner channel_id args S
                   else if cm_kind cmd = ''event'' then run_event E member channel_id args S
                   else if cm_kind cmd = ''reminder'' then run_reminder E member channel_id args S
                   else if cm_kind cmd = ''text'' then run_bot E cmd channel_id (Some (case cm_body_text cmd of None \<Rightarrow> [] | Some b \<Rightarrow> b)) S
                   else if cm_kind cmd = ''api'' then run_bot E cmd channel_id (api cmd args) S
                   else refuse CommandMisconfigured S))))"

section \<open>The dispatch\<close>

definition handle_arm :: "widget_env \<Rightarrow> public_key \<Rightarrow> bool \<Rightarrow> widget_request \<Rightarrow> widget_server \<Rightarrow> outcome" where
  "handle_arm E member by_owner request S =
     (case request of
        GetPoll i \<Rightarrow> get_poll member by_owner i S
      | VotePoll i opt \<Rightarrow> vote_poll E member by_owner i opt S
      | RetractVote i \<Rightarrow> retract_vote E member by_owner i S
      | ClosePoll i \<Rightarrow> close_poll E member by_owner i S
      | GetGiveaway i \<Rightarrow> get_giveaway E member by_owner i S
      | EnterGiveaway i \<Rightarrow> enter_giveaway E member by_owner i S
      | LeaveGiveaway i \<Rightarrow> leave_giveaway E member by_owner i S
      | CancelGiveaway i \<Rightarrow> cancel_giveaway E member by_owner i S
      | RerollGiveaway i \<Rightarrow> reroll_giveaway E member by_owner i S
      | GetEvent i \<Rightarrow> get_event E member by_owner i S
      | RsvpEvent i response \<Rightarrow> rsvp_event E member by_owner i response S
      | ClearRsvp i \<Rightarrow> clear_rsvp E member by_owner i S
      | CancelEvent i \<Rightarrow> cancel_event E member by_owner i S
      | EditEvent i title description location starts_at lead \<Rightarrow>
          edit_event E member by_owner i title description location starts_at lead S
      | ListActiveWidgets c \<Rightarrow> list_active_widgets E member by_owner c S
      | ListMyReminders \<Rightarrow> list_my_reminders member S
      | CancelReminder i \<Rightarrow> cancel_reminder E member i S
      | DeleteMessage i \<Rightarrow> delete_message_request E member by_owner i S
      | RunCommand _ _ _ \<Rightarrow> refuse InternalError S)"

definition handle_widget :: "(command_row \<Rightarrow> text_str \<Rightarrow> text_str option) \<Rightarrow> widget_env \<Rightarrow> public_key \<Rightarrow> bool \<Rightarrow> widget_request \<Rightarrow>
    widget_server \<Rightarrow> outcome" where
  "handle_widget api E member by_owner request S =
     (case request of
        RunCommand trigger channel_id args \<Rightarrow> run_command api E member by_owner trigger channel_id args S
      | _ \<Rightarrow> (case content_block_reason S member of
                Some pending \<Rightarrow> refuse (NotALogMember pending) S
              | None \<Rightarrow> handle_arm E member by_owner request S))"

end
