(* ===== verification/WidgetInv.thy ===== *)
theory WidgetInv
  imports WidgetHandlers
begin

text \<open>
  The life of the widget tables: the small changes a request or a tick of the sweeper is made of, each
  with the condition under which the code makes it, and that no request and no tick does anything
  else.  What every change keeps, a whole run keeps.
\<close>

section \<open>The changes\<close>

definition has_status :: "event_status \<Rightarrow> widget_db \<Rightarrow> nat \<Rightarrow> bool" where
  "has_status st W i \<longleftrightarrow> (\<exists>r \<in> set (wd_events W). vc_id r = i \<and> vc_status r = st)"

inductive change :: "widget_db \<Rightarrow> widget_db \<Rightarrow> bool" where
  new_poll: "change W (snd (poll_create now c m creator q os closes_at W))"
| voted: "poll_get W i = Some r \<Longrightarrow> pl_closed_at r = None \<Longrightarrow> k < length (pl_options r) \<Longrightarrow> change W (poll_vote now i pk k W)"
| retracted: "poll_get W i = Some r \<Longrightarrow> pl_closed_at r = None \<Longrightarrow> change W (snd (poll_retract i pk W))"
| closed: "change W (poll_close now i W)"
| new_giveaway: "change W (snd (giveaway_create now c m creator prize ends_at W))"
| entered: "giveaway_get W i = Some g \<Longrightarrow> gw_status g = GiveawayOpen \<Longrightarrow> change W (snd (giveaway_enter now i pk W))"
| left: "giveaway_get W i = Some g \<Longrightarrow> gw_status g = GiveawayOpen \<Longrightarrow> change W (snd (giveaway_leave i pk W))"
| called_off: "change W (snd (giveaway_cancel i W))"
| drawn: "(\<forall>pk. winner = Some pk \<longrightarrow> my_entered i pk W) \<Longrightarrow>
    change W (snd (update_giveaways (\<lambda>r. gw_id r = i \<and> gw_status r = GiveawayOpen)
      (\<lambda>r. r\<lparr>gw_status := GiveawayEnded, gw_winner := winner\<rparr>) W))"
| rerolled: "my_entered i pk W \<Longrightarrow> change W (giveaway_reroll i pk W)"
| new_reminder: "change W (snd (reminder_create pk c txt due now W))"
| dropped: "change W (snd (reminder_cancel i pk W))"
| fired: "change W (snd (mark_sent i now W))"
| new_event: "change W (snd (event_create now c m creator p starts_at W))"
| answered: "has_status EventUpcoming W i \<Longrightarrow> response \<in> {''going'', ''maybe'', ''no''} \<Longrightarrow> change W (event_rsvp now i pk response W)"
| withdrawn: "has_status EventUpcoming W i \<Longrightarrow> change W (snd (event_clear_rsvp i pk W))"
| edited: "change W (event_edit i title description location starts_at lead rearm W)"
| event_off: "change W (snd (event_cancel i now W))"
| reminded: "has_status EventUpcoming W i \<Longrightarrow> change W (snd (mark_reminded i now W))"
| started: "change W (snd (update_events (\<lambda>r. vc_id r = i \<and> vc_status r = EventUpcoming)
      (\<lambda>r. r\<lparr>vc_status := EventStarted, vc_started_at := Some now\<rparr>) W))"
| told: "has_status EventCancelled W i \<Longrightarrow> change W (snd (mark_cancel_notified i now W))"

abbreviation changes :: "widget_db \<Rightarrow> widget_db \<Rightarrow> bool" where
  "changes \<equiv> change\<^sup>*\<^sup>*"

named_theorems leads_intros

section \<open>Every request is made of changes\<close>

definition leads :: "widget_db \<Rightarrow> outcome \<Rightarrow> bool" where
  "leads W out \<longleftrightarrow> changes W (ws_widgets (snd (snd out)))"

lemma leads_simps [simp]:
  "leads W (refuse r S) = changes W (ws_widgets S)"
  "leads W (answer reply S) = changes W (ws_widgets S)"
  "leads W (reply, events, S) = changes W (ws_widgets S)"
  by (simp_all add: leads_def refuse_def answer_def)

lemma leads_guarded [leads_intros]: "ws_widgets S = W \<Longrightarrow> (c \<Longrightarrow> leads W k) \<Longrightarrow> leads W (guarded c r S k)"
  by (simp add: guarded_def)

lemma leads_limited:
  assumes "\<And>S'. ws_widgets S' = ws_widgets S \<Longrightarrow> leads (ws_widgets S) (k S')"
  shows "leads (ws_widgets S) (limited E m S k)"
  using assms by (auto simp: limited_def Let_def intro!: leads_intros split: prod.split)

lemma leads_unless:
  assumes "\<And>S'. ws_widgets S' = W \<Longrightarrow> leads W (k S')" and "ws_widgets S = W"
  shows "leads W (unless_timed_out E m S k)"
  using assms by (auto simp: unless_timed_out_def Let_def intro!: leads_intros split: prod.split option.split)

lemma leads_with:
  "ws_widgets S = W \<Longrightarrow> (\<And>r. poll_get W i = Some r \<Longrightarrow> leads W (kp r)) \<Longrightarrow> leads W (with_poll m o' i S kp)"
  "ws_widgets S = W \<Longrightarrow> (\<And>g. giveaway_get W i = Some g \<Longrightarrow> leads W (kg g)) \<Longrightarrow> leads W (with_giveaway m o' i S kg)"
  "ws_widgets S = W \<Longrightarrow> (\<And>e. event_get W i = Some e \<Longrightarrow> leads W (ke e)) \<Longrightarrow> leads W (with_event m o' i S ke)"
  by (auto simp: with_poll_def with_giveaway_def with_event_def visible_event_def intro!: leads_intros split: option.split)

lemma in_eligible: "pk \<in> set (eligible_entrants A W i) \<Longrightarrow> my_entered i pk W \<and> may_win A pk"
  by (auto simp: eligible_entrants_def my_entered_def list_ex_iff)

lemma draw_winner_eligible: "draw_winner E i eligible = Some pk \<Longrightarrow> pk \<in> set eligible"
  by (auto simp: draw_winner_def split: if_splits)

lemma card_changes:
  "create_poll_card E c m p (db, W) = Inr (x, st) \<Longrightarrow> change W (snd st)"
  "create_giveaway_card E A c m prize d (db, W) = Inr (y, st) \<Longrightarrow> change W (snd st)"
  "create_event_card E A c m p' (db, W) = Inr (z, st) \<Longrightarrow> change W (snd st)"
  by (auto simp: create_poll_card_def create_giveaway_card_def create_event_card_def Let_def result_simps split_beta
      intro: change.intros)

lemma draw_changes: "close_and_draw E A row (db, W) = Inr (x, st) \<Longrightarrow> change W (snd st)"
  by (auto simp: close_and_draw_def Let_def result_simps split_beta intro!: drawn dest!: draw_winner_eligible in_eligible)

lemma reroll_changes: "reroll_and_announce E A row (db, W) = Inr (Some (x, st)) \<Longrightarrow> change W (snd st)"
  by (auto simp: reroll_and_announce_def Let_def result_simps split_beta split: option.splits
      intro!: rerolled dest!: draw_winner_eligible in_eligible)

lemma start_changes: "start_and_announce E A row pk (db, W) = Inr (Some (x, st)) \<Longrightarrow> change W (snd st)"
  by (auto simp: start_and_announce_def Let_def result_simps split_beta split: if_splits intro!: started)

lemma widgets_simps [simp]:
  "ws_widgets (with_widgets S W) = W"
  "ws_widgets (transacted S st) = snd st"
  by (simp_all add: with_widgets_def transacted_def)

lemma changed_widgets [simp]:
  "ws_widgets (snd (snd (giveaway_changed E g S W))) = W"
  "ws_widgets (snd (snd (event_changed E c e S W))) = W"
  by (simp_all add: giveaway_changed_def event_changed_def)

lemma leads_changed [simp]:
  "leads V (giveaway_changed E g S W) = changes V W"
  "leads V (event_changed E c e S W) = changes V W"
  by (simp_all add: leads_def)

lemmas wrapped = leads_limited leads_unless leads_with leads_guarded
lemmas step_of = change.intros [THEN r_into_rtranclp [of change]]

lemma poll_requests:
  "leads (ws_widgets S) (get_poll m o' i S)"
  "leads (ws_widgets S) (vote_poll E m o' i k S)"
  "leads (ws_widgets S) (retract_vote E m o' i S)"
  "leads (ws_widgets S) (close_poll E m o' i S)"
  unfolding get_poll_def vote_poll_def retract_vote_def close_poll_def
  by (auto intro!: wrapped intro: step_of simp: poll_over_def Let_def split_beta split: option.split)

lemma giveaway_requests:
  "leads (ws_widgets S) (get_giveaway E m o' i S)"
  "leads (ws_widgets S) (enter_giveaway E m o' i S)"
  "leads (ws_widgets S) (leave_giveaway E m o' i S)"
  "leads (ws_widgets S) (cancel_giveaway E m o' i S)"
  "leads (ws_widgets S) (reroll_giveaway E m o' i S)"
  unfolding get_giveaway_def enter_giveaway_def leave_giveaway_def cancel_giveaway_def reroll_giveaway_def
  by (auto intro!: wrapped intro: step_of dest!: reroll_changes simp: Let_def split_beta split: option.split sum.split)

lemma upcomingI: "event_get W i = Some e \<Longrightarrow> vc_status e = EventUpcoming \<Longrightarrow> has_status EventUpcoming W i"
  by (auto simp: has_status_def event_get_def find_Some_iff)

lemma event_requests:
  "leads (ws_widgets S) (get_event E m o' i S)"
  "leads (ws_widgets S) (clear_rsvp E m o' i S)"
  "leads (ws_widgets S) (cancel_event E m o' i S)"
  unfolding get_event_def clear_rsvp_def cancel_event_def
  by (auto intro!: wrapped step_of intro: upcomingI simp: Let_def split_beta split: option.split)

lemma edit_requests: "leads (ws_widgets S) (edit_event E m o' i title description location starts_at lead S)"
  unfolding edit_event_def
  by (auto intro!: wrapped step_of simp: Let_def split: option.split sum.split)

lemma rsvp_requests: "leads (ws_widgets S) (rsvp_event E m o' i response S)"
  unfolding rsvp_event_def by (auto intro!: wrapped step_of intro: upcomingI simp del: insert_iff)

lemma reminder_requests:
  "leads (ws_widgets S) (list_active_widgets E m o' c S)"
  "leads (ws_widgets S) (list_my_reminders m S)"
  "leads (ws_widgets S) (cancel_reminder E m i S)"
  unfolding list_active_widgets_def list_my_reminders_def cancel_reminder_def
  by (auto intro!: wrapped step_of simp: Let_def split_beta)

lemma hook_changes: "changes (ws_widgets S) (ws_widgets (snd (widget_hook E c widget S)))"
proof -
  have "changes (ws_widgets S) (ws_widgets (snd (poll_hook E c i S)))"
    "changes (ws_widgets S) (ws_widgets (snd (giveaway_hook E c i S)))"
    "changes (ws_widgets S) (ws_widgets (snd (event_hook E c i S)))" for i
    by (auto simp: poll_hook_def giveaway_hook_def event_hook_def Let_def intro: step_of split: option.split)
  then show ?thesis by (simp add: widget_hook_def split: option.split prod.split)
qed

lemma delete_requests: "leads (ws_widgets S) (delete_message_request E m o' i S)"
  using hook_changes [of "S\<lparr>ws_tables := db\<rparr>" E for db]
  by (auto simp: delete_message_request_def Let_def split_beta intro!: wrapped split: option.split sum.split)

lemma leads_commands:
  "leads (ws_widgets S) (run_poll E m c args S)"
  "leads (ws_widgets S) (run_giveaway E m o' c args S)"
  "leads (ws_widgets S) (run_event E m c args S)"
  "leads (ws_widgets S) (run_reminder E m c args S)"
  "leads (ws_widgets S) (run_bot E cmd c content S)"
  unfolding run_poll_def run_giveaway_def run_event_def run_reminder_def run_bot_def parsed_args_def posted_def
  by (auto intro!: wrapped dest!: card_changes intro: step_of simp: split_beta Let_def split: option.split sum.split)

lemma leads_auth:
  assumes "\<And>S'. ws_widgets S' = W \<Longrightarrow> leads W (k S')" and "ws_widgets S = W"
  shows "leads W (check_run_command_channel_auth E m o' c S k)"
  using assms by (auto simp: check_run_command_channel_auth_def intro!: wrapped split: option.split)

lemma command_requests: "leads (ws_widgets S) (run_command api E m o' trigger c args S)"
proof -
  have "leads (ws_widgets S)
      (case find_by_trigger S' t of
         None \<Rightarrow> refuse UnknownCommand S'
       | Some cmd \<Rightarrow>
           if cm_kind cmd = ''poll'' then run_poll E m c args S'
           else if cm_kind cmd = ''giveaway'' then run_giveaway E m o' c args S'
           else if cm_kind cmd = ''event'' then run_event E m c args S'
           else if cm_kind cmd = ''reminder'' then run_reminder E m c args S'
           else if cm_kind cmd = ''text'' then run_bot E cmd c (Some (case cm_body_text cmd of None \<Rightarrow> [] | Some b \<Rightarrow> b)) S'
           else if cm_kind cmd = ''api'' then run_bot E cmd c (api cmd args) S'
           else refuse CommandMisconfigured S')" if "ws_widgets S' = ws_widgets S" for S' t
    using leads_commands [of S'] that by (auto split: option.split)
  then show ?thesis
    by (auto simp: run_command_def Let_def split_beta intro!: leads_guarded leads_auth split: option.split)
qed

theorem request_changes: "leads (ws_widgets S) (handle_widget api E m o' request S)"
  using poll_requests [of S] giveaway_requests [of S] event_requests [of S] edit_requests [of S] rsvp_requests [of S]
    reminder_requests [of S] delete_requests [of S] command_requests [of S]
  by (cases request) (simp_all add: handle_widget_def handle_arm_def split: option.split)

section \<open>Every tick is made of changes\<close>

abbreviation (input) held :: "sweeping \<Rightarrow> widget_db" where
  "held acc \<equiv> ws_widgets (snd acc)"

lemma fold_changes:
  assumes "\<And>row acc. row \<in> set rows \<Longrightarrow> P row (held acc) \<Longrightarrow> changes (held acc) (held (f row acc))"
    and "\<And>row row' acc. row \<in> set rows \<Longrightarrow> P row (held acc) \<Longrightarrow> P row' (held acc) \<Longrightarrow> P row' (held (f row acc))"
    and "\<forall>row \<in> set rows. P row (held acc)"
  shows "changes (held acc) (held (fold f rows acc))"
  using assms
proof (induction rows arbitrary: acc)
  case (Cons row rows)
  have "changes (held acc) (held (f row acc))" using Cons.prems(1,3) by simp
  moreover have "changes (held (f row acc)) (held (fold f rows (f row acc)))"
    using Cons.prems by (intro Cons.IH) auto
  ultimately show ?case by simp
qed simp

lemma fold_changes_free:
  assumes "\<And>row acc. changes (held acc) (held (f row acc))"
  shows "changes (held acc) (held (fold f rows acc))"
  by (rule fold_changes [where P = "\<lambda>_ _. True"]) (use assms in auto)

lemma poll_pass_changes: "changes (held acc) (held (sweep_polls E acc))"
proof -
  have "changes W (snd (fold (\<lambda>row (out, V). let V' = poll_close now (pl_id row) V
      in (out @ [poll_build_info V' (row\<lparr>pl_closed_at := Some now\<rparr>)], V')) rows (out, W)))" for now rows out W
  proof (induction rows arbitrary: out W)
    case (Cons row rows)
    show ?case using converse_rtranclp_into_rtranclp [OF closed Cons.IH] by (simp add: Let_def)
  qed simp
  then show ?thesis by (simp add: sweep_polls_def poll_close_due_def split_beta)
qed

lemma giveaway_pass_changes: "changes (held acc) (held (sweep_giveaway E row acc))"
  by (auto simp: sweep_giveaway_def dest: draw_changes split: sum.split)

lemma reminder_pass_changes: "changes (held acc) (held (sweep_reminder E row acc))"
  by (auto simp: sweep_reminder_def Let_def split_beta intro: step_of)

lemma update_keeps_status:
  assumes "\<And>r. p r \<Longrightarrow> vc_id (f r) = vc_id r \<and> vc_status (f r) = vc_status r"
  shows "has_status st (snd (update_events p f W)) i = has_status st W i"
proof -
  have "vc_id (if p r then f r else r) = vc_id r \<and> vc_status (if p r then f r else r) = vc_status r" for r
    using assms by simp
  then show ?thesis by (simp add: has_status_def update_events_def)
qed

lemma lead_pass_changes: "has_status EventUpcoming (held acc) (vc_id row) \<Longrightarrow> changes (held acc) (held (sweep_lead E row acc))"
  and lead_keeps: "has_status st (held acc) i \<Longrightarrow> has_status st (held (sweep_lead E row acc)) i"
  by (auto simp: sweep_lead_def Let_def split_beta mark_reminded_def update_keeps_status intro!: step_of(19) [unfolded mark_reminded_def])

lemma told_pass_changes: "has_status EventCancelled (held acc) (vc_id row) \<Longrightarrow> changes (held acc) (held (sweep_cancelled E row acc))"
  and told_keeps: "has_status st (held acc) i \<Longrightarrow> has_status st (held (sweep_cancelled E row acc)) i"
  by (auto simp: sweep_cancelled_def Let_def split_beta mark_cancel_notified_def update_keeps_status
      intro!: step_of(21) [unfolded mark_cancel_notified_def])

lemma start_pass_changes: "changes (held acc) (held (sweep_starts E acc))"
proof -
  have one: "changes (held acc) (held (sweep_start E pk row acc))" for pk row acc
    by (auto simp: sweep_start_def Let_def dest: start_changes split: sum.split option.split)
  have each: "changes (held acc) (held (fold (sweep_start E pk) rows acc))" for acc pk rows
    by (rule fold_changes_free) (rule one)
  have "changes (ws_widgets S) (held (fold (sweep_start E pk) rows (out, S\<lparr>ws_access := A\<rparr>)))" for S pk rows out A
    using each [of "(out, S\<lparr>ws_access := A\<rparr>)"] by simp
  then show ?thesis by (simp add: sweep_starts_def Let_def split_beta)
qed

text \<open>What each list of the sweeper holds.\<close>

lemma due_lists:
  "row \<in> set (list_reminder_due now W) \<Longrightarrow> has_status EventUpcoming W (vc_id row)"
  "row \<in> set (list_cancel_unnotified W) \<Longrightarrow> has_status EventCancelled W (vc_id row)"
  by (auto simp: list_reminder_due_def list_cancel_unnotified_def lead_due_def has_status_def dest!: in_set_takeD)

theorem tick_changes: "changes (ws_widgets S) (ws_widgets (snd (sweep_once E S)))"
proof -
  have leads: "changes (held acc) (held (fold (sweep_lead E) (list_reminder_due now (held acc)) acc))" for acc now
    by (rule fold_changes [where P = "\<lambda>row W. has_status EventUpcoming W (vc_id row)"])
       (auto intro: lead_pass_changes lead_keeps dest: due_lists)
  have tells: "changes (held acc) (held (fold (sweep_cancelled E) (list_cancel_unnotified (held acc)) acc))" for acc
    by (rule fold_changes [where P = "\<lambda>row W. has_status EventCancelled W (vc_id row)"])
       (auto intro: told_pass_changes told_keeps dest: due_lists)
  have "changes (held acc) (held (sweep_events E acc))" for acc
    unfolding sweep_events_def Let_def by (meson leads tells start_pass_changes rtranclp_trans)
  moreover have "changes (held acc) (held (fold (sweep_reminder E) rows acc))" for acc rows
    by (rule fold_changes_free) (rule reminder_pass_changes)
  moreover have "changes (held acc) (held (fold (sweep_giveaway E) rows acc))" for acc rows
    by (rule fold_changes_free) (rule giveaway_pass_changes)
  moreover have "changes (ws_widgets S) (held (sweep_polls E (out, S)))" for out
    using poll_pass_changes [of "(out, S)"] by simp
  ultimately show ?thesis unfolding sweep_once_def Let_def by (meson rtranclp_trans)
qed

section \<open>Runs\<close>

text \<open>
  A run: requests of members, ticks of the sweeper, and steps elsewhere in the server, which may change
  everything but the widget tables.
\<close>

datatype widget_step =
    Asked widget_env public_key bool widget_request
  | Ticked widget_env
  | Elsewhere widget_server

definition widget_step :: "(command_row \<Rightarrow> text_str \<Rightarrow> text_str option) \<Rightarrow> widget_step \<Rightarrow> widget_server \<Rightarrow> widget_server" where
  "widget_step api step S =
     (case step of
        Asked E member by_owner request \<Rightarrow> snd (snd (handle_widget api E member by_owner request S))
      | Ticked E \<Rightarrow> snd (sweep_once E S)
      | Elsewhere T \<Rightarrow> T\<lparr>ws_widgets := ws_widgets S\<rparr>)"

definition widget_run :: "(command_row \<Rightarrow> text_str \<Rightarrow> text_str option) \<Rightarrow> widget_step list \<Rightarrow> widget_server \<Rightarrow> widget_server" where
  "widget_run api steps S = fold (widget_step api) steps S"

lemma step_changes: "changes (ws_widgets S) (ws_widgets (widget_step api step S))"
  using request_changes tick_changes by (auto simp: widget_step_def leads_def split: widget_step.split)

lemma run_changes: "changes (ws_widgets S) (ws_widgets (widget_run api steps S))"
  unfolding widget_run_def by (induction steps arbitrary: S) (auto intro: step_changes rtranclp_trans)

end
