(* ===== verification/WidgetDemo.thy ===== *)
theory WidgetDemo
  imports WidgetInv
begin

text \<open>
  A small server on which the properties of the widgets are run: one channel of everybody's, one
  direct message of two members, one sealed channel, and the four widget commands.
\<close>

definition anna :: public_key where "anna = PublicKey [1]"
definition bert :: public_key where "bert = PublicKey [2]"
definition cora :: public_key where "cora = PublicKey [3]"

definition demo_env :: "nat \<Rightarrow> widget_env" where
  "demo_env now = \<lparr>we_now = now, we_now_ms = 1000 * now, we_name = (\<lambda>_. codes ''someone''), we_lower = (\<lambda>t. t),
     we_stamp = (\<lambda>_. codes ''soon''), we_pick = (\<lambda>i. i), we_key = (\<lambda>_. PublicKey [8]), we_system_key = PublicKey [9]\<rparr>"

definition demo_channel :: "nat \<Rightarrow> channel_type \<Rightarrow> chan_row" where
  "demo_channel i kind = \<lparr>cn_id = i, cn_name = ''general'', cn_type = kind, cn_category = None, cn_position = 0, cn_topic = None,
     cn_nsfw = False, cn_slow_mode = 0, cn_retention = None, cn_deleted = False\<rparr>"

definition demo_class :: "nat \<Rightarrow> string \<Rightarrow> channel_row" where
  "demo_class i cls = \<lparr>cr_id = i, cr_name = ''general'', cr_type = ''text'', cr_position = 0, cr_deleted = False, cr_content_class = cls\<rparr>"

definition demo_command :: "nat \<Rightarrow> string \<Rightarrow> command_row" where
  "demo_command c kind = \<lparr>cm_trigger = [c], cm_name = kind, cm_kind = kind, cm_body_text = None, cm_public_key = PublicKey [7]\<rparr>"

definition demo_member :: "public_key \<Rightarrow> member_row" where
  "demo_member pk = \<lparr>mr_key = pk, mr_banned = False, mr_revoked = False, mr_timeout_until = None, mr_joined_at = 0\<rparr>"

definition demo_access :: access_db where
  "demo_access = \<lparr>ad_roles = [\<lparr>ro_id = 1, ro_name = ''@everyone'', ro_permissions = VIEW_CHANNEL OR SEND_MESSAGES, ro_position = 0, ro_builtin = True\<rparr>],
     ad_member_roles = [], ad_members = map demo_member [anna, bert, cora],
     ad_channels = [demo_channel 3 Dm, demo_channel 7 Text, demo_channel 8 Text], ad_categories = [],
     ad_channel_overrides = [], ad_category_overrides = [], ad_dm_participants = [(3, anna), (3, bert)], ad_system_keys = [], ad_audit = [],
     ad_next_role = 2, ad_next_channel = 9, ad_next_category = 1\<rparr>"

definition demo_tables :: server_db where
  "demo_tables = \<lparr>db_genesis = None, db_events = [], db_channels = [demo_class 3 ''plaintext'', demo_class 7 ''plaintext'', demo_class 8 ''e2ee''],
     db_messages = [], db_fts = [], db_files = [], db_attachments = [], db_reactions = [], db_disk = {},
     db_last_event = 0, db_last_message = 0, db_last_attachment = 0\<rparr>"

definition no_widgets :: widget_db where
  "no_widgets = \<lparr>wd_polls = [], wd_votes = [], wd_giveaways = [], wd_entries = [], wd_reminders = [], wd_events = [], wd_rsvps = [],
     wd_last_poll = 0, wd_last_giveaway = 0, wd_last_reminder = 0, wd_last_event = 0\<rparr>"

definition demo_start :: widget_server where
  "demo_start = \<lparr>ws_log = None, ws_access = demo_access, ws_blocked = [], ws_tables = demo_tables, ws_widgets = no_widgets,
     ws_commands = [demo_command 112 ''poll'', demo_command 103 ''giveaway'', demo_command 114 ''reminder''], ws_widget_limiter = Map.empty, ws_command_limiter = Map.empty\<rparr>"

definition demo_api :: "command_row \<Rightarrow> text_str \<Rightarrow> text_str option" where
  "demo_api cmd args = None"


definition demo_at :: "widget_db \<Rightarrow> widget_server" where
  "demo_at W = demo_start\<lparr>ws_widgets := W\<rparr>"

lemma demo_simps [simp]:
  "cm_kind (demo_command c kind) = kind" "we_lower (demo_env now) = (\<lambda>t. t)" "we_now (demo_env now) = now"
  "ws_tables (demo_at W) = demo_tables" "ws_widgets (demo_at W) = W" "ws_access (demo_at W) = demo_access"
  "ws_widgets demo_start = no_widgets"
  by (simp_all add: demo_command_def demo_env_def demo_at_def demo_start_def)

lemma demo_finds:
  "find_by_trigger (demo_at W\<lparr>ws_command_limiter := q\<rparr>) (trim_ws [112]) = Some (demo_command 112 ''poll'')"
  "find_by_trigger (demo_at W\<lparr>ws_command_limiter := q\<rparr>) (trim_ws [103]) = Some (demo_command 103 ''giveaway'')"
  "find_by_trigger (demo_at W\<lparr>ws_command_limiter := q\<rparr>) (trim_ws [114]) = Some (demo_command 114 ''reminder'')"
  by (simp_all add: find_by_trigger_def demo_at_def demo_start_def demo_command_def trim_ws_def trim_by_def is_whitespace_def)

lemma demo_direct:
  "check_run_command_channel_auth (demo_env now) anna o' 3 (demo_at W\<lparr>ws_command_limiter := q\<rparr>) k = k (demo_at W\<lparr>ws_command_limiter := q\<rparr>)"
  by (simp add: check_run_command_channel_auth_def unless_timed_out_def is_timed_out_def get_member_def demo_at_def demo_start_def demo_access_def
      demo_member_def class_refuses_def resolve_def find_channel_def demo_tables_def demo_class_def get_chan_def demo_channel_def
      is_dm_participant_def other_participant_def is_blocked_def guarded_def anna_def bert_def cora_def)

lemma demo_allowed: "content_block_reason (demo_at W) m = None" "fst (allow (Suc k) w n m (ws_command_limiter (demo_at W)))"
    "fst (allow (Suc k) w n m (ws_widget_limiter (demo_at W)))"
  by (simp_all add: content_block_reason_def demo_at_def demo_start_def allow_def)

lemma demo_runs:
  "widget_step demo_api (Asked (demo_env now) anna o' (RunCommand [112] 3 args)) (demo_at W) =
     snd (snd (run_poll (demo_env now) anna 3 args (demo_at W\<lparr>ws_command_limiter := snd (allow 5 10 now anna (ws_command_limiter (demo_at W)))\<rparr>)))"
  "widget_step demo_api (Asked (demo_env now) anna o' (RunCommand [103] 3 args)) (demo_at W) =
     snd (snd (run_giveaway (demo_env now) anna o' 3 args (demo_at W\<lparr>ws_command_limiter := snd (allow 5 10 now anna (ws_command_limiter (demo_at W)))\<rparr>)))"
  "widget_step demo_api (Asked (demo_env now) anna o' (RunCommand [114] 3 args)) (demo_at W) =
     snd (snd (run_reminder (demo_env now) anna 3 args (demo_at W\<lparr>ws_command_limiter := snd (allow 5 10 now anna (ws_command_limiter (demo_at W)))\<rparr>)))"
  using demo_allowed(1) [of W anna] demo_allowed(2) [of 4 10 now anna W]
  by (simp_all add: widget_step_def handle_widget_def run_command_def demo_direct guarded_def split_beta demo_finds Let_def)

text \<open>A poll "T" with the options "a" and "b", a giveaway of "x" and a reminder of "x", both in an hour.\<close>

lemma demo_parses:
  "parse_poll_args (\<lambda>t. t) [84, 124, 97, 124, 98] = Some (Inr \<lparr>pp_question = [84], pp_options = [[97], [98]], pp_duration_secs = None\<rparr>)"
  "parse_giveaway_args [49, 104, 32, 120] = Some (Inr (3600, [120]))"
  "parse_reminder_args [49, 104, 32, 120] = Some (Inr (3600, [120]))"
  by (simp_all add: parse_poll_args_def parse_giveaway_args_def parse_giveaway_duration_def parse_reminder_args_def trim_ws_def trim_by_def is_whitespace_def
      first_word_def after_word_def split_last_byte_def unit_secs_def is_digit_def digits_value_def lower_def u64_limit_def
      MIN_DURATION_SECS_def MAX_DURATION_SECS_def MAX_REMINDER_TEXT_def duration_token_secs_def utf8_len_def check_poll_def Let_def)

lemmas demo_card_simps =
  insert_message_def insert_message_with_ts_def require_plaintext_def insert_row_def resolve_def find_channel_def
  demo_tables_def demo_class_def set_widget_def find_message_def update_message_def Let_def

lemma demo_cards:
  "\<exists>msg info db. create_poll_card (demo_env 100) 3 anna \<lparr>pp_question = [84], pp_options = [[97], [98]], pp_duration_secs = None\<rparr>
     (demo_tables, no_widgets) = Inr ((msg, info), (db, snd (poll_create 100 3 1 anna [84] [[97], [98]] None no_widgets)))"
  "\<exists>msg info db. create_giveaway_card (demo_env 100) demo_access 3 anna [120] 3600
     (demo_tables, no_widgets) = Inr ((msg, info), (db, snd (giveaway_create 100 3 1 anna [120] 3700 no_widgets)))"
  by (simp_all add: create_poll_card_def create_giveaway_card_def poll_create_def poll_get_def giveaway_create_def giveaway_get_def no_widgets_def demo_card_simps)

definition demo_polled :: widget_server where
  "demo_polled = widget_step demo_api (Asked (demo_env 100) anna False (RunCommand [112] 3 [84, 124, 97, 124, 98])) (demo_at no_widgets)"

definition demo_raffled :: widget_server where
  "demo_raffled = widget_step demo_api (Asked (demo_env 100) anna True (RunCommand [103] 3 [49, 104, 32, 120])) (demo_at no_widgets)"

definition demo_reminded :: widget_server where
  "demo_reminded = widget_step demo_api (Asked (demo_env 100) anna False (RunCommand [114] 3 [49, 104, 32, 120])) (demo_at no_widgets)"

lemma demo_owner: "has ALL_PERMISSIONS MANAGE_SERVER" by code_simp

lemma demo_widgets:
  "ws_widgets demo_polled = snd (poll_create 100 3 1 anna [84] [[97], [98]] None no_widgets)"
  "ws_widgets demo_raffled = snd (giveaway_create 100 3 1 anna [120] 3700 no_widgets)"
  "ws_widgets demo_reminded = snd (reminder_create anna 3 [120] 3700 100 no_widgets)"
  unfolding demo_polled_def demo_raffled_def demo_reminded_def demo_runs
  using demo_cards
  by (auto simp: run_poll_def run_giveaway_def run_reminder_def parsed_args_def demo_parses posted_def guarded_def demo_owner
      resolve_member_server_perms_def count_pending_def pending_of_def answer_def no_widgets_def MAX_PENDING_PER_USER_def Let_def)

text \<open>A step elsewhere brings the server back to its first state, but for the widgets.\<close>

lemma demo_elsewhere: "widget_step api (Elsewhere demo_start) S = demo_at (ws_widgets S)"
  by (simp add: widget_step_def demo_at_def)

lemma demo_enter:
  "ws_widgets (widget_step demo_api (Asked (demo_env 200) bert False (EnterGiveaway 1)) (demo_at (ws_widgets demo_raffled))) =
     snd (giveaway_enter 200 1 bert (ws_widgets demo_raffled))"
  using demo_allowed(1) [of "ws_widgets demo_raffled" bert] demo_allowed(3) [of 9 10 200 bert "ws_widgets demo_raffled"]
  by (simp add: widget_step_def handle_widget_def handle_arm_def enter_giveaway_def limited_def unless_timed_out_def is_timed_out_def
      get_member_def demo_at_def demo_start_def demo_access_def demo_member_def anna_def bert_def cora_def with_giveaway_def guarded_def
      demo_widgets giveaway_create_def giveaway_get_def no_widgets_def widget_channel_visible_def class_refuses_def channel_visible_def
      resolve_def find_channel_def demo_tables_def demo_class_def get_chan_def demo_channel_def is_dm_participant_def
      giveaway_changed_def with_widgets_def giveaway_enter_def my_entered_def answer_def Let_def split_beta)

end
