(* ===== verification/WidgetClaims.thy ===== *)
theory WidgetClaims
  imports WidgetDemo
begin

text \<open>
  What holds of the widgets of every server that began without any: the invariant of the tables, that
  a poll counts every member once, that what is over stays as it is, and how a winner is drawn.
\<close>

section \<open>The tables\<close>

inductive widget_reaches :: "(command_row \<Rightarrow> text_str \<Rightarrow> text_str option) \<Rightarrow> widget_server \<Rightarrow> bool" for api where
  start: "ws_widgets S = no_widgets \<Longrightarrow> widget_reaches api S"
| step: "widget_reaches api S \<Longrightarrow> widget_reaches api (widget_step api step S)"

lemma reaches_run: "widget_reaches api S \<Longrightarrow> widget_reaches api (widget_run api steps S)"
  unfolding widget_run_def by (induction steps arbitrary: S) (auto intro: step)

definition polls_ok :: "widget_db \<Rightarrow> bool" where
  "polls_ok W \<longleftrightarrow>
     distinct (map pl_id (wd_polls W)) \<and> (\<forall>r \<in> set (wd_polls W). pl_id r \<le> wd_last_poll W) \<and>
     distinct (map (\<lambda>v. (vt_poll v, vt_voter v)) (wd_votes W)) \<and>
     (\<forall>v \<in> set (wd_votes W). \<exists>r \<in> set (wd_polls W). pl_id r = vt_poll v \<and> vt_option v < length (pl_options r))"

definition giveaways_ok :: "widget_db \<Rightarrow> bool" where
  "giveaways_ok W \<longleftrightarrow>
     distinct (map gw_id (wd_giveaways W)) \<and> (\<forall>r \<in> set (wd_giveaways W). gw_id r \<le> wd_last_giveaway W) \<and>
     distinct (map (\<lambda>e. (ge_giveaway e, ge_member e)) (wd_entries W)) \<and>
     (\<forall>e \<in> set (wd_entries W). \<exists>g \<in> set (wd_giveaways W). gw_id g = ge_giveaway e) \<and>
     (\<forall>g \<in> set (wd_giveaways W). \<forall>pk. gw_winner g = Some pk \<longrightarrow> gw_status g = GiveawayEnded \<and> my_entered (gw_id g) pk W)"

definition reminders_ok :: "widget_db \<Rightarrow> bool" where
  "reminders_ok W \<longleftrightarrow>
     distinct (map rm_id (wd_reminders W)) \<and> (\<forall>r \<in> set (wd_reminders W). rm_id r \<le> wd_last_reminder W)"

definition events_ok :: "widget_db \<Rightarrow> bool" where
  "events_ok W \<longleftrightarrow>
     distinct (map vc_id (wd_events W)) \<and> (\<forall>r \<in> set (wd_events W). vc_id r \<le> wd_last_event W) \<and>
     distinct (map (\<lambda>r. (rs_event r, rs_member r)) (wd_rsvps W)) \<and>
     (\<forall>r \<in> set (wd_rsvps W). rs_response r \<in> {''going'', ''maybe'', ''no''})"

definition widgets_ok :: "widget_db \<Rightarrow> bool" where
  "widgets_ok W \<longleftrightarrow> polls_ok W \<and> giveaways_ok W \<and> reminders_ok W \<and> events_ok W"

lemma distinct_map_filterI: "distinct (map g xs) \<Longrightarrow> distinct (map g (filter p xs))"
  by (induction xs) auto

lemmas widget_statements =
  poll_create_def poll_vote_def poll_retract_def poll_close_def update_polls_def
  giveaway_create_def giveaway_enter_def giveaway_leave_def giveaway_cancel_def giveaway_reroll_def update_giveaways_def
  reminder_create_def reminder_cancel_def mark_sent_def update_reminders_def
  event_create_def event_rsvp_def event_clear_rsvp_def event_edit_def event_cancel_def mark_reminded_def mark_cancel_notified_def
  update_events_def

lemma change_frames:
  assumes "change W W'"
  shows "(wd_polls W' = wd_polls W \<and> wd_votes W' = wd_votes W \<and> wd_last_poll W' = wd_last_poll W) \<or>
      (wd_giveaways W' = wd_giveaways W \<and> wd_entries W' = wd_entries W \<and> wd_last_giveaway W' = wd_last_giveaway W \<and>
       wd_reminders W' = wd_reminders W \<and> wd_last_reminder W' = wd_last_reminder W \<and>
       wd_events W' = wd_events W \<and> wd_rsvps W' = wd_rsvps W \<and> wd_last_event W' = wd_last_event W)"
  using assms by cases (auto simp: widget_statements Let_def)

lemma polls_ok_change:
  assumes "change W W'" and "polls_ok W"
  shows "polls_ok W'"
  using assms
proof cases
  case (new_poll now c m creator q os closes_at)
  with assms(2) show ?thesis by (fastforce simp: polls_ok_def poll_create_def Let_def)
next
  case (voted i r k now pk)
  then have "r \<in> set (wd_polls W)" "pl_id r = i" by (auto simp: poll_get_def find_Some_iff)
  with assms(2) voted show ?thesis
    by (auto simp: polls_ok_def poll_vote_def list_ex_iff intro!: bexI [of _ r])
next
  case (retracted i r pk)
  with assms(2) show ?thesis by (auto simp: polls_ok_def poll_retract_def intro: distinct_map_filterI)
next
  case (closed now i)
  with assms(2) show ?thesis
    by (fastforce simp: polls_ok_def poll_close_def update_polls_def)
qed (auto simp: polls_ok_def widget_statements Let_def)

lemma my_entered_iff: "my_entered i pk W \<longleftrightarrow> (\<exists>e \<in> set (wd_entries W). ge_giveaway e = i \<and> ge_member e = pk)"
  by (simp add: my_entered_def list_ex_iff)

lemma giveaways_ok_tables:
  assumes "giveaways_ok W" and "map gw_id (wd_giveaways W') = map gw_id (wd_giveaways W)"
    and "wd_last_giveaway W' = wd_last_giveaway W" and "wd_entries W' = wd_entries W"
    and "\<And>g pk. g \<in> set (wd_giveaways W') \<Longrightarrow> gw_winner g = Some pk \<Longrightarrow> gw_status g = GiveawayEnded \<and> my_entered (gw_id g) pk W"
  shows "giveaways_ok W'"
proof -
  have ids: "gw_id ` set (wd_giveaways W') = gw_id ` set (wd_giveaways W)"
    using arg_cong [OF assms(2), of set] by simp
  have "(\<exists>g \<in> set (wd_giveaways W'). gw_id g = i) \<longleftrightarrow> (\<exists>g \<in> set (wd_giveaways W). gw_id g = i)" for i
    using ids by (metis imageE imageI)
  moreover have "(\<forall>g \<in> set (wd_giveaways W'). gw_id g \<le> n) \<longleftrightarrow> (\<forall>g \<in> set (wd_giveaways W). gw_id g \<le> n)" for n
    using ids by (metis (mono_tags) image_iff)
  ultimately show ?thesis using assms by (simp add: giveaways_ok_def my_entered_def)
qed

lemma winner_entered:
  "giveaways_ok W \<Longrightarrow> g \<in> set (wd_giveaways W) \<Longrightarrow> gw_winner g = Some pk \<Longrightarrow> gw_status g = GiveawayEnded \<and> my_entered (gw_id g) pk W"
  by (simp add: giveaways_ok_def)

lemma giveaway_by_id: "giveaways_ok W \<Longrightarrow> giveaway_get W i = Some g \<Longrightarrow> h \<in> set (wd_giveaways W) \<Longrightarrow> gw_id h = i \<Longrightarrow> h = g"
  by (auto simp: giveaways_ok_def giveaway_get_def find_Some_iff distinct_map inj_on_def)

lemma giveaways_ok_change:
  assumes "change W W'" and ok: "giveaways_ok W"
  shows "giveaways_ok W'"
  using assms(1)
proof cases
  case (new_giveaway now c m creator prize ends_at)
  with ok show ?thesis by (fastforce simp: giveaways_ok_def giveaway_create_def Let_def my_entered_def)
next
  case (entered i g now pk)
  then have "g \<in> set (wd_giveaways W)" "gw_id g = i" by (auto simp: giveaway_get_def find_Some_iff)
  with ok entered show ?thesis
    by (auto simp: giveaways_ok_def giveaway_enter_def my_entered_iff)
next
  case (left i g pk)
  have "gw_id h \<noteq> i" if "h \<in> set (wd_giveaways W)" "gw_winner h = Some w" for h w
    using winner_entered [OF ok that] giveaway_by_id [OF ok left(2) that(1)] left(3) by auto
  with ok left show ?thesis
    by (fastforce simp: giveaways_ok_def giveaway_leave_def my_entered_iff intro: distinct_map_filterI)
next
  case (called_off i)
  show ?thesis
    by (rule giveaways_ok_tables [OF ok])
      (use called_off winner_entered [OF ok] in \<open>auto simp: giveaway_cancel_def update_giveaways_def in_update_where\<close>)
next
  case (drawn winner i)
  show ?thesis
    by (rule giveaways_ok_tables [OF ok])
      (use drawn winner_entered [OF ok] in \<open>auto simp: update_giveaways_def in_update_where split: if_splits\<close>)
next
  case (rerolled i pk)
  show ?thesis
    by (rule giveaways_ok_tables [OF ok])
      (use rerolled winner_entered [OF ok] in \<open>auto simp: giveaway_reroll_def update_giveaways_def in_update_where split: if_splits\<close>)
qed (use ok in \<open>simp_all add: giveaways_ok_def widget_statements Let_def my_entered_def\<close>)

lemma reminders_ok_change:
  assumes "change W W'" and "reminders_ok W"
  shows "reminders_ok W'"
  using assms by cases (fastforce simp: reminders_ok_def widget_statements Let_def)+

lemma events_ok_change:
  assumes "change W W'" and "events_ok W"
  shows "events_ok W'"
  using assms
proof cases
  case (new_event now c m creator p starts_at)
  with assms(2) show ?thesis by (fastforce simp: events_ok_def event_create_def Let_def)
next
  case (answered i response now pk)
  with assms(2) show ?thesis by (auto simp: events_ok_def event_rsvp_def list_ex_iff)
next
  case (withdrawn i pk)
  with assms(2) show ?thesis by (auto simp: events_ok_def event_clear_rsvp_def intro: distinct_map_filterI)
qed (auto simp: events_ok_def widget_statements Let_def)

lemma widgets_ok_change: "change W W' \<Longrightarrow> widgets_ok W \<Longrightarrow> widgets_ok W'"
  by (simp add: widgets_ok_def polls_ok_change giveaways_ok_change reminders_ok_change events_ok_change)

lemma widgets_ok_changes: "changes W W' \<Longrightarrow> widgets_ok W \<Longrightarrow> widgets_ok W'"
  by (induction rule: rtranclp_induct) (auto intro: widgets_ok_change)

lemma reaches_ok: "widget_reaches api S \<Longrightarrow> widgets_ok (ws_widgets S)"
proof (induction rule: widget_reaches.induct)
  case (start S)
  then show ?case by (simp add: no_widgets_def widgets_ok_def polls_ok_def giveaways_ok_def reminders_ok_def events_ok_def)
next
  case (step S step)
  then show ?case using widgets_ok_changes step_changes by blast
qed

lemma find_last: "P y \<Longrightarrow> find P (xs @ [y]) \<noteq> None"
  by (auto simp: find_None_iff)

section \<open>Counting\<close>

lemma vote_found:
  assumes "distinct (map (\<lambda>v. (vt_poll v, vt_voter v)) (wd_votes W))"
  shows "my_vote i pk W = Some k \<longleftrightarrow> (\<exists>v \<in> set (wd_votes W). vt_poll v = i \<and> vt_voter v = pk \<and> vt_option v = k)"
proof
  assume "my_vote i pk W = Some k"
  then show "\<exists>v \<in> set (wd_votes W). vt_poll v = i \<and> vt_voter v = pk \<and> vt_option v = k"
    by (auto simp: my_vote_def find_Some_iff)
next
  assume "\<exists>v \<in> set (wd_votes W). vt_poll v = i \<and> vt_voter v = pk \<and> vt_option v = k"
  then obtain v where v: "v \<in> set (wd_votes W)" "vt_poll v = i" "vt_voter v = pk" "vt_option v = k" by auto
  obtain w where w: "find (\<lambda>v. vt_poll v = i \<and> vt_voter v = pk) (wd_votes W) = Some w"
    using v by (cases "find (\<lambda>v. vt_poll v = i \<and> vt_voter v = pk) (wd_votes W)") (auto simp: find_None_iff)
  then have "w \<in> set (wd_votes W)" "vt_poll w = i" "vt_voter w = pk" by (auto simp: find_Some_iff)
  with assms v have "w = v" by (auto simp: distinct_map inj_on_def)
  with w v show "my_vote i pk W = Some k" by (simp add: my_vote_def)
qed

lemma count_is_card:
  assumes "distinct (map (\<lambda>v. (vt_poll v, vt_voter v)) (wd_votes W))"
  shows "length (filter (\<lambda>v. vt_poll v = i \<and> vt_option v = k) (wd_votes W)) = card {pk. my_vote i pk W = Some k}"
proof -
  let ?vs = "filter (\<lambda>v. vt_poll v = i \<and> vt_option v = k) (wd_votes W)"
  have "distinct ?vs" using assms by (simp add: distinct_map)
  moreover have "inj_on vt_voter (set ?vs)" using assms by (auto simp: distinct_map inj_on_def)
  moreover have "vt_voter ` set ?vs = {pk. my_vote i pk W = Some k}"
    by (auto simp: vote_found [OF assms])
  ultimately show ?thesis using card_image [of vt_voter "set ?vs"] distinct_card [of ?vs] by simp
qed

lemma vote_in_range:
  assumes ok: "polls_ok W" and row: "row \<in> set (wd_polls W)" and vote: "my_vote (pl_id row) pk W = Some k"
  shows "k < length (pl_options row)"
proof -
  have keys: "distinct (map (\<lambda>v. (vt_poll v, vt_voter v)) (wd_votes W))" and ids: "inj_on pl_id (set (wd_polls W))"
    using ok by (simp_all add: polls_ok_def distinct_map)
  obtain v where v: "v \<in> set (wd_votes W)" "vt_poll v = pl_id row" "vt_option v = k"
    using vote by (auto simp: vote_found [OF keys])
  then obtain r where "r \<in> set (wd_polls W)" "pl_id r = pl_id row" "k < length (pl_options r)"
    using ok by (auto simp: polls_ok_def)
  with ids row show ?thesis by (auto dest: inj_onD)
qed

lemma poll_counts_card:
  assumes ok: "polls_ok W" and row: "row \<in> set (wd_polls W)"
  shows "pi_total_votes (poll_build_info W row) = card {pk. my_vote (pl_id row) pk W \<noteq> None}"
proof -
  let ?of = "\<lambda>k. {pk. my_vote (pl_id row) pk W = Some k}" and ?n = "length (pl_options row)"
  have keys: "distinct (map (\<lambda>v. (vt_poll v, vt_voter v)) (wd_votes W))" using ok by (simp add: polls_ok_def)
  have all: "{pk. my_vote (pl_id row) pk W \<noteq> None} = (\<Union>k<?n. ?of k)"
    by (auto dest: vote_in_range [OF ok row])
  have finite: "finite (?of k)" for k
    by (rule finite_subset [of _ "vt_voter ` set (wd_votes W)"]) (auto simp: vote_found [OF keys])
  have "card (\<Union>k<?n. ?of k) = (\<Sum>k<?n. card (?of k))"
    by (rule card_UN_disjoint) (auto intro: finite)
  with all show ?thesis
    by (simp add: poll_build_info_def Let_def poll_counts_def count_is_card [OF keys] sum_list_distinct_conv_sum_set lessThan_atLeast0)
qed

text \<open>C14: In every state a server can reach from empty widget tables, whatever members ask, the sweeper
  does and the rest of the server does in between, what a poll shows is a count of members: the total
  is the number of members who have a vote, each option's count is the number of members whose vote is
  for it, and nobody's vote is for an option the poll does not have.\<close>

theorem polls_count_members:
  assumes "widget_reaches api S" and "row \<in> set (wd_polls (ws_widgets S))"
  shows "let W = ws_widgets S; info = poll_build_info W row
     in pi_total_votes info = card {pk. my_vote (pl_id row) pk W \<noteq> None} \<and>
        length (pi_counts info) = length (pl_options row) \<and>
        (\<forall>k < length (pl_options row). pi_counts info ! k = card {pk. my_vote (pl_id row) pk W = Some k}) \<and>
        (\<forall>pk k. my_vote (pl_id row) pk W = Some k \<longrightarrow> k < length (pl_options row))"
proof -
  have ok: "polls_ok (ws_widgets S)" using reaches_ok [OF assms(1)] by (simp add: widgets_ok_def)
  then have keys: "distinct (map (\<lambda>v. (vt_poll v, vt_voter v)) (wd_votes (ws_widgets S)))" by (simp add: polls_ok_def)
  show ?thesis
    using poll_counts_card [OF ok assms(2)] vote_in_range [OF ok assms(2)]
    by (auto simp: poll_build_info_def Let_def poll_counts_def count_is_card [OF keys])
qed

lemma widget_demo_reached: "widget_reaches demo_api (demo_at no_widgets)" "widget_reaches demo_api demo_polled"
    "widget_reaches demo_api demo_raffled" "widget_reaches demo_api demo_reminded"
  unfolding demo_polled_def demo_raffled_def demo_reminded_def by (auto intro!: widget_reaches.intros)

theorem polls_count_members_witness:
  "let W = ws_widgets demo_polled; row = hd (wd_polls W)
   in pl_options row = [[97], [98]] \<and> pi_total_votes (poll_build_info W row) = card {pk. my_vote (pl_id row) pk W \<noteq> None}"
  using polls_count_members [OF widget_demo_reached(2), of "hd (wd_polls (ws_widgets demo_polled))"]
  by (simp add: Let_def demo_widgets poll_create_def no_widgets_def)

end
