(* ===== verification/WidgetDraws.thy ===== *)
theory WidgetDraws
  imports WidgetClaims
begin

text \<open>
  How a winner is drawn, and the calendar a giveaway card shows its end by.
\<close>

section \<open>The draw\<close>

lemma bot_message_inserted:
  assumes "\<not> refuses_server_authored_content (resolve db c)"
  obtains mid db' msg where "insert_message_with_author_name now db c author content reply name badge = Inr (mid, db')"
    and "find_message db' mid = Some msg"
proof (rule that)
  let ?r = "insert_message_with_author_name now db c author content reply name badge"
  have "isl ?r = False" using assms
    by (simp add: insert_message_with_author_name_def require_plaintext_def insert_row_def Let_def)
  then show ins: "?r = Inr (fst (projr ?r), snd (projr ?r))" by (cases ?r) simp_all
  have "find_message (snd (projr ?r)) (fst (projr ?r)) \<noteq> None" using assms
    by (simp add: insert_message_with_author_name_def require_plaintext_def insert_row_def Let_def find_message_def find_last del: not_None_eq)
  then show "find_message (snd (projr ?r)) (fst (projr ?r)) = Some (the (find_message (snd (projr ?r)) (fst (projr ?r))))"
    by simp
qed

lemma announced:
  assumes "\<not> refuses_server_authored_content (resolve db (gw_channel row))"
  obtains msg db' where "insert_announcement E row txt db = Inr (msg, db')"
proof -
  obtain mid db' msg where "insert_message_with_author_name (we_now E) db (gw_channel row) (we_key E (gw_id row)) (utf8 txt)
      (Some (gw_message row)) (Some ''Giveaway'') (Some ''BOT'') = Inr (mid, db')" "find_message db' mid = Some msg"
    by (rule bot_message_inserted [OF assms])
  then show thesis by (intro that) (simp add: insert_announcement_def)
qed

lemma closed_and_drawn:
  assumes row: "giveaway_get W (gw_id row) = Some row" "gw_status row = GiveawayOpen"
    and plain: "\<not> refuses_server_authored_content (resolve db (gw_channel row))"
  obtains info msg db' V where "close_and_draw E A row (db, W) = Inr ((info, msg), (db', V))"
    and "giveaway_get V (gw_id row) = Some (row\<lparr>gw_status := GiveawayEnded, gw_winner := gi_winner info\<rparr>)"
    and "gi_winner info = draw_winner E (gw_id row) (eligible_entrants A W (gw_id row))"
proof -
  let ?w = "draw_winner E (gw_id row) (eligible_entrants A W (gw_id row))"
  let ?V = "snd (update_giveaways (\<lambda>r. gw_id r = gw_id row \<and> gw_status r = GiveawayOpen) (\<lambda>r. r\<lparr>gw_status := GiveawayEnded, gw_winner := ?w\<rparr>) W)"
  let ?txt = "[0x1F389] @ (case ?w of
              Some w \<Rightarrow> codes '' '' @ display_name_for E A w @ codes '' won: '' @ gw_prize row
            | None \<Rightarrow> codes '' Giveaway ended '' @ [0x2014] @ codes '' no entries: '' @ gw_prize row)"
  have hit: "list_ex (\<lambda>r. gw_id r = gw_id row \<and> gw_status r = GiveawayOpen) (wd_giveaways W)"
    using row by (auto simp: giveaway_get_def find_Some_iff list_ex_iff)
  have got: "giveaway_get ?V (gw_id row) = Some (row\<lparr>gw_status := GiveawayEnded, gw_winner := ?w\<rparr>)"
    using row by (simp add: giveaway_get_def update_giveaways_def find_update_where)
  obtain msg db' where "insert_announcement E row ?txt db = Inr (msg, db')"
    by (rule announced [OF plain])
  then show thesis
    using got hit that [of "giveaway_build_info E A ?V (row\<lparr>gw_status := GiveawayEnded, gw_winner := ?w\<rparr>)" msg db' ?V]
    by (simp add: close_and_draw_def Let_def update_giveaways_def giveaway_build_info_def)
qed

lemma eligible_distinct: "giveaways_ok W \<Longrightarrow> distinct (eligible_entrants A W i)"
proof -
  assume "giveaways_ok W"
  then have keys: "distinct (map (\<lambda>e. (ge_giveaway e, ge_member e)) (wd_entries W))" by (simp add: giveaways_ok_def)
  have "distinct (map ge_member (filter (\<lambda>e. ge_giveaway e = i) (wd_entries W)))"
    using keys by (auto simp: distinct_map inj_on_def)
  then have "distinct (map ge_member (sort_key (\<lambda>e. (ge_at e, as_bytes (ge_member e))) (filter (\<lambda>e. ge_giveaway e = i) (wd_entries W))))"
    by (simp add: distinct_map)
  then show ?thesis by (simp add: eligible_entrants_def)
qed

lemma eligible_set: "set (eligible_entrants A W i) = {pk. my_entered i pk W \<and> may_win A pk}"
  by (auto simp: eligible_entrants_def my_entered_def list_ex_iff)

definition drawn_winner :: "widget_failure + ((giveaway_info \<times> message_row) \<times> (server_db \<times> widget_db)) \<Rightarrow> public_key option" where
  "drawn_winner r = (case r of Inl _ \<Rightarrow> None | Inr ((info, _), _) \<Rightarrow> gi_winner info)"

text \<open>C28: In every state a server can reach, the draw of a giveaway that is due, in a channel whose
  class does not refuse the announcement, succeeds whatever number the random source gives: the row
  then says ended, with the winner that is announced.  It has no winner exactly when nobody who entered
  still is a member in good standing.  And the draw is fair: of the first so many numbers as there are
  eligible members, each of them wins for exactly one.\<close>

theorem draws_are_uniform:
  assumes "widget_reaches api S" and "row \<in> set (giveaways_due (we_now E) (ws_widgets S))"
    and "\<not> class_refuses S (gw_channel row)"
  shows "let eligible = {pk. my_entered (gw_id row) pk (ws_widgets S) \<and> may_win (ws_access S) pk};
             draw = (\<lambda>k. close_and_draw (E\<lparr>we_pick := \<lambda>_. k\<rparr>) (ws_access S) row (tables S))
         in (\<forall>k. \<exists>info msg st. draw k = Inr ((info, msg), st) \<and>
               giveaway_get (snd st) (gw_id row) = Some (row\<lparr>gw_status := GiveawayEnded, gw_winner := gi_winner info\<rparr>) \<and>
               (gi_winner info = None \<longleftrightarrow> eligible = {})) \<and>
            (\<forall>pk \<in> eligible. \<exists>!k. k < card eligible \<and> drawn_winner (draw k) = Some pk)"
proof -
  let ?W = "ws_widgets S" and ?es = "eligible_entrants (ws_access S) (ws_widgets S) (gw_id row)"
  let ?draw = "\<lambda>k. close_and_draw (E\<lparr>we_pick := \<lambda>_. k\<rparr>) (ws_access S) row (tables S)"
  have ok: "giveaways_ok ?W" using reaches_ok [OF assms(1)] by (simp add: widgets_ok_def)
  have row: "row \<in> set (wd_giveaways ?W)" "gw_status row = GiveawayOpen"
    using assms(2) by (auto simp: giveaways_due_def)
  then obtain g where g: "giveaway_get ?W (gw_id row) = Some g"
    by (cases "giveaway_get ?W (gw_id row)") (auto simp: giveaway_get_def find_None_iff)
  then have "giveaway_get ?W (gw_id row) = Some row" using giveaway_by_id [OF ok g row(1)] by simp
  note drawn = closed_and_drawn [OF this row(2) assms(3) [unfolded class_refuses_def], of "E\<lparr>we_pick := \<lambda>_. k\<rparr>" "ws_access S" for k]
  have winner: "\<exists>info msg st. ?draw k = Inr ((info, msg), st) \<and>
       giveaway_get (snd st) (gw_id row) = Some (row\<lparr>gw_status := GiveawayEnded, gw_winner := gi_winner info\<rparr>) \<and>
       gi_winner info = (if ?es = [] then None else Some (?es ! (k mod length ?es)))" for k
    by (rule drawn [of k]) (auto simp: draw_winner_def)
  have picked: "drawn_winner (?draw k) = (if ?es = [] then None else Some (?es ! (k mod length ?es)))" for k
    using winner [of k] by (auto simp: drawn_winner_def)
  have "\<exists>!k. k < length ?es \<and> drawn_winner (?draw k) = Some pk" if "pk \<in> set ?es" for pk
    using eligible_distinct [OF ok] that unfolding picked
    by (auto simp: in_set_conv_nth nth_eq_iff_index_eq)
  with winner show ?thesis
    unfolding Let_def eligible_set [symmetric] set_empty distinct_card [OF eligible_distinct [OF ok]]
    by (metis option.discI)
qed

definition demo_entered :: widget_server where
  "demo_entered = widget_step demo_api (Elsewhere demo_start)
     (widget_step demo_api (Asked (demo_env 200) bert False (EnterGiveaway 1)) (widget_step demo_api (Elsewhere demo_start) demo_raffled))"

lemma demo_entered_at: "demo_entered = demo_at (snd (giveaway_enter 200 1 bert (ws_widgets demo_raffled)))"
  by (simp add: demo_entered_def demo_elsewhere demo_enter del: One_nat_def)

theorem draws_are_uniform_witness:
  "let row = hd (wd_giveaways (ws_widgets demo_entered))
   in \<exists>!k. k < card {pk. my_entered 1 pk (ws_widgets demo_entered) \<and> may_win demo_access pk} \<and>
        drawn_winner (close_and_draw (demo_env 3700\<lparr>we_pick := \<lambda>_. k\<rparr>) demo_access row (tables demo_entered)) = Some bert"
proof -
  let ?row = "\<lparr>gw_id = 1, gw_channel = 3, gw_message = 1, gw_creator = anna, gw_prize = [120], gw_ends_at = 3700,
     gw_status = GiveawayOpen, gw_winner = None, gw_created_at = 100\<rparr>"
  have rows: "wd_giveaways (ws_widgets demo_entered) = [?row]" "my_entered 1 bert (ws_widgets demo_entered)"
    by (simp_all add: demo_entered_at giveaway_enter_def demo_widgets giveaway_create_def no_widgets_def my_entered_def)
  have reached: "widget_reaches demo_api demo_entered"
    unfolding demo_entered_def by (intro widget_reaches.step widget_demo_reached)
  have "?row \<in> set (giveaways_due (we_now (demo_env 3700)) (ws_widgets demo_entered))" "\<not> class_refuses demo_entered (gw_channel ?row)"
    using rows by (simp_all add: giveaways_due_def class_refuses_def demo_entered_at resolve_def find_channel_def demo_tables_def demo_class_def)
  from draws_are_uniform [OF reached this] rows show ?thesis
    by (simp add: Let_def demo_entered_at may_win_def get_member_def demo_access_def demo_member_def anna_def bert_def cora_def)
qed

end
