(* ===== verification/WidgetDates.thy ===== *)
theory WidgetDates
  imports WidgetState
begin

text \<open>
  The calendar a giveaway card shows its end by: \<open>civil_from_days\<close> against the rules of the
  Gregorian calendar, a day at a time.
\<close>

section \<open>The calendar\<close>

definition leap :: "nat \<Rightarrow> bool" where
  "leap y \<longleftrightarrow> 4 dvd y \<and> (\<not> 100 dvd y \<or> 400 dvd y)"

definition month_length :: "nat \<Rightarrow> nat \<Rightarrow> nat" where
  "month_length y m = (if m = 2 then if leap y then 29 else 28 else if m \<in> {4, 6, 9, 11} then 30 else 31)"

fun next_date :: "nat \<times> nat \<times> nat \<Rightarrow> nat \<times> nat \<times> nat" where
  "next_date (y, m, d) =
     (if d < month_length y m then (y, m, d + 1)
      else if m < 12 then (y, m + 1, 1)
      else (y + 1, 1, 1))"

section \<open>The years of an era\<close>

text \<open>The days before the first of March of year \<open>y\<close>, and the year of a day.\<close>

definition year_start :: "nat \<Rightarrow> nat" where
  "year_start y = 365 * y + y div 4 - y div 100 + y div 400"

definition era_year :: "nat \<Rightarrow> nat" where
  "era_year doe = (doe - doe div 1460 + doe div 36524 - doe div 146096) div 365"

lemma year_start_Suc: "year_start (Suc y) = year_start y + (if leap (Suc y) then 366 else 365)"
proof -
  have le: "y div 100 \<le> y div 4" by (simp add: div_le_mono2)
  have "(100 dvd Suc y \<longrightarrow> 4 dvd Suc y) \<and> (400 dvd Suc y \<longrightarrow> 100 dvd Suc y)"
    using dvd_trans [of 4 100 "Suc y"] dvd_trans [of 100 400 "Suc y"] by simp
  moreover have "Suc y div n = (if n dvd Suc y then Suc (y div n) else y div n)" for n
    by (simp add: div_Suc dvd_eq_mod_eq_0)
  ultimately show ?thesis
    using le unfolding year_start_def leap_def by (simp add: ac_simps)
qed

lemma year_start_mono: "x \<le> y \<Longrightarrow> year_start x \<le> year_start y"
  by (rule lift_Suc_mono_le [of year_start]) (auto simp: year_start_Suc)

lemma year_found: "doe < year_start k \<Longrightarrow> \<exists>y < k. year_start y \<le> doe \<and> doe < year_start (Suc y)"
proof (induction k)
  case (Suc k)
  then show ?case by (cases "doe < year_start k") (auto simp: less_Suc_eq not_less)
qed (simp add: year_start_def)

lemma era_year_low: "doe < 146096 \<Longrightarrow> era_year doe = (doe - doe div 1460 + doe div 36524) div 365"
  by (simp add: era_year_def)

lemma era_year_step: "Suc doe < 146096 \<Longrightarrow> era_year doe \<le> era_year (Suc doe)"
proof -
  have "Suc doe div 1460 \<le> Suc (doe div 1460)" by (simp add: div_Suc)
  moreover have "doe div 36524 \<le> Suc doe div 36524" by (intro div_le_mono) simp
  moreover have "doe div 1460 \<le> doe" by simp
  ultimately have "doe - doe div 1460 + doe div 36524 \<le> Suc doe - Suc doe div 1460 + Suc doe div 36524" by linarith
  then show "Suc doe < 146096 \<Longrightarrow> ?thesis" by (simp add: era_year_low div_le_mono)
qed

lemma era_year_mono: "a \<le> b \<Longrightarrow> b < 146096 \<Longrightarrow> era_year a \<le> era_year b"
  by (induction rule: dec_induct) (auto intro: order_trans [OF _ era_year_step])

lemma era_ends_checked:
  "list_all (\<lambda>y :: int. let a = 365 * y + y div 4 - y div 100; z = y + 1; b = 365 * z + z div 4 - z div 100 - 1
     in (a - a div 1460 + a div 36524) div 365 = y \<and> (z < 400 \<longrightarrow> (b - b div 1460 + b div 36524) div 365 = y)) [0..399]"
  by code_simp

lemma era_year_int: "doe < 146096 \<Longrightarrow> int (era_year doe) = (int doe - int doe div 1460 + int doe div 36524) div 365"
  by (simp add: era_year_low of_nat_diff zdiv_int)

lemma year_start_int: "y < 400 \<Longrightarrow> int (year_start y) = 365 * int y + int y div 4 - int y div 100"
proof -
  have "y div 100 \<le> y div 4" by (simp add: div_le_mono2)
  then show "y < 400 \<Longrightarrow> ?thesis" by (simp add: year_start_def of_nat_diff zdiv_int)
qed

lemma year_start_below: "y < 400 \<Longrightarrow> year_start y < 146096"
  using year_start_mono [of y 399] by (simp add: year_start_def)

lemma era_year_ends:
  assumes "y < 400"
  shows "era_year (year_start y) = y" and "y < 399 \<Longrightarrow> era_year (year_start (Suc y) - 1) = y"
proof -
  have "int y \<in> set [0..399]" using assms by simp
  note checked = era_ends_checked [unfolded list_all_iff Let_def, THEN bspec, OF this]
  then have "int (era_year (year_start y)) = int y"
    using assms by (simp add: era_year_int year_start_below year_start_int)
  then show "era_year (year_start y) = y" by simp
  assume small: "y < 399"
  have "0 < year_start (Suc y)" by (simp add: year_start_Suc)
  then have "int (year_start (Suc y) - 1) = 365 * int (Suc y) + int (Suc y) div 4 - int (Suc y) div 100 - 1"
    using small year_start_int [of "Suc y"] by (simp add: of_nat_diff del: of_nat_Suc)
  note day = this [unfolded of_nat_Suc add.commute [of 1 "int y"]]
  have "year_start (Suc y) - 1 < 146096" using year_start_below [of "Suc y"] small by simp
  then have "int (era_year (year_start (Suc y) - 1)) = int y"
    using checked small by (simp add: era_year_int day del: One_nat_def)
  then show "era_year (year_start (Suc y) - 1) = y" by simp
qed

lemma era_year_is:
  assumes "y < 400" and "year_start y \<le> doe" and "doe < year_start (Suc y)"
  shows "era_year doe = y"
proof (cases "y < 399")
  case True
  then have "year_start (Suc y) \<le> 146096 - 1" using year_start_below [of "Suc y"] by simp
  then have "era_year (year_start y) \<le> era_year doe" "era_year doe \<le> era_year (year_start (Suc y) - 1)"
    using assms by (auto intro!: era_year_mono)
  then show ?thesis using era_year_ends [OF assms(1)] True by simp
next
  case False
  then have y: "y = 399" using assms(1) by simp
  then have bounds: "145731 \<le> doe" "doe \<le> 146096" using assms by (simp_all add: year_start_def)
  show ?thesis
  proof (cases "doe = 146096")
    case False
    have "era_year 145731 \<le> era_year doe" "era_year doe \<le> era_year 146095"
      using False bounds by (auto intro!: era_year_mono)
    then show ?thesis using y by (simp add: era_year_def)
  qed (simp add: y era_year_def)
qed

section \<open>The days of a year\<close>

text \<open>The month and day of a day counted from the first of March.\<close>

definition month_day :: "nat \<Rightarrow> nat \<times> nat" where
  "month_day doy =
     (let mp = (5 * doy + 2) div 153
      in (if mp < 10 then mp + 3 else mp - 9, doy - (153 * mp + 2) div 5 + 1))"

definition date_in :: "nat \<Rightarrow> nat \<Rightarrow> nat \<times> nat \<times> nat" where
  "date_in y doy = (let (m, d) = month_day doy in (if m \<le> 2 then y + 1 else y, m, d))"

lemma civil_is_date_in:
  assumes "y < 400" and "n + 719468 = era * 146097 + year_start y + k" and "k < year_start (Suc y) - year_start y"
  shows "civil_from_days n = date_in (era * 400 + y) k"
proof -
  have below: "year_start y + k < year_start (Suc y)" using assms(3) by simp
  also have "... \<le> 146097" using assms(1) year_start_mono [of "Suc y" 400] by (simp add: year_start_def)
  finally have "year_start y + k < 146097" .
  then have z: "(n + 719468) div 146097 = era" "(n + 719468) mod 146097 = year_start y + k"
    using assms(2) by (simp_all add: add.assoc)
  have "era_year (year_start y + k) = y" using era_year_is assms(1) below by simp
  moreover have "year_start y + k - (365 * y + y div 4 - y div 100) = k"
    using assms(1) by (simp add: year_start_def)
  ultimately show ?thesis
    unfolding civil_from_days_def Let_def z era_year_def [symmetric] by (simp add: date_in_def month_day_def Let_def)
qed

definition month_start :: "nat \<Rightarrow> nat" where
  "month_start j = (153 * j + 2) div 5"

definition month_name :: "nat \<Rightarrow> nat" where
  "month_name j = (if j < 10 then j + 3 else j - 9)"

lemma month_of: "(5 * k + 2) div 153 = j \<longleftrightarrow> month_start j \<le> k \<and> k < month_start (Suc j)"
proof -
  have "(5 * k + 2) div 153 = j \<longleftrightarrow> j \<le> (5 * k + 2) div 153 \<and> (5 * k + 2) div 153 < Suc j" by (auto simp only: less_Suc_eq_le)
  also have "... \<longleftrightarrow> j * 153 \<le> 5 * k + 2 \<and> 5 * k + 2 < Suc j * 153"
    by (simp only: less_eq_div_iff_mult_less_eq div_less_iff_less_mult zero_less_numeral)
  also have "... \<longleftrightarrow> 153 * j + 2 < Suc k * 5 \<and> Suc k * 5 \<le> 153 * Suc j + 2" by auto
  also have "... \<longleftrightarrow> month_start j < Suc k \<and> Suc k \<le> month_start (Suc j)"
    unfolding month_start_def by (simp only: less_eq_div_iff_mult_less_eq div_less_iff_less_mult zero_less_numeral)
  finally show ?thesis by auto
qed

lemma month_day_in:
  assumes "month_start j \<le> k" and "k < month_start (Suc j)"
  shows "month_day k = (month_name j, k - month_start j + 1)"
proof -
  have "(5 * k + 2) div 153 = j" using assms by (simp only: month_of)
  then show ?thesis by (simp only: month_day_def Let_def month_start_def month_name_def)
qed

lemma month_lengths:
  assumes "j < 11"
  shows "month_length y (month_name j) = month_start (Suc j) - month_start j"
proof -
  from assms consider "j = 0" | "j = 1" | "j = 2" | "j = 3" | "j = 4" | "j = 5" | "j = 6" | "j = 7" | "j = 8" | "j = 9" | "j = 10" by (auto simp: numeral_eq_Suc less_Suc_eq)
  then show ?thesis by cases (simp_all add: month_length_def month_name_def month_start_def)
qed

lemma next_in_year:
  assumes "Suc k < (if leap (Suc y) then 366 else 365)"
  shows "date_in y (Suc k) = next_date (date_in y k)"
proof -
  obtain j where j: "month_start j \<le> k" "k < month_start (Suc j)" using month_of [of k] by blast
  have small: "Suc k < 366" using assms by (simp split: if_splits)
  have "j < 12"
  proof (rule ccontr)
    assume "\<not> j < 12"
    then have "153 * 12 + 2 \<le> 153 * j + 2" by simp
    then have "(153 * 12 + 2) div 5 \<le> month_start j" unfolding month_start_def by (rule div_le_mono)
    with j(1) small show False by simp
  qed
  then consider (feb) "j = 11" | (other) "j < 11" by linarith
  then show ?thesis
  proof cases
    case feb
    then have start: "337 \<le> k" "k < 367" "Suc k < 367" using j small by (simp_all add: month_start_def)
    then have "month_day k = (2, k - 336)" "month_day (Suc k) = (2, Suc k - 336)"
      using month_day_in [of 11 k] month_day_in [of 11 "Suc k"] by (simp_all add: month_start_def month_name_def)
    then show ?thesis using assms start by (auto simp: date_in_def month_length_def)
  next
    case other
    note day = month_day_in [OF j]
    show ?thesis
    proof (cases "Suc k < month_start (Suc j)")
      case True
      then have "month_day (Suc k) = (month_name j, Suc k - month_start j + 1)" using j by (intro month_day_in) simp_all
      then show ?thesis using True j other by (simp add: date_in_def day month_lengths Suc_diff_le)
    next
      case False
      then have last: "Suc k = month_start (Suc j)" using j by simp
      have "(153 * Suc j + 2 + 5) div 5 \<le> month_start (Suc (Suc j))" unfolding month_start_def by (rule div_le_mono) simp
      then have "month_start (Suc j) < month_start (Suc (Suc j))" by (simp only: month_start_def div_add_self2)
      then have "month_day (Suc k) = (month_name (Suc j), 1)" using last month_day_in [of "Suc j" "Suc k"] by simp
      moreover have "month_length x (month_name j) = k - month_start j + 1" for x
        using last j month_lengths [OF other, of x] by simp
      moreover have "j < 9 \<or> j = 9 \<or> j = 10" using other by arith
      ultimately show ?thesis unfolding date_in_def day by (auto simp: month_name_def)
    qed
  qed
qed

lemma new_year: "date_in (Suc y) 0 = next_date (date_in y (if leap (Suc y) then 365 else 364))"
proof -
  have "month_day 0 = (3, 1)" "month_day 365 = (2, 29)" "month_day 364 = (2, 28)"
    by (simp_all add: month_day_def)
  then show ?thesis by (simp add: date_in_def month_length_def)
qed

section \<open>A day at a time\<close>

lemma civil_step: "civil_from_days (Suc n) = next_date (civil_from_days n)"
proof -
  let ?era = "(n + 719468) div 146097" and ?doe = "(n + 719468) mod 146097"
  have "?doe < year_start 400" by (simp add: year_start_def)
  then obtain y where y: "y < 400" "year_start y \<le> ?doe" "?doe < year_start (Suc y)" using year_found by blast
  let ?k = "?doe - year_start y"
  let ?len = "if leap (Suc (?era * 400 + y)) then 366 else 365 :: nat"
  have leap: "leap (Suc (?era * 400 + y)) = leap (Suc y)"
    using dvd_add_right_iff [of 4 "?era * 400" "Suc y"] dvd_add_right_iff [of 100 "?era * 400" "Suc y"]
      dvd_add_right_iff [of 400 "?era * 400" "Suc y"] dvd_mult [of _ 400 ?era] unfolding leap_def by simp
  then have length: "year_start (Suc y) - year_start y = ?len" by (simp add: year_start_Suc)
  have n: "n + 719468 = ?era * 146097 + year_start y + ?k" using y(2) by simp
  have here: "civil_from_days n = date_in (?era * 400 + y) ?k"
    by (rule civil_is_date_in [OF y(1) n]) (use y in simp)
  show ?thesis
  proof (cases "Suc ?k < ?len")
    case True
    have "civil_from_days (Suc n) = date_in (?era * 400 + y) (Suc ?k)"
      by (rule civil_is_date_in [OF y(1)]) (use n True length in simp_all)
    then show ?thesis using here next_in_year [OF True] by simp
  next
    case False
    then have last: "Suc ?k = ?len" using length y by linarith
    have tomorrow: "civil_from_days (Suc n) = date_in (Suc (?era * 400 + y)) 0"
    proof (cases "y < 399")
      case True
      have "civil_from_days (Suc n) = date_in (?era * 400 + Suc y) 0"
        by (rule civil_is_date_in) (use True n last length year_start_Suc in simp_all)
      then show ?thesis by simp
    next
      case False
      with y(1) have y399: "y = 399" by simp
      then have "?doe = 146096" using last length y(2) by (simp add: year_start_def)
      then have "Suc n + 719468 = Suc ?era * 146097 + year_start 0 + 0"
        using div_mult_mod_eq [of "n + 719468" 146097] by (simp add: year_start_def)
      then have "civil_from_days (Suc n) = date_in (Suc ?era * 400 + 0) 0"
        by (rule civil_is_date_in [rotated]) (simp_all add: year_start_def)
      then show ?thesis using y399 by simp
    qed
    have k: "?k = (if leap (Suc (?era * 400 + y)) then 365 else 364)" using last by (cases "leap (Suc (?era * 400 + y))") simp_all
    show ?thesis unfolding tomorrow new_year here k ..
  qed
qed

text \<open>C30: The date a giveaway card shows is the date of the Gregorian calendar: whatever the number of
  days since the first of January 1970, \<open>civil_from_days\<close> is what comes of taking the next day that often,
  with the lengths of the months and the leap years of the calendar.\<close>

theorem dates_are_gregorian: "civil_from_days days = (next_date ^^ days) (1970, 1, 1)"
proof (induction days)
  case 0
  show ?case by (simp add: civil_from_days_def Let_def)
next
  case (Suc days)
  then show ?case by (simp add: civil_step)
qed

end
