(* ===== verification/WidgetOver.thy ===== *)
theory WidgetOver
  imports WidgetClaims
begin

text \<open>
  What is over stays as it is: the rows a later run of requests and ticks cannot touch any more.
\<close>

definition over_stays :: "widget_db \<Rightarrow> widget_db \<Rightarrow> bool" where
  "over_stays W W' \<longleftrightarrow>
     (\<forall>r \<in> set (wd_polls W). pl_closed_at r \<noteq> None \<longrightarrow> r \<in> set (wd_polls W') \<and>
        filter (\<lambda>v. vt_poll v = pl_id r) (wd_votes W') = filter (\<lambda>v. vt_poll v = pl_id r) (wd_votes W)) \<and>
     (\<forall>g \<in> set (wd_giveaways W). gw_status g \<noteq> GiveawayOpen \<longrightarrow>
        (\<exists>w. g\<lparr>gw_winner := w\<rparr> \<in> set (wd_giveaways W') \<and> (gw_status g = GiveawayCancelled \<longrightarrow> w = gw_winner g)) \<and>
        filter (\<lambda>e. ge_giveaway e = gw_id g) (wd_entries W') = filter (\<lambda>e. ge_giveaway e = gw_id g) (wd_entries W)) \<and>
     (\<forall>r \<in> set (wd_reminders W). rm_status r \<noteq> ReminderPending \<longrightarrow> r \<in> set (wd_reminders W')) \<and>
     (\<forall>e \<in> set (wd_events W). vc_status e \<noteq> EventUpcoming \<longrightarrow>
        (\<exists>t. e\<lparr>vc_cancel_notified_at := t\<rparr> \<in> set (wd_events W') \<and> (vc_status e = EventStarted \<longrightarrow> t = vc_cancel_notified_at e)) \<and>
        filter (\<lambda>r. rs_event r = vc_id e) (wd_rsvps W') = filter (\<lambda>r. rs_event r = vc_id e) (wd_rsvps W))"

section \<open>Each table\<close>

definition polls_stay :: "widget_db \<Rightarrow> widget_db \<Rightarrow> bool" where
  "polls_stay W W' \<longleftrightarrow>
     (\<forall>r \<in> set (wd_polls W). pl_closed_at r \<noteq> None \<longrightarrow> r \<in> set (wd_polls W') \<and>
        filter (\<lambda>v. vt_poll v = pl_id r) (wd_votes W') = filter (\<lambda>v. vt_poll v = pl_id r) (wd_votes W))"

definition giveaways_stay :: "widget_db \<Rightarrow> widget_db \<Rightarrow> bool" where
  "giveaways_stay W W' \<longleftrightarrow>
     (\<forall>g \<in> set (wd_giveaways W). gw_status g \<noteq> GiveawayOpen \<longrightarrow>
        (\<exists>w. g\<lparr>gw_winner := w\<rparr> \<in> set (wd_giveaways W') \<and> (gw_status g = GiveawayCancelled \<longrightarrow> w = gw_winner g)) \<and>
        filter (\<lambda>e. ge_giveaway e = gw_id g) (wd_entries W') = filter (\<lambda>e. ge_giveaway e = gw_id g) (wd_entries W))"

definition reminders_stay :: "widget_db \<Rightarrow> widget_db \<Rightarrow> bool" where
  "reminders_stay W W' \<longleftrightarrow>
     (\<forall>r \<in> set (wd_reminders W). rm_status r \<noteq> ReminderPending \<longrightarrow> r \<in> set (wd_reminders W'))"

definition events_stay :: "widget_db \<Rightarrow> widget_db \<Rightarrow> bool" where
  "events_stay W W' \<longleftrightarrow>
     (\<forall>e \<in> set (wd_events W). vc_status e \<noteq> EventUpcoming \<longrightarrow>
        (\<exists>t. e\<lparr>vc_cancel_notified_at := t\<rparr> \<in> set (wd_events W') \<and> (vc_status e = EventStarted \<longrightarrow> t = vc_cancel_notified_at e)) \<and>
        filter (\<lambda>r. rs_event r = vc_id e) (wd_rsvps W') = filter (\<lambda>r. rs_event r = vc_id e) (wd_rsvps W))"

lemma over_stays_iff: "over_stays W W' \<longleftrightarrow> polls_stay W W' \<and> giveaways_stay W W' \<and> reminders_stay W W' \<and> events_stay W W'"
  by (simp only: over_stays_def polls_stay_def giveaways_stay_def reminders_stay_def events_stay_def)

lemma same_row:
  "g \<in> G \<Longrightarrow> \<exists>w. g\<lparr>gw_winner := w\<rparr> \<in> G \<and> (gw_status g = GiveawayCancelled \<longrightarrow> w = gw_winner g)"
  "e \<in> H \<Longrightarrow> \<exists>t. e\<lparr>vc_cancel_notified_at := t\<rparr> \<in> H \<and> (vc_status e = EventStarted \<longrightarrow> t = vc_cancel_notified_at e)"
  using exI [of _ "gw_winner g"] exI [of _ "vc_cancel_notified_at e"] by force+

lemma kept_row: "r \<in> set rows \<Longrightarrow> \<not> p r \<Longrightarrow> r \<in> set (update_where p f rows)"
  by (auto simp: update_where_def intro!: image_eqI [of _ _ r])

lemma changed_row: "r \<in> set rows \<Longrightarrow> (if p r then f r else r) \<in> set (update_where p f rows)"
  by (auto simp: update_where_def intro!: image_eqI [of _ _ r])

lemma filter_others:
  "(\<And>r. p r \<Longrightarrow> \<not> q r \<and> \<not> q (f r)) \<Longrightarrow> filter q (update_where p f rows) = filter q rows"
  by (induction rows) (auto simp: update_where_def)

lemma filter_kept: "(\<And>r. q r \<Longrightarrow> p r) \<Longrightarrow> filter q (filter p rows) = filter q rows"
  by (induction rows) auto

lemma of_others:
  "j \<noteq> i \<Longrightarrow> filter (\<lambda>v. vt_poll v = j) (wd_votes (poll_vote now i pk k W)) = filter (\<lambda>v. vt_poll v = j) (wd_votes W)"
  "j \<noteq> i \<Longrightarrow> filter (\<lambda>v. vt_poll v = j) (wd_votes (snd (poll_retract i pk W))) = filter (\<lambda>v. vt_poll v = j) (wd_votes W)"
  "j \<noteq> i \<Longrightarrow> filter (\<lambda>e. ge_giveaway e = j) (wd_entries (snd (giveaway_enter now i pk W))) = filter (\<lambda>e. ge_giveaway e = j) (wd_entries W)"
  "j \<noteq> i \<Longrightarrow> filter (\<lambda>e. ge_giveaway e = j) (wd_entries (snd (giveaway_leave i pk W))) = filter (\<lambda>e. ge_giveaway e = j) (wd_entries W)"
  "j \<noteq> i \<Longrightarrow> filter (\<lambda>r. rs_event r = j) (wd_rsvps (event_rsvp now i pk a W)) = filter (\<lambda>r. rs_event r = j) (wd_rsvps W)"
  "j \<noteq> i \<Longrightarrow> filter (\<lambda>r. rs_event r = j) (wd_rsvps (snd (event_clear_rsvp i pk W))) = filter (\<lambda>r. rs_event r = j) (wd_rsvps W)"
  by (auto simp: poll_vote_def poll_retract_def giveaway_enter_def giveaway_leave_def event_rsvp_def event_clear_rsvp_def
      simp del: filter_filter intro!: filter_others filter_kept)

lemma same_rows:
  "wd_polls (poll_vote now i pk k W) = wd_polls W" "wd_polls (snd (poll_retract i pk W)) = wd_polls W"
  "wd_giveaways (snd (giveaway_enter now i pk W)) = wd_giveaways W" "wd_giveaways (snd (giveaway_leave i pk W)) = wd_giveaways W"
  "wd_events (event_rsvp now i pk a W) = wd_events W" "wd_events (snd (event_clear_rsvp i pk W)) = wd_events W"
  by (simp_all add: widget_statements)

lemma polls_stay_change:
  assumes "change W W'" and ok: "polls_ok W"
  shows "polls_stay W W'"
proof -
  have same: "r = s" if "poll_get W i = Some r" "s \<in> set (wd_polls W)" "pl_id s = i" for i r s
    using that ok by (auto simp: polls_ok_def poll_get_def find_Some_iff distinct_map inj_on_def)
  from assms(1) show ?thesis
  proof cases
    case (voted i r k now pk)
    have "pl_closed_at s = None" if "s \<in> set (wd_polls W)" "pl_id s = i" for s using same [OF voted(2) that] voted(3) by simp
    then show ?thesis unfolding polls_stay_def voted(1) by (intro ballI impI conjI of_others) (auto simp: same_rows)
  next
    case (retracted i r pk)
    have "pl_closed_at s = None" if "s \<in> set (wd_polls W)" "pl_id s = i" for s using same [OF retracted(2) that] retracted(3) by simp
    then show ?thesis unfolding polls_stay_def retracted(1) by (intro ballI impI conjI of_others) (auto simp: same_rows)
  next
    case (closed now i)
    then show ?thesis by (auto simp: polls_stay_def poll_close_def update_polls_def intro!: kept_row)
  qed (simp_all add: polls_stay_def widget_statements Let_def)
qed

lemma giveaways_stay_change:
  assumes "change W W'" and ok: "giveaways_ok W"
  shows "giveaways_stay W W'"
proof -
  have open_id: "gw_id h \<noteq> i" if "giveaway_get W i = Some g" "gw_status g = GiveawayOpen" "h \<in> set (wd_giveaways W)" "gw_status h \<noteq> GiveawayOpen" for i g h
    using giveaway_by_id [OF ok that(1,3)] that by auto
  from assms(1) show ?thesis
  proof cases
    case (new_giveaway now c m creator prize ends_at)
    then show ?thesis unfolding giveaways_stay_def by (intro ballI impI conjI same_row) (simp_all add: giveaway_create_def Let_def)
  next
    case (entered i g now pk)
    show ?thesis unfolding giveaways_stay_def entered(1)
      by (intro ballI impI conjI same_row of_others) (use entered in \<open>auto simp: same_rows dest: open_id simp del: insert_iff\<close>)
  next
    case (left i g pk)
    show ?thesis unfolding giveaways_stay_def left(1)
      by (intro ballI impI conjI same_row of_others) (use left in \<open>auto simp: same_rows dest: open_id simp del: insert_iff\<close>)
  next
    case (called_off i)
    then show ?thesis by (auto simp: giveaways_stay_def giveaway_cancel_def update_giveaways_def intro!: same_row kept_row)
  next
    case (drawn winner i)
    then show ?thesis by (auto simp: giveaways_stay_def update_giveaways_def intro!: same_row kept_row)
  next
    case (rerolled i pk)
    have "g\<lparr>gw_winner := if gw_id g = i \<and> gw_status g = GiveawayEnded then Some pk else gw_winner g\<rparr> \<in> set (wd_giveaways W')"
      if "g \<in> set (wd_giveaways W)" for g
      using changed_row [OF that, of "\<lambda>r. gw_id r = i \<and> gw_status r = GiveawayEnded" "\<lambda>r. r\<lparr>gw_winner := Some pk\<rparr>"] rerolled(1)
      by (auto simp: giveaway_reroll_def update_giveaways_def split: if_splits)
    moreover have "wd_entries W' = wd_entries W" using rerolled(1) by (simp add: giveaway_reroll_def update_giveaways_def)
    ultimately show ?thesis unfolding giveaways_stay_def
      by (intro ballI impI conjI exI) (blast, simp_all)
  qed (auto simp: giveaways_stay_def widget_statements Let_def intro!: same_row)
qed

lemma reminders_stay_change:
  assumes "change W W'"
  shows "reminders_stay W W'"
  using assms by cases (auto simp: reminders_stay_def widget_statements Let_def intro!: kept_row)

lemma events_stay_change:
  assumes "change W W'" and ok: "events_ok W"
  shows "events_stay W W'"
proof -
  have status: "vc_status e = st" if "has_status st W i" "e \<in> set (wd_events W)" "vc_id e = i" for st i e
    using that ok by (auto simp: has_status_def events_ok_def distinct_map inj_on_def)
  then have not_up: "vc_id e \<noteq> i" if "has_status EventUpcoming W i" "e \<in> set (wd_events W)" "vc_status e \<noteq> EventUpcoming" for i e
    using that by blast
  from assms(1) show ?thesis
  proof cases
    case (new_event now c m creator p starts_at)
    then show ?thesis unfolding events_stay_def by (intro ballI impI conjI same_row) (simp_all add: event_create_def Let_def)
  next
    case (answered i response now pk)
    show ?thesis unfolding events_stay_def answered(1)
      by (intro ballI impI conjI same_row of_others) (use answered in \<open>auto simp: same_rows dest: not_up simp del: insert_iff\<close>)
  next
    case (withdrawn i pk)
    show ?thesis unfolding events_stay_def withdrawn(1)
      by (intro ballI impI conjI same_row of_others) (use withdrawn in \<open>auto simp: same_rows dest: not_up simp del: insert_iff\<close>)
  next
    case (edited i title description location starts_at lead rearm)
    then show ?thesis by (auto simp: events_stay_def event_edit_def update_events_def intro!: same_row kept_row)
  next
    case (event_off i now)
    then show ?thesis by (auto simp: events_stay_def event_cancel_def update_events_def intro!: same_row kept_row)
  next
    case (reminded i now)
    then show ?thesis by (auto simp: events_stay_def mark_reminded_def update_events_def intro!: same_row kept_row dest: not_up)
  next
    case (started i now)
    then show ?thesis by (auto simp: events_stay_def update_events_def intro!: same_row kept_row)
  next
    case (told i now)
    have "e\<lparr>vc_cancel_notified_at := if vc_id e = i \<and> vc_cancel_notified_at e = None then Some now else vc_cancel_notified_at e\<rparr> \<in> set (wd_events W')"
      if "e \<in> set (wd_events W)" for e
      using changed_row [OF that, of "\<lambda>r. vc_id r = i \<and> vc_cancel_notified_at r = None" "\<lambda>r. r\<lparr>vc_cancel_notified_at := Some now\<rparr>"] told(1)
      by (auto simp: mark_cancel_notified_def update_events_def split: if_splits)
    moreover have "vc_id e \<noteq> i" if "e \<in> set (wd_events W)" "vc_status e = EventStarted" for e
      using status [OF told(2) that(1)] that(2) by auto
    moreover have "wd_rsvps W' = wd_rsvps W" using told(1) by (simp add: mark_cancel_notified_def update_events_def)
    ultimately show ?thesis unfolding events_stay_def
      by (intro ballI impI conjI exI) (blast, simp_all)
  qed (auto simp: events_stay_def widget_statements Let_def intro!: same_row)
qed

section \<open>Runs\<close>

lemma over_stays_change: "change W W' \<Longrightarrow> widgets_ok W \<Longrightarrow> over_stays W W'"
  by (simp add: over_stays_iff widgets_ok_def polls_stay_change giveaways_stay_change reminders_stay_change events_stay_change)

lemma giveaways_stay_trans: "giveaways_stay U V \<Longrightarrow> giveaways_stay V W \<Longrightarrow> giveaways_stay U W"
proof (unfold giveaways_stay_def, intro ballI impI, goal_cases)
  case (1 g)
  then obtain w where w: "g\<lparr>gw_winner := w\<rparr> \<in> set (wd_giveaways V)" "gw_status g = GiveawayCancelled \<longrightarrow> w = gw_winner g"
    by blast
  then show ?case using 1 bspec [OF 1(2) w(1)] by auto
qed

lemma events_stay_trans: "events_stay U V \<Longrightarrow> events_stay V W \<Longrightarrow> events_stay U W"
proof (unfold events_stay_def, intro ballI impI, goal_cases)
  case (1 e)
  then obtain t where t: "e\<lparr>vc_cancel_notified_at := t\<rparr> \<in> set (wd_events V)" "vc_status e = EventStarted \<longrightarrow> t = vc_cancel_notified_at e"
    by blast
  then show ?case using 1 bspec [OF 1(2) t(1)] by auto
qed

lemma over_stays_trans: "over_stays U V \<Longrightarrow> over_stays V W \<Longrightarrow> over_stays U W"
  using giveaways_stay_trans events_stay_trans by (auto simp: over_stays_iff polls_stay_def reminders_stay_def)

lemma over_stays_refl: "over_stays W W"
  unfolding over_stays_def by (intro conjI ballI impI same_row) simp_all

lemma over_stays_changes: "changes W W' \<Longrightarrow> widgets_ok W \<Longrightarrow> over_stays W W'"
  by (induction rule: rtranclp_induct) (auto intro: over_stays_refl over_stays_trans over_stays_change widgets_ok_changes)

text \<open>C15: What is over stays over.  From any state a server can reach, whatever members ask, the sweeper
  does and the rest of the server does afterwards: a closed poll keeps its row and its votes; a cancelled
  giveaway keeps its row, one that has ended keeps all of it but, after a reroll, its winner, and both
  keep their entries; a reminder that was sent or cancelled keeps its row; an event that has started keeps
  its row, a cancelled one all of it but the mark that its members were told, and both keep their answers.\<close>

theorem what_is_over_stays_over:
  assumes "widget_reaches api S"
  shows "over_stays (ws_widgets S) (ws_widgets (widget_run api steps S))"
  using over_stays_changes [OF run_changes] reaches_ok [OF assms] by blast

definition demo_closed :: widget_server where
  "demo_closed = widget_step demo_api (Asked (demo_env 200) anna False (ClosePoll 1)) (demo_at (ws_widgets demo_polled))"

theorem what_is_over_stays_over_witness:
  "over_stays (ws_widgets demo_closed) (ws_widgets (widget_run demo_api [Asked (demo_env 300) bert False (VotePoll 1 0)] demo_closed)) \<and>
   pl_closed_at (hd (wd_polls (ws_widgets demo_closed))) = Some 200"
proof
  have "widget_reaches demo_api (demo_at (ws_widgets demo_polled))"
    using widget_reaches.step [OF widget_demo_reached(2), of "Elsewhere demo_start"] by (simp add: demo_elsewhere)
  then have "widget_reaches demo_api demo_closed" unfolding demo_closed_def by (rule widget_reaches.step)
  then show "over_stays (ws_widgets demo_closed) (ws_widgets (widget_run demo_api [Asked (demo_env 300) bert False (VotePoll 1 0)] demo_closed))"
    by (rule what_is_over_stays_over)
  show "pl_closed_at (hd (wd_polls (ws_widgets demo_closed))) = Some 200"
    using demo_allowed(1) [of "ws_widgets demo_polled" anna]
    by (simp add: demo_closed_def widget_step_def handle_widget_def handle_arm_def close_poll_def unless_timed_out_def is_timed_out_def
      get_member_def demo_at_def demo_start_def demo_access_def demo_member_def anna_def bert_def cora_def with_poll_def guarded_def
      demo_widgets poll_create_def poll_get_def no_widgets_def widget_channel_visible_def class_refuses_def channel_visible_def
      resolve_def find_channel_def demo_tables_def demo_class_def get_chan_def demo_channel_def is_dm_participant_def creator_or_manager_def
      poll_close_def update_polls_def update_where_def with_widgets_def Let_def)
qed

end
