(* ===== verification/WidgetNotices.thy ===== *)
theory WidgetNotices
  imports WidgetOver
begin

text \<open>
  The reminders a tick of the sweeper sends: each that is due, once, and never again.
\<close>

section \<open>Passes that send no reminder\<close>

definition spares :: "sweeping \<Rightarrow> sweeping \<Rightarrow> bool" where
  "spares acc acc' \<longleftrightarrow>
     (\<exists>rest. so_dms (fst acc') = so_dms (fst acc) @ rest) \<and> wd_reminders (ws_widgets (snd acc')) = wd_reminders (ws_widgets (snd acc))"

lemma spares_refl [simp]: "spares acc acc"
  by (simp add: spares_def)

lemma spares_trans: "spares a b \<Longrightarrow> spares b c \<Longrightarrow> spares a c"
  by (auto simp: spares_def)

lemma fold_spares:
  assumes "\<And>row acc. spares acc (f row acc)"
  shows "spares acc (fold f rows acc)"
proof (induction rows arbitrary: acc)
  case (Cons row rows)
  show ?case using spares_trans [OF assms [of acc row] Cons.IH] by simp
qed simp

lemma same_reminders [simp]:
  "wd_reminders (snd (update_giveaways p f W)) = wd_reminders W"
  "wd_reminders (snd (update_events q g W)) = wd_reminders W"
  "wd_reminders (update_polls u h W) = wd_reminders W"
  by (simp_all add: update_giveaways_def update_events_def update_polls_def)

lemma drawn_reminders:
  "close_and_draw E A row (db, W) = Inr (x, st) \<Longrightarrow> wd_reminders (snd st) = wd_reminders W"
  "start_and_announce E A ev pk (db, W) = Inr (Some (y, st)) \<Longrightarrow> wd_reminders (snd st) = wd_reminders W"
  by (auto simp: close_and_draw_def start_and_announce_def Let_def result_simps split_beta split: if_splits)

lemma event_pass_spares:
  "spares acc (sweep_lead E e acc)" "spares acc (sweep_start E pk e acc)" "spares acc (sweep_cancelled E e acc)"
  by (auto simp: spares_def sweep_lead_def sweep_start_def sweep_cancelled_def mark_reminded_def mark_cancel_notified_def say_def Let_def split_beta
      transacted_def dest: drawn_reminders split: sum.split option.split)

lemma events_spare: "spares acc (sweep_events E acc)"
proof -
  have passes: "spares acc (fold (sweep_lead E) rows acc)" "spares acc (fold (sweep_cancelled E) rows acc)"
    "spares acc (fold (sweep_start E pk) rows acc)" for rows pk acc
    by (rule fold_spares, rule event_pass_spares)+
  have "spares acc (sweep_starts E acc)" for acc
    using passes(3) [of "(fst acc, (snd acc)\<lparr>ws_access := A\<rparr>)" for A]
    by (simp add: sweep_starts_def Let_def split_beta spares_def)
  then show ?thesis
    unfolding sweep_events_def Let_def by (intro spares_trans [OF passes(1) spares_trans [OF _ passes(2)]])
qed

section \<open>The passes before\<close>

definition before :: "sweeping \<Rightarrow> sweeping \<Rightarrow> bool" where
  "before acc acc' \<longleftrightarrow>
     so_dms (fst acc') = so_dms (fst acc) \<and> wd_reminders (ws_widgets (snd acc')) = wd_reminders (ws_widgets (snd acc)) \<and>
     ws_access (snd acc') = ws_access (snd acc)"

lemma polls_before: "before acc (sweep_polls E acc)"
proof -
  have "wd_reminders (snd (fold (\<lambda>row (out, V). let V' = poll_close now (pl_id row) V
      in (out @ [poll_build_info V' (row\<lparr>pl_closed_at := Some now\<rparr>)], V')) rows (out, W))) = wd_reminders W" for now rows out W
    by (induction rows arbitrary: out W) (simp_all add: Let_def poll_close_def)
  then show ?thesis by (simp add: before_def sweep_polls_def poll_close_due_def say_def split_beta)
qed

lemma giveaway_before: "before acc (sweep_giveaway E g acc)"
  by (auto simp: before_def sweep_giveaway_def say_def transacted_def dest: drawn_reminders split: sum.split)

lemma giveaways_before: "before acc (fold (sweep_giveaway E) rows acc)"
proof (induction rows arbitrary: acc)
  case (Cons row rows)
  then show ?case using giveaway_before [of acc E row] by (simp add: before_def)
qed (simp add: before_def)

section \<open>The reminders\<close>

definition marked_sent :: "nat \<Rightarrow> reminder_row \<Rightarrow> reminder_row" where
  "marked_sent now r = r\<lparr>rm_status := ReminderSent, rm_sent_at := Some now\<rparr>"

definition reminder_dm :: "widget_server \<Rightarrow> reminder_row \<Rightarrow> public_key \<times> text_str" where
  "reminder_dm S r = (rm_owner r, reminder_dm_text r (get_chan (ws_access S) (rm_channel r)))"

lemma fold_reminders:
  assumes "distinct (map rm_id rows)"
    and "\<forall>r \<in> set rows. \<exists>x \<in> set (wd_reminders (ws_widgets (snd acc))). rm_id x = rm_id r \<and> rm_status x = ReminderPending"
  shows "so_dms (fst (fold (sweep_reminder E) rows acc)) = so_dms (fst acc) @ map (reminder_dm (snd acc)) rows \<and>
     wd_reminders (ws_widgets (snd (fold (sweep_reminder E) rows acc))) =
       map (\<lambda>x. if rm_id x \<in> rm_id ` set rows \<and> rm_status x = ReminderPending then marked_sent (we_now E) x else x) (wd_reminders (ws_widgets (snd acc)))"
  using assms
proof (induction rows arbitrary: acc)
  case (Cons row rows)
  let ?rs = "wd_reminders (ws_widgets (snd acc))" and ?acc = "sweep_reminder E row acc"
  have hit: "list_ex (\<lambda>r. rm_id r = rm_id row \<and> rm_status r = ReminderPending) ?rs"
    using Cons.prems(2) by (auto simp: list_ex_iff)
  have dms: "so_dms (fst ?acc) = so_dms (fst acc) @ [reminder_dm (snd acc) row]" and access: "ws_access (snd ?acc) = ws_access (snd acc)"
    and rows: "wd_reminders (ws_widgets (snd ?acc)) =
      map (\<lambda>x. if rm_id x = rm_id row \<and> rm_status x = ReminderPending then marked_sent (we_now E) x else x) ?rs"
    using hit by (simp_all add: sweep_reminder_def mark_sent_def update_reminders_def update_where_def say_def reminder_dm_def marked_sent_def Let_def)
  have "\<forall>r \<in> set rows. \<exists>x \<in> set (wd_reminders (ws_widgets (snd ?acc))). rm_id x = rm_id r \<and> rm_status x = ReminderPending"
  proof
    fix r assume r: "r \<in> set rows"
    then obtain x where "x \<in> set ?rs" "rm_id x = rm_id r" "rm_status x = ReminderPending" using Cons.prems(2) by auto
    moreover have "rm_id r \<noteq> rm_id row" using r Cons.prems(1) by (auto simp: image_iff)
    ultimately show "\<exists>x \<in> set (wd_reminders (ws_widgets (snd ?acc))). rm_id x = rm_id r \<and> rm_status x = ReminderPending"
      unfolding rows by (intro bexI [of _ x]) (auto intro!: image_eqI [of _ _ x])
  qed
  with Cons.IH [of ?acc] Cons.prems(1) dms access rows show ?case
    by (auto simp: reminder_dm_def marked_sent_def)
qed simp

lemma due_rows:
  assumes "reminders_ok W"
  shows "distinct (map rm_id (reminders_due now W))"
    and "r \<in> set (reminders_due now W) \<Longrightarrow> r \<in> set (wd_reminders W) \<and> rm_status r = ReminderPending"
proof -
  have "distinct (map rm_id (sort_key rm_due_at (filter p (wd_reminders W))))" for p
    using assms by (auto simp: reminders_ok_def distinct_map inj_on_def)
  then show "distinct (map rm_id (reminders_due now W))" unfolding reminders_due_def take_map [symmetric] by (rule distinct_take)
  show "r \<in> set (reminders_due now W) \<Longrightarrow> r \<in> set (wd_reminders W) \<and> rm_status r = ReminderPending"
    by (auto simp: reminders_due_def dest!: in_set_takeD)
qed

lemma tick_reminders:
  fixes E :: widget_env
  assumes ok: "reminders_ok (ws_widgets S)"
  defines "due \<equiv> reminders_due (we_now E) (ws_widgets S)"
  shows "(\<exists>rest. so_dms (fst (sweep_once E S)) = map (reminder_dm S) due @ rest) \<and>
     wd_reminders (ws_widgets (snd (sweep_once E S))) =
       map (\<lambda>r. if r \<in> set due then marked_sent (we_now E) r else r) (wd_reminders (ws_widgets S))"
proof -
  let ?W = "ws_widgets S"
  define acc where "acc = fold (sweep_giveaway E) (giveaways_due (we_now E) (ws_widgets (snd (sweep_polls E (\<lparr>so_broadcasts = [], so_dms = []\<rparr>, S)))))
     (sweep_polls E (\<lparr>so_broadcasts = [], so_dms = []\<rparr>, S))"
  have acc: "so_dms (fst acc) = []" "wd_reminders (ws_widgets (snd acc)) = wd_reminders ?W" "ws_access (snd acc) = ws_access S"
    using polls_before [of "(\<lparr>so_broadcasts = [], so_dms = []\<rparr>, S)" E] giveaways_before
    by (simp_all add: acc_def before_def)
  then have due: "reminders_due (we_now E) (ws_widgets (snd acc)) = due" and dm: "reminder_dm (snd acc) = reminder_dm S"
    by (auto simp: due_def reminders_due_def reminder_dm_def)
  have once: "sweep_once E S = sweep_events E (fold (sweep_reminder E) due acc)"
    by (simp add: sweep_once_def Let_def acc_def [symmetric] due)
  have "distinct (map rm_id due)" "\<forall>r \<in> set due. \<exists>x \<in> set (wd_reminders (ws_widgets (snd acc))). rm_id x = rm_id r \<and> rm_status x = ReminderPending"
    using due_rows [OF ok] unfolding due_def acc by blast+
  note fold = fold_reminders [OF this, of E, unfolded acc dm]
  have "rm_id r \<in> rm_id ` set due \<and> rm_status r = ReminderPending \<longleftrightarrow> r \<in> set due" if "r \<in> set (wd_reminders ?W)" for r
    using due_rows(2) [OF ok] ok that unfolding due_def by (auto simp: reminders_ok_def distinct_map dest!: inj_onD)
  with fold events_spare [of "fold (sweep_reminder E) due acc" E] show ?thesis
    unfolding once spares_def by (auto cong: map_cong)
qed

text \<open>C29: In every state a server can reach, a tick of the sweeper sends a direct message for each
  reminder that is due, the first two hundred in the order of their time, in that order and before any
  other message of the tick; the rows of these reminders, and of no others, then say that they were sent,
  and when.  None of them is ever due again, whatever the members ask, the sweeper does and the rest of the
  server does afterwards.\<close>

theorem reminders_go_out_once:
  assumes "widget_reaches api S"
  shows "let due = reminders_due (we_now E) (ws_widgets S); out = fst (sweep_once E S); S' = snd (sweep_once E S)
     in (\<exists>rest. so_dms out = map (reminder_dm S) due @ rest) \<and>
        wd_reminders (ws_widgets S') = map (\<lambda>r. if r \<in> set due then marked_sent (we_now E) r else r) (wd_reminders (ws_widgets S)) \<and>
        (\<forall>steps later. rm_id ` set (reminders_due later (ws_widgets (widget_run api steps S'))) \<inter> rm_id ` set due = {})"
proof -
  let ?due = "reminders_due (we_now E) (ws_widgets S)" and ?S = "snd (sweep_once E S)"
  have ok: "reminders_ok (ws_widgets S)" using reaches_ok [OF assms] by (simp add: widgets_ok_def)
  have reached: "widget_reaches api ?S" using widget_reaches.step [OF assms, of "Ticked E"] by (simp add: widget_step_def)
  have never: "rm_id r \<noteq> rm_id x" if r: "r \<in> set ?due" and x: "x \<in> set (reminders_due later (ws_widgets (widget_run api steps ?S)))" for r x steps later
  proof
    assume eq: "rm_id r = rm_id x"
    let ?T = "widget_run api steps ?S"
    have T: "reminders_ok (ws_widgets ?T)" using reaches_ok [OF reaches_run [OF reached]] by (simp add: widgets_ok_def)
    have "marked_sent (we_now E) r \<in> set (wd_reminders (ws_widgets ?S))"
      using tick_reminders [OF ok, of E] due_rows(2) [OF ok r] r by (auto intro!: image_eqI [of _ _ r])
    then have "marked_sent (we_now E) r \<in> set (wd_reminders (ws_widgets ?T))"
      using over_stays_changes [OF run_changes reaches_ok [OF reached], of api steps] by (auto simp: over_stays_def marked_sent_def)
    moreover have "x \<in> set (wd_reminders (ws_widgets ?T))" "rm_status x = ReminderPending" using due_rows(2) [OF T x] by auto
    moreover have "rm_id (marked_sent (we_now E) r) = rm_id x" "rm_status (marked_sent (we_now E) r) = ReminderSent" using eq by (simp_all add: marked_sent_def)
    ultimately show False using T by (auto simp: reminders_ok_def distinct_map dest!: inj_onD)
  qed
  then show ?thesis using tick_reminders [OF ok, of E] unfolding Let_def by fastforce
qed

theorem reminders_go_out_once_witness:
  "\<exists>rest. so_dms (fst (sweep_once (demo_env 3700) demo_reminded)) = map (reminder_dm demo_reminded)
     [\<lparr>rm_id = 1, rm_owner = anna, rm_channel = 3, rm_text = [120], rm_created_at = 100, rm_due_at = 3700, rm_status = ReminderPending, rm_sent_at = None\<rparr>] @ rest"
  using reminders_go_out_once [OF widget_demo_reached(4), of "demo_env 3700"]
  by (simp add: Let_def demo_widgets reminder_create_def no_widgets_def reminders_due_def REMINDER_DUE_BATCH_def)

section \<open>Who is told of an event\<close>

text \<open>
  The message before an event goes to everybody who answered \<open>going\<close> or \<open>maybe\<close> once, with
  the title and the place the event has now: whether they can still see the channel, or are members at
  all, is not asked, and nor is it for the start and the cancellation.
\<close>

lemma lead_time_is_told_to_all:
  assumes "row \<in> set (wd_events (ws_widgets S))" and "vc_reminded_at row = None"
    and "r \<in> set (wd_rsvps (ws_widgets S))" and "rs_event r = vc_id row" and "rs_response r \<in> {''going'', ''maybe''}"
  shows "(rs_member r, event_dm_text ([0x23F0] @ codes '' '' @ quoted (vc_title row) @ codes '' starts soon.'') row) \<in>
    set (so_dms (fst (sweep_lead E row (out, S\<lparr>ws_access := A\<rparr>))))"
proof -
  have "list_ex (\<lambda>e. vc_id e = vc_id row \<and> vc_reminded_at e = None) (wd_events (ws_widgets S))"
    using assms(1,2) by (auto simp: list_ex_iff)
  moreover have "rs_member r \<in> set (responders (vc_id row) [''going'', ''maybe''] (ws_widgets S))"
    using assms(3-5) by (auto simp: responders_def rsvps_of_def simp del: insert_iff)
  ultimately show ?thesis
    by (auto simp: sweep_lead_def mark_reminded_def update_events_def say_def event_dms_def responders_def rsvps_of_def Let_def)
qed

end
