(* ===== verification/WidgetSealed.thy ===== *)
theory WidgetSealed
  imports WidgetClaims
begin

text \<open>
  No widget and no message of the server reaches a channel whose class refuses what the server writes.
\<close>

section \<open>What a channel holds\<close>

definition held_in :: "server_db \<times> widget_db \<Rightarrow> nat \<Rightarrow> nat list" where
  "held_in st c =
     [count_list (map mr_channel (db_messages (fst st))) c,
      count_list (map pl_channel (wd_polls (snd st))) c,
      count_list (map gw_channel (wd_giveaways (snd st))) c,
      count_list (map vc_channel (wd_events (snd st))) c,
      count_list (map rm_channel (wd_reminders (snd st))) c]"

text \<open>No channel changes its class, and one that refuses gets nothing.\<close>

definition quiet_tables :: "server_db \<times> widget_db \<Rightarrow> server_db \<times> widget_db \<Rightarrow> bool" where
  "quiet_tables st st' \<longleftrightarrow>
     db_channels (fst st') = db_channels (fst st) \<and>
     (\<forall>c. refuses_server_authored_content (resolve (fst st) c) \<longrightarrow> list_all2 (\<le>) (held_in st' c) (held_in st c))"

lemma quiet_refl [simp]: "quiet_tables st st"
  by (simp add: quiet_tables_def held_in_def)

lemma class_cong: "db_channels db' = db_channels db \<Longrightarrow> resolve db' c = resolve db c"
  by (simp add: resolve_def find_channel_def)

lemma quietD: "quiet_tables st st' \<Longrightarrow> refuses_server_authored_content (resolve (fst st) c) \<Longrightarrow> list_all2 (\<le>) (held_in st' c) (held_in st c)"
  by (simp add: quiet_tables_def)

lemma quiet_class: "quiet_tables st st' \<Longrightarrow> resolve (fst st') c = resolve (fst st) c"
  using class_cong [of "fst st'" "fst st" c] by (simp add: quiet_tables_def)

lemma quiet_trans: "quiet_tables s t \<Longrightarrow> quiet_tables t u \<Longrightarrow> quiet_tables s u"
proof -
  assume st: "quiet_tables s t" and tu: "quiet_tables t u"
  have "list_all2 (\<le>) (held_in u c) (held_in s c)" if "refuses_server_authored_content (resolve (fst s) c)" for c
  proof (rule list_all2_trans [OF order_trans])
    show "list_all2 (\<le>) (held_in u c) (held_in t c)" using quietD [OF tu] that quiet_class [OF st] by simp
    show "list_all2 (\<le>) (held_in t c) (held_in s c)" using quietD [OF st that] .
  qed
  then show "quiet_tables s u" using st tu by (simp add: quiet_tables_def)
qed

lemma door_Inr [result_simps]: "door r = Inr x \<longleftrightarrow> r = Inr x"
  by (cases r) auto

text \<open>A change that creates nothing leaves the channels of every table as they are.\<close>

definition placed :: "widget_db \<Rightarrow> nat list \<times> nat list \<times> nat list \<times> nat list" where
  "placed W = (map pl_channel (wd_polls W), map gw_channel (wd_giveaways W), map vc_channel (wd_events W), map rm_channel (wd_reminders W))"

lemma quiet_placed: "placed W' = placed W \<Longrightarrow> quiet_tables (db, W) (db, W')"
  by (simp add: quiet_tables_def placed_def held_in_def)

lemma placed_simps [simp]:
  "placed (poll_vote now i pk k W) = placed W"
  "placed (snd (poll_retract i pk W)) = placed W"
  "placed (poll_close now i W) = placed W"
  "placed (snd (giveaway_enter now i pk W)) = placed W"
  "placed (snd (giveaway_leave i pk W)) = placed W"
  "placed (snd (giveaway_cancel i W)) = placed W"
  "placed (giveaway_reroll i pk W) = placed W"
  "placed (snd (reminder_cancel i pk W)) = placed W"
  "placed (snd (mark_sent i now W)) = placed W"
  "placed (event_rsvp now i pk response W) = placed W"
  "placed (snd (event_clear_rsvp i pk W)) = placed W"
  "placed (event_edit i title description location starts_at lead rearm W) = placed W"
  "placed (snd (event_cancel i now W)) = placed W"
  "placed (snd (mark_reminded i now W)) = placed W"
  "placed (snd (mark_cancel_notified i now W)) = placed W"
  by (simp_all add: placed_def widget_statements Let_def)

lemma placed_updates [simp]:
  "(\<And>r. gw_channel (f r) = gw_channel r) \<Longrightarrow> placed (snd (update_giveaways p f W)) = placed W"
  "(\<And>r. vc_channel (g r) = vc_channel r) \<Longrightarrow> placed (snd (update_events q g W)) = placed W"
  by (simp_all add: placed_def update_giveaways_def update_events_def)

lemma message_placed:
  assumes "insert_message_with_author_name now db c author content reply name badge = Inr (mid, db')"
  shows "\<not> refuses_server_authored_content (resolve db c) \<and> quiet_tables (db, W) (db', W)"
  using assms
  by (auto simp: insert_message_with_author_name_def require_plaintext_def insert_row_def result_simps Let_def quiet_tables_def held_in_def)

lemma member_message_placed:
  assumes "insert_message now db c author content reply = Inr (mid, db')"
  shows "\<not> refuses_server_authored_content (resolve db c) \<and> quiet_tables (db, W) (db', W)"
  using assms
  by (auto simp: insert_message_def insert_message_with_ts_def require_plaintext_def insert_row_def result_simps Let_def quiet_tables_def held_in_def)

lemma set_widget_placed: "quiet_tables (db, W) (set_widget mid widget db, W)"
proof -
  have "map mr_channel (db_messages (set_widget mid widget db)) = map mr_channel (db_messages db)"
    by (simp add: set_widget_def update_message_def)
  then show ?thesis by (simp add: quiet_tables_def held_in_def) (simp add: set_widget_def update_message_def)
qed

lemma created_placed:
  assumes "\<not> refuses_server_authored_content (resolve db c)"
  shows "quiet_tables (db, W) (db, snd (poll_create now c m creator q os closes_at W))"
    and "quiet_tables (db, W) (db, snd (giveaway_create now c m creator prize ends_at W))"
    and "quiet_tables (db, W) (db, snd (event_create now c m creator p starts_at W))"
    and "quiet_tables (db, W) (db, snd (reminder_create creator c txt ends_at now W))"
  using assms
  by (auto simp: quiet_tables_def held_in_def poll_create_def giveaway_create_def event_create_def reminder_create_def Let_def)

lemma cards_quiet:
  "create_poll_card E c m p (db, W) = Inr (x, st) \<Longrightarrow> quiet_tables (db, W) st"
  "create_giveaway_card E A c m prize d (db, W) = Inr (y, st) \<Longrightarrow> quiet_tables (db, W) st"
  "create_event_card E A c m p' (db, W) = Inr (z, st) \<Longrightarrow> quiet_tables (db, W) st"
proof -
  have card: "quiet_tables (db, W) (set_widget mid widget db', V)"
    if ins: "insert_message now db c m content None = Inr (mid, db')"
      and new: "\<not> refuses_server_authored_content (resolve db' c) \<Longrightarrow> quiet_tables (db', W) (db', V)"
    for now db c m content mid db' widget V W
  proof -
    have plain: "\<not> refuses_server_authored_content (resolve db c)" and q: "quiet_tables (db, W) (db', W)"
      using member_message_placed [OF ins] by auto
    have "quiet_tables (db', W) (db', V)" by (rule new) (use plain quiet_class [OF q, of c] in simp)
    with q show ?thesis using set_widget_placed quiet_trans by meson
  qed
  show "create_poll_card E c m p (db, W) = Inr (x, st) \<Longrightarrow> quiet_tables (db, W) st"
    by (auto simp: create_poll_card_def Let_def result_simps split_beta intro!: card created_placed)
  show "create_giveaway_card E A c m prize d (db, W) = Inr (y, st) \<Longrightarrow> quiet_tables (db, W) st"
    by (auto simp: create_giveaway_card_def Let_def result_simps split_beta intro!: card created_placed)
  show "create_event_card E A c m p' (db, W) = Inr (z, st) \<Longrightarrow> quiet_tables (db, W) st"
    by (auto simp: create_event_card_def Let_def result_simps split_beta intro!: card created_placed)
qed

lemma announced_quiet:
  assumes "insert_message_with_author_name now db c author content reply name badge = Inr (mid, db')" and "placed V = placed W"
  shows "quiet_tables (db, W) (db', V)"
  using message_placed [OF assms(1)] quiet_placed [OF assms(2)] quiet_trans by blast

lemma draw_quiet: "close_and_draw E A row (db, W) = Inr (x, st) \<Longrightarrow> quiet_tables (db, W) st"
  by (auto simp: close_and_draw_def insert_announcement_def Let_def result_simps split_beta intro!: announced_quiet)

lemma reroll_quiet: "reroll_and_announce E A row (db, W) = Inr (Some (x, st)) \<Longrightarrow> quiet_tables (db, W) st"
  by (auto simp: reroll_and_announce_def insert_announcement_def Let_def result_simps split_beta split: option.splits intro!: announced_quiet)

lemma start_quiet: "start_and_announce E A row pk (db, W) = Inr (Some (x, st)) \<Longrightarrow> quiet_tables (db, W) st"
  by (auto simp: start_and_announce_def Let_def result_simps split_beta split: if_splits intro!: announced_quiet)

section \<open>Every request\<close>

definition keeps_tables :: "server_db \<times> widget_db \<Rightarrow> outcome \<Rightarrow> bool" where
  "keeps_tables st out \<longleftrightarrow> quiet_tables st (tables (snd (snd out)))"

lemma keeps_simps [simp]:
  "keeps_tables st (refuse r S) = quiet_tables st (tables S)"
  "keeps_tables st (answer reply S) = quiet_tables st (tables S)"
  "keeps_tables st (reply, events, S) = quiet_tables st (tables S)"
  by (simp_all add: keeps_tables_def refuse_def answer_def)

lemma keeps_guarded: "tables S = st \<Longrightarrow> (c \<Longrightarrow> keeps_tables st k) \<Longrightarrow> keeps_tables st (guarded c r S k)"
  by (auto simp: guarded_def)

lemma keeps_limited:
  assumes "\<And>S'. tables S' = tables S \<Longrightarrow> keeps_tables (tables S) (k S')"
  shows "keeps_tables (tables S) (limited E m S k)"
  using assms by (auto simp: limited_def Let_def intro!: keeps_guarded split: prod.split)

lemma keeps_unless:
  assumes "\<And>S'. tables S' = st \<Longrightarrow> keeps_tables st (k S')" and "tables S = st"
  shows "keeps_tables st (unless_timed_out E m S k)"
  using assms by (auto simp: unless_timed_out_def Let_def intro!: keeps_guarded split: prod.split option.split)

lemma keeps_with:
  "tables S = st \<Longrightarrow> (\<And>r. keeps_tables st (kp r)) \<Longrightarrow> keeps_tables st (with_poll m o' i S kp)"
  "tables S = st \<Longrightarrow> (\<And>g. keeps_tables st (kg g)) \<Longrightarrow> keeps_tables st (with_giveaway m o' i S kg)"
  "tables S = st \<Longrightarrow> (\<And>e. keeps_tables st (ke e)) \<Longrightarrow> keeps_tables st (with_event m o' i S ke)"
  by (auto simp: with_poll_def with_giveaway_def with_event_def visible_event_def intro!: keeps_guarded split: option.split)

lemmas keeps_intros = keeps_limited keeps_unless keeps_with keeps_guarded

lemma tables_simps [simp]:
  "ws_tables (with_widgets S W) = ws_tables S"
  "ws_tables (transacted S st) = fst st"
  by (simp_all add: with_widgets_def transacted_def)

lemma keeps_changed [simp]:
  "keeps_tables st (giveaway_changed E g S W) = quiet_tables st (ws_tables S, W)"
  "keeps_tables st (event_changed E c e S W) = quiet_tables st (ws_tables S, W)"
  by (simp_all add: giveaway_changed_def event_changed_def)

lemma poll_requests_keep:
  "keeps_tables (tables S) (get_poll m o' i S)"
  "keeps_tables (tables S) (vote_poll E m o' i k S)"
  "keeps_tables (tables S) (retract_vote E m o' i S)"
  "keeps_tables (tables S) (close_poll E m o' i S)"
  unfolding get_poll_def vote_poll_def retract_vote_def close_poll_def
  by (auto intro!: keeps_intros quiet_placed simp: Let_def split_beta split: option.split)

lemma giveaway_requests_keep:
  "keeps_tables (tables S) (get_giveaway E m o' i S)"
  "keeps_tables (tables S) (enter_giveaway E m o' i S)"
  "keeps_tables (tables S) (leave_giveaway E m o' i S)"
  "keeps_tables (tables S) (cancel_giveaway E m o' i S)"
  "keeps_tables (tables S) (reroll_giveaway E m o' i S)"
  unfolding get_giveaway_def enter_giveaway_def leave_giveaway_def cancel_giveaway_def reroll_giveaway_def
  by (auto intro!: keeps_intros quiet_placed dest!: reroll_quiet simp: Let_def split_beta split: option.split sum.split)

lemma event_requests_keep:
  "keeps_tables (tables S) (get_event E m o' i S)"
  "keeps_tables (tables S) (rsvp_event E m o' i response S)"
  "keeps_tables (tables S) (clear_rsvp E m o' i S)"
  "keeps_tables (tables S) (cancel_event E m o' i S)"
  "keeps_tables (tables S) (edit_event E m o' i title description location starts_at lead S)"
  unfolding get_event_def rsvp_event_def clear_rsvp_def cancel_event_def edit_event_def
  by (auto intro!: keeps_intros quiet_placed simp: Let_def split_beta simp del: insert_iff split: option.split sum.split)

lemma reminder_requests_keep:
  "keeps_tables (tables S) (list_active_widgets E m o' c S)"
  "keeps_tables (tables S) (list_my_reminders m S)"
  "keeps_tables (tables S) (cancel_reminder E m i S)"
  unfolding list_active_widgets_def list_my_reminders_def cancel_reminder_def
  by (auto intro!: keeps_intros quiet_placed simp: Let_def split_beta)

lemma hook_keeps: "quiet_tables (tables S) (tables (snd (widget_hook E c widget S)))"
proof -
  have "quiet_tables (tables S) (tables (snd (poll_hook E c i S)))" "quiet_tables (tables S) (tables (snd (giveaway_hook E c i S)))"
    "quiet_tables (tables S) (tables (snd (event_hook E c i S)))" for i
    by (auto simp: poll_hook_def giveaway_hook_def event_hook_def Let_def intro: quiet_placed split: option.split)
  then show ?thesis by (simp add: widget_hook_def split: option.split prod.split)
qed

lemma count_filtered: "count_list (map f (filter p xs)) c \<le> count_list (map f xs) c"
  by (induction xs) auto

lemma deleted_quiet:
  assumes "delete_message mid db = Inr (orphans, db')"
  shows "quiet_tables (db, W) (db', W)"
proof -
  obtain z db1 where d: "delete_attachments_for_message mid db = Inr (z, db1)"
    and rest: "db_messages db' = filter (\<lambda>m. mr_id m \<noteq> mid) (db_messages db1)" "db_channels db' = db_channels db1"
    using assms by (auto simp: delete_message_def result_simps Let_def unindex_def split: option.splits)
  with delete_attachments_same_core [OF d] show ?thesis
    by (simp add: quiet_tables_def held_in_def same_core_def count_filtered)
qed

lemma delete_request_keeps: "keeps_tables (tables S) (delete_message_request E m o' i S)"
proof -
  have "quiet_tables (tables S) (tables (snd (widget_hook E c widget (S\<lparr>ws_tables := db\<rparr>))))"
    if "delete_message i (ws_tables S) = Inr (x, db)" for c widget x db
    using quiet_trans [OF deleted_quiet [OF that, of "ws_widgets S"]] hook_keeps [of "S\<lparr>ws_tables := db\<rparr>" E c widget] by simp
  then show ?thesis
    by (auto simp: delete_message_request_def Let_def split_beta intro!: keeps_guarded split: option.split sum.split)
qed

lemma keeps_commands:
  "keeps_tables (tables S) (run_poll E m c args S)"
  "keeps_tables (tables S) (run_giveaway E m o' c args S)"
  "keeps_tables (tables S) (run_event E m c args S)"
  "\<not> class_refuses S c \<Longrightarrow> keeps_tables (tables S) (run_reminder E m c args S)"
  "keeps_tables (tables S) (run_bot E cmd c content S)"
  unfolding run_poll_def run_giveaway_def run_event_def run_reminder_def run_bot_def parsed_args_def posted_def class_refuses_def
  by (auto intro!: keeps_guarded dest: cards_quiet message_placed simp: created_placed split_beta Let_def split: option.split sum.split)

lemma keeps_auth:
  assumes "\<And>S'. tables S' = tables S \<Longrightarrow> \<not> class_refuses S' c \<Longrightarrow> keeps_tables (tables S) (k S')"
  shows "keeps_tables (tables S) (check_run_command_channel_auth E m o' c S k)"
  unfolding check_run_command_channel_auth_def
  by (rule keeps_unless) (auto intro!: keeps_guarded assms split: option.split)

lemma command_keeps: "keeps_tables (tables S) (run_command api E m o' trigger c args S)"
proof -
  have "keeps_tables (tables S)
      (case find_by_trigger S' t of
         None \<Rightarrow> refuse UnknownCommand S'
       | Some cmd \<Rightarrow>
           if cm_kind cmd = ''poll'' then run_poll E m c args S'
           else if cm_kind cmd = ''giveaway'' then run_giveaway E m o' c args S'
           else if cm_kind cmd = ''event'' then run_event E m c args S'
           else if cm_kind cmd = ''reminder'' then run_reminder E m c args S'
           else if cm_kind cmd = ''text'' then run_bot E cmd c (Some (case cm_body_text cmd of None \<Rightarrow> [] | Some b \<Rightarrow> b)) S'
           else if cm_kind cmd = ''api'' then run_bot E cmd c (api cmd args) S'
           else refuse CommandMisconfigured S')" if "tables S' = tables S" "\<not> class_refuses S' c" for S' t
    using keeps_commands [of S', unfolded that(1)] that by (simp split: option.split)
  then show ?thesis
    using keeps_auth [of "S\<lparr>ws_command_limiter := q\<rparr>" c _ E m o' for q]
    by (auto simp: run_command_def Let_def split_beta intro!: keeps_guarded split: option.split)
qed

lemma request_keeps: "keeps_tables (tables S) (handle_widget api E m o' request S)"
  using poll_requests_keep giveaway_requests_keep event_requests_keep reminder_requests_keep delete_request_keeps command_keeps
  by (cases request) (simp_all add: handle_widget_def handle_arm_def split: option.split)

section \<open>A tick\<close>

abbreviation kept :: "sweeping \<Rightarrow> sweeping \<Rightarrow> bool" where
  "kept acc acc' \<equiv> quiet_tables (tables (snd acc)) (tables (snd acc'))"

lemma fold_kept:
  assumes "\<And>row acc. kept acc (f row acc)"
  shows "kept acc (fold f rows acc)"
proof (induction rows arbitrary: acc)
  case (Cons row rows)
  show ?case using quiet_trans [OF assms [of acc row] Cons.IH] by simp
qed simp

lemma pass_kept:
  "kept acc (sweep_giveaway E g acc)" "kept acc (sweep_reminder E r acc)" "kept acc (sweep_lead E e acc)"
  "kept acc (sweep_start E pk e acc)" "kept acc (sweep_cancelled E e acc)"
  by (auto simp: sweep_giveaway_def sweep_reminder_def sweep_lead_def sweep_start_def sweep_cancelled_def Let_def split_beta
      intro: quiet_placed dest: draw_quiet start_quiet split: sum.split option.split)

lemma polls_kept: "kept acc (sweep_polls E acc)"
proof -
  have "placed (snd (fold (\<lambda>row (out, V). let V' = poll_close now (pl_id row) V
      in (out @ [poll_build_info V' (row\<lparr>pl_closed_at := Some now\<rparr>)], V')) rows (out, W))) = placed W" for now rows out W
    by (induction rows arbitrary: out W) (simp_all add: Let_def)
  then show ?thesis by (simp add: sweep_polls_def poll_close_due_def split_beta quiet_placed)
qed

lemma tick_keeps: "quiet_tables (tables S) (tables (snd (sweep_once E S)))"
proof -
  have starts: "kept acc (sweep_starts E acc)" for acc
  proof -
    have "kept acc (fold (sweep_start E pk) rows acc)" for pk rows acc by (rule fold_kept) (rule pass_kept(4))
    from this [of "(fst acc, (snd acc)\<lparr>ws_access := A\<rparr>)" for A] show ?thesis by (simp add: sweep_starts_def Let_def split_beta)
  qed
  have passes: "kept acc (fold (sweep_lead E) rows acc)" "kept acc (fold (sweep_cancelled E) rows acc)"
    "kept acc (fold (sweep_giveaway E) gs acc)" "kept acc (fold (sweep_reminder E) rs acc)" for rows gs rs acc
    by (rule fold_kept, rule pass_kept)+
  have events: "kept acc (sweep_events E acc)" for acc
    unfolding sweep_events_def Let_def by (rule quiet_trans [OF passes(1) quiet_trans [OF starts passes(2)]])
  have polls: "quiet_tables (tables S) (tables (snd (sweep_polls E (out, S))))" for out
    using polls_kept [of "(out, S)"] by simp
  show ?thesis
    unfolding sweep_once_def Let_def by (rule quiet_trans [OF polls quiet_trans [OF passes(3) quiet_trans [OF passes(4) events]]])
qed

text \<open>C13: A channel whose class refuses what the server writes, an end-to-end encrypted one or one that
  has no class, gets nothing from any request about widgets, from any command of a member or from any
  number of ticks of the sweeper: over a whole run of them it has no more messages, polls, giveaways,
  events and reminders than before, whatever the time, the random draws and the answers of an
  \<open>api\<close> command are, and the run leaves its class as it is.\<close>

theorem sealed_channels_get_nothing:
  assumes "class_refuses S c" and "\<forall>step \<in> set steps. \<forall>T. step \<noteq> Elsewhere T"
  shows "list_all2 (\<le>) (held_in (tables (widget_run api steps S)) c) (held_in (tables S) c) \<and>
     class_refuses (widget_run api steps S) c"
proof -
  have "quiet_tables (tables S) (tables (widget_step api step S))" if "\<forall>T. step \<noteq> Elsewhere T" for step S
    using that request_keeps [unfolded keeps_tables_def] tick_keeps by (cases step) (auto simp: widget_step_def)
  then have "quiet_tables (tables S) (tables (widget_run api steps S))"
    using assms(2) unfolding widget_run_def by (induction steps arbitrary: S) (auto intro: quiet_trans)
  then show ?thesis using assms(1) quiet_class [of "tables S" "tables (widget_run api steps S)" c]
    by (simp add: quiet_tables_def class_refuses_def)
qed

theorem sealed_channels_get_nothing_witness:
  "let S = widget_run demo_api [Asked (demo_env 100) anna True (RunCommand [112] 8 [84, 124, 97, 124, 98]), Ticked (demo_env 200)] (demo_at no_widgets)
   in list_all2 (\<le>) (held_in (tables S) 8) [0, 0, 0, 0, 0]"
proof -
  have "class_refuses (demo_at no_widgets) 8"
    by (simp add: class_refuses_def resolve_def find_channel_def demo_tables_def demo_class_def)
  from sealed_channels_get_nothing [OF this, of
      "[Asked (demo_env 100) anna True (RunCommand [112] 8 [84, 124, 97, 124, 98]), Ticked (demo_env 200)]" demo_api]
  show ?thesis by (simp add: Let_def held_in_def demo_tables_def no_widgets_def)
qed

end
