(* ===== verification/WidgetHidden.thy ===== *)
theory WidgetHidden
  imports WidgetClaims
begin

text \<open>
  A member learns nothing of the widgets of the channels it cannot see: two servers that differ in these
  alone answer every one of its requests alike.
\<close>

section \<open>What a member can see\<close>

text \<open>\<open>table\<close> and \<open>child\<close> are a table of widgets and the rows that hang on them, restricted to the channels seen.\<close>

definition seen :: "('r \<Rightarrow> nat) \<Rightarrow> ('r \<Rightarrow> nat) \<Rightarrow> ('c \<Rightarrow> nat) \<Rightarrow> (nat \<Rightarrow> bool) \<Rightarrow> 'r list \<Rightarrow> 'c list \<Rightarrow> 'r list \<times> (nat \<Rightarrow> 'c list)" where
  "seen ident chan parent vis table child =
     (let rows = filter (\<lambda>r. vis (chan r)) table
      in (rows, \<lambda>i. if i \<in> ident ` set rows then filter (\<lambda>x. parent x = i) child else []))"

definition alike :: "public_key \<Rightarrow> bool \<Rightarrow> widget_server \<Rightarrow> widget_server \<Rightarrow> bool" where
  "alike m o' S T \<longleftrightarrow>
     T = S\<lparr>ws_widgets := ws_widgets T\<rparr> \<and> widgets_ok (ws_widgets S) \<and> widgets_ok (ws_widgets T) \<and>
     (let vis = (\<lambda>c. widget_channel_visible S m c o'); W = ws_widgets S; V = ws_widgets T
      in seen pl_id pl_channel vt_poll vis (wd_polls W) (wd_votes W) = seen pl_id pl_channel vt_poll vis (wd_polls V) (wd_votes V) \<and>
         seen gw_id gw_channel ge_giveaway vis (wd_giveaways W) (wd_entries W) = seen gw_id gw_channel ge_giveaway vis (wd_giveaways V) (wd_entries V) \<and>
         seen vc_id vc_channel rs_event vis (wd_events W) (wd_rsvps W) = seen vc_id vc_channel rs_event vis (wd_events V) (wd_rsvps V) \<and>
         filter (\<lambda>r. rm_owner r = m) (wd_reminders W) = filter (\<lambda>r. rm_owner r = m) (wd_reminders V))"

lemma seen_rows: "seen ident chan parent vis t1 c1 = seen ident chan parent vis t2 c2 \<Longrightarrow> filter (\<lambda>r. vis (chan r)) t1 = filter (\<lambda>r. vis (chan r)) t2"
  by (simp add: seen_def Let_def)

lemma seen_children:
  assumes "seen ident chan parent vis t1 c1 = seen ident chan parent vis t2 c2" and "r \<in> set t1" and "vis (chan r)"
  shows "filter (\<lambda>x. parent x = ident r) c1 = filter (\<lambda>x. parent x = ident r) c2"
proof -
  have rows: "filter (\<lambda>r. vis (chan r)) t1 = filter (\<lambda>r. vis (chan r)) t2" using seen_rows [OF assms(1)] .
  have "ident r \<in> ident ` set (filter (\<lambda>r. vis (chan r)) t1)" using assms(2,3) by auto
  then show ?thesis using fun_cong [OF arg_cong [OF assms(1), of snd], of "ident r"]
    by (simp add: seen_def Let_def flip: rows)
qed

lemma found_row: "distinct (map ident t) \<Longrightarrow> find (\<lambda>r. ident r = i) t = Some r \<longleftrightarrow> r \<in> set t \<and> ident r = i"
  by (induction t) auto

lemma seen_found:
  assumes "seen ident chan parent vis t1 c1 = seen ident chan parent vis t2 c2" and "distinct (map ident t1)" and "distinct (map ident t2)"
    and "find (\<lambda>r. ident r = i) t1 = Some r" and "vis (chan r)"
  shows "find (\<lambda>r. ident r = i) t2 = Some r"
proof -
  have "r \<in> set (filter (\<lambda>r. vis (chan r)) t1)" using assms(2,4,5) by (simp add: found_row)
  then have "r \<in> set t2" unfolding seen_rows [OF assms(1)] by simp
  then show ?thesis using assms(2,3,4) by (simp add: found_row)
qed

lemma seen_sym: "seen a b c vis t1 c1 = seen a b c vis t2 c2 \<Longrightarrow> seen a b c vis t2 c2 = seen a b c vis t1 c1"
  by (rule sym)

text \<open>The lookups of a widget by a member.\<close>

lemma alike_same:
  assumes "alike m o' S T"
  shows "ws_access T = ws_access S" "ws_tables T = ws_tables S" "ws_log T = ws_log S" "ws_blocked T = ws_blocked S"
    "ws_commands T = ws_commands S" "ws_widget_limiter T = ws_widget_limiter S" "ws_command_limiter T = ws_command_limiter S"
    "class_refuses T = class_refuses S" "widget_channel_visible T = widget_channel_visible S"
proof -
  have T: "T = S\<lparr>ws_widgets := ws_widgets T\<rparr>" using assms by (simp add: alike_def)
  show "ws_access T = ws_access S" by (subst T) simp
  show "ws_tables T = ws_tables S" by (subst T) simp
  show "ws_log T = ws_log S" by (subst T) simp
  show "ws_blocked T = ws_blocked S" by (subst T) simp
  show "ws_commands T = ws_commands S" by (subst T) simp
  show "ws_widget_limiter T = ws_widget_limiter S" by (subst T) simp
  show "ws_command_limiter T = ws_command_limiter S" by (subst T) simp
  show "class_refuses T = class_refuses S" by (subst T) (simp add: class_refuses_def fun_eq_iff)
  show "widget_channel_visible T = widget_channel_visible S" by (subst T) (simp add: widget_channel_visible_def class_refuses_def fun_eq_iff)
qed

abbreviation sees :: "public_key \<Rightarrow> bool \<Rightarrow> widget_server \<Rightarrow> nat \<Rightarrow> bool" where
  "sees m o' S c \<equiv> widget_channel_visible S m c o'"

lemma alike_views:
  assumes "alike m o' S T"
  shows "seen pl_id pl_channel vt_poll (sees m o' S) (wd_polls (ws_widgets S)) (wd_votes (ws_widgets S)) =
       seen pl_id pl_channel vt_poll (sees m o' S) (wd_polls (ws_widgets T)) (wd_votes (ws_widgets T))"
    and "seen gw_id gw_channel ge_giveaway (sees m o' S) (wd_giveaways (ws_widgets S)) (wd_entries (ws_widgets S)) =
       seen gw_id gw_channel ge_giveaway (sees m o' S) (wd_giveaways (ws_widgets T)) (wd_entries (ws_widgets T))"
    and "seen vc_id vc_channel rs_event (sees m o' S) (wd_events (ws_widgets S)) (wd_rsvps (ws_widgets S)) =
       seen vc_id vc_channel rs_event (sees m o' S) (wd_events (ws_widgets T)) (wd_rsvps (ws_widgets T))"
    and "filter (\<lambda>r. rm_owner r = m) (wd_reminders (ws_widgets S)) = filter (\<lambda>r. rm_owner r = m) (wd_reminders (ws_widgets T))"
  using assms by (simp_all add: alike_def Let_def)

lemma alike_ids:
  assumes "alike m o' S T"
  shows "distinct (map pl_id (wd_polls (ws_widgets S)))" "distinct (map pl_id (wd_polls (ws_widgets T)))"
    "distinct (map gw_id (wd_giveaways (ws_widgets S)))" "distinct (map gw_id (wd_giveaways (ws_widgets T)))"
    "distinct (map vc_id (wd_events (ws_widgets S)))" "distinct (map vc_id (wd_events (ws_widgets T)))"
  using assms by (simp_all add: alike_def widgets_ok_def polls_ok_def giveaways_ok_def events_ok_def)

lemma alike_found:
  assumes "alike m o' S T"
  shows "sees m o' S (pl_channel r) \<Longrightarrow> poll_get (ws_widgets S) i = Some r \<longleftrightarrow> poll_get (ws_widgets T) i = Some r"
    and "sees m o' S (gw_channel g) \<Longrightarrow> giveaway_get (ws_widgets S) i = Some g \<longleftrightarrow> giveaway_get (ws_widgets T) i = Some g"
    and "sees m o' S (vc_channel e) \<Longrightarrow> event_get (ws_widgets S) i = Some e \<longleftrightarrow> event_get (ws_widgets T) i = Some e"
  using alike_views [OF assms] alike_ids [OF assms]
  by (auto simp: poll_get_def giveaway_get_def event_get_def elim: seen_found seen_found [OF seen_sym])

lemma alike_children:
  assumes "alike m o' S T"
  shows "r \<in> set (wd_polls (ws_widgets S)) \<Longrightarrow> sees m o' S (pl_channel r) \<Longrightarrow>
      filter (\<lambda>v. vt_poll v = pl_id r) (wd_votes (ws_widgets S)) = filter (\<lambda>v. vt_poll v = pl_id r) (wd_votes (ws_widgets T))"
    and "g \<in> set (wd_giveaways (ws_widgets S)) \<Longrightarrow> sees m o' S (gw_channel g) \<Longrightarrow>
      filter (\<lambda>v. ge_giveaway v = gw_id g) (wd_entries (ws_widgets S)) = filter (\<lambda>v. ge_giveaway v = gw_id g) (wd_entries (ws_widgets T))"
    and "e \<in> set (wd_events (ws_widgets S)) \<Longrightarrow> sees m o' S (vc_channel e) \<Longrightarrow>
      filter (\<lambda>v. rs_event v = vc_id e) (wd_rsvps (ws_widgets S)) = filter (\<lambda>v. rs_event v = vc_id e) (wd_rsvps (ws_widgets T))"
  using alike_views [OF assms] by (auto elim: seen_children)

section \<open>What an answer shows\<close>

lemma find_filter: "find (\<lambda>x. p x \<and> q x) xs = find q (filter p xs)"
  by (induction xs) auto

lemma poll_of_votes:
  "poll_counts W i n = map (\<lambda>k. length (filter (\<lambda>v. vt_option v = k) (filter (\<lambda>v. vt_poll v = i) (wd_votes W)))) [0..<n]"
  "my_vote i pk W = map_option vt_option (find (\<lambda>v. vt_voter v = pk) (filter (\<lambda>v. vt_poll v = i) (wd_votes W)))"
  by (simp_all add: poll_counts_def my_vote_def find_filter conj_commute)

lemma giveaway_of_entries:
  "my_entered i pk W = list_ex (\<lambda>e. ge_member e = pk) (filter (\<lambda>e. ge_giveaway e = i) (wd_entries W))"
  by (auto simp: my_entered_def list_ex_iff)

lemma event_of_rsvps:
  "my_rsvp i pk W = map_option rs_response (find (\<lambda>r. rs_member r = pk) (filter (\<lambda>r. rs_event r = i) (wd_rsvps W)))"
  by (simp add: my_rsvp_def find_filter)

lemma alike_polls:
  assumes "alike m o' S T" and "r \<in> set (wd_polls (ws_widgets S))" and "sees m o' S (pl_channel r)"
  shows "poll_build_info (ws_widgets S) r = poll_build_info (ws_widgets T) r"
    and "my_vote (pl_id r) pk (ws_widgets S) = my_vote (pl_id r) pk (ws_widgets T)"
  using alike_children(1) [OF assms] by (simp_all add: poll_build_info_def poll_of_votes)

lemma alike_giveaways:
  assumes "alike m o' S T" and "g \<in> set (wd_giveaways (ws_widgets S))" and "sees m o' S (gw_channel g)"
  shows "giveaway_build_info E A (ws_widgets S) g = giveaway_build_info E A (ws_widgets T) g"
    and "my_entered (gw_id g) pk (ws_widgets S) = my_entered (gw_id g) pk (ws_widgets T)"
    and "eligible_entrants A (ws_widgets S) (gw_id g) = eligible_entrants A (ws_widgets T) (gw_id g)"
  using alike_children(2) [OF assms] by (simp_all add: giveaway_build_info_def giveaway_of_entries eligible_entrants_def)

lemma alike_events:
  assumes "alike m o' S T" and "e \<in> set (wd_events (ws_widgets S))" and "sees m o' S (vc_channel e)"
  shows "event_build_info E A (ws_widgets S) e = event_build_info E A (ws_widgets T) e"
    and "my_rsvp (vc_id e) pk (ws_widgets S) = my_rsvp (vc_id e) pk (ws_widgets T)"
  using alike_children(3) [OF assms] by (simp_all add: event_build_info_def event_of_rsvps rsvps_of_def)

section \<open>The same answers\<close>

lemma alike_update:
  assumes "alike m o' S T" and "\<And>c. channel_visible A m c o' = channel_visible (ws_access S) m c o'"
  shows "alike m o' (S\<lparr>ws_access := A\<rparr>) (T\<lparr>ws_access := A\<rparr>)"
    and "alike m o' (S\<lparr>ws_widget_limiter := q\<rparr>) (T\<lparr>ws_widget_limiter := q\<rparr>)"
    and "alike m o' (S\<lparr>ws_command_limiter := q\<rparr>) (T\<lparr>ws_command_limiter := q\<rparr>)"
proof -
  have T: "T = S\<lparr>ws_widgets := ws_widgets T\<rparr>" using assms(1) by (simp add: alike_def)
  have "T\<lparr>ws_access := A\<rparr> = S\<lparr>ws_access := A, ws_widgets := ws_widgets T\<rparr>"
    "T\<lparr>ws_widget_limiter := q\<rparr> = S\<lparr>ws_widget_limiter := q, ws_widgets := ws_widgets T\<rparr>"
    "T\<lparr>ws_command_limiter := q\<rparr> = S\<lparr>ws_command_limiter := q, ws_widgets := ws_widgets T\<rparr>" by (subst T, simp)+
  then show "alike m o' (S\<lparr>ws_access := A\<rparr>) (T\<lparr>ws_access := A\<rparr>)"
    "alike m o' (S\<lparr>ws_widget_limiter := q\<rparr>) (T\<lparr>ws_widget_limiter := q\<rparr>)"
    "alike m o' (S\<lparr>ws_command_limiter := q\<rparr>) (T\<lparr>ws_command_limiter := q\<rparr>)"
    using assms by (simp_all add: alike_def widget_channel_visible_def class_refuses_def)
qed

lemma timeout_visible: "channel_visible (snd (is_timed_out A pk now)) m c o' = channel_visible A m c o'"
  by (simp add: is_timed_out_def clear_timeout_def update_member_def channel_visible_def get_chan_def is_dm_participant_def
      resolve_member_perms_def get_member_role_ids_def get_member_role_permissions_def member_role_rows_def everyone_permissions_def
      get_role_def Let_def cong: option.case_cong split: option.split)

definition agree :: "outcome \<Rightarrow> outcome \<Rightarrow> bool" where
  "agree x y \<longleftrightarrow> fst x = fst y"

lemma agree_simps [simp]:
  "agree (refuse r S) (refuse r' T) = (r = r')" "agree (answer a S) (answer b T) = (a = b)"
  "agree (a, events, S) (b, events', T) = (a = b)" "agree (answer a S) (b, events', T) = (a = b)"
  "agree (giveaway_changed E g S W) (giveaway_changed E' g' T V)" "agree (event_changed E c e S W) (event_changed E' c' e' T V)"
  "agree (answer a S) (giveaway_changed E g T W) = (a = Done)" "agree (giveaway_changed E g T W) (answer a S) = (a = Done)"
  "agree (answer a S) (event_changed E c e T W) = (a = Done)" "agree (event_changed E c e T W) (answer a S) = (a = Done)"
  "agree (b, events', T) (answer a S) = (a = b)"
  by (auto simp: agree_def refuse_def answer_def giveaway_changed_def event_changed_def)

lemma agree_guarded: "c = c' \<Longrightarrow> (c \<Longrightarrow> agree k k') \<Longrightarrow> agree (guarded c r S k) (guarded c' r T k')"
  by (simp add: guarded_def)

lemma agree_limited:
  assumes "alike m o' S T" and "\<And>S' T'. alike m o' S' T' \<Longrightarrow> agree (k S') (k' T')"
  shows "agree (limited E m S k) (limited E m T k')"
  using assms(2) [OF alike_update(2) [OF assms(1)]]
  by (auto simp: limited_def Let_def alike_same [OF assms(1)] intro!: agree_guarded split: prod.split)

lemma agree_unless:
  assumes "alike m o' S T" and "\<And>S' T'. alike m o' S' T' \<Longrightarrow> agree (k S') (k' T')"
  shows "agree (unless_timed_out E m S k) (unless_timed_out E m T k')"
  using assms(2) [OF alike_update(1) [OF assms(1) timeout_visible]]
  by (simp add: unless_timed_out_def Let_def alike_same [OF assms(1)] split_beta split: option.split)

lemma agree_poll:
  assumes "alike m o' S T"
    and "\<And>r. poll_get (ws_widgets S) i = Some r \<Longrightarrow> poll_get (ws_widgets T) i = Some r \<Longrightarrow> sees m o' S (pl_channel r) \<Longrightarrow> agree (k r) (k' r)"
  shows "agree (with_poll m o' i S k) (with_poll m o' i T k')"
proof (cases "\<exists>r. poll_get (ws_widgets S) i = Some r \<and> sees m o' S (pl_channel r)")
  case True
  then obtain r where r: "poll_get (ws_widgets S) i = Some r" "sees m o' S (pl_channel r)" by blast
  with alike_found(1) [OF assms(1) r(2)] have r': "poll_get (ws_widgets T) i = Some r" by simp
  show ?thesis using r r' assms(2) [OF r(1) r' r(2)] by (simp add: with_poll_def guarded_def alike_same [OF assms(1)])
next
  case False
  with alike_found(1) [OF assms(1)] have "\<not> (\<exists>r. poll_get (ws_widgets T) i = Some r \<and> sees m o' S (pl_channel r))" by blast
  with False show ?thesis by (auto simp: with_poll_def guarded_def alike_same [OF assms(1)] split: option.split)
qed

lemma agree_giveaway:
  assumes "alike m o' S T"
    and "\<And>r. giveaway_get (ws_widgets S) i = Some r \<Longrightarrow> giveaway_get (ws_widgets T) i = Some r \<Longrightarrow> sees m o' S (gw_channel r) \<Longrightarrow> agree (k r) (k' r)"
  shows "agree (with_giveaway m o' i S k) (with_giveaway m o' i T k')"
proof (cases "\<exists>r. giveaway_get (ws_widgets S) i = Some r \<and> sees m o' S (gw_channel r)")
  case True
  then obtain r where r: "giveaway_get (ws_widgets S) i = Some r" "sees m o' S (gw_channel r)" by blast
  with alike_found(2) [OF assms(1) r(2)] have r': "giveaway_get (ws_widgets T) i = Some r" by simp
  show ?thesis using r r' assms(2) [OF r(1) r' r(2)] by (simp add: with_giveaway_def guarded_def alike_same [OF assms(1)])
next
  case False
  with alike_found(2) [OF assms(1)] have "\<not> (\<exists>r. giveaway_get (ws_widgets T) i = Some r \<and> sees m o' S (gw_channel r))" by blast
  with False show ?thesis by (auto simp: with_giveaway_def guarded_def alike_same [OF assms(1)] split: option.split)
qed

lemma agree_event:
  assumes "alike m o' S T"
    and "\<And>r. event_get (ws_widgets S) i = Some r \<Longrightarrow> event_get (ws_widgets T) i = Some r \<Longrightarrow> sees m o' S (vc_channel r) \<Longrightarrow> agree (k r) (k' r)"
  shows "agree (with_event m o' i S k) (with_event m o' i T k')"
proof (cases "\<exists>r. event_get (ws_widgets S) i = Some r \<and> sees m o' S (vc_channel r)")
  case True
  then obtain r where r: "event_get (ws_widgets S) i = Some r" "sees m o' S (vc_channel r)" by blast
  with alike_found(3) [OF assms(1) r(2)] have r': "event_get (ws_widgets T) i = Some r" by simp
  show ?thesis using r r' assms(2) [OF r(1) r' r(2)] by (simp add: with_event_def visible_event_def guarded_def alike_same [OF assms(1)])
next
  case False
  with alike_found(3) [OF assms(1)] have "\<not> (\<exists>r. event_get (ws_widgets T) i = Some r \<and> sees m o' S (vc_channel r))" by blast
  with False show ?thesis by (auto simp: with_event_def visible_event_def guarded_def alike_same [OF assms(1)] split: option.split)
qed

lemma stays_found:
  "poll_get (poll_close now j W) i = None \<longleftrightarrow> poll_get W i = None"
  "giveaway_get (snd (giveaway_cancel j W)) i = None \<longleftrightarrow> giveaway_get W i = None"
  "giveaway_get (giveaway_reroll j pk W) i = None \<longleftrightarrow> giveaway_get W i = None"
  "event_get (snd (event_cancel j now W)) i = None \<longleftrightarrow> event_get W i = None"
  "event_get (event_edit j title description location starts_at lead rearm W) i = None \<longleftrightarrow> event_get W i = None"
  by (simp_all add: poll_get_def giveaway_get_def event_get_def widget_statements find_update_where Let_def)

lemma in_table:
  "poll_get W i = Some r \<Longrightarrow> r \<in> set (wd_polls W) \<and> pl_id r = i"
  "giveaway_get W i = Some g \<Longrightarrow> g \<in> set (wd_giveaways W) \<and> gw_id g = i"
  "event_get W i = Some e \<Longrightarrow> e \<in> set (wd_events W) \<and> vc_id e = i"
  by (auto simp: poll_get_def giveaway_get_def event_get_def find_Some_iff)

lemma agree_polls:
  assumes "alike m o' S T"
  shows "agree (get_poll m o' i S) (get_poll m o' i T)"
    and "agree (vote_poll E m o' i k S) (vote_poll E m o' i k T)"
    and "agree (retract_vote E m o' i S) (retract_vote E m o' i T)"
    and "agree (close_poll E m o' i S) (close_poll E m o' i T)"
proof -
  show "agree (get_poll m o' i S) (get_poll m o' i T)"
    unfolding get_poll_def by (rule agree_poll [OF assms]) (auto dest!: in_table(1) simp: alike_polls [OF assms])
  show "agree (vote_poll E m o' i k S) (vote_poll E m o' i k T)"
    unfolding vote_poll_def Let_def
    by (rule agree_limited [OF assms], erule agree_unless, erule agree_poll, intro agree_guarded) simp_all
  show "agree (retract_vote E m o' i S) (retract_vote E m o' i T)"
    unfolding retract_vote_def Let_def
    by (rule agree_limited [OF assms], erule agree_unless, erule agree_poll, intro agree_guarded) (simp_all add: split_beta)
  show "agree (close_poll E m o' i S) (close_poll E m o' i T)"
    unfolding close_poll_def Let_def
    by (rule agree_unless [OF assms], rule agree_poll, assumption, intro agree_guarded)
      (auto simp: creator_or_manager_def stays_found dest: alike_same(1) split: option.split)
qed

lemma agree_giveaways:
  assumes "alike m o' S T"
  shows "agree (get_giveaway E m o' i S) (get_giveaway E m o' i T)"
    and "agree (enter_giveaway E m o' i S) (enter_giveaway E m o' i T)"
    and "agree (leave_giveaway E m o' i S) (leave_giveaway E m o' i T)"
    and "agree (cancel_giveaway E m o' i S) (cancel_giveaway E m o' i T)"
proof -
  show "agree (get_giveaway E m o' i S) (get_giveaway E m o' i T)"
    unfolding get_giveaway_def
    by (rule agree_giveaway [OF assms]) (auto dest!: in_table(2) simp: alike_giveaways [OF assms] alike_same [OF assms])
  show "agree (enter_giveaway E m o' i S) (enter_giveaway E m o' i T)"
    unfolding enter_giveaway_def Let_def
    by (rule agree_limited [OF assms], erule agree_unless, erule agree_giveaway, intro agree_guarded) (simp_all add: split_beta)
  show "agree (leave_giveaway E m o' i S) (leave_giveaway E m o' i T)"
    unfolding leave_giveaway_def Let_def
    by (rule agree_limited [OF assms], erule agree_unless, erule agree_giveaway, intro agree_guarded) (simp_all add: split_beta)
  show "agree (cancel_giveaway E m o' i S) (cancel_giveaway E m o' i T)"
    unfolding cancel_giveaway_def Let_def
    by (rule agree_unless [OF assms], rule agree_giveaway, assumption, intro agree_guarded)
      (auto simp: creator_or_moderator_def stays_found dest: alike_same(1) split: option.split)
qed

text \<open>Whether a reroll succeeds depends on the tables and on who entered.\<close>

lemma reroll_outcome:
  assumes "giveaway_get W (gw_id g) \<noteq> None" and "giveaway_get V (gw_id g) \<noteq> None"
    and "eligible_entrants A W (gw_id g) = eligible_entrants A V (gw_id g)"
  shows "map_sum (\<lambda>_. ()) (map_option (\<lambda>_. ())) (reroll_and_announce E A g (db, W)) =
    map_sum (\<lambda>_. ()) (map_option (\<lambda>_. ())) (reroll_and_announce E A g (db, V))"
proof (cases "draw_winner E (gw_id g) (eligible_entrants A V (gw_id g))")
  case (Some w)
  have "giveaway_get (giveaway_reroll (gw_id g) w W) (gw_id g) \<noteq> None" "giveaway_get (giveaway_reroll (gw_id g) w V) (gw_id g) \<noteq> None"
    using assms(1,2) by (simp_all add: stays_found del: not_None_eq)
  then obtain x y where "giveaway_get (giveaway_reroll (gw_id g) w W) (gw_id g) = Some x" "giveaway_get (giveaway_reroll (gw_id g) w V) (gw_id g) = Some y"
    by auto
  with Some assms(3) show ?thesis
    by (cases "insert_announcement E g ([127881] @ codes '' Reroll '' @ [0x2014] @ codes '' '' @ display_name_for E A w @ codes '' won: '' @ gw_prize g) db")
      (auto simp: reroll_and_announce_def Let_def)
qed (simp add: reroll_and_announce_def assms(3))

lemma agree_reroll:
  assumes "alike m o' S T"
  shows "agree (reroll_giveaway E m o' i S) (reroll_giveaway E m o' i T)"
  unfolding reroll_giveaway_def
proof (rule agree_unless [OF assms], rule agree_giveaway, assumption, intro agree_guarded)
  fix S' T' g
  assume like: "alike m o' S' T'" and g: "giveaway_get (ws_widgets S') i = Some g" "giveaway_get (ws_widgets T') i = Some g"
    and seen: "sees m o' S' (gw_channel g)"
  show "creator_or_moderator m o' (gw_creator g) S' = creator_or_moderator m o' (gw_creator g) T'"
    by (simp add: creator_or_moderator_def alike_same [OF like])
  let ?R = "reroll_and_announce E (ws_access S') g (tables S')" and ?Q = "reroll_and_announce E (ws_access T') g (tables T')"
  have id: "gw_id g = i" "g \<in> set (wd_giveaways (ws_widgets S'))" using in_table(2) [OF g(1)] by auto
  have "map_sum (\<lambda>_. ()) (map_option (\<lambda>_. ())) ?R = map_sum (\<lambda>_. ()) (map_option (\<lambda>_. ())) ?Q"
    unfolding alike_same [OF like] by (rule reroll_outcome) (use g id alike_giveaways(3) [OF like id(2) seen] in simp_all)
  then show "agree
      (case ?R of Inl _ \<Rightarrow> refuse InternalError S' | Inr None \<Rightarrow> refuse NoEligibleEntries S'
       | Inr (Some ((info, msg), st)) \<Rightarrow> (Done, [(gw_channel g, GiveawayUpdated info), (gw_channel g, NewMessage msg)], transacted S' st))
      (case ?Q of Inl _ \<Rightarrow> refuse InternalError T' | Inr None \<Rightarrow> refuse NoEligibleEntries T'
       | Inr (Some ((info, msg), st)) \<Rightarrow> (Done, [(gw_channel g, GiveawayUpdated info), (gw_channel g, NewMessage msg)], transacted T' st))"
    by (auto split: sum.splits option.splits)
qed simp

lemma agree_events:
  assumes "alike m o' S T"
  shows "agree (get_event E m o' i S) (get_event E m o' i T)"
    and "agree (rsvp_event E m o' i response S) (rsvp_event E m o' i response T)"
    and "agree (clear_rsvp E m o' i S) (clear_rsvp E m o' i T)"
    and "agree (cancel_event E m o' i S) (cancel_event E m o' i T)"
proof -
  show "agree (get_event E m o' i S) (get_event E m o' i T)"
    unfolding get_event_def
    by (rule agree_event [OF assms]) (auto dest!: in_table(3) simp: alike_events [OF assms] alike_same [OF assms])
  show "agree (rsvp_event E m o' i response S) (rsvp_event E m o' i response T)"
    unfolding rsvp_event_def
    by (rule agree_limited [OF assms], erule agree_unless, erule agree_event, intro agree_guarded) simp_all
  show "agree (clear_rsvp E m o' i S) (clear_rsvp E m o' i T)"
    unfolding clear_rsvp_def Let_def
    by (rule agree_limited [OF assms], erule agree_unless, erule agree_event, intro agree_guarded) (simp_all add: split_beta)
  show "agree (cancel_event E m o' i S) (cancel_event E m o' i T)"
    unfolding cancel_event_def Let_def
    by (rule agree_limited [OF assms], erule agree_unless, rule agree_event, assumption, intro agree_guarded)
      (auto simp: creator_or_manager_def stays_found dest: alike_same(1) split: option.split)
qed

lemma agree_edit:
  assumes "alike m o' S T"
  shows "agree (edit_event E m o' i title description location starts_at lead S) (edit_event E m o' i title description location starts_at lead T)"
  unfolding edit_event_def Let_def
  by (rule agree_limited [OF assms], erule agree_unless, rule agree_event, assumption, intro agree_guarded)
    (auto simp: creator_or_manager_def stays_found dest: alike_same(1) intro!: agree_guarded split: option.split sum.split)

text \<open>The widgets of a channel that is seen.\<close>

lemma filter_seen: "filter p t1 = filter p t2 \<Longrightarrow> (\<And>x. q x \<Longrightarrow> p x) \<Longrightarrow> filter q t1 = filter q t2"
proof -
  assume same: "filter p t1 = filter p t2" and within: "\<And>x. q x \<Longrightarrow> p x"
  have "filter q xs = filter q (filter p xs)" for xs using within by (induction xs) auto
  then show "filter q t1 = filter q t2" using same by metis
qed

lemma alike_channel:
  assumes "alike m o' S T" and "sees m o' S c"
  shows "polls_open_in_channel now c n (ws_widgets S) = polls_open_in_channel now c n (ws_widgets T)"
    and "giveaways_open_in_channel c n (ws_widgets S) = giveaways_open_in_channel c n (ws_widgets T)"
    and "list_upcoming_in_channel now c n (ws_widgets S) = list_upcoming_in_channel now c n (ws_widgets T)"
proof -
  note rows = seen_rows [OF alike_views(1) [OF assms(1)]] seen_rows [OF alike_views(2) [OF assms(1)]] seen_rows [OF alike_views(3) [OF assms(1)]]
  show "polls_open_in_channel now c n (ws_widgets S) = polls_open_in_channel now c n (ws_widgets T)"
    unfolding polls_open_in_channel_def by (rule arg_cong [of _ _ "take n"], rule filter_seen [OF rows(1)]) (use assms(2) in simp)
  show "giveaways_open_in_channel c n (ws_widgets S) = giveaways_open_in_channel c n (ws_widgets T)"
    unfolding giveaways_open_in_channel_def by (rule arg_cong [of _ _ "take n"], rule filter_seen [OF rows(2)]) (use assms(2) in simp)
  show "list_upcoming_in_channel now c n (ws_widgets S) = list_upcoming_in_channel now c n (ws_widgets T)"
    unfolding list_upcoming_in_channel_def by (rule arg_cong [of _ _ "take n"], rule filter_seen [OF rows(3)]) (use assms(2) in simp)
qed

lemma merged_within:
  "set (fst (merge_active n ps gs es)) \<subseteq> set ps \<and> set (fst (snd (merge_active n ps gs es))) \<subseteq> set gs \<and>
   set (snd (snd (merge_active n ps gs es))) \<subseteq> set es"
proof (induction n arbitrary: ps gs es)
  case (Suc n)
  show ?case
    using Suc.IH [of "tl ps" gs es] Suc.IH [of ps "tl gs" es] Suc.IH [of ps gs "tl es"]
    by (cases ps; cases gs; cases es) (auto simp: Let_def split_beta)
qed simp

lemma merged_from:
  "merge_active n ps gs es = (ps', gs', es') \<Longrightarrow> set ps' \<subseteq> set ps \<and> set gs' \<subseteq> set gs \<and> set es' \<subseteq> set es"
  using merged_within [of n ps gs es] by simp

lemma agree_active:
  assumes "alike m o' S T"
  shows "agree (list_active_widgets E m o' c S) (list_active_widgets E m o' c T)"
  unfolding list_active_widgets_def
proof (rule agree_guarded)
  show "sees m o' S c = sees m o' T c" by (simp add: alike_same [OF assms])
  assume c: "sees m o' S c"
  let ?W = "ws_widgets S"
  obtain ps gs es where merged: "merge_active ACTIVE_WIDGETS_CAP (polls_open_in_channel (we_now E) c ACTIVE_WIDGETS_CAP ?W)
      (giveaways_open_in_channel c ACTIVE_WIDGETS_CAP ?W) (list_upcoming_in_channel (we_now E) c ACTIVE_WIDGETS_CAP ?W) = (ps, gs, es)"
    by (metis prod_cases3)
  have rows: "r \<in> set (wd_polls ?W) \<and> pl_channel r = c" if "r \<in> set ps" for r
    using merged_from [OF merged] that by (auto simp: polls_open_in_channel_def dest!: subsetD in_set_takeD)
  have grows: "r \<in> set (wd_giveaways ?W) \<and> gw_channel r = c" if "r \<in> set gs" for r
    using merged_from [OF merged] that by (auto simp: giveaways_open_in_channel_def dest!: subsetD in_set_takeD)
  have erows: "r \<in> set (wd_events ?W) \<and> vc_channel r = c" if "r \<in> set es" for r
    using merged_from [OF merged] that by (auto simp: list_upcoming_in_channel_def dest!: subsetD in_set_takeD)
  have "map (poll_build_info ?W) ps = map (poll_build_info (ws_widgets T)) ps"
    "map (giveaway_build_info E (ws_access S) ?W) gs = map (giveaway_build_info E (ws_access S) (ws_widgets T)) gs"
    "map (event_build_info E (ws_access S) ?W) es = map (event_build_info E (ws_access S) (ws_widgets T)) es"
    using rows grows erows c by (auto intro!: alike_polls [OF assms] alike_giveaways [OF assms] alike_events [OF assms])
  then show "agree
     (let W = ws_widgets S; (ps, gs, es) = merge_active ACTIVE_WIDGETS_CAP (polls_open_in_channel (we_now E) c ACTIVE_WIDGETS_CAP W)
             (giveaways_open_in_channel c ACTIVE_WIDGETS_CAP W) (list_upcoming_in_channel (we_now E) c ACTIVE_WIDGETS_CAP W)
      in answer (ActiveWidgets (map (poll_build_info W) ps) (map (giveaway_build_info E (ws_access S) W) gs) (map (event_build_info E (ws_access S) W) es)) S)
     (let W = ws_widgets T; (ps, gs, es) = merge_active ACTIVE_WIDGETS_CAP (polls_open_in_channel (we_now E) c ACTIVE_WIDGETS_CAP W)
             (giveaways_open_in_channel c ACTIVE_WIDGETS_CAP W) (list_upcoming_in_channel (we_now E) c ACTIVE_WIDGETS_CAP W)
      in answer (ActiveWidgets (map (poll_build_info W) ps) (map (giveaway_build_info E (ws_access T) W) gs) (map (event_build_info E (ws_access T) W) es)) T)"
    using merged by (simp add: Let_def alike_same [OF assms] flip: alike_channel [OF assms c])
qed

lemma alike_pending:
  assumes "alike m o' S T"
  shows "pending_of m (ws_widgets S) = pending_of m (ws_widgets T)"
    and "fst (reminder_cancel i m (ws_widgets S)) = fst (reminder_cancel i m (ws_widgets T))"
proof -
  have split: "filter (\<lambda>r. rm_owner r = m \<and> q r) (wd_reminders W) = filter q (filter (\<lambda>r. rm_owner r = m) (wd_reminders W))" for q W
    by (simp add: conj_commute)
  show "pending_of m (ws_widgets S) = pending_of m (ws_widgets T)"
    unfolding pending_of_def split alike_views(4) [OF assms] ..
  have owned: "list_ex (\<lambda>r. rm_id r = i \<and> rm_owner r = m \<and> rm_status r = ReminderPending) (wd_reminders W) =
      list_ex (\<lambda>r. rm_id r = i \<and> rm_status r = ReminderPending) (filter (\<lambda>r. rm_owner r = m) (wd_reminders W))" for W
    by (auto simp: list_ex_iff)
  show "fst (reminder_cancel i m (ws_widgets S)) = fst (reminder_cancel i m (ws_widgets T))"
    by (simp only: reminder_cancel_def update_reminders_def fst_conv owned alike_views(4) [OF assms])
qed

lemma agree_reminders:
  assumes "alike m o' S T"
  shows "agree (list_my_reminders m S) (list_my_reminders m T)"
    and "agree (cancel_reminder E m i S) (cancel_reminder E m i T)"
proof -
  show "agree (list_my_reminders m S) (list_my_reminders m T)"
    by (simp add: list_my_reminders_def list_pending_for_def alike_pending [OF assms])
  show "agree (cancel_reminder E m i S) (cancel_reminder E m i T)"
    unfolding cancel_reminder_def Let_def split_beta
    by (rule agree_limited [OF assms], intro agree_guarded) (simp_all add: alike_pending(2))
qed

lemma agree_delete:
  assumes "alike m o' S T"
  shows "agree (delete_message_request E m o' i S) (delete_message_request E m o' i T)"
  by (auto simp: delete_message_request_def alike_same [OF assms] Let_def split_beta intro!: agree_guarded split: option.split sum.split)

section \<open>Commands\<close>

lemma created_found:
  "\<exists>r. poll_get (snd (poll_create now c m creator q os closes_at W)) (fst (poll_create now c m creator q os closes_at W)) = Some r"
  "\<exists>g. giveaway_get (snd (giveaway_create now c m creator prize ends_at W)) (fst (giveaway_create now c m creator prize ends_at W)) = Some g"
  "\<exists>e. event_get (snd (event_create now c m creator p starts_at W)) (fst (event_create now c m creator p starts_at W)) = Some e"
  unfolding poll_get_def giveaway_get_def event_get_def poll_create_def giveaway_create_def event_create_def Let_def not_None_eq [symmetric]
  by (simp_all add: find_last del: not_None_eq)

text \<open>Whether a card can be posted depends on the messages alone.\<close>

lemma found_after_set: "find_message (set_widget mid widget db) i = None \<longleftrightarrow> find_message db i = None"
proof -
  have "find (\<lambda>m. mr_id m = i) (map (\<lambda>m. if mr_id m = mid then m\<lparr>mr_widget := Some widget\<rparr> else m) rows) = None \<longleftrightarrow>
      find (\<lambda>m. mr_id m = i) rows = None" for rows
    by (induction rows) auto
  then show ?thesis by (simp add: set_widget_def update_message_def find_message_def)
qed

lemma posting_fails:
  assumes "\<And>z. \<exists>row. g z = Some row"
  shows "isl (try_then (door r) (\<lambda>z. or_fail (find_message (set_widget (fst z) (w z) (snd z)) (fst z)) Vanished
      (\<lambda>msg. or_fail (g z) Vanished (\<lambda>row. Inr (h z msg row))))) \<longleftrightarrow>
    isl r \<or> find_message (snd (projr r)) (fst (projr r)) = None"
proof (cases r)
  case (Inr z)
  obtain row where "g z = Some row" using assms by blast
  with Inr show ?thesis
    using found_after_set [of "fst z" "w z" "snd z" "fst z"]
    by (cases "find_message (set_widget (fst z) (w z) (snd z)) (fst z)") auto
qed simp

lemma cards_fail:
  "isl (create_poll_card E c m p (db, W)) = isl (create_poll_card E c m p (db, V))"
  "isl (create_giveaway_card E A c m prize d (db, W)) = isl (create_giveaway_card E A c m prize d (db, V))"
  unfolding create_poll_card_def create_giveaway_card_def Let_def split_beta fst_conv snd_conv
  by (simp_all only: posting_fails created_found)

lemma event_card_fails: "isl (create_event_card E A c m p (db, W)) = isl (create_event_card E A c m p (db, V))"
  unfolding create_event_card_def
  by (cases "map_sum BadStart id (resolve_start (pe_when p) (we_now E))")
    (simp_all only: try_then_simps Let_def case_prod_unfold fst_conv snd_conv posting_fails created_found)

lemma agree_posted: "isl r = isl r' \<Longrightarrow> agree (posted c S event r) (posted c T event r')"
  by (cases r; cases r') (auto simp: posted_def)

lemma agree_parsed: "(\<And>p. agree (k p) (k' p)) \<Longrightarrow> agree (parsed_args r reason S k) (parsed_args r reason T k')"
  by (simp add: parsed_args_def split: option.split sum.split)

lemma agree_runs:
  assumes "alike m o' S T"
  shows "agree (run_poll E m c args S) (run_poll E m c args T)"
    and "agree (run_giveaway E m o' c args S) (run_giveaway E m o' c args T)"
    and "agree (run_event E m c args S) (run_event E m c args T)"
    and "agree (run_reminder E m c args S) (run_reminder E m c args T)"
    and "agree (run_bot E cmd c content S) (run_bot E cmd c content T)"
  unfolding run_poll_def run_giveaway_def run_event_def run_reminder_def run_bot_def
  by (auto simp: alike_same [OF assms] count_pending_def alike_pending [OF assms] Let_def
      intro!: agree_parsed agree_guarded agree_posted cards_fail event_card_fails split: option.split sum.split)

lemma agree_auth:
  assumes "alike m o' S T" and "\<And>S' T'. alike m o' S' T' \<Longrightarrow> agree (k S') (k' T')"
  shows "agree (check_run_command_channel_auth E m o' c S k) (check_run_command_channel_auth E m o' c T k')"
  unfolding check_run_command_channel_auth_def
  by (rule agree_unless [OF assms(1)])
    (auto simp: is_blocked_def alike_same assms(2) intro!: agree_guarded split: option.split)

lemma agree_command:
  assumes "alike m o' S T"
  shows "agree (run_command api E m o' trigger c args S) (run_command api E m o' trigger c args T)"
proof -
  have "agree
      (case find_by_trigger S' t of None \<Rightarrow> refuse UnknownCommand S'
       | Some cmd \<Rightarrow>
           if cm_kind cmd = ''poll'' then run_poll E m c args S' else if cm_kind cmd = ''giveaway'' then run_giveaway E m o' c args S'
           else if cm_kind cmd = ''event'' then run_event E m c args S' else if cm_kind cmd = ''reminder'' then run_reminder E m c args S'
           else if cm_kind cmd = ''text'' then run_bot E cmd c (Some (case cm_body_text cmd of None \<Rightarrow> [] | Some b \<Rightarrow> b)) S'
           else if cm_kind cmd = ''api'' then run_bot E cmd c (api cmd args) S' else refuse CommandMisconfigured S')
      (case find_by_trigger T' t of None \<Rightarrow> refuse UnknownCommand T'
       | Some cmd \<Rightarrow>
           if cm_kind cmd = ''poll'' then run_poll E m c args T' else if cm_kind cmd = ''giveaway'' then run_giveaway E m o' c args T'
           else if cm_kind cmd = ''event'' then run_event E m c args T' else if cm_kind cmd = ''reminder'' then run_reminder E m c args T'
           else if cm_kind cmd = ''text'' then run_bot E cmd c (Some (case cm_body_text cmd of None \<Rightarrow> [] | Some b \<Rightarrow> b)) T'
           else if cm_kind cmd = ''api'' then run_bot E cmd c (api cmd args) T' else refuse CommandMisconfigured T')"
    if "alike m o' S' T'" for S' T' t
    using agree_runs [OF that] by (simp add: find_by_trigger_def alike_same [OF that] split: option.split)
  then show ?thesis
    using alike_update(3) [OF assms]
    by (auto simp: run_command_def content_block_reason_def alike_same [OF assms] Let_def split_beta
        intro!: agree_guarded agree_auth split: option.split)
qed

section \<open>Every request\<close>

lemma agree_arm:
  assumes "alike m o' S T"
  shows "agree (handle_arm E m o' request S) (handle_arm E m o' request T)"
  using agree_polls [OF assms] agree_giveaways [OF assms] agree_reroll [OF assms] agree_events [OF assms] agree_edit [OF assms]
    agree_active [OF assms] agree_reminders [OF assms] agree_delete [OF assms]
  by (cases request) (simp_all add: handle_arm_def)

text \<open>C12: A member learns nothing of the widgets of channels it cannot see, from any request.  Take two
  states a server can reach that are the same but for their widgets, with the same polls, giveaways and
  events in the channels the member can see (the votes, entries and answers of these included) and the same
  reminders of the member: every request about widgets and every command gets the same answer in both,
  whatever else the tables hold.  In particular a widget of a hidden channel is refused as one that does not
  exist is.\<close>

theorem hidden_widgets_are_unknown:
  assumes "widget_reaches api S" and "widget_reaches api T" and "T = S\<lparr>ws_widgets := ws_widgets T\<rparr>"
    and "seen pl_id pl_channel vt_poll (\<lambda>c. widget_channel_visible S m c o') (wd_polls (ws_widgets S)) (wd_votes (ws_widgets S)) =
         seen pl_id pl_channel vt_poll (\<lambda>c. widget_channel_visible S m c o') (wd_polls (ws_widgets T)) (wd_votes (ws_widgets T))"
    and "seen gw_id gw_channel ge_giveaway (\<lambda>c. widget_channel_visible S m c o') (wd_giveaways (ws_widgets S)) (wd_entries (ws_widgets S)) =
         seen gw_id gw_channel ge_giveaway (\<lambda>c. widget_channel_visible S m c o') (wd_giveaways (ws_widgets T)) (wd_entries (ws_widgets T))"
    and "seen vc_id vc_channel rs_event (\<lambda>c. widget_channel_visible S m c o') (wd_events (ws_widgets S)) (wd_rsvps (ws_widgets S)) =
         seen vc_id vc_channel rs_event (\<lambda>c. widget_channel_visible S m c o') (wd_events (ws_widgets T)) (wd_rsvps (ws_widgets T))"
    and "filter (\<lambda>r. rm_owner r = m) (wd_reminders (ws_widgets S)) = filter (\<lambda>r. rm_owner r = m) (wd_reminders (ws_widgets T))"
  shows "fst (handle_widget api E m o' request S) = fst (handle_widget api E m o' request T)"
proof -
  have like: "alike m o' S T"
    using assms reaches_ok [OF assms(1)] reaches_ok [OF assms(2)] by (simp add: alike_def Let_def)
  show ?thesis
    using agree_arm [OF like, of E request] agree_command [OF like]
    by (cases request) (auto simp: handle_widget_def agree_def refuse_def content_block_reason_def alike_same [OF like] split: option.split)
qed

theorem hidden_widgets_are_unknown_witness:
  "fst (handle_widget demo_api (demo_env 200) cora False (VotePoll 1 0) (demo_at no_widgets)) =
   fst (handle_widget demo_api (demo_env 200) cora False (VotePoll 1 0) (demo_at (ws_widgets demo_polled)))"
proof (rule hidden_widgets_are_unknown)
  show "widget_reaches demo_api (demo_at no_widgets)" by (rule widget_demo_reached)
  show "widget_reaches demo_api (demo_at (ws_widgets demo_polled))"
    using widget_reaches.step [OF widget_demo_reached(2), of "Elsewhere demo_start"] by (simp add: demo_elsewhere)
qed (simp_all add: demo_at_def demo_widgets seen_def poll_create_def no_widgets_def widget_channel_visible_def channel_visible_def demo_start_def demo_access_def
   get_chan_def demo_channel_def is_dm_participant_def anna_def bert_def cora_def Let_def)

end
