(* ===== verification/Spec2Isabelle.thy ===== *)
theory Spec2Isabelle
  imports IngestClaims2 MediaClaims JitterBuffer RelayRouter RelayFetch FilePolicy AdmissionClaims
    E2eeClaims E2eeResolver E2eeTexts VoiceAudio MediaStreamClaims WidgetDraws WidgetDates
    WidgetNotices WidgetSealed WidgetHidden
begin

text \<open>
  Farder: a chat system of community servers whose history is a signed event log, with end-to-end
  encrypted channels, run behind relays.  This library models its core, as it is written in
  \<open>src/crates\<close> and \<open>src/client/src-tauri\<close>, and proves what makes the parts correct.

  \<^bold>\<open>The program.\<close>  Clients sign events on a chain per device; every party replays the log with the
  same fold (\<open>farder-crypto/src/event_log_state.rs\<close>), which decides who is a member, which device is
  valid, what a channel is and which commit of an encrypted group counts.  A server
  (\<open>farder-server\<close>) runs the fold live on each submission, stores the event and derives the rows it
  serves from it; around that it keeps roles, channels, permissions and live subscriptions in
  tables of its own.  A relay (\<open>farder-relay\<close>) connects clients to servers that have no address and
  fetches pages for them.  Voice and video are sealed under keys the server does not have, cut into
  datagrams (\<open>farder-protocol/src/media_datagram.rs\<close>), routed by the server
  (\<open>farder-server/src/media_stream.rs\<close>) and put together and in order by the receiver
  (\<open>voice/recv.rs\<close>, \<open>voice/jitter.rs\<close>).

  \<^bold>\<open>Theories.\<close>
  \<^item> \<open>FarderPrelude\<close>: early returns as sums (\<open>ensure\<close>, \<open>or_fail\<close>, \<open>try_then\<close> with the collection
    \<open>result_simps\<close>), checked arithmetic, maps and ordered tables.
  \<^item> The log, \<open>event_log.rs\<close>: \<open>EventLog\<close> (genesis, certificates, payloads, signing).
  \<^item> The fold, \<open>event_log_state.rs\<close>: \<open>LogState\<close> (the state, its queries), \<open>LogAuthz\<close> (the checks of an
    event), \<open>LogApply\<close> (the effects, \<open>log_apply\<close>, \<open>replay\<close>).  \<open>LogFrame\<close> to \<open>LogHistory\<close> hold the frames,
    the invariant \<open>log_wf\<close> part by part, the reading of group events and what a whole history keeps;
    \<open>LogScenario\<close> and \<open>LogRuns\<close> one concrete history for the witnesses; \<open>LogClaims\<close>, \<open>LogClaims2\<close>,
    \<open>LogDevices\<close> and \<open>LogClaims3\<close> the properties.
  \<^item> The ingest, \<open>event_ingest.rs\<close>, \<open>channel_class.rs\<close>, \<open>messages.rs\<close>, \<open>attachments.rs\<close>, the
    \<open>SubmitEvent\<close> arm of \<open>handlers.rs\<close> and the rebuild of \<open>main.rs\<close>: \<open>ServerDb\<close> (the tables and every
    door that writes messages), \<open>EventIngest\<close> (caps, storage, derivation, the reconciling passes),
    \<open>EventFetch\<close> (paged catch-up), \<open>SubmitEvent\<close> (the arm, \<open>startup\<close>).  \<open>ServerDbInv\<close>, \<open>SubmitInv\<close> and
    \<open>ServerRuns\<close> hold the invariants and the step relation of a server's life (submissions,
    server-authored writes, restarts); \<open>ServerScenario\<close> a concrete one; \<open>IngestClaims\<close> and
    \<open>IngestClaims2\<close> the properties.
  \<^item> Access control, \<open>permissions.rs\<close>, \<open>members.rs\<close>, \<open>channels.rs\<close> and the arms of
    \<open>handle_request\<close> that change roles, members, channels, categories and overrides: \<open>AccessState\<close>
    (tables, queries, \<open>resolve_perms\<close>, visibility), \<open>AccessHandlers\<close> (statements, guards,
    \<open>handle_access\<close>), \<open>AccessInv\<close> (frames, the role table, rank).
  \<^item> Subscriptions, sessions and fan-out, \<open>subscriptions.rs\<close> and \<open>connection.rs\<close>: \<open>Subscriptions\<close> (the
    operations, and the interleaved runs of the connections), \<open>SubscriptionInv\<close> (every loss of access
    is announced), \<open>AccessClaims\<close> (the properties of both, and the runs where the code falls short).
  \<^item> Coming in, \<open>auth.rs\<close>, \<open>invites.rs\<close>, the handshake of \<open>connection.rs\<close> and the start of \<open>main.rs\<close>:
    \<open>Handshake\<close> (admission, invites, the setup token, the owner, handshakes side by side) and
    \<open>AdmissionClaims\<close> (its properties, and the runs in which a server ends up with the wrong owner).
  \<^item> Encrypted channels on the client.  The MLS wrapper \<open>farder-mls\<close>: \<open>MlsEnvelope\<close> (padding,
    credentials), \<open>MlsGroup\<close> (staged commits against their declaration, own commits, sealing, over the
    library as a record \<open>mls_lib\<close>).  The client \<open>farder-e2ee-client\<close>: \<open>E2eeTransport\<close> (transport, errors,
    chain, paging), \<open>E2eeClient\<close> (certificates, incoming commits, sealed messages, resync, joining),
    \<open>E2eeSteward\<close> (own commits, repairs, devices, resets).  \<open>E2eeServer\<close> makes the modelled server the
    transport, with the texts it refuses with; \<open>E2eeScenario\<close> is a small instance for the witnesses.
    The properties: \<open>E2eeBounds\<close> (requests, catch-up), \<open>E2eeChain\<close> (the device's chain), \<open>E2eeClaims\<close>
    (commits, judgement), \<open>E2eeTexts\<close> (refusals), \<open>E2eeResolver\<close> (certificates and the fold's devices).
  \<^item> The relay: \<open>RelayLimits\<close> (\<open>limits.rs\<close>), \<open>RelayRouter\<close> (\<open>router.rs\<close>, \<open>datagram.rs\<close>), \<open>RelayFetch\<close>
    (\<open>embed.rs\<close>, \<open>proxy.rs\<close>).
  \<^item> Media: \<open>MediaDatagram\<close>, \<open>MediaReassembly\<close> and \<open>MediaClaims\<close> (header, fragments, reassembly),
    \<open>MediaCrypto\<close> (\<open>media.rs\<close>, \<open>encryption.rs\<close>, \<open>key_exchange.rs\<close>: the sealed frames and the keys of
    streams, over the primitives as a record), \<open>JitterBuffer\<close>, \<open>VoicePipeline\<close> (the loops of the
    client's \<open>voice\<close>), \<open>VoiceClaims\<close> and \<open>VoiceAudio\<close> (their properties), \<open>MediaStreams\<close> (the server's
    router and its requests) and \<open>MediaStreamClaims\<close> (its runs).
  \<^item> Attachments: \<open>FilePolicy\<close> (\<open>file_policy.rs\<close>).
  \<^item> Widgets, \<open>polls.rs\<close>, \<open>giveaways.rs\<close>, \<open>reminders.rs\<close>, \<open>channel_events.rs\<close>, \<open>widgets.rs\<close>, their
    arms of \<open>handle_request\<close> and the \<open>RunCommand\<close> arm of \<open>connection.rs\<close>: \<open>WidgetParse\<close> (the arguments
    of the commands), \<open>WidgetState\<close> (the tables, polls and giveaways), \<open>WidgetEvents\<close> (reminders, events,
    the sweeper), \<open>WidgetHandlers\<close> (every request and command).  \<open>WidgetInv\<close> holds the small changes a
    request or a tick is made of, \<open>WidgetDemo\<close> a small server, and the properties are in
    \<open>WidgetClaims\<close> (the invariant of the tables, the counts), \<open>WidgetOver\<close> (what is over),
    \<open>WidgetDraws\<close>, \<open>WidgetDates\<close> (the calendar), \<open>WidgetNotices\<close> (what is sent), \<open>WidgetSealed\<close>
    (encrypted channels) and \<open>WidgetHidden\<close> (channels a member cannot see).

  \<^bold>\<open>How code and model correspond.\<close>  A struct is a record, an enum a datatype, a function of the code
  the definition of its name; a table is the list of its rows in row-id order.  \<open>?\<close>, \<open>ensure!\<close> and
  \<open>bail!\<close> are branches of a sum, a panic is one of its values.  Integers keep their width where the
  code's arithmetic depends on it (permission bits, sequence numbers, datagram fields, handles) and
  are natural numbers with the code's checks where it only compares and counts.  Hashing, signatures
  and the serialization are the fields of the record \<open>crypto\<close>, an argument of the definitions; what a
  property needs of them (collision freedom, round trips) is a hypothesis that the witness discharges
  with \<open>toy_crypto\<close>.

  \<^bold>\<open>What the lemmas show.\<close>  Of the fold: the invariant of every replayed state, that no plaintext
  enters an encrypted channel, the gates of sealed content, that commits chain and epochs do not go
  back, that nobody is evicted in silence, that a rekey stays possible, bans, revocations and
  deletions that last.  Of the ingest: every reachable server serves exactly the view of its log, a
  restart rebuilds it, and paged catch-up is complete.  Of access: what each permission bit comes
  from, that requests respect rank, and that in the orderly runs nobody is sent the events of a
  channel it cannot see.  Of the encrypted client: an incoming commit does what it declares and adds
  only devices the fold holds live, an own commit that fails says whether the group has moved, every
  operation leaves the chain state at the head the log has, the refusals are understood as they are
  meant, and catching up and sending end.  Of the transport: datagrams and fragments round-trip
  within bounds on any input, the jitter buffer refines a window of the latest frames, what is spoken
  or shown arrives, no nonce is used twice, the server routes a frame only within the stream it was
  joined to and at the track's rate, the relay delivers to the session that was opened, caps and
  rates hold, and no fetch leaves for a private address.  Of the widgets: that every request and every
  tick is made of the changes \<open>WidgetInv\<close> lists, that the counts of a poll are counts of members, what is
  over stays over, draws are fair, reminders go out once, encrypted channels get nothing and a member
  learns nothing of the widgets it cannot see.

  \<^bold>\<open>Termination and bounds.\<close>  Every definition is total; loops are structural recursions over the
  input, but for three with termination proofs: the splitting of a frame into chunks, the client's
  paging, whose 64-bit cursor must grow, and its resync, which gives up after ten attempts.  In
  \<open>EventFetch\<close> the paging of an abstract client takes the number of its requests: as many as there are
  stored rows after the cursor, divided by the page size, are enough and the last says to stop.

  \<^bold>\<open>Not modelled.\<close>  Sockets, QUIC streams, HTTP and DNS, SQL itself, the MLS library and the AEAD and
  signature primitives (third party); the user interface and the audio and video devices; the
  features around the core that are statements over SQL or HTTP (bots, webhooks, templates, retention,
  search, reactions, friends); the caches and the page adapters of the relay's fetches; of the
  encrypted client, the files of its store and the creation of a channel with them; of the voice
  client, the controller that starts and stops the modelled loops; of the widgets, the delivery of the
  direct messages a tick asks for, and what an \<open>api\<close> command makes of the page it fetches.
\<close>

end
